(* ===== verification/Smb_Prelude.thy ===== *)
theory Smb_Prelude
  imports Main "HOL-Library.Word"
begin

text \<open>
  The vocabulary the components share: machine integers, byte buffers with C's bounds
  (an access outside an object is the outcome \<open>Fault\<close>), the result type of the fallible
  code, the byte-order macros of \<open>lib/util/byteorder.h\<close>, the status codes the components
  return, and the generic lemmas on words, lists and results their proofs use.
\<close>

unbundle bit_operations_syntax

named_theorems res_simps \<open>rewriting of the result combinators\<close>
named_theorems byte_simps \<open>reading back what was written, byte by byte\<close>

type_synonym u8 = "8 word"
type_synonym u16 = "16 word"
type_synonym u32 = "32 word"
type_synonym u64 = "64 word"
type_synonym bytes = "8 word list"

section \<open>Results of fallible code\<close>

text \<open>
  \<open>Status\<close> carries an \<open>NTSTATUS\<close> other than \<open>NT_STATUS_OK\<close>. \<open>Fault\<close> is not a value the
  code returns: it marks a read or write outside the object a pointer points into, which
  in C is undefined behaviour.
\<close>

datatype c_error = Status u32 | Fault

type_synonym 'a res = "c_error + 'a"

text \<open>
  \<open>chk m f\<close> is the macro \<open>NDR_CHECK\<close> (and its relatives) of the source: evaluate the
  call, return its status at once if it is not OK, go on with its result otherwise.
\<close>

definition chk :: "'a res \<Rightarrow> ('a \<Rightarrow> 'b res) \<Rightarrow> 'b res" where
  "chk m f = (case m of Inl e \<Rightarrow> Inl e | Inr a \<Rightarrow> f a)"

definition NT_STATUS_OK :: u32 where "NT_STATUS_OK = 0"
definition NT_STATUS_IS_OK :: "u32 \<Rightarrow> bool" where "NT_STATUS_IS_OK x = (x = 0)"
definition NT_STATUS_UNSUCCESSFUL :: u32 where "NT_STATUS_UNSUCCESSFUL = 0xC0000001"
definition NT_STATUS_NOT_IMPLEMENTED :: u32 where "NT_STATUS_NOT_IMPLEMENTED = 0xC0000002"
definition NT_STATUS_INVALID_PARAMETER :: u32 where "NT_STATUS_INVALID_PARAMETER = 0xC000000D"
definition NT_STATUS_NO_MEMORY :: u32 where "NT_STATUS_NO_MEMORY = 0xC0000017"
definition NT_STATUS_ACCESS_DENIED :: u32 where "NT_STATUS_ACCESS_DENIED = 0xC0000022"
definition NT_STATUS_BUFFER_TOO_SMALL :: u32 where "NT_STATUS_BUFFER_TOO_SMALL = 0xC0000023"
definition NT_STATUS_ARRAY_BOUNDS_EXCEEDED :: u32 where "NT_STATUS_ARRAY_BOUNDS_EXCEEDED = 0xC000008C"
definition NT_STATUS_INTERNAL_ERROR :: u32 where "NT_STATUS_INTERNAL_ERROR = 0xC00000E5"

text \<open>The largest block talloc hands out; a request of this size or more returns NULL.\<close>

definition MAX_TALLOC_SIZE :: nat where "MAX_TALLOC_SIZE = 0x10000000"

section \<open>Byte buffers\<close>

definition get_byte :: "bytes \<Rightarrow> nat \<Rightarrow> u8 res" where
  "get_byte buf pos = (if pos < length buf then Inr (buf ! pos) else Inl Fault)"

definition get_bytes :: "bytes \<Rightarrow> nat \<Rightarrow> nat \<Rightarrow> bytes res" where
  "get_bytes buf pos n =
     (if n = 0 \<or> pos + n \<le> length buf then Inr (take n (drop pos buf)) else Inl Fault)"

definition put_bytes :: "bytes \<Rightarrow> nat \<Rightarrow> bytes \<Rightarrow> bytes res" where
  "put_bytes buf pos bs =
     (if bs = [] then Inr buf
      else if pos + length bs \<le> length buf
      then Inr (take pos buf @ bs @ drop (pos + length bs) buf) else Inl Fault)"

section \<open>Byte order\<close>

definition CVAL :: "bytes \<Rightarrow> nat \<Rightarrow> u32 res" where
  "CVAL buf pos = chk (get_byte buf pos) (\<lambda>b. Inr (ucast b))"

definition SVAL :: "bytes \<Rightarrow> nat \<Rightarrow> u32 res" where
  "SVAL buf pos = chk (CVAL buf pos) (\<lambda>a. chk (CVAL buf (pos + 1)) (\<lambda>b. Inr (a OR push_bit 8 b)))"

definition IVAL :: "bytes \<Rightarrow> nat \<Rightarrow> u32 res" where
  "IVAL buf pos = chk (SVAL buf pos) (\<lambda>a. chk (SVAL buf (pos + 2)) (\<lambda>b. Inr (a OR push_bit 16 b)))"

definition SREV :: "u32 \<Rightarrow> u32" where
  "SREV x = push_bit 8 (x AND 0xFF) OR (drop_bit 8 x AND 0xFF)"

definition IREV :: "u32 \<Rightarrow> u32" where
  "IREV x = push_bit 16 (SREV x) OR SREV (drop_bit 16 x)"

definition RSVAL :: "bytes \<Rightarrow> nat \<Rightarrow> u32 res" where
  "RSVAL buf pos = chk (SVAL buf pos) (\<lambda>v. Inr (SREV v))"

definition RIVAL :: "bytes \<Rightarrow> nat \<Rightarrow> u32 res" where
  "RIVAL buf pos = chk (IVAL buf pos) (\<lambda>v. Inr (IREV v))"

text \<open>The two bytes \<open>SSVALX\<close> stores and the four \<open>SIVALX\<close> stores.\<close>

definition le16 :: "u16 \<Rightarrow> bytes" where
  "le16 v = [ucast (v AND 0xFF), ucast (drop_bit 8 v)]"

definition le32 :: "u32 \<Rightarrow> bytes" where
  "le32 v = le16 (ucast (v AND 0xFFFF)) @ le16 (ucast (drop_bit 16 v))"

definition SSVAL :: "bytes \<Rightarrow> nat \<Rightarrow> u32 \<Rightarrow> bytes res" where
  "SSVAL buf pos v = put_bytes buf pos (le16 (ucast v))"

definition SIVAL :: "bytes \<Rightarrow> nat \<Rightarrow> u32 \<Rightarrow> bytes res" where
  "SIVAL buf pos v = put_bytes buf pos (le32 v)"

definition RSSVAL :: "bytes \<Rightarrow> nat \<Rightarrow> u32 \<Rightarrow> bytes res" where
  "RSSVAL buf pos v = SSVAL buf pos (SREV v)"

definition RSIVAL :: "bytes \<Rightarrow> nat \<Rightarrow> u32 \<Rightarrow> bytes res" where
  "RSIVAL buf pos v = SIVAL buf pos (IREV v)"

section \<open>Lemmas on results\<close>

lemma chk_Inl [simp, res_simps]: "chk (Inl e) f = Inl e"
  by (simp add: chk_def)

lemma chk_Inr [simp, res_simps]: "chk (Inr a) f = f a"
  by (simp add: chk_def)

lemma chk_eq_Inr [res_simps]: "chk m f = Inr b \<longleftrightarrow> (\<exists>a. m = Inr a \<and> f a = Inr b)"
  by (cases m) auto

lemma chk_eq_Inl [res_simps]:
  "chk m f = Inl e \<longleftrightarrow> m = Inl e \<or> (\<exists>a. m = Inr a \<and> f a = Inl e)"
  by (cases m) auto

lemma chk_assoc: "chk (chk m f) g = chk m (\<lambda>a. chk (f a) g)"
  by (cases m) auto

lemma chk_if [res_simps]: "chk (if b then m else n) f = (if b then chk m f else chk n f)"
  by simp

lemma chk_cong [fundef_cong]:
  "m = m' \<Longrightarrow> (\<And>a. m' = Inr a \<Longrightarrow> f a = g a) \<Longrightarrow> chk m f = chk m' g"
  by (cases m') auto

section \<open>Lemmas on buffers\<close>

lemma get_byte_append [byte_simps]:
  "get_byte (xs @ b # ys) (length xs) = Inr b"
  by (simp add: get_byte_def)

lemma get_byte_ok: "pos < length buf \<Longrightarrow> get_byte buf pos = Inr (buf ! pos)"
  by (simp add: get_byte_def)

lemma get_bytes_append [byte_simps]:
  "length bs = n \<Longrightarrow> get_bytes (xs @ bs @ ys) (length xs) n = Inr bs"
  by (simp add: get_bytes_def)

lemma length_put_bytes: "put_bytes buf pos bs = Inr buf' \<Longrightarrow> length buf' = length buf"
  by (auto simp: put_bytes_def split: if_splits)

lemma put_bytes_ok:
  "pos + length bs \<le> length buf \<Longrightarrow>
   put_bytes buf pos bs = Inr (take pos buf @ bs @ drop (pos + length bs) buf)"
  by (auto simp: put_bytes_def)

lemma length_le16 [simp]: "length (le16 v) = 2"
  by (simp add: le16_def)

lemma length_le32 [simp]: "length (le32 v) = 4"
  by (simp add: le32_def)

lemma le16_not_Nil [simp]: "le16 v \<noteq> []"
  by (simp add: le16_def)

lemma le32_not_Nil [simp]: "le32 v \<noteq> []"
  by (simp add: le32_def)

section \<open>Lemmas on words\<close>

lemma FF_mask: "(0xFF :: 'a::len word) = mask 8"
  by (simp add: mask_eq_exp_minus_1)

lemma FFFF_mask: "(0xFFFF :: 'a::len word) = mask 16"
  by (simp add: mask_eq_exp_minus_1)

lemma ucast_and_FF [simp]: "(ucast (v AND 0xFF) :: u8) = ucast (v :: 'a::len word)"
  unfolding FF_mask by (rule bit_word_eqI) (auto simp: bit_simps dest: bit_imp_le_length)

lemma ucast_and_FFFF [simp]: "(ucast (v AND 0xFFFF) :: u16) = ucast (v :: 'a::len word)"
  unfolding FFFF_mask by (rule bit_word_eqI) (auto simp: bit_simps dest: bit_imp_le_length)

lemma join_bytes16:
  "(ucast (ucast (v::u16) :: u8) OR push_bit 8 (ucast (ucast (drop_bit 8 v) :: u8)) :: u32) = ucast v"
  by (rule bit_word_eqI) (auto simp: bit_simps not_less dest: bit_imp_le_length)

lemma join_words32:
  "(ucast (ucast (v::u32) :: u16) OR push_bit 16 (ucast (ucast (drop_bit 16 v) :: u16)) :: u32) = v"
  by (rule bit_word_eqI) (auto simp: bit_simps not_less)

lemma join_words64:
  "(ucast (ucast (v::u64) :: u32) OR push_bit 32 (ucast (ucast (drop_bit 32 v) :: u32)) :: u64) = v"
  by (rule bit_word_eqI) (auto simp: bit_simps not_less)

lemma bit_SREV:
  "bit (SREV x) n \<longleftrightarrow> n < 8 \<and> bit x (n + 8) \<or> 8 \<le> n \<and> n < 16 \<and> bit x (n - 8)"
  by (auto simp: SREV_def FF_mask bit_simps ac_simps)

lemma bit_IREV:
  "bit (IREV x) n \<longleftrightarrow>
   n < 32 \<and> bit x (if n < 8 then n + 24 else if n < 16 then n + 8 else if n < 24 then n - 8 else n - 24)"
  by (auto simp: IREV_def bit_SREV bit_simps ac_simps not_less dest: bit_imp_le_length)

lemma IREV_IREV [simp]: "IREV (IREV v) = v"
  by (rule bit_word_eqI) (auto simp: bit_IREV)

lemma SREV_ucast_SREV [simp]: "SREV (ucast (ucast (SREV (ucast (v :: u16))) :: u16)) = ucast v"
  by (rule bit_word_eqI) (auto simp: bit_SREV bit_simps dest: bit_imp_le_length)

lemma and_not_mask: "w AND NOT (mask k) = w - take_bit k w" for w :: "'a::len word"
proof -
  have "w AND NOT (mask k) = push_bit k (drop_bit k w)"
    by (rule bit_word_eqI) (auto simp: bit_simps)
  also have "\<dots> = w - take_bit k w"
    using bits_ident [of k w] by (simp add: eq_diff_eq)
  finally show ?thesis .
qed

lemma unat_take_bit_mod: "unat (take_bit k w) = unat w mod 2 ^ k" for w :: "'a::len word"
  unfolding unsigned_take_bit_eq by (rule take_bit_eq_mod)

lemma unat_and_not_mask: "unat (w AND NOT (mask k)) = unat w - unat w mod 2 ^ k"
  for w :: "'a::len word"
proof -
  have "take_bit k w \<le> w" by (simp add: word_le_nat_alt unat_take_bit_mod)
  then show ?thesis by (simp add: and_not_mask unat_sub unat_take_bit_mod)
qed

lemma unat_add_small: "unat a + unat b < 2 ^ LENGTH('a) \<Longrightarrow> unat (a + b) = unat a + unat b"
  for a b :: "'a::len word"
  by (simp add: unat_add_lem)

lemma unat_u32: "unat (w :: u32) < 2 ^ 32"
  by (rule order_less_le_trans [OF unsigned_less]) simp

lemma unat_ucast_u64 [simp]: "unat (ucast (w :: u32) :: u64) = unat w"
  by (simp add: unsigned_ucast_eq take_bit_nat_eq_self_iff order_less_trans [OF unat_u32])

lemma bit_u8_ge: "8 \<le> k \<Longrightarrow> \<not> bit (a :: u8) k"
  by (auto dest: bit_imp_le_length)

section \<open>Reading back what was stored\<close>

lemma SVAL_le16: "SVAL (xs @ le16 v @ ys) (length xs) = Inr (ucast v)"
  using join_bytes16 [of v]
  by (simp add: SVAL_def CVAL_def get_byte_def le16_def nth_append)

lemma SVAL_at:
  "take 2 (drop pos buf) = le16 v \<Longrightarrow> SVAL buf pos = Inr (ucast v)"
proof -
  assume a: "take 2 (drop pos buf) = le16 v"
  then have "length (take 2 (drop pos buf)) = 2" by simp
  then have len: "pos + 2 \<le> length buf" by simp
  have "buf = take pos buf @ le16 v @ drop (pos + 2) buf"
    using a by (metis append_take_drop_id drop_drop add.commute)
  with len show ?thesis
    using SVAL_le16 [of "take pos buf" v "drop (pos + 2) buf"] by simp
qed

lemma IVAL_at:
  assumes "take 4 (drop pos buf) = le32 v"
  shows "IVAL buf pos = Inr v"
proof -
  have 1: "take 2 (drop pos buf) = le16 (ucast v)"
    using arg_cong [OF assms, of "take 2"] by (simp add: le32_def take_drop)
  have 2: "take 2 (drop (pos + 2) buf) = le16 (ucast (drop_bit 16 v))"
    using arg_cong [OF assms, of "drop 2"] by (simp add: le32_def drop_take add.commute)
  show ?thesis
    using join_words32 [of v] by (simp add: IVAL_def SVAL_at [OF 1] SVAL_at [OF 2] del: add_2_eq_Suc')
qed

lemma le32_inj: "le32 a = le32 b \<longleftrightarrow> a = b"
  using IVAL_at [of 0 "le32 a" b] IVAL_at [of 0 "le32 a" a] by auto

lemma SVAL_in_bounds: "pos + 2 \<le> length buf \<Longrightarrow> \<exists>v. SVAL buf pos = Inr v"
  by (simp add: SVAL_def CVAL_def get_byte_def)

lemma IVAL_in_bounds: "pos + 4 \<le> length buf \<Longrightarrow> \<exists>v. IVAL buf pos = Inr v"
  by (simp add: IVAL_def SVAL_def CVAL_def get_byte_def)

lemma SVAL_not_Status: "SVAL buf pos \<noteq> Inl (Status s)"
  by (simp add: SVAL_def CVAL_def get_byte_def)

lemma IVAL_not_Status: "IVAL buf pos \<noteq> Inl (Status s)"
  by (simp add: IVAL_def SVAL_def CVAL_def get_byte_def)

end
