(* ===== verification/Ndr.thy ===== *)
theory Ndr
  imports Smb_Prelude
begin

text \<open>
  The marshalling engine of \<open>librpc/ndr\<close>: the parse context \<open>struct ndr_pull\<close> and the
  build context \<open>struct ndr_push\<close> of \<open>libndr.h\<close>, the alignment and bounds macros, the
  scalar readers and writers of \<open>ndr_basic.c\<close> and the buffers, tokens, subcontexts, blobs
  and relative pointers of \<open>ndr.c\<close>. Offsets and sizes are 32-bit words, as in the source,
  so every comparison and addition wraps where the C code does. A context after an error
  is not returned: every caller gives it up (\<open>NDR_CHECK\<close>). Talloc contexts are not
  modelled, except that a block of \<open>MAX_TALLOC_SIZE\<close> bytes or more cannot be allocated.
  The lemmas about these definitions are in \<open>Ndr_Safe\<close>, \<open>Ndr_Codec\<close> and \<open>Ndr_Relative\<close>.
\<close>

section \<open>Flags and error codes\<close>

definition LIBNDR_FLAG_BIGENDIAN :: u32 where "LIBNDR_FLAG_BIGENDIAN = push_bit 0 1"
definition LIBNDR_FLAG_NOALIGN :: u32 where "LIBNDR_FLAG_NOALIGN = push_bit 1 1"
definition LIBNDR_FLAG_REMAINING :: u32 where "LIBNDR_FLAG_REMAINING = push_bit 21 1"
definition LIBNDR_FLAG_ALIGN2 :: u32 where "LIBNDR_FLAG_ALIGN2 = push_bit 22 1"
definition LIBNDR_FLAG_ALIGN4 :: u32 where "LIBNDR_FLAG_ALIGN4 = push_bit 23 1"
definition LIBNDR_FLAG_ALIGN8 :: u32 where "LIBNDR_FLAG_ALIGN8 = push_bit 24 1"
definition LIBNDR_ALIGN_FLAGS :: u32 where
  "LIBNDR_ALIGN_FLAGS = LIBNDR_FLAG_ALIGN2 OR LIBNDR_FLAG_ALIGN4 OR LIBNDR_FLAG_ALIGN8"
definition LIBNDR_FLAG_LITTLE_ENDIAN :: u32 where "LIBNDR_FLAG_LITTLE_ENDIAN = push_bit 27 1"
definition LIBNDR_FLAG_PAD_CHECK :: u32 where "LIBNDR_FLAG_PAD_CHECK = push_bit 28 1"
definition LIBNDR_FLAG_NO_NDR_SIZE :: u32 where "LIBNDR_FLAG_NO_NDR_SIZE = push_bit 31 1"

definition NDR_SCALARS :: u32 where "NDR_SCALARS = 1"
definition NDR_BUFFERS :: u32 where "NDR_BUFFERS = 2"

text \<open>\<open>has_flag x f\<close> is the C condition \<open>x & f\<close>.\<close>

definition has_flag :: "u32 \<Rightarrow> u32 \<Rightarrow> bool" where
  "has_flag x f \<longleftrightarrow> x AND f \<noteq> 0"

text \<open>The macro \<open>NDR_BE\<close>, on the flags word of either context.\<close>

definition NDR_BE :: "u32 \<Rightarrow> bool" where
  "NDR_BE fl \<longleftrightarrow>
     fl AND (LIBNDR_FLAG_BIGENDIAN OR LIBNDR_FLAG_LITTLE_ENDIAN) = LIBNDR_FLAG_BIGENDIAN"

datatype ndr_err_code =
    NDR_ERR_ARRAY_SIZE | NDR_ERR_BAD_SWITCH | NDR_ERR_OFFSET | NDR_ERR_RELATIVE
  | NDR_ERR_CHARCNV | NDR_ERR_LENGTH | NDR_ERR_SUBCONTEXT | NDR_ERR_COMPRESSION
  | NDR_ERR_STRING | NDR_ERR_VALIDATE | NDR_ERR_BUFSIZE | NDR_ERR_ALLOC
  | NDR_ERR_RANGE | NDR_ERR_TOKEN | NDR_ERR_IPV4ADDRESS

definition ndr_map_error :: "ndr_err_code \<Rightarrow> u32" where
  "ndr_map_error e = (case e of
      NDR_ERR_BUFSIZE \<Rightarrow> NT_STATUS_BUFFER_TOO_SMALL
    | NDR_ERR_TOKEN \<Rightarrow> NT_STATUS_INTERNAL_ERROR
    | NDR_ERR_ALLOC \<Rightarrow> NT_STATUS_NO_MEMORY
    | NDR_ERR_ARRAY_SIZE \<Rightarrow> NT_STATUS_ARRAY_BOUNDS_EXCEEDED
    | _ \<Rightarrow> NT_STATUS_INVALID_PARAMETER)"

definition ndr_pull_error :: "ndr_err_code \<Rightarrow> 'a res" where
  "ndr_pull_error e = Inl (Status (ndr_map_error e))"

definition ndr_push_error :: "ndr_err_code \<Rightarrow> 'a res" where
  "ndr_push_error e = Inl (Status (ndr_map_error e))"

definition ndr_set_flags :: "u32 \<Rightarrow> u32 \<Rightarrow> u32" where
  "ndr_set_flags pflags new_flags =
     (let f1 = (if has_flag new_flags LIBNDR_FLAG_LITTLE_ENDIAN
                then pflags AND NOT LIBNDR_FLAG_BIGENDIAN else pflags);
          f2 = (if has_flag new_flags LIBNDR_FLAG_BIGENDIAN
                then f1 AND NOT LIBNDR_FLAG_LITTLE_ENDIAN else f1);
          f3 = (if has_flag new_flags LIBNDR_FLAG_REMAINING
                then f2 AND NOT LIBNDR_ALIGN_FLAGS else f2);
          f4 = (if has_flag new_flags LIBNDR_ALIGN_FLAGS
                then f3 AND NOT LIBNDR_FLAG_REMAINING else f3)
      in f4 OR new_flags)"

section \<open>The contexts\<close>

text \<open>
  Pointers that serve as token keys are addresses; address 0 is NULL. A token list has its
  newest token first, where \<open>DLIST_ADD\<close> puts it.
\<close>

type_synonym ptr = nat
type_synonym ndr_token_list = "(ptr \<times> u32) list"

record ndr_pull =
  pull_flags :: u32
  pull_data :: bytes
  pull_data_size :: u32
  pull_offset :: u32
  pull_relative_base_offset :: u32
  pull_relative_base_list :: ndr_token_list
  pull_relative_list :: ndr_token_list
  pull_array_size_list :: ndr_token_list
  pull_array_length_list :: ndr_token_list
  pull_switch_list :: ndr_token_list
  pull_ptr_count :: u32

text \<open>
  \<open>push_data\<close> is the whole allocated block; its length is the number of bytes malloc
  returned. \<open>push_fill\<close> is the value of the bytes of a fresh block, which the C code may
  not rely on.
\<close>

record ndr_push =
  push_flags :: u32
  push_data :: bytes
  push_alloc_size :: u32
  push_offset :: u32
  push_relative_base_offset :: u32
  push_relative_base_list :: ndr_token_list
  push_switch_list :: ndr_token_list
  push_relative_list :: ndr_token_list
  push_full_ptr_list :: ndr_token_list
  push_ptr_count :: u32
  push_fill :: u8

definition NDR_BASE_MARSHALL_SIZE :: u32 where "NDR_BASE_MARSHALL_SIZE = 1024"

definition ndr_align_size :: "u32 \<Rightarrow> u64 \<Rightarrow> u64" where
  "ndr_align_size offset n =
     (if ucast offset AND (n - 1) = 0 then 0 else n - (ucast offset AND (n - 1)))"

definition ndr_pull_init_blob :: "bytes \<Rightarrow> ndr_pull" where
  "ndr_pull_init_blob blob =
     \<lparr>pull_flags = 0, pull_data = blob, pull_data_size = word_of_nat (length blob),
      pull_offset = 0, pull_relative_base_offset = 0, pull_relative_base_list = [],
      pull_relative_list = [], pull_array_size_list = [], pull_array_length_list = [],
      pull_switch_list = [], pull_ptr_count = 0\<rparr>"

definition ndr_pull_advance :: "ndr_pull \<Rightarrow> u32 \<Rightarrow> ndr_pull res" where
  "ndr_pull_advance ndr sz =
     (let ndr' = ndr\<lparr>pull_offset := pull_offset ndr + sz\<rparr>
      in if pull_offset ndr' > pull_data_size ndr' then ndr_pull_error NDR_ERR_BUFSIZE
         else Inr ndr')"

definition ndr_pull_set_offset :: "ndr_pull \<Rightarrow> u32 \<Rightarrow> ndr_pull res" where
  "ndr_pull_set_offset ndr ofs =
     (let ndr' = ndr\<lparr>pull_offset := ofs\<rparr>
      in if pull_offset ndr' > pull_data_size ndr' then ndr_pull_error NDR_ERR_BUFSIZE
         else Inr ndr')"

record ndr_pull_save =
  save_data_size :: u32
  save_offset :: u32

definition ndr_pull_save :: "ndr_pull \<Rightarrow> ndr_pull_save" where
  "ndr_pull_save ndr = \<lparr>save_data_size = pull_data_size ndr, save_offset = pull_offset ndr\<rparr>"

definition ndr_pull_restore :: "ndr_pull \<Rightarrow> ndr_pull_save \<Rightarrow> ndr_pull" where
  "ndr_pull_restore ndr save =
     ndr\<lparr>pull_offset := save_offset save, pull_data_size := save_data_size save\<rparr>"

definition ndr_push_init_ctx :: "u8 \<Rightarrow> ndr_push" where
  "ndr_push_init_ctx fill =
     \<lparr>push_flags = 0, push_data = replicate (unat NDR_BASE_MARSHALL_SIZE) fill,
      push_alloc_size = NDR_BASE_MARSHALL_SIZE, push_offset = 0,
      push_relative_base_offset = 0, push_relative_base_list = [], push_switch_list = [],
      push_relative_list = [], push_full_ptr_list = [], push_ptr_count = 0,
      push_fill = fill\<rparr>"

text \<open>The blob of the marshalled bytes; a NUL is stored behind them where there is room.\<close>

definition ndr_push_blob :: "ndr_push \<Rightarrow> (bytes \<times> ndr_push) res" where
  "ndr_push_blob ndr =
     chk (if push_alloc_size ndr > push_offset ndr
          then put_bytes (push_data ndr) (unat (push_offset ndr)) [0]
          else Inr (push_data ndr))
      (\<lambda>d. chk (get_bytes d 0 (unat (push_offset ndr))) (\<lambda>blob. Inr (blob, ndr\<lparr>push_data := d\<rparr>)))"

text \<open>\<open>talloc_realloc\<close> of a byte array: NULL for a too large size, fresh bytes at the end.\<close>

definition talloc_realloc_bytes :: "u8 \<Rightarrow> bytes \<Rightarrow> u32 \<Rightarrow> bytes option" where
  "talloc_realloc_bytes fill d n =
     (if unat n \<ge> MAX_TALLOC_SIZE then None
      else Some (take (unat n) d @ replicate (unat n - length d) fill))"

definition ndr_push_expand :: "ndr_push \<Rightarrow> u32 \<Rightarrow> ndr_push res" where
  "ndr_push_expand ndr sz =
     (if push_alloc_size ndr > sz then Inr ndr
      else
        let a1 = push_alloc_size ndr + NDR_BASE_MARSHALL_SIZE;
            a2 = (if sz + 1 > a1 then sz + 1 else a1)
        in case talloc_realloc_bytes (push_fill ndr) (push_data ndr) a2 of
             None \<Rightarrow> ndr_push_error NDR_ERR_ALLOC
           | Some d \<Rightarrow> Inr (ndr\<lparr>push_alloc_size := a2, push_data := d\<rparr>))"

section \<open>Bounds and alignment macros\<close>

definition NDR_PULL_NEED_BYTES :: "ndr_pull \<Rightarrow> u32 \<Rightarrow> unit res" where
  "NDR_PULL_NEED_BYTES ndr n =
     (if n > pull_data_size ndr \<or> pull_offset ndr + n > pull_data_size ndr
      then ndr_pull_error NDR_ERR_BUFSIZE else Inr ())"

text \<open>\<open>(ofs + (n-1)) & ~(n-1)\<close>, stored in a 32-bit offset.\<close>

definition ndr_round :: "u32 \<Rightarrow> u32 \<Rightarrow> u32" where
  "ndr_round ofs n = (ofs + (n - 1)) AND NOT (n - 1)"

text \<open>
  The padding check reads every byte from the offset to the next multiple of \<open>n\<close>: a first
  loop up to a byte that is not zero and, if there is one, a second loop that logs all of
  them. The end of the padding is computed in \<open>size_t\<close>; the index is an \<open>int\<close>, which for
  an offset of \<open>2^31\<close> or more is negative and compares as a huge \<open>size_t\<close>. The result is the
  logged bytes, if any.
\<close>

fun padding_scan :: "bytes \<Rightarrow> nat \<Rightarrow> nat \<Rightarrow> nat res" where
  "padding_scan d i 0 = Inr i"
| "padding_scan d i (Suc k) =
     chk (get_byte d i) (\<lambda>b. if b \<noteq> 0 then Inr i else padding_scan d (Suc i) k)"

definition ndr_check_padding :: "ndr_pull \<Rightarrow> u64 \<Rightarrow> bytes option res" where
  "ndr_check_padding ndr n =
     (let ofs = unat (pull_offset ndr);
          ofs2 = unat ((ucast (pull_offset ndr) + (n - 1)) AND NOT (n - 1))
      in if ofs \<ge> 2 ^ 31 then Inr None
         else chk (padding_scan (pull_data ndr) ofs (ofs2 - ofs))
           (\<lambda>i. if i < ofs2
                then chk (get_bytes (pull_data ndr) ofs (ofs2 - ofs)) (\<lambda>bs. Inr (Some bs))
                else Inr None))"

definition NDR_PULL_ALIGN :: "ndr_pull \<Rightarrow> u32 \<Rightarrow> ndr_pull res" where
  "NDR_PULL_ALIGN ndr n =
     chk (if \<not> has_flag (pull_flags ndr) LIBNDR_FLAG_NOALIGN
          then chk (if has_flag (pull_flags ndr) LIBNDR_FLAG_PAD_CHECK
                    then ndr_check_padding ndr (ucast n) else Inr None)
                (\<lambda>_. Inr (ndr\<lparr>pull_offset := ndr_round (pull_offset ndr) n\<rparr>))
          else Inr ndr)
      (\<lambda>ndr. if pull_offset ndr > pull_data_size ndr then ndr_pull_error NDR_ERR_BUFSIZE
             else Inr ndr)"

definition NDR_PUSH_NEED_BYTES :: "ndr_push \<Rightarrow> u32 \<Rightarrow> ndr_push res" where
  "NDR_PUSH_NEED_BYTES ndr n = ndr_push_expand ndr (push_offset ndr + n)"

definition NDR_SVAL :: "ndr_pull \<Rightarrow> u32 \<Rightarrow> u32 res" where
  "NDR_SVAL ndr ofs = (if NDR_BE (pull_flags ndr) then RSVAL (pull_data ndr) (unat ofs)
                       else SVAL (pull_data ndr) (unat ofs))"

definition NDR_IVAL :: "ndr_pull \<Rightarrow> u32 \<Rightarrow> u32 res" where
  "NDR_IVAL ndr ofs = (if NDR_BE (pull_flags ndr) then RIVAL (pull_data ndr) (unat ofs)
                       else IVAL (pull_data ndr) (unat ofs))"

definition NDR_SSVAL :: "ndr_push \<Rightarrow> u32 \<Rightarrow> u32 \<Rightarrow> ndr_push res" where
  "NDR_SSVAL ndr ofs v =
     chk (if NDR_BE (push_flags ndr) then RSSVAL (push_data ndr) (unat ofs) v
          else SSVAL (push_data ndr) (unat ofs) v) (\<lambda>d. Inr (ndr\<lparr>push_data := d\<rparr>))"

definition NDR_SIVAL :: "ndr_push \<Rightarrow> u32 \<Rightarrow> u32 \<Rightarrow> ndr_push res" where
  "NDR_SIVAL ndr ofs v =
     chk (if NDR_BE (push_flags ndr) then RSIVAL (push_data ndr) (unat ofs) v
          else SIVAL (push_data ndr) (unat ofs) v) (\<lambda>d. Inr (ndr\<lparr>push_data := d\<rparr>))"

section \<open>Pulling scalars\<close>

text \<open>
  A reader returns the value and the advanced context. Signed C integers are words of
  their width, in two's complement. The argument \<open>ndr_flags\<close> (which of scalars and buffers
  to process) is carried by every reader and used only by the array readers, as in C.
\<close>

definition pull_skip :: "ndr_pull \<Rightarrow> u32 \<Rightarrow> ndr_pull" where
  "pull_skip ndr n = ndr\<lparr>pull_offset := pull_offset ndr + n\<rparr>"

definition ndr_pull_uint8 :: "ndr_pull \<Rightarrow> u32 \<Rightarrow> (u8 \<times> ndr_pull) res" where
  "ndr_pull_uint8 ndr ndr_flags =
     chk (NDR_PULL_NEED_BYTES ndr 1) (\<lambda>_.
     chk (CVAL (pull_data ndr) (unat (pull_offset ndr))) (\<lambda>v. Inr (ucast v, pull_skip ndr 1)))"

definition ndr_pull_int8 :: "ndr_pull \<Rightarrow> u32 \<Rightarrow> (u8 \<times> ndr_pull) res" where
  "ndr_pull_int8 ndr ndr_flags =
     chk (NDR_PULL_NEED_BYTES ndr 1) (\<lambda>_.
     chk (CVAL (pull_data ndr) (unat (pull_offset ndr))) (\<lambda>v. Inr (ucast v, pull_skip ndr 1)))"

definition ndr_pull_uint16 :: "ndr_pull \<Rightarrow> u32 \<Rightarrow> (u16 \<times> ndr_pull) res" where
  "ndr_pull_uint16 ndr ndr_flags =
     chk (NDR_PULL_ALIGN ndr 2) (\<lambda>ndr.
     chk (NDR_PULL_NEED_BYTES ndr 2) (\<lambda>_.
     chk (NDR_SVAL ndr (pull_offset ndr)) (\<lambda>v. Inr (ucast v, pull_skip ndr 2))))"

definition ndr_pull_int16 :: "ndr_pull \<Rightarrow> u32 \<Rightarrow> (u16 \<times> ndr_pull) res" where
  "ndr_pull_int16 ndr ndr_flags =
     chk (NDR_PULL_ALIGN ndr 2) (\<lambda>ndr.
     chk (NDR_PULL_NEED_BYTES ndr 2) (\<lambda>_.
     chk (NDR_SVAL ndr (pull_offset ndr)) (\<lambda>v. Inr (ucast v, pull_skip ndr 2))))"

definition ndr_pull_uint32 :: "ndr_pull \<Rightarrow> u32 \<Rightarrow> (u32 \<times> ndr_pull) res" where
  "ndr_pull_uint32 ndr ndr_flags =
     chk (NDR_PULL_ALIGN ndr 4) (\<lambda>ndr.
     chk (NDR_PULL_NEED_BYTES ndr 4) (\<lambda>_.
     chk (NDR_IVAL ndr (pull_offset ndr)) (\<lambda>v. Inr (v, pull_skip ndr 4))))"

definition ndr_pull_int32 :: "ndr_pull \<Rightarrow> u32 \<Rightarrow> (u32 \<times> ndr_pull) res" where
  "ndr_pull_int32 ndr ndr_flags =
     chk (NDR_PULL_ALIGN ndr 4) (\<lambda>ndr.
     chk (NDR_PULL_NEED_BYTES ndr 4) (\<lambda>_.
     chk (NDR_IVAL ndr (pull_offset ndr)) (\<lambda>v. Inr (v, pull_skip ndr 4))))"

definition ndr_pull_generic_ptr :: "ndr_pull \<Rightarrow> (u32 \<times> ndr_pull) res" where
  "ndr_pull_generic_ptr ndr =
     chk (ndr_pull_uint32 ndr NDR_SCALARS) (\<lambda>(v, ndr).
       Inr (v, if v \<noteq> 0 then ndr\<lparr>pull_ptr_count := pull_ptr_count ndr + 1\<rparr> else ndr))"

definition ndr_pull_ref_ptr :: "ndr_pull \<Rightarrow> (u32 \<times> ndr_pull) res" where
  "ndr_pull_ref_ptr ndr = chk (ndr_pull_uint32 ndr NDR_SCALARS) (\<lambda>(v, ndr). Inr (1, ndr))"

definition ndr_pull_udlong :: "ndr_pull \<Rightarrow> u32 \<Rightarrow> (u64 \<times> ndr_pull) res" where
  "ndr_pull_udlong ndr ndr_flags =
     chk (NDR_PULL_ALIGN ndr 4) (\<lambda>ndr.
     chk (NDR_PULL_NEED_BYTES ndr 8) (\<lambda>_.
     chk (NDR_IVAL ndr (pull_offset ndr)) (\<lambda>lo.
     chk (NDR_IVAL ndr (pull_offset ndr + 4)) (\<lambda>hi.
       Inr (ucast lo OR push_bit 32 (ucast hi), pull_skip ndr 8)))))"

definition ndr_pull_udlongr :: "ndr_pull \<Rightarrow> u32 \<Rightarrow> (u64 \<times> ndr_pull) res" where
  "ndr_pull_udlongr ndr ndr_flags =
     chk (NDR_PULL_ALIGN ndr 4) (\<lambda>ndr.
     chk (NDR_PULL_NEED_BYTES ndr 8) (\<lambda>_.
     chk (NDR_IVAL ndr (pull_offset ndr)) (\<lambda>hi.
     chk (NDR_IVAL ndr (pull_offset ndr + 4)) (\<lambda>lo.
       Inr (push_bit 32 (ucast hi) OR ucast lo, pull_skip ndr 8)))))"

definition ndr_pull_dlong :: "ndr_pull \<Rightarrow> u32 \<Rightarrow> (u64 \<times> ndr_pull) res" where
  "ndr_pull_dlong ndr ndr_flags = ndr_pull_udlong ndr ndr_flags"

definition ndr_pull_hyper :: "ndr_pull \<Rightarrow> u32 \<Rightarrow> (u64 \<times> ndr_pull) res" where
  "ndr_pull_hyper ndr ndr_flags =
     chk (NDR_PULL_ALIGN ndr 8) (\<lambda>ndr. ndr_pull_udlong ndr ndr_flags)"

definition ndr_pull_align :: "ndr_pull \<Rightarrow> u64 \<Rightarrow> ndr_pull res" where
  "ndr_pull_align ndr sz = NDR_PULL_ALIGN ndr (ucast sz)"

definition ndr_pull_NTSTATUS :: "ndr_pull \<Rightarrow> u32 \<Rightarrow> (u32 \<times> ndr_pull) res" where
  "ndr_pull_NTSTATUS ndr ndr_flags = chk (ndr_pull_uint32 ndr NDR_SCALARS) (\<lambda>(v, ndr). Inr (v, ndr))"

definition ndr_pull_WERROR :: "ndr_pull \<Rightarrow> u32 \<Rightarrow> (u32 \<times> ndr_pull) res" where
  "ndr_pull_WERROR ndr ndr_flags = chk (ndr_pull_uint32 ndr NDR_SCALARS) (\<lambda>(v, ndr). Inr (v, ndr))"

definition ndr_pull_bytes :: "ndr_pull \<Rightarrow> u32 \<Rightarrow> (bytes \<times> ndr_pull) res" where
  "ndr_pull_bytes ndr n =
     chk (NDR_PULL_NEED_BYTES ndr n) (\<lambda>_.
     chk (get_bytes (pull_data ndr) (unat (pull_offset ndr)) (unat n)) (\<lambda>bs.
       Inr (bs, pull_skip ndr n)))"

text \<open>Without the scalars flag nothing is read and the destination is left as it was.\<close>

definition ndr_pull_array_uint8 :: "ndr_pull \<Rightarrow> u32 \<Rightarrow> u32 \<Rightarrow> (bytes option \<times> ndr_pull) res" where
  "ndr_pull_array_uint8 ndr ndr_flags n =
     (if \<not> has_flag ndr_flags NDR_SCALARS then Inr (None, ndr)
      else chk (ndr_pull_bytes ndr n) (\<lambda>(bs, ndr). Inr (Some bs, ndr)))"

definition ndr_pull_NTTIME :: "ndr_pull \<Rightarrow> u32 \<Rightarrow> (u64 \<times> ndr_pull) res" where
  "ndr_pull_NTTIME ndr ndr_flags = chk (ndr_pull_udlong ndr ndr_flags) Inr"

definition ndr_pull_NTTIME_1sec :: "ndr_pull \<Rightarrow> u32 \<Rightarrow> (u64 \<times> ndr_pull) res" where
  "ndr_pull_NTTIME_1sec ndr ndr_flags =
     chk (ndr_pull_hyper ndr ndr_flags) (\<lambda>(t, ndr). Inr (t * 10000000, ndr))"

definition ndr_pull_NTTIME_hyper :: "ndr_pull \<Rightarrow> u32 \<Rightarrow> (u64 \<times> ndr_pull) res" where
  "ndr_pull_NTTIME_hyper ndr ndr_flags = chk (ndr_pull_hyper ndr ndr_flags) Inr"

text \<open>\<open>time_t\<close> is a signed 64-bit integer: the 32 bits read are extended with zeros.\<close>

definition ndr_pull_time_t :: "ndr_pull \<Rightarrow> u32 \<Rightarrow> (u64 \<times> ndr_pull) res" where
  "ndr_pull_time_t ndr ndr_flags =
     chk (ndr_pull_uint32 ndr ndr_flags) (\<lambda>(tt, ndr). Inr (ucast tt, ndr))"

definition ndr_pull_DATA_BLOB :: "ndr_pull \<Rightarrow> u32 \<Rightarrow> (bytes \<times> ndr_pull) res" where
  "ndr_pull_DATA_BLOB ndr ndr_flags =
     chk (if has_flag (pull_flags ndr) LIBNDR_ALIGN_FLAGS
          then
            let l = (if has_flag (pull_flags ndr) LIBNDR_FLAG_ALIGN2
                     then ucast (ndr_align_size (pull_offset ndr) 2)
                     else if has_flag (pull_flags ndr) LIBNDR_FLAG_ALIGN4
                     then ucast (ndr_align_size (pull_offset ndr) 4)
                     else if has_flag (pull_flags ndr) LIBNDR_FLAG_ALIGN8
                     then ucast (ndr_align_size (pull_offset ndr) 8) else 0);
                rest = pull_data_size ndr - pull_offset ndr
            in Inr (if rest < l then rest else l, ndr)
          else if has_flag (pull_flags ndr) LIBNDR_FLAG_REMAINING
          then Inr (pull_data_size ndr - pull_offset ndr, ndr)
          else ndr_pull_uint32 ndr NDR_SCALARS)
      (\<lambda>(l, ndr).
        chk (NDR_PULL_NEED_BYTES ndr l) (\<lambda>_.
        chk (get_bytes (pull_data ndr) (unat (pull_offset ndr)) (unat l)) (\<lambda>blob.
          Inr (blob, pull_skip ndr l))))"

section \<open>Pushing scalars\<close>

definition push_skip :: "ndr_push \<Rightarrow> u32 \<Rightarrow> ndr_push" where
  "push_skip ndr n = ndr\<lparr>push_offset := push_offset ndr + n\<rparr>"

definition push_store :: "ndr_push \<Rightarrow> u32 \<Rightarrow> bytes \<Rightarrow> ndr_push res" where
  "push_store ndr ofs bs =
     chk (put_bytes (push_data ndr) (unat ofs) bs) (\<lambda>d. Inr (ndr\<lparr>push_data := d\<rparr>))"

definition ndr_push_uint8 :: "ndr_push \<Rightarrow> u32 \<Rightarrow> u8 \<Rightarrow> ndr_push res" where
  "ndr_push_uint8 ndr ndr_flags v =
     chk (NDR_PUSH_NEED_BYTES ndr 1) (\<lambda>ndr.
     chk (push_store ndr (push_offset ndr) [v]) (\<lambda>ndr. Inr (push_skip ndr 1)))"

definition ndr_push_int8 :: "ndr_push \<Rightarrow> u32 \<Rightarrow> u8 \<Rightarrow> ndr_push res" where
  "ndr_push_int8 ndr ndr_flags v =
     chk (NDR_PUSH_NEED_BYTES ndr 1) (\<lambda>ndr.
     chk (push_store ndr (push_offset ndr) [v]) (\<lambda>ndr. Inr (push_skip ndr 1)))"

text \<open>The loop \<open>while (_pad--)\<close> of \<open>NDR_PUSH_ALIGN\<close>.\<close>

fun push_pad :: "nat \<Rightarrow> ndr_push \<Rightarrow> ndr_push res" where
  "push_pad 0 ndr = Inr ndr"
| "push_pad (Suc k) ndr = chk (ndr_push_uint8 ndr NDR_SCALARS 0) (push_pad k)"

definition NDR_PUSH_ALIGN :: "ndr_push \<Rightarrow> u32 \<Rightarrow> ndr_push res" where
  "NDR_PUSH_ALIGN ndr n =
     (if \<not> has_flag (push_flags ndr) LIBNDR_FLAG_NOALIGN
      then push_pad (unat (ndr_round (push_offset ndr) n - push_offset ndr)) ndr
      else Inr ndr)"

definition ndr_push_uint16 :: "ndr_push \<Rightarrow> u32 \<Rightarrow> u16 \<Rightarrow> ndr_push res" where
  "ndr_push_uint16 ndr ndr_flags v =
     chk (NDR_PUSH_ALIGN ndr 2) (\<lambda>ndr.
     chk (NDR_PUSH_NEED_BYTES ndr 2) (\<lambda>ndr.
     chk (NDR_SSVAL ndr (push_offset ndr) (ucast v)) (\<lambda>ndr. Inr (push_skip ndr 2))))"

definition ndr_push_int16 :: "ndr_push \<Rightarrow> u32 \<Rightarrow> u16 \<Rightarrow> ndr_push res" where
  "ndr_push_int16 ndr ndr_flags v =
     chk (NDR_PUSH_ALIGN ndr 2) (\<lambda>ndr.
     chk (NDR_PUSH_NEED_BYTES ndr 2) (\<lambda>ndr.
     chk (NDR_SSVAL ndr (push_offset ndr) (ucast v)) (\<lambda>ndr. Inr (push_skip ndr 2))))"

definition ndr_push_uint32 :: "ndr_push \<Rightarrow> u32 \<Rightarrow> u32 \<Rightarrow> ndr_push res" where
  "ndr_push_uint32 ndr ndr_flags v =
     chk (NDR_PUSH_ALIGN ndr 4) (\<lambda>ndr.
     chk (NDR_PUSH_NEED_BYTES ndr 4) (\<lambda>ndr.
     chk (NDR_SIVAL ndr (push_offset ndr) v) (\<lambda>ndr. Inr (push_skip ndr 4))))"

definition ndr_push_int32 :: "ndr_push \<Rightarrow> u32 \<Rightarrow> u32 \<Rightarrow> ndr_push res" where
  "ndr_push_int32 ndr ndr_flags v =
     chk (NDR_PUSH_ALIGN ndr 4) (\<lambda>ndr.
     chk (NDR_PUSH_NEED_BYTES ndr 4) (\<lambda>ndr.
     chk (NDR_SIVAL ndr (push_offset ndr) v) (\<lambda>ndr. Inr (push_skip ndr 4))))"

definition ndr_push_udlong :: "ndr_push \<Rightarrow> u32 \<Rightarrow> u64 \<Rightarrow> ndr_push res" where
  "ndr_push_udlong ndr ndr_flags v =
     chk (NDR_PUSH_ALIGN ndr 4) (\<lambda>ndr.
     chk (NDR_PUSH_NEED_BYTES ndr 8) (\<lambda>ndr.
     chk (NDR_SIVAL ndr (push_offset ndr) (ucast (v AND 0xFFFFFFFF))) (\<lambda>ndr.
     chk (NDR_SIVAL ndr (push_offset ndr + 4) (ucast (drop_bit 32 v))) (\<lambda>ndr.
       Inr (push_skip ndr 8)))))"

definition ndr_push_udlongr :: "ndr_push \<Rightarrow> u32 \<Rightarrow> u64 \<Rightarrow> ndr_push res" where
  "ndr_push_udlongr ndr ndr_flags v =
     chk (NDR_PUSH_ALIGN ndr 4) (\<lambda>ndr.
     chk (NDR_PUSH_NEED_BYTES ndr 8) (\<lambda>ndr.
     chk (NDR_SIVAL ndr (push_offset ndr) (ucast (drop_bit 32 v))) (\<lambda>ndr.
     chk (NDR_SIVAL ndr (push_offset ndr + 4) (ucast (v AND 0xFFFFFFFF))) (\<lambda>ndr.
       Inr (push_skip ndr 8)))))"

definition ndr_push_dlong :: "ndr_push \<Rightarrow> u32 \<Rightarrow> u64 \<Rightarrow> ndr_push res" where
  "ndr_push_dlong ndr ndr_flags v = ndr_push_udlong ndr NDR_SCALARS v"

definition ndr_push_hyper :: "ndr_push \<Rightarrow> u32 \<Rightarrow> u64 \<Rightarrow> ndr_push res" where
  "ndr_push_hyper ndr ndr_flags v =
     chk (NDR_PUSH_ALIGN ndr 8) (\<lambda>ndr. ndr_push_udlong ndr NDR_SCALARS v)"

definition ndr_push_align :: "ndr_push \<Rightarrow> u64 \<Rightarrow> ndr_push res" where
  "ndr_push_align ndr sz = NDR_PUSH_ALIGN ndr (ucast sz)"

definition ndr_push_NTSTATUS :: "ndr_push \<Rightarrow> u32 \<Rightarrow> u32 \<Rightarrow> ndr_push res" where
  "ndr_push_NTSTATUS ndr ndr_flags status = ndr_push_uint32 ndr ndr_flags status"

definition ndr_push_WERROR :: "ndr_push \<Rightarrow> u32 \<Rightarrow> u32 \<Rightarrow> ndr_push res" where
  "ndr_push_WERROR ndr ndr_flags status = ndr_push_uint32 ndr NDR_SCALARS status"

definition ndr_push_bytes :: "ndr_push \<Rightarrow> bytes \<Rightarrow> u32 \<Rightarrow> ndr_push res" where
  "ndr_push_bytes ndr data n =
     chk (NDR_PUSH_NEED_BYTES ndr n) (\<lambda>ndr.
     chk (get_bytes data 0 (unat n)) (\<lambda>bs.
     chk (push_store ndr (push_offset ndr) bs) (\<lambda>ndr. Inr (push_skip ndr n))))"

definition ndr_push_zero :: "ndr_push \<Rightarrow> u32 \<Rightarrow> ndr_push res" where
  "ndr_push_zero ndr n =
     chk (NDR_PUSH_NEED_BYTES ndr n) (\<lambda>ndr.
     chk (push_store ndr (push_offset ndr) (replicate (unat n) 0)) (\<lambda>ndr. Inr (push_skip ndr n)))"

definition ndr_push_array_uint8 :: "ndr_push \<Rightarrow> u32 \<Rightarrow> bytes \<Rightarrow> u32 \<Rightarrow> ndr_push res" where
  "ndr_push_array_uint8 ndr ndr_flags data n =
     (if \<not> has_flag ndr_flags NDR_SCALARS then Inr ndr else ndr_push_bytes ndr data n)"

definition ndr_push_save :: "ndr_push \<Rightarrow> u32" where
  "ndr_push_save ndr = push_offset ndr"

definition ndr_push_restore :: "ndr_push \<Rightarrow> u32 \<Rightarrow> ndr_push" where
  "ndr_push_restore ndr save = ndr\<lparr>push_offset := save\<rparr>"

definition ndr_push_NTTIME :: "ndr_push \<Rightarrow> u32 \<Rightarrow> u64 \<Rightarrow> ndr_push res" where
  "ndr_push_NTTIME ndr ndr_flags t = chk (ndr_push_udlong ndr ndr_flags t) Inr"

definition ndr_push_NTTIME_1sec :: "ndr_push \<Rightarrow> u32 \<Rightarrow> u64 \<Rightarrow> ndr_push res" where
  "ndr_push_NTTIME_1sec ndr ndr_flags t = chk (ndr_push_hyper ndr ndr_flags (t div 10000000)) Inr"

definition ndr_push_NTTIME_hyper :: "ndr_push \<Rightarrow> u32 \<Rightarrow> u64 \<Rightarrow> ndr_push res" where
  "ndr_push_NTTIME_hyper ndr ndr_flags t = chk (ndr_push_hyper ndr ndr_flags t) Inr"

definition ndr_push_time_t :: "ndr_push \<Rightarrow> u32 \<Rightarrow> u64 \<Rightarrow> ndr_push res" where
  "ndr_push_time_t ndr ndr_flags t = ndr_push_uint32 ndr ndr_flags (ucast t)"

text \<open>With an alignment flag the blob is replaced by zero padding up to that alignment.\<close>

definition ndr_push_DATA_BLOB :: "ndr_push \<Rightarrow> u32 \<Rightarrow> bytes \<Rightarrow> ndr_push res" where
  "ndr_push_DATA_BLOB ndr ndr_flags blob =
     chk (if has_flag (push_flags ndr) LIBNDR_ALIGN_FLAGS
          then
            let l = (if has_flag (push_flags ndr) LIBNDR_FLAG_ALIGN2
                     then unat (ndr_align_size (push_offset ndr) 2)
                     else if has_flag (push_flags ndr) LIBNDR_FLAG_ALIGN4
                     then unat (ndr_align_size (push_offset ndr) 4)
                     else if has_flag (push_flags ndr) LIBNDR_FLAG_ALIGN8
                     then unat (ndr_align_size (push_offset ndr) 8) else length blob)
            in if l \<ge> MAX_TALLOC_SIZE then ndr_push_error NDR_ERR_ALLOC
               else Inr (replicate l 0, ndr)
          else if \<not> has_flag (push_flags ndr) LIBNDR_FLAG_REMAINING
          then chk (ndr_push_uint32 ndr NDR_SCALARS (word_of_nat (length blob))) (\<lambda>ndr. Inr (blob, ndr))
          else Inr (blob, ndr))
      (\<lambda>(blob, ndr). ndr_push_bytes ndr blob (word_of_nat (length blob)))"

section \<open>Tokens\<close>

definition ndr_token_store :: "ndr_token_list \<Rightarrow> ptr \<Rightarrow> u32 \<Rightarrow> ndr_token_list" where
  "ndr_token_store l key v = (key, v) # l"

fun ndr_token_retrieve_cmp_fn ::
  "ndr_token_list \<Rightarrow> ptr \<Rightarrow> (ptr \<Rightarrow> ptr \<Rightarrow> int) option \<Rightarrow> bool \<Rightarrow> (u32 \<times> ndr_token_list) res" where
  "ndr_token_retrieve_cmp_fn [] key cmp_fn remove_tok = Inl (Status (ndr_map_error NDR_ERR_TOKEN))"
| "ndr_token_retrieve_cmp_fn (tok # l) key cmp_fn remove_tok =
     (if (case cmp_fn of Some f \<Rightarrow> f (fst tok) key = 0 | None \<Rightarrow> fst tok = key)
      then Inr (snd tok, if remove_tok then l else tok # l)
      else chk (ndr_token_retrieve_cmp_fn l key cmp_fn remove_tok) (\<lambda>(v, l'). Inr (v, tok # l')))"

definition ndr_token_retrieve :: "ndr_token_list \<Rightarrow> ptr \<Rightarrow> (u32 \<times> ndr_token_list) res" where
  "ndr_token_retrieve l key = ndr_token_retrieve_cmp_fn l key None True"

definition ndr_token_peek :: "ndr_token_list \<Rightarrow> ptr \<Rightarrow> u32" where
  "ndr_token_peek l key =
     (case ndr_token_retrieve_cmp_fn l key None False of Inr (v, _) \<Rightarrow> v | Inl _ \<Rightarrow> 0)"

definition ndr_pull_array_size :: "ndr_pull \<Rightarrow> ptr \<Rightarrow> ndr_pull res" where
  "ndr_pull_array_size ndr p =
     chk (ndr_pull_uint32 ndr NDR_SCALARS) (\<lambda>(sz, ndr).
       Inr (ndr\<lparr>pull_array_size_list := ndr_token_store (pull_array_size_list ndr) p sz\<rparr>))"

definition ndr_get_array_size :: "ndr_pull \<Rightarrow> ptr \<Rightarrow> u32" where
  "ndr_get_array_size ndr p = ndr_token_peek (pull_array_size_list ndr) p"

definition ndr_check_array_size :: "ndr_pull \<Rightarrow> ptr \<Rightarrow> u32 \<Rightarrow> unit res" where
  "ndr_check_array_size ndr p sz =
     (if ndr_token_peek (pull_array_size_list ndr) p \<noteq> sz
      then ndr_pull_error NDR_ERR_ARRAY_SIZE else Inr ())"

definition ndr_pull_array_length :: "ndr_pull \<Rightarrow> ptr \<Rightarrow> ndr_pull res" where
  "ndr_pull_array_length ndr p =
     chk (ndr_pull_uint32 ndr NDR_SCALARS) (\<lambda>(ofs, ndr).
     if ofs \<noteq> 0 then ndr_pull_error NDR_ERR_ARRAY_SIZE
     else chk (ndr_pull_uint32 ndr NDR_SCALARS) (\<lambda>(len, ndr).
       Inr (ndr\<lparr>pull_array_length_list := ndr_token_store (pull_array_length_list ndr) p len\<rparr>)))"

definition ndr_get_array_length :: "ndr_pull \<Rightarrow> ptr \<Rightarrow> u32" where
  "ndr_get_array_length ndr p = ndr_token_peek (pull_array_length_list ndr) p"

definition ndr_check_array_length :: "ndr_pull \<Rightarrow> ptr \<Rightarrow> u32 \<Rightarrow> unit res" where
  "ndr_check_array_length ndr p len =
     (if ndr_token_peek (pull_array_length_list ndr) p \<noteq> len
      then ndr_pull_error NDR_ERR_ARRAY_SIZE else Inr ())"

definition ndr_push_set_switch_value :: "ndr_push \<Rightarrow> ptr \<Rightarrow> u32 \<Rightarrow> ndr_push" where
  "ndr_push_set_switch_value ndr p v =
     ndr\<lparr>push_switch_list := ndr_token_store (push_switch_list ndr) p v\<rparr>"

definition ndr_pull_set_switch_value :: "ndr_pull \<Rightarrow> ptr \<Rightarrow> u32 \<Rightarrow> ndr_pull" where
  "ndr_pull_set_switch_value ndr p v =
     ndr\<lparr>pull_switch_list := ndr_token_store (pull_switch_list ndr) p v\<rparr>"

definition ndr_push_get_switch_value :: "ndr_push \<Rightarrow> ptr \<Rightarrow> u32" where
  "ndr_push_get_switch_value ndr p = ndr_token_peek (push_switch_list ndr) p"

definition ndr_pull_get_switch_value :: "ndr_pull \<Rightarrow> ptr \<Rightarrow> u32" where
  "ndr_pull_get_switch_value ndr p = ndr_token_peek (pull_switch_list ndr) p"

section \<open>Pointer referent ids\<close>

definition ndr_push_unique_ptr :: "ndr_push \<Rightarrow> ptr \<Rightarrow> ndr_push res" where
  "ndr_push_unique_ptr ndr p =
     (if p \<noteq> 0
      then ndr_push_uint32 (ndr\<lparr>push_ptr_count := push_ptr_count ndr + 1\<rparr>) NDR_SCALARS
             (push_ptr_count ndr * 4 OR 0x00020000)
      else ndr_push_uint32 ndr NDR_SCALARS 0)"

definition ndr_push_full_ptr :: "ndr_push \<Rightarrow> ptr \<Rightarrow> ndr_push res" where
  "ndr_push_full_ptr ndr p =
     (if p \<noteq> 0
      then
        let known = ndr_token_peek (push_full_ptr_list ndr) p
        in if known = 0
           then
             let id = push_ptr_count ndr + 1
             in ndr_push_uint32
                  (ndr\<lparr>push_ptr_count := id,
                       push_full_ptr_list := ndr_token_store (push_full_ptr_list ndr) p id\<rparr>)
                  NDR_SCALARS id
           else ndr_push_uint32 ndr NDR_SCALARS known
      else ndr_push_uint32 ndr NDR_SCALARS 0)"

definition ndr_push_ref_ptr :: "ndr_push \<Rightarrow> ndr_push res" where
  "ndr_push_ref_ptr ndr = ndr_push_uint32 ndr NDR_SCALARS 0xAEF1AEF1"

section \<open>Subcontexts\<close>

text \<open>
  \<open>size_is\<close> is an \<open>ssize_t\<close>, negative for "not given". The parse context of the content
  shares the buffer of its parent from the parent's offset on.
\<close>

definition ndr_pull_subcontext_start ::
  "ndr_pull \<Rightarrow> nat \<Rightarrow> int \<Rightarrow> (ndr_pull \<times> ndr_pull) res" where
  "ndr_pull_subcontext_start ndr header_size size_is =
     chk (if header_size = 0
          then Inr (if size_is \<ge> 0 then word_of_int size_is
                    else pull_data_size ndr - pull_offset ndr, ndr)
          else if header_size = 2
          then chk (ndr_pull_uint16 ndr NDR_SCALARS) (\<lambda>(c, ndr).
                 if size_is \<ge> 0 \<and> size_is \<noteq> uint c then ndr_pull_error NDR_ERR_SUBCONTEXT
                 else Inr (ucast c, ndr))
          else if header_size = 4
          then chk (ndr_pull_uint32 ndr NDR_SCALARS) (\<lambda>(c, ndr).
                 if size_is \<ge> 0 \<and> size_is \<noteq> uint c then ndr_pull_error NDR_ERR_SUBCONTEXT
                 else Inr (c, ndr))
          else ndr_pull_error NDR_ERR_SUBCONTEXT)
      (\<lambda>(r_content_size, ndr).
        chk (NDR_PULL_NEED_BYTES ndr r_content_size) (\<lambda>_.
          Inr ((ndr_pull_init_blob [])
                 \<lparr>pull_flags := pull_flags ndr,
                  pull_data := drop (unat (pull_offset ndr)) (pull_data ndr),
                  pull_offset := 0,
                  pull_data_size := r_content_size\<rparr>, ndr)))"

definition ndr_pull_subcontext_end ::
  "ndr_pull \<Rightarrow> ndr_pull \<Rightarrow> nat \<Rightarrow> int \<Rightarrow> ndr_pull res" where
  "ndr_pull_subcontext_end ndr subndr header_size size_is =
     (let advance = (if size_is \<ge> 0 then word_of_int size_is
                     else if header_size > 0 then pull_data_size subndr
                     else pull_offset subndr)
      in chk (ndr_pull_advance ndr advance) Inr)"

definition ndr_push_subcontext_start :: "u8 \<Rightarrow> ndr_push \<Rightarrow> ndr_push" where
  "ndr_push_subcontext_start fill ndr = (ndr_push_init_ctx fill)\<lparr>push_flags := push_flags ndr\<rparr>"

definition ndr_push_subcontext_end ::
  "ndr_push \<Rightarrow> ndr_push \<Rightarrow> nat \<Rightarrow> int \<Rightarrow> ndr_push res" where
  "ndr_push_subcontext_end ndr subndr header_size size_is =
     chk (if size_is \<ge> 0
          then
            let padding_len = size_is - uint (push_offset subndr)
            in if padding_len > 0 then ndr_push_zero subndr (word_of_int padding_len)
               else if padding_len < 0 then ndr_push_error NDR_ERR_SUBCONTEXT
               else Inr subndr
          else Inr subndr)
      (\<lambda>subndr.
        chk (if header_size = 0 then Inr ndr
             else if header_size = 2
             then ndr_push_uint16 ndr NDR_SCALARS (ucast (push_offset subndr))
             else if header_size = 4
             then ndr_push_uint32 ndr NDR_SCALARS (push_offset subndr)
             else ndr_push_error NDR_ERR_SUBCONTEXT)
         (\<lambda>ndr. ndr_push_bytes ndr (push_data subndr) (push_offset subndr)))"

section \<open>Whole blobs\<close>

text \<open>
  The reader or writer of the structure is the function argument the C code takes, called
  with both scalars and buffers. \<open>p\<close> is the address that keys the union discriminator.
\<close>

definition ndr_pull_struct_blob ::
  "bytes \<Rightarrow> (ndr_pull \<Rightarrow> u32 \<Rightarrow> ('a \<times> ndr_pull) res) \<Rightarrow> 'a res" where
  "ndr_pull_struct_blob blob fn =
     chk (fn (ndr_pull_init_blob blob) (NDR_SCALARS OR NDR_BUFFERS)) (\<lambda>(v, ndr). Inr v)"

definition ndr_pull_struct_blob_all ::
  "bytes \<Rightarrow> (ndr_pull \<Rightarrow> u32 \<Rightarrow> ('a \<times> ndr_pull) res) \<Rightarrow> 'a res" where
  "ndr_pull_struct_blob_all blob fn =
     chk (fn (ndr_pull_init_blob blob) (NDR_SCALARS OR NDR_BUFFERS)) (\<lambda>(v, ndr).
       if pull_offset ndr \<noteq> pull_data_size ndr then Inl (Status NT_STATUS_BUFFER_TOO_SMALL)
       else Inr v)"

definition ndr_pull_union_blob ::
  "bytes \<Rightarrow> ptr \<Rightarrow> u32 \<Rightarrow> (ndr_pull \<Rightarrow> u32 \<Rightarrow> ('a \<times> ndr_pull) res) \<Rightarrow> 'a res" where
  "ndr_pull_union_blob blob p level fn =
     chk (fn (ndr_pull_set_switch_value (ndr_pull_init_blob blob) p level)
             (NDR_SCALARS OR NDR_BUFFERS)) (\<lambda>(v, ndr).
       if pull_offset ndr \<noteq> pull_data_size ndr then Inl (Status NT_STATUS_BUFFER_TOO_SMALL)
       else Inr v)"

definition ndr_push_struct_blob ::
  "u8 \<Rightarrow> 'a \<Rightarrow> (ndr_push \<Rightarrow> u32 \<Rightarrow> 'a \<Rightarrow> ndr_push res) \<Rightarrow> bytes res" where
  "ndr_push_struct_blob fill v fn =
     chk (fn (ndr_push_init_ctx fill) (NDR_SCALARS OR NDR_BUFFERS) v) (\<lambda>ndr.
     chk (ndr_push_blob ndr) (\<lambda>(blob, ndr). Inr blob))"

definition ndr_push_union_blob ::
  "u8 \<Rightarrow> 'a \<Rightarrow> ptr \<Rightarrow> u32 \<Rightarrow> (ndr_push \<Rightarrow> u32 \<Rightarrow> 'a \<Rightarrow> ndr_push res) \<Rightarrow> bytes res" where
  "ndr_push_union_blob fill v p level fn =
     chk (fn (ndr_push_set_switch_value (ndr_push_init_ctx fill) p level)
             (NDR_SCALARS OR NDR_BUFFERS) v) (\<lambda>ndr.
     chk (ndr_push_blob ndr) (\<lambda>(blob, ndr). Inr blob))"

text \<open>A failing writer gives the size 0; an access outside a buffer has no size.\<close>

definition ndr_size_struct ::
  "u8 \<Rightarrow> 'a \<Rightarrow> u32 \<Rightarrow> (ndr_push \<Rightarrow> u32 \<Rightarrow> 'a \<Rightarrow> ndr_push res) \<Rightarrow> u32 option" where
  "ndr_size_struct fill v flags push =
     (if has_flag flags LIBNDR_FLAG_NO_NDR_SIZE then Some 0
      else
        let ndr = (ndr_push_init_ctx fill)
                    \<lparr>push_flags := push_flags (ndr_push_init_ctx fill) OR (flags OR LIBNDR_FLAG_NO_NDR_SIZE)\<rparr>
        in case push ndr (NDR_SCALARS OR NDR_BUFFERS) v of
             Inr ndr \<Rightarrow> Some (push_offset ndr)
           | Inl (Status _) \<Rightarrow> Some 0
           | Inl Fault \<Rightarrow> None)"

definition ndr_size_union ::
  "u8 \<Rightarrow> 'a \<Rightarrow> ptr \<Rightarrow> u32 \<Rightarrow> u32 \<Rightarrow> (ndr_push \<Rightarrow> u32 \<Rightarrow> 'a \<Rightarrow> ndr_push res) \<Rightarrow> u32 option" where
  "ndr_size_union fill v p flags level push =
     (if has_flag flags LIBNDR_FLAG_NO_NDR_SIZE then Some 0
      else
        let ndr = (ndr_push_init_ctx fill)
                    \<lparr>push_flags := push_flags (ndr_push_init_ctx fill) OR (flags OR LIBNDR_FLAG_NO_NDR_SIZE)\<rparr>
        in case push (ndr_push_set_switch_value ndr p level) (NDR_SCALARS OR NDR_BUFFERS) v of
             Inr ndr \<Rightarrow> Some (push_offset ndr)
           | Inl (Status _) \<Rightarrow> Some 0
           | Inl Fault \<Rightarrow> None)"

section \<open>Relative pointers\<close>

definition ndr_push_setup_relative_base_offset1 :: "ndr_push \<Rightarrow> ptr \<Rightarrow> u32 \<Rightarrow> ndr_push" where
  "ndr_push_setup_relative_base_offset1 ndr p ofs =
     ndr\<lparr>push_relative_base_offset := ofs,
         push_relative_base_list := ndr_token_store (push_relative_base_list ndr) p ofs\<rparr>"

definition ndr_push_setup_relative_base_offset2 :: "ndr_push \<Rightarrow> ptr \<Rightarrow> ndr_push res" where
  "ndr_push_setup_relative_base_offset2 ndr p =
     chk (ndr_token_retrieve (push_relative_base_list ndr) p) (\<lambda>(v, l).
       Inr (ndr\<lparr>push_relative_base_offset := v, push_relative_base_list := l\<rparr>))"

definition ndr_push_restore_relative_base_offset :: "ndr_push \<Rightarrow> u32 \<Rightarrow> ndr_push" where
  "ndr_push_restore_relative_base_offset ndr ofs = ndr\<lparr>push_relative_base_offset := ofs\<rparr>"

definition ndr_push_relative_ptr1 :: "ndr_push \<Rightarrow> ptr \<Rightarrow> ndr_push res" where
  "ndr_push_relative_ptr1 ndr p =
     (if p = 0 then chk (ndr_push_uint32 ndr NDR_SCALARS 0) Inr
      else
        chk (ndr_push_align ndr 4) (\<lambda>ndr.
        ndr_push_uint32
          (ndr\<lparr>push_relative_list := ndr_token_store (push_relative_list ndr) p (push_offset ndr)\<rparr>)
          NDR_SCALARS 0xFFFFFFFF))"

definition ndr_push_relative_ptr2 :: "ndr_push \<Rightarrow> ptr \<Rightarrow> ndr_push res" where
  "ndr_push_relative_ptr2 ndr p =
     (if p = 0 then Inr ndr
      else
        let save = ndr_push_save ndr
        in chk (ndr_token_retrieve (push_relative_list ndr) p) (\<lambda>(ptr_offset, l).
           let ndr = ndr\<lparr>push_relative_list := l\<rparr>
           in if ptr_offset > push_offset ndr then ndr_push_error NDR_ERR_BUFSIZE
              else if save < push_relative_base_offset ndr then ndr_push_error NDR_ERR_BUFSIZE
              else chk (ndr_push_uint32 (ndr\<lparr>push_offset := ptr_offset\<rparr>) NDR_SCALARS
                          (save - push_relative_base_offset ndr))
                     (\<lambda>ndr. Inr (ndr_push_restore ndr save))))"

definition ndr_pull_setup_relative_base_offset1 :: "ndr_pull \<Rightarrow> ptr \<Rightarrow> u32 \<Rightarrow> ndr_pull" where
  "ndr_pull_setup_relative_base_offset1 ndr p ofs =
     ndr\<lparr>pull_relative_base_offset := ofs,
         pull_relative_base_list := ndr_token_store (pull_relative_base_list ndr) p ofs\<rparr>"

definition ndr_pull_setup_relative_base_offset2 :: "ndr_pull \<Rightarrow> ptr \<Rightarrow> ndr_pull res" where
  "ndr_pull_setup_relative_base_offset2 ndr p =
     chk (ndr_token_retrieve (pull_relative_base_list ndr) p) (\<lambda>(v, l).
       Inr (ndr\<lparr>pull_relative_base_offset := v, pull_relative_base_list := l\<rparr>))"

definition ndr_pull_restore_relative_base_offset :: "ndr_pull \<Rightarrow> u32 \<Rightarrow> ndr_pull" where
  "ndr_pull_restore_relative_base_offset ndr ofs = ndr\<lparr>pull_relative_base_offset := ofs\<rparr>"

definition ndr_pull_relative_ptr1 :: "ndr_pull \<Rightarrow> ptr \<Rightarrow> u32 \<Rightarrow> ndr_pull" where
  "ndr_pull_relative_ptr1 ndr p rel_offset =
     ndr\<lparr>pull_relative_list := ndr_token_store (pull_relative_list ndr) p rel_offset\<rparr>"

definition ndr_pull_relative_ptr2 :: "ndr_pull \<Rightarrow> ptr \<Rightarrow> ndr_pull res" where
  "ndr_pull_relative_ptr2 ndr p =
     chk (ndr_token_retrieve (pull_relative_list ndr) p) (\<lambda>(rel_offset, l).
       let ndr = ndr\<lparr>pull_relative_list := l\<rparr>;
           rel_offset = rel_offset + pull_relative_base_offset ndr
       in if rel_offset > pull_data_size ndr then ndr_pull_error NDR_ERR_BUFSIZE
          else ndr_pull_set_offset ndr rel_offset)"

end
