(* ===== verification/Ndr_Safe.thy ===== *)
theory Ndr_Safe
  imports Ndr
begin

text \<open>
  Memory safety of the parse side of \<open>librpc/ndr\<close>. A parse context is well formed when its
  buffer really holds the \<open>data_size\<close> bytes it claims, the offset is inside, and the size is
  below \<open>2^31\<close>, so that the sum of an offset and a checked length cannot wrap. The locale
  \<open>ndr_reader\<close> states what every reader promises: from a well-formed context it never reads
  outside the buffer, and it only moves the offset forward. Sequences, arrays and whole
  blobs inherit the promise once, inside the locale; the readers of \<open>ndr_basic.c\<close> are its
  interpretations.
\<close>

definition wf_pull :: "ndr_pull \<Rightarrow> bool" where
  "wf_pull q \<longleftrightarrow>
     unat (pull_data_size q) \<le> length (pull_data q) \<and> unat (pull_data_size q) < 2 ^ 31 \<and>
     pull_offset q \<le> pull_data_size q \<and>
     (has_flag (pull_flags q) LIBNDR_FLAG_PAD_CHECK \<longrightarrow>
        unat (pull_data_size q) + 7 \<le> length (pull_data q))"

text \<open>One or more reads: the same buffer, the offset not moved back.\<close>

definition pull_step :: "ndr_pull \<Rightarrow> ndr_pull \<Rightarrow> bool" where
  "pull_step q q' \<longleftrightarrow>
     wf_pull q' \<and> pull_data q' = pull_data q \<and> pull_data_size q' = pull_data_size q \<and>
     pull_flags q' = pull_flags q \<and> pull_offset q \<le> pull_offset q'"

fun reads_within :: "ndr_pull \<Rightarrow> ('a \<times> ndr_pull) res \<Rightarrow> bool" where
  "reads_within q (Inl Fault) = False"
| "reads_within q (Inl (Status s)) = True"
| "reads_within q (Inr (v, q')) = pull_step q q'"

text \<open>A loop that reads \<open>n\<close> elements with the same reader.\<close>

fun pull_list :: "(ndr_pull \<Rightarrow> u32 \<Rightarrow> ('a \<times> ndr_pull) res) \<Rightarrow> nat \<Rightarrow> ndr_pull \<Rightarrow> u32 \<Rightarrow> ('a list \<times> ndr_pull) res" where
  "pull_list rd 0 q fl = Inr ([], q)"
| "pull_list rd (Suc n) q fl =
     chk (rd q fl) (\<lambda>(v, q). chk (pull_list rd n q fl) (\<lambda>(vs, q). Inr (v # vs, q)))"

lemma pull_step_refl: "wf_pull q \<Longrightarrow> pull_step q q"
  by (simp add: pull_step_def)

lemma pull_step_self: "pull_step q q' \<Longrightarrow> pull_step q' q'"
  by (simp add: pull_step_def)

lemma pull_step_trans: "pull_step q q' \<Longrightarrow> pull_step q' q'' \<Longrightarrow> pull_step q q''"
  by (auto simp: pull_step_def)

lemma pull_step_wf: "pull_step q q' \<Longrightarrow> wf_pull q'"
  by (simp add: pull_step_def)

lemma reads_within_trans: "pull_step q q' \<Longrightarrow> reads_within q' r \<Longrightarrow> reads_within q r"
  by (induction q r rule: reads_within.induct) (auto intro: pull_step_trans)

lemma reads_within_bind:
  assumes "reads_within q m"
    and "\<And>v q'. m = Inr (v, q') \<Longrightarrow> pull_step q q' \<Longrightarrow> reads_within q' (f (v, q'))"
  shows "reads_within q (chk m f)"
proof (cases m)
  case (Inl e)
  with assms(1) show ?thesis by (cases e) auto
next
  case (Inr vq)
  obtain v q' where vq: "vq = (v, q')" by force
  with Inr assms(1) have step: "pull_step q q'" by simp
  with Inr vq assms(2) have "reads_within q' (f (v, q'))" by simp
  with step have "reads_within q (f (v, q'))" by (rule reads_within_trans)
  then show ?thesis using Inr vq by simp
qed

lemma reads_within_error [simp]: "reads_within q (ndr_pull_error e)"
  by (simp add: ndr_pull_error_def)

lemma chk_pull_error [simp]: "chk (ndr_pull_error e) f = ndr_pull_error e"
  by (simp add: ndr_pull_error_def)

lemma init_blob_fields [simp]:
  "pull_offset (ndr_pull_init_blob blob) = 0" "pull_flags (ndr_pull_init_blob blob) = 0"
  "pull_data (ndr_pull_init_blob blob) = blob"
  by (simp_all add: ndr_pull_init_blob_def)

lemma reads_within_not_Fault: "reads_within q r \<Longrightarrow> r \<noteq> Inl Fault"
  by (cases r) auto

section \<open>Alignment and bounds\<close>

definition nat_round :: "nat \<Rightarrow> nat \<Rightarrow> nat" where
  "nat_round m n = (m + (n - 1)) - (m + (n - 1)) mod n"

lemma nat_round_le: "0 < n \<Longrightarrow> m \<le> nat_round m n"
proof -
  assume n: "0 < n"
  have "(m + (n - 1)) mod n < n" using n by simp
  then show ?thesis unfolding nat_round_def by linarith
qed

lemma nat_round_less: "0 < n \<Longrightarrow> nat_round m n < m + n"
  by (simp add: nat_round_def)

lemma nat_round_dvd: "n dvd nat_round m n"
  by (simp add: nat_round_def minus_mod_eq_mult_div)

lemma nat_round_id: "0 < n \<Longrightarrow> n dvd m \<Longrightarrow> nat_round m n = m"
proof -
  assume n: "0 < n" and d: "n dvd m"
  from d obtain c where "m = n * c" ..
  then have "(m + (n - 1)) mod n = (n - 1) mod n" by (simp only: mod_mult_self4)
  also have "\<dots> = n - 1" using n by simp
  finally have "(m + (n - 1)) mod n = n - 1" .
  then show ?thesis using n by (simp add: nat_round_def)
qed

lemma and_not_pow2: "x AND NOT (2 ^ k - 1) = x AND NOT (mask k)" for x :: "'a::len word"
  by (simp add: mask_eq_exp_minus_1)

lemma unat_ndr_round:
  assumes "n = 2 ^ k" and "k \<le> 3" and "unat ofs < 2 ^ 32 - 8"
  shows "unat (ndr_round ofs n) = nat_round (unat ofs) (unat n)"
proof -
  have k: "k = 0 \<or> k = 1 \<or> k = 2 \<or> k = 3" using assms(2) by auto
  have n: "unat n = 2 ^ k" and n1: "unat (n - 1) = 2 ^ k - 1"
    using k assms(1) by auto
  have "(2::nat) ^ k \<le> 8" using k by auto
  then have sum: "unat (ofs + (n - 1)) = unat ofs + (2 ^ k - 1)"
    using assms(3) by (simp add: unat_add_small n1)
  show ?thesis
    unfolding ndr_round_def nat_round_def assms(1) and_not_pow2 unat_and_not_mask
    using sum n assms(1) by simp
qed

lemmas unat_ndr_round_2 = unat_ndr_round [of 2 1, simplified]
lemmas unat_ndr_round_4 = unat_ndr_round [of 4 2, simplified]
lemmas unat_ndr_round_8 = unat_ndr_round [of 8 3, simplified]

lemma need_bytes_iff:
  assumes "wf_pull q"
  shows "NDR_PULL_NEED_BYTES q n =
    (if unat (pull_offset q) + unat n \<le> unat (pull_data_size q) then Inr ()
     else ndr_pull_error NDR_ERR_BUFSIZE)"
proof (cases "n \<le> pull_data_size q")
  case True
  with assms have "unat (pull_offset q) + unat n < 2 ^ 32"
    by (simp add: wf_pull_def word_le_nat_alt)
  with True show ?thesis
    by (auto simp: NDR_PULL_NEED_BYTES_def word_le_nat_alt word_less_nat_alt unat_add_small not_le)
next
  case False
  then show ?thesis
    by (simp add: NDR_PULL_NEED_BYTES_def word_le_nat_alt word_less_nat_alt not_le)
qed

lemma padding_scan_ok:
  "i + k \<le> length d \<Longrightarrow> \<exists>j. padding_scan d i k = Inr j"
  by (induction k arbitrary: i) (auto simp: get_byte_def)

lemma unat_round64:
  assumes "n = 2 ^ k" and "k \<le> 3"
  shows "unat ((ucast (ofs :: u32) + (n - 1)) AND NOT (n - 1 :: u64)) = nat_round (unat ofs) (unat n)"
proof -
  have k: "k = 0 \<or> k = 1 \<or> k = 2 \<or> k = 3" using assms(2) by auto
  have n: "unat n = 2 ^ k" and n1: "unat (n - 1) = 2 ^ k - 1"
    using k assms(1) by auto
  have "(2::nat) ^ k \<le> 8" using k by auto
  moreover have "unat ofs < 2 ^ 32" by (rule unat_u32)
  ultimately have sum: "unat (ucast ofs + (n - 1)) = unat ofs + (2 ^ k - 1)"
    by (simp add: unat_add_small n1 unat_ucast_u64)
  show ?thesis
    unfolding nat_round_def assms(1) and_not_pow2 unat_and_not_mask
    using sum n assms(1) by simp
qed

lemma check_padding_ok:
  assumes "wf_pull q" and "has_flag (pull_flags q) LIBNDR_FLAG_PAD_CHECK"
    and "n = 2 ^ k" and "k \<le> 3"
  shows "\<exists>w. ndr_check_padding q n = Inr w"
proof -
  have k: "k = 0 \<or> k = 1 \<or> k = 2 \<or> k = 3" using assms(4) by auto
  then have n: "0 < unat n" "unat n \<le> 8" using assms(3) by auto
  let ?ofs = "unat (pull_offset q)"
  let ?ofs2 = "nat_round ?ofs (unat n)"
  have "?ofs \<le> ?ofs2" "?ofs2 < ?ofs + 8"
    using nat_round_le [OF n(1), of ?ofs] nat_round_less [OF n(1), of ?ofs] n(2) by simp_all
  then have len: "?ofs + (?ofs2 - ?ofs) \<le> length (pull_data q)"
    using assms(1,2) by (auto simp: wf_pull_def word_le_nat_alt)
  then show ?thesis
    using padding_scan_ok [OF len]
    by (auto simp: ndr_check_padding_def Let_def unat_round64 [OF assms(3,4)] get_bytes_def)
qed

lemma NDR_PULL_ALIGN_eq:
  assumes wf: "wf_pull q" and n: "n = 2 ^ k" and k: "k \<le> 3"
  shows "NDR_PULL_ALIGN q n =
    (let ofs = (if has_flag (pull_flags q) LIBNDR_FLAG_NOALIGN then unat (pull_offset q)
                else nat_round (unat (pull_offset q)) (unat n))
     in if ofs \<le> unat (pull_data_size q) then Inr (q\<lparr>pull_offset := word_of_nat ofs\<rparr>)
        else ndr_pull_error NDR_ERR_BUFSIZE)"
proof -
  have k': "k = 0 \<or> k = 1 \<or> k = 2 \<or> k = 3" using k by auto
  then have cast: "(ucast n :: u64) = 2 ^ k" using n by auto
  have ofs: "unat (pull_offset q) < 2 ^ 32 - 8" "unat (pull_offset q) \<le> unat (pull_data_size q)"
    using wf by (auto simp: wf_pull_def word_le_nat_alt)
  note r = unat_ndr_round [OF n k ofs(1)]
  have pad: "has_flag (pull_flags q) LIBNDR_FLAG_PAD_CHECK \<Longrightarrow>
      \<exists>w. ndr_check_padding q (ucast n) = Inr w"
    using check_padding_ok [OF wf _ cast k] .
  have w: "word_of_nat (nat_round (unat (pull_offset q)) (unat n)) = ndr_round (pull_offset q) n"
    by (simp add: r [symmetric])
  show ?thesis
    using pad ofs(2)
    by (auto simp: NDR_PULL_ALIGN_def Let_def w word_less_nat_alt r not_le not_less)
qed

lemma aligned_step:
  assumes wf: "wf_pull q" and n: "n = 2 ^ k" "k \<le> 3" and eq: "NDR_PULL_ALIGN q n = Inr q'"
  shows "pull_step q q'"
proof -
  let ?ofs = "if has_flag (pull_flags q) LIBNDR_FLAG_NOALIGN then unat (pull_offset q)
              else nat_round (unat (pull_offset q)) (unat n)"
  have "k = 0 \<or> k = 1 \<or> k = 2 \<or> k = 3" using n(2) by auto
  then have "0 < unat n" using n(1) by auto
  then have le: "unat (pull_offset q) \<le> ?ofs" by (simp add: nat_round_le)
  from eq have b: "?ofs \<le> unat (pull_data_size q)" and
    q': "q' = q\<lparr>pull_offset := word_of_nat ?ofs\<rparr>"
    by (auto simp: NDR_PULL_ALIGN_eq [OF wf n] Let_def ndr_pull_error_def split: if_splits)
  have "?ofs < 2 ^ 32" using b unat_u32 [of "pull_data_size q"] by linarith
  then have "unat (word_of_nat ?ofs :: u32) = ?ofs" by (simp add: unat_of_nat)
  with q' b le wf show ?thesis
    by (simp add: pull_step_def wf_pull_def word_le_nat_alt)
qed

lemma reads_within_align:
  assumes wf: "wf_pull q" and n: "n = 2 ^ k" "k \<le> 3"
    and f: "\<And>q'. NDR_PULL_ALIGN q n = Inr q' \<Longrightarrow> wf_pull q' \<Longrightarrow> reads_within q' (f q')"
  shows "reads_within q (chk (NDR_PULL_ALIGN q n) f)"
proof (cases "NDR_PULL_ALIGN q n")
  case (Inl e)
  then show ?thesis
    by (auto simp: NDR_PULL_ALIGN_eq [OF wf n] Let_def ndr_pull_error_def split: if_splits)
next
  case (Inr q')
  from aligned_step [OF wf n Inr] have step: "pull_step q q'" .
  then have "reads_within q' (f q')" using f Inr by (simp add: pull_step_def)
  with step have "reads_within q (f q')" by (rule reads_within_trans)
  then show ?thesis using Inr by simp
qed

lemmas reads_within_align_2 = reads_within_align [where n = 2 and k = 1, simplified]
lemmas reads_within_align_4 = reads_within_align [where n = 4 and k = 2, simplified]
lemmas reads_within_align_8 = reads_within_align [where n = 8 and k = 3, simplified]

lemma reads_within_need:
  assumes "wf_pull q"
    and "unat (pull_offset q) + unat n \<le> unat (pull_data_size q) \<Longrightarrow> reads_within q (f ())"
  shows "reads_within q (chk (NDR_PULL_NEED_BYTES q n) f)"
  using assms by (simp add: need_bytes_iff)

lemma pull_skip_step:
  assumes "wf_pull q" and "unat (pull_offset q) + unat n \<le> unat (pull_data_size q)"
  shows "pull_step q (pull_skip q n)"
proof -
  have "unat (pull_offset q + n) = unat (pull_offset q) + unat n"
    using assms by (simp add: wf_pull_def unat_add_small)
  with assms show ?thesis
    by (simp add: pull_step_def pull_skip_def wf_pull_def word_le_nat_alt)
qed

lemma NDR_SVAL_ok:
  "unat ofs + 2 \<le> length (pull_data q) \<Longrightarrow> \<exists>v. NDR_SVAL q ofs = Inr v"
  using SVAL_in_bounds [of "unat ofs" "pull_data q"] by (auto simp: NDR_SVAL_def RSVAL_def)

lemma NDR_IVAL_ok:
  "unat ofs + 4 \<le> length (pull_data q) \<Longrightarrow> \<exists>v. NDR_IVAL q ofs = Inr v"
  using IVAL_in_bounds [of "unat ofs" "pull_data q"] by (auto simp: NDR_IVAL_def RIVAL_def)

lemma wf_pull_len:
  "wf_pull q \<Longrightarrow> unat (pull_offset q) + k \<le> unat (pull_data_size q) \<Longrightarrow>
   unat (pull_offset q) + k \<le> length (pull_data q)"
  by (simp add: wf_pull_def)

section \<open>The contract of a reader\<close>

locale ndr_reader =
  fixes pull :: "ndr_pull \<Rightarrow> u32 \<Rightarrow> ('a \<times> ndr_pull) res"
  assumes reader_safe: "wf_pull q \<Longrightarrow> reads_within q (pull q fl)"
begin

lemma pull_no_fault: "wf_pull q \<Longrightarrow> pull q fl \<noteq> Inl Fault"
  using reads_within_not_Fault [OF reader_safe] .

lemma pull_forward:
  "wf_pull q \<Longrightarrow> pull q fl = Inr (v, q') \<Longrightarrow> pull_step q q'"
  using reader_safe [of q fl] by simp

lemma pull_list_safe: "wf_pull q \<Longrightarrow> reads_within q (pull_list pull n q fl)"
proof (induction n arbitrary: q)
  case 0
  then show ?case by (simp add: pull_step_refl)
next
  case (Suc n)
  show ?case
    unfolding pull_list.simps
  proof (rule reads_within_bind)
    show "reads_within q (pull q fl)" using Suc.prems by (rule reader_safe)
  next
    fix v q' assume "pull_step q q'"
    then have "wf_pull q'" by (rule pull_step_wf)
    then have r: "reads_within q' (pull_list pull n q' fl)" by (rule Suc.IH)
    show "reads_within q' (case (v, q') of (v, q) \<Rightarrow>
        chk (pull_list pull n q fl) (\<lambda>(vs, q). Inr (v # vs, q)))"
      unfolding prod.case by (rule reads_within_bind [OF r]) (simp add: pull_step_refl pull_step_wf)
  qed
qed

lemma init_blob_wf: "length blob < 2 ^ 31 \<Longrightarrow> wf_pull (ndr_pull_init_blob blob)"
  by (simp add: wf_pull_def ndr_pull_init_blob_def unat_of_nat has_flag_def)

lemma struct_blob_safe:
  assumes "length blob < 2 ^ 31"
  shows "ndr_pull_struct_blob blob pull \<noteq> Inl Fault"
  using pull_no_fault [OF init_blob_wf [OF assms]]
  by (auto simp: ndr_pull_struct_blob_def chk_eq_Inl)

lemma struct_blob_all_safe:
  assumes "length blob < 2 ^ 31"
  shows "ndr_pull_struct_blob_all blob pull \<noteq> Inl Fault"
  using pull_no_fault [OF init_blob_wf [OF assms]]
  by (auto simp: ndr_pull_struct_blob_all_def chk_eq_Inl split: if_splits)

end

section \<open>The readers keep the contract\<close>

interpretation rd_uint8: ndr_reader ndr_pull_uint8
  by unfold_locales
    (auto simp: ndr_pull_uint8_def CVAL_def get_byte_def wf_pull_def
      intro!: reads_within_need pull_skip_step)

interpretation rd_int8: ndr_reader ndr_pull_int8
  by unfold_locales
    (auto simp: ndr_pull_int8_def CVAL_def get_byte_def wf_pull_def
      intro!: reads_within_need pull_skip_step)

lemma scalar16_safe:
  "wf_pull q \<Longrightarrow> reads_within q
     (chk (NDR_PULL_ALIGN q 2) (\<lambda>q. chk (NDR_PULL_NEED_BYTES q 2) (\<lambda>_.
        chk (NDR_SVAL q (pull_offset q)) (\<lambda>v. Inr (g v, pull_skip q 2)))))"
proof (rule reads_within_align_2, assumption, rule reads_within_need, assumption)
  fix q' assume "wf_pull q'" and "unat (pull_offset q') + unat (2::u32) \<le> unat (pull_data_size q')"
  then show "reads_within q' (chk (NDR_SVAL q' (pull_offset q')) (\<lambda>v. Inr (g v, pull_skip q' 2)))"
    using NDR_SVAL_ok [of "pull_offset q'" q'] wf_pull_len [of q' 2] pull_skip_step [of q' 2] by auto
qed

lemma scalar32_safe:
  "wf_pull q \<Longrightarrow> reads_within q
     (chk (NDR_PULL_ALIGN q 4) (\<lambda>q. chk (NDR_PULL_NEED_BYTES q 4) (\<lambda>_.
        chk (NDR_IVAL q (pull_offset q)) (\<lambda>v. Inr (g v, pull_skip q 4)))))"
proof (rule reads_within_align_4, assumption, rule reads_within_need, assumption)
  fix q' assume "wf_pull q'" and "unat (pull_offset q') + unat (4::u32) \<le> unat (pull_data_size q')"
  then show "reads_within q' (chk (NDR_IVAL q' (pull_offset q')) (\<lambda>v. Inr (g v, pull_skip q' 4)))"
    using NDR_IVAL_ok [of "pull_offset q'" q'] wf_pull_len [of q' 4] pull_skip_step [of q' 4] by auto
qed

lemma scalar64_safe:
  "wf_pull q \<Longrightarrow> reads_within q
     (chk (NDR_PULL_ALIGN q 4) (\<lambda>q. chk (NDR_PULL_NEED_BYTES q 8) (\<lambda>_.
        chk (NDR_IVAL q (pull_offset q)) (\<lambda>a. chk (NDR_IVAL q (pull_offset q + 4)) (\<lambda>b.
          Inr (g a b, pull_skip q 8))))))"
proof (rule reads_within_align_4, assumption, rule reads_within_need, assumption)
  fix q' assume wf: "wf_pull q'"
    and b: "unat (pull_offset q') + unat (8::u32) \<le> unat (pull_data_size q')"
  have "unat (pull_offset q' + 4) = unat (pull_offset q') + 4"
    using wf b by (simp add: wf_pull_def unat_add_small)
  then show "reads_within q' (chk (NDR_IVAL q' (pull_offset q')) (\<lambda>a.
      chk (NDR_IVAL q' (pull_offset q' + 4)) (\<lambda>b. Inr (g a b, pull_skip q' 8))))"
    using wf b NDR_IVAL_ok [of "pull_offset q'" q'] NDR_IVAL_ok [of "pull_offset q' + 4" q']
      wf_pull_len [of q' 8] pull_skip_step [of q' 8] by auto
qed

interpretation rd_uint16: ndr_reader ndr_pull_uint16
  unfolding ndr_pull_uint16_def by unfold_locales (rule scalar16_safe)

interpretation rd_int16: ndr_reader ndr_pull_int16
  unfolding ndr_pull_int16_def by unfold_locales (rule scalar16_safe)

interpretation rd_uint32: ndr_reader ndr_pull_uint32
  unfolding ndr_pull_uint32_def by unfold_locales (rule scalar32_safe)

interpretation rd_int32: ndr_reader ndr_pull_int32
  unfolding ndr_pull_int32_def by unfold_locales (rule scalar32_safe)

interpretation rd_udlong: ndr_reader ndr_pull_udlong
  unfolding ndr_pull_udlong_def by unfold_locales (rule scalar64_safe)

interpretation rd_udlongr: ndr_reader ndr_pull_udlongr
  unfolding ndr_pull_udlongr_def by unfold_locales (rule scalar64_safe)

interpretation rd_dlong: ndr_reader ndr_pull_dlong
  unfolding ndr_pull_dlong_def by unfold_locales (rule rd_udlong.reader_safe)

interpretation rd_hyper: ndr_reader ndr_pull_hyper
  unfolding ndr_pull_hyper_def
  by unfold_locales (blast intro: reads_within_align_8 rd_udlong.reader_safe)

interpretation rd_NTSTATUS: ndr_reader ndr_pull_NTSTATUS
  unfolding ndr_pull_NTSTATUS_def
  by unfold_locales
    (rule reads_within_bind [OF rd_uint32.reader_safe], auto intro: pull_step_refl pull_step_self)

interpretation rd_WERROR: ndr_reader ndr_pull_WERROR
  unfolding ndr_pull_WERROR_def
  by unfold_locales
    (rule reads_within_bind [OF rd_uint32.reader_safe], auto intro: pull_step_refl pull_step_self)

interpretation rd_NTTIME: ndr_reader ndr_pull_NTTIME
  unfolding ndr_pull_NTTIME_def
  by unfold_locales
    (rule reads_within_bind [OF rd_udlong.reader_safe], auto intro: pull_step_refl pull_step_self)

interpretation rd_NTTIME_1sec: ndr_reader ndr_pull_NTTIME_1sec
  unfolding ndr_pull_NTTIME_1sec_def
  by unfold_locales
    (rule reads_within_bind [OF rd_hyper.reader_safe], auto intro: pull_step_refl pull_step_self)

interpretation rd_NTTIME_hyper: ndr_reader ndr_pull_NTTIME_hyper
  unfolding ndr_pull_NTTIME_hyper_def
  by unfold_locales
    (rule reads_within_bind [OF rd_hyper.reader_safe], auto intro: pull_step_refl pull_step_self)

interpretation rd_time_t: ndr_reader ndr_pull_time_t
  unfolding ndr_pull_time_t_def
  by unfold_locales
    (rule reads_within_bind [OF rd_uint32.reader_safe], auto intro: pull_step_refl pull_step_self)

lemma pull_ptr_count_step:
  "wf_pull q \<Longrightarrow> pull_step q (q\<lparr>pull_ptr_count := c\<rparr>)"
  by (simp add: pull_step_def wf_pull_def)

interpretation rd_generic_ptr: ndr_reader "\<lambda>q fl. ndr_pull_generic_ptr q"
  unfolding ndr_pull_generic_ptr_def
  by unfold_locales
    (rule reads_within_bind [OF rd_uint32.reader_safe],
     auto intro: pull_step_refl pull_step_wf pull_ptr_count_step)

interpretation rd_ref_ptr: ndr_reader "\<lambda>q fl. ndr_pull_ref_ptr q"
  unfolding ndr_pull_ref_ptr_def
  by unfold_locales
    (rule reads_within_bind [OF rd_uint32.reader_safe], auto intro: pull_step_refl pull_step_self)

lemma counted_bytes_safe:
  assumes "wf_pull q"
  shows "reads_within q (chk (NDR_PULL_NEED_BYTES q n) (\<lambda>_.
     chk (get_bytes (pull_data q) (unat (pull_offset q)) (unat n)) (\<lambda>bs. Inr (g bs, pull_skip q n))))"
  using assms
  by (auto intro!: reads_within_need simp: get_bytes_def pull_skip_step dest: wf_pull_len)

interpretation rd_bytes: ndr_reader "\<lambda>q n. ndr_pull_bytes q n"
  unfolding ndr_pull_bytes_def by unfold_locales (rule counted_bytes_safe)

interpretation rd_array_uint8: ndr_reader "\<lambda>q fl. ndr_pull_array_uint8 q fl n" for n
  unfolding ndr_pull_array_uint8_def
  by unfold_locales
    (auto intro!: reads_within_bind [OF rd_bytes.reader_safe] intro: pull_step_refl pull_step_self)

interpretation rd_DATA_BLOB: ndr_reader ndr_pull_DATA_BLOB
proof unfold_locales
  fix q fl assume wf: "wf_pull q"
  show "reads_within q (ndr_pull_DATA_BLOB q fl)"
    unfolding ndr_pull_DATA_BLOB_def
    by (rule reads_within_bind)
      (use wf in \<open>auto simp: Let_def pull_step_refl rd_uint32.reader_safe
         dest!: pull_step_wf intro: counted_bytes_safe [where g = "\<lambda>b. b"]\<close>)
qed

end
