(* ===== verification/Ndr_Codec.thy ===== *)
theory Ndr_Codec
  imports Ndr_Safe
begin

text \<open>
  The build side of \<open>librpc/ndr\<close> and its agreement with the parse side. A build context is
  abstracted to the bytes marshalled so far (\<open>push_out\<close>); every writer appends to them the
  NDR encoding of its value, whatever the allocation, reallocation and the contents of
  fresh memory. The locale \<open>ndr_codec\<close> ties a writer and a reader to one encoding and
  derives the round trips of single values, arrays and whole blobs.
\<close>

section \<open>Well-formed build contexts\<close>

definition wf_push :: "ndr_push \<Rightarrow> bool" where
  "wf_push p \<longleftrightarrow>
     length (push_data p) = unat (push_alloc_size p) \<and>
     unat (push_alloc_size p) < MAX_TALLOC_SIZE \<and> push_offset p \<le> push_alloc_size p"

definition push_out :: "ndr_push \<Rightarrow> bytes" where
  "push_out p = take (unat (push_offset p)) (push_data p)"

text \<open>The fields a writer of plain data leaves alone.\<close>

definition push_frame :: "ndr_push \<Rightarrow> ndr_push \<Rightarrow> bool" where
  "push_frame p p' \<longleftrightarrow>
     push_flags p' = push_flags p \<and> push_relative_base_offset p' = push_relative_base_offset p \<and>
     push_relative_base_list p' = push_relative_base_list p \<and>
     push_switch_list p' = push_switch_list p \<and> push_relative_list p' = push_relative_list p \<and>
     push_full_ptr_list p' = push_full_ptr_list p \<and> push_ptr_count p' = push_ptr_count p \<and>
     push_fill p' = push_fill p"

definition push_appends :: "ndr_push \<Rightarrow> bytes \<Rightarrow> ndr_push \<Rightarrow> bool" where
  "push_appends p bs p' \<longleftrightarrow> wf_push p' \<and> push_out p' = push_out p @ bs \<and> push_frame p p'"

text \<open>Room for \<open>n\<close> more bytes, with the slack the growth policy may ask talloc for.\<close>

definition push_room :: "ndr_push \<Rightarrow> nat \<Rightarrow> bool" where
  "push_room p n \<longleftrightarrow> unat (push_offset p) + n + 1024 < MAX_TALLOC_SIZE"

lemma length_push_out [simp]: "wf_push p \<Longrightarrow> length (push_out p) = unat (push_offset p)"
  by (simp add: wf_push_def push_out_def word_le_nat_alt)

lemma push_appends_offset:
  "wf_push p \<Longrightarrow> push_appends p bs p' \<Longrightarrow> unat (push_offset p') = unat (push_offset p) + length bs"
  unfolding push_appends_def by (metis length_append length_push_out)

lemma push_appends_flags: "push_appends p bs p' \<Longrightarrow> push_flags p' = push_flags p"
  by (simp add: push_appends_def push_frame_def)

lemma push_appends_refl: "wf_push p \<Longrightarrow> push_appends p [] p"
  by (simp add: push_appends_def push_frame_def)

lemma push_appends_trans:
  "push_appends p bs p' \<Longrightarrow> push_appends p' cs p'' \<Longrightarrow> push_appends p (bs @ cs) p''"
  by (simp add: push_appends_def push_frame_def)

lemma push_room_mono: "push_room p n \<Longrightarrow> m \<le> n \<Longrightarrow> push_room p m"
  by (simp add: push_room_def)

lemma push_room_after:
  "wf_push p \<Longrightarrow> push_appends p bs p' \<Longrightarrow> push_room p (length bs + n) \<Longrightarrow> push_room p' n"
  using push_appends_offset [of p bs p'] by (simp add: push_room_def)

lemma wf_push_init: "wf_push (ndr_push_init_ctx fill)"
  by (simp add: wf_push_def ndr_push_init_ctx_def NDR_BASE_MARSHALL_SIZE_def MAX_TALLOC_SIZE_def)

lemma fresh_push:
  "wf_push ((ndr_push_init_ctx fill)\<lparr>push_flags := fs\<rparr>)"
  "push_out ((ndr_push_init_ctx fill)\<lparr>push_flags := fs\<rparr>) = []"
  "push_offset (ndr_push_init_ctx fill) = 0"
  using wf_push_init [of fill] by (simp_all add: wf_push_def push_out_def ndr_push_init_ctx_def)

section \<open>Growing and storing\<close>

lemma expand_ok:
  assumes wf: "wf_push p" and ofs: "push_offset p \<le> sz" and room: "unat sz + 1024 < MAX_TALLOC_SIZE"
  shows "\<exists>p'. ndr_push_expand p sz = Inr p' \<and> wf_push p' \<and> sz < push_alloc_size p' \<and>
     push_frame p p' \<and> push_offset p' = push_offset p \<and>
     take (unat (push_alloc_size p)) (push_data p') = push_data p"
proof (cases "push_alloc_size p > sz")
  case True
  then show ?thesis using wf by (auto simp: ndr_push_expand_def push_frame_def wf_push_def)
next
  case False
  define a1 where "a1 = push_alloc_size p + NDR_BASE_MARSHALL_SIZE"
  define a2 where "a2 = (if sz + 1 > a1 then sz + 1 else a1)"
  have le: "unat (push_alloc_size p) \<le> unat sz" using False by (simp add: word_less_nat_alt)
  have "unat a1 = unat (push_alloc_size p) + 1024"
    using le room by (simp add: a1_def unat_add_small NDR_BASE_MARSHALL_SIZE_def MAX_TALLOC_SIZE_def)
  moreover have "unat (sz + 1) = unat sz + 1"
    using room by (simp add: unat_add_small MAX_TALLOC_SIZE_def)
  ultimately have a2: "unat a2 = max (unat sz + 1) (unat (push_alloc_size p) + 1024)"
    by (simp add: a2_def word_less_nat_alt)
  then have lt: "unat a2 < MAX_TALLOC_SIZE" "unat sz < unat a2" using le room by simp_all
  have len: "length (push_data p) = unat (push_alloc_size p)" using wf by (simp add: wf_push_def)
  have "talloc_realloc_bytes (push_fill p) (push_data p) a2 =
      Some (push_data p @ replicate (unat a2 - length (push_data p)) (push_fill p))"
    using lt le len by (simp add: talloc_realloc_bytes_def)
  then have "ndr_push_expand p sz = Inr (p\<lparr>push_alloc_size := a2,
      push_data := push_data p @ replicate (unat a2 - length (push_data p)) (push_fill p)\<rparr>)"
    using False by (simp add: ndr_push_expand_def a1_def [symmetric] a2_def [symmetric] Let_def)
  then show ?thesis
    using lt le len ofs wf
    by (auto simp: wf_push_def push_frame_def word_less_nat_alt word_le_nat_alt)
qed

text \<open>What a store at the offset does to the marshalled bytes, once there is room.\<close>

lemma store_appends:
  assumes wf: "wf_push p" and room: "unat (push_offset p) + length bs \<le> unat (push_alloc_size p)"
    and n: "unat n = length bs"
  shows "\<exists>p'. push_store p (push_offset p) bs = Inr p' \<and> push_appends p bs (push_skip p' n)"
proof -
  have len: "length (push_data p) = unat (push_alloc_size p)" using wf by (simp add: wf_push_def)
  have sum: "unat (push_offset p + n) = unat (push_offset p) + length bs"
    using room n unat_u32 [of "push_alloc_size p"] by (simp add: unat_add_small)
  then show ?thesis
    using room wf len
    by (auto simp: push_store_def put_bytes_ok push_appends_def push_frame_def push_skip_def
        wf_push_def push_out_def word_le_nat_alt)
qed

lemma expand_appends:
  assumes "wf_push p" and "push_appends p [] p1" and "push_appends p1 bs p2"
  shows "push_appends p bs p2"
  using push_appends_trans [OF assms(2,3)] by simp

lemma need_bytes_ok:
  assumes wf: "wf_push p" and room: "push_room p (unat n)"
  shows "\<exists>p'. NDR_PUSH_NEED_BYTES p n = Inr p' \<and> push_appends p [] p' \<and>
     push_offset p' = push_offset p \<and> unat (push_offset p') + unat n \<le> unat (push_alloc_size p')"
proof -
  have sum: "unat (push_offset p + n) = unat (push_offset p) + unat n"
    using room by (simp add: push_room_def unat_add_small MAX_TALLOC_SIZE_def)
  have "push_offset p \<le> push_offset p + n" by (simp add: word_le_nat_alt sum)
  with wf room sum obtain p' where p': "ndr_push_expand p (push_offset p + n) = Inr p'"
      "wf_push p'" "push_offset p + n < push_alloc_size p'" "push_frame p p'"
      "push_offset p' = push_offset p"
      "take (unat (push_alloc_size p)) (push_data p') = push_data p"
    using expand_ok [of p "push_offset p + n"] by (auto simp: push_room_def)
  have "unat (push_offset p) \<le> unat (push_alloc_size p)"
    using wf by (simp add: wf_push_def word_le_nat_alt)
  then have "push_out p' = push_out p"
    unfolding push_out_def using p'(5,6) by (metis min.absorb1 take_take)
  with p' sum show ?thesis
    by (auto simp: NDR_PUSH_NEED_BYTES_def push_appends_def word_less_nat_alt)
qed

text \<open>Reserve, store, advance: the common body of the writers.\<close>

lemma reserve_store:
  assumes wf: "wf_push p" and room: "push_room p (length bs)" and n: "unat n = length bs"
  shows "\<exists>p'. chk (NDR_PUSH_NEED_BYTES p n) (\<lambda>p. chk (push_store p (push_offset p) bs)
            (\<lambda>p. Inr (push_skip p n))) = Inr p' \<and> push_appends p bs p'"
proof -
  obtain p1 where p1: "NDR_PUSH_NEED_BYTES p n = Inr p1" "push_appends p [] p1"
      "unat (push_offset p1) + unat n \<le> unat (push_alloc_size p1)"
    using need_bytes_ok [OF wf] room n by metis
  then have "wf_push p1" by (simp add: push_appends_def)
  then obtain p2 where p2: "push_store p1 (push_offset p1) bs = Inr p2"
      "push_appends p1 bs (push_skip p2 n)"
    using store_appends [of p1 bs n] p1(3) n by auto
  show ?thesis
    using p1 p2 expand_appends [OF wf p1(2) p2(2)] by simp
qed

section \<open>Encodings\<close>

definition pad_len :: "u32 \<Rightarrow> nat \<Rightarrow> nat \<Rightarrow> nat" where
  "pad_len fl ofs n = (if has_flag fl LIBNDR_FLAG_NOALIGN then 0 else nat_round ofs n - ofs)"

definition enc16 :: "u32 \<Rightarrow> u16 \<Rightarrow> bytes" where
  "enc16 fl v = (if NDR_BE fl then rev (le16 v) else le16 v)"

definition enc32 :: "u32 \<Rightarrow> u32 \<Rightarrow> bytes" where
  "enc32 fl v = (if NDR_BE fl then rev (le32 v) else le32 v)"

text \<open>An encoding at an offset: zero bytes up to the alignment, then the value.\<close>

definition enc_u8 :: "u32 \<Rightarrow> nat \<Rightarrow> u8 \<Rightarrow> bytes" where
  "enc_u8 fl ofs v = [v]"

definition enc_u16 :: "u32 \<Rightarrow> nat \<Rightarrow> u16 \<Rightarrow> bytes" where
  "enc_u16 fl ofs v = replicate (pad_len fl ofs 2) 0 @ enc16 fl v"

definition enc_u32 :: "u32 \<Rightarrow> nat \<Rightarrow> u32 \<Rightarrow> bytes" where
  "enc_u32 fl ofs v = replicate (pad_len fl ofs 4) 0 @ enc32 fl v"

definition enc_u64 :: "u32 \<Rightarrow> nat \<Rightarrow> u64 \<Rightarrow> bytes" where
  "enc_u64 fl ofs v =
     replicate (pad_len fl ofs 4) 0 @ enc32 fl (ucast v) @ enc32 fl (ucast (drop_bit 32 v))"

definition enc_u64r :: "u32 \<Rightarrow> nat \<Rightarrow> u64 \<Rightarrow> bytes" where
  "enc_u64r fl ofs v =
     replicate (pad_len fl ofs 4) 0 @ enc32 fl (ucast (drop_bit 32 v)) @ enc32 fl (ucast v)"

definition enc_hyper :: "u32 \<Rightarrow> nat \<Rightarrow> u64 \<Rightarrow> bytes" where
  "enc_hyper fl ofs v =
     replicate (pad_len fl ofs 8) 0 @ enc_u64 fl (ofs + pad_len fl ofs 8) v"

lemma pad_len_less: "0 < n \<Longrightarrow> pad_len fl ofs n < n"
  using nat_round_less [of n ofs] by (auto simp: pad_len_def)

lemma length_enc16 [simp]: "length (enc16 fl v) = 2"
  by (simp add: enc16_def)

lemma length_enc32 [simp]: "length (enc32 fl v) = 4"
  by (simp add: enc32_def)

lemma le16_SREV: "le16 (ucast (SREV (ucast v))) = rev (le16 v)"
proof -
  have "(ucast (ucast (SREV (ucast v)) :: u16) :: u8) = ucast (drop_bit 8 v)"
    by (rule bit_word_eqI) (auto simp: bit_SREV bit_simps ac_simps dest: bit_imp_le_length)
  moreover have "(ucast (drop_bit 8 (ucast (SREV (ucast v)) :: u16)) :: u8) = ucast v"
    by (rule bit_word_eqI) (auto simp: bit_SREV bit_simps ac_simps dest: bit_imp_le_length)
  ultimately show ?thesis by (simp add: le16_def)
qed

lemma le32_IREV: "le32 (IREV v) = rev (le32 v)"
proof -
  have "(ucast (IREV v) :: u16) = ucast (SREV (ucast (ucast (drop_bit 16 v) :: u16)))"
    by (rule bit_word_eqI) (auto simp: bit_IREV bit_SREV bit_simps ac_simps)
  moreover have "(ucast (drop_bit 16 (IREV v)) :: u16) = ucast (SREV (ucast (ucast v :: u16)))"
    by (rule bit_word_eqI) (auto simp: bit_IREV bit_SREV bit_simps ac_simps)
  ultimately show ?thesis by (simp add: le32_def le16_SREV)
qed

lemma NDR_SSVAL_store:
  "NDR_SSVAL p ofs (ucast v) = push_store p ofs (enc16 (push_flags p) v)"
proof -
  have "(ucast (ucast (v :: u16) :: u32) :: u16) = v"
    by (rule bit_word_eqI) (simp add: bit_simps)
  then show ?thesis
    by (simp add: NDR_SSVAL_def push_store_def enc16_def RSSVAL_def SSVAL_def le16_SREV)
qed

lemma NDR_SIVAL_store:
  "NDR_SIVAL p ofs v = push_store p ofs (enc32 (push_flags p) v)"
  by (simp add: NDR_SIVAL_def push_store_def enc32_def RSIVAL_def SIVAL_def le32_IREV)

lemma store_store:
  assumes wf: "wf_push p" and room: "unat ofs + 8 \<le> unat (push_alloc_size p)"
    and b: "length b = 4" and c: "length c = 4"
  shows "chk (push_store p ofs b) (\<lambda>p. push_store p (ofs + 4) c) = push_store p ofs (b @ c)"
proof -
  have len: "length (push_data p) = unat (push_alloc_size p)" using wf by (simp add: wf_push_def)
  have sum: "unat (ofs + 4) = unat ofs + 4"
    using room unat_u32 [of "push_alloc_size p"] by (simp add: unat_add_small)
  have "b \<noteq> []" "c \<noteq> []" using b c by auto
  then show ?thesis
    using room b c len by (auto simp: push_store_def put_bytes_def sum add.commute)
qed

section \<open>The writers append the encoding\<close>

lemma push_u8_ok:
  assumes "wf_push p" and "push_room p 1"
  shows "\<exists>p'. ndr_push_uint8 p fl v = Inr p' \<and> push_appends p [v] p'"
  using reserve_store [of p "[v]" 1] assms by (simp add: ndr_push_uint8_def)

lemma push_pad_ok:
  assumes "wf_push p" and "push_room p k"
  shows "\<exists>p'. push_pad k p = Inr p' \<and> push_appends p (replicate k 0) p'"
  using assms
proof (induction k arbitrary: p)
  case 0
  then show ?case by (simp add: push_appends_refl)
next
  case (Suc k)
  obtain p1 where p1: "ndr_push_uint8 p NDR_SCALARS 0 = Inr p1" "push_appends p [0] p1"
    using push_u8_ok [OF Suc.prems(1), of NDR_SCALARS 0] Suc.prems(2)
    by (auto simp: push_room_def)
  have "push_room p1 k"
    using push_room_after [OF Suc.prems(1) p1(2), of k] Suc.prems(2) by simp
  moreover have "wf_push p1" using p1(2) by (simp add: push_appends_def)
  ultimately obtain p2 where "push_pad k p1 = Inr p2" "push_appends p1 (replicate k 0) p2"
    using Suc.IH by blast
  with p1 show ?case using push_appends_trans [OF p1(2)] by fastforce
qed

lemma push_align_ok:
  assumes wf: "wf_push p" and n: "n = 2 ^ k" "k \<le> 3"
    and room: "push_room p (pad_len (push_flags p) (unat (push_offset p)) (unat n))"
  shows "\<exists>p'. NDR_PUSH_ALIGN p n = Inr p' \<and>
     push_appends p (replicate (pad_len (push_flags p) (unat (push_offset p)) (unat n)) 0) p'"
proof (cases "has_flag (push_flags p) LIBNDR_FLAG_NOALIGN")
  case True
  then show ?thesis using wf by (simp add: NDR_PUSH_ALIGN_def pad_len_def push_appends_refl)
next
  case False
  have "unat (push_offset p) < 2 ^ 32 - 8"
    using room by (simp add: push_room_def MAX_TALLOC_SIZE_def)
  note r = unat_ndr_round [OF n this]
  have "k = 0 \<or> k = 1 \<or> k = 2 \<or> k = 3" using n(2) by auto
  then have "0 < unat n" using n(1) by auto
  then have "push_offset p \<le> ndr_round (push_offset p) n"
    by (simp add: word_le_nat_alt r nat_round_le)
  then have "unat (ndr_round (push_offset p) n - push_offset p) =
      pad_len (push_flags p) (unat (push_offset p)) (unat n)"
    using False by (simp add: unat_sub r pad_len_def)
  then show ?thesis
    using push_pad_ok [OF wf room] False by (simp add: NDR_PUSH_ALIGN_def)
qed

text \<open>Align, reserve, store, advance.\<close>

lemma aligned_store:
  assumes wf: "wf_push p" and n: "n = 2 ^ k" "k \<le> 3"
    and room: "push_room p (pad_len (push_flags p) (unat (push_offset p)) (unat n) + length bs)"
    and m: "unat m = length bs"
    and g: "\<And>p'. push_flags p' = push_flags p \<Longrightarrow> wf_push p' \<Longrightarrow>
      unat (push_offset p') + length bs \<le> unat (push_alloc_size p') \<Longrightarrow>
      g p' = chk (push_store p' (push_offset p') bs) (\<lambda>p'. Inr (push_skip p' m))"
  shows "\<exists>p'. chk (NDR_PUSH_ALIGN p n) (\<lambda>p. chk (NDR_PUSH_NEED_BYTES p m) g) = Inr p' \<and>
     push_appends p (replicate (pad_len (push_flags p) (unat (push_offset p)) (unat n)) 0 @ bs) p'"
proof -
  let ?z = "replicate (pad_len (push_flags p) (unat (push_offset p)) (unat n)) (0::u8)"
  obtain p1 where p1: "NDR_PUSH_ALIGN p n = Inr p1" "push_appends p ?z p1"
    using push_align_ok [OF wf n] push_room_mono [OF room] by auto
  have wf1: "wf_push p1" using p1(2) by (simp add: push_appends_def)
  have room1: "push_room p1 (length bs)"
    using push_room_after [OF wf p1(2)] room by simp
  obtain p2 where p2: "NDR_PUSH_NEED_BYTES p1 m = Inr p2" "push_appends p1 [] p2"
      "unat (push_offset p2) + unat m \<le> unat (push_alloc_size p2)"
    using need_bytes_ok [OF wf1] room1 m by metis
  have wf2: "wf_push p2" using p2(2) by (simp add: push_appends_def)
  have "push_flags p2 = push_flags p"
    using p1(2) p2(2) by (simp add: push_appends_def push_frame_def)
  then have g2: "g p2 = chk (push_store p2 (push_offset p2) bs) (\<lambda>p'. Inr (push_skip p' m))"
    using g wf2 p2(3) m by simp
  obtain p3 where p3: "push_store p2 (push_offset p2) bs = Inr p3" "push_appends p2 bs (push_skip p3 m)"
    using store_appends [OF wf2] p2(3) m by auto
  have "push_appends p (?z @ bs) (push_skip p3 m)"
    using push_appends_trans [OF p1(2) expand_appends [OF wf1 p2(2) p3(2)]] .
  then show ?thesis using p1(1) p2(1) p3(1) g2 by simp
qed

lemma push_u16_ok:
  assumes "wf_push p" and "push_room p (length (enc_u16 (push_flags p) (unat (push_offset p)) v))"
  shows "\<exists>p'. ndr_push_uint16 p fl v = Inr p' \<and>
     push_appends p (enc_u16 (push_flags p) (unat (push_offset p)) v) p'"
  unfolding ndr_push_uint16_def enc_u16_def
  using aligned_store [where n = 2 and k = 1 and m = 2 and p = p and bs = "enc16 (push_flags p) v", OF assms(1)]
    assms(2) by (simp add: enc_u16_def NDR_SSVAL_store)

lemma push_u32_ok:
  assumes "wf_push p" and "push_room p (length (enc_u32 (push_flags p) (unat (push_offset p)) v))"
  shows "\<exists>p'. ndr_push_uint32 p fl v = Inr p' \<and>
     push_appends p (enc_u32 (push_flags p) (unat (push_offset p)) v) p'"
  unfolding ndr_push_uint32_def enc_u32_def
  using aligned_store [where n = 4 and k = 2 and m = 4 and p = p and bs = "enc32 (push_flags p) v", OF assms(1)]
    assms(2) by (simp add: enc_u32_def NDR_SIVAL_store)

lemma two_words:
  assumes "wf_push p" and "unat (push_offset p) + 8 \<le> unat (push_alloc_size p)"
  shows "chk (NDR_SIVAL p (push_offset p) a) (\<lambda>p. chk (NDR_SIVAL p (push_offset p + 4) b)
      (\<lambda>p. Inr (push_skip p m))) =
    chk (push_store p (push_offset p) (enc32 (push_flags p) a @ enc32 (push_flags p) b))
      (\<lambda>p. Inr (push_skip p m))"
proof -
  have same: "push_offset p' = push_offset p \<and> push_flags p' = push_flags p"
    if "push_store p (push_offset p) bs = Inr p'" for p' bs
    using that by (auto simp: push_store_def chk_eq_Inr)
  show ?thesis
    unfolding store_store [OF assms, symmetric, OF length_enc32 length_enc32] chk_assoc NDR_SIVAL_store
    by (cases "push_store p (push_offset p) (enc32 (push_flags p) a)") (auto dest!: same)
qed

lemma ucast_and_FFFFFFFF [simp]: "(ucast (v AND 0xFFFFFFFF) :: u32) = ucast (v :: u64)"
proof -
  have "(0xFFFFFFFF :: u64) = mask 32" by (simp add: mask_eq_exp_minus_1)
  show ?thesis unfolding \<open>0xFFFFFFFF = mask 32\<close> by (rule bit_word_eqI) (auto simp: bit_simps)
qed

lemma push_u64_ok:
  assumes "wf_push p" and "push_room p (length (enc_u64 (push_flags p) (unat (push_offset p)) v))"
  shows "\<exists>p'. ndr_push_udlong p fl v = Inr p' \<and>
     push_appends p (enc_u64 (push_flags p) (unat (push_offset p)) v) p'"
  unfolding ndr_push_udlong_def enc_u64_def
  by (rule aligned_store [where n = 4 and k = 2 and m = 8, simplified, OF assms(1)])
    (use assms(2) in \<open>auto simp: enc_u64_def two_words\<close>)

lemma push_u64r_ok:
  assumes "wf_push p" and "push_room p (length (enc_u64r (push_flags p) (unat (push_offset p)) v))"
  shows "\<exists>p'. ndr_push_udlongr p fl v = Inr p' \<and>
     push_appends p (enc_u64r (push_flags p) (unat (push_offset p)) v) p'"
  unfolding ndr_push_udlongr_def enc_u64r_def
  by (rule aligned_store [where n = 4 and k = 2 and m = 8, simplified, OF assms(1)])
    (use assms(2) in \<open>auto simp: enc_u64r_def two_words\<close>)

lemma push_hyper_ok:
  assumes wf: "wf_push p" and room: "push_room p (length (enc_hyper (push_flags p) (unat (push_offset p)) v))"
  shows "\<exists>p'. ndr_push_hyper p fl v = Inr p' \<and>
     push_appends p (enc_hyper (push_flags p) (unat (push_offset p)) v) p'"
proof -
  let ?k = "pad_len (push_flags p) (unat (push_offset p)) 8"
  obtain p1 where p1: "NDR_PUSH_ALIGN p 8 = Inr p1" "push_appends p (replicate ?k 0) p1"
    using push_align_ok [where n = 8 and k = 3 and p = p] wf push_room_mono [OF room, of ?k]
    by (auto simp: enc_hyper_def)
  have wf1: "wf_push p1" and fl1: "push_flags p1 = push_flags p"
    using p1(2) by (simp_all add: push_appends_def push_frame_def)
  have ofs1: "unat (push_offset p1) = unat (push_offset p) + ?k"
    using push_appends_offset [OF wf p1(2)] by simp
  have "push_room p1 (length (enc_u64 (push_flags p1) (unat (push_offset p1)) v))"
    using push_room_after [OF wf p1(2)] room by (simp add: enc_hyper_def fl1 ofs1)
  from push_u64_ok [OF wf1 this, of NDR_SCALARS]
  obtain p2 where "ndr_push_udlong p1 NDR_SCALARS v = Inr p2"
      "push_appends p1 (enc_u64 (push_flags p1) (unat (push_offset p1)) v) p2" by blast
  then show ?thesis
    using p1 push_appends_trans [OF p1(2)]
    by (auto simp: ndr_push_hyper_def enc_hyper_def fl1 ofs1)
qed

lemma push_bytes_ok:
  assumes wf: "wf_push p" and room: "push_room p (length bs)"
  shows "\<exists>p'. ndr_push_bytes p bs (word_of_nat (length bs)) = Inr p' \<and> push_appends p bs p'"
proof -
  have n: "unat (word_of_nat (length bs) :: u32) = length bs"
    using room by (simp add: push_room_def MAX_TALLOC_SIZE_def unat_of_nat)
  then have "get_bytes bs 0 (unat (word_of_nat (length bs) :: u32)) = Inr bs"
    by (simp add: get_bytes_def)
  then show ?thesis
    using reserve_store [OF wf room n] unfolding ndr_push_bytes_def by simp
qed

section \<open>The readers decode the encoding\<close>

definition pull_rest :: "ndr_pull \<Rightarrow> bytes" where
  "pull_rest q = take (unat (pull_data_size q) - unat (pull_offset q))
                   (drop (unat (pull_offset q)) (pull_data q))"

definition pull_consumes :: "ndr_pull \<Rightarrow> bytes \<Rightarrow> ndr_pull \<Rightarrow> bool" where
  "pull_consumes q bs q' \<longleftrightarrow>
     pull_step q q' \<and> pull_rest q = bs @ pull_rest q' \<and>
     unat (pull_offset q') = unat (pull_offset q) + length bs"

lemma length_pull_rest:
  "wf_pull q \<Longrightarrow> length (pull_rest q) = unat (pull_data_size q) - unat (pull_offset q)"
  by (auto simp: pull_rest_def wf_pull_def min_def)

lemma pull_consumes_trans:
  "pull_consumes q bs q' \<Longrightarrow> pull_consumes q' cs q'' \<Longrightarrow> pull_consumes q (bs @ cs) q''"
  by (auto simp: pull_consumes_def intro: pull_step_trans)

lemma pull_consumes_refl: "wf_pull q \<Longrightarrow> pull_consumes q [] q"
  by (simp add: pull_consumes_def pull_step_refl)

lemma pull_rest_fits:
  "wf_pull q \<Longrightarrow> pull_rest q = bs @ rest \<Longrightarrow>
   unat (pull_offset q) + length bs \<le> unat (pull_data_size q)"
  using length_pull_rest [of q] arg_cong [of "pull_rest q" "bs @ rest" length]
  by (auto simp: wf_pull_def word_le_nat_alt)

lemma pull_rest_take:
  assumes "pull_rest q = bs @ rest"
  shows "take (length bs) (drop (unat (pull_offset q)) (pull_data q)) = bs"
proof -
  have "take (length bs) (pull_rest q) = bs" using assms by simp
  moreover have "length bs \<le> length (pull_rest q)" using assms by simp
  then have "take (length bs) (pull_rest q) =
      take (length bs) (drop (unat (pull_offset q)) (pull_data q))"
    by (auto simp: pull_rest_def min_def split: if_splits)
  ultimately show ?thesis by simp
qed

lemma fresh_pull:
  assumes "length bs < 2 ^ 31" and "\<not> has_flag fs LIBNDR_FLAG_PAD_CHECK"
  shows "wf_pull ((ndr_pull_init_blob bs)\<lparr>pull_flags := fs\<rparr>)"
    and "pull_rest ((ndr_pull_init_blob bs)\<lparr>pull_flags := fs\<rparr>) = bs"
    and "unat (pull_data_size (ndr_pull_init_blob bs)) = length bs"
proof -
  show len: "unat (pull_data_size (ndr_pull_init_blob bs)) = length bs"
    using assms(1) by (simp add: ndr_pull_init_blob_def unat_of_nat)
  with assms show "wf_pull ((ndr_pull_init_blob bs)\<lparr>pull_flags := fs\<rparr>)"
    "pull_rest ((ndr_pull_init_blob bs)\<lparr>pull_flags := fs\<rparr>) = bs"
    by (simp_all add: wf_pull_def pull_rest_def)
qed

lemma move_consumes:
  assumes wf: "wf_pull q" and rest: "pull_rest q = bs @ rest"
    and ofs: "unat ofs = unat (pull_offset q) + length bs"
  shows "pull_consumes q bs (q\<lparr>pull_offset := ofs\<rparr>)" and "pull_rest (q\<lparr>pull_offset := ofs\<rparr>) = rest"
proof -
  have fits: "unat ofs \<le> unat (pull_data_size q)"
    using pull_rest_fits [OF wf rest] ofs by simp
  have r: "pull_rest (q\<lparr>pull_offset := ofs\<rparr>) = drop (length bs) (pull_rest q)"
    by (simp add: pull_rest_def ofs drop_take add.commute)
  then show 2: "pull_rest (q\<lparr>pull_offset := ofs\<rparr>) = rest" using rest by simp
  have "pull_step q (q\<lparr>pull_offset := ofs\<rparr>)"
    using wf fits ofs by (simp add: pull_step_def wf_pull_def word_le_nat_alt)
  then show "pull_consumes q bs (q\<lparr>pull_offset := ofs\<rparr>)"
    using 2 rest ofs by (simp add: pull_consumes_def)
qed

lemma skip_consumes:
  assumes wf: "wf_pull q" and rest: "pull_rest q = bs @ rest" and n: "unat n = length bs"
  shows "pull_consumes q bs (pull_skip q n)" and "pull_rest (pull_skip q n) = rest"
proof -
  have "unat (pull_offset q + n) = unat (pull_offset q) + length bs"
    using pull_rest_fits [OF wf rest] n unat_u32 [of "pull_data_size q"] by (simp add: unat_add_small)
  from move_consumes [OF wf rest this]
  show "pull_consumes q bs (pull_skip q n)" "pull_rest (pull_skip q n) = rest"
    by (simp_all add: pull_skip_def)
qed

lemma pull_align_ok:
  assumes wf: "wf_pull q" and n: "n = 2 ^ k" "k \<le> 3"
    and rest: "pull_rest q = z @ rest"
    and z: "length z = pad_len (pull_flags q) (unat (pull_offset q)) (unat n)"
  shows "\<exists>q'. NDR_PULL_ALIGN q n = Inr q' \<and> pull_consumes q z q' \<and> pull_rest q' = rest"
proof -
  let ?ofs = "if has_flag (pull_flags q) LIBNDR_FLAG_NOALIGN then unat (pull_offset q)
              else nat_round (unat (pull_offset q)) (unat n)"
  have "k = 0 \<or> k = 1 \<or> k = 2 \<or> k = 3" using n(2) by auto
  then have "0 < unat n" using n(1) by auto
  then have ofs: "?ofs = unat (pull_offset q) + length z"
    using z nat_round_le [of "unat n" "unat (pull_offset q)"] by (simp add: pad_len_def)
  have fits: "?ofs \<le> unat (pull_data_size q)"
    using pull_rest_fits [OF wf rest] ofs by simp
  then have "unat (word_of_nat ?ofs :: u32) = ?ofs"
    using unat_u32 [of "pull_data_size q"] by (simp add: unat_of_nat)
  with ofs have w: "unat (word_of_nat ?ofs :: u32) = unat (pull_offset q) + length z" by simp
  show ?thesis
    using fits move_consumes [OF wf rest w] by (simp add: NDR_PULL_ALIGN_eq [OF wf n] Let_def)
qed

lemma NDR_SVAL_enc:
  assumes "take 2 (drop (unat ofs) (pull_data q)) = enc16 (pull_flags q) v"
  shows "NDR_SVAL q ofs = Inr (ucast v)"
proof (cases "NDR_BE (pull_flags q)")
  case True
  with assms have "take 2 (drop (unat ofs) (pull_data q)) = le16 (ucast (SREV (ucast v)))"
    by (simp add: enc16_def le16_SREV)
  from SVAL_at [OF this] True show ?thesis by (simp add: NDR_SVAL_def RSVAL_def)
next
  case False
  with assms show ?thesis by (simp add: NDR_SVAL_def enc16_def SVAL_at)
qed

lemma NDR_IVAL_enc:
  assumes "take 4 (drop (unat ofs) (pull_data q)) = enc32 (pull_flags q) v"
  shows "NDR_IVAL q ofs = Inr v"
proof (cases "NDR_BE (pull_flags q)")
  case True
  with assms have "take 4 (drop (unat ofs) (pull_data q)) = le32 (IREV v)"
    by (simp add: enc32_def le32_IREV)
  from IVAL_at [OF this] True show ?thesis by (simp add: NDR_IVAL_def RIVAL_def)
next
  case False
  with assms show ?thesis by (simp add: NDR_IVAL_def enc32_def IVAL_at)
qed

lemma need_ok:
  "wf_pull q \<Longrightarrow> pull_rest q = bs @ rest \<Longrightarrow> unat n = length bs \<Longrightarrow> NDR_PULL_NEED_BYTES q n = Inr ()"
  using pull_rest_fits [of q bs rest] by (simp add: need_bytes_iff)

text \<open>Align, check the bounds, read, advance.\<close>

lemma aligned_read:
  assumes wf: "wf_pull q" and n: "n = 2 ^ k" "k \<le> 3" and m: "unat m = length bs"
    and rest: "pull_rest q = replicate (pad_len (pull_flags q) (unat (pull_offset q)) (unat n)) 0 @ bs @ rest"
    and g: "\<And>q'. wf_pull q' \<Longrightarrow> pull_flags q' = pull_flags q \<Longrightarrow> pull_rest q' = bs @ rest \<Longrightarrow>
      take (length bs) (drop (unat (pull_offset q')) (pull_data q')) = bs \<Longrightarrow>
      unat (pull_offset q') + length bs < 2 ^ 32 \<Longrightarrow> g q' = Inr (v, pull_skip q' m)"
  shows "\<exists>q'. chk (NDR_PULL_ALIGN q n) (\<lambda>q. chk (NDR_PULL_NEED_BYTES q m) (\<lambda>_. g q)) = Inr (v, q') \<and>
     pull_consumes q (replicate (pad_len (pull_flags q) (unat (pull_offset q)) (unat n)) 0 @ bs) q' \<and>
     pull_rest q' = rest"
proof -
  let ?z = "replicate (pad_len (pull_flags q) (unat (pull_offset q)) (unat n)) (0::u8)"
  obtain q1 where q1: "NDR_PULL_ALIGN q n = Inr q1" "pull_consumes q ?z q1" "pull_rest q1 = bs @ rest"
    using pull_align_ok [OF wf n rest] by auto
  have wf1: "wf_pull q1" and fl1: "pull_flags q1 = pull_flags q"
    using q1(2) by (simp_all add: pull_consumes_def pull_step_def)
  have "unat (pull_offset q1) + length bs < 2 ^ 32"
    using pull_rest_fits [OF wf1 q1(3)] unat_u32 [of "pull_data_size q1"] by simp
  then have "g q1 = Inr (v, pull_skip q1 m)"
    using g [OF wf1 fl1 q1(3) pull_rest_take [OF q1(3)]] by simp
  then show ?thesis
    using q1(1) need_ok [OF wf1 q1(3) m] skip_consumes [OF wf1 q1(3) m]
      pull_consumes_trans [OF q1(2)] by auto
qed

section \<open>The contract of a writer and its reader\<close>

text \<open>A loop that writes every element of a list with the same writer.\<close>

fun push_list :: "(ndr_push \<Rightarrow> u32 \<Rightarrow> 'a \<Rightarrow> ndr_push res) \<Rightarrow> ndr_push \<Rightarrow> u32 \<Rightarrow> 'a list \<Rightarrow> ndr_push res" where
  "push_list wr p fl [] = Inr p"
| "push_list wr p fl (v # vs) = chk (wr p fl v) (\<lambda>p. push_list wr p fl vs)"

locale ndr_codec = ndr_reader pull
  for pull :: "ndr_pull \<Rightarrow> u32 \<Rightarrow> ('a \<times> ndr_pull) res" +
  fixes push :: "ndr_push \<Rightarrow> u32 \<Rightarrow> 'a \<Rightarrow> ndr_push res"
    and enc :: "u32 \<Rightarrow> nat \<Rightarrow> 'a \<Rightarrow> bytes"
    and valid :: "'a \<Rightarrow> bool"
  assumes push_enc: "wf_push p \<Longrightarrow> valid v \<Longrightarrow>
      push_room p (length (enc (push_flags p) (unat (push_offset p)) v)) \<Longrightarrow>
      \<exists>p'. push p fl v = Inr p' \<and> push_appends p (enc (push_flags p) (unat (push_offset p)) v) p'"
    and pull_enc: "wf_pull q \<Longrightarrow> valid v \<Longrightarrow>
      pull_rest q = enc (pull_flags q) (unat (pull_offset q)) v @ rest \<Longrightarrow>
      \<exists>q'. pull q fl = Inr (v, q') \<and>
        pull_consumes q (enc (pull_flags q) (unat (pull_offset q)) v) q' \<and> pull_rest q' = rest"
begin

text \<open>Elements written one after the other, each encoded at the offset it lands on.\<close>

fun enc_list :: "u32 \<Rightarrow> nat \<Rightarrow> 'a list \<Rightarrow> bytes" where
  "enc_list fl ofs [] = []"
| "enc_list fl ofs (v # vs) = enc fl ofs v @ enc_list fl (ofs + length (enc fl ofs v)) vs"

lemma pull_list_enc:
  "wf_pull q \<Longrightarrow> list_all valid vs \<Longrightarrow>
   pull_rest q = enc_list (pull_flags q) (unat (pull_offset q)) vs @ rest \<Longrightarrow>
   \<exists>q'. pull_list pull (length vs) q fl = Inr (vs, q') \<and> pull_rest q' = rest \<and>
     pull_consumes q (enc_list (pull_flags q) (unat (pull_offset q)) vs) q'"
proof (induction vs arbitrary: q)
  case Nil
  then show ?case by (simp add: pull_consumes_refl)
next
  case (Cons v vs)
  let ?b = "enc (pull_flags q) (unat (pull_offset q)) v"
  obtain q1 where q1: "pull q fl = Inr (v, q1)" "pull_consumes q ?b q1"
      "pull_rest q1 = enc_list (pull_flags q) (unat (pull_offset q) + length ?b) vs @ rest"
    using pull_enc [OF Cons.prems(1), of v "enc_list (pull_flags q) (unat (pull_offset q) + length ?b) vs @ rest" fl]
      Cons.prems by auto
  have s: "wf_pull q1" "pull_flags q1 = pull_flags q" "unat (pull_offset q1) = unat (pull_offset q) + length ?b"
    using q1(2) by (simp_all add: pull_consumes_def pull_step_def)
  obtain q2 where "pull_list pull (length vs) q1 fl = Inr (vs, q2)" "pull_rest q2 = rest"
      "pull_consumes q1 (enc_list (pull_flags q) (unat (pull_offset q) + length ?b) vs) q2"
    using Cons.IH [OF s(1)] Cons.prems(2) q1(3) by (auto simp: s(2,3))
  with q1(1) pull_consumes_trans [OF q1(2)] show ?case by auto
qed

lemma push_list_enc:
  "wf_push p \<Longrightarrow> list_all valid vs \<Longrightarrow>
   push_room p (length (enc_list (push_flags p) (unat (push_offset p)) vs)) \<Longrightarrow>
   \<exists>p'. push_list push p fl vs = Inr p' \<and>
     push_appends p (enc_list (push_flags p) (unat (push_offset p)) vs) p'"
proof (induction vs arbitrary: p)
  case Nil
  then show ?case by (simp add: push_appends_refl)
next
  case (Cons v vs)
  let ?b = "enc (push_flags p) (unat (push_offset p)) v"
  obtain p1 where p1: "push p fl v = Inr p1" "push_appends p ?b p1"
    using push_enc [OF Cons.prems(1), of v fl] Cons.prems(2) push_room_mono [OF Cons.prems(3)] by auto
  have s: "wf_push p1" "push_flags p1 = push_flags p" "unat (push_offset p1) = unat (push_offset p) + length ?b"
    using p1(2) push_appends_offset [OF Cons.prems(1) p1(2)]
    by (simp_all add: push_appends_def push_frame_def)
  have "push_room p1 (length (enc_list (push_flags p1) (unat (push_offset p1)) vs))"
    using push_room_after [OF Cons.prems(1) p1(2)] Cons.prems(3) by (simp add: s(2,3))
  with Cons.IH [OF s(1)] Cons.prems(2) obtain p2 where "push_list push p1 fl vs = Inr p2"
      "push_appends p1 (enc_list (push_flags p1) (unat (push_offset p1)) vs) p2" by auto
  with p1 push_appends_trans [OF p1(2)] show ?case by (auto simp: s(2,3))
qed

text \<open>
  An array of elements marshalled into a fresh context and parsed back, in the byte order
  and alignment mode of any flags word. The padding check is excluded: its reads may pass
  the end of the buffer.
\<close>

lemma array_roundtrip:
  assumes v: "list_all valid vs" and room: "length (enc_list fs 0 vs) + 1024 < MAX_TALLOC_SIZE"
    and fs: "\<not> has_flag fs LIBNDR_FLAG_PAD_CHECK"
  shows "\<exists>p. push_list push ((ndr_push_init_ctx fill)\<lparr>push_flags := fs\<rparr>) fl vs = Inr p \<and>
    (\<exists>q. pull_list pull (length vs) ((ndr_pull_init_blob (push_out p))\<lparr>pull_flags := fs\<rparr>) fl' = Inr (vs, q) \<and>
      pull_offset q = pull_data_size q)"
proof -
  let ?p0 = "(ndr_push_init_ctx fill)\<lparr>push_flags := fs\<rparr>"
  obtain p where p: "push_list push ?p0 fl vs = Inr p" "push_appends ?p0 (enc_list fs 0 vs) p"
    using push_list_enc [OF fresh_push(1) [of fs fill] v, of fl] room by (auto simp: fresh_push push_room_def)
  then have out: "push_out p = enc_list fs 0 vs" by (simp add: push_appends_def fresh_push)
  let ?q0 = "(ndr_pull_init_blob (push_out p))\<lparr>pull_flags := fs\<rparr>"
  have "length (push_out p) < 2 ^ 31" using room by (simp add: out MAX_TALLOC_SIZE_def)
  note q = fresh_pull [OF this fs]
  obtain q where "pull_list pull (length vs) ?q0 fl' = Inr (vs, q)"
      "pull_consumes ?q0 (enc_list fs 0 vs) q"
    using pull_list_enc [OF q(1) v, of "[]" fl'] q(2) out by auto
  moreover then have "unat (pull_offset q) = unat (pull_data_size q)"
    using q(3) out by (simp add: pull_consumes_def pull_step_def)
  ultimately show ?thesis using p(1) by (auto simp: word_unat_eq_iff)
qed

lemma blob_roundtrip:
  assumes v: "valid v" and room: "length (enc 0 0 v) + 1024 < MAX_TALLOC_SIZE"
  shows "\<exists>blob. ndr_push_struct_blob fill v push = Inr blob \<and> blob = enc 0 0 v \<and>
    ndr_pull_struct_blob_all blob pull = Inr v"
proof -
  let ?fl = "NDR_SCALARS OR NDR_BUFFERS"
  have o0: "push_out (ndr_push_init_ctx fill) = []" "push_offset (ndr_push_init_ctx fill) = 0"
      "push_flags (ndr_push_init_ctx fill) = 0"
    by (simp_all add: push_out_def ndr_push_init_ctx_def)
  obtain p where p: "push (ndr_push_init_ctx fill) ?fl v = Inr p"
      "push_appends (ndr_push_init_ctx fill) (enc 0 0 v) p"
    using push_enc [OF wf_push_init v, of fill ?fl] room by (auto simp: o0 push_room_def)
  then have out: "push_out p = enc 0 0 v" and wf: "wf_push p" by (simp_all add: push_appends_def o0)
  have "\<exists>p'. ndr_push_blob p = Inr (push_out p, p')"
    using wf by (auto simp: ndr_push_blob_def wf_push_def push_out_def put_bytes_def get_bytes_def
        word_less_nat_alt word_le_nat_alt)
  then have "ndr_push_struct_blob fill v push = Inr (enc 0 0 v)"
    using p(1) out by (auto simp: ndr_push_struct_blob_def)
  moreover
  let ?q0 = "ndr_pull_init_blob (enc 0 0 v)"
  have len: "unat (pull_data_size ?q0) = length (enc 0 0 v)"
    using room by (simp add: ndr_pull_init_blob_def unat_of_nat MAX_TALLOC_SIZE_def)
  have q: "wf_pull ?q0" "pull_rest ?q0 = enc 0 0 v @ []" "pull_offset ?q0 = 0" "pull_flags ?q0 = 0"
    using len room init_blob_wf [of "enc 0 0 v"]
    by (simp_all add: pull_rest_def MAX_TALLOC_SIZE_def)
  obtain q where q': "pull ?q0 ?fl = Inr (v, q)" "pull_consumes ?q0 (enc 0 0 v) q"
    using pull_enc [OF q(1) v, of "[]" ?fl] q by auto
  then have "pull_offset q = pull_data_size q"
    using len by (simp add: pull_consumes_def pull_step_def q(3) word_unat_eq_iff)
  ultimately show ?thesis using q'(1) by (simp add: ndr_pull_struct_blob_all_def)
qed

end

section \<open>The scalars of ndr\_basic.c are codecs\<close>

interpretation cd_uint8: ndr_codec ndr_pull_uint8 ndr_push_uint8 enc_u8 "\<lambda>_. True"
proof unfold_locales
  fix q fl rest and v :: u8
  assume wf: "wf_pull q" and rest: "pull_rest q = enc_u8 (pull_flags q) (unat (pull_offset q)) v @ rest"
  then have "take 1 (drop (unat (pull_offset q)) (pull_data q)) = [v]"
    using pull_rest_take [of q "[v]" rest] by (simp add: enc_u8_def)
  then have "CVAL (pull_data q) (unat (pull_offset q)) = Inr (ucast v)"
    by (cases "drop (unat (pull_offset q)) (pull_data q)")
      (auto simp: CVAL_def get_byte_def dest: nth_via_drop intro: ccontr)
  moreover have "(ucast (ucast v :: u32) :: u8) = v" by (rule bit_word_eqI) (simp add: bit_simps)
  ultimately show "\<exists>q'. ndr_pull_uint8 q fl = Inr (v, q') \<and>
      pull_consumes q (enc_u8 (pull_flags q) (unat (pull_offset q)) v) q' \<and> pull_rest q' = rest"
    using need_ok [OF wf rest, of 1] skip_consumes [OF wf rest, of 1]
    by (simp add: ndr_pull_uint8_def enc_u8_def)
qed (simp add: enc_u8_def push_u8_ok)

interpretation cd_uint16: ndr_codec ndr_pull_uint16 ndr_push_uint16 enc_u16 "\<lambda>_. True"
proof unfold_locales
  fix q fl rest and v :: u16
  assume wf: "wf_pull q" and rest: "pull_rest q = enc_u16 (pull_flags q) (unat (pull_offset q)) v @ rest"
  have c: "(ucast (ucast v :: u32) :: u16) = v" by (rule bit_word_eqI) (simp add: bit_simps)
  show "\<exists>q'. ndr_pull_uint16 q fl = Inr (v, q') \<and>
      pull_consumes q (enc_u16 (pull_flags q) (unat (pull_offset q)) v) q' \<and> pull_rest q' = rest"
    unfolding ndr_pull_uint16_def enc_u16_def
    by (rule aligned_read [where n = 2 and k = 1 and m = 2, simplified, OF wf])
      (use rest in \<open>auto simp: enc_u16_def NDR_SVAL_enc c\<close>)
qed (rule push_u16_ok)

interpretation cd_uint32: ndr_codec ndr_pull_uint32 ndr_push_uint32 enc_u32 "\<lambda>_. True"
proof unfold_locales
  fix q fl rest and v :: u32
  assume wf: "wf_pull q" and rest: "pull_rest q = enc_u32 (pull_flags q) (unat (pull_offset q)) v @ rest"
  show "\<exists>q'. ndr_pull_uint32 q fl = Inr (v, q') \<and>
      pull_consumes q (enc_u32 (pull_flags q) (unat (pull_offset q)) v) q' \<and> pull_rest q' = rest"
    unfolding ndr_pull_uint32_def enc_u32_def
    by (rule aligned_read [where n = 4 and k = 2 and m = 4, simplified, OF wf])
      (use rest in \<open>auto simp: enc_u32_def NDR_IVAL_enc\<close>)
qed (rule push_u32_ok)

lemma two_words_read:
  assumes "take 8 (drop (unat (pull_offset q)) (pull_data q)) = enc32 (pull_flags q) a @ enc32 (pull_flags q) b"
    and "unat (pull_offset q) + 8 < 2 ^ 32"
  shows "NDR_IVAL q (pull_offset q) = Inr a" and "NDR_IVAL q (pull_offset q + 4) = Inr b"
proof -
  have "unat (pull_offset q + 4) = unat (pull_offset q) + 4"
    using assms(2) by (simp add: unat_add_small)
  moreover have "take 4 (drop (unat (pull_offset q)) (pull_data q)) = enc32 (pull_flags q) a"
    using arg_cong [OF assms(1), of "take 4"] by simp
  moreover have "take 4 (drop (unat (pull_offset q) + 4) (pull_data q)) = enc32 (pull_flags q) b"
    using arg_cong [OF assms(1), of "drop 4"] by (simp add: drop_take add.commute)
  ultimately show "NDR_IVAL q (pull_offset q) = Inr a" "NDR_IVAL q (pull_offset q + 4) = Inr b"
    by (simp_all add: NDR_IVAL_enc)
qed

interpretation cd_udlong: ndr_codec ndr_pull_udlong ndr_push_udlong enc_u64 "\<lambda>_. True"
proof unfold_locales
  fix q fl rest and v :: u64
  assume wf: "wf_pull q" and rest: "pull_rest q = enc_u64 (pull_flags q) (unat (pull_offset q)) v @ rest"
  show "\<exists>q'. ndr_pull_udlong q fl = Inr (v, q') \<and>
      pull_consumes q (enc_u64 (pull_flags q) (unat (pull_offset q)) v) q' \<and> pull_rest q' = rest"
    unfolding ndr_pull_udlong_def enc_u64_def
    by (rule aligned_read [where n = 4 and k = 2 and m = 8, simplified, OF wf])
      (use rest in \<open>auto simp: enc_u64_def two_words_read join_words64\<close>)
qed (rule push_u64_ok)

interpretation cd_udlongr: ndr_codec ndr_pull_udlongr ndr_push_udlongr enc_u64r "\<lambda>_. True"
proof unfold_locales
  fix q fl rest and v :: u64
  assume wf: "wf_pull q" and rest: "pull_rest q = enc_u64r (pull_flags q) (unat (pull_offset q)) v @ rest"
  show "\<exists>q'. ndr_pull_udlongr q fl = Inr (v, q') \<and>
      pull_consumes q (enc_u64r (pull_flags q) (unat (pull_offset q)) v) q' \<and> pull_rest q' = rest"
    unfolding ndr_pull_udlongr_def enc_u64r_def
    by (rule aligned_read [where n = 4 and k = 2 and m = 8, simplified, OF wf])
      (use rest join_words64 [of v] in \<open>auto simp: enc_u64r_def two_words_read or.commute\<close>)
qed (rule push_u64r_ok)

interpretation cd_hyper: ndr_codec ndr_pull_hyper ndr_push_hyper enc_hyper "\<lambda>_. True"
proof unfold_locales
  fix q :: ndr_pull and fl rest and v :: u64
  let ?k = "pad_len (pull_flags q) (unat (pull_offset q)) 8"
  assume wf: "wf_pull q" and rest: "pull_rest q = enc_hyper (pull_flags q) (unat (pull_offset q)) v @ rest"
  then obtain q1 where q1: "NDR_PULL_ALIGN q 8 = Inr q1" "pull_consumes q (replicate ?k 0) q1"
      "pull_rest q1 = enc_u64 (pull_flags q) (unat (pull_offset q) + ?k) v @ rest"
    using pull_align_ok [where n = 8 and k = 3, simplified, OF wf, of "replicate ?k 0"]
    by (auto simp: enc_hyper_def)
  have s: "wf_pull q1" "pull_flags q1 = pull_flags q" "unat (pull_offset q1) = unat (pull_offset q) + ?k"
    using q1(2) by (simp_all add: pull_consumes_def pull_step_def)
  from cd_udlong.pull_enc [OF s(1), of v rest fl] q1(3)
  obtain q2 where "ndr_pull_udlong q1 fl = Inr (v, q2)" "pull_rest q2 = rest"
      "pull_consumes q1 (enc_u64 (pull_flags q) (unat (pull_offset q) + ?k) v) q2"
    by (auto simp: s(2,3))
  then show "\<exists>q'. ndr_pull_hyper q fl = Inr (v, q') \<and>
      pull_consumes q (enc_hyper (pull_flags q) (unat (pull_offset q)) v) q' \<and> pull_rest q' = rest"
    using q1(1) pull_consumes_trans [OF q1(2)] by (auto simp: ndr_pull_hyper_def enc_hyper_def)
qed (rule push_hyper_ok)

end
