(* ===== verification/Ndr_Relative.thy ===== *)
theory Ndr_Relative
  imports Ndr_Codec
begin

text \<open>
  Tokens, subcontexts, relative pointers, pointer referent ids and flags of \<open>ndr.c\<close>. The
  locale \<open>token_stack\<close> is the interface of the token lists: per key a stack of values, which
  storing pushes and retrieving pops; the relative-pointer and full-pointer proofs use only
  its laws.
\<close>

section \<open>Token lists as stacks\<close>

definition token_stack_of :: "ndr_token_list \<Rightarrow> ptr \<Rightarrow> u32 list" where
  "token_stack_of l k = map snd (filter (\<lambda>t. fst t = k) l)"

locale token_stack =
  fixes store :: "'l \<Rightarrow> ptr \<Rightarrow> u32 \<Rightarrow> 'l"
    and retrieve :: "'l \<Rightarrow> ptr \<Rightarrow> (u32 \<times> 'l) res"
    and peek :: "'l \<Rightarrow> ptr \<Rightarrow> u32"
    and stack :: "'l \<Rightarrow> ptr \<Rightarrow> u32 list"
  assumes stack_store: "stack (store l k v) = (stack l)(k := v # stack l k)"
    and retrieve_empty: "stack l k = [] \<Longrightarrow> retrieve l k = Inl (Status NT_STATUS_INTERNAL_ERROR)"
    and retrieve_top: "stack l k = v # vs \<Longrightarrow>
      \<exists>l'. retrieve l k = Inr (v, l') \<and> stack l' = (stack l)(k := vs)"
    and peek_top: "peek l k = (case stack l k of [] \<Rightarrow> 0 | v # _ \<Rightarrow> v)"
begin

lemma retrieve_store: "\<exists>l'. retrieve (store l k v) k = Inr (v, l') \<and> stack l' = stack l"
  using retrieve_top [of "store l k v" k v "stack l k"] by (auto simp: stack_store)

lemma peek_store: "peek (store l k v) k = v"
  by (simp add: peek_top stack_store)

lemma peek_store_other: "k' \<noteq> k \<Longrightarrow> peek (store l k v) k' = peek l k'"
  by (simp add: peek_top stack_store)

lemma retrieve_status: "retrieve l k \<noteq> Inl Fault"
  using retrieve_empty [of l k] retrieve_top [of l k] by (cases "stack l k") auto

end

lemma token_retrieve_cases:
  "ndr_token_retrieve_cmp_fn l k None rm =
    (case token_stack_of l k of [] \<Rightarrow> Inl (Status NT_STATUS_INTERNAL_ERROR)
     | v # vs \<Rightarrow> ndr_token_retrieve_cmp_fn l k None rm) \<and>
   (\<forall>v vs. token_stack_of l k = v # vs \<longrightarrow>
     (\<exists>l'. ndr_token_retrieve_cmp_fn l k None rm = Inr (v, l') \<and>
        token_stack_of l' = (if rm then (token_stack_of l)(k := vs) else token_stack_of l)))"
proof (induction l)
  case Nil
  then show ?case by (simp add: token_stack_of_def ndr_map_error_def)
next
  case (Cons t l)
  show ?case
  proof (cases "fst t = k")
    case True
    then show ?thesis
      by (cases rm) (auto simp: token_stack_of_def fun_eq_iff)
  next
    case False
    have s: "token_stack_of (t # l') = (\<lambda>j. if j = fst t then snd t # token_stack_of l' j else token_stack_of l' j)"
      for l' by (auto simp: token_stack_of_def fun_eq_iff)
    from False Cons show ?thesis
      by (cases "token_stack_of l k") (auto simp: s fun_eq_iff)
  qed
qed

interpretation tokens: token_stack ndr_token_store ndr_token_retrieve ndr_token_peek token_stack_of
proof
  fix l k v
  show "token_stack_of (ndr_token_store l k v) = (token_stack_of l)(k := v # token_stack_of l k)"
    by (auto simp: token_stack_of_def ndr_token_store_def fun_eq_iff)
next
  fix l k assume "token_stack_of l k = []"
  then show "ndr_token_retrieve l k = Inl (Status NT_STATUS_INTERNAL_ERROR)"
    using token_retrieve_cases [of l k True] by (simp add: ndr_token_retrieve_def)
next
  fix l k v vs assume "token_stack_of l k = v # vs"
  then show "\<exists>l'. ndr_token_retrieve l k = Inr (v, l') \<and> token_stack_of l' = (token_stack_of l)(k := vs)"
    using token_retrieve_cases [of l k True] by (simp add: ndr_token_retrieve_def)
next
  fix l k
  show "ndr_token_peek l k = (case token_stack_of l k of [] \<Rightarrow> 0 | v # _ \<Rightarrow> v)"
    using token_retrieve_cases [of l k False]
    by (cases "token_stack_of l k") (auto simp: ndr_token_peek_def)
qed

text \<open>
  C3: the token lists implement one stack of values per key. Storing pushes; retrieving
  returns and removes the newest value of that key only and fails with an internal error
  when there is none; peeking leaves the list alone and reads 0 when there is none.
\<close>

theorem token_list_refines_stack:
  "token_stack_of (ndr_token_store l k v) = (token_stack_of l)(k := v # token_stack_of l k) \<and>
   ndr_token_peek l k = (case token_stack_of l k of [] \<Rightarrow> 0 | v # _ \<Rightarrow> v) \<and>
   (case token_stack_of l k of
      [] \<Rightarrow> ndr_token_retrieve l k = Inl (Status NT_STATUS_INTERNAL_ERROR)
    | w # ws \<Rightarrow> \<exists>l'. ndr_token_retrieve l k = Inr (w, l') \<and> token_stack_of l' = (token_stack_of l)(k := ws))"
  using tokens.stack_store [of l k v] tokens.peek_top [of l k] tokens.retrieve_empty [of l k]
    tokens.retrieve_top [of l k]
  by (cases "token_stack_of l k") auto

section \<open>Full pointers\<close>

text \<open>
  Every id in the list lies between 1 and the counter, and no id belongs to two pointers.
\<close>

definition full_ptr_inv :: "ndr_push \<Rightarrow> bool" where
  "full_ptr_inv p \<longleftrightarrow>
     (\<forall>k. ndr_token_peek (push_full_ptr_list p) k \<le> push_ptr_count p) \<and>
     (\<forall>k j. ndr_token_peek (push_full_ptr_list p) k \<noteq> 0 \<longrightarrow>
        ndr_token_peek (push_full_ptr_list p) k = ndr_token_peek (push_full_ptr_list p) j \<longrightarrow> k = j)"

lemma push_u32_frame:
  assumes "wf_push p" and "push_room p 8"
  shows "\<exists>p'. ndr_push_uint32 p fl v = Inr p' \<and>
    push_appends p (enc_u32 (push_flags p) (unat (push_offset p)) v) p'"
proof -
  have "pad_len (push_flags p) (unat (push_offset p)) 4 < 4"
    by (rule pad_len_less) simp
  with assms show ?thesis
    by (intro push_u32_ok) (auto simp: enc_u32_def elim!: push_room_mono)
qed

text \<open>
  A full pointer gets one referent id for the life of the context. Pushing a non-NULL
  pointer writes a non-zero id that is from then on the pointer's id, keeps the ids of all
  other pointers, and the id is different from theirs.
\<close>

theorem full_ptr_unique_id:
  assumes inv: "full_ptr_inv p" and wf: "wf_push p" and room: "push_room p 8"
    and x: "x \<noteq> 0" and cnt: "push_ptr_count p < 0xFFFFFFFF"
  shows "\<exists>p' id. ndr_push_full_ptr p x = Inr p' \<and> full_ptr_inv p' \<and> id \<noteq> 0 \<and>
    push_out p' = push_out p @ enc_u32 (push_flags p) (unat (push_offset p)) id \<and>
    ndr_token_peek (push_full_ptr_list p') x = id \<and>
    (ndr_token_peek (push_full_ptr_list p) x \<noteq> 0 \<longrightarrow> ndr_token_peek (push_full_ptr_list p) x = id) \<and>
    (\<forall>y. y \<noteq> x \<longrightarrow> ndr_token_peek (push_full_ptr_list p') y = ndr_token_peek (push_full_ptr_list p) y \<and>
       ndr_token_peek (push_full_ptr_list p') y \<noteq> id)"
proof (cases "ndr_token_peek (push_full_ptr_list p) x = 0")
  case False
  obtain p' where p': "ndr_push_uint32 p NDR_SCALARS (ndr_token_peek (push_full_ptr_list p) x) = Inr p'"
      "push_appends p (enc_u32 (push_flags p) (unat (push_offset p)) (ndr_token_peek (push_full_ptr_list p) x)) p'"
    using push_u32_frame [OF wf room] by blast
  then have "push_full_ptr_list p' = push_full_ptr_list p" "push_ptr_count p' = push_ptr_count p"
    by (simp_all add: push_appends_def push_frame_def)
  moreover then have "full_ptr_inv p'" using inv by (simp add: full_ptr_inv_def)
  ultimately show ?thesis
    using p' False x inv
    by (intro exI [of _ p'] exI [of _ "ndr_token_peek (push_full_ptr_list p) x"])
      (auto simp: ndr_push_full_ptr_def push_appends_def full_ptr_inv_def)
next
  case True
  let ?id = "push_ptr_count p + 1"
  let ?l = "ndr_token_store (push_full_ptr_list p) x ?id"
  let ?p1 = "p\<lparr>push_ptr_count := ?id, push_full_ptr_list := ?l\<rparr>"
  have "unat (push_ptr_count p) < 0xFFFFFFFF" using cnt by (simp add: word_less_nat_alt)
  then have "unat ?id = unat (push_ptr_count p) + 1" by (simp add: unat_add_small)
  then have id: "?id \<noteq> 0" "push_ptr_count p < ?id" by (auto simp: word_less_nat_alt)
  have "wf_push ?p1" "push_room ?p1 8" using wf room by (simp_all add: wf_push_def push_room_def)
  then obtain p' where p': "ndr_push_uint32 ?p1 NDR_SCALARS ?id = Inr p'"
      "push_appends ?p1 (enc_u32 (push_flags p) (unat (push_offset p)) ?id) p'"
    using push_u32_frame [of ?p1 NDR_SCALARS ?id] by auto
  then have f: "push_full_ptr_list p' = ?l" "push_ptr_count p' = ?id"
      "push_out p' = push_out p @ enc_u32 (push_flags p) (unat (push_offset p)) ?id"
    by (simp_all add: push_appends_def push_frame_def push_out_def)
  have peek: "ndr_token_peek ?l y = (if y = x then ?id else ndr_token_peek (push_full_ptr_list p) y)" for y
    by (simp add: tokens.peek_store tokens.peek_store_other)
  have old: "ndr_token_peek (push_full_ptr_list p) y < ?id" for y
    using inv id(2) by (auto simp: full_ptr_inv_def intro: order_le_less_trans)
  then have ne: "ndr_token_peek (push_full_ptr_list p) y \<noteq> ?id" for y using less_imp_neq by blast
  have "full_ptr_inv p'"
    using inv ne ne [symmetric] order_less_imp_le [OF old] unfolding full_ptr_inv_def f peek by auto
  then show ?thesis
    using p'(1) True x id(1) f peek ne
    by (intro exI [of _ p'] exI [of _ ?id]) (auto simp: ndr_push_full_ptr_def Let_def)
qed

theorem full_ptr_unique_id_witness:
  "\<exists>p' id. ndr_push_full_ptr (ndr_push_init_ctx 0) 64 = Inr p' \<and> full_ptr_inv p' \<and> id \<noteq> 0 \<and>
    push_out p' = push_out (ndr_push_init_ctx 0) @ enc_u32 0 0 id \<and>
    ndr_token_peek (push_full_ptr_list p') 64 = id"
proof -
  have "full_ptr_inv (ndr_push_init_ctx 0)"
    by (simp add: full_ptr_inv_def ndr_push_init_ctx_def tokens.peek_top token_stack_of_def)
  moreover have "push_room (ndr_push_init_ctx 0) 8"
    by (simp add: push_room_def ndr_push_init_ctx_def MAX_TALLOC_SIZE_def)
  moreover have "push_ptr_count (ndr_push_init_ctx 0) < 0xFFFFFFFF"
      "push_offset (ndr_push_init_ctx 0) = 0" "push_flags (ndr_push_init_ctx 0) = 0"
    by (simp_all add: ndr_push_init_ctx_def)
  ultimately show ?thesis
    using full_ptr_unique_id [of "ndr_push_init_ctx 0" 64] wf_push_init [of 0] by auto
qed

section \<open>Unique pointers\<close>

definition unique_ptr_id :: "u32 \<Rightarrow> u32" where
  "unique_ptr_id c = c * 4 OR 0x00020000"

lemma unique_ptr_id_small:
  assumes "c < 0x8000"
  shows "unat (unique_ptr_id c) = 4 * unat c + 0x20000"
proof -
  have c: "unat c < 0x8000" using assms by (simp add: word_less_nat_alt)
  then have 4: "unat (c * 4) = unat c * 4" by (simp add: unat_mult_lem [THEN iffD1])
  have "c * 4 = take_bit 17 (c * 4)"
    using c by (simp add: word_unat_eq_iff unat_take_bit_mod 4)
  then have "\<not> bit (c * 4) 17" by (metis bit_take_bit_iff less_irrefl)
  then have "c * 4 AND 2 ^ 17 = 0" by (simp only: and_exp_eq_0_iff_not_bit not_False_eq_True)
  then have "c * 4 + 2 ^ 17 = c * 4 OR 2 ^ 17" by (rule disjunctive_add_eq_or)
  then have "unique_ptr_id c = c * 4 + 0x20000" by (simp add: unique_ptr_id_def)
  then show ?thesis using c by (simp add: unat_add_small 4)
qed

lemma unique_ptr_id_nonzero: "unique_ptr_id c \<noteq> 0"
proof
  assume "unique_ptr_id c = 0"
  then have "\<not> bit (c * 4 OR 2 ^ 17) 17" by (simp add: unique_ptr_id_def)
  then show False by (simp only: bit_or_iff bit_exp_iff) simp
qed

lemma push_unique_ptr_ok:
  assumes wf: "wf_push p" and room: "push_room p 8" and x: "x \<noteq> 0"
  shows "\<exists>p'. ndr_push_unique_ptr p x = Inr p' \<and> wf_push p' \<and> push_ptr_count p' = push_ptr_count p + 1 \<and>
    push_out p' = push_out p @ enc_u32 (push_flags p) (unat (push_offset p)) (unique_ptr_id (push_ptr_count p))"
proof -
  let ?p1 = "p\<lparr>push_ptr_count := push_ptr_count p + 1\<rparr>"
  have "wf_push ?p1" "push_room ?p1 8" using wf room by (simp_all add: wf_push_def push_room_def)
  from push_u32_frame [OF this, of NDR_SCALARS "unique_ptr_id (push_ptr_count p)"]
  obtain p' where "ndr_push_uint32 ?p1 NDR_SCALARS (unique_ptr_id (push_ptr_count p)) = Inr p'"
      "push_appends ?p1 (enc_u32 (push_flags p) (unat (push_offset p)) (unique_ptr_id (push_ptr_count p))) p'"
    by auto
  then show ?thesis
    using x by (auto simp: ndr_push_unique_ptr_def unique_ptr_id_def push_appends_def push_frame_def push_out_def)
qed

text \<open>
  The referent id written for a non-NULL unique pointer is never 0, and as long as
  fewer than 32768 pointers have been pushed it differs from every id written before.
\<close>

theorem unique_ptr_fresh_id:
  assumes "wf_push p" and "push_room p 8" and "x \<noteq> 0"
  shows "\<exists>p' id. ndr_push_unique_ptr p x = Inr p' \<and> wf_push p' \<and>
    push_ptr_count p' = push_ptr_count p + 1 \<and> id \<noteq> 0 \<and>
    push_out p' = push_out p @ enc_u32 (push_flags p) (unat (push_offset p)) id \<and>
    (push_ptr_count p < 0x8000 \<longrightarrow> (\<forall>c. c < push_ptr_count p \<longrightarrow> unique_ptr_id c \<noteq> id))"
proof -
  have "unique_ptr_id c \<noteq> unique_ptr_id (push_ptr_count p)"
    if c: "c < push_ptr_count p" and d: "push_ptr_count p < 0x8000" for c
  proof
    assume "unique_ptr_id c = unique_ptr_id (push_ptr_count p)"
    then have "4 * unat c = 4 * unat (push_ptr_count p)"
      using unique_ptr_id_small [OF d] unique_ptr_id_small [OF order_less_trans [OF c d]] by simp
    with c show False by (simp add: word_less_nat_alt)
  qed
  then show ?thesis
    using push_unique_ptr_ok [OF assms] unique_ptr_id_nonzero [of "push_ptr_count p"] by blast
qed

theorem unique_ptr_fresh_id_witness:
  "\<exists>p' id. ndr_push_unique_ptr (ndr_push_init_ctx 7) 64 = Inr p' \<and> wf_push p' \<and>
    push_ptr_count p' = 1 \<and> id \<noteq> 0 \<and> push_out p' = enc_u32 0 0 id"
  using unique_ptr_fresh_id [of "ndr_push_init_ctx 7" 64] wf_push_init [of 7]
  by (auto simp: push_room_def ndr_push_init_ctx_def MAX_TALLOC_SIZE_def push_out_def)

text \<open>
  The ids of unique pointers repeat. The bit that makes an id non-zero is also bit 15
  of the count, so the pointer pushed with count 32768 gets the id of the very first one.
\<close>

theorem unique_ptr_id_repeats:
  "\<exists>p1 p2. ndr_push_unique_ptr (ndr_push_init_ctx fill) 64 = Inr p1 \<and>
    ndr_push_unique_ptr ((ndr_push_init_ctx fill)\<lparr>push_ptr_count := 0x8000\<rparr>) 128 = Inr p2 \<and>
    push_out p1 = push_out p2"
proof -
  let ?p = "(ndr_push_init_ctx fill)\<lparr>push_ptr_count := 0x8000\<rparr>"
  have "wf_push ?p" "push_room ?p 8" "push_room (ndr_push_init_ctx fill) 8"
    using wf_push_init [of fill]
    by (simp_all add: wf_push_def push_room_def ndr_push_init_ctx_def MAX_TALLOC_SIZE_def)
  then show ?thesis
    using push_unique_ptr_ok [of ?p 128] push_unique_ptr_ok [of "ndr_push_init_ctx fill" 64] wf_push_init [of fill]
    by (auto simp: unique_ptr_id_def push_out_def ndr_push_init_ctx_def)
qed

section \<open>Relative pointers\<close>

lemma pad_len_aligned: "0 < n \<Longrightarrow> pad_len fl (ofs + pad_len fl ofs n) n = 0"
  using nat_round_le [of n ofs] nat_round_id [of n "nat_round ofs n"] nat_round_dvd [of n ofs]
  by (simp add: pad_len_def)

text \<open>A 32-bit store into the bytes already marshalled, at an aligned place.\<close>

lemma overwrite_u32:
  assumes wf: "wf_push p" and room: "push_room p 0" and slot: "unat ofs + 4 \<le> unat (push_offset p)"
    and al: "pad_len (push_flags p) (unat ofs) 4 = 0"
  shows "\<exists>p'. ndr_push_uint32 (p\<lparr>push_offset := ofs\<rparr>) fl v = Inr p' \<and>
    wf_push (p'\<lparr>push_offset := push_offset p\<rparr>) \<and> push_frame p p' \<and>
    push_out (p'\<lparr>push_offset := push_offset p\<rparr>) =
      take (unat ofs) (push_out p) @ enc32 (push_flags p) v @ drop (unat ofs + 4) (push_out p)"
proof -
  let ?p0 = "p\<lparr>push_offset := ofs\<rparr>"
  have wf0: "wf_push ?p0" using wf slot by (simp add: wf_push_def word_le_nat_alt)
  have al0: "NDR_PUSH_ALIGN ?p0 4 = Inr ?p0"
  proof -
    have "unat ofs < 2 ^ 32 - 8" using slot room by (simp add: push_room_def MAX_TALLOC_SIZE_def)
    note r = unat_ndr_round_4 [OF this [simplified]]
    show ?thesis
      using al nat_round_le [of 4 "unat ofs"]
      by (auto simp: NDR_PUSH_ALIGN_def pad_len_def r unat_sub word_le_nat_alt)
  qed
  have sum: "unat (ofs + 4) = unat ofs + 4"
    using slot unat_u32 [of "push_offset p"] by (simp add: unat_add_small)
  have "ofs \<le> ofs + 4" "unat (ofs + 4) + 1024 < MAX_TALLOC_SIZE"
    using slot room by (simp_all add: sum word_le_nat_alt push_room_def)
  then obtain p1 where p1: "ndr_push_expand ?p0 (ofs + 4) = Inr p1" "wf_push p1" "ofs + 4 < push_alloc_size p1"
      "push_frame ?p0 p1" "push_offset p1 = ofs" "take (unat (push_alloc_size p)) (push_data p1) = push_data p"
    using expand_ok [OF wf0, of "ofs + 4"] by auto
  let ?d = "take (unat ofs) (push_data p1) @ enc32 (push_flags p) v @ drop (unat ofs + 4) (push_data p1)"
  have fl: "push_flags p1 = push_flags p" using p1(4) by (simp add: push_frame_def)
  have len: "length (push_data p1) = unat (push_alloc_size p1)" "unat ofs + 4 < unat (push_alloc_size p1)"
    using p1(2,3) sum by (simp_all add: wf_push_def word_less_nat_alt)
  then have st: "NDR_SIVAL p1 ofs v = Inr (p1\<lparr>push_data := ?d\<rparr>)"
    by (simp add: NDR_SIVAL_store push_store_def put_bytes_ok fl)
  let ?p' = "push_skip (p1\<lparr>push_data := ?d\<rparr>) 4"
  have eq: "ndr_push_uint32 ?p0 fl v = Inr ?p'"
    using p1(1,5) st al0 by (simp add: ndr_push_uint32_def NDR_PUSH_NEED_BYTES_def)
  have a: "unat (push_offset p) \<le> unat (push_alloc_size p)" "length (push_data p) = unat (push_alloc_size p)"
    using wf by (simp_all add: wf_push_def word_le_nat_alt)
  have "length (take (unat (push_alloc_size p)) (push_data p1)) = unat (push_alloc_size p)"
    using p1(6) a(2) by simp
  then have b: "unat (push_offset p) \<le> unat (push_alloc_size p1)" using a(1) len(1) by simp
  have o: "take (unat (push_offset p)) (push_data p1) = push_out p"
    using a(1) p1(6) unfolding push_out_def by (metis min.absorb1 take_take)
  have "push_out (?p'\<lparr>push_offset := push_offset p\<rparr>) =
      take (unat ofs) (push_out p) @ enc32 (push_flags p) v @ drop (unat ofs + 4) (push_out p)"
    using slot len unfolding o [symmetric] by (simp add: push_out_def push_skip_def drop_take min_def)
  moreover have "wf_push (?p'\<lparr>push_offset := push_offset p\<rparr>)"
    using p1(2) len b by (simp add: wf_push_def push_skip_def word_le_nat_alt)
  moreover have "push_frame p ?p'" using p1(4) by (simp add: push_frame_def push_skip_def)
  ultimately show ?thesis using eq by blast
qed

lemma relative_ptr1_ok:
  assumes wf: "wf_push p" and room: "push_room p 8" and x: "x \<noteq> 0"
  defines "k \<equiv> pad_len (push_flags p) (unat (push_offset p)) 4"
  shows "\<exists>p1 slot. ndr_push_relative_ptr1 p x = Inr p1 \<and> wf_push p1 \<and>
    unat slot = unat (push_offset p) + k \<and>
    push_out p1 = push_out p @ replicate k 0 @ enc32 (push_flags p) 0xFFFFFFFF \<and>
    push_relative_list p1 = ndr_token_store (push_relative_list p) x slot \<and>
    push_flags p1 = push_flags p \<and> push_relative_base_offset p1 = push_relative_base_offset p"
proof -
  have k: "k < 4" unfolding k_def by (rule pad_len_less) simp
  have "push_room p k" using push_room_mono [OF room, of k] k by simp
  then obtain pa where pa: "NDR_PUSH_ALIGN p 4 = Inr pa" "push_appends p (replicate k 0) pa"
    using push_align_ok [where n = 4 and k = 2, OF wf] unfolding k_def by auto
  let ?pb = "pa\<lparr>push_relative_list := ndr_token_store (push_relative_list pa) x (push_offset pa)\<rparr>"
  have ofs: "unat (push_offset pa) = unat (push_offset p) + k"
    using push_appends_offset [OF wf pa(2)] by simp
  have f: "push_flags pa = push_flags p" "push_relative_list pa = push_relative_list p"
      "push_relative_base_offset pa = push_relative_base_offset p" "push_out pa = push_out p @ replicate k 0"
    using pa(2) by (simp_all add: push_appends_def push_frame_def)
  have "pad_len (push_flags pa) (unat (push_offset pa)) 4 = 0"
    using pad_len_aligned [of 4 "push_flags p" "unat (push_offset p)"] by (simp add: ofs f k_def)
  then have e: "enc_u32 (push_flags ?pb) (unat (push_offset ?pb)) v = enc32 (push_flags p) v" for v
    by (simp add: enc_u32_def f)
  have "push_room pa 4" using push_room_after [OF wf pa(2)] push_room_mono [OF room, of "k + 4"] k by simp
  then have "push_room ?pb 4" "wf_push ?pb"
    using pa(2) by (simp_all add: push_room_def push_appends_def wf_push_def)
  then obtain p1 where p1: "ndr_push_uint32 ?pb NDR_SCALARS 0xFFFFFFFF = Inr p1"
      "push_appends ?pb (enc32 (push_flags p) 0xFFFFFFFF) p1"
    using push_u32_ok [where p = ?pb and v = "0xFFFFFFFF" and fl = NDR_SCALARS] unfolding e by auto
  have "push_out ?pb = push_out pa" by (simp add: push_out_def)
  then show ?thesis
    using p1 pa(1) x ofs f
    by (intro exI [of _ p1] exI [of _ "push_offset pa"])
      (auto simp: ndr_push_relative_ptr1_def ndr_push_align_def push_appends_def push_frame_def)
qed

lemma relative_ptr2_ok:
  assumes wf: "wf_push p" and room: "push_room p 0" and x: "x \<noteq> 0"
    and tok: "token_stack_of (push_relative_list p) x = slot # vs"
    and slot: "unat slot + 4 \<le> unat (push_offset p)" and al: "pad_len (push_flags p) (unat slot) 4 = 0"
    and base: "push_relative_base_offset p \<le> push_offset p"
  shows "\<exists>p'. ndr_push_relative_ptr2 p x = Inr p' \<and> push_offset p' = push_offset p \<and>
    push_out p' = take (unat slot) (push_out p) @
      enc32 (push_flags p) (push_offset p - push_relative_base_offset p) @ drop (unat slot + 4) (push_out p)"
proof -
  obtain l where l: "ndr_token_retrieve (push_relative_list p) x = Inr (slot, l)"
    using tokens.retrieve_top [OF tok] by auto
  let ?p = "p\<lparr>push_relative_list := l\<rparr>"
  have "wf_push ?p" "push_room ?p 0" "push_out ?p = push_out p"
    using wf room by (simp_all add: wf_push_def push_room_def push_out_def)
  then obtain p' where p': "ndr_push_uint32 (?p\<lparr>push_offset := slot\<rparr>) NDR_SCALARS
        (push_offset p - push_relative_base_offset p) = Inr p'"
      "push_out (p'\<lparr>push_offset := push_offset p\<rparr>) = take (unat slot) (push_out p) @
        enc32 (push_flags p) (push_offset p - push_relative_base_offset p) @ drop (unat slot + 4) (push_out p)"
    using overwrite_u32 [of ?p slot NDR_SCALARS "push_offset p - push_relative_base_offset p"] slot al by auto
  have "\<not> slot > push_offset p" "\<not> push_offset p < push_relative_base_offset p"
    using slot base by (simp_all add: word_less_nat_alt word_le_nat_alt)
  then show ?thesis
    using x l p' by (simp add: ndr_push_relative_ptr2_def ndr_push_save_def ndr_push_restore_def Let_def)
qed

text \<open>
  C4: a relative pointer leads the parser to its referent. The build side reserves an
  aligned slot (stage 1), marshals any further bytes, and patches the slot when it reaches
  the referent (stage 2); the position and all other bytes are kept. The parse side, reading
  the slot and following it with the same base, lands exactly where the referent begins.
\<close>

theorem relative_ptr_roundtrip:
  assumes wf: "wf_push p" and room: "push_room p 8" and x: "x \<noteq> 0"
    and base: "push_relative_base_offset p \<le> push_offset p"
    and fs: "\<not> has_flag (push_flags p) LIBNDR_FLAG_PAD_CHECK"
    and p1: "ndr_push_relative_ptr1 p x = Inr p1"
    and p2: "push_appends p1 bs p2" and room2: "push_room p2 0"
  shows "\<exists>p3 r q1 q2. ndr_push_relative_ptr2 p2 x = Inr p3 \<and> push_offset p3 = push_offset p2 \<and>
    ndr_pull_uint32 ((ndr_pull_init_blob (push_out p3))
      \<lparr>pull_flags := push_flags p, pull_offset := push_offset p,
       pull_relative_base_offset := push_relative_base_offset p\<rparr>) fl = Inr (r, q1) \<and>
    ndr_pull_relative_ptr2 (ndr_pull_relative_ptr1 q1 x r) x = Inr q2 \<and>
    pull_offset q2 = push_offset p2"
proof -
  let ?k = "pad_len (push_flags p) (unat (push_offset p)) 4"
  obtain slot where s: "wf_push p1" "unat slot = unat (push_offset p) + ?k"
      "push_out p1 = push_out p @ replicate ?k 0 @ enc32 (push_flags p) 0xFFFFFFFF"
      "push_relative_list p1 = ndr_token_store (push_relative_list p) x slot"
      "push_flags p1 = push_flags p" "push_relative_base_offset p1 = push_relative_base_offset p"
    using relative_ptr1_ok [OF wf room x] p1 by auto
  have f: "wf_push p2" "push_out p2 = push_out p1 @ bs" "push_flags p2 = push_flags p"
      "push_relative_list p2 = push_relative_list p1" "push_relative_base_offset p2 = push_relative_base_offset p"
    using p2 s by (simp_all add: push_appends_def push_frame_def)
  have len: "unat (push_offset p2) = unat slot + 4 + length bs"
    using length_push_out [OF f(1)] length_push_out [OF wf] s(2,3) f(2) by simp
  have base2: "push_relative_base_offset p2 \<le> push_offset p2"
    using base s(2) len by (simp add: f(5) word_le_nat_alt)
  have al: "pad_len (push_flags p2) (unat slot) 4 = 0"
    using pad_len_aligned [of 4 "push_flags p" "unat (push_offset p)"] by (simp add: f(3) s(2))
  have tok: "token_stack_of (push_relative_list p2) x = slot # token_stack_of (push_relative_list p) x"
    by (simp add: f(4) s(4) tokens.stack_store)
  obtain p3 where p3: "ndr_push_relative_ptr2 p2 x = Inr p3" "push_offset p3 = push_offset p2"
      "push_out p3 = take (unat slot) (push_out p2) @
        enc32 (push_flags p2) (push_offset p2 - push_relative_base_offset p2) @ drop (unat slot + 4) (push_out p2)"
    using relative_ptr2_ok [OF f(1) room2 x tok _ al base2] len by auto
  let ?v = "push_offset p2 - push_relative_base_offset p"
  have out3: "push_out p3 = push_out p @ enc_u32 (push_flags p) (unat (push_offset p)) ?v @ bs"
    using length_push_out [OF wf] s(2,3) f(2,3,5) p3(3) by (simp add: enc_u32_def)
  let ?q = "(ndr_pull_init_blob (push_out p3))\<lparr>pull_flags := push_flags p, pull_offset := push_offset p,
       pull_relative_base_offset := push_relative_base_offset p\<rparr>"
  have l3: "length (push_out p3) = unat (push_offset p2)"
    using len s(2) length_push_out [OF wf] by (simp add: out3 enc_u32_def)
  then have ds: "pull_data_size (ndr_pull_init_blob (push_out p3)) = push_offset p2"
    by (simp add: ndr_pull_init_blob_def)
  have "pull_rest ?q = drop (unat (push_offset p)) (push_out p3)"
    using l3 by (simp add: pull_rest_def ds)
  then have q: "pull_rest ?q = enc_u32 (push_flags p) (unat (push_offset p)) ?v @ bs"
    using length_push_out [OF wf] by (simp add: out3)
  have wfq: "wf_pull ?q"
    using fs l3 len s(2) room2
    by (simp add: wf_pull_def ds word_le_nat_alt push_room_def MAX_TALLOC_SIZE_def)
  obtain q1 where q1: "ndr_pull_uint32 ?q fl = Inr (?v, q1)"
    using cd_uint32.pull_enc [OF wfq TrueI, of ?v bs fl] q by auto
  have q1f: "pull_data_size q1 = push_offset p2" "pull_relative_base_offset q1 = push_relative_base_offset p"
    using q1 by (auto simp: ndr_pull_uint32_def NDR_PULL_ALIGN_def pull_skip_def chk_eq_Inr ds ndr_pull_error_def split: if_splits)
  obtain l where "ndr_token_retrieve (ndr_token_store (pull_relative_list q1) x ?v) x = Inr (?v, l)"
    using tokens.retrieve_store by blast
  then have "ndr_pull_relative_ptr2 (ndr_pull_relative_ptr1 q1 x ?v) x =
      Inr (q1\<lparr>pull_relative_list := l, pull_offset := push_offset p2\<rparr>)"
    by (simp add: ndr_pull_relative_ptr2_def ndr_pull_relative_ptr1_def ndr_pull_set_offset_def q1f Let_def)
  then show ?thesis using p3(1,2) q1 by auto
qed

theorem relative_ptr_roundtrip_witness:
  "\<exists>p1 p2 p3 r q1 q2. ndr_push_relative_ptr1 (ndr_push_init_ctx 0) 64 = Inr p1 \<and>
    ndr_push_bytes p1 [7, 8, 9] 3 = Inr p2 \<and>
    ndr_push_relative_ptr2 p2 64 = Inr p3 \<and>
    ndr_pull_uint32 ((ndr_pull_init_blob (push_out p3))\<lparr>pull_flags := 0, pull_offset := 0,
      pull_relative_base_offset := 0\<rparr>) NDR_SCALARS = Inr (r, q1) \<and>
    ndr_pull_relative_ptr2 (ndr_pull_relative_ptr1 q1 64 r) 64 = Inr q2 \<and>
    pull_offset q2 = push_offset p2"
proof -
  have i: "wf_push (ndr_push_init_ctx 0)" "push_room (ndr_push_init_ctx 0) 8"
      "push_relative_base_offset (ndr_push_init_ctx 0) = 0" "push_offset (ndr_push_init_ctx 0) = 0"
      "push_flags (ndr_push_init_ctx 0) = 0"
    using wf_push_init [of 0] by (simp_all add: push_room_def ndr_push_init_ctx_def MAX_TALLOC_SIZE_def)
  obtain p1 where p1: "ndr_push_relative_ptr1 (ndr_push_init_ctx 0) 64 = Inr p1" "wf_push p1"
      "push_out p1 = push_out (ndr_push_init_ctx 0) @ replicate (pad_len 0 0 4) 0 @ enc32 0 0xFFFFFFFF"
    using relative_ptr1_ok [OF i(1,2), of 64] i by auto
  have "unat (push_offset p1) < 8"
    using length_push_out [OF p1(2)] length_push_out [OF i(1)] pad_len_less [of 4 0 0] i(4) p1(3) by simp
  then have room1: "push_room p1 3" by (simp add: push_room_def MAX_TALLOC_SIZE_def)
  then obtain p2 where p2: "ndr_push_bytes p1 [7, 8, 9] 3 = Inr p2" "push_appends p1 [7, 8, 9] p2"
    using push_bytes_ok [OF p1(2), of "[7, 8, 9]"] by (auto simp: numeral_3_eq_3)
  have "push_room p2 0"
    using push_room_after [OF p1(2) p2(2), of 0] room1 by (simp add: numeral_3_eq_3)
  from relative_ptr_roundtrip [OF i(1,2) _ _ _ p1(1) p2(2) this, of NDR_SCALARS]
  show ?thesis using p1(1) p2(1) i by (auto simp: has_flag_def)
qed

end
