(* ===== verification/Ndr_Props.thy ===== *)
theory Ndr_Props
  imports Ndr_Relative
begin

text \<open>
  What the NDR engine promises its callers: mixed sequences of scalars and byte arrays
  round-trip in every byte order and alignment mode; no reader leaves its buffer;
  subcontexts and relative pointers written by the build side are found by the parse side;
  tokens behave as a stack of bindings per key; and where the 32-bit arithmetic of the
  source wraps, what happens then.
\<close>

section \<open>Mixed sequences of values\<close>

datatype ndr_value =
    U8 u8 | U16 u16 | U32 u32 | Udlong u64 | Udlongr u64 | Hyper u64 | Bytes bytes

datatype ndr_kind =
    K_uint8 | K_uint16 | K_uint32 | K_udlong | K_udlongr | K_hyper | K_bytes nat

fun kind_of :: "ndr_value \<Rightarrow> ndr_kind" where
  "kind_of (U8 v) = K_uint8" | "kind_of (U16 v) = K_uint16" | "kind_of (U32 v) = K_uint32"
| "kind_of (Udlong v) = K_udlong" | "kind_of (Udlongr v) = K_udlongr" | "kind_of (Hyper v) = K_hyper"
| "kind_of (Bytes bs) = K_bytes (length bs)"

fun push_value :: "ndr_push \<Rightarrow> u32 \<Rightarrow> ndr_value \<Rightarrow> ndr_push res" where
  "push_value p fl (U8 v) = ndr_push_uint8 p fl v"
| "push_value p fl (U16 v) = ndr_push_uint16 p fl v"
| "push_value p fl (U32 v) = ndr_push_uint32 p fl v"
| "push_value p fl (Udlong v) = ndr_push_udlong p fl v"
| "push_value p fl (Udlongr v) = ndr_push_udlongr p fl v"
| "push_value p fl (Hyper v) = ndr_push_hyper p fl v"
| "push_value p fl (Bytes bs) = ndr_push_bytes p bs (word_of_nat (length bs))"

fun pull_value :: "ndr_kind \<Rightarrow> ndr_pull \<Rightarrow> u32 \<Rightarrow> (ndr_value \<times> ndr_pull) res" where
  "pull_value K_uint8 q fl = chk (ndr_pull_uint8 q fl) (\<lambda>(v, q). Inr (U8 v, q))"
| "pull_value K_uint16 q fl = chk (ndr_pull_uint16 q fl) (\<lambda>(v, q). Inr (U16 v, q))"
| "pull_value K_uint32 q fl = chk (ndr_pull_uint32 q fl) (\<lambda>(v, q). Inr (U32 v, q))"
| "pull_value K_udlong q fl = chk (ndr_pull_udlong q fl) (\<lambda>(v, q). Inr (Udlong v, q))"
| "pull_value K_udlongr q fl = chk (ndr_pull_udlongr q fl) (\<lambda>(v, q). Inr (Udlongr v, q))"
| "pull_value K_hyper q fl = chk (ndr_pull_hyper q fl) (\<lambda>(v, q). Inr (Hyper v, q))"
| "pull_value (K_bytes n) q fl = chk (ndr_pull_bytes q (word_of_nat n)) (\<lambda>(v, q). Inr (Bytes v, q))"

fun push_values :: "ndr_push \<Rightarrow> u32 \<Rightarrow> ndr_value list \<Rightarrow> ndr_push res" where
  "push_values p fl [] = Inr p"
| "push_values p fl (v # vs) = chk (push_value p fl v) (\<lambda>p. push_values p fl vs)"

fun pull_values :: "ndr_kind list \<Rightarrow> ndr_pull \<Rightarrow> u32 \<Rightarrow> (ndr_value list \<times> ndr_pull) res" where
  "pull_values [] q fl = Inr ([], q)"
| "pull_values (k # ks) q fl =
     chk (pull_value k q fl) (\<lambda>(v, q). chk (pull_values ks q fl) (\<lambda>(vs, q). Inr (v # vs, q)))"

fun enc_value :: "u32 \<Rightarrow> nat \<Rightarrow> ndr_value \<Rightarrow> bytes" where
  "enc_value fl ofs (U8 v) = enc_u8 fl ofs v"
| "enc_value fl ofs (U16 v) = enc_u16 fl ofs v"
| "enc_value fl ofs (U32 v) = enc_u32 fl ofs v"
| "enc_value fl ofs (Udlong v) = enc_u64 fl ofs v"
| "enc_value fl ofs (Udlongr v) = enc_u64r fl ofs v"
| "enc_value fl ofs (Hyper v) = enc_hyper fl ofs v"
| "enc_value fl ofs (Bytes bs) = bs"

fun enc_values :: "u32 \<Rightarrow> nat \<Rightarrow> ndr_value list \<Rightarrow> bytes" where
  "enc_values fl ofs [] = []"
| "enc_values fl ofs (v # vs) = enc_value fl ofs v @ enc_values fl (ofs + length (enc_value fl ofs v)) vs"

text \<open>An upper bound of the marshalled size of a value, padding included.\<close>

fun max_size :: "ndr_value \<Rightarrow> nat" where
  "max_size (Bytes bs) = length bs"
| "max_size v = 18"

lemma enc_value_size: "length (enc_value fl ofs v) \<le> max_size v"
  using pad_len_less [of 2 fl ofs] pad_len_less [of 4 fl ofs] pad_len_less [of 8 fl ofs]
    pad_len_less [of 4 fl "ofs + pad_len fl ofs 8"]
  by (cases v) (auto simp: enc_u8_def enc_u16_def enc_u32_def enc_u64_def enc_u64r_def enc_hyper_def)

lemma enc_values_size: "length (enc_values fl ofs vs) \<le> sum_list (map max_size vs)"
  by (induction vs arbitrary: ofs) (auto intro: add_mono enc_value_size)

lemma push_value_ok:
  assumes "wf_push p" and "push_room p (length (enc_value (push_flags p) (unat (push_offset p)) v))"
  shows "\<exists>p'. push_value p fl v = Inr p' \<and>
    push_appends p (enc_value (push_flags p) (unat (push_offset p)) v) p'"
  using assms
  by (cases v)
    (simp_all add: cd_uint8.push_enc cd_uint16.push_enc cd_uint32.push_enc cd_udlong.push_enc
      cd_udlongr.push_enc cd_hyper.push_enc push_bytes_ok)

lemma pull_bytes_ok:
  assumes wf: "wf_pull q" and rest: "pull_rest q = bs @ rest"
  shows "\<exists>q'. ndr_pull_bytes q (word_of_nat (length bs)) = Inr (bs, q') \<and>
    pull_consumes q bs q' \<and> pull_rest q' = rest"
proof -
  have fits: "unat (pull_offset q) + length bs \<le> unat (pull_data_size q)"
    using pull_rest_fits [OF wf rest] .
  then have n: "unat (word_of_nat (length bs) :: u32) = length bs"
    using unat_u32 [of "pull_data_size q"] by (simp add: unat_of_nat)
  have "get_bytes (pull_data q) (unat (pull_offset q)) (length bs) = Inr bs"
    using wf_pull_len [OF wf fits] pull_rest_take [OF rest] by (simp add: get_bytes_def)
  then show ?thesis
    using need_ok [OF wf rest n] skip_consumes [OF wf rest n] by (simp add: ndr_pull_bytes_def n)
qed

lemma pull_value_ok:
  assumes "wf_pull q" and "pull_rest q = enc_value (pull_flags q) (unat (pull_offset q)) v @ rest"
  shows "\<exists>q'. pull_value (kind_of v) q fl = Inr (v, q') \<and> pull_rest q' = rest \<and>
    pull_consumes q (enc_value (pull_flags q) (unat (pull_offset q)) v) q'"
proof (cases v)
  case (U8 w)
  with assms show ?thesis using cd_uint8.pull_enc [OF assms(1) TrueI, of w rest fl] by auto
next
  case (U16 w)
  with assms show ?thesis using cd_uint16.pull_enc [OF assms(1) TrueI, of w rest fl] by auto
next
  case (U32 w)
  with assms show ?thesis using cd_uint32.pull_enc [OF assms(1) TrueI, of w rest fl] by auto
next
  case (Udlong w)
  with assms show ?thesis using cd_udlong.pull_enc [OF assms(1) TrueI, of w rest fl] by auto
next
  case (Udlongr w)
  with assms show ?thesis using cd_udlongr.pull_enc [OF assms(1) TrueI, of w rest fl] by auto
next
  case (Hyper w)
  with assms show ?thesis using cd_hyper.pull_enc [OF assms(1) TrueI, of w rest fl] by auto
next
  case (Bytes bs)
  with assms show ?thesis using pull_bytes_ok [OF assms(1), of bs rest] by auto
qed

lemma push_values_ok:
  "wf_push p \<Longrightarrow> push_room p (length (enc_values (push_flags p) (unat (push_offset p)) vs)) \<Longrightarrow>
   \<exists>p'. push_values p fl vs = Inr p' \<and>
     push_appends p (enc_values (push_flags p) (unat (push_offset p)) vs) p'"
proof (induction vs arbitrary: p)
  case Nil
  then show ?case by (simp add: push_appends_refl)
next
  case (Cons v vs)
  let ?b = "enc_value (push_flags p) (unat (push_offset p)) v"
  obtain p1 where p1: "push_value p fl v = Inr p1" "push_appends p ?b p1"
    using push_value_ok [OF Cons.prems(1), of v fl] push_room_mono [OF Cons.prems(2), of "length ?b"] by auto
  have s: "wf_push p1" "push_flags p1 = push_flags p" "unat (push_offset p1) = unat (push_offset p) + length ?b"
    using p1(2) push_appends_offset [OF Cons.prems(1) p1(2)]
    by (simp_all add: push_appends_def push_frame_def)
  have "push_room p1 (length (enc_values (push_flags p1) (unat (push_offset p1)) vs))"
    using push_room_after [OF Cons.prems(1) p1(2)] Cons.prems(2) by (simp add: s(2,3))
  with Cons.IH [OF s(1)] obtain p2 where "push_values p1 fl vs = Inr p2"
      "push_appends p1 (enc_values (push_flags p1) (unat (push_offset p1)) vs) p2" by auto
  with p1 push_appends_trans [OF p1(2)] show ?case by (auto simp: s(2,3))
qed

lemma pull_values_ok:
  "wf_pull q \<Longrightarrow> pull_rest q = enc_values (pull_flags q) (unat (pull_offset q)) vs @ rest \<Longrightarrow>
   \<exists>q'. pull_values (map kind_of vs) q fl = Inr (vs, q') \<and> pull_rest q' = rest \<and>
     pull_consumes q (enc_values (pull_flags q) (unat (pull_offset q)) vs) q'"
proof (induction vs arbitrary: q)
  case Nil
  then show ?case by (simp add: pull_consumes_refl)
next
  case (Cons v vs)
  let ?b = "enc_value (pull_flags q) (unat (pull_offset q)) v"
  let ?r = "enc_values (pull_flags q) (unat (pull_offset q) + length ?b) vs @ rest"
  obtain q1 where q1: "pull_value (kind_of v) q fl = Inr (v, q1)" "pull_consumes q ?b q1" "pull_rest q1 = ?r"
    using pull_value_ok [OF Cons.prems(1), of v ?r fl] Cons.prems by auto
  have s: "wf_pull q1" "pull_flags q1 = pull_flags q" "unat (pull_offset q1) = unat (pull_offset q) + length ?b"
    using q1(2) by (simp_all add: pull_consumes_def pull_step_def)
  obtain q2 where "pull_values (map kind_of vs) q1 fl = Inr (vs, q2)" "pull_rest q2 = rest"
      "pull_consumes q1 (enc_values (pull_flags q) (unat (pull_offset q) + length ?b) vs) q2"
    using Cons.IH [OF s(1)] q1(3) by (auto simp: s(2,3))
  with q1(1) pull_consumes_trans [OF q1(2)] show ?case by auto
qed

text \<open>
  C1: any sequence of scalars and byte arrays, marshalled one after the other by the
  writers of \<open>ndr_basic.c\<close> into a fresh context with any byte-order and alignment flags and
  any contents of fresh memory, is accepted by the readers in the same order, which return
  exactly these values and consume exactly the marshalled bytes.
\<close>

theorem ndr_values_roundtrip:
  assumes size: "sum_list (map max_size vs) + 1024 < MAX_TALLOC_SIZE"
    and fs: "\<not> has_flag fs LIBNDR_FLAG_PAD_CHECK"
  shows "\<exists>p q. push_values ((ndr_push_init_ctx fill)\<lparr>push_flags := fs\<rparr>) fl vs = Inr p \<and>
    pull_values (map kind_of vs) ((ndr_pull_init_blob (push_out p))\<lparr>pull_flags := fs\<rparr>) fl' = Inr (vs, q) \<and>
    pull_offset q = pull_data_size q"
proof -
  let ?p0 = "(ndr_push_init_ctx fill)\<lparr>push_flags := fs\<rparr>"
  have room: "length (enc_values fs 0 vs) + 1024 < MAX_TALLOC_SIZE"
    using enc_values_size [of fs 0 vs] size by simp
  obtain p where p: "push_values ?p0 fl vs = Inr p" "push_appends ?p0 (enc_values fs 0 vs) p"
    using push_values_ok [OF fresh_push(1) [of fs fill], of vs fl] room by (auto simp: fresh_push push_room_def)
  then have out: "push_out p = enc_values fs 0 vs" by (simp add: push_appends_def fresh_push)
  let ?q0 = "(ndr_pull_init_blob (push_out p))\<lparr>pull_flags := fs\<rparr>"
  have "length (push_out p) < 2 ^ 31" using room by (simp add: out MAX_TALLOC_SIZE_def)
  note q = fresh_pull [OF this fs]
  obtain q where "pull_values (map kind_of vs) ?q0 fl' = Inr (vs, q)"
      "pull_consumes ?q0 (enc_values fs 0 vs) q"
    using pull_values_ok [OF q(1), of vs "[]" fl'] q(2) out by auto
  moreover then have "unat (pull_offset q) = unat (pull_data_size q)"
    using q(3) out by (simp add: pull_consumes_def pull_step_def)
  ultimately show ?thesis using p(1) by (auto simp: word_unat_eq_iff)
qed

theorem ndr_values_roundtrip_witness:
  "\<exists>p q. push_values ((ndr_push_init_ctx 0xAA)\<lparr>push_flags := LIBNDR_FLAG_BIGENDIAN\<rparr>) NDR_SCALARS
      [U8 1, U32 0xDEADBEEF, Bytes [2, 3, 4], Hyper 5] = Inr p \<and>
    pull_values [K_uint8, K_uint32, K_bytes 3, K_hyper]
      ((ndr_pull_init_blob (push_out p))\<lparr>pull_flags := LIBNDR_FLAG_BIGENDIAN\<rparr>) NDR_SCALARS
      = Inr ([U8 1, U32 0xDEADBEEF, Bytes [2, 3, 4], Hyper 5], q) \<and>
    pull_offset q = pull_data_size q"
  using ndr_values_roundtrip [of "[U8 1, U32 0xDEADBEEF, Bytes [2, 3, 4], Hyper 5]"
      LIBNDR_FLAG_BIGENDIAN "0xAA" NDR_SCALARS NDR_SCALARS]
  by (simp add: MAX_TALLOC_SIZE_def has_flag_def LIBNDR_FLAG_BIGENDIAN_def LIBNDR_FLAG_PAD_CHECK_def
      numeral_3_eq_3)

section \<open>Memory safety\<close>

lemma pull_value_safe: "wf_pull q \<Longrightarrow> reads_within q (pull_value k q fl)"
  by (cases k)
    (auto intro!: reads_within_bind intro: pull_step_self
      simp: rd_uint8.reader_safe rd_uint16.reader_safe rd_uint32.reader_safe rd_udlong.reader_safe
        rd_udlongr.reader_safe rd_hyper.reader_safe rd_bytes.reader_safe)

lemma pull_values_safe: "wf_pull q \<Longrightarrow> reads_within q (pull_values ks q fl)"
proof (induction ks arbitrary: q)
  case Nil
  then show ?case by (simp add: pull_step_refl)
next
  case (Cons k ks)
  have "reads_within q' (chk (pull_values ks q' fl) (\<lambda>(vs, q). Inr (v # vs, q)))"
    if "pull_step q q'" for q' v
    by (rule reads_within_bind [OF Cons.IH [OF pull_step_wf [OF that]]]) (auto intro: pull_step_self)
  then show ?case
    unfolding pull_values.simps
    by (intro reads_within_bind [OF pull_value_safe [OF Cons.prems, of k fl]]) auto
qed



section \<open>Subcontexts\<close>

text \<open>The header that carries the content size of a subcontext.\<close>

definition enc_header :: "nat \<Rightarrow> u32 \<Rightarrow> nat \<Rightarrow> u32 \<Rightarrow> bytes" where
  "enc_header h fl ofs n = (if h = 2 then enc_u16 fl ofs (ucast n) else enc_u32 fl ofs n)"

lemma push_subcontext_ok:
  assumes wf: "wf_push p" and sub: "wf_push sub" and h: "h = 2 \<or> h = 4"
    and room: "push_room p (8 + unat (push_offset sub))"
  shows "\<exists>p'. ndr_push_subcontext_end p sub h (-1) = Inr p' \<and>
    push_appends p (enc_header h (push_flags p) (unat (push_offset p)) (push_offset sub) @ push_out sub) p'"
proof -
  let ?hd = "enc_header h (push_flags p) (unat (push_offset p)) (push_offset sub)"
  have hl: "length ?hd \<le> 8"
    using pad_len_less [of 2 "push_flags p" "unat (push_offset p)"]
      pad_len_less [of 4 "push_flags p" "unat (push_offset p)"]
    by (auto simp: enc_header_def enc_u16_def enc_u32_def)
  then have "push_room p (length ?hd)" using push_room_mono [OF room, of "length ?hd"] by simp
  then obtain p1 where p1: "(if h = 2 then ndr_push_uint16 p NDR_SCALARS (ucast (push_offset sub))
        else ndr_push_uint32 p NDR_SCALARS (push_offset sub)) = Inr p1" "push_appends p ?hd p1"
    using push_u16_ok [OF wf, of "ucast (push_offset sub)" NDR_SCALARS]
      push_u32_ok [OF wf, of "push_offset sub" NDR_SCALARS] by (auto simp: enc_header_def split: if_splits)
  have wf1: "wf_push p1" using p1(2) by (simp add: push_appends_def)
  have len: "length (push_out sub) = unat (push_offset sub)" using sub by simp
  have room1: "push_room p1 (length (push_out sub))"
    using push_room_after [OF wf p1(2)] push_room_mono [OF room] hl len by simp
  obtain p2 where p2: "ndr_push_bytes p1 (push_out sub) (word_of_nat (length (push_out sub))) = Inr p2"
      "push_appends p1 (push_out sub) p2"
    using push_bytes_ok [OF wf1 room1] by auto
  have "get_bytes (push_data sub) 0 (unat (push_offset sub)) = get_bytes (push_out sub) 0 (unat (push_offset sub))"
    using sub by (simp add: get_bytes_def push_out_def wf_push_def word_le_nat_alt)
  then have "ndr_push_bytes p1 (push_data sub) (push_offset sub) = Inr p2"
    using p2(1) len by (simp add: ndr_push_bytes_def)
  then have "ndr_push_subcontext_end p sub h (-1) = Inr p2"
    using p1(1) h by (auto simp: ndr_push_subcontext_end_def)
  then show ?thesis using push_appends_trans [OF p1(2) p2(2)] by auto
qed

lemma pull_subcontext_ok:
  assumes wf: "wf_pull q" and h: "h = 2 \<or> h = 4" and small: "h = 2 \<longrightarrow> length bs < 2 ^ 16"
    and rest: "pull_rest q = enc_header h (pull_flags q) (unat (pull_offset q)) (word_of_nat (length bs)) @ bs @ rest"
  shows "\<exists>sq q1 q2. ndr_pull_subcontext_start q h (-1) = Inr (sq, q1) \<and> pull_rest sq = bs \<and> wf_pull sq \<and>
    ndr_pull_subcontext_end q1 sq h (-1) = Inr q2 \<and> pull_rest q2 = rest \<and>
    pull_consumes q (enc_header h (pull_flags q) (unat (pull_offset q)) (word_of_nat (length bs)) @ bs) q2"
proof -
  let ?n = "word_of_nat (length bs) :: u32"
  let ?hd = "enc_header h (pull_flags q) (unat (pull_offset q)) ?n"
  have "length bs \<le> unat (pull_data_size q)"
    using pull_rest_fits [OF wf, of "?hd @ bs" rest] rest by simp
  then have n: "unat ?n = length bs"
    using unat_u32 [of "pull_data_size q"] by (simp add: unat_of_nat)
  have cast: "h = 2 \<Longrightarrow> (ucast (ucast ?n :: u16) :: u32) = ?n"
    using small n by (simp add: word_unat_eq_iff unsigned_ucast_eq unat_take_bit_mod)
  obtain q1 where q1: "(if h = 2 then chk (ndr_pull_uint16 q NDR_SCALARS) (\<lambda>(c, q). Inr (ucast c, q))
        else ndr_pull_uint32 q NDR_SCALARS) = Inr (?n, q1)" "pull_consumes q ?hd q1" "pull_rest q1 = bs @ rest"
    using cd_uint16.pull_enc [OF wf TrueI, of "ucast ?n" "bs @ rest" NDR_SCALARS] cast
      cd_uint32.pull_enc [OF wf TrueI, of ?n "bs @ rest" NDR_SCALARS] rest h
    by (auto simp: enc_header_def)
  have wf1: "wf_pull q1" using q1(2) by (simp add: pull_consumes_def pull_step_def)
  let ?sq = "(ndr_pull_init_blob [])\<lparr>pull_flags := pull_flags q1,
     pull_data := drop (unat (pull_offset q1)) (pull_data q1), pull_offset := 0, pull_data_size := ?n\<rparr>"
  have start: "ndr_pull_subcontext_start q h (-1) = Inr (?sq, q1)"
    using q1(1) h need_ok [OF wf1 q1(3) n]
    by (auto simp: ndr_pull_subcontext_start_def chk_eq_Inr split: prod.splits)
  have fits: "unat (pull_offset q1) + length bs \<le> unat (pull_data_size q1)"
    using pull_rest_fits [OF wf1 q1(3)] .
  have sq: "pull_rest ?sq = bs" "wf_pull ?sq"
    using pull_rest_take [OF q1(3)] n fits wf1 by (auto simp: pull_rest_def wf_pull_def)
  have "ndr_pull_advance q1 ?n = Inr (pull_skip q1 ?n)"
    using pull_skip_step [OF wf1, of ?n] fits n
    by (auto simp: ndr_pull_advance_def pull_skip_def Let_def pull_step_def wf_pull_def)
  then have stop: "ndr_pull_subcontext_end q1 ?sq h (-1) = Inr (pull_skip q1 ?n)"
    using h by (auto simp: ndr_pull_subcontext_end_def)
  show ?thesis
    using start sq stop skip_consumes [OF wf1 q1(3) n] pull_consumes_trans [OF q1(2)] by blast
qed



section \<open>Where the arithmetic of the source falls short\<close>

text \<open>
  With the padding check switched on, aligning reads outside the buffer. The check runs
  before the bounds test, so parsing a 32-bit integer at the end of a one-byte buffer reads
  the three bytes behind it.
\<close>

theorem padding_check_reads_past_end:
  "ndr_pull_uint32 ((ndr_pull_init_blob [0])\<lparr>pull_flags := LIBNDR_FLAG_PAD_CHECK, pull_offset := 1\<rparr>) fl
     = Inl Fault"
proof -
  have "unat ((ucast (1 :: u32) + (ucast (4 :: u32) - 1 :: u64)) AND NOT (ucast (4 :: u32) - 1)) = 4"
    by simp
  then show ?thesis
    by (simp add: ndr_pull_uint32_def NDR_PULL_ALIGN_def ndr_check_padding_def has_flag_def
        LIBNDR_FLAG_PAD_CHECK_def LIBNDR_FLAG_NOALIGN_def get_byte_def numeral_3_eq_3 Let_def)
qed

text \<open>
  The space reserved for a push wraps at \<open>2^32\<close>. With one byte marshalled, pushing
  \<open>2^32 - 1\<close> zero bytes asks for 0 bytes of space, is granted, and writes past the block.
\<close>

theorem push_zero_size_wraps:
  "ndr_push_zero ((ndr_push_init_ctx fill)\<lparr>push_offset := 1\<rparr>) 0xFFFFFFFF = Inl Fault"
  by (simp add: ndr_push_zero_def NDR_PUSH_NEED_BYTES_def ndr_push_expand_def ndr_push_init_ctx_def
      NDR_BASE_MARSHALL_SIZE_def push_store_def put_bytes_def)

end
