(* ===== verification/C_Strings.thy ===== *)
theory C_Strings
  imports Smb_Prelude
begin

text \<open>
  The functions of the C library on strings that the modelled code calls: \<open>strtol\<close> and
  \<open>strtoul\<close>, the hexadecimal conversions of \<open>sscanf\<close> and \<open>printf\<close>, comparison without regard
  to case. A string is the list of its bytes without the terminating NUL.
\<close>

section \<open>Numbers\<close>

text \<open>
  The C library's \<open>strtol\<close> at base 10 on a string given as its bytes without the NUL: white
  space, an optional sign, digits; the value saturates at the bounds of a 64-bit \<open>long\<close>.
  Without a digit there is no conversion: the result is 0 and the end pointer is the start.
\<close>

definition isspace :: "u8 \<Rightarrow> bool" where
  "isspace c = (c = 0x20 \<or> 9 \<le> c \<and> c \<le> 13)"

definition isdigit :: "u8 \<Rightarrow> bool" where
  "isdigit c = (0x30 \<le> c \<and> c \<le> 0x39)"

fun dec_value :: "int \<Rightarrow> bytes \<Rightarrow> int" where
  "dec_value acc [] = acc"
| "dec_value acc (c # cs) = dec_value (10 * acc + int (unat (c - 0x30))) cs"

definition strtol :: "bytes \<Rightarrow> int \<times> bytes" where
  "strtol p =
     (let s = dropWhile isspace p;
          neg = (s \<noteq> [] \<and> hd s = 0x2D);
          s = (if s \<noteq> [] \<and> (hd s = 0x2D \<or> hd s = 0x2B) then tl s else s);
          ds = takeWhile isdigit s;
          v = dec_value 0 ds
      in if ds = [] then (0, p)
         else (max (- (2 ^ 63)) (min (2 ^ 63 - 1) (if neg then - v else v)), dropWhile isdigit s))"

text \<open>
  \<open>strtoul\<close> reads the same syntax; a value beyond a 64-bit \<open>unsigned long\<close> is its largest
  one, and the sign negates modulo $2^{64}$.
\<close>

definition strtoul :: "bytes \<Rightarrow> u64 \<times> bytes" where
  "strtoul p =
     (let s = dropWhile isspace p;
          neg = (s \<noteq> [] \<and> hd s = 0x2D);
          s = (if s \<noteq> [] \<and> (hd s = 0x2D \<or> hd s = 0x2B) then tl s else s);
          ds = takeWhile isdigit s;
          v = dec_value 0 ds
      in if ds = [] then (0, p)
         else (if v \<ge> 2 ^ 64 then - 1 else if neg then - word_of_int v else word_of_int v, dropWhile isdigit s))"

text \<open>\<open>printf\<close> with \<open>%u\<close>.\<close>

fun print_u :: "nat \<Rightarrow> bytes" where
  "print_u n = (if n < 10 then [0x30 + word_of_nat n] else print_u (n div 10) @ [0x30 + word_of_nat (n mod 10)])"

declare print_u.simps [simp del]

section \<open>Hexadecimal numbers\<close>

definition hex_digit :: "u8 \<Rightarrow> nat option" where
  "hex_digit c =
     (if 0x30 \<le> c \<and> c \<le> 0x39 then Some (unat c - 0x30)
      else if 0x41 \<le> c \<and> c \<le> 0x46 then Some (unat c - 0x41 + 10)
      else if 0x61 \<le> c \<and> c \<le> 0x66 then Some (unat c - 0x61 + 10)
      else None)"

fun hex_run :: "nat \<Rightarrow> bytes \<Rightarrow> nat list" where
  "hex_run (Suc w) (c # cs) = (case hex_digit c of None \<Rightarrow> [] | Some d \<Rightarrow> d # hex_run w cs)"
| "hex_run _ _ = []"

definition hex_value :: "nat list \<Rightarrow> nat" where
  "hex_value ds = foldl (\<lambda>v d. 16 * v + d) 0 ds"

text \<open>The unsigned value of \<open>%0wx\<close>, \<open>None\<close> when nothing matches, and what is left of the input.\<close>

definition scan_hex :: "nat \<Rightarrow> bytes \<Rightarrow> (u32 \<times> bytes) option" where
  "scan_hex w s =
     (let s = dropWhile isspace s;
          neg = (s \<noteq> [] \<and> hd s = 0x2D);
          sgn = (if w > 0 \<and> s \<noteq> [] \<and> (hd s = 0x2D \<or> hd s = 0x2B) then 1 else 0);
          w = w - sgn;
          s = drop sgn s;
          pre = (if w \<ge> 2 \<and> length s \<ge> 2 \<and> s ! 0 = 0x30 \<and> (s ! 1 = 0x78 \<or> s ! 1 = 0x58) then 2 else 0);
          ds = hex_run (w - pre) (drop pre s);
          v = word_of_nat (hex_value ds) :: u32
      in if pre = 0 \<and> ds = [] then None
         else if pre = 2 \<and> ds = [] then None
         else Some (if neg then - v else v, drop (pre + length ds) s))"

fun hex_char :: "nat \<Rightarrow> u8" where
  "hex_char d = (if d < 10 then word_of_nat (0x30 + d) else word_of_nat (0x61 + d - 10))"

text \<open>\<open>%0wx\<close> of \<open>printf\<close> for a value of at most \<open>w\<close> digits.\<close>

fun print_hex :: "nat \<Rightarrow> nat \<Rightarrow> bytes" where
  "print_hex 0 v = []"
| "print_hex (Suc w) v = print_hex w (v div 16) @ [hex_char (v mod 16)]"

section \<open>Case\<close>

definition tolower :: "u8 \<Rightarrow> u8" where
  "tolower c = (if 0x41 \<le> c \<and> c \<le> 0x5A then c + 0x20 else c)"

definition strcaseeq :: "bytes \<Rightarrow> bytes \<Rightarrow> bool" where
  "strcaseeq a b = (map tolower a = map tolower b)"

definition ascii_str :: "string \<Rightarrow> bytes" where
  "ascii_str s = map (\<lambda>c. word_of_nat (of_char c)) s"

section \<open>Decimal numbers read back\<close>

lemma isdigit_digit: "n < 10 \<Longrightarrow> isdigit (0x30 + word_of_nat n)"
  and value_digit: "n < 10 \<Longrightarrow> unat ((0x30 + word_of_nat n :: u8) - 0x30) = n"
  and not_space_digit: "n < 10 \<Longrightarrow> \<not> isspace (0x30 + word_of_nat n)"
proof -
  assume n: "n < 10"
  then have "unat (0x30 + word_of_nat n :: u8) = 0x30 + n"
    by (subst unat_add_small) (simp_all add: unsigned_of_nat take_bit_eq_mod)
  then show d: "isdigit (0x30 + word_of_nat n)" using n by (simp add: isdigit_def word_le_nat_alt)
  have "isdigit c \<Longrightarrow> \<not> isspace c" for c
    using order_trans [of "0x30" c 13] by (auto simp: isdigit_def isspace_def)
  with d show "\<not> isspace (0x30 + word_of_nat n)" by blast
  show "unat ((0x30 + word_of_nat n :: u8) - 0x30) = n" using n by (simp add: unsigned_of_nat take_bit_eq_mod)
qed

lemma dec_value_append: "dec_value a (xs @ ys) = dec_value (dec_value a xs) ys"
  by (induction xs arbitrary: a) auto

lemma print_u_props:
  "print_u n \<noteq> [] \<and> (\<forall>c \<in> set (print_u n). isdigit c \<and> \<not> isspace c) \<and> dec_value 0 (print_u n) = int n"
proof (induction n rule: print_u.induct)
  case (1 n)
  show ?case
  proof (cases "n < 10")
    case True
    then show ?thesis
      using value_digit [OF True] by (subst (1 2 3) print_u.simps) (simp add: isdigit_digit not_space_digit)
  next
    case False
    then have p: "print_u n = print_u (n div 10) @ [0x30 + word_of_nat (n mod 10)]" by (subst print_u.simps) simp
    have "10 * int (n div 10) + int (n mod 10) = int n"
      by (metis mult_div_mod_eq of_nat_add of_nat_mult of_nat_numeral)
    with False 1 show ?thesis
      using value_digit [of "n mod 10"] by (simp add: p dec_value_append isdigit_digit not_space_digit)
  qed
qed

lemma not_sign_digit: "isdigit c \<Longrightarrow> c \<noteq> 0x2D \<and> c \<noteq> 0x2B"
  by (auto simp: isdigit_def)

lemma print_u_scan:
  assumes r: "r = [] \<or> \<not> isdigit (hd r)" and sp: "sp = [] \<or> sp = [0x20]"
  obtains c cs where "print_u n = c # cs" "c \<noteq> 0x2D" "c \<noteq> 0x2B"
    "dropWhile isspace (sp @ print_u n @ r) = print_u n @ r"
    "takeWhile isdigit (print_u n @ r) = print_u n" "dropWhile isdigit (print_u n @ r) = r"
proof -
  note pr = print_u_props [of n]
  then obtain c cs where c: "print_u n = c # cs" "isdigit c" "\<not> isspace c" by (cases "print_u n") auto
  have "dropWhile isspace (sp @ print_u n @ r) = print_u n @ r"
    using sp c by (auto simp: isspace_def)
  moreover have "takeWhile isdigit (print_u n @ r) = print_u n" "dropWhile isdigit (print_u n @ r) = r"
    using pr r by (cases r; simp add: takeWhile_append2 dropWhile_append2)+
  ultimately show thesis using that c not_sign_digit [OF c(2)] by blast
qed

lemma strtol_print:
  assumes n: "n < 2 ^ 32" and r: "r = [] \<or> \<not> isdigit (hd r)" and sp: "sp = [] \<or> sp = [0x20]"
  shows "strtol (sp @ print_u n @ r) = (int n, r)"
  by (rule print_u_scan [OF r sp, of n]) (use n print_u_props [of n] in \<open>simp add: strtol_def Let_def\<close>)

lemma strtoul_print:
  assumes n: "n < 2 ^ 32" and r: "r = [] \<or> \<not> isdigit (hd r)"
  shows "strtoul (print_u n @ r) = (word_of_nat n, r)"
  by (rule print_u_scan [of r "[]" n]) (use n r print_u_props [of n] in \<open>simp_all add: strtoul_def Let_def\<close>)

lemma length_print_u: "n < 10 ^ k \<Longrightarrow> 0 < k \<Longrightarrow> length (print_u n) \<le> k"
proof (induction n arbitrary: k rule: print_u.induct)
  case (1 n)
  show ?case
  proof (cases "n < 10")
    case True
    then show ?thesis using 1(3) by (subst print_u.simps) simp
  next
    case False
    obtain j where k: "k = Suc j" using 1(3) by (cases k) auto
    then have "n div 10 < 10 ^ j" "0 < j" using 1(2) False by (auto intro: gr0I)
    from 1(1) [OF False this] False k show ?thesis by (subst print_u.simps) simp
  qed
qed

section \<open>Hexadecimal numbers read back\<close>

lemma length_print_hex [simp]: "length (print_hex w v) = w"
  by (induction w arbitrary: v) simp_all

lemma hex_digit_char: "d < 16 \<Longrightarrow> hex_digit (hex_char d) = Some d"
proof -
  assume "d < 16"
  then have "d \<in> set [0..<16]" by simp
  moreover have "list_all (\<lambda>d. hex_digit (hex_char d) = Some d) [0..<16]" by code_simp
  ultimately show ?thesis unfolding list_all_iff by blast
qed

lemma hex_char_plain: "d < 16 \<Longrightarrow> \<not> isspace (hex_char d) \<and> hex_char d \<noteq> 0x2D \<and> hex_char d \<noteq> 0x2B \<and> hex_char d \<noteq> 0x78 \<and> hex_char d \<noteq> 0x58"
proof -
  assume "d < 16"
  then have "d \<in> set [0..<16]" by simp
  moreover have "list_all (\<lambda>d. \<not> isspace (hex_char d) \<and> hex_char d \<noteq> 0x2D \<and> hex_char d \<noteq> 0x2B \<and> hex_char d \<noteq> 0x78 \<and> hex_char d \<noteq> 0x58) [0..<16]"
    by code_simp
  ultimately show ?thesis unfolding list_all_iff by blast
qed

declare hex_char.simps [simp del]

fun hex_digits :: "nat \<Rightarrow> nat \<Rightarrow> nat list" where
  "hex_digits 0 v = []"
| "hex_digits (Suc w) v = hex_digits w (v div 16) @ [v mod 16]"

lemma print_hex_digits: "print_hex w v = map hex_char (hex_digits w v)"
  by (induction w arbitrary: v) simp_all

lemma hex_digits_less: "d \<in> set (hex_digits w v) \<Longrightarrow> d < 16"
  by (induction w arbitrary: v) auto

lemma length_hex_digits [simp]: "length (hex_digits w v) = w"
  by (induction w arbitrary: v) simp_all

lemma hex_value_digits: "hex_value (hex_digits w v) = v mod 16 ^ w"
proof (induction w arbitrary: v)
  case (Suc w)
  have "v mod (16 * 16 ^ w) = 16 * (v div 16 mod 16 ^ w) + v mod 16" by (rule mod_mult2_eq)
  with Suc show ?case by (simp add: hex_value_def)
qed (simp add: hex_value_def)

lemma hex_run_digits: "(\<And>d. d \<in> set ds \<Longrightarrow> d < 16) \<Longrightarrow> hex_run (length ds) (map hex_char ds @ r) = ds"
  by (induction ds) (simp_all add: hex_digit_char)

lemma scan_hex_print:
  assumes w: "2 \<le> w" and v: "v < 16 ^ w" "v < 2 ^ 32"
  shows "scan_hex w (print_hex w v @ r) = Some (word_of_nat v, r)"
proof -
  obtain d e ds where ds: "hex_digits w v = d # e # ds"
    using w length_hex_digits [of w v] by (cases "hex_digits w v"; cases "tl (hex_digits w v)") auto
  have lt: "d < 16" "e < 16" using hex_digits_less [of _ w v] ds by auto
  note plain = hex_char_plain [OF lt(1)] hex_char_plain [OF lt(2)]
  have s: "print_hex w v @ r = hex_char d # hex_char e # map hex_char ds @ r" by (simp add: print_hex_digits ds)
  have "hex_run w (map hex_char (hex_digits w v) @ r) = hex_digits w v"
    using hex_run_digits [of "hex_digits w v" r] hex_digits_less by simp
  then have run: "hex_run w (hex_char d # hex_char e # map hex_char ds @ r) = d # e # ds" by (simp add: ds)
  have val: "hex_value (d # e # ds) = v" using hex_value_digits [of w v] v by (simp add: ds)
  have len: "w = Suc (Suc (length ds))" using length_hex_digits [of w v] ds by simp
  show ?thesis
    unfolding s using plain run val len by (simp add: scan_hex_def Let_def)
qed

end
