(* ===== verification/Asn1.thy ===== *)
theory Asn1
  imports C_Strings
begin

text \<open>
  The ASN.1 (BER) reader and writer of \<open>libcli/util/asn1.c\<close>, used by SPNEGO, GSSAPI and
  LDAP. A context is a buffer, a position, a stack of open tags and a sticky error flag.
  The C functions return a \<open>BOOL\<close> and change the context; here they return both, and
  \<open>Fault\<close> where the code would follow a NULL or stale pointer or leave the buffer: a failed
  reallocation frees the buffer, a length field of \<open>NULL\<close> nesting is dereferenced, and so on.
  Offsets are natural numbers (an \<open>off_t\<close> that is never negative here); tag lengths are
  64-bit words and the remaining length of a tag is computed and truncated to \<open>int\<close> exactly
  as in the source. Buffers come from talloc, so no block reaches \<open>2^28\<close> bytes.
\<close>

record nesting =
  nest_start :: nat
  nest_taglen :: u64

record asn1_data =
  asn1_buf :: bytes
  asn1_length :: nat
  asn1_ofs :: nat
  asn1_nesting :: "nesting list"
  asn1_has_error :: bool

type_synonym 'a asn1_res = "('a \<times> asn1_data) res"

definition asn1_empty :: asn1_data where
  "asn1_empty = \<lparr>asn1_buf = [], asn1_length = 0, asn1_ofs = 0, asn1_nesting = [], asn1_has_error = False\<rparr>"

definition ASN1_CONTEXT_SIMPLE :: "u8 \<Rightarrow> u8" where "ASN1_CONTEXT_SIMPLE x = x + 0x80"
definition ASN1_GENERAL_STRING :: u8 where "ASN1_GENERAL_STRING = 0x1b"
definition ASN1_OCTET_STRING :: u8 where "ASN1_OCTET_STRING = 0x4"
definition ASN1_OID :: u8 where "ASN1_OID = 0x6"
definition ASN1_BOOLEAN :: u8 where "ASN1_BOOLEAN = 0x1"
definition ASN1_INTEGER :: u8 where "ASN1_INTEGER = 0x2"
definition ASN1_ENUMERATED :: u8 where "ASN1_ENUMERATED = 0xa"

definition set_error :: "asn1_data \<Rightarrow> asn1_data" where
  "set_error d = d\<lparr>asn1_has_error := True\<rparr>"

section \<open>Writing\<close>

text \<open>
  The block grows to the end of the written bytes; the bytes between an old end and a
  position behind it would be uninitialised, and are 0 here (positions never pass the end).
\<close>

definition asn1_write :: "asn1_data \<Rightarrow> bytes \<Rightarrow> bool asn1_res" where
  "asn1_write d p =
     (if asn1_has_error d then Inr (False, d)
      else
        let need = asn1_ofs d + length p
        in if asn1_length d < need
           then
             if need \<ge> MAX_TALLOC_SIZE
             then Inr (False, d\<lparr>asn1_buf := [], asn1_has_error := True\<rparr>)
             else chk (put_bytes (asn1_buf d @ replicate (need - length (asn1_buf d)) 0) (asn1_ofs d) p)
               (\<lambda>b. Inr (True, d\<lparr>asn1_buf := b, asn1_length := need, asn1_ofs := need\<rparr>))
           else chk (put_bytes (asn1_buf d) (asn1_ofs d) p)
               (\<lambda>b. Inr (True, d\<lparr>asn1_buf := b, asn1_ofs := need\<rparr>)))"

definition asn1_write_uint8 :: "asn1_data \<Rightarrow> u8 \<Rightarrow> bool asn1_res" where
  "asn1_write_uint8 d v = asn1_write d [v]"

definition asn1_push_tag :: "asn1_data \<Rightarrow> u8 \<Rightarrow> bool asn1_res" where
  "asn1_push_tag d tag =
     chk (asn1_write_uint8 d tag) (\<lambda>(_, d).
       asn1_write_uint8
         (d\<lparr>asn1_nesting := \<lparr>nest_start = asn1_ofs d, nest_taglen = 0\<rparr> # asn1_nesting d\<rparr>) 0xff)"

text \<open>A store \<open>data->data[i] = v\<close> and a \<open>memmove\<close> inside the buffer.\<close>

definition asn1_poke :: "asn1_data \<Rightarrow> nat \<Rightarrow> u8 \<Rightarrow> asn1_data res" where
  "asn1_poke d i v = chk (put_bytes (asn1_buf d) i [v]) (\<lambda>b. Inr (d\<lparr>asn1_buf := b\<rparr>))"

definition asn1_move :: "asn1_data \<Rightarrow> nat \<Rightarrow> nat \<Rightarrow> nat \<Rightarrow> asn1_data res" where
  "asn1_move d dst src n =
     chk (get_bytes (asn1_buf d) src n) (\<lambda>bs.
     chk (put_bytes (asn1_buf d) dst bs) (\<lambda>b. Inr (d\<lparr>asn1_buf := b\<rparr>)))"

text \<open>\<open>if (!asn1_write_uint8(data, 0)) return False;\<close> as a guard for the rest.\<close>

definition asn1_grow :: "asn1_data \<Rightarrow> (asn1_data \<Rightarrow> bool asn1_res) \<Rightarrow> bool asn1_res" where
  "asn1_grow d k = chk (asn1_write_uint8 d 0) (\<lambda>(ok, d). if ok then k d else Inr (False, d))"

definition asn1_pop_tag :: "asn1_data \<Rightarrow> bool asn1_res" where
  "asn1_pop_tag d =
     (case asn1_nesting d of
        [] \<Rightarrow> Inr (False, set_error d)
      | n # ns \<Rightarrow>
          let start = nest_start n;
              len = unat (word_of_nat (asn1_ofs d) - (word_of_nat start + 1) :: u64);
              finish = (\<lambda>d. Inr (True, d\<lparr>asn1_nesting := ns\<rparr>))
          in
            if len > 0xFFFF then
              chk (asn1_poke d start 0x83) (\<lambda>d.
              asn1_grow d (\<lambda>d. asn1_grow d (\<lambda>d. asn1_grow d (\<lambda>d.
              chk (asn1_move d (start + 4) (start + 1) len) (\<lambda>d.
              chk (asn1_poke d (start + 1) (word_of_nat (len div 65536))) (\<lambda>d.
              chk (asn1_poke d (start + 2) (word_of_nat (len div 256))) (\<lambda>d.
              chk (asn1_poke d (start + 3) (word_of_nat len)) finish)))))))
            else if len > 255 then
              chk (asn1_poke d start 0x82) (\<lambda>d.
              asn1_grow d (\<lambda>d. asn1_grow d (\<lambda>d.
              chk (asn1_move d (start + 3) (start + 1) len) (\<lambda>d.
              chk (asn1_poke d (start + 1) (word_of_nat (len div 256))) (\<lambda>d.
              chk (asn1_poke d (start + 2) (word_of_nat len)) finish)))))
            else if len > 127 then
              chk (asn1_poke d start 0x81) (\<lambda>d.
              asn1_grow d (\<lambda>d.
              chk (asn1_move d (start + 2) (start + 1) len) (\<lambda>d.
              chk (asn1_poke d (start + 1) (word_of_nat len)) finish)))
            else chk (asn1_poke d start (word_of_nat len)) finish)"

text \<open>
  \<open>i\<close> is the unsigned reinterpretation of the integer; the recursion writes the more
  significant bytes first. \<open>data->nesting\<close> is dereferenced without a check.
\<close>

function push_int_bigendian :: "asn1_data \<Rightarrow> u32 \<Rightarrow> bool \<Rightarrow> bool asn1_res" where
  "push_int_bigendian d i negative =
     (let lowest = ucast (i AND 0xFF) :: u8;
          i' = drop_bit 8 i
      in chk (if i' \<noteq> 0 then push_int_bigendian d i' negative else Inr (True, d)) (\<lambda>(ok, d).
         if \<not> ok then Inr (False, d)
         else case asn1_nesting d of
           [] \<Rightarrow> Inl Fault
         | n # _ \<Rightarrow>
             if nest_start n + 1 = asn1_ofs d then
               if negative then
                 if lowest = 0xFF then Inr (True, d)
                 else if lowest AND 0x80 = 0 then
                   chk (asn1_write_uint8 d 0xff) (\<lambda>(ok, d).
                     if \<not> ok then Inr (False, d) else asn1_write_uint8 d lowest)
                 else asn1_write_uint8 d lowest
               else if lowest AND 0x80 \<noteq> 0 then
                 chk (asn1_write_uint8 d 0) (\<lambda>(ok, d).
                   if \<not> ok then Inr (False, d) else asn1_write_uint8 d lowest)
               else asn1_write_uint8 d lowest
             else asn1_write_uint8 d lowest))"
  by pat_completeness auto
termination
proof (relation "measure (\<lambda>(d, i, negative). unat i)")
  fix i :: u32 and i'
  assume i': "i' = drop_bit 8 i" and nz: "i' \<noteq> 0"
  have "unat i' = unat i div 256"
    unfolding i' unat_drop_bit_eq by (simp add: drop_bit_eq_div)
  moreover from nz have "unat i' \<noteq> 0" by (simp add: unat_eq_zero)
  ultimately show "((d, i', negative), d, i, negative) \<in> measure (\<lambda>(d, i, negative). unat i)" for d negative
    by simp
qed simp

declare push_int_bigendian.simps [simp del]

definition asn1_write_implicit_Integer :: "asn1_data \<Rightarrow> u32 \<Rightarrow> bool asn1_res" where
  "asn1_write_implicit_Integer d i =
     (if i = -1 then asn1_write_uint8 d 0xff else push_int_bigendian d i (sint i < 0))"

definition asn1_write_Integer :: "asn1_data \<Rightarrow> u32 \<Rightarrow> bool asn1_res" where
  "asn1_write_Integer d i =
     chk (asn1_push_tag d ASN1_INTEGER) (\<lambda>(ok, d). if \<not> ok then Inr (False, d) else
     chk (asn1_write_implicit_Integer d i) (\<lambda>(ok, d). if \<not> ok then Inr (False, d) else
     asn1_pop_tag d))"

definition asn1_write_OctetString :: "asn1_data \<Rightarrow> bytes \<Rightarrow> bool asn1_res" where
  "asn1_write_OctetString d p =
     chk (asn1_push_tag d ASN1_OCTET_STRING) (\<lambda>(_, d).
     chk (asn1_write d p) (\<lambda>(_, d).
     chk (asn1_pop_tag d) (\<lambda>(_, d). Inr (\<not> asn1_has_error d, d))))"

text \<open>A C string is its bytes without the terminating NUL.\<close>

definition asn1_write_LDAPString :: "asn1_data \<Rightarrow> bytes \<Rightarrow> bool asn1_res" where
  "asn1_write_LDAPString d s = chk (asn1_write d s) (\<lambda>(_, d). Inr (\<not> asn1_has_error d, d))"

definition asn1_write_GeneralString :: "asn1_data \<Rightarrow> bytes \<Rightarrow> bool asn1_res" where
  "asn1_write_GeneralString d s =
     chk (asn1_push_tag d ASN1_GENERAL_STRING) (\<lambda>(_, d).
     chk (asn1_write_LDAPString d s) (\<lambda>(_, d).
     chk (asn1_pop_tag d) (\<lambda>(_, d). Inr (\<not> asn1_has_error d, d))))"

definition asn1_write_ContextSimple :: "asn1_data \<Rightarrow> u8 \<Rightarrow> bytes \<Rightarrow> bool asn1_res" where
  "asn1_write_ContextSimple d num blob =
     chk (asn1_push_tag d (ASN1_CONTEXT_SIMPLE num)) (\<lambda>(_, d).
     chk (asn1_write d blob) (\<lambda>(_, d).
     chk (asn1_pop_tag d) (\<lambda>(_, d). Inr (\<not> asn1_has_error d, d))))"

definition asn1_write_BOOLEAN :: "asn1_data \<Rightarrow> bool \<Rightarrow> bool asn1_res" where
  "asn1_write_BOOLEAN d v =
     chk (asn1_push_tag d ASN1_BOOLEAN) (\<lambda>(_, d).
     chk (asn1_write_uint8 d (if v then 0xFF else 0)) (\<lambda>(_, d).
     chk (asn1_pop_tag d) (\<lambda>(_, d). Inr (\<not> asn1_has_error d, d))))"

definition asn1_write_enumerated :: "asn1_data \<Rightarrow> u8 \<Rightarrow> bool asn1_res" where
  "asn1_write_enumerated d v =
     chk (asn1_push_tag d ASN1_ENUMERATED) (\<lambda>(ok, d). if \<not> ok then Inr (False, d) else
     chk (asn1_write_uint8 d v) (\<lambda>(_, d).
     chk (asn1_pop_tag d) (\<lambda>(_, d). Inr (\<not> asn1_has_error d, d))))"

section \<open>Reading\<close>

definition asn1_load :: "bytes \<Rightarrow> bool \<times> asn1_data" where
  "asn1_load blob =
     (if length blob \<ge> MAX_TALLOC_SIZE then (False, set_error asn1_empty)
      else (True, asn1_empty\<lparr>asn1_buf := blob, asn1_length := length blob\<rparr>))"

text \<open>\<open>None\<close> is the result False, with nothing copied.\<close>

definition asn1_peek :: "asn1_data \<Rightarrow> int \<Rightarrow> bytes option asn1_res" where
  "asn1_peek d len =
     (if len < 0 \<or> int (asn1_ofs d) > 2 ^ 31 - 1 - len then Inr (None, d)
      else if asn1_ofs d + nat len > asn1_length d
      then Inr (None, d\<lparr>asn1_ofs := asn1_length d\<rparr>)
      else chk (get_bytes (asn1_buf d) (asn1_ofs d) (nat len)) (\<lambda>p. Inr (Some p, d)))"

definition asn1_read :: "asn1_data \<Rightarrow> int \<Rightarrow> bytes option asn1_res" where
  "asn1_read d len =
     chk (asn1_peek d len) (\<lambda>(r, d).
       case r of None \<Rightarrow> Inr (None, set_error d)
       | Some p \<Rightarrow> Inr (Some p, d\<lparr>asn1_ofs := asn1_ofs d + nat len\<rparr>))"

definition asn1_read_uint8 :: "asn1_data \<Rightarrow> u8 option asn1_res" where
  "asn1_read_uint8 d = chk (asn1_read d 1) (\<lambda>(r, d). Inr (map_option hd r, d))"

definition asn1_peek_uint8 :: "asn1_data \<Rightarrow> u8 option asn1_res" where
  "asn1_peek_uint8 d = chk (asn1_peek d 1) (\<lambda>(r, d). Inr (map_option hd r, d))"

text \<open>
  The subtraction is in \<open>size_t\<close>, its result is truncated to \<open>int\<close>, and the comparison
  with the bytes left in the buffer is again in \<open>size_t\<close>.
\<close>

definition asn1_tag_remaining :: "asn1_data \<Rightarrow> int \<times> asn1_data" where
  "asn1_tag_remaining d =
     (if asn1_has_error d then (-1, d)
      else case asn1_nesting d of
        [] \<Rightarrow> (-1, set_error d)
      | n # _ \<Rightarrow>
          let remaining = ucast (nest_taglen n - (word_of_nat (asn1_ofs d) - word_of_nat (nest_start n))) :: u32
          in if (scast remaining :: u64) > word_of_nat (asn1_length d) - word_of_nat (asn1_ofs d)
             then (-1, set_error d) else (sint remaining, d))"

definition asn1_peek_tag :: "asn1_data \<Rightarrow> u8 \<Rightarrow> bool asn1_res" where
  "asn1_peek_tag d tag =
     (let (r, d) = asn1_tag_remaining d
      in if r \<le> 0 then Inr (False, d)
         else chk (asn1_peek d 1) (\<lambda>(p, d).
           case p of None \<Rightarrow> Inr (False, d) | Some bs \<Rightarrow> Inr (hd bs = tag, d)))"

text \<open>The loop over the remaining length bytes of the long form.\<close>

fun asn1_taglen_loop :: "nat \<Rightarrow> asn1_data \<Rightarrow> u64 \<Rightarrow> u64 option asn1_res" where
  "asn1_taglen_loop 0 d taglen = Inr (Some taglen, d)"
| "asn1_taglen_loop (Suc n) d taglen =
     chk (asn1_read_uint8 d) (\<lambda>(r, d).
       case r of None \<Rightarrow> Inr (None, d)
       | Some b \<Rightarrow> asn1_taglen_loop n d (push_bit 8 taglen OR ucast b))"

definition asn1_start_tag :: "asn1_data \<Rightarrow> u8 \<Rightarrow> bool asn1_res" where
  "asn1_start_tag d tag =
     chk (asn1_read_uint8 d) (\<lambda>(r, d).
       case r of None \<Rightarrow> Inr (False, d)
       | Some b \<Rightarrow>
         if b \<noteq> tag then Inr (False, set_error d)
         else chk (asn1_read_uint8 d) (\<lambda>(r, d).
           case r of None \<Rightarrow> Inr (False, d)
           | Some b \<Rightarrow>
             chk (if b AND 0x80 \<noteq> 0
                  then chk (asn1_read_uint8 d) (\<lambda>(r, d).
                         case r of None \<Rightarrow> Inr (None, d)
                         | Some b2 \<Rightarrow> asn1_taglen_loop (unat (b AND 0x7f) - 1) d (ucast b2))
                  else Inr (Some (ucast b), d)) (\<lambda>(t, d).
               case t of None \<Rightarrow> Inr (False, d)
               | Some taglen \<Rightarrow>
                 let d = d\<lparr>asn1_nesting := \<lparr>nest_start = asn1_ofs d, nest_taglen = taglen\<rparr> # asn1_nesting d\<rparr>;
                     (rem, d) = asn1_tag_remaining d
                 in if rem = -1 then Inr (False, d) else Inr (\<not> asn1_has_error d, d))))"

definition asn1_end_tag :: "asn1_data \<Rightarrow> bool \<times> asn1_data" where
  "asn1_end_tag d =
     (let (r, d) = asn1_tag_remaining d
      in if r \<noteq> 0 then (False, set_error d)
         else case asn1_nesting d of
           [] \<Rightarrow> (False, set_error d)
         | n # ns \<Rightarrow> (True, d\<lparr>asn1_nesting := ns\<rparr>))"

definition asn1_read_BOOLEAN :: "asn1_data \<Rightarrow> (bool \<times> bool) asn1_res" where
  "asn1_read_BOOLEAN d =
     chk (asn1_start_tag d ASN1_BOOLEAN) (\<lambda>(_, d).
     chk (asn1_read_uint8 d) (\<lambda>(r, d).
       let tmp = (case r of None \<Rightarrow> 0 | Some b \<Rightarrow> b);
           v = (tmp = 0xFF);
           (_, d) = asn1_end_tag d
       in Inr ((v, \<not> asn1_has_error d), d)))"

text \<open>The value is compared with the C representation of the expected \<open>BOOL\<close>, 0 or 1.\<close>

definition asn1_check_BOOLEAN :: "asn1_data \<Rightarrow> bool \<Rightarrow> bool asn1_res" where
  "asn1_check_BOOLEAN d v =
     chk (asn1_read_uint8 d) (\<lambda>(r, d).
     let b = (case r of None \<Rightarrow> 0 | Some b \<Rightarrow> b)
     in if b \<noteq> ASN1_BOOLEAN then Inr (False, set_error d)
        else chk (asn1_read_uint8 d) (\<lambda>(r, d).
          let b = (case r of None \<Rightarrow> b | Some b \<Rightarrow> b)
          in if b \<noteq> (if v then 1 else 0) then Inr (False, set_error d)
             else Inr (\<not> asn1_has_error d, d)))"

text \<open>The string read, without the NUL stored behind it, and the result of the call.\<close>

definition asn1_read_LDAPString :: "asn1_data \<Rightarrow> (bytes \<times> bool) asn1_res" where
  "asn1_read_LDAPString d =
     (let (len, d) = asn1_tag_remaining d
      in if len < 0 then Inr (([], False), set_error d)
         else if nat len + 1 \<ge> MAX_TALLOC_SIZE then Inr (([], False), set_error d)
         else chk (asn1_read d len) (\<lambda>(r, d).
           Inr ((case r of None \<Rightarrow> [] | Some s \<Rightarrow> s, \<not> asn1_has_error d), d)))"

definition asn1_read_GeneralString :: "asn1_data \<Rightarrow> (bytes \<times> bool) asn1_res" where
  "asn1_read_GeneralString d =
     chk (asn1_start_tag d ASN1_GENERAL_STRING) (\<lambda>(ok, d). if \<not> ok then Inr (([], False), d) else
     chk (asn1_read_LDAPString d) (\<lambda>((s, ok), d). if \<not> ok then Inr ((s, False), d) else
       let (ok, d) = asn1_end_tag d in Inr ((s, ok), d)))"

text \<open>The blob, empty when the call returns False.\<close>

definition asn1_read_OctetString :: "asn1_data \<Rightarrow> (bytes \<times> bool) asn1_res" where
  "asn1_read_OctetString d =
     chk (asn1_start_tag d ASN1_OCTET_STRING) (\<lambda>(ok, d). if \<not> ok then Inr (([], False), d) else
     let (len, d) = asn1_tag_remaining d
     in if len < 0 then Inr (([], False), set_error d)
        else if nat len + 1 \<ge> MAX_TALLOC_SIZE then Inr (([], False), set_error d)
        else chk (asn1_read d len) (\<lambda>(r, d).
          let (_, d) = asn1_end_tag d
          in if asn1_has_error d then Inr (([], False), d)
             else Inr ((case r of None \<Rightarrow> [] | Some s \<Rightarrow> s, True), d)))"

text \<open>
  \<open>data_blob(NULL, 0)\<close> has a NULL data pointer, which the code takes for a failed
  allocation: a context tag of length 0 is an error.
\<close>

definition asn1_read_ContextSimple :: "asn1_data \<Rightarrow> u8 \<Rightarrow> (bytes \<times> bool) asn1_res" where
  "asn1_read_ContextSimple d num =
     chk (asn1_start_tag d (ASN1_CONTEXT_SIMPLE num)) (\<lambda>(ok, d). if \<not> ok then Inr (([], False), d) else
     let (len, d) = asn1_tag_remaining d
     in if len < 0 then Inr (([], False), set_error d)
        else if len = 0 \<or> nat len \<ge> MAX_TALLOC_SIZE then Inr (([], False), set_error d)
        else chk (asn1_read d len) (\<lambda>(r, d).
          let (_, d) = asn1_end_tag d
          in Inr ((case r of None \<Rightarrow> [] | Some s \<Rightarrow> s, \<not> asn1_has_error d), d)))"

section \<open>Integers\<close>

lemma tag_remaining_pos:
  "asn1_tag_remaining d = (r, d') \<Longrightarrow> r > 0 \<Longrightarrow> d' = d \<and> \<not> asn1_has_error d"
  by (auto simp: asn1_tag_remaining_def Let_def set_error_def split: if_splits list.splits)

lemma read_uint8_advances:
  "asn1_read_uint8 d = Inr (Some b, d') \<Longrightarrow>
   asn1_ofs d' = asn1_ofs d + 1 \<and> asn1_ofs d' \<le> asn1_length d' \<and> asn1_length d' = asn1_length d"
  unfolding asn1_read_uint8_def asn1_read_def asn1_peek_def
  by (clarsimp simp: chk_eq_Inr split: if_split_asm option.split_asm)

text \<open>
  The loop of the integer readers: shift in one byte after the other until the tag is
  exhausted. The pair is the value and whether the loop was left by \<open>return False\<close>, which
  only \<open>asn1_read_implicit_Integer\<close> does; the loop of \<open>asn1_read_enumerated\<close> goes on after a
  failed read, which has set the error flag, so that it ends there too.
\<close>

function asn1_int_loop :: "asn1_data \<Rightarrow> u32 \<Rightarrow> (u32 \<times> bool) asn1_res" where
  "asn1_int_loop d i =
     (if asn1_has_error d then Inr ((i, False), d)
      else case asn1_tag_remaining d of (r, d1) \<Rightarrow>
        if r > 0
        then chk (asn1_read_uint8 d1) (\<lambda>(ob, d2).
               case ob of None \<Rightarrow> Inr ((i, True), d2)
               | Some b \<Rightarrow> asn1_int_loop d2 (push_bit 8 i + ucast b))
        else Inr ((i, False), d1))"
  by pat_completeness auto
termination
proof (relation "measure (\<lambda>(d, i). asn1_length d - asn1_ofs d)")
  fix d d1 d2 :: asn1_data and i r a z ob b
  assume "(r, d1) = asn1_tag_remaining d" "0 < r" "asn1_read_uint8 d1 = Inr a" "(ob, d2) = a" "ob = Some b"
  then have "d1 = d" and "asn1_read_uint8 d1 = Inr (Some b, d2)"
    using tag_remaining_pos [of d r d1] by auto
  with read_uint8_advances [of d b d2]
  show "((d2, push_bit 8 i + ucast b), d, i) \<in> measure (\<lambda>(d, i). asn1_length d - asn1_ofs d)"
    by auto
qed simp

declare asn1_int_loop.simps [simp del]

definition asn1_read_implicit_Integer :: "asn1_data \<Rightarrow> (u32 \<times> bool) asn1_res" where
  "asn1_read_implicit_Integer d =
     chk (asn1_int_loop d 0) (\<lambda>((i, failed), d).
       Inr ((i, if failed then False else \<not> asn1_has_error d), d))"

definition asn1_read_Integer :: "asn1_data \<Rightarrow> (u32 \<times> bool) asn1_res" where
  "asn1_read_Integer d =
     chk (asn1_start_tag d ASN1_INTEGER) (\<lambda>(ok, d). if \<not> ok then Inr ((0, False), d) else
     chk (asn1_read_implicit_Integer d) (\<lambda>((i, ok), d). if \<not> ok then Inr ((i, False), d) else
       let (ok, d) = asn1_end_tag d in Inr ((i, ok), d)))"

definition asn1_read_enumerated :: "asn1_data \<Rightarrow> (u32 \<times> bool) asn1_res" where
  "asn1_read_enumerated d =
     chk (asn1_start_tag d ASN1_ENUMERATED) (\<lambda>(ok, d). if \<not> ok then Inr ((0, False), d) else
     chk (asn1_int_loop d 0) (\<lambda>((i, _), d).
       let (ok, d) = asn1_end_tag d in Inr ((i, ok), d)))"

text \<open>
  \<open>junk\<close> is the value of the uninitialised variable \<open>b\<close>, which is what is compared when the
  read fails. A mismatch clears the error flag instead of setting it.
\<close>

definition asn1_check_enumerated :: "u8 \<Rightarrow> asn1_data \<Rightarrow> u32 \<Rightarrow> bool asn1_res" where
  "asn1_check_enumerated junk d v =
     chk (asn1_start_tag d ASN1_ENUMERATED) (\<lambda>(ok, d). if \<not> ok then Inr (False, d) else
     chk (asn1_read_uint8 d) (\<lambda>(r, d).
       let b = (case r of None \<Rightarrow> junk | Some b \<Rightarrow> b);
           (_, d) = asn1_end_tag d;
           d = (if v \<noteq> ucast b then d\<lparr>asn1_has_error := False\<rparr> else d)
       in Inr (\<not> asn1_has_error d, d)))"

definition STATUS_MORE_ENTRIES :: u32 where "STATUS_MORE_ENTRIES = 0x0105"

text \<open>The size of the first complete tag of the blob.\<close>

definition asn1_full_tag :: "bytes \<Rightarrow> u8 \<Rightarrow> nat res" where
  "asn1_full_tag blob tag =
     chk (asn1_start_tag (asn1_empty\<lparr>asn1_buf := blob, asn1_length := length blob\<rparr>) tag) (\<lambda>(_, d).
       if asn1_has_error d then Inl (Status STATUS_MORE_ENTRIES)
       else
         let (r, d) = asn1_tag_remaining d;
             sz = r + int (asn1_ofs d)
         in if sz > int (length blob) then Inl (Status STATUS_MORE_ENTRIES) else Inr (nat sz))"

section \<open>Object identifiers\<close>

text \<open>One call of \<open>asn1_write_uint8\<close> whose result is ignored, done when \<open>c\<close> holds.\<close>

definition asn1_write_if :: "bool \<Rightarrow> asn1_data \<Rightarrow> u8 \<Rightarrow> asn1_data res" where
  "asn1_write_if c d v = (if c then chk (asn1_write_uint8 d v) (\<lambda>(_, d). Inr d) else Inr d)"

text \<open>The body of the loop of \<open>asn1_write_OID\<close>: one arc, seven bits to a byte.\<close>

definition asn1_write_arc :: "asn1_data \<Rightarrow> u32 \<Rightarrow> bool asn1_res" where
  "asn1_write_arc d v =
     chk (asn1_write_if (v \<ge> 0x10000000) d (ucast (0x80 OR (drop_bit 28 v AND 0xff)))) (\<lambda>d.
     chk (asn1_write_if (v \<ge> 0x200000) d (ucast (0x80 OR (drop_bit 21 v AND 0xff)))) (\<lambda>d.
     chk (asn1_write_if (v \<ge> 0x4000) d (ucast (0x80 OR (drop_bit 14 v AND 0xff)))) (\<lambda>d.
     chk (asn1_write_if (v \<ge> 0x80) d (ucast (0x80 OR (drop_bit 7 v AND 0xff)))) (\<lambda>d.
       asn1_write_uint8 d (ucast (v AND 0x7f))))))"

text \<open>
  What is left of the allocator's limit. Every turn of the loop of \<open>asn1_write_OID\<close> writes at
  least one byte or gives up, which is the only reason the loop ends when \<open>strtol\<close> makes no
  progress.
\<close>

definition asn1_space :: "asn1_data \<Rightarrow> nat" where
  "asn1_space d = max (asn1_length d) MAX_TALLOC_SIZE - asn1_ofs d"

lemma asn1_write_space:
  assumes "asn1_write d p = Inr (ok, d')"
  shows "asn1_space d' \<le> asn1_space d" and "ok \<Longrightarrow> p \<noteq> [] \<Longrightarrow> asn1_space d' < asn1_space d"
proof -
  consider "\<not> ok" "asn1_length d' = asn1_length d" "asn1_ofs d' = asn1_ofs d"
    | "ok" "asn1_ofs d' = asn1_ofs d + length p"
      "asn1_length d' = asn1_length d \<and> asn1_ofs d + length p \<le> asn1_length d
       \<or> asn1_length d < asn1_length d' \<and> asn1_length d' = asn1_ofs d + length p \<and> asn1_length d' < MAX_TALLOC_SIZE"
    using assms unfolding asn1_write_def Let_def
    by (clarsimp simp: chk_eq_Inr split: if_split_asm)
  then have "asn1_space d' \<le> asn1_space d \<and> (ok \<longrightarrow> p \<noteq> [] \<longrightarrow> asn1_space d' < asn1_space d)"
  proof cases
    case 1
    then show ?thesis by (simp add: asn1_space_def)
  next
    case 2
    then show ?thesis by (cases p) (auto simp: asn1_space_def max_def)
  qed
  then show "asn1_space d' \<le> asn1_space d" and "ok \<Longrightarrow> p \<noteq> [] \<Longrightarrow> asn1_space d' < asn1_space d" by auto
qed

lemma asn1_write_if_space: "asn1_write_if c d v = Inr d' \<Longrightarrow> asn1_space d' \<le> asn1_space d"
  by (auto simp: asn1_write_if_def asn1_write_uint8_def chk_eq_Inr split: if_split_asm dest: asn1_write_space(1))

lemma asn1_write_arc_space:
  assumes "asn1_write_arc d v = Inr (True, d')"
  shows "asn1_space d' < asn1_space d"
proof -
  from assms obtain d1 d2 d3 d4 where
    "asn1_space d1 \<le> asn1_space d" "asn1_space d2 \<le> asn1_space d1"
    "asn1_space d3 \<le> asn1_space d2" "asn1_space d4 \<le> asn1_space d3"
    "asn1_write_uint8 d4 (ucast (v AND 0x7f)) = Inr (True, d')"
    unfolding asn1_write_arc_def chk_eq_Inr by (blast dest: asn1_write_if_space)
  moreover from this have "asn1_space d' < asn1_space d4"
    unfolding asn1_write_uint8_def by (blast dest: asn1_write_space(2))
  ultimately show ?thesis by linarith
qed

function asn1_write_OID_loop :: "asn1_data \<Rightarrow> bytes \<Rightarrow> bool asn1_res" where
  "asn1_write_OID_loop d p =
     (if p = [] then asn1_pop_tag d
      else case strtol p of (v, newp) \<Rightarrow>
        chk (asn1_write_arc d (word_of_int v)) (\<lambda>(ok, d').
          if \<not> ok then Inr (False, d') else asn1_write_OID_loop d' newp))"
  by pat_completeness auto
termination
proof (relation "measure (\<lambda>(d, p). asn1_space d)")
  fix d d' :: asn1_data and p newp v a ok
  assume "asn1_write_arc d (word_of_int v) = Inr a" "(ok, d') = a" "\<not> \<not> ok"
  then have "asn1_write_arc d (word_of_int v) = Inr (True, d')" by auto
  then show "((d', newp), d, p) \<in> measure (\<lambda>(d, p). asn1_space d)"
    by (simp add: asn1_write_arc_space)
qed simp

declare asn1_write_OID_loop.simps [simp del]

definition asn1_write_OID :: "asn1_data \<Rightarrow> bytes \<Rightarrow> bool asn1_res" where
  "asn1_write_OID d OID =
     chk (asn1_push_tag d ASN1_OID) (\<lambda>(ok, d). if \<not> ok then Inr (False, d) else
     let (v, p) = strtol OID; (v2, p) = strtol p
     in chk (asn1_write_uint8 d (word_of_int (40 * v + v2))) (\<lambda>(ok, d).
          if \<not> ok then Inr (False, d) else asn1_write_OID_loop d p))"

text \<open>
  The inner \<open>do ... while\<close> of \<open>asn1_read_OID\<close>: a failed read leaves \<open>b\<close> as it was. The
  result is the arc and the last value of \<open>b\<close>.
\<close>

function asn1_read_arc :: "asn1_data \<Rightarrow> u8 \<Rightarrow> u32 \<Rightarrow> (u32 \<times> u8) asn1_res" where
  "asn1_read_arc d b v =
     chk (asn1_read_uint8 d) (\<lambda>(r, d').
       case r of None \<Rightarrow> Inr ((push_bit 7 v OR ucast (b AND 0x7f), b), d')
       | Some b' \<Rightarrow>
           if \<not> asn1_has_error d' \<and> b' AND 0x80 \<noteq> 0
           then asn1_read_arc d' b' (push_bit 7 v OR ucast (b' AND 0x7f))
           else Inr ((push_bit 7 v OR ucast (b' AND 0x7f), b'), d'))"
  by pat_completeness auto
termination
proof (relation "measure (\<lambda>(d, b, v). asn1_length d - asn1_ofs d)")
  fix d d' :: asn1_data and b b' :: u8 and v :: u32 and a r
  assume "asn1_read_uint8 d = Inr a" "(r, d') = a" "r = Some b'"
  then have "asn1_read_uint8 d = Inr (Some b', d')" by auto
  then show "((d', b', push_bit 7 v OR ucast (b' AND 0x7f)), d, b, v)
    \<in> measure (\<lambda>(d, b, v). asn1_length d - asn1_ofs d)"
    using read_uint8_advances [of d b' d'] by auto
qed simp

declare asn1_read_arc.simps [simp del]

lemma asn1_read_arc_advances:
  "asn1_read_arc d b v = Inr (x, d') \<Longrightarrow>
   asn1_length d' = asn1_length d \<and>
   (\<not> asn1_has_error d' \<longrightarrow> asn1_ofs d < asn1_ofs d' \<and> asn1_ofs d' \<le> asn1_length d')"
proof (induction d b v arbitrary: x d' rule: asn1_read_arc.induct)
  case (1 d b v)
  from 1(2) obtain r d1 where rd: "asn1_read_uint8 d = Inr (r, d1)"
    by (subst (asm) asn1_read_arc.simps) (auto simp: chk_eq_Inr)
  show ?case
  proof (cases r)
    case None
    have "asn1_length d1 = asn1_length d \<and> asn1_has_error d1"
      using rd None unfolding asn1_read_uint8_def asn1_read_def asn1_peek_def
      by (clarsimp simp: chk_eq_Inr set_error_def split: if_split_asm option.split_asm)
    with 1(2) rd None show ?thesis by (subst (asm) asn1_read_arc.simps) simp
  next
    case (Some b')
    have adv: "asn1_ofs d1 = asn1_ofs d + 1 \<and> asn1_ofs d1 \<le> asn1_length d1 \<and> asn1_length d1 = asn1_length d"
      using rd Some by (intro read_uint8_advances) simp
    show ?thesis
    proof (cases "\<not> asn1_has_error d1 \<and> b' AND 0x80 \<noteq> 0")
      case True
      with 1(2) rd Some have "asn1_read_arc d1 b' (push_bit 7 v OR ucast (b' AND 0x7f)) = Inr (x, d')"
        by (subst (asm) asn1_read_arc.simps) simp
      from 1(1) [OF rd refl Some True this] adv show ?thesis by auto
    next
      case False
      with 1(2) rd Some have "d' = d1" by (subst (asm) asn1_read_arc.simps) (auto split: if_split_asm)
      with adv show ?thesis by auto
    qed
  qed
qed

function asn1_read_OID_loop :: "asn1_data \<Rightarrow> u8 \<Rightarrow> bytes \<Rightarrow> bytes asn1_res" where
  "asn1_read_OID_loop d b oid =
     (if asn1_has_error d then Inr (oid, d)
      else case asn1_tag_remaining d of (r, d1) \<Rightarrow>
        if r > 0
        then chk (asn1_read_arc d1 b 0) (\<lambda>(vb, d2).
               asn1_read_OID_loop d2 (snd vb) (oid @ [0x20] @ print_u (unat (fst vb))))
        else Inr (oid, d1))"
  by pat_completeness auto
termination
proof (relation "measure (\<lambda>(d, b, oid). if asn1_has_error d then 0 else Suc (asn1_length d - asn1_ofs d))")
  fix d d1 d2 :: asn1_data and b :: u8 and oid :: bytes and r a vb
  assume e: "\<not> asn1_has_error d" and "(r, d1) = asn1_tag_remaining d" "0 < r"
    and "asn1_read_arc d1 b 0 = Inr a" "(vb, d2) = a"
  then have "asn1_read_arc d b 0 = Inr (vb, d2)"
    using tag_remaining_pos [of d r d1] by auto
  from asn1_read_arc_advances [OF this] e
  show "((d2, snd vb, oid @ [0x20] @ print_u (unat (fst vb))), d, b, oid)
    \<in> measure (\<lambda>(d, b, oid). if asn1_has_error d then 0 else Suc (asn1_length d - asn1_ofs d))"
    by auto
qed simp

declare asn1_read_OID_loop.simps [simp del]

text \<open>\<open>junk\<close> is the uninitialised \<open>b\<close>, used when the first read fails; string allocations succeed.\<close>

definition asn1_read_OID :: "u8 \<Rightarrow> asn1_data \<Rightarrow> (bytes \<times> bool) asn1_res" where
  "asn1_read_OID junk d =
     chk (asn1_start_tag d ASN1_OID) (\<lambda>(ok, d). if \<not> ok then Inr (([], False), d) else
     chk (asn1_read_uint8 d) (\<lambda>(r, d).
       let b = (case r of None \<Rightarrow> junk | Some b \<Rightarrow> b)
       in chk (asn1_read_OID_loop d b (print_u (unat b div 40) @ [0x20] @ print_u (unat b mod 40))) (\<lambda>(oid, d).
            let (_, d) = asn1_end_tag d in Inr ((oid, \<not> asn1_has_error d), d))))"

definition asn1_check_OID :: "u8 \<Rightarrow> asn1_data \<Rightarrow> bytes \<Rightarrow> bool asn1_res" where
  "asn1_check_OID junk d OID =
     chk (asn1_read_OID junk d) (\<lambda>((id, ok), d).
       if \<not> ok then Inr (False, d) else if id \<noteq> OID then Inr (False, set_error d) else Inr (True, d))"

end
