(* ===== verification/Asn1_Safe.thy ===== *)
theory Asn1_Safe
  imports Asn1
begin

text \<open>
  The ASN.1 readers on arbitrary input. A context that was loaded from a blob is well
  formed, and every reader of \<open>Asn1\<close>, on any bytes, returns (it neither leaves the buffer nor
  loops), keeps the context well formed and never moves backwards. All but
  \<open>asn1_check_enumerated\<close> also keep a raised error flag. The interface is a pair of locales,
  closed under sequencing, and each reader is an interpretation.
\<close>

definition wf_asn1 :: "asn1_data \<Rightarrow> bool" where
  "wf_asn1 d \<longleftrightarrow>
     asn1_length d = length (asn1_buf d) \<and> asn1_ofs d \<le> asn1_length d \<and> asn1_length d < MAX_TALLOC_SIZE"

definition asn1_step :: "asn1_data \<Rightarrow> asn1_data \<Rightarrow> bool" where
  "asn1_step d d' \<longleftrightarrow> wf_asn1 d' \<and> asn1_buf d' = asn1_buf d \<and> asn1_ofs d \<le> asn1_ofs d'"

definition asn1_moves :: "bool \<Rightarrow> (asn1_data \<Rightarrow> 'a asn1_res) \<Rightarrow> bool" where
  "asn1_moves sticky rd \<longleftrightarrow>
     (\<forall>d. wf_asn1 d \<longrightarrow>
        (\<exists>r d'. rd d = Inr (r, d') \<and> asn1_step d d' \<and> (sticky \<longrightarrow> asn1_has_error d \<longrightarrow> asn1_has_error d')))"

locale asn1_reader =
  fixes rd :: "asn1_data \<Rightarrow> 'a asn1_res"
  assumes reads: "wf_asn1 d \<Longrightarrow> \<exists>r d'. rd d = Inr (r, d') \<and> asn1_step d d'"
begin

lemma no_error: "wf_asn1 d \<Longrightarrow> rd d \<noteq> Inl e"
  using reads [of d] by auto

lemma keeps: "wf_asn1 d \<Longrightarrow> rd d = Inr (r, d') \<Longrightarrow> wf_asn1 d' \<and> asn1_buf d' = asn1_buf d \<and> asn1_ofs d \<le> asn1_ofs d'"
  using reads [of d] by (auto simp: asn1_step_def)

end

locale asn1_sticky_reader = asn1_reader +
  assumes sticky: "wf_asn1 d \<Longrightarrow> rd d = Inr (r, d') \<Longrightarrow> asn1_has_error d \<Longrightarrow> asn1_has_error d'"
begin

lemma safe:
  "wf_asn1 d \<Longrightarrow> \<exists>r d'. rd d = Inr (r, d') \<and> asn1_step d d' \<and> (asn1_has_error d \<longrightarrow> asn1_has_error d')"
  using reads sticky by blast

end

section \<open>Sequencing\<close>

lemma asn1_step_refl: "wf_asn1 d \<Longrightarrow> asn1_step d d"
  by (simp add: asn1_step_def)

lemma asn1_step_trans: "asn1_step a b \<Longrightarrow> asn1_step b c \<Longrightarrow> asn1_step a c"
  by (auto simp: asn1_step_def)

lemma asn1_moves_bind:
  assumes "asn1_moves s m" and "\<And>r. asn1_moves s (k r)"
  shows "asn1_moves s (\<lambda>d. chk (m d) (\<lambda>(r, d). k r d))"
  unfolding asn1_moves_def
proof (intro allI impI)
  fix d
  assume "wf_asn1 d"
  with assms(1) obtain r d1 where m: "m d = Inr (r, d1)" "asn1_step d d1"
      "s \<longrightarrow> asn1_has_error d \<longrightarrow> asn1_has_error d1"
    unfolding asn1_moves_def by blast
  moreover from this have "wf_asn1 d1" by (simp add: asn1_step_def)
  with assms(2) [of r] obtain r2 d2 where "k r d1 = Inr (r2, d2)" "asn1_step d1 d2"
      "s \<longrightarrow> asn1_has_error d1 \<longrightarrow> asn1_has_error d2"
    unfolding asn1_moves_def by blast
  ultimately show "\<exists>r d'. chk (m d) (\<lambda>(r, d). k r d) = Inr (r, d') \<and> asn1_step d d' \<and>
      (s \<longrightarrow> asn1_has_error d \<longrightarrow> asn1_has_error d')"
    using asn1_step_trans by auto
qed

lemma asn1_moves_let:
  assumes "asn1_moves s (\<lambda>d. Inr (f d))" and "\<And>r. asn1_moves s (k r)"
  shows "asn1_moves s (\<lambda>d. case f d of (r, d) \<Rightarrow> k r d)"
  using asn1_moves_bind [OF assms] by simp

lemma asn1_moves_return: "asn1_moves s (\<lambda>d. Inr (f d, d))"
  by (simp add: asn1_moves_def asn1_step_refl)

lemma asn1_moves_error: "asn1_moves s (\<lambda>d. Inr (f d, set_error d))"
  by (simp add: asn1_moves_def asn1_step_def set_error_def wf_asn1_def)

lemma asn1_moves_if: "(\<And>d. b d \<Longrightarrow> asn1_moves s m) \<Longrightarrow> (\<And>d. \<not> b d \<Longrightarrow> asn1_moves s n) \<Longrightarrow>
  asn1_moves s (\<lambda>d. if b d then m d else n d)"
  by (auto simp: asn1_moves_def)

lemma asn1_moves_option:
  "asn1_moves s n \<Longrightarrow> (\<And>v. asn1_moves s (m v)) \<Longrightarrow>
   asn1_moves s (\<lambda>d. case r of None \<Rightarrow> n d | Some v \<Rightarrow> m v d)"
  by (cases r) auto

lemmas asn1_moves_intros =
  asn1_moves_bind asn1_moves_let asn1_moves_return asn1_moves_error asn1_moves_if asn1_moves_option

lemma asn1_moves_reader: "asn1_moves s rd \<Longrightarrow> asn1_reader rd"
  by unfold_locales (auto simp: asn1_moves_def)

lemma asn1_moves_sticky: "asn1_moves True rd \<Longrightarrow> asn1_sticky_reader rd"
  by unfold_locales (fastforce simp: asn1_moves_def)+

section \<open>The primitives\<close>

lemma wf_asn1_load: "length blob < MAX_TALLOC_SIZE \<Longrightarrow> \<exists>d. asn1_load blob = (True, d) \<and> wf_asn1 d \<and>
    asn1_buf d = blob \<and> asn1_ofs d = 0 \<and> \<not> asn1_has_error d \<and> asn1_nesting d = []"
  by (simp add: asn1_load_def wf_asn1_def asn1_empty_def)

lemma asn1_peek_moves: "asn1_moves s (\<lambda>d. asn1_peek d n)"
  by (auto simp: asn1_moves_def asn1_peek_def asn1_step_def wf_asn1_def get_bytes_def)

lemma asn1_peek_Some:
  assumes "asn1_peek d n = Inr (Some p, d')"
  shows "d' = d \<and> 0 \<le> n \<and> asn1_ofs d + nat n \<le> asn1_length d"
  using assms by (auto simp: asn1_peek_def chk_eq_Inr split: if_split_asm)

lemma asn1_read_moves: "asn1_moves s (\<lambda>d. asn1_read d n)"
  unfolding asn1_moves_def
proof (intro allI impI)
  fix d
  assume wf: "wf_asn1 d"
  then obtain r d1 where p: "asn1_peek d n = Inr (r, d1)" "asn1_step d d1"
      "asn1_has_error d \<longrightarrow> asn1_has_error d1"
    using asn1_peek_moves [of True n] unfolding asn1_moves_def by blast
  show "\<exists>r d'. asn1_read d n = Inr (r, d') \<and> asn1_step d d' \<and> (s \<longrightarrow> asn1_has_error d \<longrightarrow> asn1_has_error d')"
  proof (cases r)
    case None
    with p show ?thesis by (auto simp: asn1_read_def asn1_step_def set_error_def wf_asn1_def)
  next
    case (Some x)
    with p have "d1 = d \<and> 0 \<le> n \<and> asn1_ofs d + nat n \<le> asn1_length d"
      by (intro asn1_peek_Some [of d n x d1]) simp
    with p Some wf show ?thesis by (auto simp: asn1_read_def asn1_step_def wf_asn1_def)
  qed
qed

lemma asn1_read_uint8_moves: "asn1_moves s asn1_read_uint8"
  unfolding asn1_read_uint8_def by (rule asn1_moves_bind asn1_read_moves asn1_moves_return)+

lemma asn1_peek_uint8_moves: "asn1_moves s asn1_peek_uint8"
  unfolding asn1_peek_uint8_def by (rule asn1_moves_bind asn1_peek_moves asn1_moves_return)+

text \<open>
  The sign conversions of \<open>asn1_tag_remaining\<close>: a remaining length that is negative as an
  \<open>int\<close> is a huge \<open>size_t\<close>, so the comparison rejects it.
\<close>

lemma uint_scast_u64: "uint (scast (w :: u32) :: u64) = sint w mod 2 ^ 64"
  by (subst scast_eq, subst uint_word_of_int) simp

lemma scast_le_small:
  assumes "(scast (w :: u32) :: u64) \<le> word_of_nat n" and "n < 2 ^ 63"
  shows "0 \<le> sint w \<and> sint w \<le> int n"
proof -
  have n: "uint (word_of_nat n :: u64) = int n"
    using assms(2) by (simp add: unsigned_of_nat take_bit_nat_eq_self_iff)
  have le: "sint w mod 2 ^ 64 \<le> int n"
    using assms(1) by (simp add: word_le_def uint_scast_u64 n)
  have lo: "- (2 ^ 31) \<le> sint w" using sint_ge [of w] by simp
  have hi: "sint w < 2 ^ 31" using sint_lt [of w] by simp
  show ?thesis
  proof (cases "0 \<le> sint w")
    case True
    with le hi show ?thesis by (simp add: mod_pos_pos_trivial)
  next
    case False
    then have "sint w mod 2 ^ 64 = sint w + 2 ^ 64"
      using lo mod_pos_pos_trivial [of "sint w + 2 ^ 64" "2 ^ 64"] by simp
    with le lo assms(2) show ?thesis by simp
  qed
qed

lemma tag_remaining_wf:
  assumes "wf_asn1 d" and "asn1_tag_remaining d = (r, d')"
  shows "r = - 1 \<and> d' = set_error d \<or> 0 \<le> r \<and> r \<le> int (asn1_length d - asn1_ofs d) \<and> d' = d \<and> \<not> asn1_has_error d"
proof -
  have small: "asn1_length d - asn1_ofs d < 2 ^ 63"
    using assms(1) by (auto simp: wf_asn1_def MAX_TALLOC_SIZE_def)
  have diff: "(word_of_nat (asn1_length d) - word_of_nat (asn1_ofs d) :: u64) = word_of_nat (asn1_length d - asn1_ofs d)"
    using assms(1) by (simp add: wf_asn1_def)
  show ?thesis
    using assms(2) scast_le_small [OF _ small]
    by (cases "asn1_has_error d")
      (auto simp: asn1_tag_remaining_def Let_def diff set_error_def not_less split: list.split_asm if_split_asm)
qed

lemma asn1_tag_remaining_moves: "asn1_moves s (\<lambda>d. Inr (asn1_tag_remaining d))"
  unfolding asn1_moves_def
proof (intro allI impI)
  fix d
  assume wf: "wf_asn1 d"
  obtain r d' where r: "asn1_tag_remaining d = (r, d')" by force
  from tag_remaining_wf [OF wf r] wf r
  show "\<exists>r d'. Inr (asn1_tag_remaining d) = Inr (r, d') \<and> asn1_step d d' \<and> (s \<longrightarrow> asn1_has_error d \<longrightarrow> asn1_has_error d')"
    by (auto simp: asn1_step_def set_error_def wf_asn1_def)
qed

section \<open>Tags\<close>

lemma asn1_peek_tag_moves: "asn1_moves s (\<lambda>d. asn1_peek_tag d tag)"
  unfolding asn1_peek_tag_def Let_def
  by (rule asn1_moves_intros asn1_tag_remaining_moves asn1_peek_moves)+

lemma asn1_taglen_loop_moves: "asn1_moves s (\<lambda>d. asn1_taglen_loop n d t)"
proof (induction n arbitrary: t)
  case 0
  show ?case by (simp add: asn1_moves_return)
next
  case (Suc n)
  show ?case
    unfolding asn1_taglen_loop.simps by (rule asn1_moves_intros asn1_read_uint8_moves Suc)+
qed

lemma asn1_moves_nest:
  assumes "asn1_moves s m"
  shows "asn1_moves s (\<lambda>d. m (d\<lparr>asn1_nesting := f d\<rparr>))"
  unfolding asn1_moves_def
proof (intro allI impI)
  fix d
  assume "wf_asn1 d"
  then have "wf_asn1 (d\<lparr>asn1_nesting := f d\<rparr>)" by (simp add: wf_asn1_def)
  with assms show "\<exists>r d'. m (d\<lparr>asn1_nesting := f d\<rparr>) = Inr (r, d') \<and> asn1_step d d' \<and>
      (s \<longrightarrow> asn1_has_error d \<longrightarrow> asn1_has_error d')"
    unfolding asn1_moves_def by (fastforce simp: asn1_step_def)
qed

lemma asn1_open_tag_moves:
  "asn1_moves s (\<lambda>d. let d = d\<lparr>asn1_nesting := f d\<rparr>; (rem, d) = asn1_tag_remaining d
                     in if rem = -1 then Inr (False, d) else Inr (\<not> asn1_has_error d, d))"
  unfolding Let_def
  by (rule asn1_moves_nest asn1_moves_intros asn1_tag_remaining_moves)+

lemma asn1_start_tag_moves: "asn1_moves s (\<lambda>d. asn1_start_tag d tag)"
  unfolding asn1_start_tag_def
  by (rule asn1_open_tag_moves asn1_moves_intros asn1_read_uint8_moves asn1_taglen_loop_moves)+

lemma asn1_end_tag_moves: "asn1_moves s (\<lambda>d. Inr (asn1_end_tag d))"
  unfolding asn1_moves_def
proof (intro allI impI)
  fix d
  assume wf: "wf_asn1 d"
  obtain r d' where r: "asn1_tag_remaining d = (r, d')" by force
  from tag_remaining_wf [OF wf r] wf r
  show "\<exists>r d'. Inr (asn1_end_tag d) = Inr (r, d') \<and> asn1_step d d' \<and> (s \<longrightarrow> asn1_has_error d \<longrightarrow> asn1_has_error d')"
    by (auto simp: asn1_end_tag_def asn1_step_def set_error_def wf_asn1_def split: list.split)
qed

section \<open>Values\<close>

lemmas asn1_moves_rules =
  asn1_moves_intros asn1_tag_remaining_moves asn1_peek_moves asn1_read_moves asn1_read_uint8_moves
  asn1_start_tag_moves asn1_end_tag_moves

lemma asn1_read_BOOLEAN_moves: "asn1_moves s asn1_read_BOOLEAN"
  unfolding asn1_read_BOOLEAN_def Let_def by (rule asn1_moves_rules)+

lemma asn1_check_BOOLEAN_moves: "asn1_moves s (\<lambda>d. asn1_check_BOOLEAN d v)"
  unfolding asn1_check_BOOLEAN_def Let_def by (rule asn1_moves_rules)+

lemma asn1_read_LDAPString_moves: "asn1_moves s asn1_read_LDAPString"
  unfolding asn1_read_LDAPString_def Let_def by (rule asn1_moves_rules)+

lemma asn1_read_OctetString_moves: "asn1_moves s asn1_read_OctetString"
  unfolding asn1_read_OctetString_def Let_def by (rule asn1_moves_rules)+

lemma asn1_read_ContextSimple_moves: "asn1_moves s (\<lambda>d. asn1_read_ContextSimple d num)"
  unfolding asn1_read_ContextSimple_def Let_def by (rule asn1_moves_rules)+

lemma asn1_moves_pair:
  "(\<And>a b. asn1_moves s (k a b)) \<Longrightarrow> asn1_moves s (case x of (a, b) \<Rightarrow> k a b)"
  by (cases x) auto

lemma asn1_read_GeneralString_moves: "asn1_moves s asn1_read_GeneralString"
  unfolding asn1_read_GeneralString_def Let_def
  by (rule asn1_moves_rules asn1_moves_pair asn1_read_LDAPString_moves)+

lemma asn1_moves_wf:
  "asn1_moves s m \<Longrightarrow> wf_asn1 d \<Longrightarrow> m d = Inr (r, d') \<Longrightarrow> wf_asn1 d'"
  by (fastforce simp: asn1_moves_def asn1_step_def)

text \<open>The loops: an induction over the bytes left.\<close>

lemma asn1_int_loop_moves: "asn1_moves s (\<lambda>d. asn1_int_loop d i)"
proof -
  have "wf_asn1 d \<Longrightarrow> \<exists>r d'. asn1_int_loop d i = Inr (r, d') \<and> asn1_step d d' \<and> (s \<longrightarrow> asn1_has_error d \<longrightarrow> asn1_has_error d')" for d i
  proof (induction d i rule: asn1_int_loop.induct)
    case (1 d i)
    obtain r d1 where r: "asn1_tag_remaining d = (r, d1)" by force
    consider "asn1_has_error d" | "\<not> asn1_has_error d" "r \<le> 0" | "\<not> asn1_has_error d" "0 < r" by force
    then show ?case
    proof cases
      case 1
      with \<open>wf_asn1 d\<close> show ?thesis by (subst asn1_int_loop.simps) (auto simp: asn1_step_refl)
    next
      case 2
      with tag_remaining_wf [OF \<open>wf_asn1 d\<close> r] r \<open>wf_asn1 d\<close> show ?thesis
        by (subst asn1_int_loop.simps) (auto simp: asn1_step_def set_error_def wf_asn1_def)
    next
      case 3
      then have d1: "d1 = d" using tag_remaining_pos [OF r] by simp
      obtain ob d2 where u: "asn1_read_uint8 d = Inr (ob, d2)" "asn1_step d d2"
        using asn1_read_uint8_moves [of s] \<open>wf_asn1 d\<close> unfolding asn1_moves_def by blast
      show ?thesis
      proof (cases ob)
        case None
        with 3 r u show ?thesis by (subst asn1_int_loop.simps) (auto simp: d1)
      next
        case (Some b)
        from u have "wf_asn1 d2" by (simp add: asn1_step_def)
        with 1(1) [OF 3(1) r [symmetric] 3(2), of "(ob, d2)" ob d2 b] u Some d1
        obtain r' d' where "asn1_int_loop d2 (push_bit 8 i + ucast b) = Inr (r', d')" "asn1_step d2 d'"
          by auto
        with 3 r u Some show ?thesis
          by (subst asn1_int_loop.simps) (auto simp: d1 intro: asn1_step_trans)
      qed
    qed
  qed
  then show ?thesis by (simp add: asn1_moves_def)
qed

lemma asn1_read_arc_moves: "asn1_moves s (\<lambda>d. asn1_read_arc d b v)"
proof -
  have "wf_asn1 d \<Longrightarrow> \<exists>r d'. asn1_read_arc d b v = Inr (r, d') \<and> asn1_step d d' \<and> (s \<longrightarrow> asn1_has_error d \<longrightarrow> asn1_has_error d')" for d b v
  proof (induction d b v rule: asn1_read_arc.induct)
    case (1 d b v)
    obtain r d1 where u: "asn1_read_uint8 d = Inr (r, d1)" "asn1_step d d1" "asn1_has_error d \<longrightarrow> asn1_has_error d1"
      using asn1_read_uint8_moves [of True] \<open>wf_asn1 d\<close> unfolding asn1_moves_def by blast
    show ?case
    proof (cases "\<exists>b'. r = Some b' \<and> \<not> asn1_has_error d1 \<and> b' AND 0x80 \<noteq> 0")
      case True
      then obtain b' where b': "r = Some b'" "\<not> asn1_has_error d1 \<and> b' AND 0x80 \<noteq> 0" by blast
      from u have "wf_asn1 d1" by (simp add: asn1_step_def)
      from 1(1) [OF u(1) refl b' this] obtain r' d' where
        "asn1_read_arc d1 b' (push_bit 7 v OR ucast (b' AND 0x7f)) = Inr (r', d')" "asn1_step d1 d'" by blast
      with u b' show ?thesis
        by (subst asn1_read_arc.simps) (auto intro: asn1_step_trans)
    next
      case False
      with u show ?thesis by (subst asn1_read_arc.simps) (auto split: option.split)
    qed
  qed
  then show ?thesis by (simp add: asn1_moves_def)
qed

lemma asn1_read_OID_loop_moves: "asn1_moves s (\<lambda>d. asn1_read_OID_loop d b oid)"
proof -
  have "wf_asn1 d \<Longrightarrow> \<exists>r d'. asn1_read_OID_loop d b oid = Inr (r, d') \<and> asn1_step d d' \<and> (s \<longrightarrow> asn1_has_error d \<longrightarrow> asn1_has_error d')" for d b oid
  proof (induction d b oid rule: asn1_read_OID_loop.induct)
    case (1 d b oid)
    obtain r d1 where r: "asn1_tag_remaining d = (r, d1)" by force
    consider "asn1_has_error d" | "\<not> asn1_has_error d" "r \<le> 0" | "\<not> asn1_has_error d" "0 < r" by force
    then show ?case
    proof cases
      case 1
      with \<open>wf_asn1 d\<close> show ?thesis by (subst asn1_read_OID_loop.simps) (auto simp: asn1_step_refl)
    next
      case 2
      with tag_remaining_wf [OF \<open>wf_asn1 d\<close> r] r \<open>wf_asn1 d\<close> show ?thesis
        by (subst asn1_read_OID_loop.simps) (auto simp: asn1_step_def set_error_def wf_asn1_def)
    next
      case 3
      then have d1: "d1 = d" using tag_remaining_pos [OF r] by simp
      obtain vb d2 where u: "asn1_read_arc d b 0 = Inr (vb, d2)" "asn1_step d d2"
        using asn1_read_arc_moves [of s] \<open>wf_asn1 d\<close> unfolding asn1_moves_def by blast
      then have "wf_asn1 d2" by (simp add: asn1_step_def)
      with 1(1) [OF 3(1) r [symmetric] 3(2), of "(vb, d2)" vb d2] u d1
      obtain r' d' where "asn1_read_OID_loop d2 (snd vb) (oid @ [0x20] @ print_u (unat (fst vb))) = Inr (r', d')"
        "asn1_step d2 d'" by auto
      with 3 r u show ?thesis
        by (subst asn1_read_OID_loop.simps) (auto simp: d1 intro: asn1_step_trans)
    qed
  qed
  then show ?thesis by (simp add: asn1_moves_def)
qed

lemma asn1_read_implicit_Integer_moves: "asn1_moves s asn1_read_implicit_Integer"
  unfolding asn1_read_implicit_Integer_def
  by (rule asn1_moves_rules asn1_moves_pair asn1_int_loop_moves)+

lemma asn1_read_Integer_moves: "asn1_moves s asn1_read_Integer"
  unfolding asn1_read_Integer_def Let_def
  by (rule asn1_moves_rules asn1_moves_pair asn1_read_implicit_Integer_moves)+

lemma asn1_read_enumerated_moves: "asn1_moves s asn1_read_enumerated"
  unfolding asn1_read_enumerated_def Let_def
  by (rule asn1_moves_rules asn1_moves_pair asn1_int_loop_moves)+

lemma asn1_read_OID_moves: "asn1_moves s (asn1_read_OID junk)"
  unfolding asn1_read_OID_def Let_def
  by (rule asn1_moves_rules asn1_moves_pair asn1_read_OID_loop_moves)+

lemma asn1_check_OID_moves: "asn1_moves s (\<lambda>d. asn1_check_OID junk d OID)"
  unfolding asn1_check_OID_def
  by (rule asn1_moves_rules asn1_moves_pair asn1_read_OID_moves)+

lemma asn1_moves_clear: "asn1_moves False (\<lambda>d. Inr (f (g d), g d))" if "\<And>d. g d = d \<or> g d = d\<lparr>asn1_has_error := False\<rparr>"
  unfolding asn1_moves_def
proof (intro allI impI)
  fix d
  assume "wf_asn1 d"
  with that [of d] show "\<exists>r d'. Inr (f (g d), g d) = Inr (r, d') \<and> asn1_step d d' \<and> (False \<longrightarrow> asn1_has_error d \<longrightarrow> asn1_has_error d')"
    by (auto simp: asn1_step_def wf_asn1_def)
qed

lemma asn1_check_enumerated_moves: "asn1_moves False (\<lambda>d. asn1_check_enumerated junk d v)"
  unfolding asn1_check_enumerated_def Let_def
  by (rule asn1_moves_bind asn1_moves_if asn1_moves_return asn1_moves_let asn1_start_tag_moves
      asn1_read_uint8_moves asn1_end_tag_moves asn1_moves_clear | simp)+

section \<open>The readers as instances of the interface\<close>

interpretation rd_peek: asn1_sticky_reader "\<lambda>d. asn1_peek d n" for n
  by (rule asn1_moves_sticky) (rule asn1_peek_moves)

interpretation rd_read: asn1_sticky_reader "\<lambda>d. asn1_read d n" for n
  by (rule asn1_moves_sticky) (rule asn1_read_moves)

interpretation rd_start_tag: asn1_sticky_reader "\<lambda>d. asn1_start_tag d tag" for tag
  by (rule asn1_moves_sticky) (rule asn1_start_tag_moves)

interpretation rd_BOOLEAN: asn1_sticky_reader asn1_read_BOOLEAN
  by (rule asn1_moves_sticky) (rule asn1_read_BOOLEAN_moves)

interpretation rd_OctetString: asn1_sticky_reader asn1_read_OctetString
  by (rule asn1_moves_sticky) (rule asn1_read_OctetString_moves)

interpretation rd_GeneralString: asn1_sticky_reader asn1_read_GeneralString
  by (rule asn1_moves_sticky) (rule asn1_read_GeneralString_moves)

interpretation rd_ContextSimple: asn1_sticky_reader "\<lambda>d. asn1_read_ContextSimple d num" for num
  by (rule asn1_moves_sticky) (rule asn1_read_ContextSimple_moves)

interpretation rd_Integer: asn1_sticky_reader asn1_read_Integer
  by (rule asn1_moves_sticky) (rule asn1_read_Integer_moves)

interpretation rd_enumerated: asn1_sticky_reader asn1_read_enumerated
  by (rule asn1_moves_sticky) (rule asn1_read_enumerated_moves)

interpretation rd_OID: asn1_sticky_reader "asn1_read_OID junk" for junk
  by (rule asn1_moves_sticky) (rule asn1_read_OID_moves)

interpretation rd_check_OID: asn1_sticky_reader "\<lambda>d. asn1_check_OID junk d OID" for junk OID
  by (rule asn1_moves_sticky) (rule asn1_check_OID_moves)

interpretation rd_check_enumerated: asn1_reader "\<lambda>d. asn1_check_enumerated junk d v" for junk v
  by (rule asn1_moves_reader) (rule asn1_check_enumerated_moves)

end
