(* ===== verification/Asn1_Codec.thy ===== *)
theory Asn1_Codec
  imports Asn1_Safe
begin

text \<open>
  What the ASN.1 writers write and that the readers read it back. \<open>tlv\<close> is the BER
  tag-length-value form the writers are to produce; \<open>asn1_codec\<close> is the contract between a
  writer and the reader of the same type, closed under wrapping in a tag (so it covers the
  nested structures of SPNEGO and LDAP) and under sequences of values.
\<close>

section \<open>The encoding\<close>

definition der_len :: "nat \<Rightarrow> bytes" where
  "der_len n =
     (if n > 0xFFFF then [0x83, word_of_nat (n div 65536), word_of_nat (n div 256), word_of_nat n]
      else if n > 255 then [0x82, word_of_nat (n div 256), word_of_nat n]
      else if n > 127 then [0x81, word_of_nat n]
      else [word_of_nat n])"

definition tlv :: "u8 \<Rightarrow> bytes \<Rightarrow> bytes" where
  "tlv tag p = tag # der_len (length p) @ p"

lemma length_tlv: "2 + length p \<le> length (tlv tag p)"
  by (simp add: tlv_def der_len_def)

lemma length_tlv_le: "length (tlv tag p) \<le> length p + 5"
  by (simp add: tlv_def der_len_def)

lemma length_tlv_list: "length (concat (map (tlv tag) ps)) \<le> sum_list (map length ps) + 5 * length ps"
proof (induction ps)
  case (Cons p ps)
  with length_tlv_le [of tag p] show ?case by simp
qed simp

lemma length_tlv_byte: "length (concat (map (\<lambda>v. tlv tag [f v]) vs)) = 3 * length vs"
  by (induction vs) (simp_all add: tlv_def der_len_def)

section \<open>Writing appends\<close>

definition wr_asn1 :: "asn1_data \<Rightarrow> bool" where
  "wr_asn1 d \<longleftrightarrow> \<not> asn1_has_error d \<and> asn1_length d = length (asn1_buf d) \<and> asn1_ofs d = length (asn1_buf d)"

definition asn1_out :: "asn1_data \<Rightarrow> bytes \<Rightarrow> asn1_data" where
  "asn1_out d bs = d\<lparr>asn1_buf := asn1_buf d @ bs, asn1_length := length (asn1_buf d @ bs),
                    asn1_ofs := length (asn1_buf d @ bs)\<rparr>"

definition asn1_fits :: "asn1_data \<Rightarrow> nat \<Rightarrow> bool" where
  "asn1_fits d n \<longleftrightarrow> length (asn1_buf d) + n < MAX_TALLOC_SIZE"

lemma asn1_out_fields [simp]:
  "asn1_buf (asn1_out d bs) = asn1_buf d @ bs"
  "asn1_length (asn1_out d bs) = length (asn1_buf d) + length bs"
  "asn1_ofs (asn1_out d bs) = length (asn1_buf d) + length bs"
  "asn1_nesting (asn1_out d bs) = asn1_nesting d"
  "asn1_has_error (asn1_out d bs) = asn1_has_error d"
  by (simp_all add: asn1_out_def)

lemma asn1_out_out: "asn1_out (asn1_out d a) b = asn1_out d (a @ b)"
  by (simp add: asn1_out_def)

lemma wr_asn1_out [simp]: "wr_asn1 d \<Longrightarrow> wr_asn1 (asn1_out d bs)"
  by (simp add: wr_asn1_def)

lemma wr_asn1_empty [simp]: "wr_asn1 asn1_empty"
  by (simp add: wr_asn1_def asn1_empty_def)

lemma asn1_write_out:
  assumes "wr_asn1 d" and "asn1_fits d (length p)"
  shows "asn1_write d p = Inr (True, asn1_out d p)"
proof (cases p)
  case Nil
  with assms show ?thesis
    by (cases d) (simp add: asn1_write_def wr_asn1_def asn1_out_def put_bytes_def Let_def)
next
  case (Cons a as)
  with assms show ?thesis
    by (simp add: asn1_write_def wr_asn1_def asn1_out_def put_bytes_def asn1_fits_def)
qed

lemma asn1_write_uint8_out:
  "wr_asn1 d \<Longrightarrow> asn1_fits d 1 \<Longrightarrow> asn1_write_uint8 d v = Inr (True, asn1_out d [v])"
  by (simp add: asn1_write_uint8_def asn1_write_out)

section \<open>Tags\<close>

text \<open>The context after \<open>asn1_push_tag\<close>: the tag, a placeholder for the length, one more level.\<close>

definition asn1_opened :: "asn1_data \<Rightarrow> u8 \<Rightarrow> asn1_data" where
  "asn1_opened d tag = (asn1_out d [tag, 0xff])
     \<lparr>asn1_nesting := \<lparr>nest_start = length (asn1_buf d) + 1, nest_taglen = 0\<rparr> # asn1_nesting d\<rparr>"

lemma asn1_opened_fields [simp]:
  "asn1_buf (asn1_opened d tag) = asn1_buf d @ [tag, 0xff]"
  "asn1_nesting (asn1_opened d tag) = \<lparr>nest_start = length (asn1_buf d) + 1, nest_taglen = 0\<rparr> # asn1_nesting d"
  "asn1_has_error (asn1_opened d tag) = asn1_has_error d"
  by (simp_all add: asn1_opened_def)

lemma wr_asn1_opened [simp]: "wr_asn1 d \<Longrightarrow> wr_asn1 (asn1_opened d tag)"
  by (simp add: wr_asn1_def asn1_opened_def)

lemma asn1_push_tag_out:
  assumes "wr_asn1 d" and "asn1_fits d 2"
  shows "asn1_push_tag d tag = Inr (True, asn1_opened d tag)"
proof -
  let ?d = "(asn1_out d [tag])\<lparr>asn1_nesting :=
    \<lparr>nest_start = length (asn1_buf d) + 1, nest_taglen = 0\<rparr> # asn1_nesting d\<rparr>"
  from assms have "asn1_write_uint8 d tag = Inr (True, asn1_out d [tag])"
    by (intro asn1_write_uint8_out) (auto simp: asn1_fits_def)
  moreover from assms have "asn1_write_uint8 ?d 0xff = Inr (True, asn1_out ?d [0xff])"
    by (intro asn1_write_uint8_out) (auto simp: asn1_fits_def wr_asn1_def)
  moreover have "asn1_out ?d [0xff] = asn1_opened d tag"
    by (cases d) (simp add: asn1_opened_def asn1_out_def)
  ultimately show ?thesis by (simp add: asn1_push_tag_def)
qed

text \<open>The writing context of \<open>d\<close> at nesting \<open>ns\<close> with the buffer \<open>b\<close>.\<close>

definition asn1_frame :: "asn1_data \<Rightarrow> nesting list \<Rightarrow> bytes \<Rightarrow> asn1_data" where
  "asn1_frame d ns b = d\<lparr>asn1_buf := b, asn1_length := length b, asn1_ofs := length b, asn1_nesting := ns\<rparr>"

lemma asn1_grow_frame:
  assumes "\<not> asn1_has_error d" and "length b + 1 < MAX_TALLOC_SIZE"
  shows "asn1_grow (asn1_frame d ns b) k = k (asn1_frame d ns (b @ [0]))"
proof -
  have "wr_asn1 (asn1_frame d ns b)" "asn1_fits (asn1_frame d ns b) 1"
    using assms by (simp_all add: wr_asn1_def asn1_frame_def asn1_fits_def)
  then have "asn1_write_uint8 (asn1_frame d ns b) 0 = Inr (True, asn1_out (asn1_frame d ns b) [0])"
    by (rule asn1_write_uint8_out)
  moreover have "asn1_out (asn1_frame d ns b) [0] = asn1_frame d ns (b @ [0])"
    by (simp add: asn1_out_def asn1_frame_def)
  ultimately show ?thesis by (simp add: asn1_grow_def)
qed

lemma asn1_poke_frame:
  "i = length a \<Longrightarrow> asn1_poke (asn1_frame d ns (a @ x # b)) i v = Inr (asn1_frame d ns (a @ v # b))"
  by (simp add: asn1_poke_def put_bytes_def asn1_frame_def)

text \<open>The \<open>memmove\<close> of \<open>asn1_pop_tag\<close>: the content moves up over the bytes just appended.\<close>

lemma asn1_move_frame:
  assumes "src = length a" and "length z = k" and "dst = length a + k" and "n = length p"
  shows "asn1_move (asn1_frame d ns (a @ p @ z)) dst src n =
    Inr (asn1_frame d ns (a @ take k (p @ z) @ p))"
  using assms by (auto simp: asn1_move_def get_bytes_def put_bytes_def asn1_frame_def)

lemma split_short:
  "length q = 3 \<Longrightarrow> \<exists>x y z. q = [x, y, z]" "length q = 2 \<Longrightarrow> \<exists>x y. q = [x, y]" "length q = 1 \<Longrightarrow> \<exists>x. q = [x]"
  by (auto simp: length_Suc_conv numeral_2_eq_2 numeral_3_eq_3)

lemma asn1_pop_tag_frame:
  assumes err: "\<not> asn1_has_error d" and n: "nest_start n = length a"
    and fits: "length a + length (der_len (length p) @ p) < MAX_TALLOC_SIZE"
  shows "asn1_pop_tag (asn1_frame d (n # ns) (a @ 0xff # p)) = Inr (True, asn1_frame d ns (a @ der_len (length p) @ p))"
proof -
  let ?f = "asn1_frame d (n # ns)" and ?l = "length p"
  have small: "?l < 2 ^ 28" using fits by (simp add: MAX_TALLOC_SIZE_def)
  have len: "unat (word_of_nat (asn1_ofs (?f (a @ 0xff # p))) - (word_of_nat (length a) + 1) :: u64) = ?l"
    using small by (simp add: asn1_frame_def n unsigned_of_nat take_bit_nat_eq_self_iff)
  have nest: "asn1_nesting (?f b) = n # ns" "(?f b)\<lparr>asn1_nesting := ns\<rparr> = asn1_frame d ns b" for b
    by (simp_all add: asn1_frame_def)
  have "length (take 3 (p @ [0, 0, 0])) = 3" "length (take 2 (p @ [0, 0])) = 2" "length (take 1 (p @ [0])) = 1"
    by simp_all
  then obtain x y z x2 y2 x1 where q: "take 3 (p @ [0, 0, 0]) = [x, y, z]"
    "take 2 (p @ [0, 0]) = [x2, y2]" "take 1 (p @ [0]) = [x1]"
    using split_short by metis
  note poke = asn1_poke_frame [of "length a" a d "n # ns" "0xff" p]
    asn1_poke_frame [of "length a + 1" "a @ [h]" d "n # ns" for h]
    asn1_poke_frame [of "length a + 2" "a @ [h, h2]" d "n # ns" for h h2]
    asn1_poke_frame [of "length a + 3" "a @ [h, h2, h3]" d "n # ns" for h h2 h3]
  consider "?l > 0xFFFF" | "?l \<le> 0xFFFF" "?l > 255" | "?l \<le> 255" "?l > 127" | "?l \<le> 127" by linarith
  then show ?thesis
  proof cases
    case 1
    have mv: "asn1_move (?f (a @ 0x83 # p @ [0, 0, 0])) (length a + 4) (length a + 1) ?l =
      Inr (?f (a @ 0x83 # x # y # z # p))"
      using asn1_move_frame [of "length a + 1" "a @ [0x83]" "[0, 0, 0]" 3 _ ?l p d "n # ns"] unfolding q(1) by (simp add: add.commute)
    from 1 fits err mv poke show ?thesis
      by (simp add: asn1_pop_tag_def nest len Let_def n asn1_grow_frame der_len_def)
  next
    case 2
    have mv: "asn1_move (?f (a @ 0x82 # p @ [0, 0])) (length a + 3) (length a + 1) ?l =
      Inr (?f (a @ 0x82 # x2 # y2 # p))"
      using asn1_move_frame [of "length a + 1" "a @ [0x82]" "[0, 0]" 2 _ ?l p d "n # ns"] unfolding q(2) by (simp add: numeral_3_eq_3)
    from 2 fits err mv poke show ?thesis
      by (simp add: asn1_pop_tag_def nest len Let_def n asn1_grow_frame der_len_def)
  next
    case 3
    have mv: "asn1_move (?f (a @ 0x81 # p @ [0])) (length a + 2) (length a + 1) ?l =
      Inr (?f (a @ 0x81 # x1 # p))"
      using asn1_move_frame [of "length a + 1" "a @ [0x81]" "[0]" 1 _ ?l p d "n # ns"] unfolding q(3) by simp
    from 3 fits err mv poke show ?thesis
      by (simp add: asn1_pop_tag_def nest len Let_def n asn1_grow_frame der_len_def)
  next
    case 4
    with fits err poke show ?thesis
      by (simp add: asn1_pop_tag_def nest len Let_def n der_len_def)
  qed
qed

lemma asn1_pop_tag_out:
  assumes "wr_asn1 d" and "asn1_fits d (length (tlv tag p))"
  shows "asn1_pop_tag (asn1_out (asn1_opened d tag) p) = Inr (True, asn1_out d (tlv tag p))"
proof -
  let ?n = "\<lparr>nest_start = length (asn1_buf d) + 1, nest_taglen = 0\<rparr>"
  have 1: "asn1_out (asn1_opened d tag) p = asn1_frame d (?n # asn1_nesting d) ((asn1_buf d @ [tag]) @ 0xff # p)"
    by (simp add: asn1_out_def asn1_opened_def asn1_frame_def)
  have 2: "asn1_out d (tlv tag p) = asn1_frame d (asn1_nesting d) ((asn1_buf d @ [tag]) @ der_len (length p) @ p)"
    by (cases d) (simp add: asn1_out_def asn1_frame_def tlv_def)
  show ?thesis
    unfolding 1 2 using assms
    by (intro asn1_pop_tag_frame) (simp_all add: wr_asn1_def asn1_fits_def tlv_def)
qed

section \<open>Reading at a position\<close>

definition rd_at :: "asn1_data \<Rightarrow> bytes \<Rightarrow> bool" where
  "rd_at d bs \<longleftrightarrow> wf_asn1 d \<and> \<not> asn1_has_error d \<and> (\<exists>post. drop (asn1_ofs d) (asn1_buf d) = bs @ post)"

definition asn1_adv :: "asn1_data \<Rightarrow> nat \<Rightarrow> asn1_data" where
  "asn1_adv d n = d\<lparr>asn1_ofs := asn1_ofs d + n\<rparr>"

lemma asn1_adv_fields [simp]:
  "asn1_buf (asn1_adv d n) = asn1_buf d" "asn1_length (asn1_adv d n) = asn1_length d"
  "asn1_ofs (asn1_adv d n) = asn1_ofs d + n" "asn1_nesting (asn1_adv d n) = asn1_nesting d"
  "asn1_has_error (asn1_adv d n) = asn1_has_error d"
  by (simp_all add: asn1_adv_def)

lemma asn1_adv_adv: "asn1_adv (asn1_adv d m) n = asn1_adv d (m + n)"
  by (simp add: asn1_adv_def add.assoc)

lemma rd_at_bound: "rd_at d bs \<Longrightarrow> asn1_ofs d + length bs \<le> asn1_length d"
proof -
  assume "rd_at d bs"
  then obtain post where "drop (asn1_ofs d) (asn1_buf d) = bs @ post" and wf: "wf_asn1 d"
    by (auto simp: rd_at_def)
  then have "length (asn1_buf d) - asn1_ofs d = length bs + length post"
    by (metis length_append length_drop)
  with wf show ?thesis by (auto simp: wf_asn1_def)
qed

lemma rd_at_wf: "rd_at d bs \<Longrightarrow> wf_asn1 d" "rd_at d bs \<Longrightarrow> \<not> asn1_has_error d"
  by (simp_all add: rd_at_def)

lemma rd_at_append: "rd_at d (a @ b) \<Longrightarrow> rd_at d a"
  by (auto simp: rd_at_def)

lemma rd_at_adv: "rd_at d (a @ b) \<Longrightarrow> rd_at (asn1_adv d (length a)) b"
proof -
  assume r: "rd_at d (a @ b)"
  then obtain post where p: "drop (asn1_ofs d) (asn1_buf d) = a @ b @ post" by (auto simp: rd_at_def)
  have "drop (asn1_ofs d + length a) (asn1_buf d) = drop (length a) (drop (asn1_ofs d) (asn1_buf d))"
    by (simp add: add.commute)
  also have "\<dots> = b @ post" by (simp add: p)
  finally show ?thesis
    using r rd_at_bound [OF r] by (auto simp: rd_at_def wf_asn1_def)
qed

lemma rd_at_tl: "rd_at d (x # b) \<Longrightarrow> rd_at (asn1_adv d (Suc 0)) b"
  using rd_at_adv [of d "[x]" b] by simp

lemma rd_at_nest [simp]: "rd_at (d\<lparr>asn1_nesting := ns\<rparr>) bs = rd_at d bs"
  by (simp add: rd_at_def wf_asn1_def)

lemma asn1_read_at:
  assumes "rd_at d (bs @ cs)"
  shows "asn1_read d (int (length bs)) = Inr (Some bs, asn1_adv d (length bs))"
proof -
  have b: "asn1_ofs d + length bs \<le> asn1_length d"
    using rd_at_bound [OF rd_at_append [OF assms]] .
  with rd_at_wf(1) [OF assms] have "int (asn1_ofs d) \<le> 2 ^ 31 - 1 - int (length bs)"
    by (simp add: wf_asn1_def MAX_TALLOC_SIZE_def)
  moreover have "get_bytes (asn1_buf d) (asn1_ofs d) (length bs) = Inr bs"
    using assms b by (auto simp: get_bytes_def rd_at_def wf_asn1_def)
  ultimately show ?thesis
    using b by (simp add: asn1_read_def asn1_peek_def asn1_adv_def)
qed

lemma asn1_read_uint8_at:
  "rd_at d (b # cs) \<Longrightarrow> asn1_read_uint8 d = Inr (Some b, asn1_adv d (Suc 0))"
  using asn1_read_at [of d "[b]" cs] by (simp add: asn1_read_uint8_def)

section \<open>Lengths\<close>

lemma ucast_small: "n < 256 \<Longrightarrow> (ucast (word_of_nat n :: u8) :: u64) = word_of_nat n"
  by (rule word_unat_eq_iff [THEN iffD2])
    (simp add: unsigned_ucast_eq unsigned_of_nat take_bit_eq_mod)

lemma shift_in_byte:
  "push_bit 8 (word_of_nat (n div 256)) OR ucast (word_of_nat n :: u8) = (word_of_nat n :: u64)"
proof -
  have "n div 256 = drop_bit 8 n" by (simp add: drop_bit_eq_div)
  then show ?thesis
    by (auto intro!: bit_word_eqI simp: bit_simps not_less)
qed

lemma short_len_bit: "n \<le> 127 \<Longrightarrow> (word_of_nat n :: u8) AND 0x80 = 0"
proof -
  assume "n \<le> 127"
  then have "\<not> bit n 7" by (simp add: bit_iff_odd)
  then have "\<not> bit (word_of_nat n :: u8) 7" by (simp add: bit_of_nat_iff)
  then show ?thesis using and_exp_eq_0_iff_not_bit [of "word_of_nat n :: u8" 7] by simp
qed

text \<open>What \<open>asn1_start_tag\<close> does after the tag byte.\<close>

definition asn1_read_len :: "asn1_data \<Rightarrow> u64 option asn1_res" where
  "asn1_read_len d =
     chk (asn1_read_uint8 d) (\<lambda>(r, d).
       case r of None \<Rightarrow> Inr (None, d)
       | Some b \<Rightarrow>
           if b AND 0x80 \<noteq> 0
           then chk (asn1_read_uint8 d) (\<lambda>(r, d).
                  case r of None \<Rightarrow> Inr (None, d)
                  | Some b2 \<Rightarrow> asn1_taglen_loop (unat (b AND 0x7f) - 1) d (ucast b2))
           else Inr (Some (ucast b), d))"

lemma asn1_taglen_loop_2:
  "rd_at d (b # c # p) \<Longrightarrow> asn1_taglen_loop 2 d t =
   Inr (Some (push_bit 8 (push_bit 8 t OR ucast b) OR ucast c), asn1_adv d 2)"
  using asn1_read_uint8_at [of d b "c # p"] asn1_read_uint8_at [of "asn1_adv d 1" c p] rd_at_tl [of d b "c # p"]
  by (simp add: numeral_2_eq_2 asn1_adv_adv)

lemma asn1_taglen_loop_1:
  "rd_at d (b # p) \<Longrightarrow> asn1_taglen_loop (Suc 0) d t = Inr (Some (push_bit 8 t OR ucast b), asn1_adv d 1)"
  using asn1_read_uint8_at [of d b p] by simp

lemma asn1_read_len_at:
  assumes rd: "rd_at d (der_len n @ p)" and n: "n < 2 ^ 24"
  shows "asn1_read_len d = Inr (Some (word_of_nat n), asn1_adv d (length (der_len n)))"
proof -
  note len = asn1_read_len_def and read = asn1_read_uint8_at
  have lens: "(0x83 :: u8) AND 0x80 \<noteq> 0" "unat ((0x83 :: u8) AND 0x7f) = 3"
    "(0x82 :: u8) AND 0x80 \<noteq> 0" "unat ((0x82 :: u8) AND 0x7f) = 2"
    "(0x81 :: u8) AND 0x80 \<noteq> 0" "unat ((0x81 :: u8) AND 0x7f) = 1" by simp_all
  consider "n > 0xFFFF" | "n \<le> 0xFFFF" "n > 255" | "n \<le> 255" "n > 127" | "n \<le> 127" by linarith
  then show ?thesis
  proof cases
    case 1
    then have l: "der_len n = [0x83, word_of_nat (n div 65536), word_of_nat (n div 256), word_of_nat n]"
      by (simp add: der_len_def)
    from rd have r: "rd_at d (0x83 # word_of_nat (n div 65536) # word_of_nat (n div 256) # word_of_nat n # p)"
      by (simp add: l)
    note r2 = rd_at_tl [OF r] note r3 = rd_at_tl [OF r2]
    have "n div 65536 < 256" using n by simp
    moreover have "n div 65536 = n div 256 div 256" by (simp flip: div_mult2_eq)
    ultimately have "push_bit 8 (ucast (word_of_nat (n div 65536) :: u8)) OR ucast (word_of_nat (n div 256) :: u8)
        = (word_of_nat (n div 256) :: u64)"
      using shift_in_byte [of "n div 256"] by (simp add: ucast_small)
    then have "push_bit 8 (push_bit 8 (ucast (word_of_nat (n div 65536) :: u8)) OR ucast (word_of_nat (n div 256) :: u8))
        OR ucast (word_of_nat n :: u8) = (word_of_nat n :: u64)"
      by (simp only: shift_in_byte)
    with lens show ?thesis
      by (simp add: len read [OF r] read [OF r2] l asn1_adv_adv asn1_taglen_loop_2 [OF r3, unfolded asn1_adv_adv, simplified])
  next
    case 2
    then have l: "der_len n = [0x82, word_of_nat (n div 256), word_of_nat n]" by (simp add: der_len_def)
    from rd have r: "rd_at d (0x82 # word_of_nat (n div 256) # word_of_nat n # p)" by (simp add: l)
    note r2 = rd_at_tl [OF r] note r3 = rd_at_tl [OF r2]
    from 2 have "n div 256 < 256" by simp
    with lens shift_in_byte [of n] show ?thesis
      by (simp add: len read [OF r] read [OF r2] l asn1_adv_adv ucast_small asn1_taglen_loop_1 [OF r3, unfolded asn1_adv_adv, simplified])
  next
    case 3
    then have l: "der_len n = [0x81, word_of_nat n]" by (simp add: der_len_def)
    from rd have r: "rd_at d (0x81 # word_of_nat n # p)" by (simp add: l)
    note r2 = rd_at_tl [OF r]
    from 3 lens show ?thesis
      by (simp add: len read [OF r] read [OF r2] l asn1_adv_adv ucast_small)
  next
    case 4
    then have l: "der_len n = [word_of_nat n]" by (simp add: der_len_def)
    from rd have r: "rd_at d (word_of_nat n # p)" by (simp add: l)
    from 4 short_len_bit [OF 4] show ?thesis
      by (simp add: len read [OF r] l ucast_small)
  qed
qed

lemma asn1_start_tag_len:
  "asn1_start_tag d tag =
     chk (asn1_read_uint8 d) (\<lambda>(r, d).
       case r of None \<Rightarrow> Inr (False, d)
       | Some b \<Rightarrow>
         if b \<noteq> tag then Inr (False, set_error d)
         else chk (asn1_read_len d) (\<lambda>(t, d).
               case t of None \<Rightarrow> Inr (False, d)
               | Some taglen \<Rightarrow>
                 let d = d\<lparr>asn1_nesting := \<lparr>nest_start = asn1_ofs d, nest_taglen = taglen\<rparr> # asn1_nesting d\<rparr>;
                     (rem, d) = asn1_tag_remaining d
                 in if rem = -1 then Inr (False, d) else Inr (\<not> asn1_has_error d, d)))"
  unfolding asn1_start_tag_def asn1_read_len_def chk_assoc
  by (intro chk_cong refl) (auto intro!: chk_cong split: option.split)

section \<open>Inside a tag\<close>

lemma uint_small: "m < 2 ^ 28 \<Longrightarrow> uint (word_of_nat m :: u64) = int m"
  by (simp add: unsigned_of_nat take_bit_nat_eq_self_iff)

lemma tag_remaining_at:
  assumes wf: "wf_asn1 d" and err: "\<not> asn1_has_error d"
    and nest: "asn1_nesting d = \<lparr>nest_start = s, nest_taglen = word_of_nat (k + r)\<rparr> # ns"
    and ofs: "asn1_ofs d = s + k" and bound: "asn1_ofs d + r \<le> asn1_length d"
  shows "asn1_tag_remaining d = (int r, d)"
proof -
  have len: "asn1_length d < 2 ^ 28" using wf by (simp add: wf_asn1_def MAX_TALLOC_SIZE_def)
  with bound have r: "r < 2 ^ 28" by simp
  have 1: "(word_of_nat (k + r) - (word_of_nat (asn1_ofs d) - word_of_nat s) :: u64) = word_of_nat r"
    by (simp add: ofs)
  have 2: "(ucast (word_of_nat r :: u64) :: u32) = word_of_nat r"
    using r by (intro word_unat_eq_iff [THEN iffD2]) (simp add: unsigned_ucast_eq unsigned_of_nat take_bit_eq_mod)
  have 3: "sint (word_of_nat r :: u32) = int r"
    using r by (simp add: signed_of_nat signed_take_bit_int_eq_self_iff)
  have 4: "(word_of_nat (asn1_length d) - word_of_nat (asn1_ofs d) :: u64) = word_of_nat (asn1_length d - asn1_ofs d)"
    using bound by simp
  have "(scast (word_of_nat r :: u32) :: u64) \<le> word_of_nat (asn1_length d - asn1_ofs d)"
    unfolding word_le_def uint_scast_u64 3 using bound r len uint_small [of "asn1_length d - asn1_ofs d"]
    by (simp del: of_nat_diff)
  then show ?thesis
    using err by (simp add: asn1_tag_remaining_def nest Let_def 1 2 3 4 not_less del: of_nat_add of_nat_diff)
qed

text \<open>The context after \<open>asn1_start_tag\<close> on a tag with \<open>n\<close> bytes of content.\<close>

definition asn1_entered :: "asn1_data \<Rightarrow> nat \<Rightarrow> asn1_data" where
  "asn1_entered d n =
     (let k = 1 + length (der_len n)
      in (asn1_adv d k)\<lparr>asn1_nesting := \<lparr>nest_start = asn1_ofs d + k, nest_taglen = word_of_nat n\<rparr> # asn1_nesting d\<rparr>)"

lemma rd_at_entered:
  "rd_at d (tlv tag p @ q) \<Longrightarrow> rd_at (asn1_entered d (length p)) (p @ q)"
  using rd_at_adv [of d "tag # der_len (length p)" "p @ q"] by (simp add: asn1_entered_def Let_def tlv_def)

lemma asn1_start_tag_at:
  assumes rd: "rd_at d (tlv tag p)" and n: "length p < 2 ^ 24"
  shows "asn1_start_tag d tag = Inr (True, asn1_entered d (length p))"
proof -
  let ?k = "length (der_len (length p))"
  from rd have rd': "rd_at d (tag # der_len (length p) @ p)" by (simp add: tlv_def)
  have 1: "asn1_read_uint8 d = Inr (Some tag, asn1_adv d (Suc 0))" using asn1_read_uint8_at [OF rd'] .
  have 2: "asn1_read_len (asn1_adv d (Suc 0)) = Inr (Some (word_of_nat (length p)), asn1_adv d (Suc 0 + ?k))"
    using asn1_read_len_at [OF rd_at_tl [OF rd'] n] by (simp add: asn1_adv_adv)
  have r: "rd_at (asn1_entered d (length p)) p" using rd_at_entered [of d tag p "[]"] rd by simp
  then have "asn1_ofs (asn1_entered d (length p)) + length p \<le> asn1_length (asn1_entered d (length p))"
    by (rule rd_at_bound)
  moreover from r have "wf_asn1 (asn1_entered d (length p))" "\<not> asn1_has_error (asn1_entered d (length p))"
    by (rule rd_at_wf)+
  ultimately have "asn1_tag_remaining (asn1_entered d (length p)) = (int (length p), asn1_entered d (length p))"
    by (intro tag_remaining_at [where k = 0]) (auto simp: asn1_entered_def Let_def)
  with 1 2 rd_at_wf(2) [OF rd] show ?thesis
    by (simp add: asn1_start_tag_len) (simp add: asn1_entered_def Let_def)
qed

lemma asn1_end_tag_at:
  assumes rd: "rd_at d (tlv tag p)"
  shows "asn1_end_tag (asn1_adv (asn1_entered d (length p)) (length p)) = (True, asn1_adv d (length (tlv tag p)))"
proof -
  let ?e = "asn1_adv (asn1_entered d (length p)) (length p)"
  have r: "rd_at ?e []" using rd_at_adv [of _ p "[]"] rd_at_entered [of d tag p "[]"] rd by simp
  have "asn1_tag_remaining ?e = (int 0, ?e)"
    using rd_at_wf [OF r] rd_at_bound [OF r]
    by (intro tag_remaining_at [where k = "length p"]) (auto simp: asn1_entered_def Let_def)
  then show ?thesis
    by (cases d) (simp add: asn1_end_tag_def asn1_entered_def Let_def asn1_adv_def tlv_def)
qed

lemma asn1_entered_remaining:
  assumes rd: "rd_at d (tlv tag p)"
  shows "asn1_tag_remaining (asn1_entered d (length p)) = (int (length p), asn1_entered d (length p))"
proof -
  have r: "rd_at (asn1_entered d (length p)) p" using rd_at_entered [of d tag p "[]"] rd by simp
  show ?thesis
    using rd_at_wf [OF r] rd_at_bound [OF r]
    by (intro tag_remaining_at [where k = 0]) (auto simp: asn1_entered_def Let_def)
qed

section \<open>The contract of a writer and its reader\<close>

primrec asn1_write_list :: "(asn1_data \<Rightarrow> 'v \<Rightarrow> bool asn1_res) \<Rightarrow> asn1_data \<Rightarrow> 'v list \<Rightarrow> bool asn1_res" where
  "asn1_write_list wrt d [] = Inr (True, d)"
| "asn1_write_list wrt d (v # vs) =
     chk (wrt d v) (\<lambda>(ok, d). if \<not> ok then Inr (False, d) else asn1_write_list wrt d vs)"

primrec asn1_read_list :: "(asn1_data \<Rightarrow> ('v \<times> bool) asn1_res) \<Rightarrow> asn1_data \<Rightarrow> nat \<Rightarrow> ('v list \<times> bool) asn1_res" where
  "asn1_read_list rdr d 0 = Inr (([], True), d)"
| "asn1_read_list rdr d (Suc n) =
     chk (rdr d) (\<lambda>((v, ok), d). if \<not> ok then Inr (([], False), d) else
     chk (asn1_read_list rdr d n) (\<lambda>((vs, ok), d). Inr ((v # vs, ok), d)))"

text \<open>The pattern \<open>push_tag; write; pop_tag\<close> of the clients, and its reading counterpart.\<close>

definition asn1_write_tagged :: "u8 \<Rightarrow> (asn1_data \<Rightarrow> 'v \<Rightarrow> bool asn1_res) \<Rightarrow> asn1_data \<Rightarrow> 'v \<Rightarrow> bool asn1_res" where
  "asn1_write_tagged tag wrt d v =
     chk (asn1_push_tag d tag) (\<lambda>(ok, d). if \<not> ok then Inr (False, d) else
     chk (wrt d v) (\<lambda>(ok, d). if \<not> ok then Inr (False, d) else asn1_pop_tag d))"

definition asn1_read_tagged :: "u8 \<Rightarrow> (asn1_data \<Rightarrow> ('v \<times> bool) asn1_res) \<Rightarrow> 'v \<Rightarrow> asn1_data \<Rightarrow> ('v \<times> bool) asn1_res" where
  "asn1_read_tagged tag rdr v0 d =
     chk (asn1_start_tag d tag) (\<lambda>(ok, d). if \<not> ok then Inr ((v0, False), d) else
     chk (rdr d) (\<lambda>((v, ok), d). if \<not> ok then Inr ((v, False), d) else
       let (ok, d) = asn1_end_tag d in Inr ((v, ok), d)))"

definition asn1_roundtrips :: "(asn1_data \<Rightarrow> 'v \<Rightarrow> bool asn1_res) \<Rightarrow> (asn1_data \<Rightarrow> ('v \<times> bool) asn1_res) \<Rightarrow> 'v list \<Rightarrow> bool" where
  "asn1_roundtrips wrt rdr vs \<longleftrightarrow>
     (\<exists>w d. asn1_write_list wrt asn1_empty vs = Inr (True, w) \<and>
        asn1_read_list rdr (snd (asn1_load (asn1_buf w))) (length vs) = Inr ((vs, True), d))"

locale asn1_codec =
  fixes wrt :: "asn1_data \<Rightarrow> 'v \<Rightarrow> bool asn1_res"
    and rdr :: "asn1_data \<Rightarrow> ('v \<times> bool) asn1_res"
    and enc :: "'v \<Rightarrow> bytes"
    and okv :: "'v \<Rightarrow> bool"
  assumes writes: "okv v \<Longrightarrow> wr_asn1 d \<Longrightarrow> asn1_fits d (length (enc v)) \<Longrightarrow> wrt d v = Inr (True, asn1_out d (enc v))"
    and reads: "okv v \<Longrightarrow> rd_at d (enc v) \<Longrightarrow> rdr d = Inr ((v, True), asn1_adv d (length (enc v)))"
begin

lemma write_list:
  "(\<And>v. v \<in> set vs \<Longrightarrow> okv v) \<Longrightarrow> wr_asn1 d \<Longrightarrow> asn1_fits d (length (concat (map enc vs))) \<Longrightarrow>
   asn1_write_list wrt d vs = Inr (True, asn1_out d (concat (map enc vs)))"
proof (induction vs arbitrary: d)
  case Nil
  then show ?case by (cases d) (simp add: asn1_out_def wr_asn1_def)
next
  case (Cons v vs)
  then have "wrt d v = Inr (True, asn1_out d (enc v))"
    by (intro writes) (auto simp: asn1_fits_def)
  moreover have "asn1_write_list wrt (asn1_out d (enc v)) vs = Inr (True, asn1_out (asn1_out d (enc v)) (concat (map enc vs)))"
    using Cons.prems by (intro Cons.IH) (auto simp: asn1_fits_def)
  ultimately show ?case by (simp add: asn1_out_out)
qed

lemma read_list:
  "(\<And>v. v \<in> set vs \<Longrightarrow> okv v) \<Longrightarrow> rd_at d (concat (map enc vs)) \<Longrightarrow>
   asn1_read_list rdr d (length vs) = Inr ((vs, True), asn1_adv d (length (concat (map enc vs))))"
proof (induction vs arbitrary: d)
  case Nil
  then show ?case by (cases d) (simp add: asn1_adv_def)
next
  case (Cons v vs)
  from Cons.prems(2) have r: "rd_at d (enc v @ concat (map enc vs))" by simp
  have "rdr d = Inr ((v, True), asn1_adv d (length (enc v)))"
    using Cons.prems(1) rd_at_append [OF r] by (intro reads) auto
  moreover have "asn1_read_list rdr (asn1_adv d (length (enc v))) (length vs) =
      Inr ((vs, True), asn1_adv (asn1_adv d (length (enc v))) (length (concat (map enc vs))))"
    using Cons.prems(1) rd_at_adv [OF r] by (intro Cons.IH) auto
  ultimately show ?case by (simp add: asn1_adv_adv)
qed

lemma roundtrips:
  assumes ok: "\<And>v. v \<in> set vs \<Longrightarrow> okv v" and fits: "length (concat (map enc vs)) < MAX_TALLOC_SIZE"
  shows "asn1_roundtrips wrt rdr vs"
proof -
  let ?b = "concat (map enc vs)"
  have w: "asn1_write_list wrt asn1_empty vs = Inr (True, asn1_out asn1_empty ?b)"
    using ok fits by (intro write_list) (auto simp: asn1_fits_def asn1_empty_def wr_asn1_def)
  obtain d where d: "asn1_load ?b = (True, d)" "wf_asn1 d" "asn1_buf d = ?b" "asn1_ofs d = 0" "\<not> asn1_has_error d"
    using wf_asn1_load [OF fits] by blast
  then have "rd_at d ?b" by (simp add: rd_at_def)
  with read_list [OF ok] w d show ?thesis by (simp add: asn1_roundtrips_def asn1_empty_def)
qed

lemma tagged:
  "asn1_codec (asn1_write_tagged tag wrt) (asn1_read_tagged tag rdr v0) (\<lambda>v. tlv tag (enc v))
     (\<lambda>v. okv v \<and> length (enc v) < 2 ^ 24)"
proof
  fix v d
  assume ok: "okv v \<and> length (enc v) < 2 ^ 24" and d: "wr_asn1 d" and f: "asn1_fits d (length (tlv tag (enc v)))"
  have "2 \<le> length (tlv tag (enc v))" by (simp add: tlv_def der_len_def)
  with d f have "asn1_push_tag d tag = Inr (True, asn1_opened d tag)"
    by (intro asn1_push_tag_out) (auto simp: asn1_fits_def)
  moreover from ok d f have "wrt (asn1_opened d tag) v = Inr (True, asn1_out (asn1_opened d tag) (enc v))"
    by (intro writes) (auto simp: asn1_fits_def dest: le_less_trans [OF add_left_mono [OF length_tlv]])
  ultimately show "asn1_write_tagged tag wrt d v = Inr (True, asn1_out d (tlv tag (enc v)))"
    using asn1_pop_tag_out [OF d f] by (simp add: asn1_write_tagged_def)
next
  fix v d
  assume ok: "okv v \<and> length (enc v) < 2 ^ 24" and r: "rd_at d (tlv tag (enc v))"
  have "rd_at (asn1_entered d (length (enc v))) (enc v)" using rd_at_entered [of d tag "enc v" "[]"] r by simp
  with ok have "rdr (asn1_entered d (length (enc v))) = Inr ((v, True), asn1_adv (asn1_entered d (length (enc v))) (length (enc v)))"
    by (intro reads) auto
  with ok asn1_start_tag_at [OF r] asn1_end_tag_at [OF r]
  show "asn1_read_tagged tag rdr v0 d = Inr ((v, True), asn1_adv d (length (tlv tag (enc v))))"
    by (simp add: asn1_read_tagged_def)
qed

end

section \<open>The value types\<close>

text \<open>
  Everything the string writers do is a tag around the bytes; they ignore the results of the
  single calls and return the error flag.
\<close>

lemma asn1_tag_around:
  assumes d: "wr_asn1 d" and f: "asn1_fits d (length (tlv tag p))"
  shows "asn1_push_tag d tag = Inr (True, asn1_opened d tag)"
    and "asn1_write (asn1_opened d tag) p = Inr (True, asn1_out (asn1_opened d tag) p)"
    and "asn1_pop_tag (asn1_out (asn1_opened d tag) p) = Inr (True, asn1_out d (tlv tag p))"
    and "\<not> asn1_has_error (asn1_out d q)"
proof -
  have l: "2 + length p \<le> length (tlv tag p)" by (rule length_tlv)
  from d f l show "asn1_push_tag d tag = Inr (True, asn1_opened d tag)"
    by (intro asn1_push_tag_out) (auto simp: asn1_fits_def)
  from d f l show "asn1_write (asn1_opened d tag) p = Inr (True, asn1_out (asn1_opened d tag) p)"
    by (intro asn1_write_out) (auto simp: asn1_fits_def)
  from d show "\<not> asn1_has_error (asn1_out d q)" by (simp add: wr_asn1_def)
qed (rule asn1_pop_tag_out [OF d f])

text \<open>The reading side: the content of a tag whose bytes are taken as they are.\<close>

lemma asn1_inside:
  assumes rd: "rd_at d (tlv tag p)" and n: "length p < 2 ^ 24"
  shows "asn1_start_tag d tag = Inr (True, asn1_entered d (length p))"
    and "asn1_tag_remaining (asn1_entered d (length p)) = (int (length p), asn1_entered d (length p))"
    and "asn1_read (asn1_entered d (length p)) (int (length p)) = Inr (Some p, asn1_adv (asn1_entered d (length p)) (length p))"
    and "asn1_end_tag (asn1_adv (asn1_entered d (length p)) (length p)) = (True, asn1_adv d (length (tlv tag p)))"
    and "\<not> asn1_has_error d" and "\<not> asn1_has_error (asn1_entered d (length p))"
proof -
  have r: "rd_at (asn1_entered d (length p)) (p @ [])" using rd_at_entered [of d tag p "[]"] rd by simp
  then show "asn1_read (asn1_entered d (length p)) (int (length p)) = Inr (Some p, asn1_adv (asn1_entered d (length p)) (length p))"
    by (rule asn1_read_at)
  from rd_at_wf(2) [OF r] show "\<not> asn1_has_error (asn1_entered d (length p))" .
  from rd_at_wf(2) [OF rd] show "\<not> asn1_has_error d" .
qed (rule asn1_start_tag_at [OF rd n] asn1_entered_remaining [OF rd] asn1_end_tag_at [OF rd])+

lemma below_talloc: "n < 2 ^ 24 \<Longrightarrow> n + 1 < MAX_TALLOC_SIZE"
  by (simp add: MAX_TALLOC_SIZE_def)

definition short_value :: "bytes \<Rightarrow> bool" where
  "short_value p \<longleftrightarrow> length p < 2 ^ 24"

interpretation cd_OctetString: asn1_codec asn1_write_OctetString asn1_read_OctetString "tlv ASN1_OCTET_STRING" short_value
proof
  fix v d
  assume "wr_asn1 d" "asn1_fits d (length (tlv ASN1_OCTET_STRING v))"
  from asn1_tag_around [OF this] show "asn1_write_OctetString d v = Inr (True, asn1_out d (tlv ASN1_OCTET_STRING v))"
    by (simp add: asn1_write_OctetString_def)
next
  fix v d
  assume v: "short_value v" and "rd_at d (tlv ASN1_OCTET_STRING v)"
  from asn1_inside [OF this(2)] v below_talloc [of "length v"]
  show "asn1_read_OctetString d = Inr ((v, True), asn1_adv d (length (tlv ASN1_OCTET_STRING v)))"
    by (simp add: asn1_read_OctetString_def short_value_def)
qed

interpretation cd_GeneralString: asn1_codec asn1_write_GeneralString asn1_read_GeneralString "tlv ASN1_GENERAL_STRING" short_value
proof
  fix v d
  assume "wr_asn1 d" "asn1_fits d (length (tlv ASN1_GENERAL_STRING v))"
  from asn1_tag_around [OF this] show "asn1_write_GeneralString d v = Inr (True, asn1_out d (tlv ASN1_GENERAL_STRING v))"
    by (simp add: asn1_write_GeneralString_def asn1_write_LDAPString_def)
next
  fix v d
  assume v: "short_value v" and "rd_at d (tlv ASN1_GENERAL_STRING v)"
  from asn1_inside [OF this(2)] v below_talloc [of "length v"]
  show "asn1_read_GeneralString d = Inr ((v, True), asn1_adv d (length (tlv ASN1_GENERAL_STRING v)))"
    by (simp add: asn1_read_GeneralString_def asn1_read_LDAPString_def short_value_def)
qed

interpretation cd_ContextSimple: asn1_codec "\<lambda>d. asn1_write_ContextSimple d num" "\<lambda>d. asn1_read_ContextSimple d num"
  "tlv (ASN1_CONTEXT_SIMPLE num)" "\<lambda>p. short_value p \<and> p \<noteq> []" for num
proof
  fix v d
  assume "wr_asn1 d" "asn1_fits d (length (tlv (ASN1_CONTEXT_SIMPLE num) v))"
  from asn1_tag_around [OF this]
  show "asn1_write_ContextSimple d num v = Inr (True, asn1_out d (tlv (ASN1_CONTEXT_SIMPLE num) v))"
    by (simp add: asn1_write_ContextSimple_def)
next
  fix v d
  assume v: "short_value v \<and> v \<noteq> []" and "rd_at d (tlv (ASN1_CONTEXT_SIMPLE num) v)"
  from asn1_inside [OF this(2)] v below_talloc [of "length v"]
  show "asn1_read_ContextSimple d num = Inr ((v, True), asn1_adv d (length (tlv (ASN1_CONTEXT_SIMPLE num) v)))"
    by (simp add: asn1_read_ContextSimple_def short_value_def)
qed

text \<open>A single content byte.\<close>

lemma asn1_inside_byte:
  assumes "rd_at d (tlv tag [b])"
  shows "asn1_read_uint8 (asn1_entered d (Suc 0)) = Inr (Some b, asn1_adv (asn1_entered d (Suc 0)) (Suc 0))"
  using asn1_read_uint8_at [of "asn1_entered d (Suc 0)" b "[]"] rd_at_entered [of d tag "[b]" "[]"] assms by simp

interpretation cd_BOOLEAN: asn1_codec asn1_write_BOOLEAN asn1_read_BOOLEAN
  "\<lambda>v. tlv ASN1_BOOLEAN [if v then 0xFF else 0]" "\<lambda>_. True"
proof
  fix v d
  let ?b = "if v then 0xFF else 0 :: u8"
  assume "wr_asn1 d" "asn1_fits d (length (tlv ASN1_BOOLEAN [?b]))"
  from asn1_tag_around [OF this] show "asn1_write_BOOLEAN d v = Inr (True, asn1_out d (tlv ASN1_BOOLEAN [?b]))"
    by (simp add: asn1_write_BOOLEAN_def asn1_write_uint8_def)
next
  fix v d
  let ?b = "if v then 0xFF else 0 :: u8"
  assume "rd_at d (tlv ASN1_BOOLEAN [?b])"
  from asn1_inside [OF this] asn1_inside_byte [OF this]
  show "asn1_read_BOOLEAN d = Inr ((v, True), asn1_adv d (length (tlv ASN1_BOOLEAN [?b])))"
    by (simp add: asn1_read_BOOLEAN_def)
qed

end
