(* ===== verification/Asn1_Values.thy ===== *)
theory Asn1_Values
  imports Asn1_Codec
begin

text \<open>
  The two value types of \<open>asn1.c\<close> with an encoding of their own: integers (the minimal two's
  complement form) and object identifiers (seven bits to a byte), as pure functions, with the
  lemmas that the writers produce them and the readers invert them.
\<close>

section \<open>Integers\<close>

function be_bytes :: "u32 \<Rightarrow> bytes" where
  "be_bytes i = (if drop_bit 8 i \<noteq> 0 then be_bytes (drop_bit 8 i) else []) @ [ucast i]"
  by pat_completeness auto
termination
proof (relation "measure unat")
  fix i :: u32
  assume nz: "drop_bit 8 i \<noteq> 0"
  have "unat (drop_bit 8 i) = unat i div 256"
    unfolding unat_drop_bit_eq by (simp add: drop_bit_eq_div)
  moreover from nz have "unat (drop_bit 8 i) \<noteq> 0" by (simp add: unat_eq_zero)
  ultimately have "unat (drop_bit 8 i) < unat i" by simp
  then show "(drop_bit 8 i, i) \<in> measure unat" by simp
qed simp

declare be_bytes.simps [simp del]

text \<open>What one byte adds to the content written so far.\<close>

definition emit :: "bool \<Rightarrow> bytes \<Rightarrow> u8 \<Rightarrow> bytes" where
  "emit neg out b =
     (if out \<noteq> [] then out @ [b]
      else if neg then if b = 0xFF then [] else if b AND 0x80 = 0 then [0xFF, b] else [b]
      else if b AND 0x80 \<noteq> 0 then [0, b] else [b])"

definition int_content :: "u32 \<Rightarrow> bytes" where
  "int_content i = (if i = -1 then [0xFF] else foldl (emit (sint i < 0)) [] (be_bytes i))"

lemma length_be_bytes: "length (be_bytes i) \<le> 4"
proof -
  have "unat i < 256 ^ n \<Longrightarrow> 0 < n \<Longrightarrow> length (be_bytes i) \<le> n" for n
  proof (induction i arbitrary: n rule: be_bytes.induct)
    case (1 i)
    show ?case
    proof (cases "drop_bit 8 i = 0")
      case True
      with 1(3) show ?thesis by (subst be_bytes.simps) simp
    next
      case False
      obtain m where n: "n = Suc m" using 1(3) by (cases n) auto
      have q: "unat (drop_bit 8 i) = unat i div 256" unfolding unat_drop_bit_eq by (simp add: drop_bit_eq_div)
      with 1(2) n have lt: "unat (drop_bit 8 i) < 256 ^ m" by (simp add: less_mult_imp_div_less mult.commute)
      from False have "unat (drop_bit 8 i) \<noteq> 0" by (simp add: unat_eq_zero)
      with lt have "0 < m" by (cases m) auto
      from 1(1) [OF False lt this] False n show ?thesis by (subst be_bytes.simps) simp
    qed
  qed
  from this [of 4] unat_u32 [of i] show ?thesis by simp
qed

lemma length_emit: "length (foldl (emit neg) out bs) + (if foldl (emit neg) out bs = [] then 1 else 0)
    \<le> length out + (if out = [] then 1 else 0) + length bs"
proof (induction bs arbitrary: out)
  case (Cons b bs)
  have "length (emit neg out b) + (if emit neg out b = [] then 1 else 0) \<le> length out + (if out = [] then 1 else 0) + 1"
    by (simp add: emit_def)
  with Cons [of "emit neg out b"] show ?case unfolding foldl_Cons length_Cons by linarith
qed simp

lemma length_emit_be: "length (foldl (emit neg) [] (be_bytes i)) \<le> 5"
  using length_emit [of neg "[]" "be_bytes i"] length_be_bytes [of i] by (simp split: if_split_asm)

lemma asn1_out_Nil: "wr_asn1 d \<Longrightarrow> asn1_out d [] = d"
  by (cases d) (simp add: asn1_out_def wr_asn1_def)

lemma push_int_step:
  assumes "wr_asn1 d" and "asn1_nesting d = n # ns" and "nest_start n + 1 = asn1_ofs d"
    and f: "asn1_fits d (length (emit neg out b))"
  shows "(if nest_start n + 1 = asn1_ofs (asn1_out d out) then
            if neg then
              if b = 0xFF then Inr (True, asn1_out d out)
              else if b AND 0x80 = 0 then
                chk (asn1_write_uint8 (asn1_out d out) 0xff) (\<lambda>(ok, d).
                  if \<not> ok then Inr (False, d) else asn1_write_uint8 d b)
              else asn1_write_uint8 (asn1_out d out) b
            else if b AND 0x80 \<noteq> 0 then
              chk (asn1_write_uint8 (asn1_out d out) 0) (\<lambda>(ok, d).
                if \<not> ok then Inr (False, d) else asn1_write_uint8 d b)
            else asn1_write_uint8 (asn1_out d out) b
          else asn1_write_uint8 (asn1_out d out) b) = Inr (True, asn1_out d (emit neg out b))"
proof -
  have w: "asn1_fits d (length out + 1) \<Longrightarrow> asn1_write_uint8 (asn1_out d out) x = Inr (True, asn1_out d (out @ [x]))"
    "asn1_fits d (length out + 2) \<Longrightarrow> asn1_write_uint8 (asn1_out d (out @ [y])) x = Inr (True, asn1_out d (out @ [y, x]))" for x y
    using assms by (simp_all add: asn1_write_uint8_out asn1_out_out asn1_fits_def)
  have m: "asn1_fits d (length out + 2) \<Longrightarrow> asn1_fits d (length out + 1)" by (simp add: asn1_fits_def)
  have "nest_start n + 1 = asn1_ofs (asn1_out d out) \<longleftrightarrow> out = []"
    using assms(1,3) by (simp add: wr_asn1_def)
  with w m f show ?thesis by (auto simp: emit_def)
qed

lemma push_int_out:
  assumes d: "wr_asn1 d" and n: "asn1_nesting d = n # ns" "nest_start n + 1 = asn1_ofs d"
    and f: "asn1_fits d (length (foldl (emit neg) [] (be_bytes i)))"
  shows "push_int_bigendian d i neg = Inr (True, asn1_out d (foldl (emit neg) [] (be_bytes i)))"
  using f
proof (induction i rule: be_bytes.induct)
  case (1 i)
  define out where "out = (if drop_bit 8 i \<noteq> 0 then foldl (emit neg) [] (be_bytes (drop_bit 8 i)) else [])"
  have e: "foldl (emit neg) [] (be_bytes i) = emit neg out (ucast i)"
    by (subst be_bytes.simps) (simp add: out_def)
  have fits: "asn1_fits d (length (emit neg out (ucast i)))" using 1(2) by (simp add: e)
  moreover have "length out \<le> length (emit neg out (ucast i))" by (simp add: emit_def)
  ultimately have "asn1_fits d (length out)" by (simp add: asn1_fits_def)
  then have rec: "(if drop_bit 8 i \<noteq> 0 then push_int_bigendian d (drop_bit 8 i) neg else Inr (True, d)) = Inr (True, asn1_out d out)"
    using 1(1) d by (cases "drop_bit 8 i = 0") (simp_all add: out_def asn1_out_Nil)
  from push_int_step [OF d n fits] e show ?case
    by (subst push_int_bigendian.simps) (simp only: rec Let_def chk_Inr ucast_and_FF asn1_out_fields n list.case split_conv not_True_eq_False if_False)
qed

text \<open>The number a content stands for: big endian, the first bit the sign.\<close>

definition be_value :: "int \<Rightarrow> bytes \<Rightarrow> int" where
  "be_value = foldl (\<lambda>a b. 256 * a + uint b)"

definition twos :: "bytes \<Rightarrow> int" where
  "twos p = be_value (if hd p AND 0x80 \<noteq> 0 then -1 else 0) p"

lemma be_value_simps [simp]: "be_value a [] = a" "be_value a (b # bs) = be_value (256 * a + uint b) bs"
  "be_value a (xs @ [b]) = 256 * be_value a xs + uint b"
  by (simp_all add: be_value_def)

lemma be_value_start: "be_value a bs = a * 256 ^ length bs + be_value 0 bs"
proof (induction bs arbitrary: a)
  case (Cons b bs)
  show ?case using Cons [of "256 * a + uint b"] Cons [of "uint b"] by (simp add: algebra_simps)
qed simp

lemma uint_be_bytes: "be_value 0 (be_bytes i) = uint i"
proof (induction i rule: be_bytes.induct)
  case (1 i)
  have u: "unat (drop_bit 8 i) = unat i div 256" unfolding unat_drop_bit_eq by (simp add: drop_bit_eq_div)
  have "uint (drop_bit 8 i) = uint i div 256" by (simp only: uint_nat u zdiv_int of_nat_numeral)
  moreover have "uint (ucast i :: u8) = uint i mod 256" by (simp add: unsigned_ucast_eq take_bit_eq_mod)
  moreover have "drop_bit 8 i = 0 \<Longrightarrow> uint i div 256 = 0" using calculation(1) by (simp add: unsigned_eq_0_iff)
  ultimately show ?case using 1 by (subst be_bytes.simps) (auto simp: mult_div_mod_eq)
qed

lemma uint_of_sint: "uint (i :: u32) = (if sint i < 0 then sint i + 2 ^ 32 else sint i)"
proof -
  have "word_of_int (sint i) = i" by simp
  then have "uint i = sint i mod 2 ^ 32"
    using uint_word_of_int [of "sint i", where 'a = 32] by simp
  moreover have "- (2 ^ 31) \<le> sint i" "sint i < 2 ^ 31" using sint_ge [of i] sint_lt [of i] by simp_all
  moreover have "sint i < 0 \<Longrightarrow> sint i mod 2 ^ 32 = sint i + 2 ^ 32"
    using mod_pos_pos_trivial [of "sint i + 2 ^ 32" "2 ^ 32"] calculation(2) by simp
  ultimately show ?thesis by (simp add: mod_pos_pos_trivial)
qed

lemma length_be_bytes_neg:
  assumes "sint i < 0" shows "length (be_bytes i) = 4"
proof (rule ccontr)
  assume "length (be_bytes i) \<noteq> 4"
  with length_be_bytes [of i] have l: "length (be_bytes i) \<le> 3" by simp
  have "be_value 0 bs < 256 ^ length bs" for bs
  proof (induction bs rule: rev_induct)
    case (snoc b bs)
    have "uint b < 256" using unsigned_less [of b] by simp
    with snoc show ?case by simp
  qed simp
  then have "uint i < 256 ^ length (be_bytes i)" by (simp flip: uint_be_bytes)
  also have "\<dots> \<le> 256 ^ 3" using l by (intro power_increasing) auto
  finally show False using assms sint_ge [of i] by (simp add: uint_of_sint)
qed

lemma be_bytes_neg: "sint i < 0 \<Longrightarrow> be_value (- 1) (be_bytes i) = sint i"
  using be_value_start [of "- 1" "be_bytes i"]
  by (simp add: length_be_bytes_neg uint_be_bytes uint_of_sint)

lemma emit_neg:
  assumes "out = [] \<and> a = - 1 \<or> out \<noteq> [] \<and> hd out AND 0x80 \<noteq> 0 \<and> twos out = a"
  shows "let out' = foldl (emit True) out bs; a' = be_value a bs
         in out' = [] \<and> a' = - 1 \<or> out' \<noteq> [] \<and> hd out' AND 0x80 \<noteq> 0 \<and> twos out' = a'"
  using assms
proof (induction bs arbitrary: out a)
  case (Cons b bs)
  have "emit True out b = [] \<and> 256 * a + uint b = - 1 \<or>
      emit True out b \<noteq> [] \<and> hd (emit True out b) AND 0x80 \<noteq> 0 \<and> twos (emit True out b) = 256 * a + uint b"
    using Cons.prems by (auto simp: emit_def twos_def)
  from Cons.IH [OF this] show ?case by simp
qed simp

lemma emit_pos:
  assumes "out \<noteq> [] \<and> hd out AND 0x80 = 0 \<and> twos out = a"
  shows "let out' = foldl (emit False) out bs in out' \<noteq> [] \<and> hd out' AND 0x80 = 0 \<and> twos out' = be_value a bs"
  using assms
proof (induction bs arbitrary: out a)
  case (Cons b bs)
  have "emit False out b \<noteq> [] \<and> hd (emit False out b) AND 0x80 = 0 \<and> twos (emit False out b) = 256 * a + uint b"
    using Cons.prems by (auto simp: emit_def twos_def)
  from Cons.IH [OF this] show ?case by simp
qed simp

lemma be_bytes_not_Nil: "be_bytes i \<noteq> []"
  by (subst be_bytes.simps) simp

lemma int_content_twos:
  "int_content i \<noteq> [] \<and> twos (int_content i) = sint i \<and> (hd (int_content i) AND 0x80 \<noteq> 0 \<longleftrightarrow> sint i < 0)"
proof -
  consider "i = - 1" | "i \<noteq> - 1" "sint i < 0" | "0 \<le> sint i" by linarith
  then show ?thesis
  proof cases
    case 1
    then show ?thesis by (simp add: int_content_def twos_def)
  next
    case 2
    have "word_of_int (sint i) = i" by simp
    then have "sint i = - 1 \<Longrightarrow> i = - 1" by (metis of_int_minus of_int_1)
    with 2 emit_neg [of "[]" "- 1" "be_bytes i"] show ?thesis
      by (auto simp: int_content_def Let_def be_bytes_neg)
  next
    case 3
    then have i: "i \<noteq> - 1" "\<not> sint i < 0" by auto
    obtain b bs where b: "be_bytes i = b # bs" using be_bytes_not_Nil [of i] by (cases "be_bytes i") auto
    have "emit False [] b \<noteq> [] \<and> hd (emit False [] b) AND 0x80 = 0 \<and> twos (emit False [] b) = uint b"
      by (simp add: emit_def twos_def)
    from emit_pos [OF this, of bs] i uint_be_bytes [of i] show ?thesis
      by (simp add: int_content_def Let_def b uint_of_sint)
  qed
qed

subsection \<open>Writing and reading integers\<close>

lemma length_int_content: "length (int_content i) \<le> 5"
  using length_emit_be by (simp add: int_content_def)

lemma length_tlv_ints:
  "length (concat (map (\<lambda>i. tlv ASN1_INTEGER (int_content i)) is)) \<le> 7 * length is"
proof (induction "is")
  case (Cons i js)
  have "length (tlv ASN1_INTEGER (int_content i)) \<le> 7"
    using length_int_content [of i] by (simp add: tlv_def der_len_def)
  with Cons show ?case by simp
qed simp

lemma asn1_write_Integer_out:
  assumes d: "wr_asn1 d" and f: "asn1_fits d (length (tlv ASN1_INTEGER (int_content i)))"
  shows "asn1_write_Integer d i = Inr (True, asn1_out d (tlv ASN1_INTEGER (int_content i)))"
proof -
  let ?o = "asn1_opened d ASN1_INTEGER"
  have o: "wr_asn1 ?o" "asn1_fits ?o (length (int_content i))"
    using d f length_tlv [of "int_content i" ASN1_INTEGER] by (simp_all add: asn1_fits_def)
  have nest: "asn1_nesting ?o = \<lparr>nest_start = length (asn1_buf d) + 1, nest_taglen = 0\<rparr> # asn1_nesting d"
    "nest_start \<lparr>nest_start = length (asn1_buf d) + 1, nest_taglen = 0\<rparr> + 1 = asn1_ofs ?o"
    using o(1) by (simp_all add: wr_asn1_def)
  have "asn1_write_implicit_Integer ?o i = Inr (True, asn1_out ?o (int_content i))"
    using push_int_out [OF o(1) nest] asn1_write_uint8_out [OF o(1)] o(2)
    by (simp add: asn1_write_implicit_Integer_def int_content_def split: if_split_asm)
  with asn1_tag_around [OF d f] show ?thesis by (simp add: asn1_write_Integer_def)
qed

lemma asn1_int_loop_at:
  assumes "rd_at d q" and "asn1_nesting d = \<lparr>nest_start = s, nest_taglen = word_of_nat (k + length q)\<rparr> # ns"
    and "asn1_ofs d = s + k"
  shows "asn1_int_loop d i = Inr ((word_of_int (be_value (uint i) q), False), asn1_adv d (length q))"
  using assms
proof (induction q arbitrary: d i k)
  case Nil
  have "asn1_tag_remaining d = (int 0, d)"
    using Nil rd_at_wf [OF Nil(1)] rd_at_bound [OF Nil(1)] by (intro tag_remaining_at [where k = k]) auto
  with rd_at_wf(2) [OF Nil(1)] show ?case
    by (subst asn1_int_loop.simps) (simp add: asn1_adv_def)
next
  case (Cons b q)
  let ?d = "asn1_adv d (Suc 0)" and ?i = "push_bit 8 i + ucast b :: u32"
  have rem: "asn1_tag_remaining d = (int (length (b # q)), d)"
    using Cons.prems rd_at_wf [OF Cons.prems(1)] rd_at_bound [OF Cons.prems(1)] by (intro tag_remaining_at [where k = k]) auto
  have "?i = word_of_int (256 * uint i + uint b)" by (simp add: push_bit_eq_mult)
  then have "word_of_int (be_value (uint ?i) q) = (word_of_int (be_value (256 * uint i + uint b) q) :: u32)"
    by (subst (1 2) be_value_start) simp
  moreover have "asn1_int_loop ?d ?i = Inr ((word_of_int (be_value (uint ?i) q), False), asn1_adv ?d (length q))"
    using Cons.prems by (intro Cons.IH [where k = "Suc k"] rd_at_tl) auto
  ultimately show ?case
    using rem rd_at_wf(2) [OF Cons.prems(1)] asn1_read_uint8_at [OF Cons.prems(1)]
    by (subst asn1_int_loop.simps) (simp add: asn1_adv_adv)
qed

lemma asn1_read_int_at:
  assumes rd: "rd_at d (tlv tag p)"
  shows "asn1_int_loop (asn1_entered d (length p)) 0 =
    Inr ((word_of_int (be_value 0 p), False), asn1_adv (asn1_entered d (length p)) (length p))"
  using asn1_int_loop_at [of "asn1_entered d (length p)" p _ 0 _ 0] rd_at_entered [of d tag p "[]"] rd
  by (simp add: asn1_entered_def Let_def)

lemma asn1_read_Integer_at:
  assumes rd: "rd_at d (tlv ASN1_INTEGER p)" and p: "length p < 2 ^ 24"
  shows "asn1_read_Integer d = Inr ((word_of_int (be_value 0 p), True), asn1_adv d (length (tlv ASN1_INTEGER p)))"
  using asn1_read_int_at [OF rd] asn1_inside [OF rd p]
  by (simp add: asn1_read_Integer_def asn1_read_implicit_Integer_def)

lemma asn1_write_enumerated_out:
  assumes d: "wr_asn1 d" and f: "asn1_fits d (length (tlv ASN1_ENUMERATED [v]))"
  shows "asn1_write_enumerated d v = Inr (True, asn1_out d (tlv ASN1_ENUMERATED [v]))"
  using asn1_tag_around [OF d f] by (simp add: asn1_write_enumerated_def asn1_write_uint8_def)

text \<open>Non-negative integers, and enumerated values, which the writer truncates to a byte.\<close>

interpretation cd_Integer: asn1_codec asn1_write_Integer asn1_read_Integer
  "\<lambda>i. tlv ASN1_INTEGER (int_content i)" "\<lambda>i. 0 \<le> sint i"
proof
  fix v d
  assume v: "0 \<le> sint v" and rd: "rd_at d (tlv ASN1_INTEGER (int_content v))"
  from v int_content_twos [of v] have "be_value 0 (int_content v) = sint v" by (auto simp: twos_def)
  then have "word_of_int (be_value 0 (int_content v)) = v" by simp
  with asn1_read_Integer_at [OF rd] length_int_content [of v]
  show "asn1_read_Integer d = Inr ((v, True), asn1_adv d (length (tlv ASN1_INTEGER (int_content v))))" by simp
qed (rule asn1_write_Integer_out)

interpretation cd_enumerated: asn1_codec "\<lambda>d v. asn1_write_enumerated d (ucast v)" asn1_read_enumerated
  "\<lambda>v. tlv ASN1_ENUMERATED [ucast v]" "\<lambda>v. v < 256"
proof
  fix v :: u32 and d
  assume v: "v < 256" and rd: "rd_at d (tlv ASN1_ENUMERATED [ucast v])"
  from v have "uint v < 256" by (simp add: word_less_def)
  then have "word_of_int (be_value 0 [ucast v]) = v" by (simp add: unsigned_ucast_eq take_bit_eq_mod)
  with asn1_read_int_at [OF rd] asn1_inside [OF rd]
  show "asn1_read_enumerated d = Inr ((v, True), asn1_adv d (length (tlv ASN1_ENUMERATED [ucast v :: u8])))"
    by (simp add: asn1_read_enumerated_def)
qed (rule asn1_write_enumerated_out)

section \<open>Object identifiers\<close>

subsection \<open>Arcs\<close>

definition hi_byte :: "nat \<Rightarrow> u32 \<Rightarrow> u8" where
  "hi_byte k v = ucast (0x80 OR (drop_bit k v AND 0xff))"

definition arc_bytes :: "u32 \<Rightarrow> bytes" where
  "arc_bytes v =
     (if v \<ge> 0x10000000 then [hi_byte 28 v] else []) @ (if v \<ge> 0x200000 then [hi_byte 21 v] else []) @
     (if v \<ge> 0x4000 then [hi_byte 14 v] else []) @ (if v \<ge> 0x80 then [hi_byte 7 v] else []) @
     [ucast (v AND 0x7f)]"

lemma asn1_write_if_out:
  assumes "wr_asn1 d" and "asn1_fits d (length (if c then [b] else []))"
  shows "asn1_write_if c d b = Inr (asn1_out d (if c then [b] else []))"
  using assms by (cases c) (simp_all add: asn1_write_if_def asn1_write_uint8_out asn1_out_Nil)

lemma asn1_write_arc_out:
  assumes d: "wr_asn1 d" and f: "asn1_fits d (length (arc_bytes v))"
  shows "asn1_write_arc d v = Inr (True, asn1_out d (arc_bytes v))"
proof -
  let ?a = "if v \<ge> 0x10000000 then [hi_byte 28 v] else []" and ?b = "if v \<ge> 0x200000 then [hi_byte 21 v] else []"
  let ?c = "if v \<ge> 0x4000 then [hi_byte 14 v] else []" and ?e = "if v \<ge> 0x80 then [hi_byte 7 v] else []"
  have "length (arc_bytes v) = length ?a + length ?b + length ?c + length ?e + 1"
    unfolding arc_bytes_def by (simp only: length_append list.size)
  with f have fits: "asn1_fits d (length ?a)" "asn1_fits (asn1_out d ?a) (length ?b)"
    "asn1_fits (asn1_out d (?a @ ?b)) (length ?c)" "asn1_fits (asn1_out d (?a @ ?b @ ?c)) (length ?e)"
    "asn1_fits (asn1_out d (?a @ ?b @ ?c @ ?e)) 1"
    unfolding asn1_fits_def asn1_out_fields length_append by linarith+
  note w = asn1_write_if_out [OF d fits(1)] asn1_write_if_out [OF wr_asn1_out [OF d] fits(2)]
    asn1_write_if_out [OF wr_asn1_out [OF d] fits(3)] asn1_write_if_out [OF wr_asn1_out [OF d] fits(4)]
    asn1_write_uint8_out [OF wr_asn1_out [OF d] fits(5)]
  show ?thesis
    unfolding asn1_write_arc_def arc_bytes_def hi_byte_def [symmetric]
    by (simp only: w chk_Inr asn1_out_out append_assoc)
qed

lemma mask7: "(0x7f :: 'a::len word) = mask 7"
  by (simp add: mask_eq_exp_minus_1)

lemma bit_80: "bit (0x80 :: u32) m \<longleftrightarrow> m = 7" "bit (0x80 :: u8) m \<longleftrightarrow> m = 7" "bit (0x80 :: int) m \<longleftrightarrow> m = 7"
  using bit_exp_iff [of 7 m, where 'a = u32] bit_exp_iff [of 7 m, where 'a = u8] bit_exp_iff [of 7 m, where 'a = int]
  by (auto simp: possible_bit_word)

lemma arc_shift:
  "push_bit 7 (drop_bit (k + 7) v) OR ucast (hi_byte k v AND 0x7f) = drop_bit k v"
proof (rule bit_word_eqI)
  fix n
  assume n: "n < LENGTH(32)"
  show "bit (push_bit 7 (drop_bit (k + 7) v) OR ucast (hi_byte k v AND 0x7f)) n = bit (drop_bit k v) n"
  proof (cases "n < 7")
    case True
    then show ?thesis by (auto simp: hi_byte_def mask7 FF_mask bit_simps bit_80 ac_simps)
  next
    case False
    then obtain m where m: "n = m + 7" by (metis le_add_diff_inverse2 not_less)
    with n show ?thesis by (auto simp: hi_byte_def mask7 FF_mask bit_simps bit_80 ac_simps)
  qed
qed

lemma hi_byte_cont: "hi_byte k v AND 0x80 \<noteq> 0"
proof -
  have "bit (hi_byte k v) 7" by (simp add: hi_byte_def bit_simps bit_80)
  then show ?thesis using and_exp_eq_0_iff_not_bit [of "hi_byte k v" 7] by simp
qed

lemma arc_last: "push_bit 7 (drop_bit 7 v) OR ucast ((ucast (v AND 0x7f) :: u8) AND 0x7f) = (v :: u32)"
proof (rule bit_word_eqI)
  fix n
  assume n: "n < LENGTH(32)"
  show "bit (push_bit 7 (drop_bit 7 v) OR ucast ((ucast (v AND 0x7f) :: u8) AND 0x7f)) n = bit v n"
  proof (cases "n < 7")
    case False
    then obtain m where m: "n = m + 7" by (metis le_add_diff_inverse2 not_less)
    with n show ?thesis by (auto simp: mask7 bit_simps ac_simps)
  qed (auto simp: mask7 bit_simps)
qed

lemma arc_last_cont: "(ucast ((v :: u32) AND 0x7f) :: u8) AND 0x80 = 0"
proof -
  have "\<not> bit (ucast (v AND 0x7f) :: u8) 7" by (simp add: mask7 bit_simps)
  then show ?thesis using and_exp_eq_0_iff_not_bit [of "ucast (v AND 0x7f) :: u8" 7] by simp
qed

lemma asn1_read_arc_hi:
  assumes "rd_at d (hi_byte k v # bs)"
  shows "asn1_read_arc d b (drop_bit (k + 7) v) = asn1_read_arc (asn1_adv d (Suc 0)) (hi_byte k v) (drop_bit k v)"
  using asn1_read_uint8_at [OF assms] rd_at_wf(2) [OF assms] hi_byte_cont [of k v] arc_shift [of k v]
  by (subst asn1_read_arc.simps) simp

lemma asn1_read_arc_last:
  assumes "rd_at d (ucast (v AND 0x7f) # bs)"
  shows "asn1_read_arc d b (drop_bit 7 v) = Inr ((v, ucast (v AND 0x7f)), asn1_adv d (Suc 0))"
  using asn1_read_uint8_at [OF assms] arc_last_cont [of v] arc_last [of v]
  by (subst asn1_read_arc.simps) simp

lemma drop_bit_small: "unat v < 2 ^ k \<Longrightarrow> drop_bit k (v :: u32) = 0"
proof -
  assume "unat v < 2 ^ k"
  then have "unat (drop_bit k v) = 0" unfolding unat_drop_bit_eq by (simp add: drop_bit_eq_div)
  then show ?thesis by (simp only: unat_eq_zero)
qed

lemma asn1_read_arc_at:
  assumes rd: "rd_at d (arc_bytes v @ bs)"
  shows "asn1_read_arc d b 0 = Inr ((v, ucast (v AND 0x7f)), asn1_adv d (length (arc_bytes v)))"
proof -
  let ?l = "ucast (v AND 0x7f) :: u8"
  have hi: "asn1_read_arc d b (drop_bit (k + 7) v) = Inr ((v, ?l), asn1_adv d (Suc n))"
    if "rd_at d (hi_byte k v # cs)"
      "\<And>d b. rd_at d cs \<Longrightarrow> asn1_read_arc d b (drop_bit k v) = Inr ((v, ?l), asn1_adv d n)" for d b k cs n
    using asn1_read_arc_hi [OF that(1)] that(2) [OF rd_at_tl [OF that(1)]] by (simp add: asn1_adv_adv)
  have r0: "rd_at d (?l # bs) \<Longrightarrow> asn1_read_arc d b (drop_bit 7 v) = Inr ((v, ?l), asn1_adv d (Suc 0))" for d b
    using asn1_read_arc_last [of d v bs b] by simp
  have r1: "rd_at d (hi_byte 7 v # ?l # bs) \<Longrightarrow> asn1_read_arc d b (drop_bit 14 v) = Inr ((v, ?l), asn1_adv d (Suc (Suc 0)))" for d b
    using hi [of d 7 "?l # bs" "Suc 0" b] r0 by simp
  have r2: "rd_at d (hi_byte 14 v # hi_byte 7 v # ?l # bs) \<Longrightarrow> asn1_read_arc d b (drop_bit 21 v) = Inr ((v, ?l), asn1_adv d (Suc (Suc (Suc 0))))" for d b
    using hi [of d 14 "hi_byte 7 v # ?l # bs" "Suc (Suc 0)" b] r1 by simp
  have r3: "rd_at d (hi_byte 21 v # hi_byte 14 v # hi_byte 7 v # ?l # bs) \<Longrightarrow> asn1_read_arc d b (drop_bit 28 v) = Inr ((v, ?l), asn1_adv d (Suc (Suc (Suc (Suc 0)))))" for d b
    using hi [of d 21 "hi_byte 14 v # hi_byte 7 v # ?l # bs" "Suc (Suc (Suc 0))" b] r2 by simp
  have r4: "rd_at d (hi_byte 28 v # hi_byte 21 v # hi_byte 14 v # hi_byte 7 v # ?l # bs) \<Longrightarrow> asn1_read_arc d b (drop_bit 35 v) = Inr ((v, ?l), asn1_adv d (Suc (Suc (Suc (Suc (Suc 0))))))" for d b
    using hi [of d 28 "hi_byte 21 v # hi_byte 14 v # hi_byte 7 v # ?l # bs" "Suc (Suc (Suc (Suc 0)))" b] r3 by simp
  have le: "(numeral m :: u32) \<le> v \<longleftrightarrow> unat (numeral m :: u32) \<le> unat v" for m by (rule word_le_nat_alt)
  consider "unat v < 2 ^ 7" | "2 ^ 7 \<le> unat v" "unat v < 2 ^ 14" | "2 ^ 14 \<le> unat v" "unat v < 2 ^ 21"
    | "2 ^ 21 \<le> unat v" "unat v < 2 ^ 28" | "2 ^ 28 \<le> unat v" by linarith
  then show ?thesis
  proof cases
    case 1
    then have "arc_bytes v = [?l]" by (simp add: arc_bytes_def le)
    with rd r0 [of d b] drop_bit_small [OF 1] show ?thesis by simp
  next
    case 2
    then have "arc_bytes v = [hi_byte 7 v, ?l]" by (simp add: arc_bytes_def le)
    with rd r1 [of d b] drop_bit_small [OF 2(2)] show ?thesis by simp
  next
    case 3
    then have "arc_bytes v = [hi_byte 14 v, hi_byte 7 v, ?l]" by (simp add: arc_bytes_def le)
    with rd r2 [of d b] drop_bit_small [OF 3(2)] show ?thesis by simp
  next
    case 4
    then have "arc_bytes v = [hi_byte 21 v, hi_byte 14 v, hi_byte 7 v, ?l]" by (simp add: arc_bytes_def le)
    with rd r3 [of d b] drop_bit_small [OF 4(2)] show ?thesis by simp
  next
    case 5
    have "drop_bit 35 v = 0" using unat_u32 [of v] by (intro drop_bit_small) simp
    moreover from 5 have "arc_bytes v = [hi_byte 28 v, hi_byte 21 v, hi_byte 14 v, hi_byte 7 v, ?l]"
      by (simp add: arc_bytes_def le)
    ultimately show ?thesis using rd r4 [of d b] by simp
  qed
qed

subsection \<open>Identifiers\<close>

text \<open>The string form of an identifier, its arcs separated by spaces, and its encoding.\<close>

definition arcs_string :: "nat list \<Rightarrow> bytes" where
  "arcs_string cs = concat (map (\<lambda>c. 0x20 # print_u c) cs)"

definition oid_string :: "nat \<Rightarrow> nat \<Rightarrow> nat list \<Rightarrow> bytes" where
  "oid_string a b cs = print_u a @ [0x20] @ print_u b @ arcs_string cs"

definition oid_content :: "nat \<Rightarrow> nat \<Rightarrow> nat list \<Rightarrow> bytes" where
  "oid_content a b cs = word_of_nat (40 * a + b) # concat (map (\<lambda>c. arc_bytes (word_of_nat c)) cs)"

definition valid_oid :: "nat \<Rightarrow> nat \<Rightarrow> nat list \<Rightarrow> bool" where
  "valid_oid a b cs \<longleftrightarrow> b < 40 \<and> 40 * a + b < 256 \<and> (\<forall>c \<in> set cs. c < 2 ^ 32)"

lemma arcs_string_start: "arcs_string cs = [] \<or> \<not> isdigit (hd (arcs_string cs))"
  by (cases cs) (simp_all add: arcs_string_def isdigit_def)

lemma asn1_write_OID_loop_out:
  assumes "wr_asn1 d" and "asn1_fits d (length (concat (map (\<lambda>c. arc_bytes (word_of_nat c)) cs)))"
    and "\<forall>c \<in> set cs. c < 2 ^ 32"
  shows "asn1_write_OID_loop d (arcs_string cs) =
    asn1_pop_tag (asn1_out d (concat (map (\<lambda>c. arc_bytes (word_of_nat c)) cs)))"
  using assms
proof (induction cs arbitrary: d)
  case Nil
  then show ?case by (subst asn1_write_OID_loop.simps) (simp add: arcs_string_def asn1_out_Nil)
next
  case (Cons c cs)
  let ?b = "arc_bytes (word_of_nat c)"
  have p: "arcs_string (c # cs) = [0x20] @ print_u c @ arcs_string cs" by (simp add: arcs_string_def)
  have "strtol (arcs_string (c # cs)) = (int c, arcs_string cs)"
    unfolding p using Cons.prems(3) arcs_string_start by (intro strtol_print) auto
  moreover have "asn1_write_arc d (word_of_nat c) = Inr (True, asn1_out d ?b)"
    using Cons.prems by (intro asn1_write_arc_out) (auto simp: asn1_fits_def)
  moreover have "asn1_write_OID_loop (asn1_out d ?b) (arcs_string cs) =
      asn1_pop_tag (asn1_out (asn1_out d ?b) (concat (map (\<lambda>c. arc_bytes (word_of_nat c)) cs)))"
    using Cons.prems by (intro Cons.IH) (auto simp: asn1_fits_def)
  ultimately show ?case
    by (subst asn1_write_OID_loop.simps) (simp add: asn1_out_out p)
qed

lemma asn1_write_OID_out:
  assumes v: "valid_oid a b cs" and d: "wr_asn1 d" and f: "asn1_fits d (length (tlv ASN1_OID (oid_content a b cs)))"
  shows "asn1_write_OID d (oid_string a b cs) = Inr (True, asn1_out d (tlv ASN1_OID (oid_content a b cs)))"
proof -
  let ?o = "asn1_opened d ASN1_OID" and ?cs = "concat (map (\<lambda>c. arc_bytes (word_of_nat c)) cs)"
  have o: "wr_asn1 ?o" "asn1_fits ?o (Suc (length ?cs))"
    using d f length_tlv [of "oid_content a b cs" ASN1_OID] by (simp_all add: asn1_fits_def oid_content_def)
  have "strtol (oid_string a b cs) = (int a, [0x20] @ print_u b @ arcs_string cs)"
    using strtol_print [of a "[0x20] @ print_u b @ arcs_string cs" "[]"] v by (simp add: oid_string_def valid_oid_def isdigit_def)
  moreover have "strtol ([0x20] @ print_u b @ arcs_string cs) = (int b, arcs_string cs)"
    using v arcs_string_start by (intro strtol_print) (auto simp: valid_oid_def)
  moreover have "asn1_write_uint8 ?o (word_of_nat (40 * a + b)) = Inr (True, asn1_out ?o [word_of_nat (40 * a + b)])"
    using o by (intro asn1_write_uint8_out) (auto simp: asn1_fits_def)
  moreover have "asn1_write_OID_loop (asn1_out ?o [word_of_nat (40 * a + b)]) (arcs_string cs) =
      asn1_pop_tag (asn1_out (asn1_out ?o [word_of_nat (40 * a + b)]) ?cs)"
    using o v by (intro asn1_write_OID_loop_out) (auto simp: asn1_fits_def valid_oid_def)
  ultimately show ?thesis
    using asn1_tag_around(1,3) [OF d f] by (simp add: asn1_write_OID_def asn1_out_out oid_content_def)
qed

lemma asn1_read_OID_loop_at:
  assumes "rd_at d (concat (map (\<lambda>c. arc_bytes (word_of_nat c)) cs))"
    and "asn1_nesting d = \<lparr>nest_start = s, nest_taglen = word_of_nat (k + length (concat (map (\<lambda>c. arc_bytes (word_of_nat c)) cs)))\<rparr> # ns"
    and "asn1_ofs d = s + k" and "\<forall>c \<in> set cs. c < 2 ^ 32"
  shows "asn1_read_OID_loop d b oid =
    Inr (oid @ arcs_string cs, asn1_adv d (length (concat (map (\<lambda>c. arc_bytes (word_of_nat c)) cs))))"
  using assms
proof (induction cs arbitrary: d k b oid)
  case Nil
  have "asn1_tag_remaining d = (int 0, d)"
    using Nil rd_at_wf [OF Nil(1)] rd_at_bound [OF Nil(1)] by (intro tag_remaining_at [where k = k]) auto
  with rd_at_wf(2) [OF Nil(1)] show ?case
    by (subst asn1_read_OID_loop.simps) (simp add: asn1_adv_def arcs_string_def)
next
  case (Cons c cs)
  let ?b = "arc_bytes (word_of_nat c)" and ?cs = "concat (map (\<lambda>c. arc_bytes (word_of_nat c)) cs)"
  have r: "rd_at d (?b @ ?cs)" using Cons.prems(1) by simp
  have c: "unat (word_of_nat c :: u32) = c" using Cons.prems(4) by (simp add: unsigned_of_nat take_bit_nat_eq_self_iff)
  have pos: "0 < int (length ?b) + int (length ?cs)" by (simp add: arc_bytes_def)
  have rem: "asn1_tag_remaining d = (int (length (?b @ ?cs)), d)"
    using Cons.prems rd_at_wf [OF r] rd_at_bound [OF r] by (intro tag_remaining_at [where k = k]) auto
  have "asn1_read_OID_loop (asn1_adv d (length ?b)) b' oid' = Inr (oid' @ arcs_string cs, asn1_adv (asn1_adv d (length ?b)) (length ?cs))" for b' oid'
    using Cons.prems by (intro Cons.IH [where k = "k + length ?b"] rd_at_adv [OF r]) (auto simp: ac_simps)
  with rem pos c rd_at_wf(2) [OF r] asn1_read_arc_at [OF r, of b] show ?case
    by (subst asn1_read_OID_loop.simps) (simp add: asn1_adv_adv arcs_string_def)
qed

lemma asn1_read_OID_at:
  assumes v: "valid_oid a b cs" and rd: "rd_at d (tlv ASN1_OID (oid_content a b cs))"
    and l: "length (oid_content a b cs) < 2 ^ 24"
  shows "asn1_read_OID junk d = Inr ((oid_string a b cs, True), asn1_adv d (length (tlv ASN1_OID (oid_content a b cs))))"
proof -
  let ?h = "word_of_nat (40 * a + b) :: u8" and ?cs = "concat (map (\<lambda>c. arc_bytes (word_of_nat c)) cs)"
  let ?n = "length (oid_content a b cs)"
  have h: "unat ?h div 40 = a" "unat ?h mod 40 = b"
    using v by (simp_all add: valid_oid_def unsigned_of_nat take_bit_eq_mod del: of_nat_add of_nat_mult)
  have r: "rd_at (asn1_entered d ?n) (?h # ?cs)"
    using rd_at_entered [of d ASN1_OID "oid_content a b cs" "[]"] rd by (simp add: oid_content_def)
  have "asn1_read_OID_loop (asn1_adv (asn1_entered d ?n) (Suc 0)) x oid =
      Inr (oid @ arcs_string cs, asn1_adv (asn1_adv (asn1_entered d ?n) (Suc 0)) (length ?cs))" for x oid
    using v by (intro asn1_read_OID_loop_at [where k = 1] rd_at_tl [OF r])
      (auto simp: asn1_entered_def Let_def oid_content_def valid_oid_def)
  moreover have "Suc 0 + length ?cs = ?n" by (simp add: oid_content_def)
  ultimately have "asn1_read_OID_loop (asn1_adv (asn1_entered d ?n) (Suc 0)) x oid =
      Inr (oid @ arcs_string cs, asn1_adv (asn1_entered d ?n) ?n)" for x oid
    by (simp only: asn1_adv_adv)
  with asn1_read_uint8_at [OF r] asn1_inside [OF rd l] h show ?thesis
    by (simp add: asn1_read_OID_def oid_string_def del: of_nat_add of_nat_mult)
qed

end
