(* ===== verification/Asn1_Props.thy ===== *)
theory Asn1_Props
  imports Asn1_Values
begin

text \<open>
  The properties of the ASN.1 component: the readers on hostile input, the round trips of
  every value type, the integer encoding, and the places where the code does not do what it
  means to.
\<close>





text \<open>
  Object identifiers: the string of an identifier whose first two arcs fit one byte and
  whose other arcs are 32-bit numbers, written and read back, is the same string, and
  \<open>asn1_check_OID\<close> accepts it.
\<close>

theorem asn1_OID_roundtrip:
  assumes v: "valid_oid a b cs" and l: "length (oid_content a b cs) < 2 ^ 24"
  shows "\<exists>w. asn1_write_OID asn1_empty (oid_string a b cs) = Inr (True, w) \<and>
    asn1_buf w = tlv ASN1_OID (oid_content a b cs) \<and>
    (\<exists>d. asn1_read_OID junk (snd (asn1_load (asn1_buf w))) = Inr ((oid_string a b cs, True), d)) \<and>
    (\<exists>d. asn1_check_OID junk (snd (asn1_load (asn1_buf w))) (oid_string a b cs) = Inr (True, d))"
proof -
  let ?t = "tlv ASN1_OID (oid_content a b cs)"
  have t: "length ?t < MAX_TALLOC_SIZE" using l by (simp add: tlv_def der_len_def MAX_TALLOC_SIZE_def)
  then have w: "asn1_write_OID asn1_empty (oid_string a b cs) = Inr (True, asn1_out asn1_empty ?t)"
    by (intro asn1_write_OID_out [OF v]) (simp_all add: asn1_fits_def asn1_empty_def wr_asn1_def)
  have "rd_at (snd (asn1_load ?t)) ?t" using wf_asn1_load [OF t] by (auto simp: rd_at_def)
  from asn1_read_OID_at [OF v this l, of junk] w show ?thesis
    by (simp add: asn1_check_OID_def asn1_empty_def)
qed

theorem asn1_OID_roundtrip_witness:
  "valid_oid 1 3 [6, 1, 5, 5, 2] \<and>
   (\<exists>w. asn1_write_OID asn1_empty (oid_string 1 3 [6, 1, 5, 5, 2]) = Inr (True, w) \<and>
      asn1_buf w = [6, 6, 0x2b, 6, 1, 5, 5, 2])"
proof -
  have v: "valid_oid 1 3 [6, 1, 5, 5, 2]" by (simp add: valid_oid_def)
  have c: "oid_content 1 3 [6, 1, 5, 5, 2] = [0x2b, 6, 1, 5, 5, 2]" by (simp add: oid_content_def arc_bytes_def word_le_nat_alt)
  have l: "length (oid_content 1 3 [6, 1, 5, 5, 2]) < 2 ^ 24" unfolding c by simp
  have t: "tlv ASN1_OID (oid_content 1 3 [6, 1, 5, 5, 2]) = [6, 6, 0x2b, 6, 1, 5, 5, 2]"
    unfolding c by (simp add: tlv_def der_len_def ASN1_OID_def)
  from asn1_OID_roundtrip [OF v l, of 0] v show ?thesis unfolding t by blast
qed

text \<open>
  C11. \<open>asn1_write_Integer\<close> writes, for every 32-bit value, the tag and a content whose two's
  complement value is that integer.
\<close>

theorem asn1_write_Integer_twos_complement:
  "\<exists>w. asn1_write_Integer asn1_empty i = Inr (True, w) \<and> asn1_buf w = tlv ASN1_INTEGER (int_content i) \<and>
     length (int_content i) \<le> 5 \<and> twos (int_content i) = sint i"
  using asn1_write_Integer_out [OF wr_asn1_empty, of i] length_tlv_ints [of "[i]"] int_content_twos [of i]
    length_int_content [of i]
  by (simp add: asn1_fits_def asn1_empty_def MAX_TALLOC_SIZE_def)

text \<open>
  The reader does not sign-extend: a negative integer comes back with the missing sign
  bytes taken as zero, so that -2 is read as 254.
\<close>

theorem asn1_negative_Integer_misread:
  assumes "sint i < 0"
  shows "\<exists>w d. asn1_write_Integer asn1_empty i = Inr (True, w) \<and>
    asn1_read_Integer (snd (asn1_load (asn1_buf w))) = Inr ((i + 256 ^ length (int_content i), True), d)"
proof -
  let ?p = "int_content i"
  have t: "length (tlv ASN1_INTEGER ?p) < MAX_TALLOC_SIZE"
    using length_tlv_ints [of "[i]"] by (simp add: MAX_TALLOC_SIZE_def)
  have "rd_at (snd (asn1_load (tlv ASN1_INTEGER ?p))) (tlv ASN1_INTEGER ?p)"
    using wf_asn1_load [OF t] by (auto simp: rd_at_def)
  from asn1_read_Integer_at [OF this] length_int_content [of i] obtain d where
    r: "asn1_read_Integer (snd (asn1_load (tlv ASN1_INTEGER ?p))) = Inr ((word_of_int (be_value 0 ?p), True), d)"
    by auto
  have "be_value 0 ?p = sint i + 256 ^ length ?p"
    using int_content_twos [of i] assms be_value_start [of "- 1" ?p] by (auto simp: twos_def)
  then have "(word_of_int (be_value 0 ?p) :: u32) = i + 256 ^ length ?p" by simp
  with r asn1_write_Integer_out [OF wr_asn1_empty, of i] t show ?thesis
    by (simp add: asn1_fits_def asn1_empty_def)
qed

theorem asn1_negative_Integer_misread_witness:
  "\<exists>w d. asn1_write_Integer asn1_empty (-2) = Inr (True, w) \<and>
    asn1_read_Integer (snd (asn1_load (asn1_buf w))) = Inr ((254, True), d)"
proof -
  have "be_bytes (-2) = [0xFF, 0xFF, 0xFF, 0xFE]" by (simp add: be_bytes.simps)
  then have "int_content (-2) = [0xFE]" by (simp add: int_content_def emit_def)
  with asn1_negative_Integer_misread [of "-2"] show ?thesis by simp
qed

text \<open>
  C14. \<open>asn1_check_enumerated\<close> accepts every value: on the encoding of \<open>b\<close> it reports success
  whatever value \<open>v\<close> it was asked to check for.
\<close>

theorem asn1_check_enumerated_accepts_all:
  "\<exists>d. asn1_check_enumerated junk (snd (asn1_load (tlv ASN1_ENUMERATED [b]))) v = Inr (True, d)"
proof -
  let ?t = "tlv ASN1_ENUMERATED [b]"
  have t: "length ?t < MAX_TALLOC_SIZE" by (simp add: tlv_def der_len_def MAX_TALLOC_SIZE_def)
  have rd: "rd_at (snd (asn1_load ?t)) ?t" using wf_asn1_load [OF t] by (auto simp: rd_at_def)
  from asn1_inside [OF rd] asn1_inside_byte [OF rd] show ?thesis
    by (simp add: asn1_check_enumerated_def)
qed

text \<open>
  C17. \<open>asn1_check_BOOLEAN\<close> compares the expected value with the length byte instead of the
  content: on the encoding of either boolean it succeeds for True and fails for False.
\<close>

theorem asn1_check_BOOLEAN_ignores_value:
  "\<exists>d. asn1_check_BOOLEAN (snd (asn1_load (tlv ASN1_BOOLEAN [b]))) expected = Inr (expected, d)"
proof -
  let ?t = "tlv ASN1_BOOLEAN [b]" and ?d = "snd (asn1_load (tlv ASN1_BOOLEAN [b]))"
  have t: "?t = [ASN1_BOOLEAN, 1, b]" "length ?t < MAX_TALLOC_SIZE" by (simp_all add: tlv_def der_len_def MAX_TALLOC_SIZE_def)
  have rd: "rd_at ?d ?t" using wf_asn1_load [OF t(2)] by (auto simp: rd_at_def)
  then have rd': "rd_at ?d [ASN1_BOOLEAN, 1, b]" by (simp only: t)
  from asn1_read_uint8_at [OF rd'] asn1_read_uint8_at [OF rd_at_tl [OF rd']] rd_at_wf(2) [OF rd] show ?thesis
    by (simp add: asn1_check_BOOLEAN_def)
qed

text \<open>
  A content of \<open>2^24\<close> bytes or more is written with a length field of three bytes that
  holds the length modulo \<open>2^24\<close>, and no error is reported.
\<close>

theorem asn1_long_length_truncated:
  assumes "2 ^ 24 \<le> length p" and "length p + 5 < MAX_TALLOC_SIZE"
  shows "\<exists>w x y z. asn1_write_OctetString asn1_empty p = Inr (True, w) \<and>
    asn1_buf w = [ASN1_OCTET_STRING, 0x83, x, y, z] @ p \<and>
    65536 * unat x + 256 * unat y + unat z = length p mod 2 ^ 24"
proof -
  let ?n = "length p"
  let ?x = "word_of_nat (?n div 65536) :: u8" and ?y = "word_of_nat (?n div 256) :: u8" and ?z = "word_of_nat ?n :: u8"
  have "asn1_write_OctetString asn1_empty p = Inr (True, asn1_out asn1_empty (tlv ASN1_OCTET_STRING p))"
    using asn1_tag_around [OF wr_asn1_empty, of ASN1_OCTET_STRING p] assms(2) length_tlv_le [of ASN1_OCTET_STRING p]
    by (simp add: asn1_write_OctetString_def asn1_fits_def asn1_empty_def)
  moreover have "tlv ASN1_OCTET_STRING p = [ASN1_OCTET_STRING, 0x83, ?x, ?y, ?z] @ p"
    using assms(1) by (simp add: tlv_def der_len_def)
  moreover have "65536 * unat ?x + 256 * unat ?y + unat ?z = ?n mod 2 ^ 24"
  proof -
    have u: "unat ?x = ?n div 65536 mod 256" "unat ?y = ?n div 256 mod 256" "unat ?z = ?n mod 256"
      by (simp_all add: unsigned_of_nat take_bit_eq_mod)
    have "?n mod (256 * 65536) = 256 * (?n div 256 mod 65536) + ?n mod 256"
      using mod_mult2_eq [of ?n 256 65536] by simp
    moreover have "?n div 256 mod (256 * 256) = 256 * (?n div 256 div 256 mod 256) + ?n div 256 mod 256"
      by (rule mod_mult2_eq)
    ultimately show ?thesis unfolding u by (simp flip: div_mult2_eq)
  qed
  ultimately show ?thesis by (auto simp: asn1_empty_def)
qed

theorem asn1_long_length_truncated_witness:
  "\<exists>w x y z. asn1_write_OctetString asn1_empty (replicate (2 ^ 24) 0) = Inr (True, w) \<and>
    asn1_buf w = [ASN1_OCTET_STRING, 0x83, x, y, z] @ replicate (2 ^ 24) 0 \<and>
    65536 * unat x + 256 * unat y + unat z = 0"
  using asn1_long_length_truncated [of "replicate (2 ^ 24) 0"] by (simp add: MAX_TALLOC_SIZE_def)

text \<open>
  Where the string of an identifier does not go on with a number, \<open>asn1_write_OID\<close> writes
  zero arcs until the allocator refuses the buffer: the loop ends, with an error, only after
  the whole allocation limit has been filled.
\<close>

theorem asn1_write_OID_exhausts_memory:
  assumes "strtol p = (0, p)" and "p \<noteq> []" and "wr_asn1 d" and "length (asn1_buf d) < MAX_TALLOC_SIZE"
  shows "\<exists>d'. asn1_write_OID_loop d p = Inr (False, d') \<and> asn1_has_error d' \<and> asn1_length d' = MAX_TALLOC_SIZE - 1"
  using assms(3,4)
proof (induction "MAX_TALLOC_SIZE - length (asn1_buf d)" arbitrary: d)
  case 0
  then show ?case by simp
next
  case (Suc n)
  have arc0: "arc_bytes 0 = [0]" by (simp add: arc_bytes_def word_le_nat_alt)
  show ?case
  proof (cases "length (asn1_buf d) + 1 < MAX_TALLOC_SIZE")
    case True
    then have f: "asn1_fits d (length (arc_bytes 0))" by (simp add: asn1_fits_def arc0)
    have "n = MAX_TALLOC_SIZE - length (asn1_buf (asn1_out d [0]))" using Suc(2) by simp
    from Suc(1) [OF this] Suc(3) True obtain d' where
      "asn1_write_OID_loop (asn1_out d [0]) p = Inr (False, d')" "asn1_has_error d'" "asn1_length d' = MAX_TALLOC_SIZE - 1"
      by auto
    with asn1_write_arc_out [OF Suc(3) f] assms(1,2) show ?thesis
      by (subst asn1_write_OID_loop.simps) (simp add: arc0)
  next
    case False
    with Suc(3,4) have "asn1_write_arc d 0 = Inr (False, d\<lparr>asn1_buf := [], asn1_has_error := True\<rparr>)"
      by (simp add: asn1_write_arc_def asn1_write_if_def word_le_nat_alt asn1_write_uint8_def asn1_write_def wr_asn1_def)
    with False Suc(3,4) assms(1,2) show ?thesis
      by (subst asn1_write_OID_loop.simps) (auto simp: wr_asn1_def)
  qed
qed

theorem asn1_write_OID_exhausts_memory_witness:
  "\<exists>d'. asn1_write_OID_loop (asn1_out (asn1_opened asn1_empty ASN1_OID) [40]) [0x2E, 0x33] = Inr (False, d') \<and>
     asn1_has_error d'"
proof -
  have "strtol [0x2E, 0x33] = (0, [0x2E, 0x33])" by (simp add: strtol_def isspace_def isdigit_def)
  from asn1_write_OID_exhausts_memory [OF this, of "asn1_out (asn1_opened asn1_empty ASN1_OID) [40]"]
  show ?thesis by (auto simp: asn1_empty_def wr_asn1_def asn1_opened_def MAX_TALLOC_SIZE_def)
qed

end
