(* ===== verification/Crypto.thy ===== *)
theory Crypto
  imports Smb_Prelude
begin

text \<open>
  The hash functions and the stream cipher of \<open>lib/crypto\<close>: the table-driven CRC-32, RC4, MD4,
  MD5 with its incremental interface, and HMAC-MD5. Arrays are lists; a C array of 64 or 128
  bytes that is filled in place is updated with \<open>store_at\<close>, whose writes the lemmas show to
  stay inside. The host is little endian, as the \<open>byteReverse\<close> of \<open>md5.c\<close> assumes to be
  harmless: a \<open>uint32_t\<close> stored through a cast has its bytes in the order of \<open>le32\<close>.
\<close>

definition store_at :: "'a list \<Rightarrow> nat \<Rightarrow> 'a list \<Rightarrow> 'a list" where
  "store_at xs i ys = take i xs @ ys @ drop (i + length ys) xs"

section \<open>CRC-32\<close>

definition crc32_tab :: "u32 list" where
  "crc32_tab =
    [0x00000000, 0x77073096, 0xee0e612c, 0x990951ba, 0x076dc419, 0x706af48f,
     0xe963a535, 0x9e6495a3, 0x0edb8832, 0x79dcb8a4, 0xe0d5e91e, 0x97d2d988,
     0x09b64c2b, 0x7eb17cbd, 0xe7b82d07, 0x90bf1d91, 0x1db71064, 0x6ab020f2,
     0xf3b97148, 0x84be41de, 0x1adad47d, 0x6ddde4eb, 0xf4d4b551, 0x83d385c7,
     0x136c9856, 0x646ba8c0, 0xfd62f97a, 0x8a65c9ec, 0x14015c4f, 0x63066cd9,
     0xfa0f3d63, 0x8d080df5, 0x3b6e20c8, 0x4c69105e, 0xd56041e4, 0xa2677172,
     0x3c03e4d1, 0x4b04d447, 0xd20d85fd, 0xa50ab56b, 0x35b5a8fa, 0x42b2986c,
     0xdbbbc9d6, 0xacbcf940, 0x32d86ce3, 0x45df5c75, 0xdcd60dcf, 0xabd13d59,
     0x26d930ac, 0x51de003a, 0xc8d75180, 0xbfd06116, 0x21b4f4b5, 0x56b3c423,
     0xcfba9599, 0xb8bda50f, 0x2802b89e, 0x5f058808, 0xc60cd9b2, 0xb10be924,
     0x2f6f7c87, 0x58684c11, 0xc1611dab, 0xb6662d3d, 0x76dc4190, 0x01db7106,
     0x98d220bc, 0xefd5102a, 0x71b18589, 0x06b6b51f, 0x9fbfe4a5, 0xe8b8d433,
     0x7807c9a2, 0x0f00f934, 0x9609a88e, 0xe10e9818, 0x7f6a0dbb, 0x086d3d2d,
     0x91646c97, 0xe6635c01, 0x6b6b51f4, 0x1c6c6162, 0x856530d8, 0xf262004e,
     0x6c0695ed, 0x1b01a57b, 0x8208f4c1, 0xf50fc457, 0x65b0d9c6, 0x12b7e950,
     0x8bbeb8ea, 0xfcb9887c, 0x62dd1ddf, 0x15da2d49, 0x8cd37cf3, 0xfbd44c65,
     0x4db26158, 0x3ab551ce, 0xa3bc0074, 0xd4bb30e2, 0x4adfa541, 0x3dd895d7,
     0xa4d1c46d, 0xd3d6f4fb, 0x4369e96a, 0x346ed9fc, 0xad678846, 0xda60b8d0,
     0x44042d73, 0x33031de5, 0xaa0a4c5f, 0xdd0d7cc9, 0x5005713c, 0x270241aa,
     0xbe0b1010, 0xc90c2086, 0x5768b525, 0x206f85b3, 0xb966d409, 0xce61e49f,
     0x5edef90e, 0x29d9c998, 0xb0d09822, 0xc7d7a8b4, 0x59b33d17, 0x2eb40d81,
     0xb7bd5c3b, 0xc0ba6cad, 0xedb88320, 0x9abfb3b6, 0x03b6e20c, 0x74b1d29a,
     0xead54739, 0x9dd277af, 0x04db2615, 0x73dc1683, 0xe3630b12, 0x94643b84,
     0x0d6d6a3e, 0x7a6a5aa8, 0xe40ecf0b, 0x9309ff9d, 0x0a00ae27, 0x7d079eb1,
     0xf00f9344, 0x8708a3d2, 0x1e01f268, 0x6906c2fe, 0xf762575d, 0x806567cb,
     0x196c3671, 0x6e6b06e7, 0xfed41b76, 0x89d32be0, 0x10da7a5a, 0x67dd4acc,
     0xf9b9df6f, 0x8ebeeff9, 0x17b7be43, 0x60b08ed5, 0xd6d6a3e8, 0xa1d1937e,
     0x38d8c2c4, 0x4fdff252, 0xd1bb67f1, 0xa6bc5767, 0x3fb506dd, 0x48b2364b,
     0xd80d2bda, 0xaf0a1b4c, 0x36034af6, 0x41047a60, 0xdf60efc3, 0xa867df55,
     0x316e8eef, 0x4669be79, 0xcb61b38c, 0xbc66831a, 0x256fd2a0, 0x5268e236,
     0xcc0c7795, 0xbb0b4703, 0x220216b9, 0x5505262f, 0xc5ba3bbe, 0xb2bd0b28,
     0x2bb45a92, 0x5cb36a04, 0xc2d7ffa7, 0xb5d0cf31, 0x2cd99e8b, 0x5bdeae1d,
     0x9b64c2b0, 0xec63f226, 0x756aa39c, 0x026d930a, 0x9c0906a9, 0xeb0e363f,
     0x72076785, 0x05005713, 0x95bf4a82, 0xe2b87a14, 0x7bb12bae, 0x0cb61b38,
     0x92d28e9b, 0xe5d5be0d, 0x7cdcefb7, 0x0bdbdf21, 0x86d3d2d4, 0xf1d4e242,
     0x68ddb3f8, 0x1fda836e, 0x81be16cd, 0xf6b9265b, 0x6fb077e1, 0x18b74777,
     0x88085ae6, 0xff0f6a70, 0x66063bca, 0x11010b5c, 0x8f659eff, 0xf862ae69,
     0x616bffd3, 0x166ccf45, 0xa00ae278, 0xd70dd2ee, 0x4e048354, 0x3903b3c2,
     0xa7672661, 0xd06016f7, 0x4969474d, 0x3e6e77db, 0xaed16a4a, 0xd9d65adc,
     0x40df0b66, 0x37d83bf0, 0xa9bcae53, 0xdebb9ec5, 0x47b2cf7f, 0x30b5ffe9,
     0xbdbdf21c, 0xcabac28a, 0x53b39330, 0x24b4a3a6, 0xbad03605, 0xcdd70693,
     0x54de5729, 0x23d967bf, 0xb3667a2e, 0xc4614ab8, 0x5d681b02, 0x2a6f2b94,
     0xb40bbe37, 0xc30c8ea1, 0x5a05df1b, 0x2d02ef8d]"

definition crc32_step :: "u32 \<Rightarrow> u8 \<Rightarrow> u32" where
  "crc32_step crc p = crc32_tab ! unat ((crc XOR ucast p) AND 0xFF) XOR drop_bit 8 crc"

definition crc32_calc_buffer :: "bytes \<Rightarrow> u32" where
  "crc32_calc_buffer buf = foldl crc32_step (NOT 0) buf XOR NOT 0"

section \<open>RC4\<close>

record arcfour_state =
  sbox :: bytes
  index_i :: u8
  index_j :: u8

text \<open>The exchange \<open>tc = sbox[i]; sbox[i] = sbox[j]; sbox[j] = tc\<close>.\<close>

definition sbox_swap :: "bytes \<Rightarrow> u8 \<Rightarrow> u8 \<Rightarrow> bytes" where
  "sbox_swap sb i j = (sb[unat i := sb ! unat j])[unat j := sb ! unat i]"

definition arcfour_init_step :: "bytes \<Rightarrow> bytes \<times> u8 \<Rightarrow> nat \<Rightarrow> bytes \<times> u8" where
  "arcfour_init_step key = (\<lambda>(sb, j) ind.
     let j = j + (sb ! ind + key ! (ind mod length key))
     in (sbox_swap sb (word_of_nat ind) j, j))"

text \<open>An empty key is a division by zero.\<close>

definition arcfour_init :: "bytes \<Rightarrow> arcfour_state res" where
  "arcfour_init key =
     (if key = [] then Inl Fault
      else let sb0 = map word_of_nat [0..<256];
               (sb, j) = foldl (arcfour_init_step key) (sb0, 0) [0..<256]
           in Inr \<lparr>sbox = sb, index_i = 0, index_j = 0\<rparr>)"

definition arcfour_crypt_byte :: "arcfour_state \<Rightarrow> u8 \<Rightarrow> u8 \<times> arcfour_state" where
  "arcfour_crypt_byte st d =
     (let i = index_i st + 1;
          j = index_j st + sbox st ! unat i;
          sb = sbox_swap (sbox st) i j;
          t = sb ! unat i + sb ! unat j
      in (d XOR sb ! unat t, \<lparr>sbox = sb, index_i = i, index_j = j\<rparr>))"

fun arcfour_crypt_sbox :: "arcfour_state \<Rightarrow> bytes \<Rightarrow> bytes \<times> arcfour_state" where
  "arcfour_crypt_sbox st [] = ([], st)"
| "arcfour_crypt_sbox st (d # ds) =
     (let (c, st) = arcfour_crypt_byte st d; (cs, st) = arcfour_crypt_sbox st ds in (c # cs, st))"

definition arcfour_crypt_blob :: "bytes \<Rightarrow> bytes \<Rightarrow> bytes res" where
  "arcfour_crypt_blob data key = chk (arcfour_init key) (\<lambda>st. Inr (fst (arcfour_crypt_sbox st data)))"

text \<open>The variant for a 16-byte key array: the key is the first 16 bytes behind the pointer.\<close>

definition arcfour_crypt :: "bytes \<Rightarrow> bytes \<Rightarrow> bytes res" where
  "arcfour_crypt data keystr = chk (get_bytes keystr 0 16) (\<lambda>key. arcfour_crypt_blob data key)"

section \<open>MD4\<close>

type_synonym md_state = "u32 \<times> u32 \<times> u32 \<times> u32"

definition md4_F :: "u32 \<Rightarrow> u32 \<Rightarrow> u32 \<Rightarrow> u32" where "md4_F X Y Z = (X AND Y) OR (NOT X AND Z)"
definition md4_G :: "u32 \<Rightarrow> u32 \<Rightarrow> u32 \<Rightarrow> u32" where "md4_G X Y Z = (X AND Y) OR (X AND Z) OR (Y AND Z)"
definition md4_H :: "u32 \<Rightarrow> u32 \<Rightarrow> u32 \<Rightarrow> u32" where "md4_H X Y Z = X XOR Y XOR Z"

definition lshift :: "u32 \<Rightarrow> nat \<Rightarrow> u32" where
  "lshift x s = push_bit s x OR drop_bit (32 - s) x"

text \<open>
  The calls of the round macros rotate the roles of the four words: \<open>A,B,C,D\<close>, then
  \<open>D,A,B,C\<close>, and so on. Here the quadruple is rotated after each step, so a round is a fold
  over the message indices and shifts of its calls.
\<close>

definition md4_step :: "(u32 \<Rightarrow> u32 \<Rightarrow> u32 \<Rightarrow> u32) \<Rightarrow> u32 \<Rightarrow> u32 list \<Rightarrow> md_state \<Rightarrow> nat \<times> nat \<Rightarrow> md_state" where
  "md4_step f add X = (\<lambda>(a, b, c, d) (k, s). (d, lshift (a + f b c d + X ! k + add) s, b, c))"

definition md4_round1 :: "(nat \<times> nat) list" where
  "md4_round1 =
    [(0, 3), (1, 7), (2, 11), (3, 19), (4, 3), (5, 7), (6, 11), (7, 19),
     (8, 3), (9, 7), (10, 11), (11, 19), (12, 3), (13, 7), (14, 11), (15, 19)]"

definition md4_round2 :: "(nat \<times> nat) list" where
  "md4_round2 =
    [(0, 3), (4, 5), (8, 9), (12, 13), (1, 3), (5, 5), (9, 9), (13, 13),
     (2, 3), (6, 5), (10, 9), (14, 13), (3, 3), (7, 5), (11, 9), (15, 13)]"

definition md4_round3 :: "(nat \<times> nat) list" where
  "md4_round3 =
    [(0, 3), (8, 9), (4, 11), (12, 15), (2, 3), (10, 9), (6, 11), (14, 15),
     (1, 3), (9, 9), (5, 11), (13, 15), (3, 3), (11, 9), (7, 11), (15, 15)]"

definition md_add :: "md_state \<Rightarrow> md_state \<Rightarrow> md_state" where
  "md_add = (\<lambda>(a, b, c, d) (a', b', c', d'). (a + a', b + b', c + c', d + d'))"

definition mdfour64 :: "md_state \<Rightarrow> u32 list \<Rightarrow> md_state" where
  "mdfour64 s M =
     (let s1 = foldl (md4_step md4_F 0 M) s md4_round1;
          s2 = foldl (md4_step md4_G 0x5A827999 M) s1 md4_round2;
          s3 = foldl (md4_step md4_H 0x6ED9EBA1 M) s2 md4_round3
      in md_add s3 s)"

definition copy64 :: "bytes \<Rightarrow> u32 list" where
  "copy64 inp = map (\<lambda>i. push_bit 24 (ucast (inp ! (i * 4 + 3))) OR push_bit 16 (ucast (inp ! (i * 4 + 2))) OR
     push_bit 8 (ucast (inp ! (i * 4 + 1))) OR ucast (inp ! (i * 4 + 0))) [0..<16]"

definition copy4 :: "u32 \<Rightarrow> bytes" where
  "copy4 x = [ucast (x AND 0xFF), ucast (drop_bit 8 x AND 0xFF), ucast (drop_bit 16 x AND 0xFF), ucast (drop_bit 24 x AND 0xFF)]"

definition md_init :: md_state where
  "md_init = (0x67452301, 0xefcdab89, 0x98badcfe, 0x10325476)"

function mdfour_loop :: "md_state \<Rightarrow> bytes \<Rightarrow> md_state \<times> bytes" where
  "mdfour_loop st inp =
     (if length inp > 64 then mdfour_loop (mdfour64 st (copy64 inp)) (drop 64 inp) else (st, inp))"
  by pat_completeness auto
termination by (relation "measure (\<lambda>(st, inp). length inp)") auto

declare mdfour_loop.simps [simp del]

definition mdfour :: "bytes \<Rightarrow> bytes" where
  "mdfour inp =
     (let b = word_of_nat (length inp) * 8 :: u32;
          (st, rest) = mdfour_loop md_init inp;
          n = length rest;
          buf = store_at (store_at (replicate 128 0) 0 rest) n [0x80];
          (A, B, C, D) =
            (if n \<le> 55
             then mdfour64 st (copy64 (store_at buf 56 (copy4 b)))
             else let buf = store_at buf 120 (copy4 b)
                  in mdfour64 (mdfour64 st (copy64 buf)) (copy64 (drop 64 buf)))
      in copy4 A @ copy4 B @ copy4 C @ copy4 D)"

section \<open>MD5\<close>

record MD5Context =
  md5_buf :: md_state
  md5_bits0 :: u32
  md5_bits1 :: u32
  md5_in :: bytes

definition F1 :: "u32 \<Rightarrow> u32 \<Rightarrow> u32 \<Rightarrow> u32" where "F1 x y z = z XOR (x AND (y XOR z))"
definition F2 :: "u32 \<Rightarrow> u32 \<Rightarrow> u32 \<Rightarrow> u32" where "F2 x y z = F1 z x y"
definition F3 :: "u32 \<Rightarrow> u32 \<Rightarrow> u32 \<Rightarrow> u32" where "F3 x y z = x XOR y XOR z"
definition F4 :: "u32 \<Rightarrow> u32 \<Rightarrow> u32 \<Rightarrow> u32" where "F4 x y z = y XOR (x OR NOT z)"

definition MD5STEP :: "(u32 \<Rightarrow> u32 \<Rightarrow> u32 \<Rightarrow> u32) \<Rightarrow> u32 list \<Rightarrow> md_state \<Rightarrow> nat \<times> u32 \<times> nat \<Rightarrow> md_state" where
  "MD5STEP f inp = (\<lambda>(w, x, y, z) (k, t, s).
     let w = w + (f x y z + (inp ! k + t));
         w = push_bit s w OR drop_bit (32 - s) w
     in (z, w + x, x, y))"

definition md5_round1 :: "(nat \<times> u32 \<times> nat) list" where
  "md5_round1 =
    [(0, 0xd76aa478, 7), (1, 0xe8c7b756, 12), (2, 0x242070db, 17), (3, 0xc1bdceee, 22),
     (4, 0xf57c0faf, 7), (5, 0x4787c62a, 12), (6, 0xa8304613, 17), (7, 0xfd469501, 22),
     (8, 0x698098d8, 7), (9, 0x8b44f7af, 12), (10, 0xffff5bb1, 17), (11, 0x895cd7be, 22),
     (12, 0x6b901122, 7), (13, 0xfd987193, 12), (14, 0xa679438e, 17), (15, 0x49b40821, 22)]"

definition md5_round2 :: "(nat \<times> u32 \<times> nat) list" where
  "md5_round2 =
    [(1, 0xf61e2562, 5), (6, 0xc040b340, 9), (11, 0x265e5a51, 14), (0, 0xe9b6c7aa, 20),
     (5, 0xd62f105d, 5), (10, 0x02441453, 9), (15, 0xd8a1e681, 14), (4, 0xe7d3fbc8, 20),
     (9, 0x21e1cde6, 5), (14, 0xc33707d6, 9), (3, 0xf4d50d87, 14), (8, 0x455a14ed, 20),
     (13, 0xa9e3e905, 5), (2, 0xfcefa3f8, 9), (7, 0x676f02d9, 14), (12, 0x8d2a4c8a, 20)]"

definition md5_round3 :: "(nat \<times> u32 \<times> nat) list" where
  "md5_round3 =
    [(5, 0xfffa3942, 4), (8, 0x8771f681, 11), (11, 0x6d9d6122, 16), (14, 0xfde5380c, 23),
     (1, 0xa4beea44, 4), (4, 0x4bdecfa9, 11), (7, 0xf6bb4b60, 16), (10, 0xbebfbc70, 23),
     (13, 0x289b7ec6, 4), (0, 0xeaa127fa, 11), (3, 0xd4ef3085, 16), (6, 0x04881d05, 23),
     (9, 0xd9d4d039, 4), (12, 0xe6db99e5, 11), (15, 0x1fa27cf8, 16), (2, 0xc4ac5665, 23)]"

definition md5_round4 :: "(nat \<times> u32 \<times> nat) list" where
  "md5_round4 =
    [(0, 0xf4292244, 6), (7, 0x432aff97, 10), (14, 0xab9423a7, 15), (5, 0xfc93a039, 21),
     (12, 0x655b59c3, 6), (3, 0x8f0ccc92, 10), (10, 0xffeff47d, 15), (1, 0x85845dd1, 21),
     (8, 0x6fa87e4f, 6), (15, 0xfe2ce6e0, 10), (6, 0xa3014314, 15), (13, 0x4e0811a1, 21),
     (4, 0xf7537e82, 6), (11, 0xbd3af235, 10), (2, 0x2ad7d2bb, 15), (9, 0xeb86d391, 21)]"

definition MD5Transform :: "md_state \<Rightarrow> u32 list \<Rightarrow> md_state" where
  "MD5Transform buf inp =
     (let s1 = foldl (MD5STEP F1 inp) buf md5_round1;
          s2 = foldl (MD5STEP F2 inp) s1 md5_round2;
          s3 = foldl (MD5STEP F3 inp) s2 md5_round3;
          s4 = foldl (MD5STEP F4 inp) s3 md5_round4
      in md_add buf s4)"

text \<open>Reading 32-bit words through a cast, and the loop of \<open>byteReverse\<close> over \<open>longs\<close> words.\<close>

fun host_words :: "bytes \<Rightarrow> u32 list" where
  "host_words (a # b # c # d # r) =
     (ucast a OR push_bit 8 (ucast b) OR push_bit 16 (ucast c) OR push_bit 24 (ucast d)) # host_words r"
| "host_words _ = []"

fun byteReverse :: "bytes \<Rightarrow> nat \<Rightarrow> bytes" where
  "byteReverse (a # b # c # d # r) (Suc longs) =
     le32 (push_bit 16 (push_bit 8 (ucast d) OR ucast c) OR (push_bit 8 (ucast b) OR ucast a)) @ byteReverse r longs"
| "byteReverse bs _ = bs"

text \<open>\<open>MD5Init\<close> leaves the block buffer as it was.\<close>

definition MD5Init :: "MD5Context \<Rightarrow> MD5Context" where
  "MD5Init ctx = ctx\<lparr>md5_buf := md_init, md5_bits0 := 0, md5_bits1 := 0\<rparr>"

text \<open>
  A context on the stack before it is initialised. The digest does not depend on the bytes of
  its block buffer, as the digest theorem holds for every context of the right size.
\<close>

definition md5_fresh :: MD5Context where
  "md5_fresh = \<lparr>md5_buf = (0, 0, 0, 0), md5_bits0 = 0, md5_bits1 = 0, md5_in = replicate 64 0\<rparr>"

text \<open>A block goes through the buffer \<open>in\<close>, whose other bytes keep what they were.\<close>

definition md5_block :: "MD5Context \<Rightarrow> MD5Context" where
  "md5_block ctx =
     (let inp = byteReverse (md5_in ctx) 16
      in ctx\<lparr>md5_in := inp, md5_buf := MD5Transform (md5_buf ctx) (host_words inp)\<rparr>)"

definition md5_fill :: "MD5Context \<Rightarrow> nat \<Rightarrow> bytes \<Rightarrow> MD5Context" where
  "md5_fill ctx t bs = ctx\<lparr>md5_in := store_at (md5_in ctx) t bs\<rparr>"

function md5_chunks :: "MD5Context \<Rightarrow> bytes \<Rightarrow> MD5Context" where
  "md5_chunks ctx buf =
     (if length buf \<ge> 64 then md5_chunks (md5_block (md5_fill ctx 0 (take 64 buf))) (drop 64 buf)
      else md5_fill ctx 0 buf)"
  by pat_completeness auto
termination by (relation "measure (\<lambda>(ctx, buf). length buf)") auto

declare md5_chunks.simps [simp del]

definition MD5Update :: "MD5Context \<Rightarrow> bytes \<Rightarrow> MD5Context" where
  "MD5Update ctx buf =
     (let len = word_of_nat (length buf) :: u64;
          t = md5_bits0 ctx;
          b0 = t + push_bit 3 (ucast len);
          b1 = (if b0 < t then md5_bits1 ctx + 1 else md5_bits1 ctx) + ucast (drop_bit 29 len);
          ctx = ctx\<lparr>md5_bits0 := b0, md5_bits1 := b1\<rparr>;
          t = unat (drop_bit 3 t AND 0x3f)
      in if t \<noteq> 0
         then if length buf < 64 - t then md5_fill ctx t buf
              else md5_chunks (md5_block (md5_fill ctx t (take (64 - t) buf))) (drop (64 - t) buf)
         else md5_chunks ctx buf)"

text \<open>
  The digest; the context is cleared. The four words of the state are stored as they are in
  memory, which \<open>byteReverse\<close> leaves alone.
\<close>

definition MD5Final :: "MD5Context \<Rightarrow> bytes" where
  "MD5Final ctx =
     (let n = unat (drop_bit 3 (md5_bits0 ctx) AND 0x3F);
          ctx = md5_fill ctx n [0x80];
          count = 64 - 1 - n;
          ctx = (if count < 8
                 then md5_fill (md5_block (md5_fill ctx (n + 1) (replicate count 0))) 0 (replicate 56 0)
                 else md5_fill ctx (n + 1) (replicate (count - 8) 0));
          inp = byteReverse (md5_in ctx) 14;
          inp = store_at inp 56 (le32 (md5_bits0 ctx));
          inp = store_at inp 60 (le32 (md5_bits1 ctx));
          (a, b, c, d) = MD5Transform (md5_buf ctx) (host_words inp)
      in byteReverse (le32 a @ le32 b @ le32 c @ le32 d) 4)"

section \<open>HMAC-MD5\<close>

record HMACMD5Context =
  hmac_ctx :: MD5Context
  k_ipad :: bytes
  k_opad :: bytes

text \<open>The pads have 65 bytes; the last one stays 0 and is never used.\<close>

definition hmac_md5_init_rfc2104 :: "bytes \<Rightarrow> HMACMD5Context" where
  "hmac_md5_init_rfc2104 key =
     (let key = (if length key > 64 then MD5Final (MD5Update (MD5Init md5_fresh) key) else key);
          pad = store_at (replicate 65 0) 0 key;
          ipad = map (\<lambda>b. b XOR 0x36) (take 64 pad) @ drop 64 pad;
          opad = map (\<lambda>b. b XOR 0x5c) (take 64 pad) @ drop 64 pad
      in \<lparr>hmac_ctx = MD5Update (MD5Init md5_fresh) (take 64 ipad), k_ipad = ipad, k_opad = opad\<rparr>)"

definition hmac_md5_init_limK_to_64 :: "bytes \<Rightarrow> HMACMD5Context" where
  "hmac_md5_init_limK_to_64 key = hmac_md5_init_rfc2104 (if length key > 64 then take 64 key else key)"

definition hmac_md5_update :: "bytes \<Rightarrow> HMACMD5Context \<Rightarrow> HMACMD5Context" where
  "hmac_md5_update text_bytes ctx = ctx\<lparr>hmac_ctx := MD5Update (hmac_ctx ctx) text_bytes\<rparr>"

definition hmac_md5_final :: "HMACMD5Context \<Rightarrow> bytes" where
  "hmac_md5_final ctx =
     (let digest = MD5Final (hmac_ctx ctx)
      in MD5Final (MD5Update (MD5Update (MD5Init md5_fresh) (take 64 (k_opad ctx))) (take 16 digest)))"

text \<open>The key is an array of 16 bytes.\<close>

definition hmac_md5 :: "bytes \<Rightarrow> bytes \<Rightarrow> bytes res" where
  "hmac_md5 key data =
     chk (get_bytes key 0 16) (\<lambda>key.
       let ctx = hmac_md5_init_limK_to_64 key;
           ctx = (if data \<noteq> [] then hmac_md5_update data ctx else ctx)
       in Inr (hmac_md5_final ctx))"

end
