(* ===== verification/Crypto_Lemmas.thy ===== *)
theory Crypto_Lemmas
  imports Crypto "HOL-Library.Multiset"
begin

text \<open>
  The lemmas behind the properties of the hashes and the cipher: RC4 as a keystream with a permutation as its state, the block structure of the MD
  hashes, and the interface of an incremental hash as a locale.
\<close>

section \<open>RC4\<close>

lemma length_sbox_swap [simp]: "length (sbox_swap sb i j) = length sb"
  by (simp add: sbox_swap_def)

definition wf_sbox :: "bytes \<Rightarrow> bool" where
  "wf_sbox sb \<longleftrightarrow> mset sb = mset (map word_of_nat [0..<256])"

lemma wf_sbox_length: "wf_sbox sb \<Longrightarrow> length sb = 256"
  unfolding wf_sbox_def by (drule mset_eq_length) simp

lemma unat_u8: "unat (w :: u8) < 256"
  by (rule order_less_le_trans [OF unsigned_less]) simp

lemma wf_sbox_swap: "wf_sbox sb \<Longrightarrow> wf_sbox (sbox_swap sb i j)"
  using wf_sbox_length [of sb] mset_swap [of "unat j" sb "unat i"] unat_u8 [of i] unat_u8 [of j]
  by (simp add: wf_sbox_def sbox_swap_def)

lemma wf_sbox_perm: "wf_sbox sb \<Longrightarrow> distinct sb \<and> set sb = UNIV"
proof -
  assume sb: "wf_sbox sb"
  have inj: "inj_on (word_of_nat :: nat \<Rightarrow> u8) {0..<256}"
    by (rule inj_onI) (simp add: unsigned_of_nat word_unat_eq_iff take_bit_eq_mod)
  then have "distinct (map (word_of_nat :: nat \<Rightarrow> u8) [0..<256])" by (simp add: distinct_map)
  then have d: "distinct sb" using sb unfolding wf_sbox_def by (metis distinct_count_atmost_1 set_mset_mset)
  have "w \<in> set sb" for w
  proof -
    have "w = word_of_nat (unat w)" by simp
    then have "w \<in> set (map word_of_nat [0..<256])" using unat_u8 [of w] by force
    then show ?thesis using sb unfolding wf_sbox_def by (metis set_mset_mset)
  qed
  with d show ?thesis by auto
qed

lemma arcfour_init_wf:
  assumes "arcfour_init key = Inr st" shows "wf_sbox (sbox st)"
proof -
  have "wf_sbox (fst s) \<Longrightarrow> wf_sbox (fst (foldl (arcfour_init_step key) s is))" for s "is"
    by (induction "is" arbitrary: s) (auto simp: arcfour_init_step_def Let_def wf_sbox_swap split: prod.split)
  from this [of "(map word_of_nat [0..<256], 0)" "[0..<256]"] assms show ?thesis
    by (auto simp: arcfour_init_def Let_def wf_sbox_def split: prod.splits if_splits)
qed

lemma arcfour_init_ok: "key \<noteq> [] \<Longrightarrow> \<exists>st. arcfour_init key = Inr st"
  by (cases "foldl (arcfour_init_step key) (map word_of_nat [0..<256], 0) [0..<256]") (simp add: arcfour_init_def)

lemma arcfour_crypt_byte_wf: "wf_sbox (sbox st) \<Longrightarrow> wf_sbox (sbox (snd (arcfour_crypt_byte st d)))"
  by (simp add: arcfour_crypt_byte_def Let_def wf_sbox_swap)

lemma arcfour_crypt_sbox_wf: "wf_sbox (sbox st) \<Longrightarrow> wf_sbox (sbox (snd (arcfour_crypt_sbox st ds)))"
proof (induction ds arbitrary: st)
  case (Cons d ds)
  from Cons.IH [OF arcfour_crypt_byte_wf [OF Cons.prems, of d]] show ?case
    by (auto simp: Let_def split: prod.splits)
qed simp

text \<open>The state does not depend on the data, and a byte is combined with the key stream by XOR.\<close>

lemma arcfour_crypt_byte_stream:
  "arcfour_crypt_byte st d = (d XOR fst (arcfour_crypt_byte st 0), snd (arcfour_crypt_byte st 0))"
  by (simp add: arcfour_crypt_byte_def Let_def)

lemma arcfour_crypt_sbox_invol:
  "arcfour_crypt_sbox st (fst (arcfour_crypt_sbox st ds)) = (ds, snd (arcfour_crypt_sbox st ds))"
proof (induction ds arbitrary: st)
  case (Cons d ds)
  obtain k s where k: "arcfour_crypt_byte st 0 = (k, s)" by force
  then have b: "arcfour_crypt_byte st x = (x XOR k, s)" for x
    using arcfour_crypt_byte_stream [of st x] by simp
  from Cons [of s] show ?case
    by (auto simp: b Let_def ac_simps split: prod.splits)
qed simp

lemma arcfour_crypt_sbox_append:
  "arcfour_crypt_sbox st (as @ bs) =
     (let (c, st) = arcfour_crypt_sbox st as; (e, st) = arcfour_crypt_sbox st bs in (c @ e, st))"
  by (induction as arbitrary: st) (auto simp: Let_def split: prod.splits)

lemma length_arcfour_crypt_sbox [simp]: "length (fst (arcfour_crypt_sbox st ds)) = length ds"
proof (induction ds arbitrary: st)
  case (Cons d ds)
  from Cons [of "snd (arcfour_crypt_byte st d)"] show ?case by (auto simp: Let_def split: prod.splits)
qed simp

section \<open>Blocks and padding\<close>

function blocks :: "bytes \<Rightarrow> bytes list" where
  "blocks m = (if length m < 64 then [] else take 64 m # blocks (drop 64 m))"
  by pat_completeness auto
termination by (relation "measure length") auto

declare blocks.simps [simp del]

lemma blocks_short: "length m < 64 \<Longrightarrow> blocks m = []"
  by (subst blocks.simps) simp

lemma blocks_one: "length b = 64 \<Longrightarrow> blocks b = [b]"
  by (subst blocks.simps) (simp add: blocks_short)

lemma blocks_append: "64 dvd length a \<Longrightarrow> blocks (a @ b) = blocks a @ blocks b"
proof (induction a rule: blocks.induct)
  case (1 a)
  show ?case
  proof (cases "length a < 64")
    case True
    with \<open>64 dvd length a\<close> have "a = []" by (auto dest: dvd_imp_le)
    then show ?thesis by (simp add: blocks_short)
  next
    case False
    with 1(2) have "64 dvd length (drop 64 a)" by (simp add: dvd_diff_nat)
    from 1(1) [OF False this] False show ?thesis by (subst (1 2) blocks.simps) simp
  qed
qed

text \<open>The bytes behind the last full block.\<close>

definition partial :: "bytes \<Rightarrow> bytes" where
  "partial m = drop (64 * (length m div 64)) m"

lemma length_partial: "length (partial m) = length m mod 64"
  by (simp add: partial_def minus_mult_div_eq_mod)

lemma partial_split:
  obtains a where "m = a @ partial m" and "64 dvd length a"
proof
  show "m = take (64 * (length m div 64)) m @ partial m" by (simp add: partial_def)
  have "64 * (length m div 64) \<le> length m" by simp
  then show "64 dvd length (take (64 * (length m div 64)) m)" by (simp add: min_absorb2)
qed

lemma partial_append: "64 dvd length a \<Longrightarrow> partial (a @ b) = partial b"
  by (auto simp: partial_def elim!: dvdE)

lemma partial_short: "length b < 64 \<Longrightarrow> partial b = b"
  by (simp add: partial_def)

lemma blocks_fill:
  assumes "length m mod 64 + length b < 64"
  shows "blocks (m @ b) = blocks m" and "partial (m @ b) = partial m @ b"
proof -
  obtain a where a: "m = a @ partial m" "64 dvd length a" by (rule partial_split)
  have p: "length (partial m) < 64" "length (partial m @ b) < 64" using assms by (simp_all add: length_partial)
  have "blocks (a @ (partial m @ b)) = blocks (a @ partial m)"
    using p by (simp only: blocks_append [OF a(2)] blocks_short)
  then show "blocks (m @ b) = blocks m" using a(1) by (metis append_assoc)
  have "partial (a @ (partial m @ b)) = partial m @ b"
    using p by (simp only: partial_append [OF a(2)] partial_short)
  then show "partial (m @ b) = partial m @ b" using a(1) by (metis append_assoc)
qed

lemma blocks_complete:
  assumes "length m mod 64 + length b = 64"
  shows "blocks (m @ b) = blocks m @ [partial m @ b]" and "partial (m @ b) = []"
proof -
  obtain a where a: "m = a @ partial m" "64 dvd length a" by (rule partial_split)
  have l: "length (partial m) < 64" "length (partial m @ b) = 64" using assms by (simp_all add: length_partial)
  have "blocks (a @ (partial m @ b)) = blocks (a @ partial m) @ [partial m @ b]"
    using l by (simp only: blocks_append [OF a(2)] blocks_short blocks_one) simp
  then show "blocks (m @ b) = blocks m @ [partial m @ b]" using a(1) by (metis append_assoc)
  have "64 dvd length (m @ b)" using assms by (auto simp: dvd_eq_mod_eq_0 mod_add_left_eq [symmetric])
  then show "partial (m @ b) = []" by (auto simp: partial_def elim!: dvdE)
qed

definition md_pad :: "bytes \<Rightarrow> bytes" where
  "md_pad m = m @ 0x80 # replicate ((119 - length m mod 64) mod 64) 0 @
     le32 (word_of_nat (8 * length m)) @ le32 (word_of_nat (8 * length m div 2 ^ 32))"

definition md_digest :: "(md_state \<Rightarrow> u32 list \<Rightarrow> md_state) \<Rightarrow> bytes \<Rightarrow> bytes" where
  "md_digest compress m =
     (case foldl (\<lambda>s b. compress s (host_words b)) md_init (blocks (md_pad m)) of
        (a, b, c, d) \<Rightarrow> le32 a @ le32 b @ le32 c @ le32 d)"

section \<open>Words in memory\<close>

lemma join4_le32:
  "le32 (push_bit 16 (push_bit 8 (ucast d) OR ucast c) OR (push_bit 8 (ucast b) OR ucast (a :: u8))) = [a, b, c, d]"
  by (auto simp: le32_def le16_def bit_simps bit_u8_ge intro!: bit_word_eqI)

lemma byteReverse_id: "byteReverse bs n = bs"
  by (induction bs n rule: byteReverse.induct) (simp_all only: byteReverse.simps join4_le32 append_Cons append_Nil)

lemma copy4_le32: "copy4 x = le32 x"
  by (auto simp: copy4_def le32_def le16_def bit_simps intro!: bit_word_eqI)

lemma host_words_nth:
  "length bs = 4 * n \<Longrightarrow> host_words bs = map (\<lambda>i. push_bit 24 (ucast (bs ! (i * 4 + 3))) OR push_bit 16 (ucast (bs ! (i * 4 + 2))) OR
     push_bit 8 (ucast (bs ! (i * 4 + 1))) OR ucast (bs ! (i * 4 + 0))) [0..<n]"
proof (induction n arbitrary: bs)
  case (Suc n)
  then obtain a b c d r where bs: "bs = a # b # c # d # r" "length r = 4 * n"
    by (auto simp: length_Suc_conv numeral_eq_Suc)
  show ?case
    unfolding upt_conv_Cons [OF zero_less_Suc] bs(1) map_Suc_upt [symmetric]
    by (simp add: Suc.IH [OF bs(2)] ac_simps numeral_eq_Suc)
qed simp

lemma copy64_host: "length bs = 64 \<Longrightarrow> copy64 bs = host_words bs"
  using host_words_nth [of bs 16] by (simp add: copy64_def)

lemma copy64_take: "length bs \<ge> 64 \<Longrightarrow> copy64 bs = host_words (take 64 bs)"
proof -
  assume "length bs \<ge> 64"
  then have "copy64 (take 64 bs) = host_words (take 64 bs)" by (simp add: copy64_host)
  moreover have "copy64 (take 64 bs) = copy64 bs" by (simp add: copy64_def)
  ultimately show ?thesis by simp
qed

end
