(* ===== verification/Crypto_Hash.thy ===== *)
theory Crypto_Hash
  imports Crypto_Lemmas
begin

text \<open>
  The MD hashes and HMAC against their definition on a whole message. The incremental interface
  is a locale: a relation says which message a context has absorbed so far.
\<close>

section \<open>MD4\<close>

lemma fill_mod: "(x :: nat) mod 64 + k = c \<Longrightarrow> (x + k) mod 64 = c mod 64"
  by (metis mod_add_left_eq)

lemma pad_zeros: "n < 64 \<Longrightarrow> (119 - n) mod 64 = (if n \<le> 55 then 55 - n else 119 - n :: nat)"
proof (cases "n \<le> 55")
  case True
  then have "119 - n = 55 - n + 64" by simp
  then show ?thesis using True mod_less [of "55 - n" 64] by (simp only: mod_add_self2 if_True)
qed simp

lemma store_at_end: "length xs = i + length ys \<Longrightarrow> store_at xs i ys = take i xs @ ys"
  by (simp add: store_at_def)

lemma store_at_append: "length xs = i \<Longrightarrow> store_at (xs @ zs) i ys = xs @ ys @ drop (length ys) zs"
  by (simp add: store_at_def)

lemma length_store_at: "i + length ys \<le> length xs \<Longrightarrow> length (store_at xs i ys) = length xs"
  by (simp add: store_at_def)

lemma mdfour_loop_blocks:
  "64 dvd length a \<Longrightarrow> st = foldl (\<lambda>s b. mdfour64 s (host_words b)) md_init (blocks a) \<Longrightarrow>
   mdfour_loop st inp = (st', rest) \<Longrightarrow>
   \<exists>a'. a @ inp = a' @ rest \<and> 64 dvd length a' \<and> length rest \<le> 64 \<and>
     st' = foldl (\<lambda>s b. mdfour64 s (host_words b)) md_init (blocks a')"
proof (induction st inp arbitrary: a rule: mdfour_loop.induct)
  case (1 st inp)
  show ?case
  proof (cases "length inp > 64")
    case True
    let ?b = "take 64 inp"
    have "blocks (a @ ?b) = blocks a @ [?b]"
      using True 1(2) by (simp add: blocks_append blocks_one)
    then have "mdfour64 st (copy64 inp) = foldl (\<lambda>s b. mdfour64 s (host_words b)) md_init (blocks (a @ ?b))"
      using True 1(3) by (simp add: copy64_take)
    moreover have "64 dvd length (a @ ?b)" using True 1(2) by simp
    moreover have "mdfour_loop (mdfour64 st (copy64 inp)) (drop 64 inp) = (st', rest)"
      using True 1(4) by (subst (asm) mdfour_loop.simps) simp
    ultimately have "\<exists>a'. (a @ ?b) @ drop 64 inp = a' @ rest \<and> 64 dvd length a' \<and> length rest \<le> 64 \<and>
        st' = foldl (\<lambda>s b. mdfour64 s (host_words b)) md_init (blocks a')"
      using 1(1) [OF True] by blast
    then show ?thesis by simp
  next
    case False
    with 1(2-4) show ?thesis by (subst (asm) mdfour_loop.simps) auto
  qed
qed

text \<open>The final block or blocks of \<open>mdfour\<close> are the padding.\<close>

lemma mdfour_digest:
  assumes "length m < 2 ^ 29"
  shows "mdfour m = md_digest mdfour64 m"
proof -
  let ?h = "\<lambda>st bs. foldl (\<lambda>s b. mdfour64 s (host_words b)) st (blocks bs)"
  obtain st rest where loop: "mdfour_loop md_init m = (st, rest)" by (cases "mdfour_loop md_init m")
  have init: "md_init = foldl (\<lambda>s b. mdfour64 s (host_words b)) md_init (blocks [])" by (simp add: blocks_short)
  obtain a where a: "m = a @ rest" "64 dvd length a" "length rest \<le> 64" "st = ?h md_init a"
    using mdfour_loop_blocks [OF _ init loop] by auto
  let ?n = "length rest" and ?b = "word_of_nat (length m) * 8 :: u32"
  let ?len = "le32 (word_of_nat (8 * length m)) @ le32 (word_of_nat (8 * length m div 2 ^ 32))"
  have b: "?b = word_of_nat (8 * length m)" by simp
  have hi: "8 * length m div 2 ^ 32 = 0" using assms by simp
  have z: "drop 4 (replicate 72 0) = le32 0 @ replicate 64 0" "drop 4 (replicate 8 0) = le32 0" by code_simp+
  have buf: "store_at (store_at (replicate 128 0) 0 rest) ?n [0x80] = rest @ 0x80 # replicate (127 - ?n) (0 :: u8)"
    using a(3) by (simp add: store_at_def)
  have mod: "length m mod 64 = ?n mod 64" using a(1,2) by (auto simp: mod_add_left_eq [symmetric] dvd_eq_mod_eq_0)
  have pad: "blocks (md_pad m) = blocks a @ blocks (rest @ 0x80 # replicate ((119 - ?n mod 64) mod 64) 0 @ ?len)"
    using blocks_append [OF a(2), of "rest @ 0x80 # replicate ((119 - ?n mod 64) mod 64) 0 @ ?len"]
    by (simp add: md_pad_def mod) (simp add: a(1))
  have fin: "(if ?n \<le> 55 then mdfour64 st (copy64 (store_at (rest @ 0x80 # replicate (127 - ?n) 0) 56 (copy4 ?b)))
      else let buf = store_at (rest @ 0x80 # replicate (127 - ?n) 0) 120 (copy4 ?b)
           in mdfour64 (mdfour64 st (copy64 buf)) (copy64 (drop 64 buf))) =
      ?h st (rest @ 0x80 # replicate ((119 - ?n mod 64) mod 64) 0 @ ?len)"
  proof (cases "?n \<le> 55")
    case True
    let ?l = "rest @ 0x80 # replicate (55 - ?n) 0 @ ?len"
    have zs: "(119 - ?n mod 64) mod 64 = 55 - ?n" using True mod_less [of "55 - ?n" 64] by (simp add: mod_if)
    have l: "length ?l = 64" using True by simp
    have x: "length (rest @ 0x80 # replicate (55 - ?n) 0) = 56" using True by simp
    have "127 - ?n = (55 - ?n) + 72" using True by simp
    then have r: "rest @ 0x80 # replicate (127 - ?n) 0 = (rest @ 0x80 # replicate (55 - ?n) 0) @ replicate 72 (0 :: u8)"
      by (simp only: replicate_add append_assoc append_Cons)
    have "store_at (rest @ 0x80 # replicate (127 - ?n) 0) 56 (copy4 ?b) = ?l @ replicate 64 0"
      unfolding r copy4_le32 b store_at_append [OF x] length_le32 z hi by simp
    then have "take 64 (store_at (rest @ 0x80 # replicate (127 - ?n) 0) 56 (copy4 ?b)) = ?l"
      using l by (metis append_eq_conv_conj)
    moreover have "length (store_at (rest @ 0x80 # replicate (127 - ?n) 0) 56 (copy4 ?b)) \<ge> 64"
      using True by (simp add: length_store_at copy4_le32)
    ultimately show ?thesis using True by (simp only: if_True copy64_take zs blocks_one [OF l]) simp
  next
    case False
    let ?l = "rest @ 0x80 # replicate (119 - ?n) 0 @ ?len"
    have zs: "(119 - ?n mod 64) mod 64 = 119 - ?n" using False a(3) by (cases "?n = 64") simp_all
    have l: "length ?l = 128" using False a(3) by simp
    have x: "length (rest @ 0x80 # replicate (119 - ?n) 0) = 120" using False a(3) by simp
    have "127 - ?n = (119 - ?n) + 8" using a(3) by simp
    then have r: "rest @ 0x80 # replicate (127 - ?n) 0 = (rest @ 0x80 # replicate (119 - ?n) 0) @ replicate 8 (0 :: u8)"
      by (simp only: replicate_add append_assoc append_Cons)
    have buf: "store_at (rest @ 0x80 # replicate (127 - ?n) 0) 120 (copy4 ?b) = ?l"
      unfolding r copy4_le32 b store_at_append [OF x] length_le32 z hi by simp
    have "blocks ?l = [take 64 ?l, drop 64 ?l]"
      using l by (subst blocks.simps) (simp add: blocks_one)
    then show ?thesis using False l by (simp only: if_False buf Let_def zs copy64_take copy64_host length_drop) simp
  qed
  show ?thesis
    unfolding mdfour_def Let_def loop split_conv buf fin [unfolded Let_def copy4_le32] md_digest_def pad foldl_append a(4) [symmetric] copy4_le32 ..
qed

section \<open>Incremental hashing\<close>

locale hash_stream =
  fixes upd :: "'c \<Rightarrow> bytes \<Rightarrow> 'c"
    and fin :: "'c \<Rightarrow> bytes"
    and absorbed :: "'c \<Rightarrow> bytes \<Rightarrow> bool"
    and digest :: "bytes \<Rightarrow> bytes"
    and limit :: nat
  assumes update: "absorbed c m \<Longrightarrow> length (m @ d) < limit \<Longrightarrow> absorbed (upd c d) (m @ d)"
    and final: "absorbed c m \<Longrightarrow> length m < limit \<Longrightarrow> fin c = digest m"
begin

lemma absorb_chunks:
  "absorbed c m \<Longrightarrow> length (m @ concat ds) < limit \<Longrightarrow> absorbed (foldl upd c ds) (m @ concat ds)"
proof (induction ds arbitrary: c m)
  case (Cons d ds)
  then have "absorbed (upd c d) (m @ d)" by (intro update) auto
  from Cons.IH [OF this] Cons.prems(2) show ?case by simp
qed simp

lemma chunks_digest:
  "absorbed c m \<Longrightarrow> length (m @ concat ds) < limit \<Longrightarrow> fin (foldl upd c ds) = digest (m @ concat ds)"
  using absorb_chunks final by blast

end

section \<open>MD5\<close>

abbreviation md5_state :: "bytes \<Rightarrow> md_state" where
  "md5_state m \<equiv> foldl (\<lambda>s b. MD5Transform s (host_words b)) md_init (blocks m)"

text \<open>The state and the block buffer of a context that has absorbed \<open>m\<close>, and its bit count.\<close>

definition md5_holds :: "MD5Context \<Rightarrow> bytes \<Rightarrow> bool" where
  "md5_holds ctx m \<longleftrightarrow> length (md5_in ctx) = 64 \<and> md5_buf ctx = md5_state m \<and>
     take (length m mod 64) (md5_in ctx) = partial m"

definition md5_counts :: "MD5Context \<Rightarrow> nat \<Rightarrow> bool" where
  "md5_counts ctx n \<longleftrightarrow> md5_bits0 ctx = word_of_nat (8 * n) \<and> md5_bits1 ctx = word_of_nat (8 * n div 2 ^ 32)"

definition md5_absorbed :: "MD5Context \<Rightarrow> bytes \<Rightarrow> bool" where
  "md5_absorbed ctx m \<longleftrightarrow> md5_holds ctx m \<and> md5_counts ctx (length m)"

lemma md5_fill_part:
  assumes "md5_holds ctx m" and "length m mod 64 + length b < 64"
  shows "md5_holds (md5_fill ctx (length m mod 64) b) (m @ b)"
proof -
  have "length (m @ b) mod 64 = length m mod 64 + length b"
    using assms(2) by (metis length_append mod_add_left_eq mod_less)
  then show ?thesis
    using assms blocks_fill [OF assms(2)]
    by (simp add: md5_holds_def md5_fill_def store_at_def length_partial)
qed

lemma md5_fill_block:
  assumes "md5_holds ctx m" and "length m mod 64 + length b = 64"
  shows "md5_holds (md5_block (md5_fill ctx (length m mod 64) b)) (m @ b)"
proof -
  have "length (m @ b) mod 64 = 0"
    using assms(2) by (metis length_append mod_add_left_eq mod_self)
  moreover have "store_at (md5_in ctx) (length m mod 64) b = partial m @ b"
    using assms by (simp add: store_at_end md5_holds_def)
  ultimately show ?thesis
    using assms blocks_complete [OF assms(2)]
    by (simp add: md5_holds_def md5_fill_def md5_block_def Let_def byteReverse_id length_partial)
qed

lemma md5_chunks_holds:
  "md5_holds ctx m \<Longrightarrow> length m mod 64 = 0 \<Longrightarrow> md5_holds (md5_chunks ctx buf) (m @ buf)"
proof (induction ctx buf arbitrary: m rule: md5_chunks.induct)
  case (1 ctx buf)
  show ?case
  proof (cases "length buf \<ge> 64")
    case True
    let ?ctx = "md5_block (md5_fill ctx 0 (take 64 buf))"
    have "md5_holds ?ctx (m @ take 64 buf)"
      using md5_fill_block [OF 1(2), of "take 64 buf"] 1(3) True by simp
    moreover have "length (m @ take 64 buf) mod 64 = 0" using 1(3) True by simp
    ultimately have "md5_holds (md5_chunks ?ctx (drop 64 buf)) ((m @ take 64 buf) @ drop 64 buf)"
      by (rule 1(1) [OF True])
    with True show ?thesis by (subst md5_chunks.simps) simp
  next
    case False
    with md5_fill_part [OF 1(2), of buf] 1(3) show ?thesis by (subst md5_chunks.simps) simp
  qed
qed

lemma md5_index: "unat (drop_bit 3 (word_of_nat (8 * n) :: u32) AND 0x3f) = n mod 64"
proof -
  let ?w = "word_of_nat (8 * n) :: u32"
  have "(0x3f :: u32) = mask 6" by (simp add: mask_eq_exp_minus_1)
  then have "drop_bit 3 ?w AND 0x3f = take_bit 6 (drop_bit 3 ?w)" by (simp only: take_bit_eq_mask)
  then have "unat (drop_bit 3 ?w AND 0x3f) = unat (drop_bit 3 ?w) mod 64" by (simp only: unat_take_bit_mod) simp
  also have "unat (drop_bit 3 ?w) = 8 * n mod 2 ^ 32 div 8"
    unfolding unat_drop_bit_eq by (simp add: drop_bit_eq_div unsigned_of_nat take_bit_eq_mod del: of_nat_mult)
  also have "8 * n mod 2 ^ 32 = 8 * (n mod 2 ^ 29)" using mult_mod_right [of 8 n "2 ^ 29"] by simp
  also have "8 * (n mod 2 ^ 29) div 8 mod 64 = n mod 64" by (simp add: mod_mod_cancel)
  finally show ?thesis .
qed

text \<open>The bit count: the carry from the low to the high word is found by comparing the words.\<close>

lemma add_carry: "(if a + b < (a :: u32) then 1 else 0) = (word_of_nat ((unat a + unat b) div 2 ^ 32) :: u32)"
proof (cases "unat a + unat b < 2 ^ 32")
  case True
  then have "unat (a + b) = unat a + unat b" by (simp add: unat_add_small)
  with True show ?thesis by (simp add: word_less_nat_alt)
next
  case False
  have ab: "unat a < 2 ^ 32" "unat b < 2 ^ 32" by (rule unat_u32)+
  with False have d: "(unat a + unat b) div 2 ^ 32 = 1" by (simp add: div_nat_eqI)
  have "unat (a + b) = unat a + unat b - 2 ^ 32"
    using False ab by (simp add: unat_word_ariths mod_if)
  with False ab have "a + b < a" by (simp add: word_less_nat_alt)
  with d show ?thesis by simp
qed

lemma md5_counts_update:
  assumes c: "md5_counts ctx n" and k: "k < 2 ^ 61"
  shows "md5_bits0 ctx + push_bit 3 (ucast (word_of_nat k :: u64)) = word_of_nat (8 * (n + k))" (is ?b0)
    and "(if md5_bits0 ctx + push_bit 3 (ucast (word_of_nat k :: u64)) < md5_bits0 ctx then md5_bits1 ctx + 1 else md5_bits1 ctx)
      + ucast (drop_bit 29 (word_of_nat k :: u64)) = word_of_nat (8 * (n + k) div 2 ^ 32)" (is ?b1)
proof -
  have u: "(ucast (word_of_nat k :: u64) :: u32) = word_of_nat k"
    by (intro word_unat_eq_iff [THEN iffD2]) (simp add: unsigned_ucast_eq unsigned_of_nat take_bit_eq_mod mod_mod_cancel)
  then have p: "push_bit 3 (ucast (word_of_nat k :: u64)) = (word_of_nat (8 * k) :: u32)"
    by (simp add: push_bit_eq_mult)
  show ?b0 using c unfolding p by (simp add: md5_counts_def algebra_simps)
  have "unat (drop_bit 29 (word_of_nat k :: u64)) = k div 2 ^ 29"
    unfolding unat_drop_bit_eq using k by (simp add: drop_bit_eq_div unsigned_of_nat take_bit_eq_mod)
  moreover have "k div 2 ^ 29 = 8 * k div 2 ^ 32" using div_mult_mult1 [of 8 k "2 ^ 29"] by simp
  ultimately have h: "(ucast (drop_bit 29 (word_of_nat k :: u64)) :: u32) = word_of_nat (8 * k div 2 ^ 32)"
    using of_nat_unat [of "drop_bit 29 (word_of_nat k :: u64)", where 'a = u32] by metis
  have "unat (word_of_nat (8 * i) :: u32) = 8 * i mod 2 ^ 32" for i
    by (simp add: unsigned_of_nat take_bit_eq_mod del: of_nat_mult)
  then have carry: "(if md5_bits0 ctx + push_bit 3 (ucast (word_of_nat k :: u64)) < md5_bits0 ctx then 1 else 0) =
      (word_of_nat ((8 * n mod 2 ^ 32 + 8 * k mod 2 ^ 32) div 2 ^ 32) :: u32)"
    using c unfolding p add_carry by (simp only: md5_counts_def)
  have sum: "8 * (n + k) div 2 ^ 32 = 8 * n div 2 ^ 32 + 8 * k div 2 ^ 32 + (8 * n mod 2 ^ 32 + 8 * k mod 2 ^ 32) div 2 ^ 32"
    using div_add1_eq [of "8 * n" "8 * k" "2 ^ 32"] by (simp only: add_mult_distrib2)
  have e: "(if P then b + 1 else b) = b + (if P then 1 else 0)" for P and b :: u32 by simp
  have b1: "md5_bits1 ctx = word_of_nat (8 * n div 2 ^ 32)" using c by (simp only: md5_counts_def)
  show ?b1 unfolding e carry h b1 sum of_nat_add by (simp only: ac_simps)
qed

lemma md5_holds_bits: "md5_holds (ctx\<lparr>md5_bits0 := x, md5_bits1 := y\<rparr>) m = md5_holds ctx m"
  by (simp add: md5_holds_def)

lemma md5_bits_kept:
  "md5_bits0 (md5_fill ctx t b) = md5_bits0 ctx" "md5_bits1 (md5_fill ctx t b) = md5_bits1 ctx"
  "md5_bits0 (md5_block ctx) = md5_bits0 ctx" "md5_bits1 (md5_block ctx) = md5_bits1 ctx"
  by (simp_all add: md5_fill_def md5_block_def Let_def)

lemma md5_chunks_bits:
  "md5_bits0 (md5_chunks ctx b) = md5_bits0 ctx \<and> md5_bits1 (md5_chunks ctx b) = md5_bits1 ctx"
proof (induction ctx b rule: md5_chunks.induct)
  case (1 ctx b)
  then show ?case by (subst (1 2) md5_chunks.simps) (simp add: md5_bits_kept)
qed

text \<open>\<open>MD5Update\<close> after the count: the leading odd-sized chunk, then whole blocks.\<close>

lemma MD5Update_holds:
  assumes "md5_holds ctx m" and "t = length m mod 64"
  shows "md5_holds (if t \<noteq> 0
     then if length buf < 64 - t then md5_fill ctx t buf
          else md5_chunks (md5_block (md5_fill ctx t (take (64 - t) buf))) (drop (64 - t) buf)
     else md5_chunks ctx buf) (m @ buf)"
proof -
  have t: "t < 64" using assms(2) by simp
  consider "t = 0" | "t \<noteq> 0" "length buf < 64 - t" | "t \<noteq> 0" "64 - t \<le> length buf" by linarith
  then show ?thesis
  proof cases
    case 1
    with assms show ?thesis by (simp add: md5_chunks_holds)
  next
    case 2
    with assms md5_fill_part [OF assms(1), of buf] show ?thesis by simp
  next
    case 3
    let ?b = "take (64 - t) buf"
    have "md5_holds (md5_block (md5_fill ctx t ?b)) (m @ ?b)"
      using md5_fill_block [OF assms(1), of ?b] assms(2) t 3 by simp
    moreover have "length (m @ ?b) mod 64 = 0"
      using 3 t assms(2) fill_mod [of "length m" "64 - t" 64] by simp
    ultimately have "md5_holds (md5_chunks (md5_block (md5_fill ctx t ?b)) (drop (64 - t) buf)) ((m @ ?b) @ drop (64 - t) buf)"
      by (rule md5_chunks_holds)
    with 3 show ?thesis by simp
  qed
qed

lemma MD5Update_absorbed:
  assumes a: "md5_absorbed ctx m" and l: "length (m @ d) < 2 ^ 61"
  shows "md5_absorbed (MD5Update ctx d) (m @ d)"
proof -
  let ?n = "length m" and ?k = "length d"
  from a have h: "md5_holds ctx m" and c: "md5_counts ctx ?n" by (simp_all add: md5_absorbed_def)
  have k: "?k < 2 ^ 61" using l by simp
  have t: "unat (drop_bit 3 (md5_bits0 ctx) AND 0x3f) = ?n mod 64"
    using c md5_index [of ?n] by (simp only: md5_counts_def)
  let ?c = "ctx\<lparr>md5_bits0 := word_of_nat (8 * (?n + ?k)), md5_bits1 := word_of_nat (8 * (?n + ?k) div 2 ^ 32)\<rparr>"
  have "MD5Update ctx d = (if ?n mod 64 \<noteq> 0
     then if ?k < 64 - ?n mod 64 then md5_fill ?c (?n mod 64) d
          else md5_chunks (md5_block (md5_fill ?c (?n mod 64) (take (64 - ?n mod 64) d))) (drop (64 - ?n mod 64) d)
     else md5_chunks ?c d)"
    unfolding MD5Update_def Let_def t md5_counts_update(2) [OF c k] unfolding md5_counts_update(1) [OF c k] ..
  moreover have "md5_holds ?c m" using h by (simp only: md5_holds_bits)
  ultimately have "md5_holds (MD5Update ctx d) (m @ d)"
    and "md5_bits0 (MD5Update ctx d) = md5_bits0 ?c \<and> md5_bits1 (MD5Update ctx d) = md5_bits1 ?c"
    using MD5Update_holds [of ?c m "?n mod 64" d] by (simp_all add: md5_chunks_bits md5_bits_kept)
  then show ?thesis by (simp add: md5_absorbed_def md5_counts_def)
qed

lemma MD5Init_absorbed: "length (md5_in ctx) = 64 \<Longrightarrow> md5_absorbed (MD5Init ctx) []"
  by (simp add: md5_absorbed_def md5_holds_def md5_counts_def MD5Init_def partial_def blocks_short)

lemma md5_fill_fill:
  assumes "length (md5_in ctx) = 64" and "n + length a + length b \<le> 64"
  shows "md5_fill (md5_fill ctx n a) (n + length a) b = md5_fill ctx n (a @ b)"
  using assms by (simp add: md5_fill_def store_at_def ac_simps)

text \<open>The message with the padding up to the length: what the context holds before the last block.\<close>

definition md5_prefix :: "bytes \<Rightarrow> bytes" where
  "md5_prefix m = m @ 0x80 # replicate ((119 - length m mod 64) mod 64) 0"

lemma length_md5_prefix: "length (md5_prefix m) mod 64 = 56"
proof -
  let ?n = "length m mod 64"
  have n: "?n < 64" by simp
  have "?n + Suc ((119 - ?n) mod 64) = (if ?n \<le> 55 then 56 else 120)" using n by (simp add: pad_zeros)
  from fill_mod [OF this] show ?thesis by (simp add: md5_prefix_def split: if_splits)
qed

lemma MD5Final_prefix:
  assumes h: "md5_holds ctx m" and n: "n = length m mod 64"
  shows "md5_holds (let ctx = md5_fill ctx n [0x80]; count = 64 - 1 - n
          in if count < 8
             then md5_fill (md5_block (md5_fill ctx (n + 1) (replicate count 0))) 0 (replicate 56 0)
             else md5_fill ctx (n + 1) (replicate (count - 8) 0)) (md5_prefix m)"
proof -
  let ?c = "64 - 1 - n"
  have n64: "n < 64" using n by simp
  have l: "length (md5_in ctx) = 64" using h by (simp add: md5_holds_def)
  have ff: "md5_fill (md5_fill ctx n [0x80]) (n + 1) (replicate k 0) = md5_fill ctx n (0x80 # replicate k 0)" if "n + 1 + k \<le> 64" for k
    using md5_fill_fill [OF l, of n "[0x80]" "replicate k 0"] that by simp
  show ?thesis
  proof (cases "?c < 8")
    case True
    let ?z = "0x80 # replicate ?c (0 :: u8)"
    have "md5_holds (md5_block (md5_fill ctx n ?z)) (m @ ?z)"
      using md5_fill_block [OF h, of ?z] n n64 by simp
    moreover have "length (m @ ?z) mod 64 = 0"
      using n n64 fill_mod [of "length m" "length ?z" 64] by simp
    ultimately have "md5_holds (md5_fill (md5_block (md5_fill ctx n ?z)) 0 (replicate 56 0)) ((m @ ?z) @ replicate 56 0)"
      using md5_fill_part [of "md5_block (md5_fill ctx n ?z)" "m @ ?z" "replicate 56 0"] by simp
    moreover have "(119 - n) mod 64 = ?c + 56" using True n64 by (simp add: pad_zeros)
    then have "md5_prefix m = (m @ ?z) @ replicate 56 0"
      by (simp only: md5_prefix_def n [symmetric] replicate_add append_assoc append_Cons)
    ultimately show ?thesis using True ff [of ?c] n64 by (simp add: Let_def)
  next
    case False
    let ?z = "0x80 # replicate (?c - 8) (0 :: u8)"
    have "md5_holds (md5_fill ctx n ?z) (m @ ?z)"
      using md5_fill_part [OF h, of ?z] n False by simp
    moreover have "(119 - n) mod 64 = 55 - n" using False n64 by (simp add: pad_zeros)
    then have "md5_prefix m = m @ ?z" by (simp add: md5_prefix_def n [symmetric])
    ultimately show ?thesis using False ff [of "?c - 8"] by (simp add: Let_def)
  qed
qed

lemma MD5Final_digest:
  assumes a: "md5_absorbed ctx m" and l: "length m < 2 ^ 61"
  shows "MD5Final ctx = md_digest MD5Transform m"
proof -
  let ?n = "length m mod 64"
  from a have h: "md5_holds ctx m" and c: "md5_counts ctx (length m)" by (simp_all add: md5_absorbed_def)
  have t: "unat (drop_bit 3 (md5_bits0 ctx) AND 0x3F) = ?n" using c md5_index [of "length m"] by (simp only: md5_counts_def)
  define ctx' where "ctx' = (let ctx = md5_fill ctx ?n [0x80]; count = 64 - 1 - ?n
          in if count < 8
             then md5_fill (md5_block (md5_fill ctx (?n + 1) (replicate count 0))) 0 (replicate 56 0)
             else md5_fill ctx (?n + 1) (replicate (count - 8) 0))"
  have h': "md5_holds ctx' (md5_prefix m)" unfolding ctx'_def by (rule MD5Final_prefix [OF h refl])
  have bits: "md5_bits0 ctx' = md5_bits0 ctx" "md5_bits1 ctx' = md5_bits1 ctx"
    by (simp_all add: ctx'_def Let_def md5_bits_kept)
  let ?len = "le32 (md5_bits0 ctx) @ le32 (md5_bits1 ctx)"
  have pad: "md_pad m = md5_prefix m @ ?len" using c by (simp add: md_pad_def md5_prefix_def md5_counts_def)
  have b: "blocks (md_pad m) = blocks (md5_prefix m) @ [partial (md5_prefix m) @ ?len]"
    unfolding pad by (rule blocks_complete) (simp add: length_md5_prefix)
  have "store_at (store_at (md5_in ctx') 56 (le32 (md5_bits0 ctx))) 60 (le32 (md5_bits1 ctx)) = take 56 (md5_in ctx') @ ?len"
    using h' by (simp add: md5_holds_def store_at_def)
  then have inp: "store_at (store_at (md5_in ctx') 56 (le32 (md5_bits0 ctx))) 60 (le32 (md5_bits1 ctx)) = partial (md5_prefix m) @ ?len"
    using h' by (simp add: md5_holds_def length_md5_prefix)
  have st: "md5_buf ctx' = md5_state (md5_prefix m)" using h' by (simp add: md5_holds_def)
  have "MD5Final ctx = (let (a, b, c, d) = MD5Transform (md5_buf ctx')
      (host_words (store_at (store_at (md5_in ctx') 56 (le32 (md5_bits0 ctx'))) 60 (le32 (md5_bits1 ctx')))) in le32 a @ le32 b @ le32 c @ le32 d)"
    unfolding MD5Final_def Let_def t byteReverse_id ctx'_def ..
  then show ?thesis by (simp add: bits inp st md_digest_def b)
qed

interpretation md5: hash_stream MD5Update MD5Final md5_absorbed "md_digest MD5Transform" "2 ^ 61"
  by unfold_locales (rule MD5Update_absorbed MD5Final_digest, assumption+)+

lemma length_md_digest [simp]: "length (md_digest f m) = 16"
  by (simp add: md_digest_def split: prod.split)

section \<open>HMAC\<close>

text \<open>HMAC-MD5 of RFC 2104 on a whole message, and what a context has absorbed.\<close>

definition hmac_pad :: "u8 \<Rightarrow> bytes \<Rightarrow> bytes" where
  "hmac_pad x key = map (\<lambda>b. b XOR x) (key @ replicate (64 - length key) 0)"

definition hmac_spec :: "bytes \<Rightarrow> bytes \<Rightarrow> bytes" where
  "hmac_spec key m =
     (let md5 = md_digest MD5Transform; key = (if length key > 64 then md5 key else key)
      in md5 (hmac_pad 0x5c key @ md5 (hmac_pad 0x36 key @ m)))"

definition hmac_absorbed :: "bytes \<Rightarrow> HMACMD5Context \<Rightarrow> bytes \<Rightarrow> bool" where
  "hmac_absorbed key ctx m \<longleftrightarrow>
     (let key = (if length key > 64 then md_digest MD5Transform key else key)
      in md5_absorbed (hmac_ctx ctx) (hmac_pad 0x36 key @ m) \<and> take 64 (k_opad ctx) = hmac_pad 0x5c key)"

lemma length_hmac_pad: "length key \<le> 64 \<Longrightarrow> length (hmac_pad x key) = 64"
  by (simp add: hmac_pad_def)

lemma md5_fresh_absorbed: "md5_absorbed (MD5Init md5_fresh) []"
  by (rule MD5Init_absorbed) (simp add: md5_fresh_def)

lemma length_MD5Final: "length (MD5Final ctx) = 16"
  by (simp add: MD5Final_def Let_def byteReverse_id split: prod.split)

lemma MD5_once: "length m < 2 ^ 61 \<Longrightarrow> MD5Final (MD5Update (MD5Init md5_fresh) m) = md_digest MD5Transform m"
  using md5.chunks_digest [OF md5_fresh_absorbed, of "[m]"] by simp

lemma hmac_key_pad:
  assumes "length k \<le> 64"
  shows "take 64 (map (\<lambda>b. b XOR x) (take 64 (store_at (replicate 65 0) 0 k)) @ drop 64 (store_at (replicate 65 0) 0 k)) = hmac_pad x k"
proof -
  have "take 64 (store_at (replicate 65 0) 0 k) = k @ replicate (64 - length k) 0"
    using assms by (simp add: store_at_def min_def)
  then show ?thesis using assms by (simp add: hmac_pad_def)
qed

lemma hmac_init_absorbed:
  assumes "length key < 2 ^ 61"
  shows "hmac_absorbed key (hmac_md5_init_rfc2104 key) []"
proof -
  let ?k = "if length key > 64 then md_digest MD5Transform key else key"
  have k: "(if length key > 64 then MD5Final (MD5Update (MD5Init md5_fresh) key) else key) = ?k"
    using assms by (simp add: MD5_once)
  have l: "length ?k \<le> 64" by simp
  have "md5_absorbed (MD5Update (MD5Init md5_fresh) (hmac_pad 0x36 ?k)) ([] @ hmac_pad 0x36 ?k)"
    by (rule MD5Update_absorbed [OF md5_fresh_absorbed]) (simp only: append_Nil length_hmac_pad [OF l], simp)
  then show ?thesis
    unfolding hmac_absorbed_def hmac_md5_init_rfc2104_def Let_def k
    by (simp only: HMACMD5Context.simps hmac_key_pad [OF l] append_Nil append_Nil2 simp_thms)
qed

text \<open>The limit leaves room for the pad in front of the message.\<close>

interpretation hmac: hash_stream "\<lambda>ctx d. hmac_md5_update d ctx" hmac_md5_final "hmac_absorbed key" "hmac_spec key" "2 ^ 60" for key
proof
  fix c m d
  assume a: "hmac_absorbed key c m" and l: "length (m @ d) < 2 ^ 60"
  let ?k = "if length key > 64 then md_digest MD5Transform key else key"
  have k: "length (hmac_pad 0x36 ?k) = 64" by (rule length_hmac_pad) simp
  from a have "md5_absorbed (hmac_ctx c) (hmac_pad 0x36 ?k @ m)" "take 64 (k_opad c) = hmac_pad 0x5c ?k"
    by (simp_all only: hmac_absorbed_def Let_def)
  moreover from this(1) have "md5_absorbed (MD5Update (hmac_ctx c) d) ((hmac_pad 0x36 ?k @ m) @ d)"
    by (rule MD5Update_absorbed) (use l k in \<open>simp only: length_append, simp\<close>)
  ultimately show "hmac_absorbed key (hmac_md5_update d c) (m @ d)"
    by (simp add: hmac_absorbed_def hmac_md5_update_def Let_def)
next
  fix c m
  assume a: "hmac_absorbed key c m" and l: "length m < 2 ^ 60"
  let ?k = "if length key > 64 then md_digest MD5Transform key else key"
  let ?i = "hmac_pad 0x36 ?k @ m" and ?o = "hmac_pad 0x5c ?k"
  have k: "length (hmac_pad x ?k) = 64" for x by (rule length_hmac_pad) simp
  from a have i: "md5_absorbed (hmac_ctx c) ?i" and o: "take 64 (k_opad c) = ?o"
    by (simp_all only: hmac_absorbed_def Let_def)
  have "MD5Final (hmac_ctx c) = md_digest MD5Transform ?i"
    by (rule MD5Final_digest [OF i]) (use l k in \<open>simp only: length_append, simp\<close>)
  moreover have "MD5Final (foldl MD5Update (MD5Init md5_fresh) [?o, md_digest MD5Transform ?i]) =
      md_digest MD5Transform ([] @ concat [?o, md_digest MD5Transform ?i])"
    by (rule md5.chunks_digest [OF md5_fresh_absorbed]) (use k in \<open>simp only: length_append length_md_digest concat.simps append_Nil append_Nil2, simp\<close>)
  ultimately show "hmac_md5_final c = hmac_spec key m"
    by (simp add: hmac_md5_final_def hmac_spec_def Let_def o)
qed

lemma hmac_md5_once:
  assumes m: "length m < 2 ^ 60" and k16: "16 \<le> length k16"
  shows "hmac_md5 k16 m = Inr (hmac_spec (take 16 k16) m)"
proof -
  let ?k = "take 16 k16"
  have k: "length ?k = 16" using k16 by simp
  have i: "hmac_md5_init_limK_to_64 ?k = hmac_md5_init_rfc2104 ?k" by (simp only: hmac_md5_init_limK_to_64_def k) simp
  have a: "hmac_absorbed ?k (hmac_md5_init_rfc2104 ?k) []" by (rule hmac_init_absorbed) (simp only: k, simp)
  have "hmac_md5_final (if m \<noteq> [] then hmac_md5_update m (hmac_md5_init_rfc2104 ?k) else hmac_md5_init_rfc2104 ?k) = hmac_spec ?k m"
    using hmac.chunks_digest [OF a, of "[m]"] hmac.chunks_digest [OF a, of "[]"] m by simp
  with k16 show ?thesis by (auto simp: hmac_md5_def get_bytes_def i Let_def split: if_split_asm)
qed

end
