(* ===== verification/Crc32.thy ===== *)
theory Crc32
  imports Crypto
begin

text \<open>
  The table of \<open>lib/crypto/crc32.c\<close> against the bit-serial division by the CRC-32 polynomial:
  every entry is checked by evaluation, and the rest is linearity.
\<close>

section \<open>CRC-32\<close>

text \<open>One bit and one byte of the division by the reflected polynomial, without a table.\<close>

definition crc_bit :: "u32 \<Rightarrow> u32" where
  "crc_bit c = (if bit c 0 then drop_bit 1 c XOR 0xEDB88320 else drop_bit 1 c)"

fun crc_bits :: "nat \<Rightarrow> u32 \<Rightarrow> u32" where
  "crc_bits 0 c = c"
| "crc_bits (Suc n) c = crc_bits n (crc_bit c)"

definition crc32_spec :: "bytes \<Rightarrow> u32" where
  "crc32_spec buf = foldl (\<lambda>c p. crc_bits 8 (c XOR ucast p)) (NOT 0) buf XOR NOT 0"

lemma crc_bit_xor: "crc_bit (x XOR y) = crc_bit x XOR crc_bit y"
  by (cases "bit x 0"; cases "bit y 0") (simp_all add: crc_bit_def bit_xor_iff drop_bit_xor ac_simps)

lemma crc_bits_xor: "crc_bits n (x XOR y) = crc_bits n x XOR crc_bits n y"
  by (induction n arbitrary: x y) (simp_all add: crc_bit_xor)

lemma crc_bits_high: "(\<And>k. k < n \<Longrightarrow> \<not> bit x k) \<Longrightarrow> crc_bits n x = drop_bit n x"
proof (induction n arbitrary: x)
  case (Suc n)
  then have "crc_bit x = drop_bit 1 x" by (simp add: crc_bit_def)
  moreover have "crc_bits n (drop_bit 1 x) = drop_bit n (drop_bit 1 x)"
    using Suc.prems by (intro Suc.IH) (simp add: bit_drop_bit_eq)
  ultimately show ?case by (simp add: drop_bit_drop_bit)
qed simp

fun tab_ok :: "u32 list \<Rightarrow> u32 \<Rightarrow> bool" where
  "tab_ok [] _ = True"
| "tab_ok (x # xs) i = (x = crc_bits 8 i \<and> tab_ok xs (i + 1))"

lemma tab_ok_nth: "tab_ok xs i \<Longrightarrow> k < length xs \<Longrightarrow> xs ! k = crc_bits 8 (i + word_of_nat k)"
  by (induction xs arbitrary: i k) (auto simp: nth_Cons ac_simps split: nat.split)

lemma crc32_tab_correct: "tab_ok crc32_tab 0"
  by code_simp

lemma length_crc32_tab: "length crc32_tab = 256"
  by (simp add: crc32_tab_def)

lemma crc32_step_bits: "crc32_step crc p = crc_bits 8 (crc XOR ucast p)"
proof -
  let ?x = "crc XOR ucast p :: u32"
  let ?l = "?x AND 0xFF"
  have l: "?l = word_of_nat (unat ?l)" by simp
  have "?l \<le> 0xFF" by (simp add: word_and_le1)
  then have "unat ?l < length crc32_tab" by (simp add: word_le_nat_alt length_crc32_tab)
  from tab_ok_nth [OF crc32_tab_correct this] have tab: "crc32_tab ! unat ?l = crc_bits 8 ?l"
    by (simp only: l [symmetric] add_0)
  have "?x = ?l XOR (?x AND NOT 0xFF)" by (rule bit_word_eqI) (auto simp: bit_simps)
  then have "crc_bits 8 ?x = crc_bits 8 ?l XOR crc_bits 8 (?x AND NOT 0xFF)" using crc_bits_xor by metis
  also have "crc_bits 8 (?x AND NOT 0xFF) = drop_bit 8 (?x AND NOT 0xFF)"
    by (rule crc_bits_high) (simp add: FF_mask bit_simps)
  also have "\<dots> = drop_bit 8 crc"
    by (rule bit_word_eqI) (auto simp: FF_mask bit_simps dest: bit_imp_le_length)
  finally show ?thesis by (simp add: crc32_step_def tab)
qed

text \<open>
  C8. \<open>crc32_calc_buffer\<close>, which goes through the buffer a byte at a time with its table,
  computes the CRC-32 of the buffer: the remainder of the bit-serial division by the
  polynomial, started from and finished with all ones.
\<close>

theorem crc32_calc_buffer_spec: "crc32_calc_buffer buf = crc32_spec buf"
  by (simp add: crc32_calc_buffer_def crc32_spec_def crc32_step_bits [abs_def])

end
