(* ===== verification/Crypto_Props.thy ===== *)
theory Crypto_Props
  imports Crypto_Hash Crc32
begin

text \<open>
  The properties of the ciphers and hashes of \<open>lib/crypto\<close> that the authentication code relies
  on. The CRC is in the theory of its table.
\<close>

section \<open>RC4\<close>

text \<open>
  RC4 with a non-empty key always succeeds, keeps the length and is its own inverse, also
  when the data is processed in two pieces with one state; the S-box stays a permutation of
  all bytes.
\<close>

theorem arcfour_involution:
  assumes "key \<noteq> []"
  shows "\<exists>st c. arcfour_init key = Inr st \<and> arcfour_crypt_blob (xs @ ys) key = Inr c \<and>
    length c = length (xs @ ys) \<and> arcfour_crypt_blob c key = Inr (xs @ ys) \<and>
    c = fst (arcfour_crypt_sbox st xs) @ fst (arcfour_crypt_sbox (snd (arcfour_crypt_sbox st xs)) ys) \<and>
    distinct (sbox (snd (arcfour_crypt_sbox st (xs @ ys)))) \<and>
    set (sbox (snd (arcfour_crypt_sbox st (xs @ ys)))) = UNIV"
proof -
  obtain st where st: "arcfour_init key = Inr st" using arcfour_init_ok [OF assms] by blast
  let ?c = "fst (arcfour_crypt_sbox st (xs @ ys))"
  have "wf_sbox (sbox (snd (arcfour_crypt_sbox st (xs @ ys))))"
    by (rule arcfour_crypt_sbox_wf [OF arcfour_init_wf [OF st]])
  moreover have "?c = fst (arcfour_crypt_sbox st xs) @ fst (arcfour_crypt_sbox (snd (arcfour_crypt_sbox st xs)) ys)"
    by (simp add: arcfour_crypt_sbox_append Let_def split: prod.split)
  moreover have "length ?c = length (xs @ ys)" by (rule length_arcfour_crypt_sbox)
  moreover have "fst (arcfour_crypt_sbox st ?c) = xs @ ys" by (simp only: arcfour_crypt_sbox_invol fst_conv)
  ultimately show ?thesis
    using st wf_sbox_perm by (auto simp: arcfour_crypt_blob_def)
qed

theorem arcfour_involution_witness:
  "\<exists>c. arcfour_crypt_blob [0x50, 0x6c, 0x61] [0x4B, 0x65, 0x79] = Inr c \<and>
     arcfour_crypt_blob c [0x4B, 0x65, 0x79] = Inr [0x50, 0x6c, 0x61]"
  using arcfour_involution [of "[0x4B, 0x65, 0x79]" "[0x50]" "[0x6c, 0x61]"] by auto

section \<open>Hashes\<close>



text \<open>
  C10. MD5 does not depend on how the message is cut into updates, nor on what the block
  buffer of the context held before: the digest is the compression function iterated over
  the padded concatenation.
\<close>

theorem md5_chunks_digest:
  assumes "length (md5_in ctx) = 64" and "length (concat ds) < 2 ^ 61"
  shows "MD5Final (foldl MD5Update (MD5Init ctx) ds) = md_digest MD5Transform (concat ds)"
  using md5.chunks_digest [OF MD5Init_absorbed [OF assms(1)], of ds] assms(2) by simp

theorem md5_chunks_digest_witness:
  "md_digest MD5Transform [0x61, 0x62, 0x63] =
    [0x90, 0x01, 0x50, 0x98, 0x3c, 0xd2, 0x4f, 0xb0, 0xd6, 0x96, 0x3f, 0x7d, 0x28, 0xe1, 0x7f, 0x72]"
proof -
  have "MD5Final (foldl MD5Update (MD5Init md5_fresh) [[0x61], [0x62, 0x63]]) =
    [0x90, 0x01, 0x50, 0x98, 0x3c, 0xd2, 0x4f, 0xb0, 0xd6, 0x96, 0x3f, 0x7d, 0x28, 0xe1, 0x7f, 0x72]"
    by code_simp
  with md5_chunks_digest [of md5_fresh "[[0x61], [0x62, 0x63]]"] show ?thesis by (simp add: md5_fresh_def)
qed

text \<open>The compression function as RFC 1321 writes it: the round functions and the schedule.\<close>

definition rfc1321_schedule :: "(nat \<Rightarrow> nat) \<Rightarrow> nat list \<Rightarrow> u32 list \<Rightarrow> (nat \<times> u32 \<times> nat) list" where
  "rfc1321_schedule g shifts ts = map (\<lambda>i. (g i mod 16, ts ! i, shifts ! (i mod 4))) [0..<16]"

definition rfc1321_compress :: "u32 list \<Rightarrow> md_state \<Rightarrow> u32 list \<Rightarrow> md_state" where
  "rfc1321_compress T s X =
     md_add s
      (foldl (MD5STEP (\<lambda>x y z. y XOR (x OR NOT z)) X)
       (foldl (MD5STEP (\<lambda>x y z. x XOR y XOR z) X)
        (foldl (MD5STEP (\<lambda>x y z. (x AND z) OR (y AND NOT z)) X)
         (foldl (MD5STEP (\<lambda>x y z. (x AND y) OR (NOT x AND z)) X) s
           (rfc1321_schedule (\<lambda>i. i) [7, 12, 17, 22] (take 16 T)))
          (rfc1321_schedule (\<lambda>i. 5 * i + 1) [5, 9, 14, 20] (take 16 (drop 16 T))))
         (rfc1321_schedule (\<lambda>i. 3 * i + 5) [4, 11, 16, 23] (take 16 (drop 32 T))))
        (rfc1321_schedule (\<lambda>i. 7 * i) [6, 10, 15, 21] (take 16 (drop 48 T))))"

definition md5_constants :: "u32 list" where
  "md5_constants = map (\<lambda>(k, t, s). t) (md5_round1 @ md5_round2 @ md5_round3 @ md5_round4)"

text \<open>
  The unrolled transformation, with its optimised selection function and its literal
  message indices and shifts, is the compression function of RFC 1321 with the constants of
  the code.
\<close>

theorem MD5Transform_rfc1321: "MD5Transform s X = rfc1321_compress md5_constants s X"
proof -
  have "F1 = (\<lambda>x y z. (x AND y) OR (NOT x AND z))" "F2 = (\<lambda>x y z. (x AND z) OR (y AND NOT z))"
    by (intro ext bit_word_eqI; auto simp: F1_def F2_def bit_simps)+
  moreover have "F3 = (\<lambda>x y z. x XOR y XOR z)" "F4 = (\<lambda>x y z. y XOR (x OR NOT z))"
    by (intro ext; simp add: F3_def F4_def)+
  moreover have "md5_round1 = rfc1321_schedule (\<lambda>i. i) [7, 12, 17, 22] (take 16 md5_constants)"
    "md5_round2 = rfc1321_schedule (\<lambda>i. 5 * i + 1) [5, 9, 14, 20] (take 16 (drop 16 md5_constants))"
    "md5_round3 = rfc1321_schedule (\<lambda>i. 3 * i + 5) [4, 11, 16, 23] (take 16 (drop 32 md5_constants))"
    "md5_round4 = rfc1321_schedule (\<lambda>i. 7 * i) [6, 10, 15, 21] (take 16 (drop 48 md5_constants))"
    by code_simp+
  ultimately show ?thesis unfolding MD5Transform_def rfc1321_compress_def Let_def by metis
qed

text \<open>
  C11. HMAC-MD5: the incremental interface computes the HMAC of RFC 2104 of the whole message
  for keys of any length, and \<open>hmac_md5\<close> computes it for its 16-byte key.
\<close>

theorem hmac_md5_rfc2104:
  assumes "length key < 2 ^ 61" and "length (concat ds) < 2 ^ 60" and "16 \<le> length k16"
  shows "hmac_md5_final (foldl (\<lambda>ctx d. hmac_md5_update d ctx) (hmac_md5_init_rfc2104 key) ds) = hmac_spec key (concat ds) \<and>
    hmac_md5 k16 (concat ds) = Inr (hmac_spec (take 16 k16) (concat ds))"
  using hmac.chunks_digest [OF hmac_init_absorbed [OF assms(1)], of ds] hmac_md5_once [OF assms(2,3)] assms(2) by simp

theorem hmac_md5_rfc2104_witness:
  "hmac_md5 (replicate 16 0x0b) [0x48, 0x69, 0x20, 0x54] = Inr (hmac_spec (replicate 16 0x0b) [0x48, 0x69, 0x20, 0x54]) \<and>
   hmac_md5_final (hmac_md5_update [0x20, 0x54] (hmac_md5_update [0x48, 0x69] (hmac_md5_init_rfc2104 [1, 2]))) =
     hmac_spec [1, 2] [0x48, 0x69, 0x20, 0x54]"
  using hmac_md5_rfc2104 [of "[1, 2]" "[[0x48, 0x69], [0x20, 0x54]]" "replicate 16 0x0b"] by simp

end
