(* ===== verification/Charset.thy ===== *)
theory Charset
  imports C_Strings
begin

text \<open>
  The character set conversions of \<open>lib/charset/iconv.c\<close>. A conversion function of the source
  gets pointers to the input, the number of input bytes left, the output and the room left,
  and advances all four. Here it gets the input bytes and the room, and returns its result
  (an \<open>errno\<close> or the count it returns), the input bytes it left unread and the output bytes it
  wrote. Every loop carries the output written so far.
\<close>

datatype iconv_errno = E2BIG | EINVAL | EILSEQ

type_synonym iconv_out = "(iconv_errno + nat) \<times> bytes \<times> bytes"
type_synonym iconv_fn = "bytes \<Rightarrow> nat \<Rightarrow> iconv_out"

section \<open>ASCII\<close>

fun ascii_pull_loop :: "bytes \<Rightarrow> nat \<Rightarrow> bytes \<Rightarrow> iconv_out" where
  "ascii_pull_loop (c # cs) (Suc (Suc n)) out = ascii_pull_loop cs n (out @ [c, 0])"
| "ascii_pull_loop inp n out = (if inp \<noteq> [] then Inl E2BIG else Inr 0, inp, out)"

definition ascii_pull :: iconv_fn where
  "ascii_pull inp n = ascii_pull_loop inp n []"

fun ascii_push_loop :: "bytes \<Rightarrow> nat \<Rightarrow> bytes \<Rightarrow> nat \<Rightarrow> iconv_out" where
  "ascii_push_loop (a # b # cs) (Suc n) out ir_count =
     ascii_push_loop cs n (out @ [a AND 0x7F]) (if b \<noteq> 0 then ir_count + 1 else ir_count)"
| "ascii_push_loop inp n out ir_count =
     (if length inp = 1 then Inl EINVAL else if length inp > 1 then Inl E2BIG else Inr ir_count, inp, out)"

definition ascii_push :: iconv_fn where
  "ascii_push inp n = ascii_push_loop inp n [] 0"

section \<open>UCS2-HEX\<close>

text \<open>
  The input behind the \<open>@\<close> is at least four bytes long. \<open>sscanf\<close> may look further than these
  when it skips white space, up to a NUL; here it sees the bytes of the input only.
\<close>

function ucs2hex_pull_loop :: "bytes \<Rightarrow> nat \<Rightarrow> bytes \<Rightarrow> iconv_out" where
  "ucs2hex_pull_loop inp n out =
     (if length inp \<ge> 1 \<and> n \<ge> 2
      then if inp ! 0 \<noteq> 0x40 then ucs2hex_pull_loop (drop 1 inp) (n - 2) (out @ [inp ! 0, 0])
           else if length inp < 5 then (Inl EINVAL, inp, out)
           else (case scan_hex 4 (drop 1 inp) of
                   None \<Rightarrow> (Inl EILSEQ, inp, out)
                 | Some (v, _) \<Rightarrow> ucs2hex_pull_loop (drop 5 inp) (n - 2) (out @ [ucast (v AND 0xff), ucast (drop_bit 8 v)]))
      else (if inp \<noteq> [] then Inl E2BIG else Inr 0, inp, out))"
  by pat_completeness auto
termination by (relation "measure (\<lambda>(inp, n, out). length inp)") auto

declare ucs2hex_pull_loop.simps [simp del]

definition ucs2hex_pull :: iconv_fn where
  "ucs2hex_pull inp n = ucs2hex_pull_loop inp n []"

function ucs2hex_push_loop :: "bytes \<Rightarrow> nat \<Rightarrow> bytes \<Rightarrow> iconv_out" where
  "ucs2hex_push_loop inp n out =
     (if length inp \<ge> 2 \<and> n \<ge> 1
      then if inp ! 1 = 0 \<and> inp ! 0 AND 0x80 = 0 \<and> inp ! 0 \<noteq> 0x40
           then ucs2hex_push_loop (drop 2 inp) (n - 1) (out @ [inp ! 0])
           else if n < 5 then (Inl E2BIG, inp, out)
           else ucs2hex_push_loop (drop 2 inp) (n - 5)
                  (out @ 0x40 # print_hex 4 (unat (inp ! 0) + 256 * unat (inp ! 1)))
      else (if length inp = 1 then Inl EINVAL else if length inp > 1 then Inl E2BIG else Inr 0, inp, out))"
  by pat_completeness auto
termination by (relation "measure (\<lambda>(inp, n, out). length inp)") auto

declare ucs2hex_push_loop.simps [simp del]

definition ucs2hex_push :: iconv_fn where
  "ucs2hex_push inp n = ucs2hex_push_loop inp n []"

section \<open>Copies\<close>

text \<open>\<open>swab\<close> exchanges the bytes of every pair; an odd last byte becomes 0.\<close>

fun swab :: "bytes \<Rightarrow> bytes" where
  "swab (a # b # cs) = b # a # swab cs"
| "swab [a] = [0]"
| "swab [] = []"

definition iconv_swab :: iconv_fn where
  "iconv_swab inp n =
     (let k = min (length inp) n; rest = drop k inp
      in (if rest \<noteq> [] then Inl E2BIG else Inr 0, rest, swab (take k inp)))"

definition iconv_copy :: iconv_fn where
  "iconv_copy inp n =
     (let k = min (length inp) n; rest = drop k inp
      in (if rest \<noteq> [] then Inl E2BIG else Inr 0, rest, take k inp))"

section \<open>UTF-8\<close>

function utf8_pull_loop :: "bytes \<Rightarrow> nat \<Rightarrow> bytes \<Rightarrow> iconv_out" where
  "utf8_pull_loop c n uc =
     (if length c \<ge> 1 \<and> n \<ge> 2
      then
        if c ! 0 AND 0x80 = 0 then utf8_pull_loop (drop 1 c) (n - 2) (uc @ [c ! 0, 0])
        else if c ! 0 AND 0xe0 = 0xc0 then
          if length c < 2 \<or> c ! 1 AND 0xc0 \<noteq> 0x80 then (Inl EILSEQ, c, uc)
          else utf8_pull_loop (drop 2 c) (n - 2)
                 (uc @ [push_bit 6 (c ! 0) OR (c ! 1 AND 0x3f), drop_bit 2 (c ! 0) AND 0x7])
        else if c ! 0 AND 0xf0 = 0xe0 then
          if length c < 3 \<or> c ! 1 AND 0xc0 \<noteq> 0x80 \<or> c ! 2 AND 0xc0 \<noteq> 0x80 then (Inl EILSEQ, c, uc)
          else utf8_pull_loop (drop 3 c) (n - 2)
                 (uc @ [push_bit 6 (c ! 1) OR (c ! 2 AND 0x3f),
                        push_bit 4 (c ! 0 AND 0xF) OR (drop_bit 2 (c ! 1) AND 0xF)])
        else if c ! 0 AND 0xf8 = 0xf0 then
          if length c < 4 \<or> c ! 1 AND 0xc0 \<noteq> 0x80 \<or> c ! 2 AND 0xc0 \<noteq> 0x80 \<or> c ! 3 AND 0xc0 \<noteq> 0x80
          then (Inl EILSEQ, c, uc)
          else
            let codepoint = (ucast (c ! 3 AND 0x3f) OR push_bit 6 (ucast (c ! 2 AND 0x3f)) OR
                             push_bit 12 (ucast (c ! 1 AND 0x3f)) OR push_bit 18 (ucast (c ! 0 AND 0x7)) :: u32)
            in if codepoint < 0x10000
               then utf8_pull_loop (drop 4 c) (n - 2) (uc @ [ucast (codepoint AND 0xFF), ucast (drop_bit 8 codepoint)])
               else
                 let codepoint = codepoint - 0x10000
                 in if n < 4 then (Inl E2BIG, c, uc)
                    else utf8_pull_loop (drop 4 c) (n - 4)
                           (uc @ [ucast (drop_bit 10 codepoint AND 0xFF), ucast (drop_bit 18 codepoint OR 0xd8),
                                  ucast (codepoint AND 0xFF), ucast ((drop_bit 8 codepoint AND 0x3) OR 0xdc)])
        else (Inl EINVAL, c, uc)
      else (if c \<noteq> [] then Inl E2BIG else Inr 0, c, uc))"
  by pat_completeness auto
termination by (relation "measure (\<lambda>(c, n, uc). length c)") (auto simp: Let_def)

declare utf8_pull_loop.simps [simp del]

definition utf8_pull :: iconv_fn where
  "utf8_pull inp n = utf8_pull_loop inp n []"

function utf8_push_loop :: "bytes \<Rightarrow> nat \<Rightarrow> bytes \<Rightarrow> iconv_out" where
  "utf8_push_loop uc n c =
     (if length uc \<ge> 2 \<and> n \<ge> 1
      then
        if uc ! 1 = 0 \<and> uc ! 0 AND 0x80 = 0 then utf8_push_loop (drop 2 uc) (n - 1) (c @ [uc ! 0])
        else if uc ! 1 AND 0xf8 = 0 then
          if n < 2 then (Inl E2BIG, uc, c)
          else utf8_push_loop (drop 2 uc) (n - 2)
                 (c @ [0xc0 OR drop_bit 6 (uc ! 0) OR push_bit 2 (uc ! 1), 0x80 OR (uc ! 0 AND 0x3f)])
        else if uc ! 1 AND 0xfc = 0xdc then
          (if length uc < 4 then Inl EINVAL else Inl EILSEQ, uc, c)
        else if uc ! 1 AND 0xfc \<noteq> 0xd8 then
          let codepoint = (ucast (uc ! 0) OR push_bit 8 (ucast (uc ! 1)) :: u32)
          in if n < 3 then (Inl E2BIG, uc, c)
             else utf8_push_loop (drop 2 uc) (n - 3)
                    (c @ [ucast (0xe0 OR drop_bit 12 codepoint), ucast (0x80 OR (drop_bit 6 codepoint AND 0x3f)),
                          ucast (0x80 OR (codepoint AND 0x3f))])
        else if length uc < 4 then (Inl EINVAL, uc, c)
        else if uc ! 3 AND 0xfc \<noteq> 0xdc then (Inl EILSEQ, uc, c)
        else
          let codepoint = 0x10000 + (ucast (uc ! 2) OR push_bit 8 (ucast (uc ! 3 AND 0x3)) OR
                            push_bit 10 (ucast (uc ! 0)) OR push_bit 18 (ucast (uc ! 1 AND 0x3)) :: u32)
          in if n < 4 then (Inl E2BIG, uc, c)
             else utf8_push_loop (drop 4 uc) (n - 4)
                    (c @ [ucast (0xf0 OR drop_bit 18 codepoint), ucast (0x80 OR (drop_bit 12 codepoint AND 0x3f)),
                          ucast (0x80 OR (drop_bit 6 codepoint AND 0x3f)), ucast (0x80 OR (codepoint AND 0x3f))])
      else (if length uc = 1 then Inl EINVAL else if length uc > 1 then Inl E2BIG else Inr 0, uc, c))"
  by pat_completeness auto
termination by (relation "measure (\<lambda>(uc, n, c). length uc)") (auto simp: Let_def)

declare utf8_push_loop.simps [simp del]

definition utf8_push :: iconv_fn where
  "utf8_push inp n = utf8_push_loop inp n []"

section \<open>Descriptors\<close>

record charset_functions =
  cs_name :: bytes
  cs_pull :: iconv_fn
  cs_push :: iconv_fn

definition builtin_functions :: "charset_functions list" where
  "builtin_functions =
     [\<lparr>cs_name = ascii_str ''UCS-2LE'', cs_pull = iconv_copy, cs_push = iconv_copy\<rparr>,
      \<lparr>cs_name = ascii_str ''UTF-16LE'', cs_pull = iconv_copy, cs_push = iconv_copy\<rparr>,
      \<lparr>cs_name = ascii_str ''UCS-2BE'', cs_pull = iconv_swab, cs_push = iconv_swab\<rparr>,
      \<lparr>cs_name = ascii_str ''UTF-16BE'', cs_pull = iconv_swab, cs_push = iconv_swab\<rparr>,
      \<lparr>cs_name = ascii_str ''UTF8'', cs_pull = utf8_pull, cs_push = utf8_push\<rparr>,
      \<lparr>cs_name = ascii_str ''UTF-8'', cs_pull = utf8_pull, cs_push = utf8_push\<rparr>,
      \<lparr>cs_name = ascii_str ''ASCII'', cs_pull = ascii_pull, cs_push = ascii_push\<rparr>,
      \<lparr>cs_name = ascii_str ''UCS2-HEX'', cs_pull = ucs2hex_pull, cs_push = ucs2hex_push\<rparr>]"

text \<open>The registered charsets, the newest in front; a name can be registered only once.\<close>

definition NT_STATUS_OBJECT_NAME_COLLISION :: u32 where "NT_STATUS_OBJECT_NAME_COLLISION = 0xC0000035"

definition charset_register_backend :: "charset_functions list \<Rightarrow> charset_functions \<Rightarrow> charset_functions list res" where
  "charset_register_backend charsets funcs =
     (if \<exists>c \<in> set charsets. strcaseeq (cs_name c) (cs_name funcs)
      then Inl (Status NT_STATUS_OBJECT_NAME_COLLISION) else Inr (funcs # charsets))"

datatype smb_iconv_t = Direct iconv_fn | Via iconv_fn iconv_fn

definition is_utf16 :: "bytes \<Rightarrow> bool" where
  "is_utf16 name = (strcaseeq name (ascii_str ''UCS-2LE'') \<or> strcaseeq name (ascii_str ''UTF-16LE''))"

text \<open>The last builtin of the name, else the first registered one.\<close>

definition find_charset :: "charset_functions list \<Rightarrow> bytes \<Rightarrow> charset_functions option" where
  "find_charset charsets code =
     (case find (\<lambda>f. strcaseeq code (cs_name f)) (rev builtin_functions) of
        Some f \<Rightarrow> Some f
      | None \<Rightarrow> find (\<lambda>f. strcaseeq (cs_name f) code) charsets)"

text \<open>
  \<open>sys to from\<close> is the conversion \<open>iconv_open(to, from)\<close> of the C library gives, \<open>None\<close> where
  it fails; \<open>native\<close> is the option that allows it.
\<close>

definition sys_open :: "(bytes \<Rightarrow> bytes \<Rightarrow> iconv_fn option) \<Rightarrow> (bytes \<Rightarrow> bytes \<times> bytes) \<Rightarrow> iconv_fn option" where
  "sys_open sys dir =
     (case (case dir (ascii_str ''UTF-16LE'') of (t, f) \<Rightarrow> sys t f) of
        Some g \<Rightarrow> Some g
      | None \<Rightarrow> (case dir (ascii_str ''UCS-2LE'') of (t, f) \<Rightarrow> sys t f))"

definition smb_iconv_open ::
  "(bytes \<Rightarrow> bytes \<Rightarrow> iconv_fn option) \<Rightarrow> bool \<Rightarrow> charset_functions list \<Rightarrow> bytes \<Rightarrow> bytes \<Rightarrow> smb_iconv_t option" where
  "smb_iconv_open sys native charsets tocode fromcode =
     (if fromcode = tocode then Some (Direct iconv_copy)
      else
        let from = find_charset charsets fromcode; to = find_charset charsets tocode
        in if (from = None \<or> to = None) \<and> \<not> native then None
           else
             case (case from of Some f \<Rightarrow> Some (cs_pull f) | None \<Rightarrow> sys_open sys (\<lambda>u. (u, fromcode))) of
               None \<Rightarrow> None
             | Some pull \<Rightarrow>
               (case (case to of Some t \<Rightarrow> Some (cs_push t) | None \<Rightarrow> sys_open sys (\<lambda>u. (tocode, u))) of
                  None \<Rightarrow> None
                | Some push \<Rightarrow>
                    if is_utf16 fromcode then Some (Direct push)
                    else if is_utf16 tocode then Some (Direct pull)
                    else Some (Via pull push)))"

text \<open>
  The general case goes through a buffer of 2048 bytes. A pull that makes no progress and
  reports \<open>E2BIG\<close> would loop for ever, which is \<open>None\<close>.
\<close>

partial_function (option) smb_iconv_loop :: "iconv_fn \<Rightarrow> iconv_fn \<Rightarrow> bytes \<Rightarrow> nat \<Rightarrow> bytes \<Rightarrow> iconv_out option" where
  "smb_iconv_loop pull push inp n out =
     (if inp = [] then Some (Inr 0, inp, out)
      else case pull inp 2048 of (r, inp', buf) \<Rightarrow>
        if r = Inl EINVAL \<or> r = Inl EILSEQ then Some (r, inp', out)
        else case push buf n of (r2, rest, out') \<Rightarrow>
          (case r2 of Inl e \<Rightarrow> Some (Inl e, inp', out @ out')
           | Inr _ \<Rightarrow> smb_iconv_loop pull push inp' (n - length out') (out @ out')))"

definition smb_iconv :: "smb_iconv_t \<Rightarrow> bytes \<Rightarrow> nat \<Rightarrow> iconv_out option" where
  "smb_iconv cd inp n =
     (case cd of Direct f \<Rightarrow> Some (f inp n) | Via pull push \<Rightarrow> smb_iconv_loop pull push inp n [])"

end
