(* ===== verification/Charcnv.thy ===== *)
theory Charcnv
  imports Charset
begin

text \<open>
  \<open>lib/charset/charcnv.c\<close>: conversions between the charsets the program is configured with, on
  top of \<open>iconv.c\<close>, and the functions on UTF-16 lengths of \<open>lib/util/util_str.c\<close> they use.

  A C string is the list of its bytes without the NUL; a destination buffer is a list of bytes
  with the content it had before, so that what a function leaves unwritten can be seen. A
  conversion that would not return, a call of \<open>smb_panic\<close> and an access outside a buffer are
  \<open>Fault\<close>. Counts that may be -1 are integers.
\<close>

datatype charset_t = CH_UTF16 | CH_UNIX | CH_DISPLAY | CH_DOS | CH_UTF8 | CH_UTF16BE

definition STR_TERMINATE :: u32 where "STR_TERMINATE = 1"
definition STR_UPPER :: u32 where "STR_UPPER = 2"
definition STR_ASCII :: u32 where "STR_ASCII = 4"
definition STR_UNICODE :: u32 where "STR_UNICODE = 8"
definition STR_NOALIGN :: u32 where "STR_NOALIGN = 16"
definition STR_TERMINATE_ASCII :: u32 where "STR_TERMINATE_ASCII = 128"

section \<open>The table of descriptors\<close>

text \<open>An entry of \<open>conv_handles\<close> is NULL, the value -1 that stands for a failure, or a descriptor.\<close>

datatype conv_handle = No_Handle | is_Bad_Handle: Bad_Handle | Handle smb_iconv_t

record charcnv_state =
  unix_charset :: bytes
  dos_charset :: bytes
  display_charset :: bytes
  conv_handles :: "charset_t \<times> charset_t \<Rightarrow> conv_handle"

definition charset_name :: "charcnv_state \<Rightarrow> charset_t \<Rightarrow> bytes" where
  "charset_name st ch =
     (case ch of
        CH_UTF16 \<Rightarrow> ascii_str ''UTF-16LE''
      | CH_UNIX \<Rightarrow> unix_charset st
      | CH_DOS \<Rightarrow> dos_charset st
      | CH_DISPLAY \<Rightarrow> display_charset st
      | CH_UTF8 \<Rightarrow> ascii_str ''UTF8''
      | CH_UTF16BE \<Rightarrow> ascii_str ''UTF-16BE'')"

definition init_iconv :: "charcnv_state \<Rightarrow> charcnv_state" where
  "init_iconv st = st\<lparr>conv_handles := (\<lambda>_. No_Handle)\<rparr>"

definition handle_of :: "smb_iconv_t option \<Rightarrow> conv_handle" where
  "handle_of r = (case r of None \<Rightarrow> Bad_Handle | Some cd \<Rightarrow> Handle cd)"

text \<open>\<open>op\<close> is \<open>smb_iconv_open\<close> with the registered charsets and the system's \<open>iconv\<close>.\<close>

definition get_conv_handle ::
  "(bytes \<Rightarrow> bytes \<Rightarrow> smb_iconv_t option) \<Rightarrow> charcnv_state \<Rightarrow> charset_t \<Rightarrow> charset_t \<Rightarrow> conv_handle \<times> charcnv_state" where
  "get_conv_handle op st from to =
     (case conv_handles st (from, to) of
        No_Handle \<Rightarrow>
          (let h = handle_of (op (charset_name st to) (charset_name st from));
               st1 = st\<lparr>conv_handles := (conv_handles st)((from, to) := h)\<rparr>
           in if is_Bad_Handle h \<and> (from = CH_DOS \<or> to = CH_DOS) \<and>
                 \<not> strcaseeq (charset_name st CH_DOS) (ascii_str ''ASCII'')
              then let st2 = st1\<lparr>dos_charset := ascii_str ''ASCII''\<rparr>;
                       h = handle_of (op (charset_name st2 to) (charset_name st2 from))
                   in (h, st2\<lparr>conv_handles := (conv_handles st2)((from, to) := h)\<rparr>)
              else (h, st1))
      | h \<Rightarrow> (h, st))"

text \<open>
  What the functions below get from the table: the descriptor for two charsets, \<open>None\<close> where
  there is none.
\<close>

type_synonym conv_env = "charset_t \<Rightarrow> charset_t \<Rightarrow> smb_iconv_t option"

definition conv_of :: "(bytes \<Rightarrow> bytes \<Rightarrow> smb_iconv_t option) \<Rightarrow> charcnv_state \<Rightarrow> conv_env" where
  "conv_of op st from to = (case fst (get_conv_handle op st from to) of Handle cd \<Rightarrow> Some cd | _ \<Rightarrow> None)"

section \<open>Converting\<close>

definition iconv_run :: "smb_iconv_t \<Rightarrow> bytes \<Rightarrow> nat \<Rightarrow> iconv_out res" where
  "iconv_run cd inp n = (case smb_iconv cd inp n of None \<Rightarrow> Inl Fault | Some r \<Rightarrow> Inr r)"

definition overwrite :: "bytes \<Rightarrow> bytes \<Rightarrow> bytes" where
  "overwrite out dest = out @ drop (length out) dest"

definition convert_string :: "conv_env \<Rightarrow> charset_t \<Rightarrow> charset_t \<Rightarrow> bytes \<Rightarrow> bytes \<Rightarrow> (int \<times> bytes) res" where
  "convert_string conv from to src dest =
     (case conv from to of
        None \<Rightarrow> let len = min (length src) (length dest) in Inr (int len, overwrite (take len src) dest)
      | Some cd \<Rightarrow>
          chk (iconv_run cd src (length dest)) (\<lambda>(r, rest, out).
            Inr (case r of Inl _ \<Rightarrow> - 1 | Inr _ \<Rightarrow> int (length out), overwrite out dest)))"

text \<open>
  After \<open>E2BIG\<close> the loop of \<open>convert_string_talloc\<close> starts again with a larger buffer, but with
  the pointers as \<open>smb_iconv\<close> left them and the whole length: it reads past the input, or
  reallocates a pointer into the middle of a block, unless neither pointer had moved.
\<close>

function convert_talloc_loop :: "smb_iconv_t \<Rightarrow> bytes \<Rightarrow> nat \<Rightarrow> bytes option res" where
  "convert_talloc_loop cd src len =
     (if (2 + len * 3) mod 2 ^ 32 \<ge> MAX_TALLOC_SIZE then Inr None
      else if 2 + len * 3 \<ge> 2 ^ 32 then Inl Fault
      else chk (iconv_run cd src (len * 3)) (\<lambda>r.
        case fst r of
          Inr _ \<Rightarrow> Inr (Some (snd (snd r)))
        | Inl e \<Rightarrow>
            if e = E2BIG
            then if snd (snd r) = [] \<and> fst (snd r) = src then convert_talloc_loop cd src (2 + len * 3) else Inl Fault
            else Inr None))"
  by pat_completeness auto
termination by (relation "measure (\<lambda>(cd, src, len). 2 ^ 32 - len)") auto

declare convert_talloc_loop.simps [simp del]

definition convert_string_talloc :: "conv_env \<Rightarrow> charset_t \<Rightarrow> charset_t \<Rightarrow> bytes \<Rightarrow> bytes option res" where
  "convert_string_talloc conv from to src =
     (if src = [] then Inr None
      else case conv from to of None \<Rightarrow> Inr None | Some cd \<Rightarrow> convert_talloc_loop cd src (length src))"

section \<open>UTF-16 lengths\<close>

function utf16_len_loop :: "bytes \<Rightarrow> nat \<Rightarrow> nat res" where
  "utf16_len_loop buf len =
     (if len + 2 \<le> length buf
      then if buf ! len = 0 \<and> buf ! (len + 1) = 0 then Inr (len + 2) else utf16_len_loop buf (len + 2)
      else Inl Fault)"
  by pat_completeness auto
termination by (relation "measure (\<lambda>(buf, len). length buf - len)") auto

declare utf16_len_loop.simps [simp del]

definition utf16_len :: "bytes \<Rightarrow> nat res" where
  "utf16_len buf = utf16_len_loop buf 0"

function utf16_len_n_loop :: "bytes \<Rightarrow> nat \<Rightarrow> nat" where
  "utf16_len_n_loop src len =
     (if len + 2 < length src \<and> \<not> (src ! len = 0 \<and> src ! (len + 1) = 0) then utf16_len_n_loop src (len + 2)
      else if len + 2 \<le> length src then len + 2 else len)"
  by pat_completeness auto
termination by (relation "measure (\<lambda>(src, len). length src - len)") auto

declare utf16_len_n_loop.simps [simp del]

definition utf16_len_n :: "bytes \<Rightarrow> nat" where
  "utf16_len_n src = utf16_len_n_loop src 0"

text \<open>\<open>addr_odd\<close> tells whether the address of the buffer is odd.\<close>

definition ucs2_align :: "bool \<Rightarrow> u32 \<Rightarrow> bool" where
  "ucs2_align addr_odd flags = (flags AND (STR_NOALIGN OR STR_ASCII) = 0 \<and> addr_odd)"

section \<open>Strings of the program to buffers\<close>

text \<open>\<open>upper\<close> is \<open>strupper_talloc\<close>, whose case tables are files read at run time.\<close>

definition push_ascii_plain :: "conv_env \<Rightarrow> bytes \<Rightarrow> bytes \<Rightarrow> u32 \<Rightarrow> (int \<times> bytes) res" where
  "push_ascii_plain conv src dest flags =
     convert_string conv CH_UNIX CH_DOS
       (if flags AND (STR_TERMINATE OR STR_TERMINATE_ASCII) \<noteq> 0 then src @ [0] else src) dest"

definition push_ascii :: "(bytes \<Rightarrow> bytes option) \<Rightarrow> conv_env \<Rightarrow> bytes \<Rightarrow> bytes \<Rightarrow> u32 \<Rightarrow> (int \<times> bytes) res" where
  "push_ascii upper conv src dest flags =
     (if flags AND STR_UPPER \<noteq> 0
      then case upper src of
             None \<Rightarrow> Inr (- 1, dest)
           | Some tmpbuf \<Rightarrow> push_ascii_plain conv tmpbuf dest (flags AND NOT STR_UPPER)
      else push_ascii_plain conv src dest flags)"

definition push_ascii_talloc :: "conv_env \<Rightarrow> bytes \<Rightarrow> bytes option res" where
  "push_ascii_talloc conv src = convert_string_talloc conv CH_UNIX CH_DOS (src @ [0])"

text \<open>The byte of alignment is written before the room is looked at.\<close>

definition push_ucs2_plain :: "conv_env \<Rightarrow> bool \<Rightarrow> bytes \<Rightarrow> bytes \<Rightarrow> u32 \<Rightarrow> (int \<times> bytes) res" where
  "push_ucs2_plain conv addr_odd src dest flags =
     (let src = (if flags AND STR_TERMINATE \<noteq> 0 then src @ [0] else src)
      in if ucs2_align addr_odd flags \<and> dest = [] then Inl Fault
         else
           let pre = (if ucs2_align addr_odd flags then [0] else []);
               room = (length dest - length pre) div 2 * 2;
               area = take room (drop (length pre) dest);
               tail = drop (length pre + room) dest
           in chk (convert_string conv CH_UNIX CH_UTF16 src area) (\<lambda>(ret, area).
                Inr (if ret = - 1 then 0 else int (length pre) + ret, pre @ area @ tail)))"

definition push_ucs2 :: "(bytes \<Rightarrow> bytes option) \<Rightarrow> conv_env \<Rightarrow> bool \<Rightarrow> bytes \<Rightarrow> bytes \<Rightarrow> u32 \<Rightarrow> (int \<times> bytes) res" where
  "push_ucs2 upper conv addr_odd src dest flags =
     (if flags AND STR_UPPER \<noteq> 0
      then case upper src of
             None \<Rightarrow> Inr (- 1, dest)
           | Some tmpbuf \<Rightarrow> push_ucs2_plain conv addr_odd tmpbuf dest (flags AND NOT STR_UPPER)
      else push_ucs2_plain conv addr_odd src dest flags)"

definition push_ucs2_talloc :: "conv_env \<Rightarrow> bytes \<Rightarrow> bytes option res" where
  "push_ucs2_talloc conv src = convert_string_talloc conv CH_UNIX CH_UTF16 (src @ [0])"

definition push_utf8_talloc :: "conv_env \<Rightarrow> bytes \<Rightarrow> bytes option res" where
  "push_utf8_talloc conv src = convert_string_talloc conv CH_UNIX CH_UTF8 (src @ [0])"

definition push_string :: "(bytes \<Rightarrow> bytes option) \<Rightarrow> conv_env \<Rightarrow> bool \<Rightarrow> bytes \<Rightarrow> bytes \<Rightarrow> u32 \<Rightarrow> (int \<times> bytes) res" where
  "push_string upper conv addr_odd src dest flags =
     (if flags AND STR_ASCII \<noteq> 0 then push_ascii upper conv src dest flags
      else if flags AND STR_UNICODE \<noteq> 0 then push_ucs2 upper conv addr_odd src dest flags
      else Inl Fault)"

section \<open>Buffers to strings of the program\<close>

text \<open>\<open>dest[MIN(ret, dest_len-1)] = 0\<close>, where -1 as a \<open>size_t\<close> is the largest value.\<close>

definition terminate_at :: "int \<Rightarrow> bytes \<Rightarrow> bytes" where
  "terminate_at ret dest =
     (if dest = [] then dest
      else dest[(if ret < 0 then length dest - 1 else min (nat ret) (length dest - 1)) := 0])"

definition strnlen :: "bytes \<Rightarrow> nat" where
  "strnlen src = length (takeWhile (\<lambda>b. b \<noteq> 0) src)"

text \<open>The C string a buffer holds.\<close>

definition c_string :: "bytes \<Rightarrow> bytes" where
  "c_string dest = takeWhile (\<lambda>b. b \<noteq> 0) dest"

definition pull_ascii :: "conv_env \<Rightarrow> bytes \<Rightarrow> bytes \<Rightarrow> u32 \<Rightarrow> (nat \<times> bytes) res" where
  "pull_ascii conv src dest flags =
     (let src_len = (if flags AND (STR_TERMINATE OR STR_TERMINATE_ASCII) \<noteq> 0
                     then if strnlen src < length src then strnlen src + 1 else strnlen src
                     else length src)
      in chk (convert_string conv CH_DOS CH_UNIX (take src_len src) dest) (\<lambda>(ret, dest).
           Inr (src_len, terminate_at ret dest)))"

definition pull_ucs2 :: "conv_env \<Rightarrow> bool \<Rightarrow> bytes \<Rightarrow> bytes \<Rightarrow> u32 \<Rightarrow> (nat \<times> bytes) res" where
  "pull_ucs2 conv addr_odd src dest flags =
     (let src = (if ucs2_align addr_odd flags then drop 1 src else src);
          src_len = (if flags AND STR_TERMINATE \<noteq> 0 then utf16_len_n src else length src);
          src_len = src_len div 2 * 2
      in chk (convert_string conv CH_UTF16 CH_UNIX (take src_len src) dest) (\<lambda>(ret, dest).
           Inr (src_len, terminate_at ret dest)))"

definition pull_string :: "conv_env \<Rightarrow> bool \<Rightarrow> bytes \<Rightarrow> bytes \<Rightarrow> u32 \<Rightarrow> (nat \<times> bytes) res" where
  "pull_string conv addr_odd src dest flags =
     (if flags AND STR_ASCII \<noteq> 0 then pull_ascii conv src dest flags
      else if flags AND STR_UNICODE \<noteq> 0 then pull_ucs2 conv addr_odd src dest flags
      else Inl Fault)"

definition pull_ascii_talloc :: "conv_env \<Rightarrow> bytes \<Rightarrow> bytes option res" where
  "pull_ascii_talloc conv src = convert_string_talloc conv CH_DOS CH_UNIX (src @ [0])"

text \<open>The source of \<open>pull_ucs2_talloc\<close> is the memory from the pointer on.\<close>

definition pull_ucs2_talloc :: "conv_env \<Rightarrow> bytes \<Rightarrow> bytes option res" where
  "pull_ucs2_talloc conv src =
     chk (utf16_len src) (\<lambda>src_len. convert_string_talloc conv CH_UTF16 CH_UNIX (take src_len src))"

definition pull_utf8_talloc :: "conv_env \<Rightarrow> bytes \<Rightarrow> bytes option res" where
  "pull_utf8_talloc conv src = convert_string_talloc conv CH_UTF8 CH_UNIX (src @ [0])"

section \<open>Code points\<close>

definition INVALID_CODEPOINT :: u32 where "INVALID_CODEPOINT = - 1"

definition decode_units :: "bytes \<Rightarrow> u32" where
  "decode_units buf =
     (if length buf = 2 then ucast (buf ! 0) OR push_bit 8 (ucast (buf ! 1))
      else if length buf = 4
      then 0x10000 + (ucast (buf ! 2) OR push_bit 8 (ucast (buf ! 3 AND 0x3)) OR
             push_bit 10 (ucast (buf ! 0)) OR push_bit 18 (ucast (buf ! 1 AND 0x3)))
      else INVALID_CODEPOINT)"

text \<open>The code point and the number of bytes it takes.\<close>

definition next_codepoint :: "conv_env \<Rightarrow> bytes \<Rightarrow> (u32 \<times> nat) res" where
  "next_codepoint conv str =
     (if str = [] then Inr (0, 1)
      else if str ! 0 AND 0x80 = 0 then Inr (ucast (str ! 0), 1)
      else
        let inp = takeWhile (\<lambda>b. b \<noteq> 0) (take 5 str)
        in case conv CH_UNIX CH_UTF16 of
             None \<Rightarrow> Inr (INVALID_CODEPOINT, 1)
           | Some cd \<Rightarrow>
               chk (iconv_run cd inp 2) (\<lambda>(_, rest, out).
                 if out \<noteq> [] then Inr (decode_units out, length inp - length rest)
                 else chk (iconv_run cd rest 4) (\<lambda>(_, rest, out).
                   if out = [] then Inr (INVALID_CODEPOINT, 1)
                   else Inr (decode_units out, length inp - length rest))))"

definition encode_units :: "u32 \<Rightarrow> bytes" where
  "encode_units c =
     (if c < 0x10000 then [ucast (c AND 0xFF), ucast (drop_bit 8 c)]
      else let c = c - 0x10000
           in [ucast (drop_bit 10 c AND 0xFF), ucast (drop_bit 18 c OR 0xd8),
               ucast (c AND 0xFF), ucast ((drop_bit 8 c AND 0x3) OR 0xdc)])"

text \<open>The count that is returned and the bytes written.\<close>

definition push_codepoint :: "conv_env \<Rightarrow> u32 \<Rightarrow> (int \<times> bytes) res" where
  "push_codepoint conv c =
     (if c < 128 then Inr (1, [ucast c])
      else case conv CH_UTF16 CH_UNIX of
             None \<Rightarrow> Inr (- 1, [])
           | Some cd \<Rightarrow>
               chk (iconv_run cd (encode_units c) 5) (\<lambda>(_, rest, out).
                 Inr (if rest \<noteq> [] then - 1 else int (length out), out)))"

end
