(* ===== verification/Charset_Lemmas.thy ===== *)
theory Charset_Lemmas
  imports Charset
begin

text \<open>
  The contract of a conversion function, as a locale, with every builtin function as an
  instance; what follows from it for the conversion through a buffer; and the lemmas on the
  bits of UTF-8 and UTF-16.
\<close>

section \<open>The contract of a conversion function\<close>

definition conv_ok :: "bytes \<Rightarrow> nat \<Rightarrow> bytes \<Rightarrow> iconv_out \<Rightarrow> bool" where
  "conv_ok inp n out = (\<lambda>(r, rest, out').
     (\<exists>k. rest = drop k inp) \<and> (\<exists>new. out' = out @ new \<and> length new \<le> n) \<and>
     (\<forall>k. r = Inr k \<longrightarrow> rest = []) \<and>
     (inp \<noteq> [] \<longrightarrow> 5 \<le> n \<longrightarrow> r = Inl EINVAL \<or> r = Inl EILSEQ \<or> length rest < length inp))"

locale iconv_function =
  fixes f :: iconv_fn
  assumes ok: "conv_ok inp n [] (f inp n)"
begin

lemma bounded: "f inp n = (r, rest, out) \<Longrightarrow> length out \<le> n"
  using ok [of inp n] by (auto simp: conv_ok_def)

lemma suffix: "f inp n = (r, rest, out) \<Longrightarrow> \<exists>k. rest = drop k inp"
  using ok [of inp n] by (auto simp: conv_ok_def)

lemma complete: "f inp n = (Inr k, rest, out) \<Longrightarrow> rest = []"
  using ok [of inp n] by (auto simp: conv_ok_def)

lemma progress: "f inp n = (r, rest, out) \<Longrightarrow> inp \<noteq> [] \<Longrightarrow> 5 \<le> n \<Longrightarrow>
  r = Inl EINVAL \<or> r = Inl EILSEQ \<or> length rest < length inp"
  using ok [of inp n] by (auto simp: conv_ok_def)

end

text \<open>Two functions joined by the buffer of \<open>smb_iconv\<close>: the loop ends and respects the room.\<close>

locale iconv_pair = pull: iconv_function pull + push: iconv_function push
  for pull :: iconv_fn and push :: iconv_fn
begin

lemma loop_total:
  "\<exists>r k new. smb_iconv_loop pull push inp n out = Some (r, drop k inp, out @ new) \<and> length new \<le> n"
proof (induction "length inp" arbitrary: inp n out rule: less_induct)
  case less
  show ?case
  proof (cases "inp = []")
    case True
    then show ?thesis by (subst smb_iconv_loop.simps) simp
  next
    case False
    obtain r inp' buf where p: "pull inp 2048 = (r, inp', buf)" by (cases "pull inp 2048")
    obtain r2 rest out' where q: "push buf n = (r2, rest, out')" by (cases "push buf n")
    from push.bounded [OF q] have out': "length out' \<le> n" .
    from pull.suffix [OF p] obtain j where j: "inp' = drop j inp" by blast
    show ?thesis
    proof (cases "r = Inl EINVAL \<or> r = Inl EILSEQ")
      case True
      with \<open>inp \<noteq> []\<close> p j show ?thesis by (subst smb_iconv_loop.simps) auto
    next
      case no_err: False
      with pull.progress [OF p False] have shorter: "length inp' < length inp" by simp
      show ?thesis
      proof (cases r2)
        case (Inl e)
        with no_err False p q j out' show ?thesis by (subst smb_iconv_loop.simps) auto
      next
        case (Inr k)
        from less [OF shorter, of "n - length out'" "out @ out'"] obtain r3 i new where
          "smb_iconv_loop pull push inp' (n - length out') (out @ out') = Some (r3, drop i inp', (out @ out') @ new)"
          "length new \<le> n - length out'" by blast
        with no_err False p q Inr out' j show ?thesis
          by (subst smb_iconv_loop.simps) (auto intro!: exI [of _ "i + j"] exI [of _ "out' @ new"])
      qed
    qed
  qed
qed

end

section \<open>The builtin functions\<close>

lemma conv_ok_step:
  assumes "conv_ok (drop k inp) (n - m) (out @ new) res" and "length new = m" and "m \<le> n" and "0 < k"
  shows "conv_ok inp n out res"
proof -
  obtain r rest out' where res: "res = (r, rest, out')" by (cases res)
  from assms(1) obtain j z where "rest = drop j (drop k inp)" "out' = (out @ new) @ z" "length z \<le> n - m"
      "\<forall>x. r = Inr x \<longrightarrow> rest = []"
    unfolding res by (auto simp: conv_ok_def)
  moreover from this(1) have "rest = drop (j + k) inp" by simp
  moreover have "inp \<noteq> [] \<longrightarrow> length rest < length inp" using calculation(1) assms(4) by auto
  ultimately show ?thesis
    unfolding res using assms(2,3) by (auto simp: conv_ok_def)
qed

lemma conv_ok_stop: "r = Inl EINVAL \<or> r = Inl EILSEQ \<or> r = Inl E2BIG \<and> n < 5 \<Longrightarrow> conv_ok inp n out (r, inp, out)"
  by (auto simp: conv_ok_def intro: exI [of _ 0])

lemma conv_ok_done: "\<not> Suc 0 < length inp \<Longrightarrow> length inp \<noteq> Suc 0 \<Longrightarrow> conv_ok inp n out (Inr k, inp, out)"
  by (cases inp) (auto simp: conv_ok_def)

lemma conv_ok_if:
  "(b \<Longrightarrow> conv_ok inp n out x) \<Longrightarrow> (\<not> b \<Longrightarrow> conv_ok inp n out y) \<Longrightarrow> conv_ok inp n out (if b then x else y)"
  by simp

lemma conv_ok_end1:
  "\<not> (1 \<le> length inp \<and> 2 \<le> n) \<Longrightarrow> conv_ok inp n out (if inp \<noteq> [] then Inl E2BIG else Inr 0, inp, out)"
  by (cases inp) (auto simp: conv_ok_stop conv_ok_done)

lemma conv_ok_end2:
  "\<not> (2 \<le> length inp \<and> 1 \<le> n) \<Longrightarrow>
   conv_ok inp n out (if length inp = 1 then Inl EINVAL else if length inp > 1 then Inl E2BIG else Inr 0, inp, out)"
  by (auto simp: conv_ok_stop conv_ok_done)

lemma conv_ok_option:
  "(x = None \<Longrightarrow> conv_ok inp n out a) \<Longrightarrow> (\<And>v r. x = Some (v, r) \<Longrightarrow> conv_ok inp n out (b v r)) \<Longrightarrow>
   conv_ok inp n out (case x of None \<Rightarrow> a | Some (v, r) \<Rightarrow> b v r)"
  by (cases x) auto

lemmas conv_ok_rules = conv_ok_if conv_ok_end1 conv_ok_end2

lemma ascii_pull_ok: "conv_ok inp n out (ascii_pull_loop inp n out)"
proof (induction inp n out rule: ascii_pull_loop.induct)
  case (1 c cs n out)
  then show ?case using conv_ok_step [of 1 "c # cs" "Suc (Suc n)" 2 out "[c, 0]"] by simp
qed (auto simp: conv_ok_stop conv_ok_done)

lemma ascii_push_ok: "conv_ok inp n out (ascii_push_loop inp n out k)"
proof (induction inp n out k rule: ascii_push_loop.induct)
  case (1 a b cs n out ir)
  then show ?case using conv_ok_step [of 2 "a # b # cs" "Suc n" 1 out "[a AND 0x7F]"] by simp
qed (auto simp: conv_ok_stop conv_ok_done)

lemma ucs2hex_pull_ok: "conv_ok inp n out (ucs2hex_pull_loop inp n out)"
proof (induction inp n out rule: ucs2hex_pull_loop.induct)
  case (1 inp n out)
  note steps = conv_ok_step [OF 1(1)] conv_ok_step [OF 1(2)]
  show ?case
    unfolding ucs2hex_pull_loop.simps [of inp n out]
    by (assumption | rule conv_ok_rules steps conv_ok_stop conv_ok_option | (simp; fail))+
qed

lemma ucs2hex_push_ok: "conv_ok inp n out (ucs2hex_push_loop inp n out)"
proof (induction inp n out rule: ucs2hex_push_loop.induct)
  case (1 inp n out)
  note steps = conv_ok_step [OF 1(1)] conv_ok_step [OF 1(2)]
  show ?case
    unfolding ucs2hex_push_loop.simps [of inp n out]
    by (assumption | rule conv_ok_rules steps conv_ok_stop | (simp; fail))+
qed

lemma length_swab [simp]: "length (swab bs) = length bs"
  by (induction bs rule: swab.induct) simp_all

lemma iconv_swab_ok: "conv_ok inp n [] (iconv_swab inp n)"
  by (auto simp: iconv_swab_def conv_ok_def Let_def)

lemma iconv_copy_ok: "conv_ok inp n [] (iconv_copy inp n)"
  by (auto simp: iconv_copy_def conv_ok_def Let_def)

lemma utf8_pull_ok: "conv_ok c n uc (utf8_pull_loop c n uc)"
proof (induction c n uc rule: utf8_pull_loop.induct)
  case (1 c n uc)
  note steps = conv_ok_step [OF 1(1)] conv_ok_step [OF 1(2)] conv_ok_step [OF 1(3)] conv_ok_step [OF 1(4)] conv_ok_step [OF 1(5)]
  show ?case
    unfolding utf8_pull_loop.simps [of c n uc] Let_def
    by (assumption | rule conv_ok_rules steps conv_ok_stop | (simp; fail))+
qed

lemma utf8_push_ok: "conv_ok uc n c (utf8_push_loop uc n c)"
proof (induction uc n c rule: utf8_push_loop.induct)
  case (1 uc n c)
  note steps = conv_ok_step [OF 1(1)] conv_ok_step [OF 1(2)] conv_ok_step [OF 1(3)] conv_ok_step [OF 1(4)]
  show ?case
    unfolding utf8_push_loop.simps [of uc n c] Let_def
    by (assumption | rule conv_ok_rules steps conv_ok_stop | (simp; fail))+
qed

interpretation ic_ascii_pull: iconv_function ascii_pull
  by unfold_locales (simp add: ascii_pull_def ascii_pull_ok)

interpretation ic_ascii_push: iconv_function ascii_push
  by unfold_locales (simp add: ascii_push_def ascii_push_ok)

interpretation ic_ucs2hex_pull: iconv_function ucs2hex_pull
  by unfold_locales (simp add: ucs2hex_pull_def ucs2hex_pull_ok)

interpretation ic_ucs2hex_push: iconv_function ucs2hex_push
  by unfold_locales (simp add: ucs2hex_push_def ucs2hex_push_ok)

interpretation ic_swab: iconv_function iconv_swab
  by unfold_locales (rule iconv_swab_ok)

interpretation ic_copy: iconv_function iconv_copy
  by unfold_locales (rule iconv_copy_ok)

interpretation ic_utf8_pull: iconv_function utf8_pull
  by unfold_locales (simp add: utf8_pull_def utf8_pull_ok)

interpretation ic_utf8_push: iconv_function utf8_push
  by unfold_locales (simp add: utf8_push_def utf8_push_ok)

lemma builtin_iconv:
  assumes "f \<in> set builtin_functions"
  shows "iconv_function (cs_pull f)" and "iconv_function (cs_push f)"
  using assms ic_ascii_pull.iconv_function_axioms ic_ascii_push.iconv_function_axioms
    ic_ucs2hex_pull.iconv_function_axioms ic_ucs2hex_push.iconv_function_axioms
    ic_swab.iconv_function_axioms ic_copy.iconv_function_axioms
    ic_utf8_pull.iconv_function_axioms ic_utf8_push.iconv_function_axioms
  by (auto simp: builtin_functions_def)

section \<open>UTF-16 to UTF-8 and back\<close>

text \<open>Equality of bytes, bit by bit.\<close>

lemma u8_eq: "(a :: u8) = b \<longleftrightarrow> (bit a 0 = bit b 0) \<and> (bit a 1 = bit b 1) \<and> (bit a 2 = bit b 2) \<and> (bit a 3 = bit b 3) \<and>
  (bit a 4 = bit b 4) \<and> (bit a 5 = bit b 5) \<and> (bit a 6 = bit b 6) \<and> (bit a 7 = bit b 7)"
proof
  assume eq: "(bit a 0 = bit b 0) \<and> (bit a 1 = bit b 1) \<and> (bit a 2 = bit b 2) \<and> (bit a 3 = bit b 3) \<and>
    (bit a 4 = bit b 4) \<and> (bit a 5 = bit b 5) \<and> (bit a 6 = bit b 6) \<and> (bit a 7 = bit b 7)"
  show "a = b"
  proof (rule bit_word_eqI)
    fix n assume "n < LENGTH(8)"
    then consider "n = 0" | "n = 1" | "n = 2" | "n = 3" | "n = 4" | "n = 5" | "n = 6" | "n = 7" by (auto simp: numeral_eq_Suc less_Suc_eq)
    then show "bit a n = bit b n" using eq by cases simp_all
  qed
qed simp

lemma utf8_two_bytes:
  fixes u0 u1 :: u8
  assumes "u1 AND 0xf8 = 0"
  defines "c0 \<equiv> 0xc0 OR drop_bit 6 u0 OR push_bit 2 u1" and "c1 \<equiv> 0x80 OR (u0 AND 0x3f)"
  shows "c0 AND 0x80 \<noteq> 0" "c0 AND 0xe0 = 0xc0" "c1 AND 0xc0 = 0x80"
    "push_bit 6 c0 OR (c1 AND 0x3f) = u0" "drop_bit 2 c0 AND 0x7 = u1"
  using assms(1) unfolding u8_eq c0_def c1_def by (auto simp: bit_simps bit_u8_ge)

lemma utf8_three_bytes:
  fixes u0 u1 :: u8
  defines "cp \<equiv> ucast u0 OR push_bit 8 (ucast u1) :: u32"
  defines "c0 \<equiv> ucast (0xe0 OR drop_bit 12 cp) :: u8" and "c1 \<equiv> ucast (0x80 OR (drop_bit 6 cp AND 0x3f)) :: u8"
    and "c2 \<equiv> ucast (0x80 OR (cp AND 0x3f)) :: u8"
  shows "c0 AND 0x80 \<noteq> 0" "c0 AND 0xe0 \<noteq> 0xc0" "c0 AND 0xf0 = 0xe0" "c1 AND 0xc0 = 0x80" "c2 AND 0xc0 = 0x80"
    "push_bit 6 c1 OR (c2 AND 0x3f) = u0" "push_bit 4 (c0 AND 0xF) OR (drop_bit 2 c1 AND 0xF) = u1"
  unfolding u8_eq c0_def c1_def c2_def cp_def by (auto simp: bit_simps bit_u8_ge)

lemma bit_3_7: "bit (3 :: u8) m \<longleftrightarrow> m < 2" "bit (3 :: int) m \<longleftrightarrow> m < 2" "bit (7 :: u8) m \<longleftrightarrow> m < 3" "bit (7 :: int) m \<longleftrightarrow> m < 3"
  using bit_mask_iff [of 2 m, where 'a = u8] bit_mask_iff [of 2 m, where 'a = int]
    bit_mask_iff [of 3 m, where 'a = u8] bit_mask_iff [of 3 m, where 'a = int]
  by (auto simp: mask_eq_exp_minus_1 possible_bit_word)

lemma utf8_assemble:
  fixes cp :: u32
  assumes "cp < 0x200000"
  defines "c0 \<equiv> ucast (0xf0 OR drop_bit 18 cp) :: u8" and "c1 \<equiv> ucast (0x80 OR (drop_bit 12 cp AND 0x3f)) :: u8"
    and "c2 \<equiv> ucast (0x80 OR (drop_bit 6 cp AND 0x3f)) :: u8" and "c3 \<equiv> ucast (0x80 OR (cp AND 0x3f)) :: u8"
  shows "c0 AND 0x80 \<noteq> 0" "c0 AND 0xe0 \<noteq> 0xc0" "c0 AND 0xf0 \<noteq> 0xe0" "c0 AND 0xf8 = 0xf0"
    "c1 AND 0xc0 = 0x80" "c2 AND 0xc0 = 0x80" "c3 AND 0xc0 = 0x80"
    "(ucast (c3 AND 0x3f) OR push_bit 6 (ucast (c2 AND 0x3f)) OR push_bit 12 (ucast (c1 AND 0x3f)) OR
      push_bit 18 (ucast (c0 AND 0x7)) :: u32) = cp"
proof -
  have hi: "\<not> bit cp n" if "21 \<le> n" for n
  proof -
    have "drop_bit 21 cp = 0"
    proof -
      have "unat cp < 2 ^ 21" using assms(1) by (simp add: word_less_nat_alt)
      then have "unat (drop_bit 21 cp) = 0" unfolding unat_drop_bit_eq by (simp add: drop_bit_eq_div)
      then show ?thesis by (simp only: unat_eq_zero)
    qed
    then have "\<not> bit (drop_bit 21 cp) (n - 21)" by simp
    with that show ?thesis by (simp add: bit_drop_bit_eq)
  qed
  show "c0 AND 0x80 \<noteq> 0" "c0 AND 0xe0 \<noteq> 0xc0" "c0 AND 0xf0 \<noteq> 0xe0" "c0 AND 0xf8 = 0xf0"
    "c1 AND 0xc0 = 0x80" "c2 AND 0xc0 = 0x80" "c3 AND 0xc0 = 0x80"
    unfolding u8_eq c0_def c1_def c2_def c3_def by (auto simp: bit_simps hi)
  show "(ucast (c3 AND 0x3f) OR push_bit 6 (ucast (c2 AND 0x3f)) OR push_bit 12 (ucast (c1 AND 0x3f)) OR
      push_bit 18 (ucast (c0 AND 0x7)) :: u32) = cp"
  proof (rule bit_word_eqI)
    fix n assume "n < LENGTH(32)"
    then have "n \<in> {0, 1, 2, 3, 4, 5, 6, 7, 8, 9, 10, 11, 12, 13, 14, 15, 16, 17, 18, 19, 20} \<or> 21 \<le> n" by (auto simp: numeral_eq_Suc less_Suc_eq)
    then show "bit (ucast (c3 AND 0x3f) OR push_bit 6 (ucast (c2 AND 0x3f)) OR push_bit 12 (ucast (c1 AND 0x3f)) OR
      push_bit 18 (ucast (c0 AND 0x7)) :: u32) n = bit cp n"
      unfolding c0_def c1_def c2_def c3_def insert_iff empty_iff
      by (elim disjE) (auto simp: bit_simps hi bit_3_7)
  qed
qed

lemma utf16_surrogates:
  fixes u0 u1 u2 u3 :: u8
  assumes "u1 AND 0xfc = 0xd8" and "u3 AND 0xfc = 0xdc"
  defines "x \<equiv> ucast u2 OR push_bit 8 (ucast (u3 AND 0x3)) OR push_bit 10 (ucast u0) OR push_bit 18 (ucast (u1 AND 0x3)) :: u32"
  shows "x < 0x100000" "ucast (drop_bit 10 x AND 0xFF) = u0" "ucast (drop_bit 18 x OR 0xd8) = u1"
    "ucast (x AND 0xFF) = u2" "ucast ((drop_bit 8 x AND 0x3) OR 0xdc) = u3"
proof -
  have "x = take_bit 20 x" unfolding x_def
    by (rule bit_word_eqI) (auto simp: bit_simps bit_u8_ge bit_3_7)
  then have "unat x < 2 ^ 20" using unat_take_bit_mod [of 20 x] by (metis mod_less_divisor zero_less_numeral zero_less_power)
  then show "x < 0x100000" by (simp add: word_less_nat_alt)
  show "ucast (drop_bit 10 x AND 0xFF) = u0" "ucast (drop_bit 18 x OR 0xd8) = u1"
    "ucast (x AND 0xFF) = u2" "ucast ((drop_bit 8 x AND 0x3) OR 0xdc) = u3"
    using assms(1,2) unfolding u8_eq x_def by (auto simp: bit_simps bit_u8_ge)
qed

subsection \<open>The round trip\<close>

lemma take2: "2 \<le> length uc \<Longrightarrow> uc = [uc ! 0, uc ! 1] @ drop 2 uc"
  by (cases uc; cases "tl uc") auto

lemma take4: "4 \<le> length uc \<Longrightarrow> uc = [uc ! 0, uc ! 1, uc ! 2, uc ! 3] @ drop 4 uc"
proof -
  assume "4 \<le> length uc"
  then obtain a b c d r where "uc = a # b # c # d # r" by (auto simp: numeral_eq_Suc Suc_le_length_iff)
  then show ?thesis by (simp add: numeral_eq_Suc)
qed

text \<open>One turn of \<open>utf8_pull_loop\<close> on what one turn of \<open>utf8_push_loop\<close> wrote.\<close>

lemma pull_one: "2 \<le> m \<Longrightarrow> u0 AND 0x80 = 0 \<Longrightarrow> utf8_pull_loop (u0 # d) m out = utf8_pull_loop d (m - 2) (out @ [u0, 0])"
  by (subst utf8_pull_loop.simps) simp

lemma pull_step2:
  "2 \<le> m \<Longrightarrow> c0 AND 0x80 \<noteq> 0 \<Longrightarrow> c0 AND 0xe0 = 0xc0 \<Longrightarrow> c1 AND 0xc0 = 0x80 \<Longrightarrow>
   utf8_pull_loop (c0 # c1 # d) m out = utf8_pull_loop d (m - 2) (out @ [push_bit 6 c0 OR (c1 AND 0x3f), drop_bit 2 c0 AND 0x7])"
  by (subst utf8_pull_loop.simps) (simp add: numeral_2_eq_2)

lemma pull_step3:
  "2 \<le> m \<Longrightarrow> c0 AND 0x80 \<noteq> 0 \<Longrightarrow> c0 AND 0xe0 \<noteq> 0xc0 \<Longrightarrow> c0 AND 0xf0 = 0xe0 \<Longrightarrow> c1 AND 0xc0 = 0x80 \<Longrightarrow> c2 AND 0xc0 = 0x80 \<Longrightarrow>
   utf8_pull_loop (c0 # c1 # c2 # d) m out =
   utf8_pull_loop d (m - 2) (out @ [push_bit 6 c1 OR (c2 AND 0x3f), push_bit 4 (c0 AND 0xF) OR (drop_bit 2 c1 AND 0xF)])"
  by (subst utf8_pull_loop.simps) simp

lemma pull_step4:
  assumes "4 \<le> m" and "c0 AND 0x80 \<noteq> 0" "c0 AND 0xe0 \<noteq> 0xc0" "c0 AND 0xf0 \<noteq> 0xe0" "c0 AND 0xf8 = 0xf0"
    "c1 AND 0xc0 = 0x80" "c2 AND 0xc0 = 0x80" "c3 AND 0xc0 = 0x80"
    and "(ucast (c3 AND 0x3f) OR push_bit 6 (ucast (c2 AND 0x3f)) OR push_bit 12 (ucast (c1 AND 0x3f)) OR
      push_bit 18 (ucast (c0 AND 0x7)) :: u32) = 0x10000 + x" and "x < 0x100000"
  shows "utf8_pull_loop (c0 # c1 # c2 # c3 # d) m out =
    utf8_pull_loop d (m - 4) (out @ [ucast (drop_bit 10 x AND 0xFF), ucast (drop_bit 18 x OR 0xd8), ucast (x AND 0xFF), ucast ((drop_bit 8 x AND 0x3) OR 0xdc)])"
proof -
  have "unat x < 0x100000" using assms(10) by (simp add: word_less_nat_alt)
  then have "unat (0x10000 + x) = 0x10000 + unat x" by (simp add: unat_add_small)
  then have ge: "\<not> 0x10000 + x < 0x10000" by (simp add: word_less_nat_alt)
  have nth: "(c0 # c1 # c2 # c3 # d) ! 0 = c0" "(c0 # c1 # c2 # c3 # d) ! 1 = c1" "(c0 # c1 # c2 # c3 # d) ! 2 = c2"
    "(c0 # c1 # c2 # c3 # d) ! 3 = c3" "drop 4 (c0 # c1 # c2 # c3 # d) = d" "\<not> length (c0 # c1 # c2 # c3 # d) < 4"
    "1 \<le> length (c0 # c1 # c2 # c3 # d) \<and> 2 \<le> m" "\<not> m < 4"
    using assms(1) by simp_all
  show ?thesis
    unfolding utf8_pull_loop.simps [of "c0 # c1 # c2 # c3 # d"] nth assms(9) Let_def
    by (simp only: assms(2-8) nth ge simp_thms if_True if_False add_diff_cancel_left')
qed

lemma pull_two:
  assumes "2 \<le> m" and "u1 AND 0xf8 = 0"
  shows "utf8_pull_loop ((0xc0 OR drop_bit 6 u0 OR push_bit 2 u1) # (0x80 OR (u0 AND 0x3f)) # d) m out =
    utf8_pull_loop d (m - 2) (out @ [u0, u1])"
  using pull_step2 [OF assms(1) utf8_two_bytes(1-3) [OF assms(2)]] by (simp only: utf8_two_bytes(4,5) [OF assms(2)])

lemma pull_three:
  fixes u0 u1 :: u8
  assumes "2 \<le> m"
  defines "cp \<equiv> ucast u0 OR push_bit 8 (ucast u1) :: u32"
  shows "utf8_pull_loop (ucast (0xe0 OR drop_bit 12 cp) # ucast (0x80 OR (drop_bit 6 cp AND 0x3f)) # ucast (0x80 OR (cp AND 0x3f)) # d) m out =
    utf8_pull_loop d (m - 2) (out @ [u0, u1])"
  using pull_step3 [OF assms(1) utf8_three_bytes(1-5) [of u0 u1]] unfolding cp_def by (simp only: utf8_three_bytes(6,7))

lemma pull_four:
  fixes u0 u1 u2 u3 :: u8
  assumes m: "4 \<le> m" and u: "u1 AND 0xfc = 0xd8" "u3 AND 0xfc = 0xdc"
  defines "x \<equiv> ucast u2 OR push_bit 8 (ucast (u3 AND 0x3)) OR push_bit 10 (ucast u0) OR push_bit 18 (ucast (u1 AND 0x3)) :: u32"
  defines "cp \<equiv> 0x10000 + x"
  shows "utf8_pull_loop (ucast (0xf0 OR drop_bit 18 cp) # ucast (0x80 OR (drop_bit 12 cp AND 0x3f)) #
      ucast (0x80 OR (drop_bit 6 cp AND 0x3f)) # ucast (0x80 OR (cp AND 0x3f)) # d) m out =
    utf8_pull_loop d (m - 4) (out @ [u0, u1, u2, u3])"
proof -
  note s = utf16_surrogates [OF u, of u2 u0, folded x_def]
  have "unat x < 0x100000" using s(1) by (simp add: word_less_nat_alt)
  then have "unat cp < 0x200000" unfolding cp_def by (simp add: unat_add_small)
  then have "cp < 0x200000" by (simp add: word_less_nat_alt)
  note a = utf8_assemble [OF this]
  from pull_step4 [OF m a(1-7), of x d out] a(8) s show ?thesis by (simp only: cp_def s(2-5))
qed

definition pulls_back :: "bytes \<Rightarrow> bytes \<Rightarrow> bytes \<Rightarrow> bool" where
  "pulls_back uc c c' \<longleftrightarrow>
     (\<exists>d. c' = c @ d \<and> length uc \<le> 2 * length d \<and>
       (\<forall>m out z. length uc \<le> m \<longrightarrow> utf8_pull_loop (d @ z) m out = utf8_pull_loop z (m - length uc) (out @ uc)))"

lemma pulls_back_step:
  assumes "pulls_back (drop k uc) (c @ new) c'" and "uc = pre @ drop k uc" and "length pre = k" and "k \<le> 2 * length new"
    and "\<And>m out d. k \<le> m \<Longrightarrow> utf8_pull_loop (new @ d) m out = utf8_pull_loop d (m - k) (out @ pre)"
  shows "pulls_back uc c c'"
proof -
  obtain d where d: "c' = (c @ new) @ d" "length (drop k uc) \<le> 2 * length d"
      "\<And>m out z. length (drop k uc) \<le> m \<Longrightarrow> utf8_pull_loop (d @ z) m out = utf8_pull_loop z (m - length (drop k uc)) (out @ drop k uc)"
    using assms(1) unfolding pulls_back_def by blast
  have k: "k \<le> length uc" using assms(2,3) by (metis le_add1 length_append)
  have "utf8_pull_loop ((new @ d) @ z) m out = utf8_pull_loop z (m - length uc) (out @ uc)" if "length uc \<le> m" for m out z
  proof -
    from that k have "utf8_pull_loop (d @ z) (m - k) (out @ pre) =
        utf8_pull_loop z (m - k - length (drop k uc)) ((out @ pre) @ drop k uc)" by (intro d(3)) simp
    with assms(5) [of m "d @ z" out] that k assms(2) show ?thesis by simp
  qed
  moreover have "length uc \<le> 2 * length (new @ d)" using d(2) assms(4) k by simp
  ultimately show ?thesis unfolding pulls_back_def using d(1) by (intro exI [of _ "new @ d"]) simp
qed

lemma utf8_push_pull: "utf8_push_loop uc n c = (Inr k, [], c') \<Longrightarrow> pulls_back uc c c'"
proof (induction uc n c rule: utf8_push_loop.induct)
  case (1 uc n c)
  let ?u0 = "uc ! 0" and ?u1 = "uc ! 1"
  note prem = 1(5) [unfolded utf8_push_loop.simps [of uc n c] Let_def]
  show ?case
  proof (cases "2 \<le> length uc \<and> 1 \<le> n")
    case False
    with prem have "uc = []" "c' = c" by (auto split: if_split_asm)
    then show ?thesis by (simp add: pulls_back_def)
  next
    case go: True
    then have pre2: "uc = [?u0, ?u1] @ drop 2 uc" by (intro take2) simp
    show ?thesis
    proof (cases "?u1 = 0 \<and> ?u0 AND 0x80 = 0")
      case c1: True
      from 1(1) [OF go c1 prem [unfolded if_P [OF go] if_P [OF c1]]] pre2 show ?thesis
        by (rule pulls_back_step) (use c1 in \<open>simp_all add: pull_one\<close>)
    next
      case c1: False
      note prem2 = prem [unfolded if_P [OF go] if_not_P [OF c1]]
      show ?thesis
      proof (cases "?u1 AND 0xf8 = 0")
        case c2: True
        note p = prem2 [unfolded if_P [OF c2]]
        then have n: "\<not> n < 2" by (auto split: if_split_asm)
        from 1(2) [OF go c1 c2 n p [unfolded if_not_P [OF n]]] pre2 show ?thesis
          by (rule pulls_back_step) (simp, simp, simp only: append_Cons append_Nil pull_two [OF _ c2])
      next
        case c2: False
        note prem3 = prem2 [unfolded if_not_P [OF c2]]
        have c3: "\<not> ?u1 AND 0xfc = 0xdc" using prem3 by (auto split: if_split_asm)
        note prem4 = prem3 [unfolded if_not_P [OF c3]]
        show ?thesis
        proof (cases "?u1 AND 0xfc \<noteq> 0xd8")
          case c4: True
          note p = prem4 [unfolded if_P [OF c4]]
          then have n: "\<not> n < 3" by (auto split: if_split_asm)
          from 1(3) [OF go c1 c2 c3 c4 refl n p [unfolded if_not_P [OF n]]] pre2 show ?thesis
            by (rule pulls_back_step) (simp, simp, simp only: append_Cons append_Nil pull_three)
        next
          case c4: False
          note p1 = prem4 [unfolded if_not_P [OF c4]]
          then have l: "\<not> length uc < 4" by (auto split: if_split_asm)
          note p2 = p1 [unfolded if_not_P [OF l]]
          then have c5: "\<not> uc ! 3 AND 0xfc \<noteq> 0xdc" by (auto split: if_split_asm)
          note p3 = p2 [unfolded if_not_P [OF c5]]
          then have n: "\<not> n < 4" by (auto split: if_split_asm)
          have pre4: "uc = [?u0, ?u1, uc ! 2, uc ! 3] @ drop 4 uc" using l by (intro take4) simp
          have d8: "?u1 AND 0xfc = 0xd8" and dc: "uc ! 3 AND 0xfc = 0xdc" using c4 c5 by blast+
          from 1(4) [OF go c1 c2 c3 c4 l c5 refl n p3 [unfolded if_not_P [OF n]]] pre4 show ?thesis
            by (rule pulls_back_step) (simp, simp, simp only: append_Cons append_Nil pull_four [OF _ d8 dc])
        qed
      qed
    qed
  qed
qed

end
