(* ===== verification/Charset_Props.thy ===== *)
theory Charset_Props
  imports Charset_Lemmas
begin

text \<open>
  The properties of the character set conversions: what UTF-8 accepts and that it loses
  nothing, the lossless UCS2-HEX, the conversion through the buffer, and a code point that
  \<open>utf8_pull\<close> lets through.
\<close>

section \<open>Well-formed UTF-16\<close>

text \<open>Little endian UTF-16 in which the surrogates come in pairs.\<close>

fun utf16_ok :: "bytes \<Rightarrow> bool" where
  "utf16_ok (a # b # cs) =
     (if b AND 0xfc = 0xdc then False
      else if b AND 0xfc \<noteq> 0xd8 then utf16_ok cs
      else case cs of c # d # es \<Rightarrow> d AND 0xfc = 0xdc \<and> utf16_ok es | _ \<Rightarrow> False)"
| "utf16_ok [a] = False"
| "utf16_ok [] = True"

lemma utf16_ok_2: "2 \<le> length uc \<Longrightarrow> uc ! 1 AND 0xfc \<noteq> 0xdc \<Longrightarrow> uc ! 1 AND 0xfc \<noteq> 0xd8 \<Longrightarrow>
  utf16_ok uc = utf16_ok (drop 2 uc)"
  by (cases uc; cases "tl uc") auto

lemma utf16_ok_4: "2 \<le> length uc \<Longrightarrow> uc ! 1 AND 0xfc = 0xd8 \<Longrightarrow>
  utf16_ok uc = (4 \<le> length uc \<and> uc ! 3 AND 0xfc = 0xdc \<and> utf16_ok (drop 4 uc))"
  by (cases uc; cases "tl uc"; cases "tl (tl uc)"; cases "tl (tl (tl uc))") (auto simp: numeral_3_eq_3)

lemma utf16_ok_dc: "2 \<le> length uc \<Longrightarrow> uc ! 1 AND 0xfc = 0xdc \<Longrightarrow> \<not> utf16_ok uc"
  by (cases uc; cases "tl uc") auto

lemma utf16_ok_short: "length uc < 2 \<Longrightarrow> utf16_ok uc = (uc = [])"
  by (cases uc; cases "tl uc") auto

lemma f8_clear:
  fixes u :: u8
  assumes "u AND 0xf8 = 0"
  shows "u AND 0xfc \<noteq> 0xdc" "u AND 0xfc \<noteq> 0xd8"
  using assms unfolding u8_eq by (auto simp: bit_simps)

lemma push_accepts:
  "utf16_ok uc \<Longrightarrow> 2 * length uc \<le> n \<Longrightarrow> \<exists>c'. utf8_push_loop uc n c = (Inr 0, [], c')"
proof (induction uc n c rule: utf8_push_loop.induct)
  case (1 uc n c)
  show ?case
  proof (cases "2 \<le> length uc")
    case False
    with 1(5) utf16_ok_short [of uc] show ?thesis by (subst utf8_push_loop.simps) simp
  next
    case True
    with 1(6) have go: "2 \<le> length uc \<and> 1 \<le> n" and n: "\<not> n < 2" "\<not> n < 3" "\<not> n < 4" by simp_all
    have dc: "\<not> uc ! 1 AND 0xfc = 0xdc" using utf16_ok_dc [OF True] 1(5) by blast
    have room: "2 * length (drop 2 uc) \<le> n - 1" "2 * length (drop 2 uc) \<le> n - 2" "2 * length (drop 2 uc) \<le> n - 3"
      "2 * length (drop 4 uc) \<le> n - 4" using True 1(6) by auto
    show ?thesis
    proof (cases "uc ! 1 AND 0xfc \<noteq> 0xd8")
      case one: True
      with utf16_ok_2 [OF True dc] 1(5) have ok: "utf16_ok (drop 2 uc)" by blast
      show ?thesis
        unfolding utf8_push_loop.simps [of uc n c] Let_def
        using 1(1) [OF go _ ok room(1)] 1(2) [OF go _ _ n(1) ok room(2)] 1(3) [OF go _ _ dc one refl n(2) ok room(3)]
        by (simp only: go dc one n if_True if_False simp_thms split: if_split) blast
    next
      case two: False
      then have d8: "uc ! 1 AND 0xfc = 0xd8" by blast
      with utf16_ok_4 [OF True] 1(5) have l: "\<not> length uc < 4" and d: "\<not> uc ! 3 AND 0xfc \<noteq> 0xdc" and ok: "utf16_ok (drop 4 uc)" by auto
      have c1: "\<not> (uc ! 1 = 0 \<and> uc ! 0 AND 0x80 = 0)" and c2: "\<not> uc ! 1 AND 0xf8 = 0"
        using two f8_clear(2) [of "uc ! 1"] by auto
      show ?thesis
        unfolding utf8_push_loop.simps [of uc n c] Let_def if_P [OF go] if_not_P [OF c1] if_not_P [OF c2] if_not_P [OF dc]
          if_not_P [OF two] if_not_P [OF l] if_not_P [OF d] if_not_P [OF n(3)]
        by (rule 1(4) [OF go c1 c2 dc two l d refl n(3) ok room(4)])
    qed
  qed
qed

lemma push_only: "utf8_push_loop uc n c = (Inr k, [], c') \<Longrightarrow> utf16_ok uc"
proof (induction uc n c rule: utf8_push_loop.induct)
  case (1 uc n c)
  note prem = 1(5) [unfolded utf8_push_loop.simps [of uc n c] Let_def]
  show ?case
  proof (cases "2 \<le> length uc \<and> 1 \<le> n")
    case False
    with prem have "uc = []" by (auto split: if_split_asm)
    then show ?thesis by simp
  next
    case go: True
    then have len: "2 \<le> length uc" by blast
    show ?thesis
    proof (cases "uc ! 1 AND 0xf8 = 0")
      case c2: True
      note ok = utf16_ok_2 [OF len f8_clear [OF c2]]
      show ?thesis
      proof (cases "uc ! 1 = 0 \<and> uc ! 0 AND 0x80 = 0")
        case c1: True
        from 1(1) [OF go c1 prem [unfolded if_P [OF go] if_P [OF c1]]] ok show ?thesis by blast
      next
        case c1: False
        note p = prem [unfolded if_P [OF go] if_not_P [OF c1] if_P [OF c2]]
        then have n: "\<not> n < 2" by (auto split: if_split_asm)
        from 1(2) [OF go c1 c2 n p [unfolded if_not_P [OF n]]] ok show ?thesis by blast
      qed
    next
      case c2: False
      then have c1: "\<not> (uc ! 1 = 0 \<and> uc ! 0 AND 0x80 = 0)" by auto
      note prem3 = prem [unfolded if_P [OF go] if_not_P [OF c1] if_not_P [OF c2]]
      then have c3: "\<not> uc ! 1 AND 0xfc = 0xdc" by (auto split: if_split_asm)
      note prem4 = prem3 [unfolded if_not_P [OF c3]]
      show ?thesis
      proof (cases "uc ! 1 AND 0xfc \<noteq> 0xd8")
        case c4: True
        note p = prem4 [unfolded if_P [OF c4]]
        then have n: "\<not> n < 3" by (auto split: if_split_asm)
        from 1(3) [OF go c1 c2 c3 c4 refl n p [unfolded if_not_P [OF n]]] utf16_ok_2 [OF len c3 c4] show ?thesis by blast
      next
        case c4: False
        note p1 = prem4 [unfolded if_not_P [OF c4]]
        then have l: "\<not> length uc < 4" by (auto split: if_split_asm)
        note p2 = p1 [unfolded if_not_P [OF l]]
        then have c5: "\<not> uc ! 3 AND 0xfc \<noteq> 0xdc" by (auto split: if_split_asm)
        note p3 = p2 [unfolded if_not_P [OF c5]]
        then have n: "\<not> n < 4" by (auto split: if_split_asm)
        from 1(4) [OF go c1 c2 c3 c4 l c5 refl n p3 [unfolded if_not_P [OF n]]] utf16_ok_4 [OF len] c4 c5 l show ?thesis by auto
      qed
    qed
  qed
qed

lemma pulls_back_all: "pulls_back uc [] c \<Longrightarrow> length uc \<le> m \<Longrightarrow> utf8_pull_loop c m out = (Inr 0, [], out @ uc)"
proof -
  assume "pulls_back uc [] c" "length uc \<le> m"
  then have "utf8_pull_loop (c @ []) m out = utf8_pull_loop [] (m - length uc) (out @ uc)"
    unfolding pulls_back_def by (metis append_Nil)
  moreover have "utf8_pull_loop [] k out' = (Inr 0, [], out')" for k out' by (subst utf8_pull_loop.simps) simp
  ultimately show ?thesis by simp
qed

text \<open>
  C12. With room for it, \<open>utf8_push\<close> converts UTF-16 to UTF-8 exactly when the surrogates come in
  pairs, and \<open>utf8_pull\<close> turns what it wrote back into the same UTF-16; a lone surrogate and an
  odd byte are refused.
\<close>

theorem utf8_roundtrip:
  assumes "2 * length uc \<le> n" and "length uc \<le> m"
  shows "if utf16_ok uc
         then \<exists>c. utf8_push uc n = (Inr 0, [], c) \<and> length c \<le> n \<and> utf8_pull c m = (Inr 0, [], uc)
         else \<exists>e rest c. utf8_push uc n = (Inl e, rest, c)"
proof (cases "utf16_ok uc")
  case True
  from push_accepts [OF True assms(1)] obtain c where c: "utf8_push uc n = (Inr 0, [], c)" unfolding utf8_push_def by blast
  from pulls_back_all [OF utf8_push_pull [OF c [unfolded utf8_push_def]] assms(2)] have "utf8_pull c m = (Inr 0, [], uc)"
    unfolding utf8_pull_def by simp
  with True c ic_utf8_push.bounded [OF c] show ?thesis by simp
next
  case False
  obtain r rest c where c: "utf8_push uc n = (r, rest, c)" by (cases "utf8_push uc n")
  with False push_only [of uc n "[]" _ c] ic_utf8_push.complete [of uc n _ rest c] show ?thesis
    by (cases r) (auto simp: utf8_push_def)
qed

theorem utf8_roundtrip_witness:
  "\<exists>c. utf8_push [0x41, 0, 0xac, 0x20, 0x3d, 0xd8, 0, 0xde] 16 = (Inr 0, [], c) \<and> length c \<le> 16 \<and>
       utf8_pull c 8 = (Inr 0, [], [0x41, 0, 0xac, 0x20, 0x3d, 0xd8, 0, 0xde])"
  using utf8_roundtrip [of "[0x41, 0, 0xac, 0x20, 0x3d, 0xd8, 0, 0xde]" 16 8] by simp

section \<open>The conversion through the buffer\<close>

definition iconv_functions :: "charset_functions \<Rightarrow> bool" where
  "iconv_functions f \<longleftrightarrow> iconv_function (cs_pull f) \<and> iconv_function (cs_push f)"

lemma find_Some_in: "find P xs = Some x \<Longrightarrow> x \<in> set xs"
  by (induction xs) (auto split: if_split_asm)

lemma find_charset_ok:
  assumes "\<forall>f \<in> set charsets. iconv_functions f" and "find_charset charsets code = Some f"
  shows "iconv_function (cs_pull f)" "iconv_function (cs_push f)"
  using assms builtin_iconv [of f]
  by (auto simp: find_charset_def iconv_functions_def dest: find_Some_in split: option.splits)

lemma sys_open_ok:
  assumes "\<forall>to from g. sys to from = Some g \<longrightarrow> iconv_function g" and "sys_open sys dir = Some g"
  shows "iconv_function g"
  using assms by (auto simp: sys_open_def split: option.splits prod.splits)

definition descriptor_ok :: "smb_iconv_t \<Rightarrow> bool" where
  "descriptor_ok cd = (case cd of Direct f \<Rightarrow> iconv_function f | Via pull push \<Rightarrow> iconv_function pull \<and> iconv_function push)"

lemma smb_iconv_open_ok:
  assumes sys: "\<forall>to from g. sys to from = Some g \<longrightarrow> iconv_function g"
    and cs: "\<forall>f \<in> set charsets. iconv_functions f"
    and op: "smb_iconv_open sys native charsets tocode fromcode = Some cd"
  shows "descriptor_ok cd"
proof (cases "fromcode = tocode")
  case True
  with op show ?thesis by (auto simp: smb_iconv_open_def descriptor_ok_def ic_copy.iconv_function_axioms)
next
  case False
  obtain pull push where
      pull: "(case find_charset charsets fromcode of Some f \<Rightarrow> Some (cs_pull f) | None \<Rightarrow> sys_open sys (\<lambda>u. (u, fromcode))) = Some pull"
    and push: "(case find_charset charsets tocode of Some f \<Rightarrow> Some (cs_push f) | None \<Rightarrow> sys_open sys (\<lambda>u. (tocode, u))) = Some push"
    and cd: "cd = Direct push \<or> cd = Direct pull \<or> cd = Via pull push"
    using op False unfolding smb_iconv_open_def Let_def by (auto split: if_split_asm option.split_asm)
  have "iconv_function pull" "iconv_function push"
    using pull push find_charset_ok [OF cs] sys_open_ok [OF sys] by (auto split: option.split_asm)
  with cd show ?thesis by (auto simp: descriptor_ok_def)
qed

lemma descriptor_total:
  assumes ok: "descriptor_ok cd"
  shows "\<exists>r k out. smb_iconv cd inp n = Some (r, drop k inp, out) \<and> length out \<le> n"
proof (cases cd)
  case (Direct f)
  with ok have f: "iconv_function f" by (simp add: descriptor_ok_def)
  obtain r rest out where c: "f inp n = (r, rest, out)" by (cases "f inp n")
  from iconv_function.suffix [OF f c] iconv_function.bounded [OF f c] c Direct show ?thesis by (auto simp: smb_iconv_def)
next
  case (Via pull push)
  with ok have "iconv_pair pull push" by (simp add: descriptor_ok_def iconv_pair_def)
  from iconv_pair.loop_total [OF this, of inp n "[]"] Via show ?thesis by (auto simp: smb_iconv_def)
qed



section \<open>UCS2-HEX\<close>

lemma unat_u8_lt: "unat (u :: u8) < 256"
  using unsigned_less [of u, where 'a = nat] by simp

lemma hex_unit:
  fixes u0 u1 :: u8
  defines "v \<equiv> word_of_nat (unat u0 + 256 * unat u1) :: u32"
  shows "ucast (v AND 0xff) = u0" "ucast (drop_bit 8 v) = u1"
proof -
  note lt = unat_u8_lt [of u0] unat_u8_lt [of u1]
  have v: "unat v = unat u0 + 256 * unat u1"
    unfolding v_def unsigned_of_nat using lt by (simp add: take_bit_eq_mod)
  have "ucast (v AND 0xff) = (ucast v :: u8)" unfolding u8_eq by (auto simp: bit_simps)
  moreover have "unat (ucast v :: u8) = unat u0" using lt by (simp add: unsigned_ucast_eq take_bit_eq_mod v)
  ultimately show "ucast (v AND 0xff) = u0" by (simp only: word_unat_eq_iff)
  have "unat (ucast (drop_bit 8 v) :: u8) = unat u1"
    unfolding unsigned_ucast_eq unat_drop_bit_eq v using lt by (simp add: take_bit_eq_mod drop_bit_eq_div)
  then show "ucast (drop_bit 8 v) = u1" by (simp only: word_unat_eq_iff)
qed

lemma hex_pull_plain: "2 \<le> m \<Longrightarrow> u0 \<noteq> 0x40 \<Longrightarrow> ucs2hex_pull_loop (u0 # d) m out = ucs2hex_pull_loop d (m - 2) (out @ [u0, 0])"
  by (subst ucs2hex_pull_loop.simps) simp

lemma hex_pull_escape:
  assumes "2 \<le> m"
  shows "ucs2hex_pull_loop (0x40 # print_hex 4 (unat u0 + 256 * unat u1) @ d) m out = ucs2hex_pull_loop d (m - 2) (out @ [u0, u1])"
proof -
  have "unat u0 + 256 * unat u1 < 65536" using unat_u8_lt [of u0] unat_u8_lt [of u1] by simp
  then have scan: "scan_hex 4 (print_hex 4 (unat u0 + 256 * unat u1) @ d) = Some (word_of_nat (unat u0 + 256 * unat u1), d)"
    by (intro scan_hex_print) simp_all
  have "drop 5 (0x40 # print_hex 4 (unat u0 + 256 * unat u1) @ d) = d" by simp
  with assms scan hex_unit [of u0 u1] show ?thesis by (subst ucs2hex_pull_loop.simps) simp
qed

lemma ucs2hex_push_pull:
  "even (length uc) \<Longrightarrow> 3 * length uc \<le> n \<Longrightarrow>
   \<exists>d. ucs2hex_push_loop uc n c = (Inr 0, [], c @ d) \<and>
       (\<forall>m out. length uc \<le> m \<longrightarrow> ucs2hex_pull_loop d m out = (Inr 0, [], out @ uc))"
proof (induction uc n c rule: ucs2hex_push_loop.induct)
  case (1 uc n c)
  show ?case
  proof (cases "2 \<le> length uc")
    case False
    with 1(3) have "uc = []" by (cases uc; cases "tl uc") auto
    moreover have "ucs2hex_pull_loop [] m out = (Inr 0, [], out)" for m out by (subst ucs2hex_pull_loop.simps) simp
    ultimately show ?thesis by (subst ucs2hex_push_loop.simps) simp
  next
    case True
    define us where "us = drop 2 uc"
    let ?u0 = "uc ! 0" and ?u1 = "uc ! 1"
    have uc: "uc = ?u0 # ?u1 # us" using take2 [OF True] by (simp add: us_def)
    then have len: "length uc = 2 + length us" by (metis length_Cons add_2_eq_Suc)
    have go: "2 \<le> length uc \<and> 1 \<le> n" and n: "\<not> n < 5" and ev: "even (length us)"
      and room: "3 * length us \<le> n - 1" "3 * length us \<le> n - 5"
      using 1(3,4) len by auto
    show ?thesis
    proof (cases "?u1 = 0 \<and> ?u0 AND 0x80 = 0 \<and> ?u0 \<noteq> 0x40")
      case plain: True
      from 1(1) [OF go plain, folded us_def, OF ev room(1)] obtain d where
        d: "ucs2hex_push_loop us (n - 1) (c @ [?u0]) = (Inr 0, [], (c @ [?u0]) @ d)"
           "\<And>m out. length us \<le> m \<Longrightarrow> ucs2hex_pull_loop d m out = (Inr 0, [], out @ us)" by blast
      have "ucs2hex_pull_loop (?u0 # d) m out = (Inr 0, [], out @ ?u0 # ?u1 # us)" if "length uc \<le> m" for m out
        using that len plain d(2) by (simp add: hex_pull_plain)
      with d(1) uc show ?thesis
        unfolding ucs2hex_push_loop.simps [of uc n c] if_P [OF go] if_P [OF plain] us_def [symmetric]
        by (intro exI [of _ "?u0 # d"]) simp
    next
      case escape: False
      let ?h = "0x40 # print_hex 4 (unat ?u0 + 256 * unat ?u1)"
      from 1(2) [OF go escape n, folded us_def, OF ev room(2)] obtain d where
        d: "ucs2hex_push_loop us (n - 5) (c @ ?h) = (Inr 0, [], (c @ ?h) @ d)"
           "\<And>m out. length us \<le> m \<Longrightarrow> ucs2hex_pull_loop d m out = (Inr 0, [], out @ us)" by blast
      have "ucs2hex_pull_loop (?h @ d) m out = (Inr 0, [], out @ ?u0 # ?u1 # us)" if "length uc \<le> m" for m out
        using that len d(2) by (simp add: hex_pull_escape)
      with d(1) uc show ?thesis
        unfolding ucs2hex_push_loop.simps [of uc n c] if_P [OF go] if_not_P [OF escape] if_not_P [OF n] us_def [symmetric]
        by (intro exI [of _ "?h @ d"]) simp
    qed
  qed
qed

text \<open>
  UCS2-HEX can represent every sequence of 16-bit units, lone surrogates and the escape
  character included: with room for five characters a unit, \<open>ucs2hex_push\<close> succeeds on it
  and \<open>ucs2hex_pull\<close> restores it.
\<close>

theorem ucs2hex_lossless:
  assumes "even (length uc)" and "3 * length uc \<le> n" and "length uc \<le> m"
  shows "\<exists>c. ucs2hex_push uc n = (Inr 0, [], c) \<and> length c \<le> n \<and> ucs2hex_pull c m = (Inr 0, [], uc)"
proof -
  from ucs2hex_push_pull [OF assms(1,2), of "[]"] assms(3) obtain c where
    c: "ucs2hex_push uc n = (Inr 0, [], c)" "ucs2hex_pull c m = (Inr 0, [], uc)"
    unfolding ucs2hex_push_def ucs2hex_pull_def by fastforce
  with ic_ucs2hex_push.bounded [OF c(1)] show ?thesis by blast
qed

theorem ucs2hex_lossless_witness:
  "\<exists>c. ucs2hex_push [0x40, 0, 0, 0xd8, 0x41, 0] 18 = (Inr 0, [], c) \<and> length c \<le> 18 \<and>
       ucs2hex_pull c 6 = (Inr 0, [], [0x40, 0, 0, 0xd8, 0x41, 0])"
  using ucs2hex_lossless [of "[0x40, 0, 0, 0xd8, 0x41, 0]" 18 6] by simp

section \<open>Code points above U+10FFFF\<close>

lemma high_unit:
  fixes x :: u32
  assumes "0x100000 \<le> x" and "x < 0x200000"
  shows "(ucast (drop_bit 18 x OR 0xd8) :: u8) AND 0xfc = 0xdc"
proof -
  have "unat (drop_bit 18 x) div 4 = 1"
    unfolding unat_drop_bit_eq using assms by (simp add: drop_bit_eq_div word_le_nat_alt word_less_nat_alt)
  then have "unat (drop_bit 18 x) \<in> {4, 5, 6, 7}" by auto
  then have "drop_bit 18 x \<in> {4, 5, 6, 7}" by (auto simp: word_unat_eq_iff)
  then show ?thesis by (elim insertE emptyE) simp_all
qed

text \<open>
  C14. A sequence of four bytes that encodes a number above U+10FFFF, which Unicode does not
  have, is accepted by \<open>utf8_pull\<close>: it writes two units of which the first is a low surrogate, so
  that \<open>utf8_push\<close> refuses to convert the result back.
\<close>

theorem utf8_pull_beyond_unicode:
  fixes c0 c1 c2 c3 :: u8
  defines "cp \<equiv> ucast (c3 AND 0x3f) OR push_bit 6 (ucast (c2 AND 0x3f)) OR push_bit 12 (ucast (c1 AND 0x3f)) OR
      push_bit 18 (ucast (c0 AND 0x7)) :: u32"
  assumes lead: "c0 AND 0xf8 = 0xf0" and cont: "c1 AND 0xc0 = 0x80" "c2 AND 0xc0 = 0x80" "c3 AND 0xc0 = 0x80"
    and beyond: "0x110000 \<le> cp" and n: "1 \<le> n"
  shows "\<exists>uc. utf8_pull [c0, c1, c2, c3] 4 = (Inr 0, [], uc) \<and> utf8_push uc n = (Inl EILSEQ, uc, [])"
proof -
  have c0: "c0 AND 0x80 \<noteq> 0" "c0 AND 0xe0 \<noteq> 0xc0" "c0 AND 0xf0 \<noteq> 0xe0"
    using lead unfolding u8_eq by (auto simp: bit_simps)
  define x where "x = cp - 0x10000"
  have high: "\<not> bit cp k" if "21 \<le> k" for k
    unfolding cp_def using that by (simp add: bit_simps bit_3_7 bit_u8_ge) arith
  have "cp = take_bit 21 cp"
    by (rule bit_word_eqI) (metis bit_take_bit_iff high not_less)
  then have "unat cp < 2 ^ 21" using unat_take_bit_mod [of 21 cp] by (metis mod_less_divisor zero_less_numeral zero_less_power)
  moreover have ge: "0x110000 \<le> unat cp" using beyond by (simp add: word_le_nat_alt)
  moreover have "unat x = unat cp - 0x10000" using ge unfolding x_def by (subst unat_sub) (simp_all add: word_le_nat_alt)
  ultimately have x: "0x100000 \<le> x" "x < 0x200000" by (simp_all add: word_le_nat_alt word_less_nat_alt)
  have big: "\<not> cp < 0x10000" using ge by (simp add: word_less_nat_alt)
  let ?u = "[ucast (drop_bit 10 x AND 0xFF), ucast (drop_bit 18 x OR 0xd8), ucast (x AND 0xFF), ucast ((drop_bit 8 x AND 0x3) OR 0xdc)] :: bytes"
  have nil: "utf8_pull_loop [] m out = (Inr 0, [], out)" for m out by (subst utf8_pull_loop.simps) simp
  have nth: "[c0, c1, c2, c3] ! 0 = c0" "[c0, c1, c2, c3] ! 1 = c1" "[c0, c1, c2, c3] ! 2 = c2" "[c0, c1, c2, c3] ! 3 = c3"
    "drop 4 [c0, c1, c2, c3] = []" "\<not> length [c0, c1, c2, c3] < 4" "1 \<le> length [c0, c1, c2, c3] \<and> 2 \<le> (4 :: nat)" "\<not> 4 < (4 :: nat)"
    by simp_all
  have "utf8_pull [c0, c1, c2, c3] 4 = (Inr 0, [], ?u)"
    unfolding utf8_pull_def utf8_pull_loop.simps [of "[c0, c1, c2, c3]"] nth Let_def cp_def [symmetric] x_def [symmetric]
    by (simp only: lead cont c0 nth big simp_thms if_True if_False nil append_Nil)
  moreover have "utf8_push ?u n = (Inl EILSEQ, ?u, [])"
  proof -
    have dc: "?u ! 1 AND 0xfc = 0xdc" using high_unit [OF x] by simp
    then have f8: "\<not> ?u ! 1 AND 0xf8 = 0" using f8_clear(1) by blast
    then have z: "\<not> (?u ! 1 = 0 \<and> ?u ! 0 AND 0x80 = 0)" by auto
    have go: "2 \<le> length ?u \<and> 1 \<le> n" "\<not> length ?u < 4" using n by simp_all
    show ?thesis
      unfolding utf8_push_def utf8_push_loop.simps [of ?u] Let_def if_P [OF go(1)] if_not_P [OF z] if_not_P [OF f8] if_P [OF dc] if_not_P [OF go(2)]
      by (rule refl)
  qed
  ultimately show ?thesis by blast
qed

theorem utf8_pull_beyond_unicode_witness:
  "\<exists>uc. utf8_pull [0xf4, 0x90, 0x80, 0x80] 4 = (Inr 0, [], uc) \<and> utf8_push uc 10 = (Inl EILSEQ, uc, [])"
  by (rule utf8_pull_beyond_unicode) simp_all

end
