(* ===== verification/Charcnv_Props.thy ===== *)
theory Charcnv_Props
  imports Charcnv Charset_Props
begin

text \<open>
  The properties of the configured conversions: the table of descriptors is a cache, and code
  points survive the way through a UTF-8 string.
\<close>

section \<open>The table of descriptors\<close>

lemma get_conv_handle_cached:
  "get_conv_handle op st from to = (h, st') \<Longrightarrow> h \<noteq> No_Handle \<and> get_conv_handle op st' from to = (h, st')"
  by (auto simp: get_conv_handle_def handle_of_def Let_def split: conv_handle.splits if_split_asm option.splits)

definition fresh_utf8 :: "charcnv_state \<Rightarrow> bool" where
  "fresh_utf8 st \<longleftrightarrow> unix_charset st = ascii_str ''UTF8'' \<and> conv_handles st = (\<lambda>_. No_Handle)"

lemma conv_utf8:
  assumes "fresh_utf8 st"
  shows "conv_of (smb_iconv_open sys native charsets) st CH_UNIX CH_UTF16 = Some (Direct utf8_pull)"
    and "conv_of (smb_iconv_open sys native charsets) st CH_UTF16 CH_UNIX = Some (Direct utf8_push)"
proof -
  have neq: "ascii_str ''UTF8'' \<noteq> ascii_str ''UTF-16LE''" by (simp add: ascii_str_def)
  have f: "find_charset charsets (ascii_str ''UTF8'') = Some \<lparr>cs_name = ascii_str ''UTF8'', cs_pull = utf8_pull, cs_push = utf8_push\<rparr>"
    by (simp add: find_charset_def builtin_functions_def strcaseeq_def ascii_str_def tolower_def)
  have g: "find_charset charsets (ascii_str ''UTF-16LE'') = Some \<lparr>cs_name = ascii_str ''UTF-16LE'', cs_pull = iconv_copy, cs_push = iconv_copy\<rparr>"
    by (simp add: find_charset_def builtin_functions_def strcaseeq_def ascii_str_def tolower_def)
  have u: "is_utf16 (ascii_str ''UTF-16LE'')" "\<not> is_utf16 (ascii_str ''UTF8'')"
    by (simp_all add: is_utf16_def strcaseeq_def ascii_str_def tolower_def)
  have n: "charset_name st CH_UNIX = ascii_str ''UTF8''" "charset_name st CH_UTF16 = ascii_str ''UTF-16LE''"
    "conv_handles st x = No_Handle" for x using assms by (simp_all add: charset_name_def fresh_utf8_def)
  show "conv_of (smb_iconv_open sys native charsets) st CH_UNIX CH_UTF16 = Some (Direct utf8_pull)"
    and "conv_of (smb_iconv_open sys native charsets) st CH_UTF16 CH_UNIX = Some (Direct utf8_push)"
    using neq by (simp_all add: conv_of_def get_conv_handle_def smb_iconv_open_def n f g u handle_of_def Let_def)
qed

lemma iconv_run_Direct [simp]: "iconv_run (Direct f) inp n = Inr (f inp n)"
  by (simp add: iconv_run_def smb_iconv_def)

section \<open>Units\<close>

lemma decode_low: "c < 0x10000 \<Longrightarrow> (ucast (ucast (c AND 0xFF) :: u8) OR push_bit 8 (ucast (ucast (drop_bit 8 c) :: u8)) :: u32) = c"
proof -
  assume "c < 0x10000"
  then have "unat c < 2 ^ 16" by (simp add: word_less_nat_alt)
  then have t: "c = take_bit 16 c" by (simp add: word_unat_eq_iff unat_take_bit_mod)
  have hi: "\<not> bit c n" if "16 \<le> n" for n using that by (subst t) (simp add: bit_take_bit_iff)
  show ?thesis
  proof (rule bit_word_eqI)
    fix n assume "n < LENGTH(32)"
    then have "n \<in> {0, 1, 2, 3, 4, 5, 6, 7, 8, 9, 10, 11, 12, 13, 14, 15} \<or> 16 \<le> n" by (auto simp: numeral_eq_Suc less_Suc_eq)
    then show "bit (ucast (ucast (c AND 0xFF) :: u8) OR push_bit 8 (ucast (ucast (drop_bit 8 c) :: u8)) :: u32) n = bit c n"
      unfolding insert_iff empty_iff by (elim disjE) (auto simp: bit_simps hi bit_u8_ge)
  qed
qed

lemma decode_high:
  fixes x :: u32
  assumes "x < 0x100000"
  shows "(ucast (ucast (x AND 0xFF) :: u8) OR push_bit 8 (ucast ((ucast ((drop_bit 8 x AND 0x3) OR 0xdc) :: u8) AND 0x3)) OR
    push_bit 10 (ucast (ucast (drop_bit 10 x AND 0xFF) :: u8)) OR push_bit 18 (ucast ((ucast (drop_bit 18 x OR 0xd8) :: u8) AND 0x3)) :: u32) = x"
proof -
  have "unat x < 2 ^ 20" using assms by (simp add: word_less_nat_alt)
  then have t: "x = take_bit 20 x" by (simp add: word_unat_eq_iff unat_take_bit_mod)
  have hi: "\<not> bit x n" if "20 \<le> n" for n using that by (subst t) (simp add: bit_take_bit_iff)
  show ?thesis
  proof (rule bit_word_eqI)
    fix n assume "n < LENGTH(32)"
    then have "n \<in> {0, 1, 2, 3, 4, 5, 6, 7, 8, 9, 10, 11, 12, 13, 14, 15, 16, 17, 18, 19} \<or> 20 \<le> n" by (auto simp: numeral_eq_Suc less_Suc_eq)
    then show "bit (ucast (ucast (x AND 0xFF) :: u8) OR push_bit 8 (ucast ((ucast ((drop_bit 8 x AND 0x3) OR 0xdc) :: u8) AND 0x3)) OR
      push_bit 10 (ucast (ucast (drop_bit 10 x AND 0xFF) :: u8)) OR push_bit 18 (ucast ((ucast (drop_bit 18 x OR 0xd8) :: u8) AND 0x3)) :: u32) n = bit x n"
      unfolding insert_iff empty_iff by (elim disjE) (auto simp: bit_simps hi bit_u8_ge bit_3_7)
  qed
qed

lemma decode_encode: "c < 0x110000 \<Longrightarrow> decode_units (encode_units c) = c"
proof -
  assume c: "c < 0x110000"
  show ?thesis
  proof (cases "c < 0x10000")
    case True
    then show ?thesis using decode_low [OF True] by (simp add: decode_units_def encode_units_def)
  next
    case False
    then have "unat (c - 0x10000) = unat c - 0x10000" by (subst unat_sub) (simp_all add: word_le_nat_alt word_less_nat_alt)
    then have "c - 0x10000 < 0x100000" using c False by (simp add: word_less_nat_alt)
    from decode_high [OF this] False show ?thesis
      unfolding decode_units_def encode_units_def Let_def by simp
  qed
qed

section \<open>One character of UTF-8\<close>

lemma pull_nil [simp]: "utf8_pull_loop r 0 out = (if r \<noteq> [] then Inl E2BIG else Inr 0, r, out)"
  by (subst utf8_pull_loop.simps) simp

lemma push_two:
  assumes "\<not> (u1 = 0 \<and> u0 AND 0x80 = 0)" and "u1 AND 0xf8 = 0"
  shows "utf8_push [u0, u1] 5 = (Inr 0, [], [0xc0 OR drop_bit 6 u0 OR push_bit 2 u1, 0x80 OR (u0 AND 0x3f)])"
  using assms by (simp add: utf8_push_def utf8_push_loop.simps)

lemma push_three:
  fixes u0 u1 :: u8
  defines "cp \<equiv> ucast u0 OR push_bit 8 (ucast u1) :: u32"
  assumes "u1 AND 0xf8 \<noteq> 0" and "u1 AND 0xfc \<noteq> 0xdc" and "u1 AND 0xfc \<noteq> 0xd8"
  shows "utf8_push [u0, u1] 5 =
    (Inr 0, [], [ucast (0xe0 OR drop_bit 12 cp), ucast (0x80 OR (drop_bit 6 cp AND 0x3f)), ucast (0x80 OR (cp AND 0x3f))])"
proof -
  have go: "2 \<le> length [u0, u1] \<and> 1 \<le> (5 :: nat)" "\<not> 5 < (3 :: nat)" "[u0, u1] ! 0 = u0" "[u0, u1] ! 1 = u1" "drop 2 [u0, u1] = []" by simp_all
  have c1: "\<not> (u1 = 0 \<and> u0 AND 0x80 = 0)" using assms(2) by auto
  have nil: "utf8_push_loop [] m out = (Inr 0, [], out)" for m out by (subst utf8_push_loop.simps) simp
  show ?thesis
    unfolding utf8_push_def utf8_push_loop.simps [of "[u0, u1]"] go(3-5) Let_def if_P [OF go(1)] if_not_P [OF c1] if_not_P [OF assms(2)]
      if_not_P [OF assms(3)] if_P [OF assms(4)] if_not_P [OF go(2)] nil cp_def append_Nil
    by (rule refl)
qed

lemma push_four:
  fixes u0 u1 u2 u3 :: u8
  assumes u: "u1 AND 0xfc = 0xd8" "u3 AND 0xfc = 0xdc"
  defines "cp \<equiv> 0x10000 + (ucast u2 OR push_bit 8 (ucast (u3 AND 0x3)) OR push_bit 10 (ucast u0) OR push_bit 18 (ucast (u1 AND 0x3)) :: u32)"
  shows "utf8_push [u0, u1, u2, u3] 5 =
    (Inr 0, [], [ucast (0xf0 OR drop_bit 18 cp), ucast (0x80 OR (drop_bit 12 cp AND 0x3f)),
                 ucast (0x80 OR (drop_bit 6 cp AND 0x3f)), ucast (0x80 OR (cp AND 0x3f))])"
proof -
  let ?u = "[u0, u1, u2, u3]"
  have go: "2 \<le> length ?u \<and> 1 \<le> (5 :: nat)" "\<not> 5 < (4 :: nat)" "\<not> length ?u < 4"
    "?u ! 0 = u0" "?u ! 1 = u1" "?u ! 2 = u2" "?u ! 3 = u3" "drop 4 ?u = []" by simp_all
  have c2: "\<not> u1 AND 0xf8 = 0" using f8_clear(2) [of u1] u(1) by blast
  then have c1: "\<not> (u1 = 0 \<and> u0 AND 0x80 = 0)" by auto
  have c3: "\<not> u1 AND 0xfc = 0xdc" "\<not> u1 AND 0xfc \<noteq> 0xd8" "\<not> u3 AND 0xfc \<noteq> 0xdc" using u by simp_all
  have nil: "utf8_push_loop [] m out = (Inr 0, [], out)" for m out by (subst utf8_push_loop.simps) simp
  show ?thesis
    unfolding utf8_push_def utf8_push_loop.simps [of ?u] go(4-8) Let_def if_P [OF go(1)] if_not_P [OF c1] if_not_P [OF c2]
      if_not_P [OF c3(1)] if_not_P [OF c3(2)] if_not_P [OF go(3)] if_not_P [OF c3(3)] if_not_P [OF go(2)] nil cp_def append_Nil
    by (rule refl)
qed

text \<open>Four bytes need room for two units.\<close>

lemma pull_four_short:
  assumes "c0 AND 0x80 \<noteq> 0" "c0 AND 0xe0 \<noteq> 0xc0" "c0 AND 0xf0 \<noteq> 0xe0" "c0 AND 0xf8 = 0xf0"
    "c1 AND 0xc0 = 0x80" "c2 AND 0xc0 = 0x80" "c3 AND 0xc0 = 0x80"
    and "(ucast (c3 AND 0x3f) OR push_bit 6 (ucast (c2 AND 0x3f)) OR push_bit 12 (ucast (c1 AND 0x3f)) OR
      push_bit 18 (ucast (c0 AND 0x7)) :: u32) = cp" and "\<not> cp < 0x10000"
  shows "utf8_pull (c0 # c1 # c2 # c3 # d) 2 = (Inl E2BIG, c0 # c1 # c2 # c3 # d, [])"
proof -
  have nth: "(c0 # c1 # c2 # c3 # d) ! 0 = c0" "(c0 # c1 # c2 # c3 # d) ! 1 = c1" "(c0 # c1 # c2 # c3 # d) ! 2 = c2"
    "(c0 # c1 # c2 # c3 # d) ! 3 = c3" "\<not> length (c0 # c1 # c2 # c3 # d) < 4"
    "1 \<le> length (c0 # c1 # c2 # c3 # d) \<and> 2 \<le> (2 :: nat)" "2 < (4 :: nat)"
    by simp_all
  show ?thesis
    unfolding utf8_pull_def utf8_pull_loop.simps [of "c0 # c1 # c2 # c3 # d"] nth assms(8) Let_def
    by (simp only: assms(1-7,9) nth simp_thms if_True if_False)
qed

lemma high_bit_nonzero: "(c :: u8) AND 0x80 \<noteq> 0 \<Longrightarrow> c \<noteq> 0" "(c :: u8) AND 0xc0 = 0x80 \<Longrightarrow> c \<noteq> 0"
  by auto

text \<open>What \<open>next_codepoint\<close> gives to \<open>iconv\<close> starts with the character.\<close>

lemma next_window:
  assumes "0 \<notin> set bs" and "length bs \<le> 5"
  shows "\<exists>d. takeWhile (\<lambda>b. b \<noteq> 0) (take 5 (bs @ rest)) = bs @ d"
proof -
  have "takeWhile (\<lambda>b. b \<noteq> 0) (bs @ take (5 - length bs) rest) = bs @ takeWhile (\<lambda>b. b \<noteq> 0) (take (5 - length bs) rest)"
    using assms(1) by (intro takeWhile_append2) auto
  with assms(2) show ?thesis by auto
qed

lemma next_codepoint_one:
  assumes cd: "conv CH_UNIX CH_UTF16 = Some (Direct utf8_pull)"
    and bs: "0 \<notin> set bs" "length bs \<le> 5" "bs \<noteq> []" "bs ! 0 AND 0x80 \<noteq> 0"
    and pull: "\<And>d. utf8_pull (bs @ d) 2 = (if d \<noteq> [] then Inl E2BIG else Inr 0, d, [u0, u1])"
  shows "next_codepoint conv (bs @ rest) = Inr (decode_units [u0, u1], length bs)"
proof -
  obtain d where d: "takeWhile (\<lambda>b. b \<noteq> 0) (take 5 (bs @ rest)) = bs @ d" using next_window [OF bs(1,2)] by blast
  show ?thesis unfolding next_codepoint_def d using bs(3,4) pull [of d] by (simp add: cd Let_def nth_append)
qed

lemma next_codepoint_two:
  assumes cd: "conv CH_UNIX CH_UTF16 = Some (Direct utf8_pull)"
    and bs: "0 \<notin> set bs" "length bs \<le> 5" "bs \<noteq> []" "bs ! 0 AND 0x80 \<noteq> 0"
    and short: "\<And>d. utf8_pull (bs @ d) 2 = (Inl E2BIG, bs @ d, [])"
    and pull: "\<And>d. utf8_pull (bs @ d) 4 = (if d \<noteq> [] then Inl E2BIG else Inr 0, d, [u0, u1, u2, u3])"
  shows "next_codepoint conv (bs @ rest) = Inr (decode_units [u0, u1, u2, u3], length bs)"
proof -
  obtain d where d: "takeWhile (\<lambda>b. b \<noteq> 0) (take 5 (bs @ rest)) = bs @ d" using next_window [OF bs(1,2)] by blast
  show ?thesis unfolding next_codepoint_def d using bs(3,4) pull [of d] short [of d] by (simp add: cd Let_def nth_append)
qed

section \<open>Code points through a string\<close>

text \<open>Every character \<open>utf8_push\<close> writes for one or two units is read back by \<open>next_codepoint\<close>.\<close>

definition reads_back :: "conv_env \<Rightarrow> bytes \<Rightarrow> bool" where
  "reads_back conv uc \<longleftrightarrow>
     (\<exists>bs. utf8_push uc 5 = (Inr 0, [], bs) \<and> bs \<noteq> [] \<and>
       (\<forall>rest. next_codepoint conv (bs @ rest) = Inr (decode_units uc, length bs)))"

lemma reads_back_two:
  assumes cd: "conv CH_UNIX CH_UTF16 = Some (Direct utf8_pull)"
    and u: "\<not> (u1 = 0 \<and> u0 AND 0x80 = 0)" "u1 AND 0xf8 = 0"
  shows "reads_back conv [u0, u1]"
proof -
  note b = utf8_two_bytes [OF u(2), of u0]
  let ?bs = "[0xc0 OR drop_bit 6 u0 OR push_bit 2 u1, 0x80 OR (u0 AND 0x3f)]"
  have pull: "utf8_pull (?bs @ d) 2 = (if d \<noteq> [] then Inl E2BIG else Inr 0, d, [u0, u1])" for d
    unfolding utf8_pull_def using pull_two [OF order_refl u(2), of u0 d "[]"] by simp
  have nz: "0 \<notin> set ?bs" using high_bit_nonzero(1) [OF b(1)] high_bit_nonzero(2) [OF b(3)] by auto
  have sh: "length ?bs \<le> 5" "?bs \<noteq> []" "?bs ! 0 AND 0x80 \<noteq> 0" using b(1) by (simp_all del: bit.conj_disj_distrib2)
  have "next_codepoint conv (?bs @ rest) = Inr (decode_units [u0, u1], length ?bs)" for rest
    by (rule next_codepoint_one [of conv, OF cd nz sh pull])
  with push_two [OF u] show ?thesis unfolding reads_back_def by blast
qed

lemma reads_back_three:
  fixes u0 u1 :: u8
  assumes cd: "conv CH_UNIX CH_UTF16 = Some (Direct utf8_pull)"
    and u: "u1 AND 0xf8 \<noteq> 0" "u1 AND 0xfc \<noteq> 0xdc" "u1 AND 0xfc \<noteq> 0xd8"
  shows "reads_back conv [u0, u1]"
proof -
  define cp where "cp = (ucast u0 OR push_bit 8 (ucast u1) :: u32)"
  note b = utf8_three_bytes [of u0 u1, folded cp_def]
  define b0 b1 b2 where "b0 = (ucast (0xe0 OR drop_bit 12 cp) :: u8)" and "b1 = (ucast (0x80 OR (drop_bit 6 cp AND 0x3f)) :: u8)"
    and "b2 = (ucast (0x80 OR (cp AND 0x3f)) :: u8)"
  note b = b [folded b0_def b1_def b2_def]
  let ?bs = "[b0, b1, b2]"
  have pull: "utf8_pull (?bs @ d) 2 = (if d \<noteq> [] then Inl E2BIG else Inr 0, d, [u0, u1])" for d
    unfolding utf8_pull_def using pull_three [OF order_refl, of u0 u1 d "[]", folded cp_def, folded b0_def b1_def b2_def] by simp
  have nz: "0 \<notin> set ?bs" using high_bit_nonzero(1) [OF b(1)] high_bit_nonzero(2) [OF b(4)] high_bit_nonzero(2) [OF b(5)] by auto
  have sh: "length ?bs \<le> 5" "?bs \<noteq> []" "?bs ! 0 AND 0x80 \<noteq> 0" using b(1) by simp_all
  have "next_codepoint conv (?bs @ rest) = Inr (decode_units [u0, u1], length ?bs)" for rest
    by (rule next_codepoint_one [of conv, OF cd nz sh pull])
  with push_three [OF u, of u0, folded cp_def, folded b0_def b1_def b2_def] show ?thesis unfolding reads_back_def by blast
qed

lemma reads_back_four:
  fixes u0 u1 u2 u3 :: u8
  assumes cd: "conv CH_UNIX CH_UTF16 = Some (Direct utf8_pull)"
    and u: "u1 AND 0xfc = 0xd8" "u3 AND 0xfc = 0xdc"
  shows "reads_back conv [u0, u1, u2, u3]"
proof -
  define x where "x = (ucast u2 OR push_bit 8 (ucast (u3 AND 0x3)) OR push_bit 10 (ucast u0) OR push_bit 18 (ucast (u1 AND 0x3)) :: u32)"
  define cp where "cp = 0x10000 + x"
  have "unat x < 0x100000" using utf16_surrogates(1) [OF u, of u2 u0, folded x_def] by (simp add: word_less_nat_alt)
  then have "unat cp = 0x10000 + unat x" "unat x < 0x100000" unfolding cp_def by (simp_all add: unat_add_small)
  then have cp: "cp < 0x200000" "\<not> cp < 0x10000" by (simp_all add: word_less_nat_alt)
  define b0 b1 b2 b3 where "b0 = (ucast (0xf0 OR drop_bit 18 cp) :: u8)" and "b1 = (ucast (0x80 OR (drop_bit 12 cp AND 0x3f)) :: u8)"
    and "b2 = (ucast (0x80 OR (drop_bit 6 cp AND 0x3f)) :: u8)" and "b3 = (ucast (0x80 OR (cp AND 0x3f)) :: u8)"
  note b = utf8_assemble [OF cp(1), folded b0_def b1_def b2_def b3_def]
  let ?bs = "[b0, b1, b2, b3]"
  have pull: "utf8_pull (?bs @ d) 4 = (if d \<noteq> [] then Inl E2BIG else Inr 0, d, [u0, u1, u2, u3])" for d
    unfolding utf8_pull_def
    using pull_four [OF order_refl u, of u2 u0 d "[]", folded x_def, folded cp_def, folded b0_def b1_def b2_def b3_def] by simp
  have short: "utf8_pull (?bs @ d) 2 = (Inl E2BIG, ?bs @ d, [])" for d
    using pull_four_short [OF b(1-8) cp(2), of d] by simp
  have nz: "0 \<notin> set ?bs"
    using high_bit_nonzero(1) [OF b(1)] high_bit_nonzero(2) [OF b(5)] high_bit_nonzero(2) [OF b(6)] high_bit_nonzero(2) [OF b(7)] by auto
  have sh: "length ?bs \<le> 5" "?bs \<noteq> []" "?bs ! 0 AND 0x80 \<noteq> 0" using b(1) by simp_all
  have "next_codepoint conv (?bs @ rest) = Inr (decode_units [u0, u1, u2, u3], length ?bs)" for rest
    by (rule next_codepoint_two [of conv, OF cd nz sh short pull])
  with push_four [OF u, of u0 u2, folded x_def, folded cp_def, folded b0_def b1_def b2_def b3_def] show ?thesis
    unfolding reads_back_def by blast
qed

lemma surrogate_bytes:
  fixes u :: u8
  shows "u AND 0xfc = 0xd8 \<Longrightarrow> u \<in> {0xd8, 0xd9, 0xda, 0xdb}" and "u AND 0xfc = 0xdc \<Longrightarrow> u \<in> {0xdc, 0xdd, 0xde, 0xdf}"
  unfolding insert_iff empty_iff u8_eq
  by (cases "bit u 0"; cases "bit u 1"; auto simp: bit_simps)+

lemma unit_high:
  fixes c :: u32
  assumes "c < 0x10000" and "\<not> (0xD800 \<le> c \<and> c < 0xE000)"
  shows "(ucast (drop_bit 8 c) :: u8) AND 0xfc \<noteq> 0xdc" "(ucast (drop_bit 8 c) :: u8) AND 0xfc \<noteq> 0xd8"
proof -
  have "unat (ucast (drop_bit 8 c) :: u8) = unat c div 256"
    unfolding unsigned_ucast_eq unat_drop_bit_eq using assms(1) by (simp add: take_bit_eq_mod drop_bit_eq_div word_less_nat_alt)
  moreover have "\<not> (0xd8 \<le> unat c div 256 \<and> unat c div 256 < 0xe0)"
    using assms by (auto simp: word_le_nat_alt word_less_nat_alt)
  ultimately have "\<not> (0xd8 \<le> unat (ucast (drop_bit 8 c) :: u8) \<and> unat (ucast (drop_bit 8 c) :: u8) < 0xe0)" by simp
  then show "(ucast (drop_bit 8 c) :: u8) AND 0xfc \<noteq> 0xdc" "(ucast (drop_bit 8 c) :: u8) AND 0xfc \<noteq> 0xd8"
    using surrogate_bytes [of "ucast (drop_bit 8 c)"] by fastforce+
qed

lemma encode_reads_back:
  assumes cd: "conv CH_UNIX CH_UTF16 = Some (Direct utf8_pull)"
    and c: "128 \<le> c" "c < 0x110000" "\<not> (0xD800 \<le> c \<and> c < 0xE000)"
  shows "reads_back conv (encode_units c)"
proof (cases "c < 0x10000")
  case True
  define u0 u1 where "u0 = (ucast (c AND 0xFF) :: u8)" and "u1 = (ucast (drop_bit 8 c) :: u8)"
  have e: "encode_units c = [u0, u1]" using True by (simp add: encode_units_def u0_def u1_def)
  note high = unit_high [OF True c(3), folded u1_def]
  show ?thesis
  proof (cases "u1 AND 0xf8 = 0")
    case two: True
    have "\<not> (u1 = 0 \<and> u0 AND 0x80 = 0)"
    proof
      assume u: "u1 = 0 \<and> u0 AND 0x80 = 0"
      have "c = ucast u0" using decode_low [OF True, folded u0_def u1_def] u by simp
      moreover have "take_bit 7 u0 = u0" using u unfolding u8_eq by (auto simp: bit_simps)
      then have "unat u0 < 128" using unat_take_bit_mod [of 7 u0] by simp
      moreover have "unat (ucast u0 :: u32) = unat u0"
        using unat_u8_lt [of u0] by (simp add: unsigned_ucast_eq [of u0, where 'a = nat] take_bit_nat_eq_self)
      ultimately show False using c(1) by (simp add: word_le_nat_alt)
    qed
    from reads_back_two [of conv, OF cd this two] show ?thesis by (simp only: e)
  next
    case three: False
    from reads_back_three [of conv, OF cd three high] show ?thesis by (simp only: e)
  qed
next
  case False
  define x where "x = c - 0x10000"
  have "unat x = unat c - 0x10000" using False unfolding x_def by (subst unat_sub) (simp_all add: word_le_nat_alt word_less_nat_alt)
  then have x: "x < 0x100000" using c(2) False by (simp add: word_less_nat_alt)
  have hi: "unat (drop_bit 18 x) < 4" unfolding unat_drop_bit_eq using x by (simp add: drop_bit_eq_div word_less_nat_alt)
  have s: "(ucast (drop_bit 18 x OR 0xd8) :: u8) AND 0xfc = 0xd8"
  proof -
    have "unat (drop_bit 18 x) \<in> {0, 1, 2, 3}" using hi by auto
    then have "drop_bit 18 x \<in> {0, 1, 2, 3}" by (auto simp: word_unat_eq_iff)
    then show ?thesis by (elim insertE emptyE) simp_all
  qed
  have t: "(ucast ((drop_bit 8 x AND 0x3) OR 0xdc) :: u8) AND 0xfc = 0xdc"
    unfolding u8_eq by (simp add: bit_simps bit_3_7)
  from reads_back_four [of conv, OF cd s t] False show ?thesis
    unfolding encode_units_def Let_def x_def [symmetric] by (simp only: if_False)
qed

text \<open>
  With the charset of the program at its default, UTF-8, every Unicode code point other than
  a surrogate is written by \<open>push_codepoint\<close>, and \<open>next_codepoint\<close> at the place where it was
  written gives the same code point and its length, whatever follows in the string.
\<close>

theorem codepoint_roundtrip:
  assumes st: "fresh_utf8 st" and c: "c < 0x110000" "\<not> (0xD800 \<le> c \<and> c < 0xE000)"
  shows "\<exists>bs. push_codepoint (conv_of (smb_iconv_open sys native charsets) st) c = Inr (int (length bs), bs) \<and> bs \<noteq> [] \<and>
    (\<forall>rest. next_codepoint (conv_of (smb_iconv_open sys native charsets) st) (bs @ rest) = Inr (c, length bs))"
proof (cases "c < 128")
  case True
  then have lt: "unat c < 128" by (simp add: word_less_nat_alt)
  have "(ucast (ucast c :: u8) :: u32) = take_bit 8 c" by (rule bit_word_eqI) (auto simp: bit_simps)
  moreover have "take_bit 8 c = c" using lt by (simp only: word_unat_eq_iff unat_take_bit_mod) simp
  moreover have "(ucast c :: u8) AND 0x80 = 0"
  proof -
    have t: "c = take_bit 7 c" using lt by (simp add: word_unat_eq_iff unat_take_bit_mod)
    have "\<not> bit c 7" by (subst t) (simp add: bit_take_bit_iff)
    then show ?thesis unfolding u8_eq by (simp add: bit_simps)
  qed
  ultimately show ?thesis using True by (intro exI [of _ "[ucast c]"]) (simp add: push_codepoint_def next_codepoint_def)
next
  case False
  then have ge: "128 \<le> c" by simp
  from encode_reads_back [of "conv_of (smb_iconv_open sys native charsets) st", OF conv_utf8(1) [OF st] ge c] obtain bs where
    "utf8_push (encode_units c) 5 = (Inr 0, [], bs)" "bs \<noteq> []"
    "\<And>rest. next_codepoint (conv_of (smb_iconv_open sys native charsets) st) (bs @ rest) = Inr (c, length bs)"
    unfolding reads_back_def decode_encode [OF c(1)] by blast
  with False show ?thesis by (intro exI [of _ bs]) (simp add: push_codepoint_def conv_utf8(2) [OF st])
qed

theorem codepoint_roundtrip_witness:
  "\<exists>bs. push_codepoint (conv_of (smb_iconv_open (\<lambda>_ _. None) False [])
           \<lparr>unix_charset = ascii_str ''UTF8'', dos_charset = ascii_str ''CP850'', display_charset = ascii_str ''ASCII'',
            conv_handles = (\<lambda>_. No_Handle)\<rparr>) 0x1F600 = Inr (int (length bs), bs) \<and> bs \<noteq> []"
  using codepoint_roundtrip [of "\<lparr>unix_charset = ascii_str ''UTF8'', dos_charset = ascii_str ''CP850'',
      display_charset = ascii_str ''ASCII'', conv_handles = (\<lambda>_. No_Handle)\<rparr>" "0x1F600" "\<lambda>_ _. None" False "[]"]
  by (auto simp: fresh_utf8_def)

end
