(* ===== verification/Uuid.thy ===== *)
theory Uuid
  imports C_Strings
begin

text \<open>
  \<open>librpc/ndr/uuid.c\<close>: GUIDs and their text form. The call of \<open>sscanf\<close> is modelled by the list
  of its format's directives, \<open>Hex w\<close> for \<open>%0wx\<close> and \<open>Lit c\<close> for a character that has to match;
  the result is the list of the values it assigned.
\<close>

section \<open>Model\<close>

record GUID =
  time_low :: u32
  time_mid :: u16
  time_hi_and_version :: u16
  clock_seq0 :: u8
  clock_seq1 :: u8
  node :: bytes

datatype directive = Hex nat | Lit u8

fun sscanf :: "directive list \<Rightarrow> bytes \<Rightarrow> u32 list" where
  "sscanf [] s = []"
| "sscanf (Hex w # ds) s = (case scan_hex w s of None \<Rightarrow> [] | Some (v, s') \<Rightarrow> v # sscanf ds s')"
| "sscanf (Lit c # ds) s = (case s of [] \<Rightarrow> [] | a # s' \<Rightarrow> if a = c then sscanf ds s' else [])"

definition guid_format :: "directive list" where
  "guid_format = [Hex 8, Lit 0x2D, Hex 4, Lit 0x2D, Hex 4, Lit 0x2D, Hex 2, Hex 2, Lit 0x2D,
                  Hex 2, Hex 2, Hex 2, Hex 2, Hex 2, Hex 2]"

definition GUID_of_values :: "u32 list \<Rightarrow> GUID" where
  "GUID_of_values v =
     \<lparr>time_low = v ! 0, time_mid = ucast (v ! 1), time_hi_and_version = ucast (v ! 2),
      clock_seq0 = ucast (v ! 3), clock_seq1 = ucast (v ! 4), node = map (\<lambda>i. ucast (v ! (5 + i))) [0..<6]\<rparr>"

definition GUID_from_string :: "bytes option \<Rightarrow> GUID res" where
  "GUID_from_string s =
     (case s of
        None \<Rightarrow> Inl (Status NT_STATUS_INVALID_PARAMETER)
      | Some s \<Rightarrow>
          let v = sscanf guid_format s
          in if length v = 11 then Inr (GUID_of_values v)
             else let v = sscanf ([Lit 0x7B] @ guid_format @ [Lit 0x7D]) s
                  in if length v = 11 then Inr (GUID_of_values v)
                     else Inl (Status NT_STATUS_INVALID_PARAMETER))"

text \<open>\<open>rnd\<close> is the structure as \<open>generate_random_buffer\<close> fills it.\<close>

definition GUID_random :: "GUID \<Rightarrow> GUID" where
  "GUID_random rnd =
     rnd\<lparr>clock_seq0 := (clock_seq0 rnd AND 0x3F) OR 0x80,
         time_hi_and_version := (time_hi_and_version rnd AND 0x0FFF) OR 0x4000\<rparr>"

definition GUID_zero :: GUID where
  "GUID_zero = \<lparr>time_low = 0, time_mid = 0, time_hi_and_version = 0, clock_seq0 = 0, clock_seq1 = 0, node = replicate 6 0\<rparr>"

definition GUID_all_zero :: "GUID \<Rightarrow> bool" where
  "GUID_all_zero u =
     (\<not> (time_low u \<noteq> 0 \<or> time_mid u \<noteq> 0 \<or> time_hi_and_version u \<noteq> 0 \<or> clock_seq0 u \<noteq> 0 \<or> clock_seq1 u \<noteq> 0 \<or>
         \<not> list_all (\<lambda>b. b = 0) (take 6 (node u))))"

definition GUID_equal :: "GUID \<Rightarrow> GUID \<Rightarrow> bool" where
  "GUID_equal u1 u2 =
     (\<not> (time_low u1 \<noteq> time_low u2 \<or> time_mid u1 \<noteq> time_mid u2 \<or> time_hi_and_version u1 \<noteq> time_hi_and_version u2 \<or>
         clock_seq0 u1 \<noteq> clock_seq0 u2 \<or> clock_seq1 u1 \<noteq> clock_seq1 u2 \<or> take 6 (node u1) \<noteq> take 6 (node u2)))"

definition GUID_string :: "GUID \<Rightarrow> bytes" where
  "GUID_string guid =
     print_hex 8 (unat (time_low guid)) @ [0x2D] @ print_hex 4 (unat (time_mid guid)) @ [0x2D] @
     print_hex 4 (unat (time_hi_and_version guid)) @ [0x2D] @
     print_hex 2 (unat (clock_seq0 guid)) @ print_hex 2 (unat (clock_seq1 guid)) @ [0x2D] @
     print_hex 2 (unat (node guid ! 0)) @ print_hex 2 (unat (node guid ! 1)) @
     print_hex 2 (unat (node guid ! 2)) @ print_hex 2 (unat (node guid ! 3)) @
     print_hex 2 (unat (node guid ! 4)) @ print_hex 2 (unat (node guid ! 5))"

definition GUID_string2 :: "GUID \<Rightarrow> bytes" where
  "GUID_string2 guid = [0x7B] @ GUID_string guid @ [0x7D]"

record policy_handle =
  handle_type :: u32
  uuid :: GUID

definition policy_handle_empty :: "policy_handle \<Rightarrow> bool" where
  "policy_handle_empty h = (handle_type h = 0 \<and> GUID_all_zero (uuid h))"

section \<open>Lemmas\<close>

definition guid_ok :: "GUID \<Rightarrow> bool" where
  "guid_ok g = (length (node g) = 6)"

text \<open>Reading back what \<open>print_hex\<close> wrote for a value of the field's width.\<close>

lemma sscanf_Hex:
  assumes "2 \<le> w" "w \<le> 8" "v < 16 ^ w"
  shows "sscanf (Hex w # ds) (print_hex w v @ s) = word_of_nat v # sscanf ds s"
proof -
  have "(16 :: nat) ^ w \<le> 16 ^ 8" using assms(2) by (intro power_increasing) simp_all
  with assms have "v < 2 ^ 32" by simp
  with scan_hex_print [of w v s] assms show ?thesis by simp
qed

lemma unat_lt_16:
  "unat (a :: u8) < 16 ^ 2" "unat (b :: u16) < 16 ^ 4" "unat (c :: u32) < 16 ^ 8"
  using unsigned_less [of a, where 'a = nat] unsigned_less [of b, where 'a = nat] unsigned_less [of c, where 'a = nat] by simp_all

lemmas sscanf_field = sscanf_Hex [of 2, OF _ _ unat_lt_16(1)] sscanf_Hex [of 4, OF _ _ unat_lt_16(2)] sscanf_Hex [of 8, OF _ _ unat_lt_16(3)]

lemma sscanf_GUID_string:
  "sscanf (guid_format @ rest) (GUID_string g @ s) =
   [time_low g, ucast (time_mid g), ucast (time_hi_and_version g), ucast (clock_seq0 g), ucast (clock_seq1 g),
    ucast (node g ! 0), ucast (node g ! 1), ucast (node g ! 2), ucast (node g ! 3), ucast (node g ! 4), ucast (node g ! 5)] @
   sscanf rest s"
  unfolding guid_format_def GUID_string_def append_assoc append_Cons append_Nil
  by (simp add: sscanf_field del: print_hex.simps sscanf.simps(2))

lemma ucast_back: "ucast (ucast (a :: u8) :: u32) = a" "ucast (ucast (b :: u16) :: u32) = b"
  by (rule bit_word_eqI; simp add: bit_simps)+

lemma node6: "length xs = 6 \<Longrightarrow> [xs ! 0, xs ! 1, xs ! 2, xs ! 3, xs ! 4, xs ! 5] = xs"
  by (rule nth_equalityI) (auto simp: nth_Cons' numeral_eq_Suc less_Suc_eq)

lemma GUID_of_fields:
  "guid_ok g \<Longrightarrow> GUID_of_values
   ([time_low g, ucast (time_mid g), ucast (time_hi_and_version g), ucast (clock_seq0 g), ucast (clock_seq1 g),
    ucast (node g ! 0), ucast (node g ! 1), ucast (node g ! 2), ucast (node g ! 3), ucast (node g ! 4), ucast (node g ! 5)] @ []) = g"
  using node6 [of "node g"] unfolding GUID_of_values_def guid_ok_def by (simp add: upt_rec ucast_id ucast_back)

lemma GUID_from_GUID_string: "guid_ok g \<Longrightarrow> GUID_from_string (Some (GUID_string g)) = Inr g"
  using sscanf_GUID_string [of "[]" g "[]"] GUID_of_fields [of g] by (simp add: GUID_from_string_def Let_def)

section \<open>Property\<close>

text \<open>
  C18. \<open>GUID_from_string\<close> restores every GUID from the text that \<open>GUID_string\<close> prints, and from
  the form in braces of \<open>GUID_string2\<close>.
\<close>

theorem guid_string_roundtrip:
  assumes "guid_ok g"
  shows "GUID_from_string (Some (GUID_string g)) = Inr g \<and> GUID_from_string (Some (GUID_string2 g)) = Inr g"
proof
  note fields = GUID_of_fields [OF assms]
  show "GUID_from_string (Some (GUID_string g)) = Inr g"
    using assms by (rule GUID_from_GUID_string)
  have "hex_digit 0x7B = None" by code_simp
  then have "hex_run 8 (0x7B # s) = []" for s using hex_run.simps(1) [of 7 "0x7B" s] by simp
  then have "scan_hex 8 (0x7B # s) = None" for s by (simp add: scan_hex_def Let_def isspace_def)
  then have brace: "sscanf guid_format (0x7B # s) = []" for s by (simp add: guid_format_def)
  show "GUID_from_string (Some (GUID_string2 g)) = Inr g"
    using sscanf_GUID_string [of "[Lit 0x7D]" g "[0x7D]"] fields brace by (simp add: GUID_from_string_def GUID_string2_def Let_def)
qed

theorem guid_string_roundtrip_witness:
  "let g = \<lparr>time_low = 0x12345678, time_mid = 0xABCD, time_hi_and_version = 0xEF00, clock_seq0 = 1, clock_seq1 = 0x23,
            node = [0x45, 0x67, 0x89, 0xAB, 0xCD, 0xEF]\<rparr>
   in GUID_from_string (Some (GUID_string g)) = Inr g \<and> GUID_from_string (Some (GUID_string2 g)) = Inr g"
  unfolding Let_def by (rule guid_string_roundtrip) (simp add: guid_ok_def)

end
