(* ===== verification/Dom_Sid.thy ===== *)
theory Dom_Sid
  imports C_Strings
begin

text \<open>
  \<open>libcli/security/dom_sid.c\<close>: security identifiers. A pointer to a SID that may be NULL is an
  option; two pointers are compared by what they point to, which is what the shortcut for equal
  pointers comes to. \<open>num_auths\<close> is an \<open>int8_t\<close>, read with \<open>sint\<close>; \<open>sub_auths\<close> is the allocated
  array, which may be longer than \<open>num_auths\<close>, and a read outside it is \<open>Fault\<close>.
\<close>

section \<open>Model\<close>

record dom_sid =
  sid_rev_num :: u8
  num_auths :: u8
  id_auth :: bytes
  sub_auths :: "u32 list"

definition get_at :: "'a list \<Rightarrow> nat \<Rightarrow> 'a res" where
  "get_at xs i = (if i < length xs then Inr (xs ! i) else Inl Fault)"

definition get_prefix :: "'a list \<Rightarrow> nat \<Rightarrow> 'a list res" where
  "get_prefix xs n = (if n \<le> length xs then Inr (take n xs) else Inl Fault)"

fun compare_id_auth :: "bytes \<Rightarrow> bytes \<Rightarrow> int" where
  "compare_id_auth (a # as) (b # bs) = (if a \<noteq> b then int (unat a) - int (unat b) else compare_id_auth as bs)"
| "compare_id_auth _ _ = 0"

definition dom_sid_compare_auth :: "dom_sid option \<Rightarrow> dom_sid option \<Rightarrow> int" where
  "dom_sid_compare_auth sid1 sid2 =
     (case (sid1, sid2) of
        (None, None) \<Rightarrow> 0
      | (None, Some _) \<Rightarrow> - 1
      | (Some _, None) \<Rightarrow> 1
      | (Some s1, Some s2) \<Rightarrow>
          if sid_rev_num s1 \<noteq> sid_rev_num s2 then int (unat (sid_rev_num s1)) - int (unat (sid_rev_num s2))
          else compare_id_auth (take 6 (id_auth s1)) (take 6 (id_auth s2)))"

text \<open>The loop from the last sub-authority down: the first difference, if any.\<close>

fun compare_sub_auths :: "u32 list \<Rightarrow> u32 list \<Rightarrow> nat \<Rightarrow> int option res" where
  "compare_sub_auths s1 s2 0 = Inr None"
| "compare_sub_auths s1 s2 (Suc i) =
     chk (get_at s1 i) (\<lambda>a. chk (get_at s2 i) (\<lambda>b.
       if a \<noteq> b then Inr (Some (sint (a - b))) else compare_sub_auths s1 s2 i))"

definition dom_sid_compare :: "dom_sid option \<Rightarrow> dom_sid option \<Rightarrow> int res" where
  "dom_sid_compare sid1 sid2 =
     (case (sid1, sid2) of
        (None, None) \<Rightarrow> Inr 0
      | (None, Some _) \<Rightarrow> Inr (- 1)
      | (Some _, None) \<Rightarrow> Inr 1
      | (Some s1, Some s2) \<Rightarrow>
          if num_auths s1 \<noteq> num_auths s2 then Inr (sint (num_auths s1) - sint (num_auths s2))
          else chk (compare_sub_auths (sub_auths s1) (sub_auths s2) (nat (sint (num_auths s1)))) (\<lambda>d.
                 case d of Some r \<Rightarrow> Inr r | None \<Rightarrow> Inr (dom_sid_compare_auth sid1 sid2)))"

definition dom_sid_equal :: "dom_sid option \<Rightarrow> dom_sid option \<Rightarrow> bool res" where
  "dom_sid_equal sid1 sid2 = chk (dom_sid_compare sid1 sid2) (\<lambda>r. Inr (r = 0))"

fun parse_sub_auths :: "nat \<Rightarrow> bytes \<Rightarrow> u32 list option" where
  "parse_sub_auths 0 sidstr = Some []"
| "parse_sub_auths (Suc n) sidstr =
     (if sidstr = [] \<or> hd sidstr \<noteq> 0x2D then None
      else case strtoul (tl sidstr) of (v, p) \<Rightarrow>
        if p = tl sidstr then None else map_option (\<lambda>vs. ucast v # vs) (parse_sub_auths n p))"

definition dom_sid_parse_talloc :: "bytes \<Rightarrow> dom_sid option" where
  "dom_sid_parse_talloc sidstr =
     (if map tolower (take 2 sidstr) \<noteq> [0x73, 0x2D] then None
      else case strtol (drop 2 sidstr) of (rev_num, p) \<Rightarrow>
        if p = [] \<or> hd p \<noteq> 0x2D then None
        else case strtol (tl p) of (ia_num, p2) \<Rightarrow>
          if p2 = tl p then None
          else
            let ia = (word_of_int ia_num :: u32);
                num_sub_auths = length (filter (\<lambda>c. c = 0x2D) p2)
            in if num_sub_auths \<ge> MAX_TALLOC_SIZE div 4 then None
               else
                 case parse_sub_auths num_sub_auths p2 of
                   None \<Rightarrow> None
                 | Some subs \<Rightarrow>
                     Some \<lparr>sid_rev_num = word_of_int rev_num, num_auths = word_of_nat num_sub_auths,
                           id_auth = [0, 0, ucast (drop_bit 24 ia), ucast (drop_bit 16 ia), ucast (drop_bit 8 ia), ucast ia],
                           sub_auths = subs\<rparr>)"

text \<open>A negative count, as a \<open>size_t\<close>, is beyond what talloc allocates: the result is NULL.\<close>

definition dom_sid_dup :: "dom_sid option \<Rightarrow> dom_sid option res" where
  "dom_sid_dup sid =
     (case sid of
        None \<Rightarrow> Inr None
      | Some s \<Rightarrow>
          if sint (num_auths s) < 0 then Inr None
          else chk (get_prefix (sub_auths s) (nat (sint (num_auths s)))) (\<lambda>subs.
                 Inr (Some \<lparr>sid_rev_num = sid_rev_num s, num_auths = num_auths s, id_auth = id_auth s, sub_auths = subs\<rparr>)))"

text \<open>With \<open>num_auths\<close> -1 the array is empty and the length given to \<open>memcpy\<close> is huge.\<close>

definition dom_sid_add_rid :: "dom_sid \<Rightarrow> u32 \<Rightarrow> dom_sid option res" where
  "dom_sid_add_rid domain_sid rid =
     (let n = sint (num_auths domain_sid)
      in if n + 1 < 0 then Inr None
         else if n < 0 then Inl Fault
         else chk (get_prefix (sub_auths domain_sid) (nat n)) (\<lambda>subs.
                Inr (Some (domain_sid\<lparr>sub_auths := subs @ [rid], num_auths := num_auths domain_sid + 1\<rparr>))))"

definition dom_sid_split_rid :: "dom_sid \<Rightarrow> (dom_sid \<times> u32) res" where
  "dom_sid_split_rid sid =
     (if num_auths sid = 0 then Inl (Status NT_STATUS_INVALID_PARAMETER)
      else chk (dom_sid_dup (Some sid)) (\<lambda>d.
        case d of
          None \<Rightarrow> Inl (Status NT_STATUS_NO_MEMORY)
        | Some domain \<Rightarrow>
            let domain = domain\<lparr>num_auths := num_auths domain - 1\<rparr>
            in chk (get_at (sub_auths domain) (nat (sint (num_auths domain)))) (\<lambda>rid. Inr (domain, rid))))"

definition dom_sid_in_domain :: "dom_sid option \<Rightarrow> dom_sid option \<Rightarrow> bool res" where
  "dom_sid_in_domain domain_sid sid =
     (case (domain_sid, sid) of
        (Some d, Some s) \<Rightarrow>
          if sint (num_auths d) > sint (num_auths s) then Inr False
          else chk (compare_sub_auths (sub_auths d) (sub_auths s) (nat (sint (num_auths d)))) (\<lambda>r.
                 case r of Some _ \<Rightarrow> Inr False | None \<Rightarrow> Inr (dom_sid_compare_auth domain_sid sid = 0))
      | _ \<Rightarrow> Inr False)"

definition SID_ERR :: bytes where "SID_ERR = ascii_str ''(SID ERR)''"

fun sid_string_loop :: "u32 list \<Rightarrow> nat list \<Rightarrow> int \<Rightarrow> bytes \<Rightarrow> bytes res" where
  "sid_string_loop subs [] maxlen ret = Inr ret"
| "sid_string_loop subs (i # is) maxlen ret =
     chk (get_at subs i) (\<lambda>a.
       let t = 0x2D # print_u (unat a)
       in if int (length t) \<ge> maxlen - int (length ret) then Inr SID_ERR
          else sid_string_loop subs is maxlen (ret @ t))"

definition sid_ia :: "bytes \<Rightarrow> u32" where
  "sid_ia a = ucast (a ! 5) + push_bit 8 (ucast (a ! 4)) + push_bit 16 (ucast (a ! 3)) + push_bit 24 (ucast (a ! 2))"

definition dom_sid_string :: "dom_sid option \<Rightarrow> bytes res" where
  "dom_sid_string sid =
     (case sid of
        None \<Rightarrow> Inr (ascii_str ''(NULL SID)'')
      | Some s \<Rightarrow>
          let maxlen = sint (num_auths s) * 11 + 25
          in if maxlen < 0 then Inr SID_ERR
             else
               let ia = sid_ia (id_auth s);
                   ret = [0x53, 0x2D] @ print_u (unat (sid_rev_num s)) @ [0x2D] @ print_u (unat ia)
               in if int (length ret) \<ge> maxlen then Inr SID_ERR
                  else sid_string_loop (sub_auths s) [0..<nat (sint (num_auths s))] maxlen ret)"

section \<open>What a SID stands for\<close>

definition sid_ok :: "dom_sid \<Rightarrow> bool" where
  "sid_ok s = (0 \<le> sint (num_auths s) \<and> nat (sint (num_auths s)) \<le> length (sub_auths s) \<and> length (id_auth s) = 6)"

definition sid_auths :: "dom_sid \<Rightarrow> u32 list" where
  "sid_auths s = take (nat (sint (num_auths s))) (sub_auths s)"

definition sid_abs :: "dom_sid \<Rightarrow> u8 \<times> bytes \<times> u32 list" where
  "sid_abs s = (sid_rev_num s, id_auth s, sid_auths s)"

lemma compare_id_auth_eq: "length as = length bs \<Longrightarrow> (compare_id_auth as bs = 0) = (as = bs)"
  by (induction as bs rule: compare_id_auth.induct) (auto dest: word_uint_eqI)

lemma compare_auth_eq:
  "sid_ok s \<Longrightarrow> sid_ok t \<Longrightarrow>
   (dom_sid_compare_auth (Some s) (Some t) = 0) = (sid_rev_num s = sid_rev_num t \<and> id_auth s = id_auth t)"
  by (auto simp: dom_sid_compare_auth_def compare_id_auth_eq sid_ok_def dest: word_uint_eqI)

lemma compare_sub_auths_cases:
  assumes "n \<le> length s" and "n \<le> length t"
  shows "(take n s = take n t \<and> compare_sub_auths s t n = Inr None) \<or>
         (take n s \<noteq> take n t \<and> (\<exists>d. d \<noteq> 0 \<and> compare_sub_auths s t n = Inr (Some d)))"
  using assms
proof (induction n)
  case (Suc i)
  then show ?case by (auto simp: get_at_def take_Suc_conv_app_nth signed_eq_0_iff)
qed simp

lemma length_sid_auths: "sid_ok s \<Longrightarrow> length (sid_auths s) = nat (sint (num_auths s))"
  by (simp add: sid_auths_def sid_ok_def)

lemma sint_eq: "(sint (a :: u8) = sint b) = (a = b)"
  by (metis signed_word_eqI)

lemma sid_equal_abs:
  assumes "sid_ok s" and "sid_ok t"
  shows "dom_sid_equal (Some s) (Some t) = Inr (sid_abs s = sid_abs t)"
proof (cases "num_auths s = num_auths t")
  case True
  have "nat (sint (num_auths s)) \<le> length (sub_auths s)" "nat (sint (num_auths s)) \<le> length (sub_auths t)"
    using assms True by (auto simp: sid_ok_def)
  from compare_sub_auths_cases [OF this] True compare_auth_eq [OF assms] show ?thesis
    by (auto simp: dom_sid_equal_def dom_sid_compare_def sid_abs_def sid_auths_def)
next
  case False
  then have "sint (num_auths s) \<noteq> sint (num_auths t)" by (simp add: sint_eq)
  with length_sid_auths assms have "sid_auths s \<noteq> sid_auths t" by (metis sid_ok_def nat_eq_iff2)
  with False show ?thesis by (simp add: dom_sid_equal_def dom_sid_compare_def sid_abs_def sint_eq)
qed

lemma sid_in_domain_abs:
  assumes "sid_ok d" and "sid_ok s"
  shows "dom_sid_in_domain (Some d) (Some s) =
    Inr (sid_rev_num d = sid_rev_num s \<and> id_auth d = id_auth s \<and> take (length (sid_auths d)) (sid_auths s) = sid_auths d)"
proof (cases "sint (num_auths s) < sint (num_auths d)")
  case True
  then have "length (sid_auths s) < length (sid_auths d)" using assms by (simp add: length_sid_auths sid_ok_def)
  then have "take (length (sid_auths d)) (sid_auths s) \<noteq> sid_auths d" by (metis length_take min_less_iff_conj nat_neq_iff)
  with True show ?thesis by (simp add: dom_sid_in_domain_def)
next
  case False
  let ?n = "nat (sint (num_auths d))"
  have le: "?n \<le> length (sub_auths d)" "?n \<le> length (sub_auths s)" and "take ?n (sid_auths s) = take ?n (sub_auths s)"
    using assms False by (auto simp: sid_ok_def sid_auths_def min_def)
  with compare_sub_auths_cases [OF le] False compare_auth_eq [OF assms] length_sid_auths [OF assms(1)] show ?thesis
    by (auto simp: dom_sid_in_domain_def sid_auths_def)
qed

section \<open>Properties\<close>

text \<open>
  C15. On well-formed SIDs the comparisons never read outside an array and decide what they
  should: \<open>dom_sid_equal\<close> holds exactly for the same revision, authority and sub-authorities,
  whatever the arrays hold behind \<open>num_auths\<close>, and \<open>dom_sid_in_domain\<close> exactly when revision and
  authority agree and the sub-authorities of the domain are a prefix of the SID's.
\<close>

theorem sid_comparisons_refine:
  assumes "sid_ok s" and "sid_ok t"
  shows "dom_sid_equal (Some s) (Some t) = Inr (sid_abs s = sid_abs t) \<and>
         dom_sid_in_domain (Some s) (Some t) =
           Inr (fst (sid_abs s) = fst (sid_abs t) \<and> fst (snd (sid_abs s)) = fst (snd (sid_abs t)) \<and>
                (\<exists>rest. snd (snd (sid_abs t)) = snd (snd (sid_abs s)) @ rest))"
proof -
  have "(take (length xs) ys = xs) = (\<exists>rest. ys = xs @ rest)" for xs ys :: "u32 list"
    by (metis append_take_drop_id append_eq_conv_conj)
  then show ?thesis
    using sid_equal_abs [OF assms] sid_in_domain_abs [OF assms] by (simp add: sid_abs_def)
qed

theorem sid_comparisons_refine_witness:
  "let d = \<lparr>sid_rev_num = 1, num_auths = 1, id_auth = [0, 0, 0, 0, 0, 5], sub_auths = [21, 99]\<rparr>;
       s = \<lparr>sid_rev_num = 1, num_auths = 2, id_auth = [0, 0, 0, 0, 0, 5], sub_auths = [21, 500]\<rparr>
   in dom_sid_equal (Some d) (Some s) = Inr False \<and> dom_sid_in_domain (Some d) (Some s) = Inr True"
  unfolding Let_def
  by (subst sid_comparisons_refine [THEN conjunct1], simp add: sid_ok_def, simp add: sid_ok_def,
      subst sid_comparisons_refine [THEN conjunct2]) (simp_all add: sid_ok_def sid_abs_def sid_auths_def)

lemma sint_plus1: "0 \<le> sint (n :: u8) \<Longrightarrow> n \<noteq> 127 \<Longrightarrow> sint (n + 1) = sint n + 1"
proof -
  assume n: "0 \<le> sint n" "n \<noteq> 127"
  have "sint n \<le> 127" using sint_lt [of n] by simp
  moreover have "sint n \<noteq> 127" using n(2) sint_eq [of n 127] by simp
  ultimately have "signed_take_bit 7 (sint n + 1) = sint n + 1"
    using n(1) by (simp add: signed_take_bit_int_eq_self)
  then show ?thesis by (simp add: sint_word_ariths)
qed

text \<open>
  For a well-formed domain SID with fewer than 127 sub-authorities, \<open>dom_sid_add_rid\<close> makes
  the SID with the RID appended, which is in the domain, and \<open>dom_sid_split_rid\<close> takes it apart
  into the same domain and RID.
\<close>

theorem sid_add_split_rid:
  assumes ok: "sid_ok d" and n: "num_auths d \<noteq> 127"
  shows "\<exists>s d'. dom_sid_add_rid d rid = Inr (Some s) \<and> sid_ok s \<and>
           sid_abs s = (sid_rev_num d, id_auth d, sid_auths d @ [rid]) \<and>
           dom_sid_in_domain (Some d) (Some s) = Inr True \<and>
           dom_sid_split_rid s = Inr (d', rid) \<and> sid_ok d' \<and> sid_abs d' = sid_abs d"
proof -
  let ?n = "sint (num_auths d)"
  from ok have n0: "0 \<le> ?n" and len: "nat ?n \<le> length (sub_auths d)" by (simp_all add: sid_ok_def)
  note n1 = sint_plus1 [OF n0 n]
  define s where "s = d\<lparr>sub_auths := sid_auths d @ [rid], num_auths := num_auths d + 1\<rparr>"
  define d' where "d' = d\<lparr>sub_auths := sid_auths d @ [rid]\<rparr>"
  have add: "dom_sid_add_rid d rid = Inr (Some s)"
    using n0 len by (simp add: dom_sid_add_rid_def Let_def get_prefix_def s_def sid_auths_def)
  have suc: "nat (?n + 1) = Suc (nat ?n)" using n0 by simp
  have auths: "sid_auths s = sid_auths d @ [rid]" "sid_ok s"
    using n0 n1 suc ok length_sid_auths [OF ok] by (simp_all add: s_def sid_auths_def sid_ok_def)
  have dom: "dom_sid_in_domain (Some d) (Some s) = Inr True"
    using sid_in_domain_abs [OF ok auths(2)] auths(1) by (simp add: s_def)
  have "num_auths d + 1 \<noteq> 0" using n0 n1 by (metis add_nonneg_eq_0_iff signed_0 zero_le_one zero_neq_one)
  then have split: "dom_sid_split_rid s = Inr (d', rid)"
    using n0 n1 suc length_sid_auths [OF ok]
    by (simp add: dom_sid_split_rid_def dom_sid_dup_def get_prefix_def get_at_def Let_def s_def d'_def nth_append)
  have d': "sid_ok d'" "sid_abs d' = sid_abs d"
    using ok length_sid_auths [OF ok] by (simp_all add: d'_def sid_ok_def sid_abs_def sid_auths_def)
  from add auths dom split d' show ?thesis by (auto simp: sid_abs_def s_def)
qed

theorem sid_add_split_rid_witness:
  "let d = \<lparr>sid_rev_num = 1, num_auths = 1, id_auth = [0, 0, 0, 0, 0, 5], sub_auths = [21]\<rparr>
   in \<exists>s d'. dom_sid_add_rid d 500 = Inr (Some s) \<and> sid_ok s \<and> sid_abs s = (1, [0, 0, 0, 0, 0, 5], [21, 500]) \<and>
        dom_sid_in_domain (Some d) (Some s) = Inr True \<and>
        dom_sid_split_rid s = Inr (d', 500) \<and> sid_ok d' \<and> sid_abs d' = sid_abs d"
  using sid_add_split_rid [of "\<lparr>sid_rev_num = 1, num_auths = 1, id_auth = [0, 0, 0, 0, 0, 5], sub_auths = [21]\<rparr>" 500]
  by (simp add: sid_ok_def sid_auths_def Let_def)

section \<open>The text form\<close>

definition sub_text :: "u32 \<Rightarrow> bytes" where
  "sub_text a = 0x2D # print_u (unat a)"

lemma length_sub_text: "length (sub_text a) \<le> 11"
  using length_print_u [of "unat a" 10] unsigned_less [of a, where 'a = nat] by (simp add: sub_text_def)

lemma sid_string_loop_ok:
  "i \<le> n \<Longrightarrow> n \<le> length subs \<Longrightarrow> int (length ret) + 11 * int (n - i) < maxlen \<Longrightarrow>
   sid_string_loop subs [i..<n] maxlen ret = Inr (ret @ concat (map sub_text (drop i (take n subs))))"
proof (induction "n - i" arbitrary: i ret)
  case (Suc k)
  then have i: "i < n" "i < length subs" by simp_all
  with Suc(2) have k: "k = n - Suc i" by simp
  have e: "drop i (take n subs) = subs ! i # drop (Suc i) (take n subs)" using i by (simp add: Cons_nth_drop_Suc [symmetric])
  have "int (length (ret @ sub_text (subs ! i))) + 11 * int (n - Suc i) < maxlen"
    using Suc(5) i length_sub_text [of "subs ! i"] by (simp add: of_nat_diff)
  from Suc(1) [OF k _ Suc(4) this] i have
    "sid_string_loop subs [Suc i..<n] maxlen (ret @ sub_text (subs ! i)) =
     Inr ((ret @ sub_text (subs ! i)) @ concat (map sub_text (drop (Suc i) (take n subs))))" by simp
  moreover have "\<not> maxlen - int (length ret) \<le> int (length (sub_text (subs ! i)))"
    using Suc(5) i length_sub_text [of "subs ! i"] by (simp add: of_nat_diff)
  ultimately show ?case
    using i e by (simp add: upt_conv_Cons get_at_def sub_text_def Let_def)
qed simp

lemma dom_sid_string_text:
  assumes "sid_ok s"
  shows "dom_sid_string (Some s) =
    Inr ([0x53, 0x2D] @ print_u (unat (sid_rev_num s)) @ 0x2D # print_u (unat (sid_ia (id_auth s))) @
         concat (map sub_text (sid_auths s)))"
proof -
  have "length (print_u (unat (sid_rev_num s))) \<le> 3"
    using length_print_u [of "unat (sid_rev_num s)" 3] unsigned_less [of "sid_rev_num s", where 'a = nat] by simp
  moreover have "length (print_u (unat (sid_ia (id_auth s)))) \<le> 10"
    using length_print_u [of "unat (sid_ia (id_auth s))" 10] unsigned_less [of "sid_ia (id_auth s)", where 'a = nat] by simp
  ultimately have small: "int (length (print_u (unat (sid_rev_num s)))) + int (length (print_u (unat (sid_ia (id_auth s))))) \<le> 13" by simp
  let ?r = "[0x53, 0x2D] @ print_u (unat (sid_rev_num s)) @ [0x2D] @ print_u (unat (sid_ia (id_auth s)))"
  from assms have n0: "0 \<le> sint (num_auths s)" and le: "nat (sint (num_auths s)) \<le> length (sub_auths s)" by (simp_all add: sid_ok_def)
  have room: "int (length ?r) + 11 * int (nat (sint (num_auths s)) - 0) < sint (num_auths s) * 11 + 25"
    using n0 small by simp
  from sid_string_loop_ok [OF _ le room] room n0 show ?thesis
    by (simp add: dom_sid_string_def Let_def sid_auths_def)
qed

lemma parse_sub_text:
  "parse_sub_auths (length subs) (concat (map sub_text subs)) = Some subs"
proof (induction subs)
  case (Cons a subs)
  let ?r = "concat (map sub_text subs)"
  have r: "?r = [] \<or> \<not> isdigit (hd ?r)" by (cases subs) (simp_all add: sub_text_def isdigit_def)
  have "strtoul (print_u (unat a) @ ?r) = (word_of_nat (unat a), ?r)"
    using unsigned_less [of a, where 'a = nat] by (intro strtoul_print r) simp
  moreover have "?r \<noteq> print_u (unat a) @ ?r" using print_u_props [of "unat a"] by simp
  moreover have "ucast (word_of_nat (unat a) :: u64) = a" by (rule bit_word_eqI) (simp add: bit_simps)
  ultimately show ?case using Cons by (simp add: sub_text_def [of a])
qed simp

lemma count_sub_text: "length (filter (\<lambda>c. c = 0x2D) (concat (map sub_text subs))) = length subs"
proof (induction subs)
  case (Cons a subs)
  have "filter (\<lambda>c. c = 0x2D) (print_u (unat a)) = []"
    using print_u_props [of "unat a"] not_sign_digit by (auto simp: filter_empty_conv)
  with Cons show ?case by (simp add: sub_text_def)
qed simp

lemma sid_ia_bytes:
  assumes "length a = 6"
  shows "[0, 0, ucast (drop_bit 24 (sid_ia a)), ucast (drop_bit 16 (sid_ia a)), ucast (drop_bit 8 (sid_ia a)), ucast (sid_ia a)] = [0, 0] @ drop 2 a"
proof -
  let ?w = "(ucast (a ! 5) OR push_bit 8 (ucast (a ! 4)) OR push_bit 16 (ucast (a ! 3)) OR push_bit 24 (ucast (a ! 2)) :: u32)"
  have w: "sid_ia a = ?w"
    unfolding sid_ia_def
    by (subst disjunctive_add, simp add: bit_simps bit_u8_ge)+ (simp add: ac_simps)
  have "ucast (drop_bit 24 ?w) = a ! 2" "ucast (drop_bit 16 ?w) = a ! 3" "ucast (drop_bit 8 ?w) = a ! 4" "ucast ?w = a ! 5"
    by (rule bit_word_eqI; auto simp: bit_simps bit_u8_ge)+
  moreover have "drop 2 a = [a ! 2, a ! 3, a ! 4, a ! 5]"
    using assms by (intro nth_equalityI) (auto simp: nth_Cons' numeral_eq_Suc less_Suc_eq)
  ultimately show ?thesis by (simp add: w)
qed

text \<open>
  C16. The text of a well-formed SID always fits the buffer, so that \<open>dom_sid_string\<close> never gives
  the error text, and \<open>dom_sid_parse_talloc\<close> reads it back as the same SID except for the two
  most significant bytes of the authority, which the text leaves out and the result has as 0.
\<close>

theorem sid_string_roundtrip:
  assumes ok: "sid_ok s"
  shows "\<exists>text. dom_sid_string (Some s) = Inr text \<and>
           dom_sid_parse_talloc text =
             Some (s\<lparr>id_auth := [0, 0] @ drop 2 (id_auth s), sub_auths := sid_auths s\<rparr>)"
proof -
  let ?n = "nat (sint (num_auths s))" and ?subs = "concat (map sub_text (sid_auths s))"
  let ?ia = "print_u (unat (sid_ia (id_auth s)))" and ?rev = "print_u (unat (sid_rev_num s))"
  have r: "?subs = [] \<or> \<not> isdigit (hd ?subs)" by (cases "sid_auths s") (simp_all add: sub_text_def isdigit_def)
  have rev: "strtol (?rev @ 0x2D # ?ia @ ?subs) = (int (unat (sid_rev_num s)), 0x2D # ?ia @ ?subs)"
    using unsigned_less [of "sid_rev_num s", where 'a = nat] strtol_print [of _ "0x2D # ?ia @ ?subs" "[]"] by (simp add: isdigit_def)
  have ia: "strtol (?ia @ ?subs) = (int (unat (sid_ia (id_auth s))), ?subs)"
    using unsigned_less [of "sid_ia (id_auth s)", where 'a = nat] strtol_print [OF _ r, of _ "[]"] by simp
  have ne: "?ia \<noteq> []" using print_u_props [of "unat (sid_ia (id_auth s))"] by simp
  have "sint (num_auths s) < 128" using sint_lt [of "num_auths s"] by simp
  then have small: "\<not> MAX_TALLOC_SIZE div 4 \<le> length (sid_auths s)"
    by (simp add: length_sid_auths [OF ok] MAX_TALLOC_SIZE_def nat_le_iff)
  have n: "word_of_nat (length (sid_auths s)) = num_auths s"
    using ok by (simp add: length_sid_auths [OF ok] sid_ok_def)
  have low: "map tolower (take 2 ([0x53, 0x2D] @ x)) = [0x73, 0x2D]" for x by (simp add: tolower_def)
  have "dom_sid_parse_talloc ([0x53, 0x2D] @ ?rev @ 0x2D # ?ia @ ?subs) =
      Some (s\<lparr>id_auth := [0, 0] @ drop 2 (id_auth s), sub_auths := sid_auths s\<rparr>)"
    unfolding dom_sid_parse_talloc_def low using sid_ia_bytes [of "id_auth s"] ok
    by (simp add: rev ia ne small n Let_def count_sub_text parse_sub_text sid_ok_def)
  with dom_sid_string_text [OF ok] show ?thesis by blast
qed

theorem sid_string_roundtrip_witness:
  "let s = \<lparr>sid_rev_num = 1, num_auths = 2, id_auth = [0, 0, 0, 0, 0, 5], sub_auths = [21, 4294967295]\<rparr>
   in \<exists>text. dom_sid_string (Some s) = Inr text \<and> dom_sid_parse_talloc text = Some s"
  using sid_string_roundtrip [of "\<lparr>sid_rev_num = 1, num_auths = 2, id_auth = [0, 0, 0, 0, 0, 5], sub_auths = [21, 4294967295]\<rparr>"]
  by (simp add: sid_ok_def sid_auths_def Let_def)

end
