(* ===== verification/Ntlmssp_Parse.thy ===== *)
theory Ntlmssp_Parse
  imports Charcnv
begin

text \<open>
  \<open>auth/ntlmssp/ntlmssp_parse.c\<close>: the generator and the parser of the messages of NTLMSSP. The
  format string and the variable arguments of a call are one list: \<open>GU s\<close> is the specifier
  \<open>U\<close> with its string, and so on. A message has a head with the fixed fields and, for strings
  and blobs, their length twice and their place, and a data part behind it.
\<close>

section \<open>The generator\<close>

datatype gen_arg = GU bytes | GA bytes | Ga u32 bytes | GB bytes | Gb bytes | Gd u32 | GC bytes

text \<open>
  The blob \<open>pointers[i]\<close>: the converted string without its terminator, two bytes of UTF-16 or
  one of ASCII; where the conversion gave fewer the length wraps around and the copy leaves
  every buffer. \<open>None\<close> is the return with False.
\<close>

definition chop :: "nat \<Rightarrow> bytes option res \<Rightarrow> bytes option res" where
  "chop k r =
     chk r (\<lambda>d. case d of
       None \<Rightarrow> Inr None
     | Some d \<Rightarrow> if length d < k then Inl Fault else Inr (Some (take (length d - k) d)))"

fun gen_pointer :: "conv_env \<Rightarrow> gen_arg \<Rightarrow> bytes option res" where
  "gen_pointer conv (GU s) = chop 2 (push_ucs2_talloc conv s)"
| "gen_pointer conv (GA s) = chop 1 (push_ascii_talloc conv s)"
| "gen_pointer conv (Ga n s) = chop 2 (push_ucs2_talloc conv s)"
| "gen_pointer conv (GB b) = Inr (Some b)"
| "gen_pointer conv (Gb b) = Inr (Some b)"
| "gen_pointer conv (Gd n) = Inr (Some [])"
| "gen_pointer conv (GC s) = Inr (Some (s @ [0]))"

fun gen_pointers :: "conv_env \<Rightarrow> gen_arg list \<Rightarrow> (gen_arg \<times> bytes) list option res" where
  "gen_pointers conv [] = Inr (Some [])"
| "gen_pointers conv (a # as) =
     chk (gen_pointer conv a) (\<lambda>p. case p of
       None \<Rightarrow> Inr None
     | Some p \<Rightarrow> chk (gen_pointers conv as) (\<lambda>ps. Inr (map_option (\<lambda>ps. (a, p) # ps) ps)))"

fun head_size :: "gen_arg \<times> bytes \<Rightarrow> nat" where
  "head_size (GU s, p) = 8"
| "head_size (GA s, p) = 8"
| "head_size (Ga n s, p) = 0"
| "head_size (GB b, p) = 8"
| "head_size (Gb b, p) = length p"
| "head_size (Gd n, p) = 4"
| "head_size (GC s, p) = length p"

fun data_size :: "gen_arg \<times> bytes \<Rightarrow> nat" where
  "data_size (GU s, p) = length p"
| "data_size (GA s, p) = length p"
| "data_size (Ga n s, p) = length p + 4"
| "data_size (GB b, p) = length p"
| "data_size (Gb b, p) = 0"
| "data_size (Gd n, p) = 0"
| "data_size (GC s, p) = 0"

definition write_field :: "bytes \<Rightarrow> nat \<Rightarrow> nat \<Rightarrow> bytes \<Rightarrow> (bytes \<times> nat \<times> nat) res" where
  "write_field data head_ofs data_ofs p =
     chk (SSVAL data head_ofs (word_of_nat (length p))) (\<lambda>data.
     chk (SSVAL data (head_ofs + 2) (word_of_nat (length p))) (\<lambda>data.
     chk (SIVAL data (head_ofs + 4) (word_of_nat data_ofs)) (\<lambda>data.
     chk (put_bytes data data_ofs p) (\<lambda>data.
     Inr (data, head_ofs + 8, data_ofs + length p)))))"

fun gen_write :: "bytes \<Rightarrow> nat \<Rightarrow> nat \<Rightarrow> gen_arg \<times> bytes \<Rightarrow> (bytes \<times> nat \<times> nat) res" where
  "gen_write data head_ofs data_ofs (GU s, p) = write_field data head_ofs data_ofs p"
| "gen_write data head_ofs data_ofs (GA s, p) = write_field data head_ofs data_ofs p"
| "gen_write data head_ofs data_ofs (GB b, p) = write_field data head_ofs data_ofs p"
| "gen_write data head_ofs data_ofs (Ga n s, p) =
     chk (SSVAL data data_ofs n) (\<lambda>data.
     chk (SSVAL data (data_ofs + 2) (word_of_nat (length p))) (\<lambda>data.
     chk (put_bytes data (data_ofs + 4) p) (\<lambda>data.
     Inr (data, head_ofs, data_ofs + 4 + length p))))"
| "gen_write data head_ofs data_ofs (Gd n, p) =
     chk (SIVAL data head_ofs n) (\<lambda>data. Inr (data, head_ofs + 4, data_ofs))"
| "gen_write data head_ofs data_ofs (Gb b, p) =
     chk (put_bytes data head_ofs p) (\<lambda>data. Inr (data, head_ofs + length p, data_ofs))"
| "gen_write data head_ofs data_ofs (GC s, p) =
     chk (put_bytes data head_ofs p) (\<lambda>data. Inr (data, head_ofs + length p, data_ofs))"

fun gen_writes :: "bytes \<Rightarrow> nat \<Rightarrow> nat \<Rightarrow> (gen_arg \<times> bytes) list \<Rightarrow> bytes res" where
  "gen_writes data head_ofs data_ofs [] = Inr data"
| "gen_writes data head_ofs data_ofs (a # as) =
     chk (gen_write data head_ofs data_ofs a) (\<lambda>r. gen_writes (fst r) (fst (snd r)) (snd (snd r)) as)"

text \<open>
  \<open>alloc n\<close> is the content of the block of \<open>n\<close> bytes that \<open>data_blob_talloc\<close> gives. A size
  that talloc refuses leaves the blob without memory.
\<close>

definition msrpc_gen :: "(nat \<Rightarrow> bytes) \<Rightarrow> conv_env \<Rightarrow> gen_arg list \<Rightarrow> bytes option res" where
  "msrpc_gen alloc conv args =
     chk (gen_pointers conv args) (\<lambda>ps. case ps of
       None \<Rightarrow> Inr None
     | Some ps \<Rightarrow>
         let head = sum_list (map head_size ps); total = head + sum_list (map data_size ps)
         in if total \<ge> MAX_TALLOC_SIZE then Inl Fault
            else chk (gen_writes (alloc total) 0 head ps) (\<lambda>data. Inr (Some data)))"

section \<open>The parser\<close>

datatype parse_arg = PU | PA | PB | Pb u32 | Pd | PC bytes

datatype parse_val = VS bytes | VB bytes | VD u32

definition PSTRING_LEN :: nat where "PSTRING_LEN = 1024"

text \<open>\<open>NEED_DATA(8)\<close> and the two lengths and the place of a string or blob.\<close>

definition read_field :: "bytes \<Rightarrow> nat \<Rightarrow> (u16 \<times> u16 \<times> u32) option res" where
  "read_field blob head_ofs =
     (if head_ofs + 8 > length blob then Inr None
      else chk (SVAL blob head_ofs) (\<lambda>len1.
           chk (SVAL blob (head_ofs + 2)) (\<lambda>len2.
           chk (IVAL blob (head_ofs + 4)) (\<lambda>ptr. Inr (Some (ucast len1, ucast len2, ptr))))))"

definition bad_field :: "bytes \<Rightarrow> u16 \<Rightarrow> u16 \<Rightarrow> u32 \<Rightarrow> bool" where
  "bad_field blob len1 len2 ptr =
     (len1 \<noteq> len2 \<or> ptr + ucast len1 < ptr \<or> ptr + ucast len1 < ucast len1 \<or> unat (ptr + ucast len1) > length blob)"

text \<open>
  One specifier: \<open>None\<close> is the return with False, otherwise the value, the new \<open>head_ofs\<close> and the
  buffer \<open>p\<close> on the stack, which starts with whatever was there.
\<close>

definition parse_chars :: "conv_env \<Rightarrow> bytes \<Rightarrow> bytes \<Rightarrow> nat \<Rightarrow> u32 \<Rightarrow> (parse_val \<times> nat \<times> bytes) option res" where
  "parse_chars conv blob p head_ofs kind =
     chk (read_field blob head_ofs) (\<lambda>f. case f of
       None \<Rightarrow> Inr None
     | Some (len1, len2, ptr) \<Rightarrow>
         if len1 = 0 \<and> len2 = 0 then Inr (Some (VS [], head_ofs + 8, p))
         else if bad_field blob len1 len2 ptr then Inr None
         else if kind = STR_UNICODE \<and> len1 AND 1 \<noteq> 0 then Inr None
         else if unat ptr > length blob then Inr None
         else if len1 > 0
         then chk (get_bytes blob (unat ptr) (unat len1)) (\<lambda>src.
              chk (pull_string conv False src p (kind OR STR_NOALIGN)) (\<lambda>(_, p).
              Inr (Some (VS (c_string p), head_ofs + 8, p))))
         else Inr (Some (VS [], head_ofs + 8, p)))"

fun parse_one :: "conv_env \<Rightarrow> bytes \<Rightarrow> bytes \<Rightarrow> nat \<Rightarrow> parse_arg \<Rightarrow> (parse_val option \<times> nat \<times> bytes) option res" where
  "parse_one conv blob p head_ofs PU =
     chk (parse_chars conv blob p head_ofs STR_UNICODE) (\<lambda>r. Inr (map_option (\<lambda>(v, h, p). (Some v, h, p)) r))"
| "parse_one conv blob p head_ofs PA =
     chk (parse_chars conv blob p head_ofs STR_ASCII) (\<lambda>r. Inr (map_option (\<lambda>(v, h, p). (Some v, h, p)) r))"
| "parse_one conv blob p head_ofs PB =
     chk (read_field blob head_ofs) (\<lambda>f. case f of
       None \<Rightarrow> Inr None
     | Some (len1, len2, ptr) \<Rightarrow>
         if len1 = 0 \<and> len2 = 0 then Inr (Some (Some (VB []), head_ofs + 8, p))
         else if bad_field blob len1 len2 ptr then Inr None
         else if head_ofs + 8 > length blob then Inr None
         else chk (get_bytes blob (unat ptr) (unat len1)) (\<lambda>b. Inr (Some (Some (VB b), head_ofs + 8, p))))"
| "parse_one conv blob p head_ofs (Pb n) =
     (let len1 = unat (ucast n :: u16)
      in if head_ofs + len1 > length blob then Inr None
         else if head_ofs > length blob then Inr None
         else chk (get_bytes blob head_ofs len1) (\<lambda>b. Inr (Some (Some (VB b), head_ofs + len1, p))))"
| "parse_one conv blob p head_ofs Pd =
     (if head_ofs + 4 > length blob then Inr None
      else chk (IVAL blob head_ofs) (\<lambda>v. Inr (Some (Some (VD v), head_ofs + 4, p))))"
| "parse_one conv blob p head_ofs (PC s) =
     (if head_ofs > length blob then Inr None
      else chk (get_bytes blob head_ofs (length blob - head_ofs)) (\<lambda>src.
           chk (pull_string conv False src p (STR_ASCII OR STR_TERMINATE)) (\<lambda>(ret, p).
           if c_string p \<noteq> s then Inr None else Inr (Some (None, head_ofs + ret, p)))))"

fun parse_list :: "conv_env \<Rightarrow> bytes \<Rightarrow> bytes \<Rightarrow> nat \<Rightarrow> parse_arg list \<Rightarrow> parse_val list option res" where
  "parse_list conv blob p head_ofs [] = Inr (Some [])"
| "parse_list conv blob p head_ofs (f # fs) =
     chk (parse_one conv blob p head_ofs f) (\<lambda>r. case r of
       None \<Rightarrow> Inr None
     | Some (v, h, p) \<Rightarrow>
         chk (parse_list conv blob p h fs) (\<lambda>vs.
           Inr (map_option (\<lambda>vs. case v of None \<Rightarrow> vs | Some v \<Rightarrow> v # vs) vs)))"

definition msrpc_parse :: "conv_env \<Rightarrow> bytes \<Rightarrow> bytes \<Rightarrow> parse_arg list \<Rightarrow> parse_val list option res" where
  "msrpc_parse conv p blob format = parse_list conv blob p 0 format"

end
