(* ===== verification/Ntlmssp_Props.thy ===== *)
theory Ntlmssp_Props
  imports Ntlmssp_Parse Charcnv_Props
begin

text \<open>
  The parser of NTLMSSP messages stays in the message on any input, and it reads what the
  generator wrote.
\<close>

section \<open>The parser stays in the message\<close>

definition env_ok :: "conv_env \<Rightarrow> bool" where
  "env_ok conv \<longleftrightarrow> (\<forall>from to cd. conv from to = Some cd \<longrightarrow> descriptor_ok cd)"

lemma iconv_run_total: "descriptor_ok cd \<Longrightarrow> \<exists>r k out. iconv_run cd inp n = Inr (r, drop k inp, out) \<and> length out \<le> n"
  using descriptor_total [of cd inp n] by (auto simp: iconv_run_def)

lemma convert_string_total:
  "env_ok conv \<Longrightarrow> \<exists>ret dest'. convert_string conv from to src dest = Inr (ret, dest')"
  using iconv_run_total [of _ src "length dest"]
  by (fastforce simp: convert_string_def env_ok_def Let_def split: option.splits)

lemma chk_pair_total: "\<exists>a b. m = Inr (a, b) \<Longrightarrow> \<exists>n p. chk m (\<lambda>(a, b). Inr (f a b, g a b)) = Inr (n, p)"
  by auto

lemma pull_string_total:
  assumes "env_ok conv" and "kind = STR_ASCII \<or> kind = STR_UNICODE"
  shows "\<exists>n p'. pull_string conv addr_odd src p (kind OR fl) = Inr (n, p')"
proof -
  have k: "(STR_ASCII OR fl) AND STR_ASCII \<noteq> 0" "(STR_UNICODE OR fl) AND STR_UNICODE \<noteq> 0"
    unfolding STR_ASCII_def STR_UNICODE_def by (simp_all add: bit.conj_disj_distrib2 or_eq_0_iff)
  have c: "\<exists>ret dest'. convert_string conv a b s p = Inr (ret, dest')" for a b s
    by (rule convert_string_total [OF assms(1)])
  then have a: "\<exists>n p'. pull_ascii conv src p f = Inr (n, p')" for f
    unfolding pull_ascii_def Let_def by (intro chk_pair_total)
  from c have u: "\<exists>n p'. pull_ucs2 conv addr_odd src p f = Inr (n, p')" for f
    unfolding pull_ucs2_def Let_def by (intro chk_pair_total)
  show ?thesis using assms(2) a u k by (auto simp: pull_string_def)
qed

lemma good_field:
  assumes "\<not> bad_field blob len1 len2 ptr"
  shows "unat ptr + unat len1 \<le> length blob"
proof -
  have "\<not> ptr + ucast len1 < ptr" "unat (ptr + ucast len1) \<le> length blob" using assms by (simp_all add: bad_field_def)
  moreover from this(1) have "unat ptr + unat (ucast len1 :: u32) < 2 ^ 32"
    using no_olen_add_nat [of ptr "ucast len1"] by (simp add: not_less)
  moreover from this have "unat (ptr + ucast len1) = unat ptr + unat (ucast len1 :: u32)" by (simp add: unat_add_small)
  moreover have "unat (ucast len1 :: u32) = unat len1"
    using unsigned_less [of len1, where 'a = nat] by (simp add: unsigned_ucast_eq [of len1, where 'a = nat] take_bit_nat_eq_self)
  ultimately show ?thesis by simp
qed

lemma read_field_total: "\<exists>r. read_field blob h = Inr r"
  using SVAL_in_bounds [of h blob] SVAL_in_bounds [of "h + 2" blob] IVAL_in_bounds [of "h + 4" blob]
  by (fastforce simp: read_field_def)

lemma get_bytes_ok: "pos + n \<le> length buf \<Longrightarrow> get_bytes buf pos n = Inr (take n (drop pos buf))"
  by (simp add: get_bytes_def)

lemma parse_chars_total:
  assumes "env_ok conv" and "kind = STR_ASCII \<or> kind = STR_UNICODE"
  shows "\<exists>r. parse_chars conv blob p h kind = Inr r"
proof -
  obtain f where f: "read_field blob h = Inr f" using read_field_total by blast
  show ?thesis
  proof (cases f)
    case None
    with f show ?thesis by (simp add: parse_chars_def)
  next
    case (Some x)
    obtain len1 len2 ptr where x: "x = (len1, len2, ptr)" by (cases x)
    obtain n p' where "pull_string conv False (take (unat len1) (drop (unat ptr) blob)) p (kind OR STR_NOALIGN) = Inr (n, p')"
      using pull_string_total [OF assms] by blast
    with f Some x good_field [of blob len1 len2 ptr] show ?thesis
      by (simp add: parse_chars_def get_bytes_ok)
  qed
qed

lemma parse_one_total:
  assumes "env_ok conv"
  shows "\<exists>r. parse_one conv blob p h f = Inr r"
proof (cases f)
  case PU
  with parse_chars_total [OF assms, of STR_UNICODE blob p h] show ?thesis by auto
next
  case PA
  with parse_chars_total [OF assms, of STR_ASCII blob p h] show ?thesis by auto
next
  case PB
  obtain f where "read_field blob h = Inr f" using read_field_total by blast
  with PB show ?thesis by (cases f) (auto simp: get_bytes_ok good_field)
next
  case (Pb n)
  then show ?thesis by (auto simp: Let_def get_bytes_ok)
next
  case Pd
  with IVAL_in_bounds [of h blob] show ?thesis by fastforce
next
  case (PC s)
  show ?thesis
  proof (cases "h > length blob")
    case False
    obtain n p' where "pull_string conv False (drop h blob) p (STR_ASCII OR STR_TERMINATE) = Inr (n, p')"
      using pull_string_total [OF assms] by blast
    with PC False show ?thesis by (simp add: get_bytes_ok)
  qed (use PC in simp)
qed

lemma parse_list_total: "env_ok conv \<Longrightarrow> \<exists>r. parse_list conv blob p h fs = Inr r"
proof (induction fs arbitrary: p h)
  case (Cons f fs)
  obtain r where r: "parse_one conv blob p h f = Inr r" using parse_one_total [OF Cons.prems] by blast
  show ?case
  proof (cases r)
    case None
    with r show ?thesis by simp
  next
    case (Some x)
    obtain v h' p' where x: "x = (v, h', p')" by (cases x)
    obtain r' where "parse_list conv blob p' h' fs = Inr r'" using Cons by blast
    with r Some x show ?thesis by simp
  qed
qed simp



section \<open>Strings through the conversions\<close>

text \<open>The descriptors of a program whose own charset is UTF-8 and whose DOS charset is ASCII.\<close>

definition utf8_ascii_env :: "conv_env \<Rightarrow> bool" where
  "utf8_ascii_env conv \<longleftrightarrow>
     conv CH_UNIX CH_UTF16 = Some (Direct utf8_pull) \<and> conv CH_UTF16 CH_UNIX = Some (Direct utf8_push) \<and>
     conv CH_UNIX CH_DOS = Some (Via utf8_pull ascii_push) \<and> conv CH_DOS CH_UNIX = Some (Via ascii_pull utf8_push)"

text \<open>A string that is well-formed UTF-8 and, with its terminator, fits a \<open>pstring\<close>; its UTF-16 form.\<close>

definition utf8_text :: "bytes \<Rightarrow> bytes \<Rightarrow> bool" where
  "utf8_text s uc \<longleftrightarrow> utf8_push uc PSTRING_LEN = (Inr 0, [], s) \<and> 0 \<notin> set s \<and> length s < PSTRING_LEN"

definition ascii_text :: "bytes \<Rightarrow> bool" where
  "ascii_text s \<longleftrightarrow> (\<forall>c \<in> set s. c AND 0x80 = 0 \<and> c \<noteq> 0) \<and> length s < PSTRING_LEN"

lemma even_utf16: "utf16_ok uc \<Longrightarrow> even (length uc)"
  by (induction uc rule: utf16_ok.induct) (auto split: if_split_asm list.split_asm)

lemma utf8_textD:
  assumes "utf8_text s uc"
  shows "even (length uc)" "length uc \<le> 2 * length s" "length uc < 2048"
    "length uc + 2 \<le> m \<Longrightarrow> utf8_pull (s @ [0]) m = (Inr 0, [], uc @ [0, 0])"
proof -
  have push: "utf8_push_loop uc PSTRING_LEN [] = (Inr 0, [], s)" using assms by (simp add: utf8_text_def utf8_push_def)
  from even_utf16 [OF push_only [OF push]] show "even (length uc)" .
  have le: "length uc \<le> 2 * length s" and pulls: "\<And>m out z. length uc \<le> m \<Longrightarrow> utf8_pull_loop (s @ z) m out = utf8_pull_loop z (m - length uc) (out @ uc)"
    using utf8_push_pull [OF push] unfolding pulls_back_def by auto
  from le show "length uc \<le> 2 * length s" .
  from le assms show "length uc < 2048" by (simp add: utf8_text_def PSTRING_LEN_def)
  show "utf8_pull (s @ [0]) m = (Inr 0, [], uc @ [0, 0])" if "length uc + 2 \<le> m"
  proof -
    have "utf8_pull_loop [0] (m - length uc) uc = utf8_pull_loop [] (m - length uc - 2) (uc @ [0, 0])"
      using that by (intro pull_one) simp_all
    also have "\<dots> = (Inr 0, [], uc @ [0, 0])" by (subst utf8_pull_loop.simps) simp
    finally show ?thesis using pulls [of m "[0]" "[]"] that by (simp add: utf8_pull_def)
  qed
qed

lemma convert_talloc_once:
  assumes "iconv_run cd src (length src * 3) = Inr (Inr k, [], out)" and "length src \<le> 2048"
  shows "convert_talloc_loop cd src (length src) = Inr (Some out)"
  using assms by (subst convert_talloc_loop.simps) (simp add: MAX_TALLOC_SIZE_def)

lemma push_ucs2_talloc_utf8:
  assumes "utf8_ascii_env conv" and s: "utf8_text s uc"
  shows "push_ucs2_talloc conv s = Inr (Some (uc @ [0, 0]))"
proof -
  have "utf8_pull (s @ [0]) (length (s @ [0]) * 3) = (Inr 0, [], uc @ [0, 0])"
    using utf8_textD(2) [OF s] by (intro utf8_textD(4) [OF s]) simp
  then have "convert_talloc_loop (Direct utf8_pull) (s @ [0]) (length (s @ [0])) = Inr (Some (uc @ [0, 0]))"
    using s by (intro convert_talloc_once) (simp_all add: utf8_text_def PSTRING_LEN_def)
  with assms show ?thesis by (simp add: push_ucs2_talloc_def convert_string_talloc_def utf8_ascii_env_def)
qed

text \<open>7-bit strings, as UTF-16 every second byte 0.\<close>

fun widen :: "bytes \<Rightarrow> bytes" where
  "widen [] = []"
| "widen (c # cs) = c # 0 # widen cs"

lemma length_widen [simp]: "length (widen s) = 2 * length s"
  by (induction s) simp_all

lemma utf8_pull_7bit: "\<forall>c \<in> set s. c AND 0x80 = 0 \<Longrightarrow> 2 * length s \<le> m \<Longrightarrow> utf8_pull_loop s m out = (Inr 0, [], out @ widen s)"
proof (induction s arbitrary: m out)
  case Nil
  then show ?case by (subst utf8_pull_loop.simps) simp
next
  case (Cons c s)
  then show ?case by (simp add: pull_one)
qed

lemma utf8_push_7bit: "\<forall>c \<in> set s. c AND 0x80 = 0 \<Longrightarrow> length s \<le> n \<Longrightarrow> utf8_push_loop (widen s) n out = (Inr 0, [], out @ s)"
proof (induction s arbitrary: n out)
  case Nil
  then show ?case by (subst utf8_push_loop.simps) simp
next
  case (Cons c s)
  then have "utf8_push_loop (widen s) (n - 1) (out @ [c]) = (Inr 0, [], (out @ [c]) @ s)" by (intro Cons.IH) auto
  with Cons.prems show ?case by (subst utf8_push_loop.simps) simp
qed

lemma ascii_pull_widen: "2 * length s \<le> n \<Longrightarrow> ascii_pull_loop s n out = (Inr 0, [], out @ widen s)"
proof (induction s arbitrary: n out)
  case (Cons c s)
  then obtain m where "n = Suc (Suc m)" by (cases n; cases "n - 1") auto
  with Cons show ?case by simp
qed simp

lemma and_7F: "(c :: u8) AND 0x80 = 0 \<Longrightarrow> c AND 0x7F = c"
  unfolding u8_eq by (auto simp: bit_simps)

lemma ascii_push_widen:
  "\<forall>c \<in> set s. c AND 0x80 = 0 \<Longrightarrow> length s \<le> n \<Longrightarrow> ascii_push_loop (widen s) n out k = (Inr k, [], out @ s)"
proof (induction s arbitrary: n out)
  case (Cons c s)
  then obtain m where "n = Suc m" by (cases n) auto
  with Cons show ?case by (simp add: and_7F)
qed simp

lemma via_7bit:
  assumes "\<forall>c \<in> set s. c AND 0x80 = 0" and "length s \<le> 1024" and "length s \<le> n"
  shows "iconv_run (Via utf8_pull ascii_push) s n = Inr (Inr 0, [], s)"
    and "iconv_run (Via ascii_pull utf8_push) s n = Inr (Inr 0, [], s)"
proof -
  have nil: "smb_iconv_loop pull push [] m out = Some (Inr 0, [], out)" for pull push m out
    by (subst smb_iconv_loop.simps) simp
  show "iconv_run (Via utf8_pull ascii_push) s n = Inr (Inr 0, [], s)"
    using utf8_pull_7bit [OF assms(1), of 2048 "[]"] ascii_push_widen [OF assms(1,3), of "[]" 0] assms(2)
    by (simp add: iconv_run_def smb_iconv_def smb_iconv_loop.simps [of _ _ s] nil utf8_pull_def ascii_push_def)
  show "iconv_run (Via ascii_pull utf8_push) s n = Inr (Inr 0, [], s)"
    using ascii_pull_widen [of s 2048 "[]"] utf8_push_7bit [OF assms(1,3), of "[]"] assms(2)
    by (simp add: iconv_run_def smb_iconv_def smb_iconv_loop.simps [of _ _ s] nil ascii_pull_def utf8_push_def)
qed

lemma push_ascii_talloc_7bit:
  assumes "utf8_ascii_env conv" and s: "ascii_text s"
  shows "push_ascii_talloc conv s = Inr (Some (s @ [0]))"
proof -
  have "iconv_run (Via utf8_pull ascii_push) (s @ [0]) (length (s @ [0]) * 3) = Inr (Inr 0, [], s @ [0])"
    using s by (intro via_7bit(1)) (auto simp: ascii_text_def PSTRING_LEN_def)
  then have "convert_talloc_loop (Via utf8_pull ascii_push) (s @ [0]) (length (s @ [0])) = Inr (Some (s @ [0]))"
    using s by (intro convert_talloc_once) (simp_all add: ascii_text_def PSTRING_LEN_def)
  with assms show ?thesis by (simp add: push_ascii_talloc_def convert_string_talloc_def utf8_ascii_env_def)
qed

text \<open>The string left in the buffer.\<close>

lemma c_string_terminated:
  assumes "0 \<notin> set s" and "length s < length p"
  shows "c_string (terminate_at (int (length s)) (overwrite s p)) = s"
    and "length s + 1 \<le> length p \<Longrightarrow> c_string (terminate_at (int (length s) + 1) (overwrite (s @ [0]) p)) = s"
proof -
  have tw: "takeWhile (\<lambda>b. b \<noteq> 0) (s @ 0 # r) = s" for r using assms(1) by (subst takeWhile_append2) auto
  have "(s @ drop (length s) p)[length s := 0] = s @ 0 # drop (Suc (length s)) p"
    using assms(2) by (simp add: list_update_append Cons_nth_drop_Suc [symmetric])
  moreover have "overwrite s p \<noteq> []" "min (nat (int (length s))) (length (overwrite s p) - 1) = length s" using assms(2) by (auto simp: overwrite_def)
  ultimately show "c_string (terminate_at (int (length s)) (overwrite s p)) = s"
    using assms(2) tw by (simp add: c_string_def terminate_at_def overwrite_def)
  have "\<exists>r. terminate_at (int (length s) + 1) (overwrite (s @ [0]) p) = s @ 0 # r"
  proof -
    have "\<exists>r. (s @ 0 # r0)[i := 0] = s @ 0 # r" if "length s \<le> i" for i r0
      using that by (cases "i - length s") (auto simp: list_update_append)
    moreover have "length s \<le> min (Suc (length s)) (length s + (length p - length s) - 1)" using assms(2) by simp
    ultimately show ?thesis using assms(2) by (auto simp: terminate_at_def overwrite_def nat_add_distrib)
  qed
  with tw show "c_string (terminate_at (int (length s) + 1) (overwrite (s @ [0]) p)) = s" by (auto simp: c_string_def)
qed

section \<open>The layout of a message\<close>

fun head_bytes :: "nat \<Rightarrow> gen_arg \<times> bytes \<Rightarrow> bytes" where
  "head_bytes d (GU s, p) = le16 (word_of_nat (length p)) @ le16 (word_of_nat (length p)) @ le32 (word_of_nat d)"
| "head_bytes d (GA s, p) = le16 (word_of_nat (length p)) @ le16 (word_of_nat (length p)) @ le32 (word_of_nat d)"
| "head_bytes d (GB b, p) = le16 (word_of_nat (length p)) @ le16 (word_of_nat (length p)) @ le32 (word_of_nat d)"
| "head_bytes d (Ga n s, p) = []"
| "head_bytes d (Gb b, p) = p"
| "head_bytes d (Gd n, p) = le32 n"
| "head_bytes d (GC s, p) = p"

fun data_bytes :: "gen_arg \<times> bytes \<Rightarrow> bytes" where
  "data_bytes (GU s, p) = p"
| "data_bytes (GA s, p) = p"
| "data_bytes (GB b, p) = p"
| "data_bytes (Ga n s, p) = le16 (ucast n) @ le16 (word_of_nat (length p)) @ p"
| "data_bytes (Gb b, p) = []"
| "data_bytes (Gd n, p) = []"
| "data_bytes (GC s, p) = []"

fun heads :: "nat \<Rightarrow> (gen_arg \<times> bytes) list \<Rightarrow> bytes" where
  "heads d [] = []"
| "heads d (a # as) = head_bytes d a @ heads (d + data_size a) as"

definition datas :: "(gen_arg \<times> bytes) list \<Rightarrow> bytes" where
  "datas as = concat (map data_bytes as)"

lemma length_head_bytes [simp]: "length (head_bytes d a) = head_size a"
  by (induction d a rule: head_bytes.induct) simp_all

lemma length_data_bytes [simp]: "length (data_bytes a) = data_size a"
  by (induction a rule: data_bytes.induct) simp_all

lemma length_heads [simp]: "length (heads d as) = sum_list (map head_size as)"
  by (induction as arbitrary: d) simp_all

lemma length_datas [simp]: "length (datas as) = sum_list (map data_size as)"
  by (induction as) (simp_all add: datas_def)

lemma put_at:
  "pos = length A \<Longrightarrow> length bs \<le> length X \<Longrightarrow> put_bytes (A @ X @ R) pos bs = Inr (A @ bs @ drop (length bs) X @ R)"
  by (cases "bs = []") (auto simp: put_bytes_def)

lemma write_field_layout:
  assumes "8 \<le> length X" and "length p \<le> length Y" and d: "d = length A + length X + length B"
  shows "write_field (A @ X @ B @ Y @ C) (length A) d p =
    Inr (A @ (le16 (word_of_nat (length p)) @ le16 (word_of_nat (length p)) @ le32 (word_of_nat d)) @ drop 8 X @ B @ p @ drop (length p) Y @ C,
         length A + 8, d + length p)"
proof -
  let ?n = "le16 (word_of_nat (length p))"
  let ?h = "?n @ ?n @ le32 (word_of_nat d)"
  have n: "(ucast (word_of_nat (length p) :: u32) :: u16) = word_of_nat (length p)"
    by (rule bit_word_eqI) (simp add: bit_simps)
  have s1: "SSVAL (A @ X @ B @ Y @ C) (length A) (word_of_nat (length p)) = Inr (A @ ?n @ drop 2 X @ B @ Y @ C)"
    using assms(1) put_at [of "length A" A ?n X "B @ Y @ C"] by (simp add: SSVAL_def n)
  have s2: "SSVAL (A @ ?n @ drop 2 X @ B @ Y @ C) (length A + 2) (word_of_nat (length p)) = Inr (A @ ?n @ ?n @ drop 4 X @ B @ Y @ C)"
    using assms(1) put_at [of "length A + 2" "A @ ?n" ?n "drop 2 X" "B @ Y @ C"] by (simp add: SSVAL_def n)
  have s3: "SIVAL (A @ ?n @ ?n @ drop 4 X @ B @ Y @ C) (length A + 4) (word_of_nat d) = Inr (A @ ?h @ drop 8 X @ B @ Y @ C)"
    using assms(1) put_at [of "length A + 4" "A @ ?n @ ?n" "le32 (word_of_nat d)" "drop 4 X" "B @ Y @ C"] by (simp add: SIVAL_def)
  have s4: "put_bytes (A @ ?h @ drop 8 X @ B @ Y @ C) d p = Inr (A @ ?h @ drop 8 X @ B @ p @ drop (length p) Y @ C)"
  proof -
    have "d = length (A @ ?h @ drop 8 X @ B)" using assms by simp
    from put_at [OF this assms(2), of C] show ?thesis by (simp only: append_assoc)
  qed
  show ?thesis unfolding write_field_def s1 chk_Inr s2 s3 s4 ..
qed

lemma gen_write_layout:
  assumes "head_size a \<le> length X" and "data_size a \<le> length Y" and d: "d = length A + length X + length B"
  shows "gen_write (A @ X @ B @ Y @ C) (length A) d a =
    Inr (A @ head_bytes d a @ drop (head_size a) X @ B @ data_bytes a @ drop (data_size a) Y @ C,
         length A + head_size a, d + data_size a)"
proof -
  obtain arg p where a: "a = (arg, p)" by (cases a)
  show ?thesis
  proof (cases arg)
    case (Ga n s)
    let ?l = "le16 (word_of_nat (length p)) :: bytes"
    have n: "(ucast (word_of_nat (length p) :: u32) :: u16) = word_of_nat (length p)"
      by (rule bit_word_eqI) (simp add: bit_simps)
    have s1: "SSVAL (A @ X @ B @ Y @ C) d n = Inr (A @ X @ B @ le16 (ucast n) @ drop 2 Y @ C)"
      using assms Ga a put_at [of d "A @ X @ B" "le16 (ucast n)" Y C] by (simp add: SSVAL_def)
    have s2: "SSVAL (A @ X @ B @ le16 (ucast n) @ drop 2 Y @ C) (d + 2) (word_of_nat (length p)) = Inr (A @ X @ B @ le16 (ucast n) @ ?l @ drop 4 Y @ C)"
      using assms Ga a put_at [of "d + 2" "A @ X @ B @ le16 (ucast n)" ?l "drop 2 Y" C] by (simp add: SSVAL_def n)
    have s3: "put_bytes (A @ X @ B @ le16 (ucast n) @ ?l @ drop 4 Y @ C) (d + 4) p = Inr (A @ X @ B @ (le16 (ucast n) @ ?l @ p) @ drop (length p + 4) Y @ C)"
      using assms Ga a put_at [of "d + 4" "A @ X @ B @ le16 (ucast n) @ ?l" p "drop 4 Y" C] by simp
    show ?thesis unfolding a Ga gen_write.simps s1 chk_Inr s2 s3 by (simp add: ac_simps)
  next
    case (Gd n)
    with assms a put_at [of "length A" A "le32 n" X "B @ Y @ C"] show ?thesis by (simp add: SIVAL_def)
  qed (use assms a in \<open>simp_all add: write_field_layout put_at\<close>)
qed

lemma gen_writes_layout:
  "length X = sum_list (map head_size as) \<Longrightarrow> length Y = sum_list (map data_size as) \<Longrightarrow> d = length A + length X + length B \<Longrightarrow>
   gen_writes (A @ X @ B @ Y @ C) (length A) d as = Inr (A @ heads d as @ B @ datas as @ C)"
proof (induction as arbitrary: A X B Y d)
  case Nil
  then show ?case by (simp add: datas_def)
next
  case (Cons a as)
  let ?A = "A @ head_bytes d a" and ?B = "B @ data_bytes a"
  have "gen_write (A @ X @ B @ Y @ C) (length A) d a =
      Inr (?A @ drop (head_size a) X @ ?B @ drop (data_size a) Y @ C, length ?A, d + data_size a)"
    using Cons.prems by (subst gen_write_layout) simp_all
  moreover have "gen_writes (?A @ drop (head_size a) X @ ?B @ drop (data_size a) Y @ C) (length ?A) (d + data_size a) as =
      Inr (?A @ heads (d + data_size a) as @ ?B @ datas as @ C)"
    using Cons.prems by (intro Cons.IH) simp_all
  ultimately show ?case by (simp add: datas_def)
qed

section \<open>Reading a message back\<close>

definition holds_at :: "bytes \<Rightarrow> nat \<Rightarrow> bytes \<Rightarrow> bool" where
  "holds_at blob pos bs \<longleftrightarrow> pos + length bs \<le> length blob \<and> take (length bs) (drop pos blob) = bs"

lemma holds_at_append: "holds_at blob pos (a @ b) \<longleftrightarrow> holds_at blob pos a \<and> holds_at blob (pos + length a) b"
  by (auto simp: holds_at_def take_add append_eq_append_conv ac_simps)

lemma ucast_u16 [simp]: "(ucast (ucast (n :: u16) :: u32) :: u16) = n"
  by (rule bit_word_eqI) (simp add: bit_simps)

lemma read_field_at:
  assumes "holds_at blob h (le16 n @ le16 m @ le32 d)"
  shows "read_field blob h = Inr (Some (n, m, d))"
proof -
  from assms have f: "h + 8 \<le> length blob" "take 2 (drop h blob) = le16 n" "take 2 (drop (h + 2) blob) = le16 m" "take 4 (drop (h + 4) blob) = le32 d"
    unfolding holds_at_append by (auto simp: holds_at_def ac_simps simp del: add_2_eq_Suc add_2_eq_Suc')
  show ?thesis
    unfolding read_field_def SVAL_at [OF f(2)] SVAL_at [OF f(3)] IVAL_at [OF f(4)] using f(1) by simp
qed

lemma not_bad_field:
  assumes "d + n \<le> length blob" and "length blob < 2 ^ 32" and "n < 65536"
  shows "\<not> bad_field blob (word_of_nat n) (word_of_nat n) (word_of_nat d)"
    and "unat (word_of_nat d :: u32) = d" and "unat (word_of_nat n :: u16) = n"
proof -
  show d: "unat (word_of_nat d :: u32) = d" using assms by (simp add: unsigned_of_nat take_bit_nat_eq_self)
  show n16: "unat (word_of_nat n :: u16) = n" using assms by (simp add: unsigned_of_nat take_bit_nat_eq_self)
  have "unat (ucast (word_of_nat n :: u16) :: u32) = unat (word_of_nat n :: u16)"
    using unsigned_less [of "word_of_nat n :: u16", where 'a = nat]
    by (simp add: unsigned_ucast_eq [of "word_of_nat n :: u16", where 'a = nat] take_bit_nat_eq_self)
  then have n: "unat (ucast (word_of_nat n :: u16) :: u32) = n" using n16 by simp
  then have "unat (word_of_nat d + ucast (word_of_nat n :: u16) :: u32) = d + n"
    using assms d by (subst unat_add_small) simp_all
  then show "\<not> bad_field blob (word_of_nat n) (word_of_nat n) (word_of_nat d)"
    using assms d n by (simp add: bad_field_def word_less_nat_alt)
qed

lemma get_bytes_at: "holds_at blob pos bs \<Longrightarrow> get_bytes blob pos (length bs) = Inr bs"
  by (simp add: holds_at_def get_bytes_def)

lemma length_terminated [simp]: "length (terminate_at r p) = length p"
  by (simp add: terminate_at_def)

lemma length_overwrite [simp]: "length s \<le> length p \<Longrightarrow> length (overwrite s p) = length p"
  by (simp add: overwrite_def)

lemmas str_flags = STR_UNICODE_def STR_NOALIGN_def STR_ASCII_def STR_TERMINATE_def STR_TERMINATE_ASCII_def

text \<open>The two ways a string comes back from the message.\<close>

lemma pull_utf8:
  assumes "utf8_ascii_env conv" and s: "utf8_text s uc" and p: "length p = PSTRING_LEN"
  shows "\<exists>n p'. pull_string conv False uc p (STR_UNICODE OR STR_NOALIGN) = Inr (n, p') \<and> c_string p' = s \<and> length p' = length p"
proof -
  have e: "length uc div 2 * 2 = length uc" using utf8_textD(1) [OF s] by simp
  have c: "convert_string conv CH_UTF16 CH_UNIX uc p = Inr (int (length s), overwrite s p)"
    using assms by (simp add: convert_string_def utf8_ascii_env_def utf8_text_def)
  have "length s < length p" "0 \<notin> set s" using s p by (simp_all add: utf8_text_def)
  then show ?thesis
    by (simp add: pull_string_def pull_ucs2_def ucs2_align_def Let_def e c c_string_terminated(1) str_flags)
qed

lemma convert_ascii:
  assumes "utf8_ascii_env conv" and "\<forall>c \<in> set s. c AND 0x80 = 0" and "length s \<le> 1024" and "length s \<le> length p"
  shows "convert_string conv CH_DOS CH_UNIX s p = Inr (int (length s), overwrite s p)"
  using assms(1) via_7bit(2) [OF assms(2-4)] by (simp add: convert_string_def utf8_ascii_env_def)

lemma pull_ascii_text:
  assumes env: "utf8_ascii_env conv" and s: "ascii_text s" and p: "length p = PSTRING_LEN"
  shows "\<exists>n p'. pull_string conv False s p (STR_ASCII OR STR_NOALIGN) = Inr (n, p') \<and> c_string p' = s \<and> length p' = length p"
proof -
  have f: "length s < length p" "0 \<notin> set s" "\<forall>c \<in> set s. c AND 0x80 = 0" "length s \<le> 1024"
    using s p by (auto simp: ascii_text_def PSTRING_LEN_def)
  with convert_ascii [OF env f(3,4), of p] show ?thesis
    by (simp add: pull_string_def pull_ascii_def Let_def c_string_terminated(1) str_flags)
qed

lemma pull_ascii_constant:
  assumes env: "utf8_ascii_env conv" and s: "ascii_text s" and p: "length p = PSTRING_LEN"
  shows "\<exists>p'. pull_string conv False (s @ 0 # r) p (STR_ASCII OR STR_TERMINATE) = Inr (length s + 1, p') \<and> c_string p' = s \<and> length p' = length p"
proof -
  have f: "length s < length p" "0 \<notin> set s" "\<forall>c \<in> set (s @ [0]). c AND 0x80 = 0" "length (s @ [0]) \<le> 1024" "length (s @ [0]) \<le> length p"
    using s p by (auto simp: ascii_text_def PSTRING_LEN_def)
  have "takeWhile (\<lambda>b. b \<noteq> 0) (s @ 0 # r) = s" using f(2) by (subst takeWhile_append2) auto
  then have n: "strnlen (s @ 0 # r) = length s" by (simp add: strnlen_def)
  have "c_string (terminate_at (int (length (s @ [0]))) (overwrite (s @ [0]) p)) = s"
    using c_string_terminated(2) [OF f(2,1)] f(5) by (simp add: add.commute)
  with convert_ascii [OF env f(3-5)] f(1,5) show ?thesis
    by (simp add: pull_string_def pull_ascii_def Let_def n str_flags)
qed

text \<open>What the arguments of the generator have to be, with the blob that goes into the message.\<close>

fun item_ok :: "gen_arg \<times> bytes \<Rightarrow> bool" where
  "item_ok (GU s, p) = utf8_text s p"
| "item_ok (GA s, p) = (ascii_text s \<and> p = s)"
| "item_ok (Ga n s, p) = utf8_text s p"
| "item_ok (GB b, p) = (p = b \<and> length b < 65536)"
| "item_ok (Gb b, p) = (p = b \<and> length b < 65536)"
| "item_ok (Gd n, p) = (p = [])"
| "item_ok (GC s, p) = (ascii_text s \<and> p = s @ [0])"

text \<open>The specifier that reads an argument back, and its result. The parser has no \<open>a\<close>.\<close>

fun fmt_of :: "gen_arg \<Rightarrow> parse_arg list" where
  "fmt_of (GU s) = [PU]"
| "fmt_of (GA s) = [PA]"
| "fmt_of (Ga n s) = []"
| "fmt_of (GB b) = [PB]"
| "fmt_of (Gb b) = [Pb (word_of_nat (length b))]"
| "fmt_of (Gd n) = [Pd]"
| "fmt_of (GC s) = [PC s]"

fun val_of :: "gen_arg \<Rightarrow> parse_val list" where
  "val_of (GU s) = [VS s]"
| "val_of (GA s) = [VS s]"
| "val_of (Ga n s) = []"
| "val_of (GB b) = [VB b]"
| "val_of (Gb b) = [VB b]"
| "val_of (Gd n) = [VD n]"
| "val_of (GC s) = []"

lemma gen_pointer_ok: "utf8_ascii_env conv \<Longrightarrow> item_ok (a, p) \<Longrightarrow> gen_pointer conv a = Inr (Some p)"
  by (cases a) (simp_all add: push_ucs2_talloc_utf8 push_ascii_talloc_7bit chop_def)

lemma gen_pointers_ok:
  "utf8_ascii_env conv \<Longrightarrow> list_all item_ok ps \<Longrightarrow> gen_pointers conv (map fst ps) = Inr (Some ps)"
  by (induction ps) (auto simp: gen_pointer_ok)

definition next_item :: "conv_env \<Rightarrow> bytes \<Rightarrow> bytes \<Rightarrow> nat \<Rightarrow> gen_arg \<times> bytes \<Rightarrow> bool" where
  "next_item conv blob p h a \<longleftrightarrow>
     (\<exists>p'. length p' = length p \<and>
       (\<forall>fs. parse_list conv blob p h (fmt_of (fst a) @ fs) =
         chk (parse_list conv blob p' (h + head_size a) fs) (\<lambda>vs. Inr (map_option (\<lambda>vs. val_of (fst a) @ vs) vs))))"

lemma next_itemI:
  assumes "parse_one conv blob p h f = Inr (Some (v, h + head_size a, p'))" and "length p' = length p"
    and "fmt_of (fst a) = [f]" and "val_of (fst a) = (case v of None \<Rightarrow> [] | Some v \<Rightarrow> [v])"
  shows "next_item conv blob p h a"
proof -
  have "(@) [] = (\<lambda>x :: parse_val list. x)" "(@) [w] = (#) (w :: parse_val)" for w by (simp_all add: fun_eq_iff)
  with assms show ?thesis
    unfolding next_item_def by (intro exI [of _ p']) (cases v; simp)
qed

lemma parse_chars_at:
  assumes h: "holds_at blob h (le16 (word_of_nat (length q)) @ le16 (word_of_nat (length q)) @ le32 (word_of_nat d))"
    and d: "holds_at blob d q" and b: "length blob < 2 ^ 32" and n: "length q < 65536"
    and ev: "kind = STR_UNICODE \<Longrightarrow> even (length q)" and empty: "q = [] \<Longrightarrow> s = []"
    and pull: "\<exists>n p'. pull_string conv False q p (kind OR STR_NOALIGN) = Inr (n, p') \<and> c_string p' = s \<and> length p' = length p"
  shows "\<exists>p'. parse_chars conv blob p h kind = Inr (Some (VS s, h + 8, p')) \<and> length p' = length p"
proof (cases "q = []")
  case True
  with read_field_at [OF h] empty show ?thesis by (simp add: parse_chars_def)
next
  case False
  have "d + length q \<le> length blob" using d by (simp add: holds_at_def)
  note good = not_bad_field [OF this b n]
  have nz: "\<not> (word_of_nat (length q) :: u16) = 0" using good(3) False by auto
  then have pos: "(0 :: u16) < word_of_nat (length q)" by (simp add: word_gt_0)
  have odd: "\<not> (kind = STR_UNICODE \<and> (word_of_nat (length q) :: u16) AND 1 \<noteq> 0)"
    using ev good(3) by (auto simp: and_one_eq odd_iff_mod_2_eq_one [symmetric])
  have in_blob: "\<not> length blob < d" using \<open>d + length q \<le> length blob\<close> by simp
  obtain n p' where p': "pull_string conv False q p (kind OR STR_NOALIGN) = Inr (n, p')" "c_string p' = s" "length p' = length p"
    using pull by blast
  show ?thesis
    unfolding parse_chars_def read_field_at [OF h] chk_Inr option.case prod.case
    using good(1) nz pos odd in_blob p' get_bytes_at [OF d] by (simp add: good(2,3))
qed

lemma item_small: "item_ok a \<Longrightarrow> length (snd a) < 65536"
  by (induction a rule: item_ok.induct) (auto simp: ascii_text_def PSTRING_LEN_def dest!: utf8_textD(3))

lemma parse_item:
  assumes env: "utf8_ascii_env conv" and ok: "item_ok a" and p: "length p = PSTRING_LEN" and b: "length blob < 2 ^ 32"
    and h: "holds_at blob h (head_bytes d a)" and d: "holds_at blob d (data_bytes a)"
  shows "next_item conv blob p h a"
proof -
  obtain arg q where a: "a = (arg, q)" by (cases a)
  have n: "length q < 65536" using item_small [OF ok] a by simp
  show ?thesis
  proof (cases arg)
    case (GU s)
    with ok a have s: "utf8_text s q" by simp
    have "q = [] \<Longrightarrow> s = []" using s by (simp add: utf8_text_def utf8_push_def) (simp add: utf8_push_loop.simps)
    with parse_chars_at [OF _ _ b n _ _ pull_utf8 [OF env s p], of h d] utf8_textD(1) [OF s] h d GU a obtain p' where
      "parse_chars conv blob p h STR_UNICODE = Inr (Some (VS s, h + 8, p'))" "length p' = length p" by auto
    with GU a show ?thesis by (intro next_itemI [where v = "Some (VS s)" and p' = p' and f = PU]) simp_all
  next
    case (GA s)
    with ok a have s: "ascii_text s" "q = s" by simp_all
    with parse_chars_at [OF _ _ b _ _ _ pull_ascii_text [OF env s(1) p], of h d] n h d GA a obtain p' where
      "parse_chars conv blob p h STR_ASCII = Inr (Some (VS s, h + 8, p'))" "length p' = length p" by (auto simp: str_flags)
    with GA a show ?thesis by (intro next_itemI [where v = "Some (VS s)" and p' = p' and f = PA]) simp_all
  next
    case (Ga k s)
    with a show ?thesis by (auto simp: next_item_def option.map_ident chk_def intro!: exI [of _ p] split: sum.splits)
  next
    case (GB c)
    with ok a have q: "q = c" by simp
    have le: "d + length q \<le> length blob" using d GB a by (simp add: holds_at_def)
    note good = not_bad_field [OF this b n]
    have "h + 8 \<le> length blob" using h GB a by (simp add: holds_at_def)
    with read_field_at [of blob h] h d GB a q good get_bytes_at [of blob d q] show ?thesis
      by (auto intro!: next_itemI [where v = "Some (VB c)"] simp: unat_eq_0 [symmetric])
  next
    case (Gb c)
    with ok a have q: "q = c" by simp
    have "unat (ucast (word_of_nat (length c) :: u32) :: u16) = length c"
      using n q by (simp add: unsigned_ucast_eq [where 'a = nat] unsigned_of_nat take_bit_nat_eq_self)
    with get_bytes_at [of blob h c] h Gb a q show ?thesis
      by (auto intro!: next_itemI [where v = "Some (VB c)"] simp: holds_at_def Let_def)
  next
    case (Gd k)
    with IVAL_at [of h blob k] h a show ?thesis
      by (auto intro!: next_itemI [where v = "Some (VD k)"] simp: holds_at_def)
  next
    case (GC s)
    with ok a have s: "ascii_text s" "q = s @ [0]" by simp_all
    have "drop h blob = q @ drop (h + length q) blob" and le: "h + length q \<le> length blob"
      using h GC a by (auto simp: holds_at_def) (metis append_take_drop_id drop_drop add.commute)
    then have "take (length blob - h) (drop h blob) = s @ 0 # drop (h + length q) blob" using s by simp
    with pull_ascii_constant [OF env s(1) p, of "drop (h + length q) blob"] le GC a s show ?thesis
      by (auto intro!: next_itemI [where v = None] simp: get_bytes_ok)
  qed
qed

lemma parse_items:
  assumes env: "utf8_ascii_env conv" and b: "length blob < 2 ^ 32"
  shows "list_all item_ok as \<Longrightarrow> length p = PSTRING_LEN \<Longrightarrow> holds_at blob h (heads d as) \<Longrightarrow> holds_at blob d (datas as) \<Longrightarrow>
    parse_list conv blob p h (concat (map (\<lambda>a. fmt_of (fst a)) as)) = Inr (Some (concat (map (\<lambda>a. val_of (fst a)) as)))"
proof (induction as arbitrary: p h d)
  case (Cons a as)
  have h: "holds_at blob h (head_bytes d a)" "holds_at blob (h + head_size a) (heads (d + data_size a) as)"
    and d: "holds_at blob d (data_bytes a)" "holds_at blob (d + data_size a) (datas as)"
    using Cons.prems(3,4) by (simp_all add: holds_at_append datas_def)
  from parse_item [OF env _ Cons.prems(2) b h(1) d(1)] Cons.prems(1) obtain p' where
    "length p' = length p" and step: "\<And>fs. parse_list conv blob p h (fmt_of (fst a) @ fs) =
      chk (parse_list conv blob p' (h + head_size a) fs) (\<lambda>vs. Inr (map_option (\<lambda>vs. val_of (fst a) @ vs) vs))"
    unfolding next_item_def by auto
  with Cons.IH [of p' "h + head_size a" "d + data_size a"] Cons.prems(1,2) h(2) d(2) show ?case by simp
qed simp

text \<open>The message as a whole: heads and data; a parser with the format of its first items reads these items.\<close>

lemma msrpc_gen_layout:
  assumes env: "utf8_ascii_env conv" and ok: "list_all item_ok ps" and alloc: "\<forall>n. length (alloc n) = n"
    and small: "sum_list (map head_size ps) + sum_list (map data_size ps) < MAX_TALLOC_SIZE"
  shows "msrpc_gen alloc conv (map fst ps) = Inr (Some (heads (sum_list (map head_size ps)) ps @ datas ps))"
proof -
  let ?h = "sum_list (map head_size ps)" and ?d = "sum_list (map data_size ps)"
  let ?m = "alloc (?h + ?d)"
  have "gen_writes ?m 0 ?h ps = Inr (heads ?h ps @ datas ps)"
    using gen_writes_layout [of "take ?h ?m" ps "drop ?h ?m" ?h "[]" "[]" "[]"] alloc by simp
  then show ?thesis using gen_pointers_ok [OF env ok] small by (simp add: msrpc_gen_def Let_def)
qed

lemma msrpc_parse_items:
  assumes "utf8_ascii_env conv" "list_all item_ok qs" "length p = PSTRING_LEN" "length blob < 2 ^ 32"
    and "holds_at blob 0 (heads d qs)" "holds_at blob d (datas qs)"
  shows "msrpc_parse conv p blob (concat (map (\<lambda>a. fmt_of (fst a)) qs)) = Inr (Some (concat (map (\<lambda>a. val_of (fst a)) qs)))"
  unfolding msrpc_parse_def using assms by (intro parse_items [where d = d])

text \<open>
  C18. A message that \<open>msrpc_gen\<close> makes is read back by \<open>msrpc_parse\<close> with the corresponding
  format: it accepts the message and gives every string, blob and number as it went in,
  whatever memory the message and the string buffer of the parser had before. The strings are
  well-formed UTF-8 or ASCII of at most 1023 bytes, the blobs shorter than 64 KB, the message
  smaller than what talloc gives.
\<close>

theorem msrpc_roundtrip:
  assumes env: "utf8_ascii_env conv" and ok: "list_all item_ok ps" and alloc: "\<forall>n. length (alloc n) = n"
    and small: "sum_list (map head_size ps) + sum_list (map data_size ps) < MAX_TALLOC_SIZE" and p: "length p = PSTRING_LEN"
  shows "\<exists>blob. msrpc_gen alloc conv (map fst ps) = Inr (Some blob) \<and>
    msrpc_parse conv p blob (concat (map (\<lambda>a. fmt_of (fst a)) ps)) = Inr (Some (concat (map (\<lambda>a. val_of (fst a)) ps)))"
proof -
  let ?h = "sum_list (map head_size ps)"
  let ?blob = "heads ?h ps @ datas ps"
  have "msrpc_gen alloc conv (map fst ps) = Inr (Some ?blob)" by (rule msrpc_gen_layout [OF env ok alloc small])
  moreover have "msrpc_parse conv p ?blob (concat (map (\<lambda>a. fmt_of (fst a)) ps)) = Inr (Some (concat (map (\<lambda>a. val_of (fst a)) ps)))"
    using small by (intro msrpc_parse_items [OF env ok p, where d = ?h]) (simp_all add: holds_at_def MAX_TALLOC_SIZE_def)
  ultimately show ?thesis by blast
qed

definition demo_env :: conv_env where
  "demo_env from to =
     (if from = CH_UNIX \<and> to = CH_UTF16 then Some (Direct utf8_pull)
      else if from = CH_UTF16 \<and> to = CH_UNIX then Some (Direct utf8_push)
      else if from = CH_UNIX \<and> to = CH_DOS then Some (Via utf8_pull ascii_push)
      else if from = CH_DOS \<and> to = CH_UNIX then Some (Via ascii_pull utf8_push) else None)"

theorem msrpc_roundtrip_witness:
  "\<exists>blob. msrpc_gen (\<lambda>n. replicate n 0xAA) demo_env [GC [0x4E, 0x54], Gd 3, GU [0xC3, 0xA9], GB [1, 2, 3]] = Inr (Some blob) \<and>
    msrpc_parse demo_env (replicate 1024 0x55) blob [PC [0x4E, 0x54], Pd, PU, PB] = Inr (Some [VD 3, VS [0xC3, 0xA9], VB [1, 2, 3]])"
proof -
  have "utf8_push [0xE9, 0] 1024 = (Inr 0, [], [0xC3, 0xA9])" by (simp add: utf8_push_def utf8_push_loop.simps)
  then have "list_all item_ok [(GC [0x4E, 0x54], [0x4E, 0x54, 0]), (Gd 3, []), (GU [0xC3, 0xA9], [0xE9, 0]), (GB [1, 2, 3], [1, 2, 3])]"
    by (simp add: ascii_text_def utf8_text_def PSTRING_LEN_def)
  moreover have "utf8_ascii_env demo_env" by (simp add: utf8_ascii_env_def demo_env_def)
  ultimately show ?thesis
    using msrpc_roundtrip [of demo_env "[(GC [0x4E, 0x54], [0x4E, 0x54, 0]), (Gd 3, []), (GU [0xC3, 0xA9], [0xE9, 0]), (GB [1, 2, 3], [1, 2, 3])]"
        "\<lambda>n. replicate n 0xAA" "replicate 1024 0x55"]
    by (simp add: MAX_TALLOC_SIZE_def PSTRING_LEN_def)
qed

section \<open>A defect\<close>

text \<open>
  When the conversion of a string fails, here on a lone surrogate, the result is taken from the
  buffer all the same: it is what the stack held before.
\<close>

lemma parse_stale_string:
  assumes env: "utf8_ascii_env conv" and p: "length p = PSTRING_LEN"
  shows "\<exists>n p'. pull_string conv False [0, 0xdc] p (STR_UNICODE OR STR_NOALIGN) = Inr (n, p') \<and>
    c_string p' = c_string (take 1023 p @ [0])"
proof -
  have "utf8_push [0, 0xdc] (length p) = (Inl EINVAL, [0, 0xdc], [])"
    using p by (simp add: utf8_push_def utf8_push_loop.simps PSTRING_LEN_def)
  then have "convert_string conv CH_UTF16 CH_UNIX [0, 0xdc] p = Inr (- 1, p)"
    using env by (simp add: convert_string_def utf8_ascii_env_def overwrite_def)
  moreover have "p[1023 := 0] = take 1023 p @ [0]" "p \<noteq> []"
    using p by (auto simp: PSTRING_LEN_def upd_conv_take_nth_drop)
  ultimately show ?thesis
    using p by (simp add: pull_string_def pull_ucs2_def ucs2_align_def Let_def str_flags terminate_at_def PSTRING_LEN_def)
qed

end
