(* ===== verification/Packet.thy ===== *)
theory Packet
  imports Smb_Prelude
begin

text \<open>
  \<open>lib/stream/packet.c\<close>: packets over a stream socket. The context is a record; the callbacks
  the user sets are functions on the whole context, because they may call back into this
  file. The socket is the bytes that have arrived and are not read yet, \<open>sock_in\<close>; the status of
  a call of \<open>socket_pending\<close>, \<open>socket_recv\<close> or \<open>socket_send\<close> and how much a read or write
  moves are parameters. Calls that leave the file are recorded in the
  context: the errors reported, the timed events added, the flags of the file descriptor, the
  send callbacks. Sizes are natural numbers; where a C type wraps, the modulus is written out.
\<close>

definition STATUS_MORE_ENTRIES :: u32 where "STATUS_MORE_ENTRIES = 0x0105"
definition NT_STATUS_END_OF_FILE :: u32 where "NT_STATUS_END_OF_FILE = 0xC0000011"
definition NT_STATUS_CONNECTION_DISCONNECTED :: u32 where "NT_STATUS_CONNECTION_DISCONNECTED = 0xC000020C"

definition NT_STATUS_IS_ERR :: "u32 \<Rightarrow> bool" where "NT_STATUS_IS_ERR x = (x AND 0xc0000000 = 0xc0000000)"

section \<open>The context\<close>

record send_element =
  el_blob :: bytes
  nsent :: nat
  send_callback :: "nat option"

record 'p packet_context =
  priv :: 'p
  partial :: bytes
  num_read :: nat
  initial_read :: nat
  has_sock :: bool
  sock_in :: bytes
  has_ev :: bool
  packet_size :: nat
  serialise :: bool
  processing :: nat
  recv_disable :: bool
  nofree :: bool
  busy :: bool
  destructor_called :: bool
  send_queue :: "send_element list"
  fd_readable :: bool
  fd_writeable :: bool
  timed_events :: nat
  errors :: "u32 list"
  called :: "nat list"
  freed :: bool

record 'p packet_ops =
  full_request :: "'p \<Rightarrow> bytes \<Rightarrow> nat \<Rightarrow> u32 \<times> nat"
  callback :: "'p packet_context \<Rightarrow> bytes \<Rightarrow> 'p packet_context \<times> u32"

text \<open>The answers of the socket during one call of \<open>packet_recv\<close>.\<close>

record sock_io =
  pending_status :: u32
  recv_status :: u32
  recv_max :: nat

definition packet_init :: "'p \<Rightarrow> 'p packet_context" where
  "packet_init p =
     \<lparr>priv = p, partial = [], num_read = 0, initial_read = 0, has_sock = False, sock_in = [], has_ev = False,
      packet_size = 0, serialise = False, processing = 0, recv_disable = False, nofree = False, busy = False,
      destructor_called = False, send_queue = [], fd_readable = False, fd_writeable = False, timed_events = 0,
      errors = [], called = [], freed = False\<rparr>"

definition packet_set_private :: "'p packet_context \<Rightarrow> 'p \<Rightarrow> 'p packet_context" where
  "packet_set_private pc p = pc\<lparr>priv := p\<rparr>"

definition packet_set_socket :: "'p packet_context \<Rightarrow> 'p packet_context" where
  "packet_set_socket pc = pc\<lparr>has_sock := True\<rparr>"

definition packet_set_event_context :: "'p packet_context \<Rightarrow> 'p packet_context" where
  "packet_set_event_context pc = pc\<lparr>has_ev := True\<rparr>"

text \<open>The descriptor's event is created by the caller, who waits for reading.\<close>

definition packet_set_fde :: "'p packet_context \<Rightarrow> 'p packet_context" where
  "packet_set_fde pc = pc\<lparr>fd_readable := True\<rparr>"

definition packet_set_serialise :: "'p packet_context \<Rightarrow> 'p packet_context" where
  "packet_set_serialise pc = pc\<lparr>serialise := True\<rparr>"

definition packet_set_initial_read :: "'p packet_context \<Rightarrow> nat \<Rightarrow> 'p packet_context" where
  "packet_set_initial_read pc n = pc\<lparr>initial_read := n mod 2 ^ 32\<rparr>"

definition packet_set_nofree :: "'p packet_context \<Rightarrow> 'p packet_context" where
  "packet_set_nofree pc = pc\<lparr>nofree := True\<rparr>"

text \<open>The destructor refuses to free a context whose callback is running.\<close>

definition packet_destructor :: "'p packet_context \<Rightarrow> int \<times> 'p packet_context" where
  "packet_destructor pc = (if busy pc then (- 1, pc\<lparr>destructor_called := True\<rparr>) else (0, pc))"

definition packet_free :: "'p packet_context \<Rightarrow> 'p packet_context" where
  "packet_free pc = (case packet_destructor pc of (r, pc) \<Rightarrow> if r = - 1 then pc else pc\<lparr>freed := True\<rparr>)"

text \<open>The error handler, or the default that frees the caller's private pointer, is recorded.\<close>

definition packet_error :: "'p packet_context \<Rightarrow> u32 \<Rightarrow> 'p packet_context" where
  "packet_error pc status = pc\<lparr>has_sock := False, errors := errors pc @ [status]\<rparr>"

definition packet_eof :: "'p packet_context \<Rightarrow> 'p packet_context" where
  "packet_eof pc = packet_error pc NT_STATUS_END_OF_FILE"

text \<open>
  A blob resized by talloc, which refuses a size that is too large and gives NULL for 0; the new
  bytes are not initialised, here they are 0.
\<close>

definition data_blob_realloc :: "bytes \<Rightarrow> nat \<Rightarrow> bytes option" where
  "data_blob_realloc blob len =
     (if len = 0 \<or> len \<ge> MAX_TALLOC_SIZE then None else Some (take len blob @ replicate (len - length blob) 0))"

section \<open>Receiving\<close>

text \<open>
  From the label \<open>next_partial\<close> on. The jump back to it is the recursive call; a callback that
  keeps filling the context could make it run for ever, which is \<open>None\<close>.
\<close>

definition deliver :: "'p packet_ops \<Rightarrow> 'p packet_context \<Rightarrow> 'p packet_context \<times> u32" where
  "deliver ops pc =
     (let blob = take (packet_size pc) (partial pc);
          pc = pc\<lparr>partial := (if packet_size pc < num_read pc then take (num_read pc - packet_size pc) (drop (packet_size pc) (partial pc)) else []),
                  num_read := num_read pc - packet_size pc, packet_size := 0,
                  processing := (if serialise pc then 1 else processing pc), busy := True\<rparr>
      in case callback ops pc blob of (pc, status) \<Rightarrow> (pc\<lparr>busy := False\<rparr>, status))"

definition after_callback :: "'p packet_context \<Rightarrow> 'p packet_context" where
  "after_callback pc =
     (if processing pc > 0
      then pc\<lparr>processing := 0, fd_readable := (if processing pc > 1 then True else fd_readable pc)\<rparr> else pc)"

partial_function (option) next_partial :: "'p packet_ops \<Rightarrow> 'p packet_context \<Rightarrow> 'p packet_context option" where
  "next_partial ops pc =
     (case (if length (partial pc) \<noteq> num_read pc then data_blob_realloc (partial pc) (num_read pc) else Some (partial pc)) of
        None \<Rightarrow> Some (packet_error pc NT_STATUS_NO_MEMORY)
      | Some data \<Rightarrow>
          let pc = pc\<lparr>partial := data\<rparr>
          in case full_request ops (priv pc) data (packet_size pc) of (status, len) \<Rightarrow>
            let pc = pc\<lparr>packet_size := len\<rparr>
            in if NT_STATUS_IS_ERR status then Some (packet_error pc status)
               else if \<not> NT_STATUS_IS_OK status then Some pc
               else if len > num_read pc then Some (packet_error pc NT_STATUS_INVALID_PARAMETER)
               else if len < num_read pc \<and> (len = 0 \<or> len \<ge> MAX_TALLOC_SIZE) then Some (packet_error pc NT_STATUS_NO_MEMORY)
               else
                 case deliver ops pc of (pc, status) \<Rightarrow>
                   if destructor_called pc then Some (packet_free pc)
                   else
                     let pc = after_callback pc
                     in if \<not> NT_STATUS_IS_OK status then Some (packet_error pc status)
                        else if partial pc = [] then Some pc
                        else if \<not> has_ev pc then next_partial ops pc
                        else
                          case full_request ops (priv pc) (take (num_read pc) (partial pc)) (packet_size pc) of (status, len) \<Rightarrow>
                            let pc = pc\<lparr>packet_size := len\<rparr>
                            in if NT_STATUS_IS_ERR status then Some (packet_error pc status)
                               else if \<not> NT_STATUS_IS_OK status then Some pc
                               else Some (pc\<lparr>timed_events := timed_events pc + 1\<rparr>))"

text \<open>How much to read, or the error of \<open>socket_pending\<close>.\<close>

definition recv_npending :: "sock_io \<Rightarrow> 'p packet_context \<Rightarrow> u32 + nat" where
  "recv_npending io pc =
     (if packet_size pc \<noteq> 0 then Inr (packet_size pc - num_read pc)
      else if initial_read pc \<noteq> 0 then Inr ((initial_read pc + 2 ^ 32 - num_read pc) mod 2 ^ 32)
      else if has_sock pc
      then if NT_STATUS_IS_OK (pending_status io) then Inr (length (sock_in pc)) else Inl (pending_status io)
      else Inl NT_STATUS_CONNECTION_DISCONNECTED)"

definition packet_recv :: "'p packet_ops \<Rightarrow> sock_io \<Rightarrow> 'p packet_context \<Rightarrow> 'p packet_context option" where
  "packet_recv ops io pc =
     (if processing pc > 0 then Some (pc\<lparr>fd_readable := False, processing := processing pc + 1\<rparr>)
      else if recv_disable pc then Some (pc\<lparr>fd_readable := False\<rparr>)
      else if packet_size pc \<noteq> 0 \<and> num_read pc \<ge> packet_size pc then next_partial ops pc
      else
        case recv_npending io pc of
          Inl status \<Rightarrow> Some (packet_error pc status)
        | Inr npending \<Rightarrow>
            if npending = 0 then Some (packet_eof pc)
            else if npending + num_read pc \<ge> 2 ^ 64 then Some (packet_error pc NT_STATUS_INVALID_PARAMETER)
            else
              case (if npending + num_read pc > length (partial pc)
                    then data_blob_realloc (partial pc) (npending + num_read pc) else Some (partial pc)) of
                None \<Rightarrow> Some (packet_error pc NT_STATUS_NO_MEMORY)
              | Some data \<Rightarrow>
                  let bs = (if NT_STATUS_IS_OK (recv_status io) then take (min npending (recv_max io)) (sock_in pc) else []);
                      pc = pc\<lparr>sock_in := drop (length bs) (sock_in pc),
                              partial := take (num_read pc) data @ bs @ drop (num_read pc + length bs) data\<rparr>
                  in if NT_STATUS_IS_ERR (recv_status io) then Some (packet_error pc (recv_status io))
                     else if \<not> NT_STATUS_IS_OK (recv_status io) then Some pc
                     else if bs = [] then Some (packet_eof pc)
                     else next_partial ops (pc\<lparr>num_read := (num_read pc + length bs) mod 2 ^ 32\<rparr>))"

definition packet_next_event :: "'p packet_ops \<Rightarrow> sock_io \<Rightarrow> 'p packet_context \<Rightarrow> 'p packet_context option" where
  "packet_next_event ops io pc =
     (if num_read pc \<noteq> 0 \<and> packet_size pc \<noteq> 0 \<and> packet_size pc \<le> num_read pc then packet_recv ops io pc else Some pc)"

definition packet_recv_disable :: "'p packet_context \<Rightarrow> 'p packet_context" where
  "packet_recv_disable pc = pc\<lparr>fd_readable := False, recv_disable := True\<rparr>"

definition packet_recv_enable :: "'p packet_context \<Rightarrow> 'p packet_context" where
  "packet_recv_enable pc =
     (let pc = pc\<lparr>fd_readable := True, recv_disable := False\<rparr>
      in if num_read pc \<noteq> 0 \<and> packet_size pc \<ge> num_read pc then pc\<lparr>timed_events := timed_events pc + 1\<rparr> else pc)"

section \<open>Sending\<close>

text \<open>
  The answers of \<open>socket_send\<close>, one for each turn of the loop: a status and how much of the blob
  it took. When the list is used up the socket takes no more for now. The bytes taken go to the
  wire, the second result.
\<close>

fun packet_queue_run :: "(u32 \<times> nat) list \<Rightarrow> 'p packet_context \<Rightarrow> 'p packet_context \<times> bytes" where
  "packet_queue_run answers pc =
     (case send_queue pc of
        [] \<Rightarrow> (pc\<lparr>fd_writeable := False\<rparr>, [])
      | el # els \<Rightarrow>
          (case answers of
             [] \<Rightarrow> (pc, [])
           | (status, n) # answers \<Rightarrow>
               if NT_STATUS_IS_ERR status then (packet_error pc status, [])
               else if \<not> NT_STATUS_IS_OK status then (pc, [])
               else
                 let blob = drop (nsent el) (el_blob el);
                     el = el\<lparr>nsent := nsent el + n\<rparr>;
                     pc = (if nsent el = length (el_blob el)
                           then pc\<lparr>send_queue := els,
                                   called := called pc @ (case send_callback el of None \<Rightarrow> [] | Some f \<Rightarrow> [f])\<rparr>
                           else pc\<lparr>send_queue := el # els\<rparr>)
                 in case packet_queue_run answers pc of (pc, wire) \<Rightarrow> (pc, take n blob @ wire)))"

declare packet_queue_run.simps [simp del]

definition packet_send_callback :: "'p packet_context \<Rightarrow> bytes \<Rightarrow> nat option \<Rightarrow> 'p packet_context" where
  "packet_send_callback pc blob cb =
     pc\<lparr>send_queue := send_queue pc @ [\<lparr>el_blob = blob, nsent = 0, send_callback = cb\<rparr>], fd_writeable := True\<rparr>"

definition packet_send :: "'p packet_context \<Rightarrow> bytes \<Rightarrow> 'p packet_context" where
  "packet_send pc blob = packet_send_callback pc blob None"

section \<open>Framing\<close>

definition smb_len :: "bytes \<Rightarrow> u32" where
  "smb_len buf = ucast (buf ! 3) OR push_bit 8 (ucast (buf ! 2)) OR push_bit 16 (ucast (buf ! 1))"

definition packet_full_request_nbt :: "'p \<Rightarrow> bytes \<Rightarrow> nat \<Rightarrow> u32 \<times> nat" where
  "packet_full_request_nbt p blob len =
     (if length blob < 4 then (STATUS_MORE_ENTRIES, len)
      else let len = 4 + unat (smb_len blob)
           in if len > length blob then (STATUS_MORE_ENTRIES, len) else (NT_STATUS_OK, len))"

definition u32_len :: "bytes \<Rightarrow> u32" where
  "u32_len buf = ucast (buf ! 3) OR push_bit 8 (ucast (buf ! 2)) OR push_bit 16 (ucast (buf ! 1)) OR push_bit 24 (ucast (buf ! 0))"

text \<open>\<open>4 + RIVAL(...)\<close> is computed in 32 bits.\<close>

definition packet_full_request_u32 :: "'p \<Rightarrow> bytes \<Rightarrow> nat \<Rightarrow> u32 \<times> nat" where
  "packet_full_request_u32 p blob len =
     (if length blob < 4 then (STATUS_MORE_ENTRIES, len)
      else let len = unat (4 + u32_len blob)
           in if len > length blob then (STATUS_MORE_ENTRIES, len) else (NT_STATUS_OK, len))"

end
