(* ===== verification/Packet_Props.thy ===== *)
theory Packet_Props
  imports Packet
begin

text \<open>
  The receiver of \<open>packet.c\<close> against its contract: whatever the chunks in which a stream
  arrives, the packets delivered are those the stream consists of, in their order, and none is
  forgotten. The contract of a framing function is a locale; the NetBIOS framing is its instance.
\<close>

section \<open>Splitting a stream\<close>

lemma take_drop_length: "take n xs @ drop (length (take n xs)) xs = xs"
  by (cases "n \<le> length xs") (simp_all add: not_le)

function frames :: "(bytes \<Rightarrow> nat option) \<Rightarrow> bytes \<Rightarrow> bytes list \<times> bytes" where
  "frames size_of s =
     (case size_of s of
        None \<Rightarrow> ([], s)
      | Some k \<Rightarrow>
          if 0 < k \<and> k \<le> length s
          then (take k s # fst (frames size_of (drop k s)), snd (frames size_of (drop k s)))
          else ([], s))"
  by pat_completeness auto
termination by (relation "measure (\<lambda>(f, s). length s)") auto

declare frames.simps [simp del]

section \<open>The contract of a framing function\<close>

text \<open>A callback that keeps what it is given.\<close>

definition log_callback :: "bytes list packet_context \<Rightarrow> bytes \<Rightarrow> bytes list packet_context \<times> u32" where
  "log_callback pc b = (pc\<lparr>priv := priv pc @ [b]\<rparr>, NT_STATUS_OK)"

definition log_ops :: "(bytes list \<Rightarrow> bytes \<Rightarrow> nat \<Rightarrow> u32 \<times> nat) \<Rightarrow> bytes list packet_ops" where
  "log_ops fr = \<lparr>full_request = fr, callback = log_callback\<rparr>"

text \<open>
  A run of the event loop: bytes arrive at the socket, whose buffer the system bounds, the
  descriptor is readable and a read gives at most \<open>m\<close> bytes, a timed event fires. The stream
  that has arrived so far is an index of the relation.
\<close>

definition good_io :: "nat \<Rightarrow> sock_io" where
  "good_io m = \<lparr>pending_status = 0, recv_status = 0, recv_max = m\<rparr>"

definition sock_limit :: nat where "sock_limit = 0x1000000"

inductive net_reach :: "'p packet_ops \<Rightarrow> 'p packet_context \<Rightarrow> bytes \<Rightarrow> 'p packet_context \<Rightarrow> bool" for ops pc0 where
  start: "net_reach ops pc0 [] pc0"
| arrive: "net_reach ops pc0 a pc \<Longrightarrow> length (sock_in pc @ bs) \<le> sock_limit \<Longrightarrow>
    net_reach ops pc0 (a @ bs) (pc\<lparr>sock_in := sock_in pc @ bs\<rparr>)"
| readable: "net_reach ops pc0 a pc \<Longrightarrow> fd_readable pc \<Longrightarrow> sock_in pc \<noteq> [] \<Longrightarrow> 0 < m \<Longrightarrow>
    packet_recv ops (good_io m) pc = Some pc' \<Longrightarrow> net_reach ops pc0 a pc'"
| timer: "net_reach ops pc0 a pc \<Longrightarrow> 0 < timed_events pc \<Longrightarrow>
    packet_next_event ops (good_io m) (pc\<lparr>timed_events := timed_events pc - 1\<rparr>) = Some pc' \<Longrightarrow> net_reach ops pc0 a pc'"

text \<open>A context that works: no error, not disabled, waiting for data.\<close>

definition working :: "bytes list packet_context \<Rightarrow> bool" where
  "working pc \<longleftrightarrow> has_sock pc \<and> errors pc = [] \<and> fd_readable pc \<and> processing pc = 0 \<and> \<not> recv_disable pc \<and>
     \<not> destructor_called pc \<and> \<not> busy pc"

lemmas status_simps = NT_STATUS_IS_ERR_def NT_STATUS_IS_OK_def NT_STATUS_OK_def STATUS_MORE_ENTRIES_def

locale framing =
  fixes fr :: "bytes list \<Rightarrow> bytes \<Rightarrow> nat \<Rightarrow> u32 \<times> nat" and size_of :: "bytes \<Rightarrow> nat option" and hdr :: nat
  assumes fr_none: "size_of b = None \<Longrightarrow> fr p b n = (STATUS_MORE_ENTRIES, n)"
    and fr_more: "size_of b = Some k \<Longrightarrow> length b < k \<Longrightarrow> fr p b n = (STATUS_MORE_ENTRIES, k)"
    and fr_full: "size_of b = Some k \<Longrightarrow> k \<le> length b \<Longrightarrow> fr p b n = (NT_STATUS_OK, k)"
    and mono: "size_of b = Some k \<Longrightarrow> size_of (b @ c) = Some k"
    and short: "length b < hdr \<longleftrightarrow> size_of b = None"
    and bound: "size_of b = Some k \<Longrightarrow> hdr \<le> k \<and> k < MAX_TALLOC_SIZE"
    and hdr: "0 < hdr" "hdr < 1024"
begin

definition whole :: "bytes \<Rightarrow> bool" where
  "whole d \<longleftrightarrow> size_of d = Some (length d)"

lemma size_take: "size_of s = Some k \<Longrightarrow> k \<le> length s \<Longrightarrow> size_of (take k s) = Some k"
proof -
  assume s: "size_of s = Some k" "k \<le> length s"
  then have "hdr \<le> length (take k s)" using bound by auto
  then obtain j where j: "size_of (take k s) = Some j" using short [of "take k s"] by fastforce
  from mono [OF this, of "drop k s"] s j show ?thesis by simp
qed

lemma whole_frames: "\<forall>d \<in> set ds. whole d \<Longrightarrow> frames size_of (concat ds @ r) = (ds @ fst (frames size_of r), snd (frames size_of r))"
proof (induction ds)
  case (Cons d ds)
  then have d: "size_of (d @ concat ds @ r) = Some (length d)" by (simp add: whole_def mono)
  moreover have "0 < length d" using Cons.prems bound hdr by (fastforce simp: whole_def)
  ultimately show ?case using Cons by (subst frames.simps) simp
qed simp

text \<open>
  The invariant between events: the buffer holds what was read, \<open>packet_size\<close> is the size of the
  packet in it as soon as that is known, and a complete packet has a timed event.
\<close>

definition known_size :: "bytes \<Rightarrow> nat" where
  "known_size b = (case size_of b of None \<Rightarrow> 0 | Some k \<Rightarrow> k)"

definition buffered :: "bytes list packet_context \<Rightarrow> bool" where
  "buffered pc \<longleftrightarrow> working pc \<and> num_read pc = length (partial pc) \<and> packet_size pc = known_size (partial pc) \<and>
     length (partial pc) < MAX_TALLOC_SIZE \<and> (\<forall>d \<in> set (priv pc). whole d)"

definition pending_packet :: "bytes list packet_context \<Rightarrow> bool" where
  "pending_packet pc \<longleftrightarrow> (\<exists>k. size_of (partial pc) = Some k \<and> k \<le> length (partial pc))"

definition same_env :: "bytes list packet_context \<Rightarrow> bytes list packet_context \<Rightarrow> bool" where
  "same_env pc pc' \<longleftrightarrow> has_ev pc' = has_ev pc \<and> initial_read pc' = initial_read pc \<and> sock_in pc' = sock_in pc"

text \<open>What \<open>next_partial\<close> achieves on a buffer that is not empty.\<close>

definition progressed :: "bytes list packet_context \<Rightarrow> bytes list packet_context \<Rightarrow> bool" where
  "progressed pc pc' \<longleftrightarrow> buffered pc' \<and> same_env pc pc' \<and>
     concat (priv pc') @ partial pc' = concat (priv pc) @ partial pc \<and>
     (pending_packet pc' \<longrightarrow> has_ev pc' \<and> 0 < timed_events pc')"

lemma known_pos: "size_of b = Some k \<Longrightarrow> 0 < k"
  using bound [of b k] hdr by simp

lemma next_partial_progress:
  assumes "working pc" and "num_read pc = length (partial pc)" and "partial pc \<noteq> []" and "length (partial pc) < MAX_TALLOC_SIZE"
    and "\<forall>d \<in> set (priv pc). whole d" and "size_of (partial pc) = None \<Longrightarrow> packet_size pc = 0"
  shows "\<exists>pc'. next_partial (log_ops fr) pc = Some pc' \<and> progressed pc pc'"
  using assms
proof (induction "length (partial pc)" arbitrary: pc rule: less_induct)
  case less
  note w = less.prems(1) [unfolded working_def]
  show ?case
  proof (cases "size_of (partial pc)")
    case None
    with less.prems w have "next_partial (log_ops fr) pc = Some pc"
      by (subst next_partial.simps) (simp add: log_ops_def fr_none status_simps)
    with less.prems None show ?thesis by (simp add: progressed_def buffered_def same_env_def pending_packet_def known_size_def)
  next
    case (Some k)
    note k = known_pos [OF Some]
    show ?thesis
    proof (cases "length (partial pc) < k")
      case True
      with Some less.prems w have "next_partial (log_ops fr) pc = Some (pc\<lparr>packet_size := k\<rparr>)"
        by (subst next_partial.simps) (simp add: log_ops_def fr_more status_simps)
      with less.prems True Some show ?thesis
        by (simp add: progressed_def buffered_def same_env_def pending_packet_def known_size_def working_def)
    next
      case False
      define rest where "rest = drop k (partial pc)"
      define pc1 where "pc1 = pc\<lparr>partial := rest, num_read := length rest, packet_size := 0, priv := priv pc @ [take k (partial pc)]\<rparr>"
      have whole: "whole (take k (partial pc))" using size_take [OF Some] False by (simp add: whole_def)
      have step: "next_partial (log_ops fr) pc =
        (if rest = [] then Some pc1
         else if \<not> has_ev pc then next_partial (log_ops fr) pc1
         else case fr (priv pc1) rest 0 of (status, len) \<Rightarrow>
           if NT_STATUS_IS_ERR status then Some (packet_error (pc1\<lparr>packet_size := len\<rparr>) status)
           else if \<not> NT_STATUS_IS_OK status then Some (pc1\<lparr>packet_size := len\<rparr>)
           else Some (pc1\<lparr>packet_size := len, timed_events := timed_events pc + 1\<rparr>))"
      proof -
        have d: "deliver (log_ops fr) (pc\<lparr>partial := partial pc, packet_size := k\<rparr>) = (pc1\<lparr>processing := (if serialise pc then 1 else 0)\<rparr>, 0)"
          using w less.prems(2) False by (cases pc) (auto simp: deliver_def log_ops_def log_callback_def pc1_def rest_def NT_STATUS_OK_def Let_def)
        have a: "after_callback (pc1\<lparr>processing := (if serialise pc then 1 else 0)\<rparr>) = pc1"
          using w by (cases pc) (auto simp: after_callback_def pc1_def)
        have f: "full_request (log_ops fr) x (partial pc) n = (0, k)" for x n
          using fr_full [OF Some] False by (simp add: log_ops_def NT_STATUS_OK_def)
        have fields: "partial pc1 = rest" "num_read pc1 = length rest" "packet_size pc1 = 0" "has_ev pc1 = has_ev pc"
          "timed_events pc1 = timed_events pc" "destructor_called pc1 = destructor_called pc" by (simp_all add: pc1_def)
        have ops: "full_request (log_ops fr) = fr" by (simp add: log_ops_def)
        have status: "\<not> NT_STATUS_IS_ERR 0" "NT_STATUS_IS_OK 0" by (simp_all add: status_simps)
        have "k < MAX_TALLOC_SIZE" using bound [OF Some] by simp
        with w less.prems(2) False k d a f show ?thesis
          by (subst next_partial.simps) (simp add: status fields ops Let_def cong: if_cong)
      qed
      have prems1: "working pc1" "num_read pc1 = length (partial pc1)" "length (partial pc1) < MAX_TALLOC_SIZE" "\<forall>d \<in> set (priv pc1). whole d"
        "packet_size pc1 = 0" "partial pc1 = rest" "same_env pc pc1" "concat (priv pc1) @ rest = concat (priv pc) @ partial pc" "has_ev pc1 = has_ev pc"
        using less.prems whole by (auto simp: pc1_def rest_def working_def same_env_def)
      consider "rest = []" | "rest \<noteq> []" "\<not> has_ev pc" | "rest \<noteq> []" "has_ev pc" by blast
      then show ?thesis
      proof cases
        case 1
        then have "size_of rest = None" using short [of rest] hdr by simp
        with 1 step prems1 show ?thesis by (simp add: progressed_def buffered_def pending_packet_def known_size_def)
      next
        case 2
        have "length (partial pc1) < length (partial pc)" using prems1(6) False k less.prems(3) by (simp add: rest_def)
        from less.hyps [OF this prems1(1,2)] 2 prems1 obtain pc' where "next_partial (log_ops fr) pc1 = Some pc'" "progressed pc1 pc'" by auto
        with 2 step prems1(6-9) show ?thesis by (auto simp: progressed_def same_env_def)
      next
        case 3
        then show ?thesis
        proof (cases "size_of rest")
          case None
          with 3 step prems1 fr_none [OF None] show ?thesis
            by (simp add: progressed_def buffered_def pending_packet_def known_size_def status_simps working_def same_env_def)
        next
          case (Some j)
          with 3 step prems1 fr_more [OF Some] fr_full [OF Some] show ?thesis
            by (cases "j \<le> length rest")
               (simp_all add: progressed_def buffered_def pending_packet_def known_size_def status_simps working_def same_env_def not_le)
        qed
      qed
    qed
  qed
qed

lemma next_partial_trim:
  assumes "num_read pc \<le> length (partial pc)" and "0 < num_read pc" and "num_read pc < MAX_TALLOC_SIZE"
  shows "next_partial ops pc = next_partial ops (pc\<lparr>partial := take (num_read pc) (partial pc)\<rparr>)"
proof -
  have "(if length (partial pc) \<noteq> num_read pc then data_blob_realloc (partial pc) (num_read pc) else Some (partial pc)) =
      Some (take (num_read pc) (partial pc))"
    using assms by (auto simp: data_blob_realloc_def)
  then show ?thesis
    using assms(1) by (subst (1 2) next_partial.simps) (simp add: min_def)
qed

lemma known_zero: "known_size b = 0 \<Longrightarrow> size_of b = None"
  using known_pos by (cases "size_of b") (auto simp: known_size_def)

text \<open>The part of \<open>packet_recv\<close> that reads.\<close>

lemma read_progress:
  assumes buf: "buffered pc" and np: "recv_npending (good_io m) pc = Inr np" and pos: "0 < np" "np + num_read pc < MAX_TALLOC_SIZE"
    and inp: "sock_in pc \<noteq> []" "0 < m" and inc: "\<not> (packet_size pc \<noteq> 0 \<and> num_read pc \<ge> packet_size pc)"
  shows "\<exists>bs pc'. packet_recv (log_ops fr) (good_io m) pc = Some pc' \<and> bs \<noteq> [] \<and> sock_in pc = bs @ sock_in pc' \<and>
    progressed (pc\<lparr>partial := partial pc @ bs, sock_in := sock_in pc'\<rparr>) pc'"
proof -
  define bs where "bs = take (min np m) (sock_in pc)"
  define pc1 where "pc1 = pc\<lparr>sock_in := drop (length bs) (sock_in pc), num_read := length (partial pc @ bs), partial := partial pc @ bs\<rparr>"
  from buf have b: "working pc" "num_read pc = length (partial pc)" "packet_size pc = known_size (partial pc)" "\<forall>d \<in> set (priv pc). whole d"
    by (simp_all add: buffered_def)
  have split: "bs @ drop (length bs) (sock_in pc) = sock_in pc"
    unfolding bs_def by (rule take_drop_length)
  have bs: "bs \<noteq> []" "length bs \<le> np" using pos inp by (auto simp: bs_def)
  have data: "data_blob_realloc (partial pc) (np + length (partial pc)) = Some (partial pc @ replicate np 0)"
    using pos b(2) by (simp add: data_blob_realloc_def)
  have trim: "next_partial (log_ops fr) (pc\<lparr>sock_in := drop (length bs) (sock_in pc),
      partial := partial pc @ bs @ replicate (np - length bs) 0, num_read := length (partial pc) + length bs\<rparr>) = next_partial (log_ops fr) pc1"
    using bs pos b(2) by (subst next_partial_trim) (simp_all add: pc1_def)
  have small: "np + length (partial pc) < 2 ^ 32" using pos b(2) by (simp add: MAX_TALLOC_SIZE_def)
  have ok: "NT_STATUS_IS_OK (recv_status (good_io m))" "\<not> NT_STATUS_IS_ERR (recv_status (good_io m))" "recv_max (good_io m) = m"
    by (simp_all add: good_io_def status_simps)
  have read: "take (min np (recv_max (good_io m))) (sock_in pc) = bs" by (simp add: bs_def ok)
  have guards: "\<not> 0 < processing pc" "\<not> recv_disable pc" "\<not> (packet_size pc \<noteq> 0 \<and> packet_size pc \<le> length (partial pc))"
    "\<not> np = 0" "\<not> 2 ^ 64 \<le> np + length (partial pc)" "length (partial pc) < np + length (partial pc)"
    "(length (partial pc) + length bs) mod 2 ^ 32 = length (partial pc) + length bs"
    using b(1,2) inc pos small bs by (auto simp: working_def)
  have "packet_recv (log_ops fr) (good_io m) pc = next_partial (log_ops fr) pc1"
    unfolding packet_recv_def b(2) np sum.case data option.case Let_def read
      if_not_P [OF guards(1)] if_not_P [OF guards(2)] if_not_P [OF guards(3)] if_not_P [OF guards(4)] if_not_P [OF guards(5)] if_P [OF guards(6)]
      if_P [OF ok(1)] if_not_P [OF ok(2)] trim [symmetric]
    using bs(1,2) ok(1) guards(7) by (simp add: b(2))
  moreover have "\<exists>pc'. next_partial (log_ops fr) pc1 = Some pc' \<and> progressed pc1 pc'"
  proof (rule next_partial_progress)
    show "packet_size pc1 = 0" if "size_of (partial pc1) = None"
      using that mono [of "partial pc" _ bs] b(3) by (cases "size_of (partial pc)") (simp_all add: pc1_def known_size_def)
  qed (use b bs pos in \<open>auto simp: pc1_def working_def\<close>)
  ultimately obtain pc' where "packet_recv (log_ops fr) (good_io m) pc = Some pc'" "progressed pc1 pc'" by auto
  moreover from this(2) have "sock_in pc' = drop (length bs) (sock_in pc)" by (simp add: progressed_def same_env_def pc1_def)
  ultimately show ?thesis
    using bs split by (intro exI [of _ bs] exI [of _ pc']) (simp add: progressed_def same_env_def pc1_def, blast)
qed

definition net_inv :: "bytes list packet_context \<Rightarrow> bytes \<Rightarrow> bool" where
  "net_inv pc a \<longleftrightarrow> buffered pc \<and> concat (priv pc) @ partial pc @ sock_in pc = a \<and>
     (pending_packet pc \<longrightarrow> has_ev pc \<and> 0 < timed_events pc) \<and> length (sock_in pc) \<le> sock_limit \<and>
     (initial_read pc = 0 \<or> hdr \<le> initial_read pc \<and> initial_read pc < MAX_TALLOC_SIZE)"

lemma buffered_next:
  assumes "buffered pc" and "packet_size pc \<noteq> 0" and "packet_size pc \<le> num_read pc"
  shows "\<exists>pc'. next_partial (log_ops fr) pc = Some pc' \<and> progressed pc pc'"
  using assms by (intro next_partial_progress) (auto simp: buffered_def known_size_def)

lemma recv_inv:
  assumes inv: "net_inv pc a" and inp: "sock_in pc \<noteq> []" "0 < m"
  shows "\<exists>pc'. packet_recv (log_ops fr) (good_io m) pc = Some pc' \<and> net_inv pc' a"
proof -
  from inv have buf: "buffered pc" and lim: "length (sock_in pc) \<le> sock_limit"
    and ini: "initial_read pc = 0 \<or> hdr \<le> initial_read pc \<and> initial_read pc < MAX_TALLOC_SIZE" by (simp_all add: net_inv_def)
  note b = buf [unfolded buffered_def working_def]
  show ?thesis
  proof (cases "packet_size pc \<noteq> 0 \<and> packet_size pc \<le> num_read pc")
    case True
    then have "packet_recv (log_ops fr) (good_io m) pc = next_partial (log_ops fr) pc" using b by (simp add: packet_recv_def)
    with buffered_next [OF buf] True inv show ?thesis by (auto simp: net_inv_def progressed_def same_env_def)
  next
    case inc: False
    have "\<exists>np. recv_npending (good_io m) pc = Inr np \<and> 0 < np \<and> np + num_read pc < MAX_TALLOC_SIZE"
    proof (cases "packet_size pc = 0")
      case False
      moreover have "packet_size pc < MAX_TALLOC_SIZE"
        using False b bound [of "partial pc"] by (auto simp: known_size_def split: option.splits)
      ultimately show ?thesis using inc by (simp add: recv_npending_def)
    next
      case True
      then have short': "num_read pc < hdr" using b known_zero [of "partial pc"] short [of "partial pc"] by simp
      have "length (sock_in pc) + num_read pc < MAX_TALLOC_SIZE"
        using short' lim hdr by (simp add: sock_limit_def MAX_TALLOC_SIZE_def)
      moreover have "(initial_read pc + 2 ^ 32 - num_read pc) mod 2 ^ 32 = initial_read pc - num_read pc" if "initial_read pc \<noteq> 0"
      proof -
        have "initial_read pc + 2 ^ 32 - num_read pc = (initial_read pc - num_read pc) + 2 ^ 32" using that ini short' by simp
        moreover have "initial_read pc - num_read pc < 2 ^ 32" using ini that by (auto simp: MAX_TALLOC_SIZE_def)
        ultimately show ?thesis by (metis mod_add_self2 mod_less)
      qed
      ultimately show ?thesis
        using True inp(1) b ini short' by (cases "initial_read pc = 0") (auto simp: recv_npending_def good_io_def status_simps)
    qed
    then obtain np where "recv_npending (good_io m) pc = Inr np" "0 < np" "np + num_read pc < MAX_TALLOC_SIZE" by blast
    from read_progress [OF buf this inp] inc obtain bs pc' where
      "packet_recv (log_ops fr) (good_io m) pc = Some pc'" "sock_in pc = bs @ sock_in pc'"
      "progressed (pc\<lparr>partial := partial pc @ bs, sock_in := sock_in pc'\<rparr>) pc'" by auto
    with inv show ?thesis by (auto simp: net_inv_def progressed_def same_env_def)
  qed
qed

lemma timer_inv:
  assumes inv: "net_inv pc a"
  shows "\<exists>pc'. packet_next_event (log_ops fr) io (pc\<lparr>timed_events := t\<rparr>) = Some pc' \<and> net_inv pc' a"
proof -
  let ?pc = "pc\<lparr>timed_events := t\<rparr>"
  from inv have buf: "buffered ?pc" by (simp add: net_inv_def buffered_def working_def)
  show ?thesis
  proof (cases "num_read pc \<noteq> 0 \<and> packet_size pc \<noteq> 0 \<and> packet_size pc \<le> num_read pc")
    case True
    then have "packet_next_event (log_ops fr) io ?pc = next_partial (log_ops fr) ?pc"
      using buf by (simp add: packet_next_event_def packet_recv_def buffered_def working_def)
    with buffered_next [OF buf] True inv show ?thesis by (auto simp: net_inv_def progressed_def same_env_def)
  next
    case False
    then have "\<not> pending_packet pc"
      using inv known_pos by (fastforce simp: pending_packet_def net_inv_def buffered_def known_size_def)
    with False inv show ?thesis
      by (auto simp: packet_next_event_def net_inv_def buffered_def working_def pending_packet_def)
  qed
qed

lemma reach_inv: "net_reach (log_ops fr) pc0 a pc \<Longrightarrow> net_inv pc0 [] \<Longrightarrow> net_inv pc a"
proof (induction rule: net_reach.induct)
  case (arrive a pc bs)
  then show ?case by (simp add: net_inv_def buffered_def working_def pending_packet_def)
next
  case (readable a pc m pc')
  then show ?case using recv_inv [of pc a m] by auto
next
  case (timer a pc m pc')
  then show ?case using timer_inv [of pc a "good_io m" "timed_events pc - 1"] by auto
qed simp

end

section \<open>NetBIOS framing\<close>

definition nbt_size :: "bytes \<Rightarrow> nat option" where
  "nbt_size b = (if length b < 4 then None else Some (4 + unat (smb_len b)))"

lemma smb_len_bound: "unat (smb_len b) < 2 ^ 24"
proof -
  have "smb_len b = take_bit 24 (smb_len b)"
    unfolding smb_len_def by (rule bit_word_eqI) (auto simp: bit_simps bit_u8_ge)
  then show ?thesis using unat_take_bit_mod [of 24 "smb_len b"] by (metis mod_less_divisor zero_less_numeral zero_less_power)
qed

lemma smb_len_append: "4 \<le> length b \<Longrightarrow> smb_len (b @ c) = smb_len b"
  by (simp add: smb_len_def nth_append)

interpretation nbt: framing packet_full_request_nbt nbt_size 4
proof
  show "nbt_size (b @ c) = Some k" if "nbt_size b = Some k" for b c k
    using that smb_len_append [of b c] by (simp add: nbt_size_def split: if_split_asm)
  show "4 \<le> k \<and> k < MAX_TALLOC_SIZE" if "nbt_size b = Some k" for b k
    using that smb_len_bound [of b] by (auto simp: nbt_size_def MAX_TALLOC_SIZE_def split: if_split_asm)
qed (auto simp: nbt_size_def packet_full_request_nbt_def Let_def split: if_split_asm)

text \<open>A fresh context with a socket.\<close>

definition nbt_start :: "bool \<Rightarrow> bool \<Rightarrow> nat \<Rightarrow> bytes list packet_context" where
  "nbt_start ev serial n =
     (packet_init [])\<lparr>has_sock := True, fd_readable := True, has_ev := ev, serialise := serial, initial_read := n\<rparr>"

text \<open>
  C19. NetBIOS packets received over a stream, however the bytes arrive and the reads cut them,
  with or without an event context, serialising or not: no call of \<open>packet_recv\<close> fails, loops
  or loses a byte; the packets given to the callback are the first ones of the stream; a packet
  that is complete in the buffer has a timed event that will deliver it; and when there is
  nothing left to read and no event pending, exactly the complete packets of the stream have
  been delivered and the rest is in the buffer. \<open>initial_read\<close> is 0 or at least the size of the
  header, and the socket buffer holds at most 16 MB.
\<close>

theorem packet_stream_nbt:
  assumes "n = 0 \<or> 4 \<le> n \<and> n < MAX_TALLOC_SIZE"
    and "net_reach (log_ops packet_full_request_nbt) (nbt_start ev serial n) a pc"
  shows "errors pc = [] \<and> fd_readable pc \<and> a = concat (priv pc) @ partial pc @ sock_in pc \<and>
    (\<exists>later. fst (frames nbt_size a) = priv pc @ later) \<and>
    (sock_in pc = [] \<and> timed_events pc = 0 \<longrightarrow> frames nbt_size a = (priv pc, partial pc)) \<and>
    (\<forall>m > 0. sock_in pc \<noteq> [] \<longrightarrow> packet_recv (log_ops packet_full_request_nbt) (good_io m) pc \<noteq> None)"
proof -
  have "nbt.net_inv (nbt_start ev serial n) []"
    using assms(1) by (auto simp: nbt.net_inv_def nbt.buffered_def working_def nbt_start_def packet_init_def
        nbt.known_size_def nbt_size_def nbt.pending_packet_def MAX_TALLOC_SIZE_def)
  note inv = nbt.reach_inv [OF assms(2) this]
  then have whole: "\<forall>d \<in> set (priv pc). nbt.whole d" and a: "a = concat (priv pc) @ partial pc @ sock_in pc"
    by (auto simp: nbt.net_inv_def nbt.buffered_def)
  note fr = nbt.whole_frames [OF whole]
  have complete: "frames nbt_size (partial pc) = ([], partial pc)" if "timed_events pc = 0"
  proof -
    from inv that have "\<not> nbt.pending_packet pc" by (auto simp: nbt.net_inv_def)
    then show ?thesis by (subst frames.simps) (auto simp: nbt.pending_packet_def split: option.splits)
  qed
  have "packet_recv (log_ops packet_full_request_nbt) (good_io m) pc \<noteq> None" if "0 < m" "sock_in pc \<noteq> []" for m
    using nbt.recv_inv [OF inv that(2,1)] by auto
  with inv fr a complete show ?thesis
    by (auto simp: nbt.net_inv_def nbt.buffered_def working_def)
qed

theorem packet_stream_nbt_witness:
  "let pc = (nbt_start True False 0)\<lparr>sock_in := [0, 0, 0, 1, 7, 0]\<rparr>
   in errors pc = [] \<and> (\<exists>later. fst (frames nbt_size [0, 0, 0, 1, 7, 0]) = priv pc @ later) \<and>
      packet_recv (log_ops packet_full_request_nbt) (good_io 3) pc \<noteq> None"
proof -
  have "net_reach (log_ops packet_full_request_nbt) (nbt_start True False 0) ([] @ [0, 0, 0, 1, 7, 0])
      ((nbt_start True False 0)\<lparr>sock_in := sock_in (nbt_start True False 0) @ [0, 0, 0, 1, 7, 0]\<rparr>)"
    by (intro net_reach.arrive net_reach.start) (simp add: nbt_start_def packet_init_def sock_limit_def)
  then have "net_reach (log_ops packet_full_request_nbt) (nbt_start True False 0) [0, 0, 0, 1, 7, 0]
      ((nbt_start True False 0)\<lparr>sock_in := [0, 0, 0, 1, 7, 0]\<rparr>)"
    by (simp add: nbt_start_def packet_init_def)
  from packet_stream_nbt [OF _ this] show ?thesis by (simp add: Let_def)
qed

section \<open>Sending\<close>

text \<open>The bytes of the queue that are still to go out.\<close>

definition unsent :: "'p packet_context \<Rightarrow> bytes" where
  "unsent pc = concat (map (\<lambda>el. drop (nsent el) (el_blob el)) (send_queue pc))"

definition waiting :: "'p packet_context \<Rightarrow> nat list" where
  "waiting pc = concat (map (\<lambda>el. case send_callback el of None \<Rightarrow> [] | Some f \<Rightarrow> [f]) (send_queue pc))"

text \<open>The socket takes at most what it is given.\<close>

fun takes_ok :: "(u32 \<times> nat) list \<Rightarrow> send_element list \<Rightarrow> bool" where
  "takes_ok ((status, n) # as) (el # els) =
     (n \<le> length (el_blob el) - nsent el \<and>
      takes_ok as (if nsent el + n = length (el_blob el) then els else el\<lparr>nsent := nsent el + n\<rparr> # els))"
| "takes_ok as els = True"

lemma queue_run_fifo:
  "takes_ok answers (send_queue pc) \<Longrightarrow> packet_queue_run answers pc = (pc', wire) \<Longrightarrow>
   wire @ unsent pc' = unsent pc \<and> called pc' @ waiting pc' = called pc @ waiting pc \<and>
   (fd_writeable pc \<longrightarrow> (send_queue pc' = [] \<longleftrightarrow> \<not> fd_writeable pc'))"
proof (induction answers arbitrary: pc wire)
  case Nil
  then show ?case
    by (subst (asm) packet_queue_run.simps) (auto simp: unsent_def waiting_def split: list.split_asm)
next
  case (Cons a as)
  obtain status n where a: "a = (status, n)" by (cases a)
  show ?case
  proof (cases "send_queue pc")
    case Nil
    with Cons.prems show ?thesis by (subst (asm) packet_queue_run.simps) (auto simp: unsent_def waiting_def)
  next
    case (Cons el els)
    note q = this
    show ?thesis
    proof (cases "NT_STATUS_IS_OK status")
      case False
      with Cons.prems(2) a q show ?thesis
        by (subst (asm) packet_queue_run.simps) (auto simp: unsent_def waiting_def packet_error_def split: if_split_asm)
    next
      case True
      then have ok: "\<not> NT_STATUS_IS_ERR status" by (simp add: status_simps)
      define pc1 where "pc1 = (if nsent el + n = length (el_blob el)
          then pc\<lparr>send_queue := els, called := called pc @ (case send_callback el of None \<Rightarrow> [] | Some f \<Rightarrow> [f])\<rparr>
          else pc\<lparr>send_queue := el\<lparr>nsent := nsent el + n\<rparr> # els\<rparr>)"
      obtain wire1 where w: "packet_queue_run as pc1 = (pc', wire1)" "wire = take n (drop (nsent el) (el_blob el)) @ wire1"
        using Cons.prems(2) a q True ok
        by (subst (asm) packet_queue_run.simps) (auto simp: Let_def pc1_def split: prod.split_asm if_split_asm)
      have n: "n \<le> length (el_blob el) - nsent el" using Cons.prems(1) a q by simp
      have "takes_ok as (send_queue pc1)" using Cons.prems(1) a q by (auto simp: pc1_def split: if_split_asm)
      from Cons.IH [OF this w(1)] w(2) q n show ?thesis
        by (auto simp: pc1_def unsent_def waiting_def ac_simps simp flip: drop_drop split: if_split_asm option.splits)
    qed
  qed
qed

text \<open>
  C20. The send queue is a queue: whatever part of a packet the socket takes in each turn, the
  bytes on the wire followed by what is left in the queue are the bytes that were queued, in
  order, also behind the packet that is added last; the callbacks run in the same order, each
  when its packet has gone out; and the context waits for the descriptor to be writeable
  exactly while something is queued.
\<close>

theorem packet_send_fifo:
  assumes "takes_ok answers (send_queue (packet_send_callback pc blob cb))"
    and "packet_queue_run answers (packet_send_callback pc blob cb) = (pc', wire)"
  shows "wire @ unsent pc' = unsent pc @ blob \<and>
    called pc' @ waiting pc' = called pc @ waiting pc @ (case cb of None \<Rightarrow> [] | Some f \<Rightarrow> [f]) \<and>
    (send_queue pc' = [] \<longleftrightarrow> \<not> fd_writeable pc')"
  using queue_run_fifo [OF assms] by (simp add: packet_send_callback_def unsent_def waiting_def)

theorem packet_send_fifo_witness:
  "\<exists>pc' wire. packet_queue_run [(0, 2), (0, 1)] (packet_send_callback (packet_init ()) [1, 2, 3] (Some 9)) = (pc', wire) \<and>
     wire @ unsent pc' = [1, 2, 3] \<and> called pc' @ waiting pc' = [9]"
proof -
  let ?pc = "packet_send_callback (packet_init ()) [1, 2, 3] (Some 9)"
  obtain pc' wire where r: "packet_queue_run [(0, 2), (0, 1)] ?pc = (pc', wire)" by (cases "packet_queue_run [(0, 2), (0, 1)] ?pc")
  have t: "takes_ok [(0, 2), (0, 1)] (send_queue ?pc)" by (simp add: packet_send_callback_def packet_init_def)
  from packet_send_fifo [OF t r] r show ?thesis by (simp add: unsent_def waiting_def packet_init_def)
qed

section \<open>Two defects\<close>

text \<open>
  When receiving is enabled again while a complete packet and more is in the buffer, no event is
  added for it: the comparison of \<open>packet_recv_enable\<close> is the wrong way round.
\<close>

lemma recv_enable_forgets:
  "packet_size pc < num_read pc \<Longrightarrow>
   timed_events (packet_recv_enable pc) = timed_events pc \<and>
   (packet_size pc \<noteq> 0 \<longrightarrow> packet_next_event ops io (packet_recv_enable pc) = packet_recv ops io (packet_recv_enable pc))"
  by (simp add: packet_recv_enable_def packet_next_event_def Let_def)

text \<open>
  The length of the other framing is added up in 32 bits: a header of all ones announces a
  packet of three bytes, shorter than the header.
\<close>

lemma full_request_u32_wraps: "packet_full_request_u32 p [0xFF, 0xFF, 0xFF, 0xFF] n = (NT_STATUS_OK, 3)"
  by (simp add: packet_full_request_u32_def u32_len_def)

end
