(* ===== verification/Idtree.thy ===== *)
theory Idtree
  imports Smb_Prelude
begin

text \<open>
  \<open>lib/util/idtree.c\<close>: small integer ids for pointers, in a radix tree of 32 slots a layer. A
  layer is a value and not a cell of a heap: the tree has no sharing, and the array \<open>pa\<close> of the
  layers above the current one is a stack of these layers with the slot taken in each, so that
  going back up puts the layer back into its slot. The free list holds layers whose first slot,
  the link of the list, is empty; its length is \<open>id_free_cnt\<close>. Allocating a layer that is missing
  in the free list succeeds.
\<close>

section \<open>Layers\<close>

datatype 'a slot = Null | Sub "'a layer" | Ptr 'a
  and 'a layer = Layer (bitmap: u32) (ary: "'a slot list") (count: nat)

definition IDR_FULL :: u32 where "IDR_FULL = 0xffffffff"
definition MAX_ID_BIT :: nat where "MAX_ID_BIT = 2 ^ 31"
definition MAX_LEVEL :: nat where "MAX_LEVEL = 7"
definition IDR_FREE_MAX :: nat where "IDR_FREE_MAX = 14"

definition new_layer :: "'a layer" where
  "new_layer = Layer 0 (replicate 32 Null) 0"

definition put_slot :: "'a layer \<Rightarrow> nat \<Rightarrow> 'a slot \<Rightarrow> 'a layer" where
  "put_slot p m s = Layer (bitmap p) ((ary p)[m := s]) (count p)"

record 'a idr_context =
  top :: "'a layer option"
  id_free :: "'a layer list"
  layers :: nat

definition idr_init :: "'a idr_context" where
  "idr_init = \<lparr>top = None, id_free = [], layers = 0\<rparr>"

definition alloc_layer :: "'a layer list \<Rightarrow> ('a layer \<times> 'a layer list) option" where
  "alloc_layer free = (case free of [] \<Rightarrow> None | p # ps \<Rightarrow> Some (put_slot p 0 Null, ps))"

definition free_layer :: "'a layer list \<Rightarrow> 'a layer \<Rightarrow> 'a layer list" where
  "free_layer free p = put_slot p 0 Null # free"

definition idr_pre_get :: "'a layer list \<Rightarrow> 'a layer list" where
  "idr_pre_get free = replicate (IDR_FREE_MAX - length free) new_layer @ free"

function find_next_bit :: "u32 \<Rightarrow> nat \<Rightarrow> nat \<Rightarrow> nat" where
  "find_next_bit bm maxid n = (if n < maxid \<and> \<not> bit bm n then find_next_bit bm maxid (n + 1) else n)"
  by pat_completeness auto
termination by (relation "measure (\<lambda>(bm, maxid, n). maxid - n)") auto

declare find_next_bit.simps [simp del]

section \<open>Allocating\<close>

type_synonym 'a path = "('a layer \<times> nat) list"

fun unwind :: "'a layer \<Rightarrow> 'a path \<Rightarrow> 'a layer" where
  "unwind p [] = p"
| "unwind p ((q, m) # st) = unwind (put_slot q m (Sub p)) st"

text \<open>The walk up that marks full layers; \<open>n\<close> is the id shifted to the layer of \<open>p\<close>.\<close>

fun mark_up :: "nat \<Rightarrow> 'a layer \<Rightarrow> 'a path \<Rightarrow> 'a layer" where
  "mark_up n p [] = p"
| "mark_up n p ((q, m) # st) =
     (if bitmap p = IDR_FULL
      then mark_up (n div 32) (Layer (set_bit (n div 32 mod 32) (bitmap q)) ((ary q)[m := Sub p]) (count q)) st
      else unwind (put_slot q m (Sub p)) st)"

text \<open>
  \<open>Id\<close> is the id returned, \<open>No_Space\<close> the result -2 with the new \<open>*starting_id\<close>, \<open>Failed\<close> the
  result -1. \<open>Corrupt\<close> is a user's pointer taken for a layer, which does not happen.
\<close>

datatype alloc_result = Id nat | No_Space nat | Failed | Corrupt

definition next_start :: "nat \<Rightarrow> nat \<Rightarrow> nat" where
  "next_start id_no l = (id_no OR (2 ^ (5 * l) - 1)) + 1"

definition at_slot :: "nat \<Rightarrow> nat \<Rightarrow> nat \<Rightarrow> nat \<Rightarrow> nat" where
  "at_slot id_no l n m = (if m \<noteq> n then push_bit (5 * l) (drop_bit (5 * l) id_no XOR n XOR m) else id_no)"

lemma next_start_eq: "next_start id_no l = (id_no div 2 ^ (5 * l) + 1) * 2 ^ (5 * l)"
proof -
  have "id_no OR mask (5 * l) = push_bit (5 * l) (drop_bit (5 * l) id_no) + mask (5 * l)"
    by (rule bit_eqI) (auto simp: bit_simps disjunctive_add)
  then show ?thesis
    by (simp add: next_start_def mask_eq_exp_minus_1 push_bit_eq_mult drop_bit_eq_div algebra_simps)
qed

lemma replace_digit: "m < 32 \<Longrightarrow> d XOR (d mod 32) XOR m = 32 * (d div 32) + m" for d m :: nat
proof -
  assume m: "m < 32"
  have "d XOR take_bit 5 d = push_bit 5 (drop_bit 5 d)" by (rule bit_eqI) (auto simp: bit_simps)
  moreover have "take_bit 5 m = m" using m by (simp add: take_bit_nat_eq_self)
  then have "push_bit 5 (drop_bit 5 d) AND m = 0" by (metis bit_eqI bit_and_iff bit_push_bit_iff bit_take_bit_iff bit_0_eq bot_apply bot_bool_def not_le)
  then have "push_bit 5 (drop_bit 5 d) XOR m = push_bit 5 (drop_bit 5 d) + m"
    by (simp add: disjunctive_add_eq_xor)
  ultimately have "(d XOR take_bit 5 d) XOR m = 32 * (d div 32) + m" by (simp add: push_bit_eq_mult drop_bit_eq_div mult.commute)
  then show ?thesis by (simp add: xor.assoc take_bit_eq_mod)
qed

lemma at_slot_eq:
  "m < 32 \<Longrightarrow> at_slot id_no l (drop_bit (5 * l) id_no mod 32) m =
     (if m = drop_bit (5 * l) id_no mod 32 then id_no else (32 * (drop_bit (5 * l) id_no div 32) + m) * 2 ^ (5 * l))"
  by (simp add: at_slot_def replace_digit push_bit_eq_mult)

lemma find_next_bit_ge: "n \<le> find_next_bit bm k n"
  by (induction bm k n rule: find_next_bit.induct) (subst find_next_bit.simps, auto)

lemma at_slot_ge:
  assumes "m < 32" and "drop_bit (5 * l) id_no mod 32 \<le> m"
  shows "id_no \<le> at_slot id_no l (drop_bit (5 * l) id_no mod 32) m"
proof (cases "m = drop_bit (5 * l) id_no mod 32")
  case False
  let ?d = "id_no div 2 ^ (5 * l)"
  have "?d < 32 * (?d div 32) + m" using assms False by (simp add: drop_bit_eq_div) (metis add_less_cancel_left mult_div_mod_eq nat_less_le)
  then have "(?d + 1) * 2 ^ (5 * l) \<le> (32 * (?d div 32) + m) * 2 ^ (5 * l)" by (intro mult_right_mono) simp_all
  moreover have "id_no < (?d + 1) * 2 ^ (5 * l)" by (metis Suc_eq_plus1 div_less_iff_less_mult lessI zero_less_numeral zero_less_power)
  ultimately have "id_no \<le> (32 * (?d div 32) + m) * 2 ^ (5 * l)" by simp
  then show ?thesis unfolding at_slot_eq [OF assms(1)] using False by (simp add: drop_bit_eq_div)
qed (simp add: at_slot_def)

lemma next_start_gt: "id_no < next_start id_no l"
  unfolding next_start_eq by (metis Suc_eq_plus1 div_less_iff_less_mult lessI zero_less_numeral zero_less_power)

text \<open>
  The loop of \<open>sub_alloc\<close>: \<open>p\<close> is the current layer at level \<open>l\<close>, \<open>st\<close> the layers above. Together
  with the result it gives the new top layer and the free list. On the way back up \<open>id\<close> may have
  carried into a digit above the level it goes back to; the loop goes on all the same.
\<close>

function (sequential) sub_alloc_loop ::
  "'a \<Rightarrow> nat \<Rightarrow> nat \<Rightarrow> 'a layer \<Rightarrow> 'a path \<Rightarrow> 'a layer list \<Rightarrow> alloc_result \<times> 'a layer \<times> 'a layer list" where
  "sub_alloc_loop ptr id_no l p st free =
     (let n = drop_bit (5 * l) id_no mod 32;
          m = find_next_bit (NOT (bitmap p)) 32 n
      in if 32 \<le> m
         then (case st of
                 [] \<Rightarrow> (No_Space (next_start id_no (l + 1)), p, free)
               | (q, j) # st' \<Rightarrow>
                   sub_alloc_loop ptr (next_start id_no (l + 1)) (l + 1) (put_slot q j (Sub p)) st' free)
         else
           let id_no' = at_slot id_no l n m
           in if MAX_ID_BIT \<le> id_no' then (Failed, unwind p st, free)
              else if l = 0
              then (Id id_no', mark_up id_no' (Layer (set_bit m (bitmap p)) ((ary p)[m := Ptr ptr]) (count p + 1)) st, free)
              else
                (case ary p ! m of
                   Null \<Rightarrow>
                     (case alloc_layer free of
                        None \<Rightarrow> (Failed, unwind p st, free)
                      | Some (q, free') \<Rightarrow>
                          sub_alloc_loop ptr id_no' (l - 1) q ((Layer (bitmap p) (ary p) (count p + 1), m) # st) free')
                 | Sub q \<Rightarrow> sub_alloc_loop ptr id_no' (l - 1) q ((p, m) # st) free
                 | Ptr x \<Rightarrow> (Corrupt, unwind p st, free)))"
  by pat_completeness auto
termination
proof (relation "measures [\<lambda>(ptr, id_no, l, p, st, free). 2 ^ 31 - id_no,
    \<lambda>(ptr, id_no, l, p, st, free). if id_no \<ge> 2 ^ 31 then length st else l]", goal_cases)
  case 1
  show ?case by simp
next
  case (2 ptr id_no l p st free n m a st' q j)
  then show ?case using next_start_gt [of id_no "l + 1"] by (auto simp: diff_less_mono2)
next
  case (3 ptr id_no l p st free n m id_no' b q free')
  then have "id_no \<le> id_no'" using at_slot_ge [of m l id_no] find_next_bit_ge [of "drop_bit (5 * l) id_no mod 32"] by simp
  moreover from 3 have "id_no' < 2 ^ 31" "0 < l" by (simp_all add: MAX_ID_BIT_def)
  ultimately show ?case by auto
next
  case (4 ptr id_no l p st free n m id_no' q)
  then have "id_no \<le> id_no'" using at_slot_ge [of m l id_no] find_next_bit_ge [of "drop_bit (5 * l) id_no mod 32"] by simp
  moreover from 4 have "id_no' < 2 ^ 31" "0 < l" by (simp_all add: MAX_ID_BIT_def)
  ultimately show ?case by auto
qed

declare sub_alloc_loop.simps [simp del]

text \<open>
  The loop that adds layers on top until the id fits. An empty top layer is not wrapped, only
  \<open>layers\<close> counts. The layers built so far are \<open>p\<close> down to the top of the context: when a layer is
  missing they are torn down, \<open>built\<close> of them.
\<close>

fun tear_down :: "nat \<Rightarrow> 'a layer \<Rightarrow> 'a layer list \<Rightarrow> 'a layer list" where
  "tear_down 0 p free = free"
| "tear_down (Suc k) p free =
     (let free' = free_layer free (Layer 0 (ary p) 0)
      in case ary p ! 0 of Sub q \<Rightarrow> tear_down k q free' | _ \<Rightarrow> free')"

definition wrap_layer :: "'a layer \<Rightarrow> 'a layer \<Rightarrow> 'a layer" where
  "wrap_layer new p =
     Layer (if bitmap p = IDR_FULL then set_bit 0 (bitmap new) else bitmap new) ((ary new)[0 := Sub p]) 1"

function grow :: "nat \<Rightarrow> nat \<Rightarrow> nat \<Rightarrow> 'a layer \<Rightarrow> 'a layer list \<Rightarrow> 'a layer list + 'a layer \<times> nat \<times> 'a layer list" where
  "grow id_no built ls p free =
     (if ls < MAX_LEVEL \<and> 2 ^ (5 * ls) \<le> id_no
      then if count p = 0 then grow id_no built (ls + 1) p free
           else (case alloc_layer free of
                   None \<Rightarrow> Inl (tear_down built p free)
                 | Some nf \<Rightarrow> grow id_no (built + 1) (ls + 1) (wrap_layer (fst nf) p) (snd nf))
      else Inr (p, ls, free))"
  by pat_completeness auto
termination by (relation "measure (\<lambda>(id_no, built, ls, p, free). MAX_LEVEL - ls)") auto

declare grow.simps [simp del]

text \<open>
  \<open>idr_get_new_above_int\<close> from the label \<open>build_up\<close> on; the inner \<open>None\<close> is the result -1. A tree
  without a top layer gets one, which the tear-down frees as well.
\<close>

partial_function (option) build_up :: "'a \<Rightarrow> nat \<Rightarrow> 'a idr_context \<Rightarrow> (nat option \<times> 'a idr_context) option" where
  "build_up ptr id_no idp =
     (case (case top idp of
              Some p \<Rightarrow> Some (p, layers idp, 0, id_free idp)
            | None \<Rightarrow> (case alloc_layer (id_free idp) of
                         None \<Rightarrow> None | Some (p, free) \<Rightarrow> Some (p, 1, 1, free))) of
        None \<Rightarrow> Some (None, idp)
      | Some (p, ls, built, free) \<Rightarrow>
          (case grow id_no built ls p free of
             Inl free' \<Rightarrow> Some (None, idp\<lparr>id_free := free'\<rparr>)
           | Inr (p', ls', free') \<Rightarrow>
               (case sub_alloc_loop ptr id_no (ls' - 1) p' [] free' of
                  (res, p'', free'') \<Rightarrow>
                    let idp' = idp\<lparr>top := Some p'', layers := ls', id_free := free''\<rparr>
                    in case res of
                         Id v \<Rightarrow> Some (Some v, idp')
                       | No_Space id_no' \<Rightarrow> build_up ptr id_no' idp'
                       | _ \<Rightarrow> Some (None, idp'))))"

declare build_up.simps [code]

definition idr_get_new_above_int :: "'a \<Rightarrow> nat \<Rightarrow> 'a idr_context \<Rightarrow> (nat option \<times> 'a idr_context) option" where
  "idr_get_new_above_int ptr starting_id idp =
     build_up ptr starting_id (idp\<lparr>id_free := idr_pre_get (id_free idp)\<rparr>)"

section \<open>Finding and removing\<close>

text \<open>
  \<open>sub_remove\<close> below one layer at level \<open>l\<close>: \<open>None\<close> for a free id, when only the bits on the path
  are cleared; otherwise the layer that remains, if its count is not zero. The second component is
  the layer after the failed walk.
\<close>

definition clear_slot_bit :: "'a layer \<Rightarrow> nat \<Rightarrow> 'a layer" where
  "clear_slot_bit p n = Layer (unset_bit n (bitmap p)) (ary p) (count p)"

definition drop_slot :: "'a layer \<Rightarrow> nat \<Rightarrow> 'a layer list \<Rightarrow> 'a layer option \<times> 'a layer list" where
  "drop_slot p n free =
     (let p' = Layer (bitmap p) ((ary p)[n := Null]) (count p - 1)
      in if count p' = 0 then (None, free_layer free p') else (Some p', free))"

fun sub_remove :: "nat \<Rightarrow> nat \<Rightarrow> 'a layer \<Rightarrow> 'a layer list \<Rightarrow> bool \<times> 'a layer option \<times> 'a layer list" where
  "sub_remove 0 id_no p free =
     (let n = id_no mod 32
      in if bit (bitmap p) n then (True, drop_slot (clear_slot_bit p n) n free) else (False, Some p, free))"
| "sub_remove (Suc l) id_no p free =
     (let n = drop_bit (5 * Suc l) id_no mod 32;
          p' = clear_slot_bit p n
      in case ary p ! n of
           Sub q \<Rightarrow>
             (case sub_remove l id_no q free of
                (ok, Some q', free') \<Rightarrow> (ok, Some (put_slot p' n (Sub q')), free')
              | (ok, None, free') \<Rightarrow> (ok, drop_slot p' n free'))
         | _ \<Rightarrow> (False, Some p', free))"

definition trim_free :: "'a layer list \<Rightarrow> 'a layer list" where
  "trim_free free = drop (length free - (IDR_FREE_MAX - 1)) free"

definition drop_layer :: "'a idr_context \<Rightarrow> 'a idr_context" where
  "drop_layer idp =
     (case top idp of
        None \<Rightarrow> idp
      | Some p \<Rightarrow>
          if count p = 1 \<and> 1 < layers idp
          then (case ary p ! 0 of
                  Sub q \<Rightarrow> idp\<lparr>top := Some q, layers := layers idp - 1, id_free := free_layer (id_free idp) (Layer 0 (ary p) 0)\<rparr>
                | _ \<Rightarrow> idp)
          else idp)"

definition idr_remove :: "nat \<Rightarrow> 'a idr_context \<Rightarrow> bool \<times> 'a idr_context" where
  "idr_remove id_no idp =
     (case top idp of
        None \<Rightarrow> (False, idp)
      | Some p \<Rightarrow>
          (case sub_remove (layers idp - 1) (take_bit 31 id_no) p (id_free idp) of
             (ok, t, free) \<Rightarrow>
               let idp' = idp\<lparr>top := t, layers := (if t = None then 0 else layers idp), id_free := free\<rparr>
               in if ok then (let idp'' = drop_layer idp' in (True, idp''\<lparr>id_free := trim_free (id_free idp'')\<rparr>))
                  else (False, idp')))"

text \<open>
  \<open>_idr_find\<close>: the slot reached. The first test shifts a 32-bit int by 5 * (layers + 1); from six
  layers on the shift is not defined, which is the result \<open>None\<close>.
\<close>

fun walk_down :: "nat \<Rightarrow> nat \<Rightarrow> 'a slot \<Rightarrow> 'a slot" where
  "walk_down 0 id_no s = s"
| "walk_down (Suc k) id_no s =
     (case s of Sub p \<Rightarrow> walk_down k id_no (ary p ! (drop_bit (5 * k) id_no mod 32)) | _ \<Rightarrow> s)"

definition idr_find :: "'a idr_context \<Rightarrow> nat \<Rightarrow> 'a slot option" where
  "idr_find idp id_no =
     (let n = 5 * layers idp
      in if 32 \<le> n + 5 then None
         else if drop_bit (n + 5) (take_bit 31 id_no) \<noteq> 0 then Some Null
         else Some (walk_down (layers idp) (take_bit 31 id_no) (case top idp of None \<Rightarrow> Null | Some p \<Rightarrow> Sub p)))"

section \<open>The public allocators\<close>

definition idr_get_new_above :: "'a \<Rightarrow> nat \<Rightarrow> nat \<Rightarrow> 'a idr_context \<Rightarrow> (nat option \<times> 'a idr_context) option" where
  "idr_get_new_above ptr starting_id limit idp =
     (case idr_get_new_above_int ptr starting_id idp of
        Some (Some ret, idp') \<Rightarrow> if limit < ret then Some (None, snd (idr_remove ret idp')) else Some (Some ret, idp')
      | other \<Rightarrow> other)"

definition idr_get_new :: "'a \<Rightarrow> nat \<Rightarrow> 'a idr_context \<Rightarrow> (nat option \<times> 'a idr_context) option" where
  "idr_get_new ptr limit idp =
     (case idr_get_new_above_int ptr 0 idp of
        Some (Some ret, idp') \<Rightarrow> if limit < ret then Some (None, snd (idr_remove ret idp')) else Some (Some ret, idp')
      | other \<Rightarrow> other)"

text \<open>\<open>r1\<close> and \<open>r2\<close> are the two numbers of \<open>generate_random\<close>. A remainder by zero has no result.\<close>

definition idr_get_new_random :: "'a \<Rightarrow> u32 \<Rightarrow> u32 \<Rightarrow> nat \<Rightarrow> 'a idr_context \<Rightarrow> (nat option \<times> 'a idr_context) option" where
  "idr_get_new_random ptr r1 r2 limit idp =
     (if limit = 0 then None
      else case idr_get_new_above ptr (1 + unat r1 mod limit) limit idp of
             Some (None, idp') \<Rightarrow>
               if limit div 2 = 0 then None else idr_get_new_above ptr (1 + unat r2 mod (limit div 2)) limit idp'
           | other \<Rightarrow> other)"

end
