(* ===== verification/Idtree_Props.thy ===== *)
theory Idtree_Props
  imports Idtree
begin

text \<open>
  The radix tree implements a finite map from ids to pointers: \<open>layer_ok\<close> is the invariant of a
  layer, \<open>look\<close> the map it stands for. The locale \<open>id_table\<close> is what the users of the ids rely on:
  the least free id is allocated, an id that was allocated is found and can be removed. It is
  interpreted on the tree, and any sequence of such operations gives the answers of a growable
  array. The operations that leave this contract are shown at the end.
\<close>

section \<open>The invariant of a layer\<close>

fun is_null :: "'a slot \<Rightarrow> bool" where
  "is_null Null = True"
| "is_null _ = False"

lemma is_null_iff: "is_null s \<longleftrightarrow> s = Null"
  by (cases s) auto

definition used :: "'a slot list \<Rightarrow> nat" where
  "used xs = length (filter (\<lambda>s. \<not> is_null s) xs)"

fun layer_ok :: "nat \<Rightarrow> 'a layer \<Rightarrow> bool" where
  "layer_ok 0 p = (length (ary p) = 32 \<and> count p = used (ary p) \<and>
     (\<forall>i<32. case ary p ! i of Null \<Rightarrow> \<not> bit (bitmap p) i | Ptr x \<Rightarrow> bit (bitmap p) i | Sub q \<Rightarrow> False))"
| "layer_ok (Suc l) p = (length (ary p) = 32 \<and> count p = used (ary p) \<and>
     (\<forall>i<32. case ary p ! i of
        Null \<Rightarrow> \<not> bit (bitmap p) i
      | Sub q \<Rightarrow> layer_ok l q \<and> 0 < count q \<and> (bit (bitmap p) i \<longleftrightarrow> bitmap q = IDR_FULL)
      | Ptr x \<Rightarrow> False))"

fun look :: "nat \<Rightarrow> 'a layer \<Rightarrow> nat \<Rightarrow> 'a option" where
  "look 0 p r = (case ary p ! (r mod 32) of Ptr x \<Rightarrow> Some x | _ \<Rightarrow> None)"
| "look (Suc l) p r = (case ary p ! (r div 32 ^ Suc l mod 32) of Sub q \<Rightarrow> look l q r | _ \<Rightarrow> None)"

lemma layer_okD: "layer_ok l p \<Longrightarrow> length (ary p) = 32" "layer_ok l p \<Longrightarrow> count p = used (ary p)"
  by (cases l; simp)+

lemma leaf_slot:
  "layer_ok 0 p \<Longrightarrow> i < 32 \<Longrightarrow> ary p ! i = Null \<and> \<not> bit (bitmap p) i \<or> (\<exists>x. ary p ! i = Ptr x \<and> bit (bitmap p) i)"
  by (cases "ary p ! i") (auto dest!: spec [where x = i])

lemma inner_slot:
  "layer_ok (Suc l) p \<Longrightarrow> i < 32 \<Longrightarrow> ary p ! i = Null \<and> \<not> bit (bitmap p) i \<or>
     (\<exists>q. ary p ! i = Sub q \<and> layer_ok l q \<and> 0 < count q \<and> (bit (bitmap p) i \<longleftrightarrow> bitmap q = IDR_FULL))"
  by (cases "ary p ! i") (auto dest!: spec [where x = i])

lemma used_update:
  "i < length xs \<Longrightarrow> used (xs[i := s]) + (if is_null (xs ! i) then 0 else 1) = used xs + (if is_null s then 0 else 1)"
proof -
  assume i: "i < length xs"
  have "used xs = used (take i xs @ xs ! i # drop (Suc i) xs)" using i by (simp add: id_take_nth_drop [symmetric])
  then show ?thesis unfolding upd_conv_take_nth_drop [OF i] by (simp add: used_def)
qed

lemma used_pos: "i < length xs \<Longrightarrow> \<not> is_null (xs ! i) \<Longrightarrow> 0 < used xs"
  unfolding used_def by (metis filter_empty_conv length_greater_0_conv nth_mem)

lemma used_zero: "used xs = 0 \<longleftrightarrow> (\<forall>i<length xs. xs ! i = Null)"
  unfolding used_def by (auto simp: filter_empty_conv all_set_conv_all_nth is_null_iff)

lemma used_replicate [simp]: "used (replicate n Null) = 0"
  by (simp add: used_zero)

lemma full_iff: "bitmap p = IDR_FULL \<longleftrightarrow> (\<forall>i<32. bit (bitmap p) i)"
proof -
  have "IDR_FULL = mask 32" by (simp add: IDR_FULL_def mask_eq_exp_minus_1)
  then show ?thesis by (simp add: bit_eq_iff bit_mask_iff)
qed

lemma find_next_bit_spec:
  "n \<le> k \<Longrightarrow> let m = find_next_bit bm k n in n \<le> m \<and> m \<le> k \<and> (\<forall>j. n \<le> j \<longrightarrow> j < m \<longrightarrow> \<not> bit bm j) \<and> (m < k \<longrightarrow> bit bm m)"
proof (induction bm k n rule: find_next_bit.induct)
  case (1 bm k n)
  show ?case
  proof (cases "n < k \<and> \<not> bit bm n")
    case True
    let ?m = "find_next_bit bm k (n + 1)"
    have IH: "n + 1 \<le> ?m" "?m \<le> k" "\<forall>j. n + 1 \<le> j \<longrightarrow> j < ?m \<longrightarrow> \<not> bit bm j" "?m < k \<longrightarrow> bit bm ?m"
      using 1 True by (simp_all add: Let_def)
    have "\<not> bit bm j" if "n \<le> j" "j < ?m" for j
    proof (cases "j = n")
      case False
      then show ?thesis using IH that by simp
    qed (use True in simp)
    then show ?thesis using IH True unfolding find_next_bit.simps [of bm k n] Let_def by simp
  next
    case False
    with 1 show ?thesis unfolding find_next_bit.simps [of bm k n] Let_def by auto
  qed
qed

lemma first_free_bit:
  assumes "bitmap p \<noteq> IDR_FULL" and "d < 32" and "\<forall>j<d. bit (bitmap p) j"
  obtains m where "find_next_bit (NOT (bitmap p)) 32 d = m" "m < 32" "d \<le> m" "\<not> bit (bitmap p) m" "\<forall>j<m. bit (bitmap p) j"
proof
  let ?m = "find_next_bit (NOT (bitmap p)) 32 d"
  note spec = find_next_bit_spec [of d 32 "NOT (bitmap p)", unfolded Let_def]
  show "?m = ?m" ..
  show "d \<le> ?m" using spec assms by simp
  have low: "bit (bitmap p) j" if "j < ?m" for j
  proof (cases "j < d")
    case True
    then show ?thesis using assms by simp
  next
    case False
    then have "\<not> bit (NOT (bitmap p)) j" using that spec assms by simp
    moreover have "j < 32" using that spec assms by simp
    ultimately show ?thesis by (simp add: bit_not_iff)
  qed
  then show "\<forall>j<?m. bit (bitmap p) j" by blast
  show "?m < 32"
  proof (rule ccontr)
    assume "\<not> ?m < 32"
    then have "\<forall>i<32. bit (bitmap p) i" using low by simp
    then show False using assms(1) full_iff by blast
  qed
  then show "\<not> bit (bitmap p) ?m" using spec assms by (simp add: bit_not_iff)
qed

lemma full_look: "layer_ok l p \<Longrightarrow> bitmap p = IDR_FULL \<Longrightarrow> look l p r \<noteq> None"
proof (induction l arbitrary: p)
  case 0
  then have "bit (bitmap p) (r mod 32)" by (simp add: full_iff)
  then show ?case using leaf_slot [OF "0.prems"(1), of "r mod 32"] by auto
next
  case (Suc l)
  let ?i = "r div 32 ^ Suc l mod 32"
  have b: "bit (bitmap p) ?i" and lt: "?i < 32" using Suc.prems(2) by (simp_all add: full_iff)
  then show ?case using inner_slot [OF Suc.prems(1) lt] Suc.IH by auto
qed

section \<open>Allocation takes the least free id\<close>

lemma pow32: "2 ^ (5 * l) = (32::nat) ^ l"
  by (simp add: power_mult)

lemma digit_mod: "0 < k \<Longrightarrow> r mod (k * 32) div k mod 32 = r div k mod 32" for k r :: nat
  unfolding mod_mult2_eq by simp

lemma look_mod: "look l p (r mod 32 ^ Suc l) = look l p r"
proof (induction l arbitrary: p r)
  case (Suc l)
  have "r mod 32 ^ Suc (Suc l) div 32 ^ Suc l mod 32 = r div 32 ^ Suc l mod 32"
    using digit_mod [of "32 ^ Suc l" r] by (metis power_Suc2 zero_less_numeral zero_less_power)
  moreover have "look l q (r mod 32 ^ Suc (Suc l)) = look l q r" for q :: "'a layer"
    using Suc.IH [of q "r mod 32 ^ Suc (Suc l)"] Suc.IH [of q r]
    by (simp add: mod_mod_cancel)
  ultimately show ?case by (simp split: slot.split)
qed simp

lemma look_base: "32 ^ Suc l dvd b \<Longrightarrow> look l p (b + r) = look l p r"
  by (metis look_mod mod_add_left_eq dvd_imp_mod_0 add_0)

lemma layer_ok_new: "layer_ok l new_layer"
  by (cases l) (simp_all add: new_layer_def)

lemma look_new [simp]: "look l new_layer r = None"
  by (cases l) (simp_all add: new_layer_def)

lemma put_new [simp]: "put_slot new_layer 0 Null = new_layer"
  by (simp add: put_slot_def new_layer_def list_update_same_conv)

lemma put_child:
  assumes ok: "layer_ok (Suc k) p" and m: "m < 32" "\<not> bit (bitmap p) m" and q: "layer_ok k q" "0 < count q"
  defines "p' \<equiv> Layer (if bitmap q = IDR_FULL then set_bit m (bitmap p) else bitmap p) ((ary p)[m := Sub q])
      (if is_null (ary p ! m) then count p + 1 else count p)"
  shows "layer_ok (Suc k) p'" "0 < count p'"
    "look (Suc k) p' s = (if s div 32 ^ Suc k mod 32 = m then look k q s else look (Suc k) p s)"
proof -
  have len: "length (ary p) = 32" and cnt: "count p = used (ary p)" using ok by (simp_all add: layer_okD)
  have "count p' = used (ary p')" using used_update [of m "ary p" "Sub q"] m len cnt by (simp add: p'_def split: if_splits)
  then show ok': "layer_ok (Suc k) p'"
    using ok m q len by (auto simp: p'_def nth_list_update bit_set_bit_iff split: slot.splits)
  show "0 < count p'" using used_pos [of m "ary p'"] layer_okD(2) [OF ok'] m len by (simp add: p'_def)
  show "look (Suc k) p' s = (if s div 32 ^ Suc k mod 32 = m then look k q s else look (Suc k) p s)"
    using m len by (simp add: p'_def nth_list_update)
qed

lemma put_leaf:
  fixes p :: "'a layer" and x :: 'a
  assumes ok: "layer_ok 0 p" and m: "m < 32" "\<not> bit (bitmap p) m"
  defines "p' \<equiv> Layer (set_bit m (bitmap p)) ((ary p)[m := Ptr x]) (count p + 1)"
  shows "layer_ok 0 p'" "0 < count p'" "look 0 p' s = (if s mod 32 = m then Some x else look 0 p s)"
proof -
  have len: "length (ary p) = 32" and cnt: "count p = used (ary p)" using ok by (simp_all add: layer_okD)
  have nul: "is_null (ary p ! m)" using leaf_slot [OF ok m(1)] m(2) by auto
  have "count p' = used (ary p')" using used_update [of m "ary p" "Ptr x"] m len cnt nul by (simp add: p'_def)
  then show "layer_ok 0 p'" "0 < count p'"
    using ok m len by (auto simp: p'_def nth_list_update bit_set_bit_iff split: slot.splits)
  show "look 0 p' s = (if s mod 32 = m then Some x else look 0 p s)"
    using m len by (simp add: p'_def nth_list_update)
qed

lemma mark_up_unwind: "bitmap p \<noteq> IDR_FULL \<Longrightarrow> mark_up n p st = unwind p st"
  by (cases st) auto

text \<open>One turn of the loop in a layer with a free slot: the digit \<open>d\<close> is replaced by the first free slot \<open>m\<close>.\<close>

lemma at_slot_digit:
  assumes "32 ^ Suc l dvd b" and "d < 32" and "m < 32"
  shows "drop_bit (5 * l) (b + d * 32 ^ l) mod 32 = d" "at_slot (b + d * 32 ^ l) l d m = b + m * 32 ^ l"
proof -
  obtain c where b: "b = 32 * c * 32 ^ l" using assms(1) by (auto simp: dvd_def mult_ac)
  have q: "drop_bit (5 * l) (b + d * 32 ^ l) = 32 * c + d"
    unfolding b drop_bit_eq_div pow32 by (simp flip: distrib_right)
  then show dig: "drop_bit (5 * l) (b + d * 32 ^ l) mod 32 = d" using assms by simp
  show "at_slot (b + d * 32 ^ l) l d m = b + m * 32 ^ l"
    using at_slot_eq [OF assms(3), of "b + d * 32 ^ l" l] assms unfolding dig unfolding q pow32 unfolding b by (simp add: distrib_right)
qed

lemma least_in_child:
  assumes ok: "layer_ok (Suc k) p" and m: "m < 32" "\<forall>j<m. bit (bitmap p) j"
    and below: "\<And>s. s < r \<Longrightarrow> s < 32 ^ Suc k \<Longrightarrow> look (Suc k) p (m * 32 ^ Suc k + s) \<noteq> None"
    and s: "s < m * 32 ^ Suc k + r" and r: "r < 32 ^ Suc k"
  shows "look (Suc k) p s \<noteq> None"
proof (cases "s < m * 32 ^ Suc k")
  case True
  let ?i = "s div 32 ^ Suc k"
  have i: "?i < m" using True by (simp add: less_mult_imp_div_less)
  then have "?i mod 32 = ?i" "bit (bitmap p) ?i" using m by simp_all
  moreover obtain q where q: "ary p ! ?i = Sub q" "layer_ok k q" "bitmap q = IDR_FULL"
    using inner_slot [OF ok, of ?i] i m by auto
  ultimately show ?thesis using full_look [of k q s] by simp
next
  case False
  then obtain t where t: "s = m * 32 ^ Suc k + t" by (metis le_iff_add not_less)
  with s r show ?thesis using below [of t] by simp
qed

lemma child_digit:
  "32 ^ Suc (Suc l) dvd b \<Longrightarrow> m < 32 \<Longrightarrow> r < 32 ^ Suc l \<Longrightarrow> (b + (m * 32 ^ Suc l + r)) div 32 ^ Suc l mod 32 = m"
  for b m r :: nat
proof -
  assume a: "32 ^ Suc (Suc l) dvd b" "m < 32" "r < 32 ^ Suc l"
  then obtain c where "b = (32 * c) * 32 ^ Suc l" by (auto simp: dvd_def mult_ac)
  then have "b + (m * 32 ^ Suc l + r) = (32 * c + m) * 32 ^ Suc l + r" by (simp add: distrib_right)
  then have "(b + (m * 32 ^ Suc l + r)) div 32 ^ Suc l = 32 * c + m" using a(3) by (metis div_mult_self3 div_less add_0_right less_nat_zero_code)
  then show ?thesis using a(2) by simp
qed

lemma mod_child:
  "m < 32 \<Longrightarrow> r < 32 ^ Suc l \<Longrightarrow> s mod 32 ^ Suc (Suc l) = m * 32 ^ Suc l + r \<longleftrightarrow> s div 32 ^ Suc l mod 32 = m \<and> s mod 32 ^ Suc l = r"
  for m r s :: nat
proof -
  assume a: "m < 32" "r < 32 ^ Suc l"
  have eq: "s mod 32 ^ Suc (Suc l) = (s div 32 ^ Suc l mod 32) * 32 ^ Suc l + s mod 32 ^ Suc l"
    by (metis mod_mult2_eq power_Suc2 mult.commute)
  have split: "(u * k + v) div k = u \<and> (u * k + v) mod k = v" if "v < k" for u v k :: nat using that by simp
  show ?thesis unfolding eq using split [of "s mod 32 ^ Suc l" "32 ^ Suc l"] split [OF a(2)] by (metis mod_less_divisor zero_less_numeral zero_less_power)
qed

lemma sub_alloc_least:
  assumes "layer_ok l p" and "bitmap p \<noteq> IDR_FULL" and "32 ^ Suc l dvd b" and "d < 32" and "\<forall>j<d. bit (bitmap p) j"
    and "b + 32 ^ Suc l \<le> 2 ^ 31" and "l \<le> length free" and "set free \<subseteq> {new_layer}"
  shows "\<exists>r p' free'. sub_alloc_loop x (b + d * 32 ^ l) l p st free = (Id (b + r), mark_up ((b + r) div 32 ^ l) p' st, free') \<and>
    r < 32 ^ Suc l \<and> look l p r = None \<and> (\<forall>s<r. look l p s \<noteq> None) \<and> layer_ok l p' \<and> 0 < count p' \<and>
    (\<forall>s. look l p' s = (if s mod 32 ^ Suc l = r then Some x else look l p s)) \<and> set free' \<subseteq> {new_layer}"
  using assms
proof (induction l arbitrary: p b d st free)
  case (0 p b d st free)
  obtain m where m: "find_next_bit (NOT (bitmap p)) 32 d = m" "m < 32" "d \<le> m" "\<not> bit (bitmap p) m" "\<forall>j<m. bit (bitmap p) j"
    using first_free_bit [OF "0.prems"(2,4,5)] .
  let ?p = "Layer (set_bit m (bitmap p)) ((ary p)[m := Ptr x]) (count p + 1)"
  note dig = at_slot_digit [OF "0.prems"(3,4) m(2)]
  have free_m: "look 0 p m = None" using leaf_slot [OF "0.prems"(1) m(2)] m by auto
  have low: "look 0 p s \<noteq> None" if "s < m" for s
    using leaf_slot [OF "0.prems"(1), of s] m that by auto
  have lim: "\<not> MAX_ID_BIT \<le> b + m * 32 ^ 0" using "0.prems"(6) m by (simp add: MAX_ID_BIT_def)
  have "sub_alloc_loop x (b + d * 32 ^ 0) 0 p st free = (Id (b + m), mark_up (b + m) ?p st, free)"
    unfolding sub_alloc_loop.simps [of x _ 0] Let_def dig m(1) using m(2) lim by simp
  moreover have "\<forall>s. look 0 ?p s = (if s mod 32 ^ Suc 0 = m then Some x else look 0 p s)"
    using put_leaf(3) [OF "0.prems"(1) m(2,4), of x] by simp
  ultimately show ?case using put_leaf(1,2) [OF "0.prems"(1) m(2,4), of x] free_m low m(2) "0.prems"(8)
    unfolding power_0 div_by_1 power_Suc mult_1_right by blast
next
  case (Suc l p b d st free)
  obtain m where m: "find_next_bit (NOT (bitmap p)) 32 d = m" "m < 32" "d \<le> m" "\<not> bit (bitmap p) m" "\<forall>j<m. bit (bitmap p) j"
    using first_free_bit [OF Suc.prems(2,4,5)] .
  note dig = at_slot_digit [OF Suc.prems(3,4) m(2)]
  let ?b = "b + m * 32 ^ Suc l"
  have le: "?b + 32 ^ Suc l \<le> b + 32 ^ Suc (Suc l)"
    using mult_right_mono [of "m + 1" 32 "(32::nat) ^ Suc l"] m(2) by simp
  have dvd: "32 ^ Suc l dvd ?b" using Suc.prems(3) by (auto intro: dvd_trans [OF le_imp_power_dvd, of "Suc l" "Suc (Suc l)"])
  have lim: "\<not> MAX_ID_BIT \<le> ?b" using le Suc.prems(6) zero_less_power [of "32::nat" "Suc l"] unfolding MAX_ID_BIT_def by linarith
  define q where "q = (case ary p ! m of Sub q \<Rightarrow> q | _ \<Rightarrow> new_layer)"
  define f where "f = (if is_null (ary p ! m) then tl free else free)"
  define c where "c = (if is_null (ary p ! m) then count p + 1 else count p)"
  have child: "layer_ok l q" "bitmap q \<noteq> IDR_FULL" and slot: "ary p ! m = Null \<and> q = new_layer \<or> ary p ! m = Sub q"
    using inner_slot [OF Suc.prems(1) m(2)] m(4) layer_ok_new by (auto simp: q_def new_layer_def IDR_FULL_def)
  have f: "l \<le> length f" "set f \<subseteq> {new_layer}" using Suc.prems(7,8) by (cases free; simp add: f_def)+
  obtain g gs where g: "free = g # gs" "g = new_layer" using Suc.prems(7,8) by (cases free) auto
  have step: "sub_alloc_loop x (b + d * 32 ^ Suc l) (Suc l) p st free =
      sub_alloc_loop x ?b l q ((Layer (bitmap p) (ary p) c, m) # st) f"
    unfolding sub_alloc_loop.simps [of x _ "Suc l"] Let_def dig m(1)
    using slot m(2) lim g by (cases "ary p ! m") (simp_all add: alloc_layer_def f_def c_def q_def)
  have z: "(0::nat) < 32" "\<forall>j<0. bit (bitmap q) j" by simp_all
  have bound: "?b + 32 ^ Suc l \<le> 2 ^ 31" using le Suc.prems(6) by (rule le_trans)
  obtain r p' free' where r: "sub_alloc_loop x (?b + 0 * 32 ^ l) l q ((Layer (bitmap p) (ary p) c, m) # st) f =
        (Id (?b + r), mark_up ((?b + r) div 32 ^ l) p' ((Layer (bitmap p) (ary p) c, m) # st), free')"
    and r_lt: "r < 32 ^ Suc l" and r_free: "look l q r = None" and r_least: "\<forall>s<r. look l q s \<noteq> None"
    and ok': "layer_ok l p'" "0 < count p'" and look': "\<forall>s. look l p' s = (if s mod 32 ^ Suc l = r then Some x else look l q s)"
    and free': "set free' \<subseteq> {new_layer}"
    using Suc.IH [OF child dvd z bound f, of "(Layer (bitmap p) (ary p) c, m) # st"] by blast
  let ?r = "m * 32 ^ Suc l + r"
  let ?P = "Layer (if bitmap p' = IDR_FULL then set_bit m (bitmap p) else bitmap p) ((ary p)[m := Sub p']) c"
  note P = put_child [OF Suc.prems(1) m(2,4) ok', folded c_def]
  have digit: "(b + ?r) div 32 ^ l div 32 mod 32 = m"
    using child_digit [OF Suc.prems(3) m(2) r_lt] by (simp add: div_mult2_eq [symmetric] mult.commute)
  have "mark_up ((?b + r) div 32 ^ l) p' ((Layer (bitmap p) (ary p) c, m) # st) = mark_up ((b + ?r) div 32 ^ Suc l) ?P st"
    using digit mark_up_unwind [of "put_slot (Layer (bitmap p) (ary p) c) m (Sub p')"] Suc.prems(2)
    by (auto simp: put_slot_def add.assoc div_mult2_eq [symmetric] mult.commute)
  then have run: "sub_alloc_loop x (b + d * 32 ^ Suc l) (Suc l) p st free = (Id (b + ?r), mark_up ((b + ?r) div 32 ^ Suc l) ?P st, free')"
    using step r by (simp add: add.assoc)
  have in_child: "look (Suc l) p (m * 32 ^ Suc l + s) = look l q s" if "s < 32 ^ Suc l" for s
    using slot child_digit [of l 0 m s] look_base [of l "m * 32 ^ Suc l" q s] m(2) that by auto
  have least: "\<forall>s<?r. look (Suc l) p s \<noteq> None"
    using least_in_child [OF Suc.prems(1) m(2,5), of r] in_child r_least r_lt by metis
  have "\<forall>s. look (Suc l) ?P s = (if s mod 32 ^ Suc (Suc l) = ?r then Some x else look (Suc l) p s)"
    unfolding mod_child [OF m(2) r_lt] P(3) look' [rule_format] using slot by auto
  moreover have "?r < 32 ^ Suc (Suc l)" using le r_lt by linarith
  ultimately show ?case using run P(1,2) in_child [OF r_lt, unfolded r_free] least free' by blast
qed

section \<open>The tree as a map\<close>

definition span :: "nat \<Rightarrow> 'a layer \<Rightarrow> nat \<Rightarrow> 'a option" where
  "span l p i = (if i < 32 ^ Suc l then look l p i else None)"

definition idr_map :: "'a idr_context \<Rightarrow> nat \<Rightarrow> 'a option" where
  "idr_map idp = (case top idp of None \<Rightarrow> \<lambda>i. None | Some p \<Rightarrow> span (layers idp - 1) p)"

definition idr_ok :: "'a idr_context \<Rightarrow> bool" where
  "idr_ok idp \<longleftrightarrow> set (id_free idp) \<subseteq> {new_layer} \<and>
     (case top idp of None \<Rightarrow> layers idp = 0
      | Some p \<Rightarrow> 1 \<le> layers idp \<and> layers idp \<le> 5 \<and> layer_ok (layers idp - 1) p \<and> 0 < count p)"

definition least_free :: "(nat \<Rightarrow> 'a option) \<Rightarrow> nat \<Rightarrow> bool" where
  "least_free m r \<longleftrightarrow> m r = None \<and> (\<forall>i<r. m i \<noteq> None)"

lemma least_free_unique: "least_free m r \<Longrightarrow> least_free m r' \<Longrightarrow> r = r'"
  unfolding least_free_def by (metis linorder_neqE_nat)

lemma plant:
  assumes "layer_ok l p" "bitmap p \<noteq> IDR_FULL" "d < 32" "\<forall>j<d. bit (bitmap p) j" "l < 5" "l \<le> length free"
    "set free \<subseteq> {new_layer}" and least: "least_free (span l p) r"
  obtains p' free' where "sub_alloc_loop x (d * 32 ^ l) l p [] free = (Id r, p', free')" "layer_ok l p'" "0 < count p'"
    "set free' \<subseteq> {new_layer}" "span l p' = (span l p)(r \<mapsto> x)"
proof -
  have "(32::nat) ^ Suc l \<le> 32 ^ 5" using assms(5) by (intro power_increasing) simp_all
  then have "0 + (32::nat) ^ Suc l \<le> 2 ^ 31" by simp
  from sub_alloc_least [OF assms(1,2) dvd_0_right assms(3,4) this assms(6,7), of x "[]"]
  obtain r' p' free' where r': "sub_alloc_loop x (d * 32 ^ l) l p [] free = (Id r', p', free')" "r' < 32 ^ Suc l"
      "look l p r' = None" "\<forall>s<r'. look l p s \<noteq> None"
    and p': "layer_ok l p'" "0 < count p'" "\<forall>s. look l p' s = (if s mod 32 ^ Suc l = r' then Some x else look l p s)"
      "set free' \<subseteq> {new_layer}"
    by auto
  have "least_free (span l p) r'" using r' by (simp add: least_free_def span_def)
  then have eq: "r' = r" using least by (rule least_free_unique)
  have "span l p' = (span l p)(r \<mapsto> x)"
  proof
    fix s show "span l p' s = ((span l p)(r \<mapsto> x)) s"
      using r'(2) p'(3) unfolding eq span_def by (cases "s < 32 ^ Suc l") (simp_all add: span_def)
  qed
  then show ?thesis using r'(1) p' unfolding eq by (intro that) blast+
qed

lemma wrap_ok:
  fixes p :: "'a layer"
  assumes ok: "layer_ok l p" "0 < count p"
  shows "layer_ok (Suc l) (wrap_layer new_layer p)" "span (Suc l) (wrap_layer new_layer p) = span l p"
proof -
  let ?n = "new_layer :: 'a layer"
  have W: "wrap_layer ?n p = Layer (if bitmap p = IDR_FULL then set_bit 0 (bitmap ?n) else bitmap ?n)
      ((ary ?n)[0 := Sub p]) (if is_null (ary ?n ! 0) then count ?n + 1 else count ?n)"
    by (simp add: wrap_layer_def new_layer_def)
  have z: "(0::nat) < 32" "\<not> bit (bitmap (new_layer :: 'a layer)) 0" by (simp_all add: new_layer_def)
  show "layer_ok (Suc l) (wrap_layer new_layer p)" using put_child(1) [OF layer_ok_new z ok] by (simp only: W)
  have top_digit: "s div 32 ^ Suc l mod 32 = 0 \<longleftrightarrow> s < 32 ^ Suc l" if "s < 32 ^ Suc (Suc l)" for s :: nat
  proof -
    have "s div 32 ^ Suc l < 32" using that by (simp add: less_mult_imp_div_less)
    then show ?thesis by (simp add: div_eq_0_iff)
  qed
  have "(32::nat) ^ Suc l < 32 ^ Suc (Suc l)" by simp
  then show "span (Suc l) (wrap_layer new_layer p) = span l p"
    unfolding W span_def put_child(3) [OF layer_ok_new z ok] look_new using top_digit
    by (intro ext) (metis less_trans)
qed

lemma pre_get_ok: "set free \<subseteq> {new_layer} \<Longrightarrow> set (idr_pre_get free) \<subseteq> {new_layer} \<and> 14 \<le> length (idr_pre_get free)"
  by (auto simp: idr_pre_get_def IDR_FREE_MAX_def)

lemma grow_stop: "id_no < 32 ^ ls \<Longrightarrow> grow id_no b ls p free = Inr (p, ls, free)"
  by (simp add: grow.simps pow32)

lemma get_new_empty:
  fixes x :: 'a
  assumes "idr_ok idp" and "top idp = None" and "14 \<le> length (id_free idp)"
  shows "\<exists>idp'. build_up x 0 idp = Some (Some 0, idp') \<and> idr_ok idp' \<and> idr_map idp' = (idr_map idp)(0 \<mapsto> x)"
proof -
  obtain fs where fs: "id_free idp = new_layer # fs" "set fs \<subseteq> {new_layer}"
    using assms by (cases "id_free idp") (auto simp: idr_ok_def)
  have "bitmap new_layer \<noteq> IDR_FULL" by (simp add: new_layer_def IDR_FULL_def)
  moreover have "least_free (span 0 new_layer) 0" by (simp add: least_free_def span_def del: look.simps)
  ultimately obtain p' free' where p': "sub_alloc_loop x (0 * 32 ^ 0) 0 new_layer [] fs = (Id 0, p', free')" "layer_ok 0 p'" "0 < count p'"
      "set free' \<subseteq> {new_layer}" "span 0 p' = (span 0 new_layer)(0 \<mapsto> x)"
    using plant [OF layer_ok_new, of 0 0 fs 0 x] fs(2) by auto
  have "build_up x 0 idp = Some (Some 0, idp\<lparr>top := Some p', layers := 1, id_free := free'\<rparr>)"
    unfolding build_up.simps [of x 0 idp] using assms(2) fs(1) p'(1) by (simp add: alloc_layer_def grow_stop)
  moreover have "span 0 (new_layer :: 'a layer) = (\<lambda>i. None)" by (rule ext) (simp add: span_def del: look.simps)
  ultimately show ?thesis using p' assms(2) by (simp add: idr_ok_def idr_map_def)
qed

lemma build_up_plant:
  assumes p: "top idp = Some p" and g: "grow id_no 0 (layers idp) p (id_free idp) = Inr (p', Suc l, free')"
    and id: "id_no = d * 32 ^ l" and ok: "layer_ok l p'" "bitmap p' \<noteq> IDR_FULL" "d < 32" "\<forall>j<d. bit (bitmap p') j" "l < 5"
    "l \<le> length free'" "set free' \<subseteq> {new_layer}" "least_free (span l p') r"
  shows "\<exists>idp'. build_up x id_no idp = Some (Some r, idp') \<and> idr_ok idp' \<and> idr_map idp' = (span l p')(r \<mapsto> x)"
proof -
  obtain q free'' where q: "sub_alloc_loop x (d * 32 ^ l) l p' [] free' = (Id r, q, free'')" "layer_ok l q" "0 < count q"
      "set free'' \<subseteq> {new_layer}" "span l q = (span l p')(r \<mapsto> x)"
    using plant [OF ok] .
  have "build_up x id_no idp = Some (Some r, idp\<lparr>top := Some q, layers := Suc l, id_free := free''\<rparr>)"
    unfolding build_up.simps [of x id_no idp] using p g q(1) unfolding id by simp
  then show ?thesis using q ok(5) by (simp add: idr_ok_def idr_map_def)
qed

lemma full_no_space:
  assumes "bitmap p = IDR_FULL"
  shows "sub_alloc_loop x 0 l p [] free = (No_Space (32 ^ Suc l), p, free)"
proof -
  let ?m = "find_next_bit (NOT (bitmap p)) 32 0"
  have "\<not> ?m < 32"
    using find_next_bit_spec [of 0 32 "NOT (bitmap p)"] assms full_iff [of p] by (auto simp: Let_def bit_not_iff)
  then have "32 \<le> ?m" by simp
  moreover have "next_start 0 (l + 1) = 32 ^ Suc l" unfolding next_start_eq pow32 by simp
  ultimately show ?thesis unfolding sub_alloc_loop.simps [of x 0 l] by simp
qed

lemma get_new_full:
  assumes ok: "idr_ok idp" and p: "top idp = Some p" and full: "bitmap p = IDR_FULL"
    and free: "14 \<le> length (id_free idp)" and r: "least_free (idr_map idp) r" "r < 32 ^ 5"
  shows "\<exists>idp'. build_up x 0 idp = Some (Some r, idp') \<and> idr_ok idp' \<and> idr_map idp' = (idr_map idp)(r \<mapsto> x)"
proof -
  obtain l where l: "layers idp = Suc l" "layer_ok l p" "0 < count p" and fs: "set (id_free idp) \<subseteq> {new_layer}"
    using ok p by (cases "layers idp") (auto simp: idr_ok_def)
  obtain f fs' where f: "id_free idp = new_layer # fs'" using free fs by (cases "id_free idp") auto
  have map: "idr_map idp = span l p" using p l by (simp add: idr_map_def)
  have "32 ^ Suc l \<le> r" using full_look [OF l(2) full] r(1) unfolding map least_free_def span_def by (metis not_less)
  then have "(32::nat) ^ Suc l < 32 ^ 5" using r(2) by (rule le_less_trans)
  then have l5: "Suc l < 5" by (rule power_less_imp_less_exp [rotated]) simp
  let ?idp = "idp\<lparr>top := Some p, layers := Suc l, id_free := id_free idp\<rparr>"
  have same: "?idp = idp" using p l(1) by simp
  have "build_up x 0 idp = build_up x (32 ^ Suc l) ?idp"
    unfolding build_up.simps [of x 0 idp] using p l(1) by (simp add: grow_stop full_no_space [OF full])
  then have again: "build_up x 0 idp = build_up x (32 ^ Suc l) idp" unfolding same .
  have "grow (32 ^ Suc l) 0 (layers idp) p (id_free idp) = grow (32 ^ Suc l) 1 (Suc (Suc l)) (wrap_layer new_layer p) fs'"
    by (subst grow.simps) (use l l5 f pow32 [of "Suc l"] in \<open>simp add: MAX_LEVEL_def alloc_layer_def\<close>)
  also have "\<dots> = Inr (wrap_layer new_layer p, Suc (Suc l), fs')" by (rule grow_stop) simp
  finally have g: "grow (32 ^ Suc l) 0 (layers idp) p (id_free idp) = Inr (wrap_layer new_layer p, Suc (Suc l), fs')" .
  have bits: "bitmap (wrap_layer new_layer p) = 1" using full by (simp add: wrap_layer_def new_layer_def set_bit_eq_or)
  have "\<exists>idp'. build_up x (32 ^ Suc l) idp = Some (Some r, idp') \<and> idr_ok idp' \<and>
      idr_map idp' = (span (Suc l) (wrap_layer new_layer p))(r \<mapsto> x)"
    by (rule build_up_plant [OF p g, of 1])
      (use l5 l wrap_ok [OF l(2,3)] bits f free fs r(1) map in \<open>auto simp: IDR_FULL_def\<close>)
  then show ?thesis unfolding again map wrap_ok(2) [OF l(2,3)] .
qed

lemma get_new_least:
  assumes ok: "idr_ok idp" and r: "least_free (idr_map idp) r" "r < 32 ^ 5"
  shows "\<exists>idp'. idr_get_new_above_int x 0 idp = Some (Some r, idp') \<and> idr_ok idp' \<and> idr_map idp' = (idr_map idp)(r \<mapsto> x)"
proof -
  let ?idp = "idp\<lparr>id_free := idr_pre_get (id_free idp)\<rparr>"
  have ok': "idr_ok ?idp" and len: "14 \<le> length (id_free ?idp)"
    using ok pre_get_ok [of "id_free idp"] by (simp_all add: idr_ok_def split: option.splits)
  have map: "idr_map ?idp = idr_map idp" by (simp add: idr_map_def split: option.split)
  show ?thesis
  proof (cases "top idp")
    case None
    then have "idr_map idp = (\<lambda>i. None)" by (simp add: idr_map_def)
    then have "r = 0" using r(1) by (auto simp: least_free_def)
    then show ?thesis using get_new_empty [OF ok' _ len, of x] None map by (simp add: idr_get_new_above_int_def)
  next
    case (Some p)
    then obtain l where l: "layers idp = Suc l" "layer_ok l p" "l < 5" using ok by (cases "layers idp") (auto simp: idr_ok_def)
    show ?thesis
    proof (cases "bitmap p = IDR_FULL")
      case True
      then show ?thesis using get_new_full [OF ok' _ True len] r Some map by (simp add: idr_get_new_above_int_def)
    next
      case False
      have span: "idr_map idp = span l p" using Some l by (simp add: idr_map_def)
      have "\<exists>idp'. build_up x 0 ?idp = Some (Some r, idp') \<and> idr_ok idp' \<and> idr_map idp' = (span l p)(r \<mapsto> x)"
        by (rule build_up_plant [of ?idp p 0 p l "id_free ?idp" 0])
          (use Some l False len ok' r(1) span in \<open>auto simp: grow_stop idr_ok_def\<close>)
      then show ?thesis unfolding span idr_get_new_above_int_def .
    qed
  qed
qed

section \<open>Removal\<close>

definition digit :: "nat \<Rightarrow> nat \<Rightarrow> nat" where
  "digit l s = s div 32 ^ l mod 32"

lemma digit_lt [simp]: "digit l s < 32"
  by (simp add: digit_def)

lemma digit_bits: "drop_bit (5 * l) s mod 32 = digit l s"
  unfolding digit_def drop_bit_eq_div pow32 ..

lemma same_mod_digit:
  "s mod 32 ^ Suc (Suc l) = t mod 32 ^ Suc (Suc l) \<longleftrightarrow> digit (Suc l) s = digit (Suc l) t \<and> s mod 32 ^ Suc l = t mod 32 ^ Suc l"
proof -
  let ?m = "t div 32 ^ Suc l mod 32" and ?r = "t mod 32 ^ Suc l"
  have m: "?m < 32" "?r < 32 ^ Suc l" by simp_all
  have "t mod 32 ^ Suc (Suc l) = ?m * 32 ^ Suc l + ?r" unfolding mod_child [OF m] by simp
  then show ?thesis unfolding digit_def using mod_child [OF m, of s] by simp
qed

lemma look_other_slots:
  assumes "\<And>i. i < 32 \<Longrightarrow> i \<noteq> m \<Longrightarrow> ary p' ! i = ary p ! i" and "digit l s \<noteq> m"
  shows "look l p' s = look l p s"
  using assms by (cases l) (simp_all add: digit_def)

lemma look_null: "ary p ! digit l s = Null \<Longrightarrow> look l p s = None"
  by (cases l) (simp_all add: digit_def)

lemma layer_ok_clear:
  assumes ok: "layer_ok l p" and m: "m < 32" and p': "ary p' = (ary p)[m := Null]" "bitmap p' = unset_bit m (bitmap p)"
    "count p' = used (ary p')"
  shows "layer_ok l p'"
  using ok m unfolding p'(3) by (cases l) (auto simp: p' nth_list_update bit_unset_bit_iff split: slot.splits)

lemma layer_ok_empty:
  assumes ok: "layer_ok l p" and "count p = 0"
  shows "p = new_layer"
proof -
  have nul: "\<forall>i<32. ary p ! i = Null" and len: "length (ary p) = 32" and cnt: "count p = 0"
    using assms layer_okD [OF ok] used_zero [of "ary p"] by auto
  have "bitmap p = 0" using ok nul by (cases l) (auto intro!: bit_eqI dest: bit_imp_le_length)
  moreover have "ary p = replicate 32 Null" using nul len by (intro nth_equalityI) simp_all
  ultimately show ?thesis using cnt by (cases p) (simp add: new_layer_def)
qed

lemma drop_slot_ok:
  assumes ok: "layer_ok l p" and m: "m < 32" "ary p ! m \<noteq> Null"
  obtains (gone) "drop_slot (clear_slot_bit p m) m free = (None, new_layer # free)" "\<And>i. i < 32 \<Longrightarrow> i \<noteq> m \<Longrightarrow> ary p ! i = Null"
  | (kept) p' where "drop_slot (clear_slot_bit p m) m free = (Some p', free)" "layer_ok l p'" "0 < count p'" "ary p' = (ary p)[m := Null]"
proof -
  let ?p = "Layer (unset_bit m (bitmap p)) ((ary p)[m := Null]) (count p - 1)"
  have len: "length (ary p) = 32" and cnt: "count p = used (ary p)" using ok by (simp_all add: layer_okD)
  have "count ?p = used (ary ?p)" using used_update [of m "ary p" Null] m len cnt by (simp add: is_null_iff)
  then have ok': "layer_ok l ?p" using layer_ok_clear [OF ok m(1), of ?p] by simp
  have eq: "drop_slot (clear_slot_bit p m) m free = (if count ?p = 0 then (None, free_layer free ?p) else (Some ?p, free))"
    by (simp add: drop_slot_def clear_slot_bit_def)
  show ?thesis
  proof (cases "count ?p = 0")
    case True
    then have new: "?p = new_layer" by (rule layer_ok_empty [OF ok'])
    have "ary p ! i = Null" if "i < 32" "i \<noteq> m" for i
      using arg_cong [OF new, of "\<lambda>p. ary p ! i"] that by (simp add: new_layer_def)
    then show ?thesis using eq True unfolding new by (intro gone) (simp_all add: free_layer_def)
  next
    case False
    then show ?thesis using eq ok' by (intro kept [of ?p]) simp_all
  qed
qed

definition removed :: "nat \<Rightarrow> nat \<Rightarrow> 'a layer \<Rightarrow> 'a layer option \<Rightarrow> bool" where
  "removed l i p t \<longleftrightarrow> (case t of
     None \<Rightarrow> \<forall>s. s mod 32 ^ Suc l \<noteq> i mod 32 ^ Suc l \<longrightarrow> look l p s = None
   | Some p' \<Rightarrow> layer_ok l p' \<and> 0 < count p' \<and>
       (\<forall>s. look l p' s = (if s mod 32 ^ Suc l = i mod 32 ^ Suc l then None else look l p s)))"

lemma removed_slot:
  assumes ok: "layer_ok l p" and m: "ary p ! digit l i \<noteq> Null" and fs: "set free \<subseteq> {new_layer}"
    and only: "\<And>s. digit l s = digit l i \<Longrightarrow> s mod 32 ^ Suc l \<noteq> i mod 32 ^ Suc l \<Longrightarrow> look l p s = None"
    and same: "\<And>s. s mod 32 ^ Suc l = i mod 32 ^ Suc l \<Longrightarrow> digit l s = digit l i"
  shows "\<exists>t free'. drop_slot (clear_slot_bit p (digit l i)) (digit l i) free = (t, free') \<and> set free' \<subseteq> {new_layer} \<and> removed l i p t"
proof (cases rule: drop_slot_ok [OF ok digit_lt m, of free])
  case 1
  have "look l p s = None" if "s mod 32 ^ Suc l \<noteq> i mod 32 ^ Suc l" for s
    using only [OF _ that] 1(2) [of "digit l s"] look_null [of p l s] by (cases "digit l s = digit l i") simp_all
  then show ?thesis using 1(1) fs by (simp add: removed_def)
next
  case (2 p')
  have "look l p' s = (if s mod 32 ^ Suc l = i mod 32 ^ Suc l then None else look l p s)" for s
  proof (cases "digit l s = digit l i")
    case True
    then have "look l p' s = None" using 2(4) layer_okD(1) [OF ok] by (intro look_null) simp
    then show ?thesis using only [OF True] by simp
  next
    case False
    then have "look l p' s = look l p s" using 2(4) by (intro look_other_slots [of "digit l i"]) simp_all
    moreover have "s mod 32 ^ Suc l \<noteq> i mod 32 ^ Suc l" using same False by blast
    ultimately show ?thesis by simp
  qed
  then show ?thesis using 2 fs by (simp add: removed_def)
qed

lemma sub_remove_ok:
  "layer_ok l p \<Longrightarrow> look l p i = Some y \<Longrightarrow> set free \<subseteq> {new_layer} \<Longrightarrow>
   \<exists>t free'. sub_remove l i p free = (True, t, free') \<and> set free' \<subseteq> {new_layer} \<and> removed l i p t"
proof (induction l arbitrary: p free)
  case (0 p free)
  have d: "digit 0 s = s mod 32" "s mod 32 ^ Suc 0 = s mod 32" for s by (simp_all add: digit_def)
  have "bit (bitmap p) (i mod 32)" and n: "ary p ! (i mod 32) \<noteq> Null"
    using leaf_slot [OF "0.prems"(1), of "i mod 32"] "0.prems"(2) by auto
  then have "sub_remove 0 i p free = (True, drop_slot (clear_slot_bit p (i mod 32)) (i mod 32) free)" by (simp add: Let_def)
  then show ?case using removed_slot [OF "0.prems"(1) _ "0.prems"(3), of i] n unfolding d by auto
next
  case (Suc l p free)
  let ?m = "digit (Suc l) i"
  obtain q where q: "ary p ! ?m = Sub q" "layer_ok l q" "0 < count q" "look l q i = Some y"
    using inner_slot [OF Suc.prems(1), of ?m] Suc.prems(2) by (auto simp: digit_def)
  obtain t free' where t: "sub_remove l i q free = (True, t, free')" "set free' \<subseteq> {new_layer}" "removed l i q t"
    using Suc.IH [OF q(2,4) Suc.prems(3)] by blast
  have in_m: "look (Suc l) p s = look l q s" if "digit (Suc l) s = ?m" for s using that q(1) by (simp add: digit_def)
  show ?case
  proof (cases t)
    case None
    then have eq: "sub_remove (Suc l) i p free = (True, drop_slot (clear_slot_bit p ?m) ?m free')"
      using q(1) t(1) by (simp add: digit_bits Let_def del: mult_Suc_right)
    have "look (Suc l) p s = None" if "digit (Suc l) s = ?m" "s mod 32 ^ Suc (Suc l) \<noteq> i mod 32 ^ Suc (Suc l)" for s
      using t(3) that in_m unfolding removed_def None same_mod_digit by simp
    then obtain t' free'' where "drop_slot (clear_slot_bit p ?m) ?m free' = (t', free'')" "set free'' \<subseteq> {new_layer}" "removed (Suc l) i p t'"
      using removed_slot [OF Suc.prems(1) _ t(2), of i] q(1) same_mod_digit by (metis slot.distinct(1))
    then show ?thesis unfolding eq by blast
  next
    case (Some q')
    let ?p = "put_slot (clear_slot_bit p ?m) ?m (Sub q')"
    have eq: "sub_remove (Suc l) i p free = (True, Some ?p, free')"
      using Some q(1) t(1) by (simp add: digit_bits Let_def del: mult_Suc_right)
    have q': "layer_ok l q'" "0 < count q'" and look': "\<And>s. look l q' s = (if s mod 32 ^ Suc l = i mod 32 ^ Suc l then None else look l q s)"
      using t(3) by (simp_all add: removed_def Some)
    have nf: "bitmap q' \<noteq> IDR_FULL" using full_look [OF q'(1), of i] look' by auto
    let ?e = "Layer (unset_bit ?m (bitmap p)) ((ary p)[?m := Null]) (count p - 1)"
    have len: "length (ary p) = 32" and cnt: "count p = used (ary p)" "0 < count p"
      using layer_okD [OF Suc.prems(1)] used_pos [of ?m "ary p"] q(1) by simp_all
    have e: "layer_ok (Suc l) ?e"
      using used_update [of ?m "ary p" Null] len cnt q(1) by (intro layer_ok_clear [OF Suc.prems(1) digit_lt]) simp_all
    have nb: "\<not> bit (bitmap ?e) ?m" by (simp add: bit_unset_bit_iff)
    note P = put_child [OF e digit_lt nb q']
    have p: "?p = Layer (if bitmap q' = IDR_FULL then set_bit ?m (bitmap ?e) else bitmap ?e) ((ary ?e)[?m := Sub q'])
        (if is_null (ary ?e ! ?m) then count ?e + 1 else count ?e)"
      using len cnt(2) nf by (simp add: put_slot_def clear_slot_bit_def)
    have ok': "layer_ok (Suc l) ?p" "0 < count ?p" unfolding p by (rule P(1), rule P(2))
    have look_p: "look (Suc l) ?p s = (if digit (Suc l) s = ?m then look l q' s else look (Suc l) ?e s)" for s
      unfolding p P(3) digit_def [of "Suc l" s] ..
    have "look (Suc l) ?e s = look (Suc l) p s" if "digit (Suc l) s \<noteq> ?m" for s
      using that by (intro look_other_slots [of ?m]) simp_all
    then have "look (Suc l) ?p s = (if s mod 32 ^ Suc (Suc l) = i mod 32 ^ Suc (Suc l) then None else look (Suc l) p s)" for s
      unfolding look_p look' same_mod_digit using in_m by simp
    then show ?thesis using eq ok' t(2) unfolding removed_def by auto
  qed
qed

lemma clear_bit_idle: "\<not> bit (bitmap p) n \<Longrightarrow> clear_slot_bit p n = p"
  by (cases p) (auto simp: clear_slot_bit_def bit_unset_bit_iff intro!: bit_eqI)

lemma sub_remove_absent: "layer_ok l p \<Longrightarrow> look l p i = None \<Longrightarrow> sub_remove l i p free = (False, Some p, free)"
proof (induction l arbitrary: p)
  case (0 p)
  then show ?case using leaf_slot [OF "0.prems"(1), of "i mod 32"] by (auto simp: Let_def)
next
  case (Suc l p)
  let ?m = "digit (Suc l) i"
  have nb: "\<not> bit (bitmap p) ?m"
    using inner_slot [OF Suc.prems(1), of ?m] Suc.prems(2) by (auto simp: digit_def dest: full_look [of l _ i])
  consider "ary p ! ?m = Null" | q where "ary p ! ?m = Sub q" "layer_ok l q"
    using inner_slot [OF Suc.prems(1), of ?m] by auto
  then show ?case
  proof cases
    case 1
    then show ?thesis using clear_bit_idle [OF nb] by (simp add: digit_bits Let_def del: mult_Suc_right)
  next
    case q: (2 q)
    then have "look l q i = None" using Suc.prems(2) by (simp add: digit_def)
    moreover have "put_slot p ?m (Sub q) = p" using q(1) list_update_id [of "ary p" ?m] by (cases p) (simp add: put_slot_def)
    ultimately show ?thesis using Suc.IH [OF q(2)] q(1) clear_bit_idle [OF nb]
      by (simp add: digit_bits Let_def del: mult_Suc_right)
  qed
qed

lemma walk_down_look: "layer_ok l p \<Longrightarrow> walk_down (Suc l) i (Sub p) = (case look l p i of None \<Rightarrow> Null | Some x \<Rightarrow> Ptr x)"
proof (induction l arbitrary: p)
  case (0 p)
  then show ?case using leaf_slot [OF 0, of "i mod 32"] by auto
next
  case (Suc l p)
  have "drop_bit (5 * Suc l) i mod 32 = digit (Suc l) i" by (rule digit_bits)
  then have "walk_down (Suc (Suc l)) i (Sub p) = walk_down (Suc l) i (ary p ! digit (Suc l) i)" by simp
  then show ?case using inner_slot [OF Suc.prems, of "digit (Suc l) i"] Suc.IH by (auto simp: digit_def)
qed

lemma drop_layer_ok:
  assumes ok: "idr_ok idp"
  shows "idr_ok (drop_layer idp) \<and> idr_map (drop_layer idp) = idr_map idp"
proof (cases "\<exists>p q. top idp = Some p \<and> count p = 1 \<and> 1 < layers idp \<and> ary p ! 0 = Sub q")
  case True
  then obtain p q where pq: "top idp = Some p" "count p = 1" "1 < layers idp" "ary p ! 0 = Sub q" by blast
  then obtain l where "layers idp = Suc (Suc l)" using less_imp_Suc_add [of 1 "layers idp"] by auto
  with pq have p: "top idp = Some p" "count p = 1" "layers idp = Suc (Suc l)" "ary p ! 0 = Sub q" by simp_all
  have okp: "layer_ok (Suc l) p" and l5: "Suc (Suc l) \<le> 5" and fs: "set (id_free idp) \<subseteq> {new_layer}" using ok p by (simp_all add: idr_ok_def)
  have q: "layer_ok l q" "0 < count q" using inner_slot [OF okp, of 0] p(4) by auto
  have len: "length (ary p) = 32" "used (ary p) = 1" using layer_okD [OF okp] p(2) by simp_all
  have "used ((ary p)[0 := Null]) = 0" using used_update [of 0 "ary p" Null] len p(4) by simp
  then have nul: "\<forall>i<32. (ary p)[0 := Null] ! i = Null" using len unfolding used_zero by simp
  have "(ary p)[0 := Null] = replicate 32 Null" using nul len by (intro nth_equalityI) simp_all
  then have "put_slot (Layer 0 (ary p) 0) 0 Null = new_layer" by (simp add: put_slot_def new_layer_def)
  moreover have "span (Suc l) p = span l q"
  proof
    fix s :: nat
    consider "s < 32 ^ Suc l" | "32 ^ Suc l \<le> s" "s < 32 ^ Suc (Suc l)" | "32 ^ Suc (Suc l) \<le> s" by linarith
    then show "span (Suc l) p s = span l q s"
    proof cases
      case 1
      then have "s div 32 ^ Suc l = 0" "s < 32 ^ Suc (Suc l)" by simp_all
      then show ?thesis using 1 p(4) by (simp add: span_def)
    next
      case 2
      then have "0 < s div 32 ^ Suc l" "s div 32 ^ Suc l < 32" by (simp_all add: div_greater_zero_iff less_mult_imp_div_less)
      then have "ary p ! (s div 32 ^ Suc l mod 32) = Null" using nul by (metis mod_less nth_list_update_neq less_numeral_extra(3))
      then show ?thesis using 2 by (simp add: span_def)
    next
      case 3
      then show ?thesis by (simp add: span_def)
    qed
  qed
  ultimately show ?thesis using p q l5 fs by (simp add: drop_layer_def idr_ok_def idr_map_def free_layer_def)
next
  case False
  then have "drop_layer idp = idp" by (auto simp: drop_layer_def split: option.split slot.split)
  then show ?thesis using ok by simp
qed

lemma idr_map_range: "idr_ok idp \<Longrightarrow> idr_map idp i \<noteq> None \<Longrightarrow> i < 32 ^ layers idp"
  by (auto simp: idr_ok_def idr_map_def span_def split: option.splits if_splits)

lemma mask_id: "idr_ok idp \<Longrightarrow> i < 32 ^ layers idp \<Longrightarrow> take_bit 31 i = i" for i :: nat
proof -
  assume ok: "idr_ok idp" and i: "i < 32 ^ layers idp"
  have "layers idp \<le> 5" using ok by (auto simp: idr_ok_def split: option.splits)
  then have "(32::nat) ^ layers idp \<le> 32 ^ 5" by (intro power_increasing) simp_all
  then show ?thesis using i by (intro take_bit_nat_eq_self) simp
qed

lemma trim_ok:
  assumes "idr_ok idp"
  shows "idr_ok (idp\<lparr>id_free := trim_free (id_free idp)\<rparr>)" "idr_map (idp\<lparr>id_free := trim_free (id_free idp)\<rparr>) = idr_map idp"
proof -
  have "set (trim_free (id_free idp)) \<subseteq> {new_layer}" using assms unfolding idr_ok_def trim_free_def by (meson set_drop_subset subset_trans)
  then show "idr_ok (idp\<lparr>id_free := trim_free (id_free idp)\<rparr>)" using assms by (simp add: idr_ok_def split: option.splits)
qed (simp add: idr_map_def split: option.split)

lemma remove_allocated:
  assumes ok: "idr_ok idp" and y: "idr_map idp i = Some y"
  shows "\<exists>idp'. idr_remove i idp = (True, idp') \<and> idr_ok idp' \<and> idr_map idp' = (idr_map idp)(i := None)"
proof -
  obtain p l where p: "top idp = Some p" "layers idp = Suc l" "layer_ok l p" and l5: "Suc l \<le> 5" and fs: "set (id_free idp) \<subseteq> {new_layer}"
    using ok y by (cases "top idp"; cases "layers idp") (auto simp: idr_ok_def idr_map_def)
  have map: "idr_map idp = span l p" using p by (simp add: idr_map_def)
  have i: "i < 32 ^ Suc l" "look l p i = Some y" using y unfolding map span_def by (simp_all split: if_splits)
  have take: "take_bit 31 i = i" using mask_id [OF ok, of i] i(1) p(2) by simp
  obtain t free where t: "sub_remove l i p (id_free idp) = (True, t, free)" "set free \<subseteq> {new_layer}" "removed l i p t"
    using sub_remove_ok [OF p(3) i(2) fs] by blast
  let ?idp = "idp\<lparr>top := t, layers := (if t = None then 0 else layers idp), id_free := free\<rparr>"
  have ok': "idr_ok ?idp" using t(2,3) p(2) l5 by (cases t) (simp_all add: idr_ok_def removed_def)
  have "idr_map ?idp s = ((idr_map idp)(i := None)) s" for s
    using t(3) i(1) p(2) unfolding map by (cases t) (auto simp: idr_map_def removed_def span_def)
  then have map': "idr_map ?idp = (idr_map idp)(i := None)" ..
  let ?d = "drop_layer ?idp"
  have "idr_remove i idp = (True, ?d\<lparr>id_free := trim_free (id_free ?d)\<rparr>)"
    using p(1,2) t(1) take by (simp add: idr_remove_def Let_def)
  then show ?thesis using drop_layer_ok [OF ok'] trim_ok [of ?d] map' by auto
qed

lemma remove_absent:
  assumes ok: "idr_ok idp" and "idr_map idp i = None" and "i < 32 ^ layers idp"
  shows "idr_remove i idp = (False, idp)"
proof (cases "top idp")
  case (Some p)
  then have "layer_ok (layers idp - 1) p" "look (layers idp - 1) p i = None"
    using assms by (cases "layers idp"; simp add: idr_ok_def idr_map_def span_def)+
  then show ?thesis using Some mask_id [OF ok assms(3)] by (cases idp) (simp add: idr_remove_def sub_remove_absent)
qed (simp add: idr_remove_def)

lemma find_in_tree:
  assumes ok: "idr_ok idp" and i: "i < 32 ^ layers idp"
  shows "idr_find idp i = Some (case idr_map idp i of None \<Rightarrow> Null | Some x \<Rightarrow> Ptr x)"
proof -
  have l5: "\<not> 32 \<le> 5 * layers idp + 5" using ok by (auto simp: idr_ok_def split: option.splits)
  have "i < 2 ^ (5 * layers idp + 5)" using i unfolding power_add pow32 by simp
  then have "drop_bit (5 * layers idp + 5) i = 0" by (simp add: drop_bit_eq_div)
  then have f: "idr_find idp i = Some (walk_down (layers idp) i (case top idp of None \<Rightarrow> Null | Some p \<Rightarrow> Sub p))"
    unfolding idr_find_def Let_def mask_id [OF ok i] using l5 by simp
  show ?thesis
  proof (cases "top idp")
    case None
    then show ?thesis using f ok by (simp add: idr_ok_def idr_map_def)
  next
    case (Some p)
    then obtain l where "layers idp = Suc l" "layer_ok l p" using ok by (cases "layers idp") (auto simp: idr_ok_def)
    then show ?thesis using f i Some walk_down_look [of l p i] by (simp add: idr_map_def span_def del: walk_down.simps)
  qed
qed

section \<open>The contract of the id table\<close>

text \<open>
  Ids at or above \<open>cap\<close> are not asked for. \<open>limit\<close> is the largest id the caller takes: when the least
  free id is above it the allocation fails and the table is as before.
\<close>

locale id_table =
  fixes ok :: "'s \<Rightarrow> bool" and tab :: "'s \<Rightarrow> nat \<Rightarrow> 'a option" and cap :: nat
    and get_new :: "'a \<Rightarrow> nat \<Rightarrow> 's \<Rightarrow> (nat option \<times> 's) option"
    and lookup :: "'s \<Rightarrow> nat \<Rightarrow> 'a slot option" and remove :: "nat \<Rightarrow> 's \<Rightarrow> bool \<times> 's"
  assumes get_new_law: "ok s \<Longrightarrow> limit < cap \<Longrightarrow> least_free (tab s) r \<Longrightarrow>
      \<exists>s'. ok s' \<and> get_new x limit s = Some (if r \<le> limit then Some r else None, s') \<and>
        tab s' = (if r \<le> limit then (tab s)(r \<mapsto> x) else tab s)"
    and find_law: "ok s \<Longrightarrow> tab s i = Some x \<Longrightarrow> lookup s i = Some (Ptr x)"
    and remove_law: "ok s \<Longrightarrow> tab s i = Some x \<Longrightarrow> \<exists>s'. ok s' \<and> remove i s = (True, s') \<and> tab s' = (tab s)(i := None)"

text \<open>
  A client of the table and the reference it is compared with: an array that grows at its end, in
  which an id is an index.
\<close>

datatype 'a id_op = New 'a nat | Find nat | Remove nat
datatype 'a id_out = Got "nat option" | Found "'a slot option" | Removed bool

fun run_ids :: "('a \<Rightarrow> nat \<Rightarrow> 's \<Rightarrow> (nat option \<times> 's) option) \<Rightarrow> ('s \<Rightarrow> nat \<Rightarrow> 'a slot option) \<Rightarrow>
    (nat \<Rightarrow> 's \<Rightarrow> bool \<times> 's) \<Rightarrow> 'a id_op list \<Rightarrow> 's \<Rightarrow> 'a id_out list option" where
  "run_ids get_new lookup remove [] s = Some []"
| "run_ids get_new lookup remove (New x limit # ops) s =
     (case get_new x limit s of
        None \<Rightarrow> None
      | Some (r, s') \<Rightarrow> map_option ((#) (Got r)) (run_ids get_new lookup remove ops s'))"
| "run_ids get_new lookup remove (Find i # ops) s = map_option ((#) (Found (lookup s i))) (run_ids get_new lookup remove ops s)"
| "run_ids get_new lookup remove (Remove i # ops) s =
     (case remove i s of (b, s') \<Rightarrow> map_option ((#) (Removed b)) (run_ids get_new lookup remove ops s'))"

fun first_free :: "'a option list \<Rightarrow> nat" where
  "first_free [] = 0"
| "first_free (None # xs) = 0"
| "first_free (Some x # xs) = Suc (first_free xs)"

definition array_put :: "'a option list \<Rightarrow> nat \<Rightarrow> 'a \<Rightarrow> 'a option list" where
  "array_put xs r x = (if r < length xs then xs[r := Some x] else xs @ [Some x])"

fun array_ids :: "'a id_op list \<Rightarrow> 'a option list \<Rightarrow> 'a id_out list" where
  "array_ids [] xs = []"
| "array_ids (New x limit # ops) xs =
     (let r = first_free xs
      in if r \<le> limit then Got (Some r) # array_ids ops (array_put xs r x) else Got None # array_ids ops xs)"
| "array_ids (Find i # ops) xs = Found (Some (case xs ! i of Some x \<Rightarrow> Ptr x | None \<Rightarrow> Null)) # array_ids ops xs"
| "array_ids (Remove i # ops) xs = Removed True # array_ids ops (xs[i := None])"

text \<open>The client keeps to its own ids and to limits below \<open>cap\<close>.\<close>

fun own_ids :: "nat \<Rightarrow> 'a id_op list \<Rightarrow> 'a option list \<Rightarrow> bool" where
  "own_ids cap [] xs = True"
| "own_ids cap (New x limit # ops) xs =
     (limit < cap \<and> own_ids cap ops (let r = first_free xs in if r \<le> limit then array_put xs r x else xs))"
| "own_ids cap (Find i # ops) xs = (i < length xs \<and> xs ! i \<noteq> None \<and> own_ids cap ops xs)"
| "own_ids cap (Remove i # ops) xs = (i < length xs \<and> xs ! i \<noteq> None \<and> own_ids cap ops (xs[i := None]))"

definition array_map :: "'a option list \<Rightarrow> nat \<Rightarrow> 'a option" where
  "array_map xs i = (if i < length xs then xs ! i else None)"

lemma array_map_Cons: "array_map (y # xs) i = (case i of 0 \<Rightarrow> y | Suc j \<Rightarrow> array_map xs j)"
  by (cases i) (simp_all add: array_map_def)

lemma first_free_least: "least_free (array_map xs) (first_free xs)"
  by (induction xs rule: first_free.induct)
    (simp_all add: least_free_def array_map_Cons All_less_Suc2, simp add: array_map_def)

lemma first_free_le: "first_free xs \<le> length xs"
  by (induction xs rule: first_free.induct) simp_all

lemma array_map_put: "r \<le> length xs \<Longrightarrow> array_map (array_put xs r x) = (array_map xs)(r \<mapsto> x)"
  by (rule ext) (auto simp: array_map_def array_put_def nth_append nth_list_update)

lemma array_map_remove: "array_map (xs[i := None]) = (array_map xs)(i := None)"
  by (rule ext) (auto simp: array_map_def nth_list_update)

context id_table
begin

lemma run_refines_array:
  "ok s \<Longrightarrow> tab s = array_map xs \<Longrightarrow> own_ids cap ops xs \<Longrightarrow> run_ids get_new lookup remove ops s = Some (array_ids ops xs)"
proof (induction ops arbitrary: s xs)
  case (Cons op ops)
  show ?case
  proof (cases op)
    case (New x limit)
    let ?r = "first_free xs"
    obtain s' where s': "ok s'" "get_new x limit s = Some (if ?r \<le> limit then Some ?r else None, s')"
        "tab s' = (if ?r \<le> limit then (tab s)(?r \<mapsto> x) else tab s)"
      using get_new_law [OF Cons.prems(1), of limit ?r x] Cons.prems(2,3) first_free_least [of xs] New by auto
    then show ?thesis using Cons.IH [OF s'(1), of "if ?r \<le> limit then array_put xs ?r x else xs"] Cons.prems(2,3)
        array_map_put [OF first_free_le, of xs x] New by (auto simp: Let_def)
  next
    case (Find i)
    then obtain x where x: "xs ! i = Some x" "tab s i = Some x" "own_ids cap ops xs" using Cons.prems(2,3) by (auto simp: array_map_def)
    then show ?thesis using find_law [OF Cons.prems(1) x(2)] Cons.IH [OF Cons.prems(1,2) x(3)] Find by simp
  next
    case (Remove i)
    then obtain x where x: "tab s i = Some x" "own_ids cap ops (xs[i := None])" using Cons.prems(2,3) by (auto simp: array_map_def)
    obtain s' where s': "ok s'" "remove i s = (True, s')" "tab s' = (tab s)(i := None)"
      using remove_law [OF Cons.prems(1) x(1)] by blast
    then show ?thesis using Cons.IH [OF s'(1) _ x(2)] Cons.prems(2) Remove by (simp add: array_map_remove)
  qed
qed simp

end

section \<open>The tree meets the contract\<close>

text \<open>
  Five layers hold 32 ^ 5 ids. The last one is left free, so that an allocation that fails its limit
  still finds a place in five layers.
\<close>

definition idr_cap :: nat where
  "idr_cap = 32 ^ 5 - 1"

definition table_ok :: "'a idr_context \<Rightarrow> bool" where
  "table_ok idp \<longleftrightarrow> idr_ok idp \<and> idr_map idp idr_cap = None"

lemma idr_get_new_ok:
  assumes ok: "table_ok idp" and lim: "limit < idr_cap" and r: "least_free (idr_map idp) r"
  shows "\<exists>idp'. table_ok idp' \<and> idr_get_new x limit idp = Some (if r \<le> limit then Some r else None, idp') \<and>
    idr_map idp' = (if r \<le> limit then (idr_map idp)(r \<mapsto> x) else idr_map idp)"
proof -
  have "r \<le> idr_cap" using ok r unfolding table_ok_def least_free_def by (metis not_less)
  then have "r < 32 ^ 5" by (simp add: idr_cap_def)
  with ok r obtain idp' where idp': "idr_get_new_above_int x 0 idp = Some (Some r, idp')" "idr_ok idp'" "idr_map idp' = (idr_map idp)(r \<mapsto> x)"
    using get_new_least [of idp r x] by (auto simp: table_ok_def)
  show ?thesis
  proof (cases "r \<le> limit")
    case True
    then show ?thesis using idp' ok lim by (simp add: idr_get_new_def table_ok_def)
  next
    case False
    obtain idp'' where d: "idr_remove r idp' = (True, idp'')" "idr_ok idp''" "idr_map idp'' = (idr_map idp')(r := None)"
      using remove_allocated [OF idp'(2), of r x] idp'(3) by auto
    have "(idr_map idp)(r := None) = idr_map idp" using r by (simp add: least_free_def fun_upd_idem)
    then show ?thesis using idp' d False ok by (simp add: idr_get_new_def table_ok_def)
  qed
qed

interpretation idr: id_table table_ok idr_map idr_cap idr_get_new idr_find idr_remove
proof unfold_locales
  fix idp :: "'b idr_context" and limit r x
  assume "table_ok idp" "limit < idr_cap" "least_free (idr_map idp) r"
  then show "\<exists>idp'. table_ok idp' \<and> idr_get_new x limit idp = Some (if r \<le> limit then Some r else None, idp') \<and>
      idr_map idp' = (if r \<le> limit then (idr_map idp)(r \<mapsto> x) else idr_map idp)"
    by (rule idr_get_new_ok)
next
  fix idp :: "'b idr_context" and i x
  assume "table_ok idp" "idr_map idp i = Some x"
  then show "idr_find idp i = Some (Ptr x)" using find_in_tree [of idp i] idr_map_range [of idp i] by (simp add: table_ok_def)
next
  fix idp :: "'b idr_context" and i x
  assume "table_ok idp" "idr_map idp i = Some x"
  then show "\<exists>idp'. table_ok idp' \<and> idr_remove i idp = (True, idp') \<and> idr_map idp' = (idr_map idp)(i := None)"
    using remove_allocated [of idp i x] by (auto simp: table_ok_def)
qed

lemma table_ok_init: "table_ok idr_init" "idr_map idr_init = array_map []"
  by (auto simp: table_ok_def idr_ok_def idr_map_def idr_init_def array_map_def)

text \<open>
  C21: any sequence of allocations, lookups and removals through \<open>idr_get_new\<close>, \<open>idr_find\<close> and
  \<open>idr_remove\<close>, from an empty tree, in which the client looks up and removes ids it holds and asks for
  ids below 32 ^ 5 - 1, runs to its end and gives the answers of a growable array that hands out the
  first free index: the tree loses no pointer, gives none twice and reuses the least id.
\<close>

theorem idr_refines_array:
  assumes "own_ids idr_cap ops []"
  shows "run_ids idr_get_new idr_find idr_remove ops idr_init = Some (array_ids ops [])"
  using idr.run_refines_array [OF table_ok_init assms] .

theorem idr_refines_array_witness:
  "run_ids idr_get_new idr_find idr_remove
     [New (7::nat) 100, New 8 100, New 9 1, Find 1, Remove 0, New 5 100, Find 0, Remove 1] idr_init =
   Some [Got (Some 0), Got (Some 1), Got None, Found (Some (Ptr 8)), Removed True, Got (Some 0), Found (Some (Ptr 5)), Removed True]"
  using idr_refines_array [of "[New (7::nat) 100, New 8 100, New 9 1, Find 1, Remove 0, New 5 100, Find 0, Remove 1]"]
  by (simp add: idr_cap_def array_put_def Let_def)

section \<open>Outside the contract\<close>

text \<open>
  An id above the tree but below 32 times its size is not recognised: the test shifts by one digit
  too many, and the lookup and the removal go to the id without its first digit.
\<close>

lemma digit_high: "j \<le> l \<Longrightarrow> digit j (i + k * 32 ^ Suc l) = digit j i"
proof -
  assume "j \<le> l"
  then have "(32::nat) ^ Suc l = 32 ^ j * (32 * 32 ^ (l - j))" by (simp flip: power_add power_Suc)
  then have "i + k * 32 ^ Suc l = i + 32 ^ j * (32 * (k * 32 ^ (l - j)))" by (simp add: mult_ac)
  then have "(i + k * 32 ^ Suc l) div 32 ^ j = 32 * (k * 32 ^ (l - j)) + i div 32 ^ j" by (metis div_mult_self2 power_not_zero zero_neq_numeral)
  then show ?thesis by (simp add: digit_def)
qed

lemma sub_remove_high: "j \<le> l \<Longrightarrow> sub_remove j (i + k * 32 ^ Suc l) p free = sub_remove j i p free"
proof (induction j arbitrary: p free)
  case 0
  then show ?case using digit_high [of 0 l i k] by (simp add: digit_def)
next
  case (Suc j)
  have j: "j \<le> l" using Suc.prems by simp
  show ?case unfolding sub_remove.simps digit_bits digit_high [OF Suc.prems] Suc.IH [OF j] ..
qed

lemma above_tree:
  fixes i k :: nat
  assumes "idr_ok idp" and "i < 32 ^ layers idp" and "k < 32"
  shows "take_bit 31 (i + k * 32 ^ layers idp) = i + k * 32 ^ layers idp" "i + k * 32 ^ layers idp < 32 * 32 ^ layers idp"
proof -
  show lt: "i + k * 32 ^ layers idp < 32 * 32 ^ layers idp"
    using assms(2) mult_le_mono1 [of "k + 1" 32 "32 ^ layers idp"] assms(3) unfolding distrib_right by linarith
  have "layers idp \<le> 5" using assms(1) by (auto simp: idr_ok_def split: option.splits)
  then have "(32::nat) ^ layers idp \<le> 32 ^ 5" by (intro power_increasing) simp_all
  then have "i + k * 32 ^ layers idp < 2 ^ 31" using lt by simp
  then show "take_bit 31 (i + k * 32 ^ layers idp) = i + k * 32 ^ layers idp" by (rule take_bit_nat_eq_self)
qed

lemma idr_find_alias:
  assumes ok: "idr_ok idp" and i: "i < 32 ^ layers idp" and k: "k < 32"
  shows "idr_find idp (i + k * 32 ^ layers idp) = idr_find idp i"
proof (cases "top idp")
  case (Some p)
  then obtain l where l: "layers idp = Suc l" "layer_ok l p" using ok by (cases "layers idp") (auto simp: idr_ok_def)
  let ?j = "i + k * 32 ^ layers idp"
  have "?j < 2 ^ (5 * layers idp + 5)" "i < 2 ^ (5 * layers idp + 5)"
    using above_tree(2) [OF assms] i unfolding power_add pow32 by simp_all
  then have d: "drop_bit (5 * layers idp + 5) ?j = 0" "drop_bit (5 * layers idp + 5) i = 0" by (simp_all add: drop_bit_eq_div)
  have "look l p ?j = look l p i" using look_mod [of l p ?j] look_mod [of l p i] unfolding l(1) by simp
  then have "walk_down (layers idp) ?j (Sub p) = walk_down (layers idp) i (Sub p)"
    unfolding l(1) walk_down_look [OF l(2)] by simp
  then show ?thesis unfolding idr_find_def Let_def above_tree(1) [OF assms] mask_id [OF ok i] d using Some by simp
next
  case None
  then show ?thesis using ok i k by (auto simp: idr_find_def idr_ok_def)
qed

lemma idr_remove_alias:
  assumes ok: "idr_ok idp" and i: "i < 32 ^ layers idp" and k: "k < 32"
  shows "idr_remove (i + k * 32 ^ layers idp) idp = idr_remove i idp"
proof (cases "top idp")
  case (Some p)
  then obtain l where l: "layers idp = Suc l" using ok by (cases "layers idp") (auto simp: idr_ok_def)
  have "sub_remove (layers idp - 1) (i + k * 32 ^ layers idp) p (id_free idp) = sub_remove (layers idp - 1) i p (id_free idp)"
    unfolding l diff_Suc_1 by (rule sub_remove_high) simp
  then show ?thesis unfolding idr_remove_def above_tree(1) [OF assms] mask_id [OF ok i] Some by simp
qed (simp add: idr_remove_def)

text \<open>
  Going back up with a carry out of the layer it goes back to: in a tree of two layers that holds the
  id 1023 only, the next request for an id from 1023 on is told 1024, an id the tree has no slot for,
  and the pointer stands in the slot of id 0.
\<close>

lemma carry_misplaces:
  assumes p: "ary p ! 31 = Sub q" "bitmap p = 0" "ary p ! 0 = Null" "length (ary p) = 32" and q: "bitmap q = push_bit 31 1"
  shows "\<exists>p' free'. sub_alloc_loop x 1023 1 p [] (new_layer # fs) = (Id 1024, p', free') \<and> look 1 p' 0 = Some x"
proof -
  have f: "find_next_bit (NOT (bitmap p)) 32 31 = 31" "find_next_bit (NOT (bitmap p)) 32 0 = 0" "find_next_bit (NOT (bitmap q)) 32 31 = 32"
    using p(2) q by (simp_all add: find_next_bit.simps bit_not_iff bit_push_bit_iff)
  have f': "find_next_bit (NOT (bitmap (put_slot p 31 (Sub q)))) 32 0 = 0" "find_next_bit (NOT (bitmap new_layer)) 32 0 = 0"
    using p(2) by (simp_all add: find_next_bit.simps bit_not_iff put_slot_def new_layer_def)
  have n: "next_start 1023 (0 + 1) = 1024" by (simp add: next_start_eq)
  have "sub_alloc_loop x 1023 1 p [] (new_layer # fs) = sub_alloc_loop x 1023 0 q [(p, 31)] (new_layer # fs)"
    by (subst sub_alloc_loop.simps) (use p f in \<open>simp add: drop_bit_eq_div at_slot_def MAX_ID_BIT_def\<close>)
  also have "\<dots> = sub_alloc_loop x 1024 1 (put_slot p 31 (Sub q)) [] (new_layer # fs)"
    by (subst sub_alloc_loop.simps) (use f n in \<open>simp add: drop_bit_eq_div\<close>)
  also have "\<dots> = sub_alloc_loop x 1024 0 new_layer [(Layer 0 ((ary p)[31 := Sub q]) (count p + 1), 0)] fs"
    by (subst sub_alloc_loop.simps)
      (use p f' in \<open>simp add: drop_bit_eq_div at_slot_def MAX_ID_BIT_def alloc_layer_def put_slot_def put_new [unfolded put_slot_def]\<close>)
  also have "\<exists>p' free'. \<dots> = (Id 1024, p', free') \<and> look 1 p' 0 = Some x"
    by (subst sub_alloc_loop.simps)
      (use p f' in \<open>simp add: drop_bit_eq_div at_slot_def MAX_ID_BIT_def put_slot_def new_layer_def IDR_FULL_def\<close>)
  finally show ?thesis .
qed

end
