(* ===== verification/Ntlmssp_Sign.thy ===== *)
theory Ntlmssp_Sign
  imports Ntlmssp_Parse Crypto
begin

text \<open>
  \<open>auth/ntlmssp/ntlmssp_sign.c\<close>: signing and sealing of packets after an NTLMSSP authentication,
  with \<open>ntlmssp_weakend_key\<close> and \<open>gensec_ntlmssp_have_feature\<close> of \<open>ntlmssp.c\<close>. The data to seal lies
  inside the PDU that is signed, so it is given by its place in it: encrypting the data changes the
  PDU. A function returns its NTSTATUS, its outputs and the new state, which also changes when a
  check fails. \<open>Inl Fault\<close> is an access outside a buffer or to the wrong member of the union. The
  lengths are those of an \<open>int\<close>, below \<open>2^31\<close>.
\<close>

section \<open>The state\<close>

datatype ntlmssp_role = NTLMSSP_SERVER | NTLMSSP_CLIENT

datatype ntlmssp_direction = NTLMSSP_SEND | NTLMSSP_RECEIVE

record ntlm_crypt =
  ntlm_seq_num :: u32
  ntlm_arcfour :: arcfour_state

record ntlm2_crypt =
  send_seq_num :: u32
  recv_seq_num :: u32
  send_sign_key :: bytes
  recv_sign_key :: bytes
  send_seal :: arcfour_state
  recv_seal :: arcfour_state

datatype crypt_union = No_crypt | Ntlm ntlm_crypt | Ntlm2 ntlm2_crypt

record gensec_ntlmssp_state =
  role :: ntlmssp_role
  neg_flags :: u32
  session_key :: bytes
  crypt :: crypt_union

definition NTLMSSP_NEGOTIATE_SIGN :: u32 where "NTLMSSP_NEGOTIATE_SIGN = 0x00000010"
definition NTLMSSP_NEGOTIATE_SEAL :: u32 where "NTLMSSP_NEGOTIATE_SEAL = 0x00000020"
definition NTLMSSP_NEGOTIATE_LM_KEY :: u32 where "NTLMSSP_NEGOTIATE_LM_KEY = 0x00000080"
definition NTLMSSP_NEGOTIATE_NTLM2 :: u32 where "NTLMSSP_NEGOTIATE_NTLM2 = 0x00080000"
definition NTLMSSP_NEGOTIATE_128 :: u32 where "NTLMSSP_NEGOTIATE_128 = 0x20000000"
definition NTLMSSP_NEGOTIATE_KEY_EXCH :: u32 where "NTLMSSP_NEGOTIATE_KEY_EXCH = 0x40000000"
definition NTLMSSP_NEGOTIATE_56 :: u32 where "NTLMSSP_NEGOTIATE_56 = 0x80000000"
definition NTLMSSP_SIGN_VERSION :: u32 where "NTLMSSP_SIGN_VERSION = 1"
definition NTLMSSP_SIG_SIZE :: nat where "NTLMSSP_SIG_SIZE = 16"
definition NT_STATUS_NO_USER_SESSION_KEY :: u32 where "NT_STATUS_NO_USER_SESSION_KEY = 0xC0000202"

definition flag_set :: "gensec_ntlmssp_state \<Rightarrow> u32 \<Rightarrow> bool" where
  "flag_set st f = (neg_flags st AND f \<noteq> 0)"

section \<open>Keys\<close>

definition c_literal :: "string \<Rightarrow> bytes" where
  "c_literal s = map (\<lambda>c. word_of_nat (of_char c)) s"

definition CLI_SIGN :: bytes where "CLI_SIGN = c_literal ''session key to client-to-server signing key magic constant''"
definition CLI_SEAL :: bytes where "CLI_SEAL = c_literal ''session key to client-to-server sealing key magic constant''"
definition SRV_SIGN :: bytes where "SRV_SIGN = c_literal ''session key to server-to-client signing key magic constant''"
definition SRV_SEAL :: bytes where "SRV_SEAL = c_literal ''session key to server-to-client sealing key magic constant''"

definition calc_ntlmv2_key :: "bytes \<Rightarrow> bytes \<Rightarrow> bytes" where
  "calc_ntlmv2_key key const = MD5Final (MD5Update (MD5Update (MD5Init md5_fresh) key) (const @ [0]))"

definition ntlmssp_weakend_key :: "gensec_ntlmssp_state \<Rightarrow> bytes" where
  "ntlmssp_weakend_key st =
     (let key = session_key st
      in if length key < 16 then key
         else if flag_set st NTLMSSP_NEGOTIATE_LM_KEY
         then if flag_set st NTLMSSP_NEGOTIATE_56 then take 8 (key[7 := 0xa0])
              else take 8 (key[5 := 0xe5, 6 := 0x38, 7 := 0xb0])
         else key)"

definition ntlmssp_sign_init :: "gensec_ntlmssp_state \<Rightarrow> (u32 \<times> gensec_ntlmssp_state) res" where
  "ntlmssp_sign_init st =
     (if length (session_key st) < 8 then Inr (NT_STATUS_NO_USER_SESSION_KEY, st)
      else if flag_set st NTLMSSP_NEGOTIATE_NTLM2
      then let (send_sign, send_seal_const, recv_sign, recv_seal_const) =
                 (case role st of
                    NTLMSSP_CLIENT \<Rightarrow> (CLI_SIGN, CLI_SEAL, SRV_SIGN, SRV_SEAL)
                  | NTLMSSP_SERVER \<Rightarrow> (SRV_SIGN, SRV_SEAL, CLI_SIGN, CLI_SEAL));
               weak = (if flag_set st NTLMSSP_NEGOTIATE_128 then session_key st
                       else if flag_set st NTLMSSP_NEGOTIATE_56 then take 7 (session_key st)
                       else take 5 (session_key st))
           in chk (arcfour_init (calc_ntlmv2_key weak send_seal_const)) (\<lambda>send.
              chk (arcfour_init (calc_ntlmv2_key weak recv_seal_const)) (\<lambda>recv.
              Inr (NT_STATUS_OK, st\<lparr>crypt := Ntlm2
                \<lparr>send_seq_num = 0, recv_seq_num = 0,
                 send_sign_key = calc_ntlmv2_key (session_key st) send_sign,
                 recv_sign_key = calc_ntlmv2_key (session_key st) recv_sign,
                 send_seal = send, recv_seal = recv\<rparr>\<rparr>)))
      else chk (arcfour_init (ntlmssp_weakend_key st)) (\<lambda>a.
           Inr (NT_STATUS_OK, st\<lparr>crypt := Ntlm \<lparr>ntlm_seq_num = 0, ntlm_arcfour = a\<rparr>\<rparr>)))"

section \<open>Signatures\<close>

text \<open>The sequence number and the signing key of a direction, and the state with the number advanced.\<close>

definition take_seq_num :: "ntlmssp_direction \<Rightarrow> ntlm2_crypt \<Rightarrow> u32 \<times> bytes \<times> ntlm2_crypt" where
  "take_seq_num dir c =
     (case dir of
        NTLMSSP_SEND \<Rightarrow> (send_seq_num c, send_sign_key c, c\<lparr>send_seq_num := send_seq_num c + 1\<rparr>)
      | NTLMSSP_RECEIVE \<Rightarrow> (recv_seq_num c, recv_sign_key c, c\<lparr>recv_seq_num := recv_seq_num c + 1\<rparr>))"

definition crypt_seal :: "ntlmssp_direction \<Rightarrow> ntlm2_crypt \<Rightarrow> bytes \<Rightarrow> bytes \<times> ntlm2_crypt" where
  "crypt_seal dir c bs =
     (case dir of
        NTLMSSP_SEND \<Rightarrow> (let (e, a) = arcfour_crypt_sbox (send_seal c) bs in (e, c\<lparr>send_seal := a\<rparr>))
      | NTLMSSP_RECEIVE \<Rightarrow> (let (e, a) = arcfour_crypt_sbox (recv_seal c) bs in (e, c\<lparr>recv_seal := a\<rparr>)))"

definition ntlm1_plain_sig :: "(nat \<Rightarrow> bytes) \<Rightarrow> conv_env \<Rightarrow> bytes \<Rightarrow> u32 \<Rightarrow> bytes option res" where
  "ntlm1_plain_sig alloc conv data seq =
     msrpc_gen alloc conv [Gd NTLMSSP_SIGN_VERSION, Gd 0, Gd (crc32_calc_buffer data), Gd seq]"

definition ntlmssp_make_packet_signature ::
  "(nat \<Rightarrow> bytes) \<Rightarrow> conv_env \<Rightarrow> gensec_ntlmssp_state \<Rightarrow> bytes \<Rightarrow> bytes \<Rightarrow> ntlmssp_direction \<Rightarrow> bool \<Rightarrow>
     (u32 \<times> bytes \<times> gensec_ntlmssp_state) res" where
  "ntlmssp_make_packet_signature alloc conv st data whole_pdu dir encrypt_sig =
     (if flag_set st NTLMSSP_NEGOTIATE_NTLM2
      then (case crypt st of
              Ntlm2 c \<Rightarrow>
                let (seq, key, c) = take_seq_num dir c;
                    digest = hmac_md5_final (hmac_md5_update whole_pdu
                      (hmac_md5_update (le32 seq) (hmac_md5_init_limK_to_64 key)));
                    (d8, c) = (if encrypt_sig \<and> flag_set st NTLMSSP_NEGOTIATE_KEY_EXCH
                               then crypt_seal dir c (take 8 digest) else (take 8 digest, c))
                in Inr (NT_STATUS_OK, le32 NTLMSSP_SIGN_VERSION @ d8 @ le32 seq, st\<lparr>crypt := Ntlm2 c\<rparr>)
            | _ \<Rightarrow> Inl Fault)
      else (case crypt st of
              Ntlm c \<Rightarrow>
                chk (ntlm1_plain_sig alloc conv data (ntlm_seq_num c)) (\<lambda>sig. case sig of
                  None \<Rightarrow> Inr (NT_STATUS_NO_MEMORY, [], st)
                | Some sig \<Rightarrow>
                    let (e, a) = arcfour_crypt_sbox (ntlm_arcfour c) (drop 4 sig)
                    in Inr (NT_STATUS_OK, take 4 sig @ e,
                         st\<lparr>crypt := Ntlm \<lparr>ntlm_seq_num = ntlm_seq_num c + 1, ntlm_arcfour = a\<rparr>\<rparr>))
            | _ \<Rightarrow> Inl Fault))"

text \<open>
  The data is the \<open>len\<close> bytes at \<open>ofs\<close> of the PDU.
\<close>

definition gensec_ntlmssp_sign_packet ::
  "(nat \<Rightarrow> bytes) \<Rightarrow> conv_env \<Rightarrow> gensec_ntlmssp_state \<Rightarrow> nat \<Rightarrow> nat \<Rightarrow> bytes \<Rightarrow> (u32 \<times> bytes \<times> gensec_ntlmssp_state) res" where
  "gensec_ntlmssp_sign_packet alloc conv st ofs len whole_pdu =
     chk (get_bytes whole_pdu ofs len) (\<lambda>data.
     ntlmssp_make_packet_signature alloc conv st data whole_pdu NTLMSSP_SEND True)"

definition gensec_ntlmssp_check_packet ::
  "(nat \<Rightarrow> bytes) \<Rightarrow> conv_env \<Rightarrow> gensec_ntlmssp_state \<Rightarrow> nat \<Rightarrow> nat \<Rightarrow> bytes \<Rightarrow> bytes \<Rightarrow> (u32 \<times> gensec_ntlmssp_state) res" where
  "gensec_ntlmssp_check_packet alloc conv st ofs len whole_pdu sig =
     (if session_key st = [] then Inr (NT_STATUS_NO_USER_SESSION_KEY, st)
      else chk (get_bytes whole_pdu ofs len) (\<lambda>data.
           chk (ntlmssp_make_packet_signature alloc conv st data whole_pdu NTLMSSP_RECEIVE True) (\<lambda>(status, local_sig, st).
           if status \<noteq> NT_STATUS_OK then Inr (status, st)
           else if flag_set st NTLMSSP_NEGOTIATE_NTLM2
           then Inr (if length local_sig \<noteq> length sig \<or> local_sig \<noteq> sig then NT_STATUS_ACCESS_DENIED else NT_STATUS_OK, st)
           else Inr (if length local_sig \<noteq> length sig \<or> drop 8 local_sig \<noteq> drop 8 sig then NT_STATUS_ACCESS_DENIED else NT_STATUS_OK, st))))"

text \<open>
  Sealing encrypts the data in place, after the signature over the clear text was computed and
  before the signature itself is encrypted.
\<close>

definition gensec_ntlmssp_seal_packet ::
  "(nat \<Rightarrow> bytes) \<Rightarrow> conv_env \<Rightarrow> gensec_ntlmssp_state \<Rightarrow> nat \<Rightarrow> nat \<Rightarrow> bytes \<Rightarrow> (u32 \<times> bytes \<times> bytes \<times> gensec_ntlmssp_state) res" where
  "gensec_ntlmssp_seal_packet alloc conv st ofs len pdu =
     (if session_key st = [] then Inr (NT_STATUS_NO_USER_SESSION_KEY, [], pdu, st)
      else chk (get_bytes pdu ofs len) (\<lambda>data.
        if flag_set st NTLMSSP_NEGOTIATE_NTLM2
        then chk (ntlmssp_make_packet_signature alloc conv st data pdu NTLMSSP_SEND False) (\<lambda>(status, sig, st).
             case crypt st of
               Ntlm2 c \<Rightarrow>
                 let (e, c) = crypt_seal NTLMSSP_SEND c data;
                     (s8, c) = (if flag_set st NTLMSSP_NEGOTIATE_KEY_EXCH then crypt_seal NTLMSSP_SEND c (take 8 (drop 4 sig))
                                else (take 8 (drop 4 sig), c))
                 in chk (put_bytes pdu ofs e) (\<lambda>pdu.
                    Inr (status, take 4 sig @ s8 @ drop 12 sig, pdu, st\<lparr>crypt := Ntlm2 c\<rparr>))
             | _ \<Rightarrow> Inl Fault)
        else (case crypt st of
                Ntlm c \<Rightarrow>
                  chk (ntlm1_plain_sig alloc conv data (ntlm_seq_num c)) (\<lambda>sig. case sig of
                    None \<Rightarrow> Inr (NT_STATUS_NO_MEMORY, [], pdu, st)
                  | Some sig \<Rightarrow>
                      let (e, a) = arcfour_crypt_sbox (ntlm_arcfour c) data;
                          (s, a) = arcfour_crypt_sbox a (drop 4 sig)
                      in chk (put_bytes pdu ofs e) (\<lambda>pdu.
                         Inr (NT_STATUS_OK, take 4 sig @ s, pdu,
                           st\<lparr>crypt := Ntlm \<lparr>ntlm_seq_num = ntlm_seq_num c + 1, ntlm_arcfour = a\<rparr>\<rparr>)))
              | _ \<Rightarrow> Inl Fault)))"

definition gensec_ntlmssp_unseal_packet ::
  "(nat \<Rightarrow> bytes) \<Rightarrow> conv_env \<Rightarrow> gensec_ntlmssp_state \<Rightarrow> nat \<Rightarrow> nat \<Rightarrow> bytes \<Rightarrow> bytes \<Rightarrow> (u32 \<times> bytes \<times> gensec_ntlmssp_state) res" where
  "gensec_ntlmssp_unseal_packet alloc conv st ofs len pdu sig =
     (if session_key st = [] then Inr (NT_STATUS_NO_USER_SESSION_KEY, pdu, st)
      else chk (get_bytes pdu ofs len) (\<lambda>data.
           chk (if flag_set st NTLMSSP_NEGOTIATE_NTLM2
                then (case crypt st of
                        Ntlm2 c \<Rightarrow> let (d, c) = crypt_seal NTLMSSP_RECEIVE c data in Inr (d, st\<lparr>crypt := Ntlm2 c\<rparr>)
                      | _ \<Rightarrow> Inl Fault)
                else (case crypt st of
                        Ntlm c \<Rightarrow> let (d, a) = arcfour_crypt_sbox (ntlm_arcfour c) data
                                  in Inr (d, st\<lparr>crypt := Ntlm (c\<lparr>ntlm_arcfour := a\<rparr>)\<rparr>)
                      | _ \<Rightarrow> Inl Fault)) (\<lambda>(d, st).
           chk (put_bytes pdu ofs d) (\<lambda>pdu.
           chk (gensec_ntlmssp_check_packet alloc conv st ofs len pdu sig) (\<lambda>(status, st).
           Inr (status, pdu, st))))))"

section \<open>Wrapping\<close>

definition gensec_ntlmssp_sig_size :: "nat \<Rightarrow> nat" where
  "gensec_ntlmssp_sig_size n = NTLMSSP_SIG_SIZE"

text \<open>The features SIGN and SEAL of \<open>gensec_ntlmssp_have_feature\<close>, asked for one at a time.\<close>

definition have_seal :: "gensec_ntlmssp_state \<Rightarrow> bool" where
  "have_seal st = (session_key st \<noteq> [] \<and> flag_set st NTLMSSP_NEGOTIATE_SEAL)"

definition have_sign :: "gensec_ntlmssp_state \<Rightarrow> bool" where
  "have_sign st = (session_key st \<noteq> [] \<and> flag_set st NTLMSSP_NEGOTIATE_SIGN)"

text \<open>
  The output is the signature and the data; on an error the first 16 bytes are what \<open>alloc\<close> gave.
\<close>

definition gensec_ntlmssp_wrap ::
  "(nat \<Rightarrow> bytes) \<Rightarrow> conv_env \<Rightarrow> gensec_ntlmssp_state \<Rightarrow> bytes \<Rightarrow> (u32 \<times> bytes \<times> gensec_ntlmssp_state) res" where
  "gensec_ntlmssp_wrap alloc conv st inp =
     (if have_seal st
      then chk (gensec_ntlmssp_seal_packet alloc conv st 0 (length inp) inp) (\<lambda>(status, sig, d, st).
           if status = NT_STATUS_OK then chk (get_bytes sig 0 NTLMSSP_SIG_SIZE) (\<lambda>s. Inr (status, s @ d, st))
           else Inr (status, take NTLMSSP_SIG_SIZE (alloc (length inp + NTLMSSP_SIG_SIZE)) @ d, st))
      else if have_sign st
      then chk (gensec_ntlmssp_sign_packet alloc conv st 0 (length inp) inp) (\<lambda>(status, sig, st).
           if status = NT_STATUS_OK then chk (get_bytes sig 0 NTLMSSP_SIG_SIZE) (\<lambda>s. Inr (status, s @ inp, st))
           else Inr (status, take NTLMSSP_SIG_SIZE (alloc (length inp + NTLMSSP_SIG_SIZE)) @ inp, st))
      else Inr (NT_STATUS_OK, inp, st))"

definition gensec_ntlmssp_unwrap ::
  "(nat \<Rightarrow> bytes) \<Rightarrow> conv_env \<Rightarrow> gensec_ntlmssp_state \<Rightarrow> bytes \<Rightarrow> (u32 \<times> bytes \<times> gensec_ntlmssp_state) res" where
  "gensec_ntlmssp_unwrap alloc conv st inp =
     (let sig = take NTLMSSP_SIG_SIZE inp; out = drop NTLMSSP_SIG_SIZE inp
      in if have_seal st
         then if length inp < NTLMSSP_SIG_SIZE then Inr (NT_STATUS_INVALID_PARAMETER, [], st)
              else gensec_ntlmssp_unseal_packet alloc conv st 0 (length out) out sig
         else if have_sign st
         then if length inp < NTLMSSP_SIG_SIZE then Inr (NT_STATUS_INVALID_PARAMETER, [], st)
              else chk (gensec_ntlmssp_check_packet alloc conv st 0 (length out) out sig) (\<lambda>(status, st). Inr (status, out, st))
         else Inr (NT_STATUS_OK, inp, st))"

end
