(* ===== verification/Ntlmssp_Sign_Props.thy ===== *)
theory Ntlmssp_Sign_Props
  imports Ntlmssp_Sign Crypto_Hash
begin

text \<open>
  What signing and sealing give two peers. With NTLM2 each direction is a channel of its own: a
  sequence number, a signing key and a cipher state, which the sender and the receiver advance in
  step. The locale \<open>duplex_peer\<close> says so of an endpoint; every exchange of packets over it, with any
  number of packets under way in both directions, delivers what was sent. A packet passes the check
  exactly when its signature is the keyed digest of RFC 2104 over the number and the PDU.
\<close>

section \<open>A pair of channels\<close>

locale duplex_peer =
  fixes cwrap :: "'c \<Rightarrow> bytes \<Rightarrow> bytes \<times> 'c" and cunwrap :: "'c \<Rightarrow> bytes \<Rightarrow> bytes option \<times> 'c"
    and ok :: "'s \<Rightarrow> bool" and out_half :: "'s \<Rightarrow> 'c" and in_half :: "'s \<Rightarrow> 'c"
    and wrap :: "'s \<Rightarrow> bytes \<Rightarrow> (u32 \<times> bytes \<times> 's) res" and unwrap :: "'s \<Rightarrow> bytes \<Rightarrow> (u32 \<times> bytes \<times> 's) res"
  assumes channel_law: "cunwrap c (fst (cwrap c x)) = (Some x, snd (cwrap c x))"
    and wrap_law: "ok s \<Longrightarrow> \<exists>s'. wrap s x = Inr (NT_STATUS_OK, fst (cwrap (out_half s) x), s') \<and> ok s' \<and>
      out_half s' = snd (cwrap (out_half s) x) \<and> in_half s' = in_half s"
    and unwrap_law: "ok s \<Longrightarrow> cunwrap (in_half s) w = (Some x, c') \<Longrightarrow>
      \<exists>s'. unwrap s w = Inr (NT_STATUS_OK, x, s') \<and> ok s' \<and> in_half s' = c' \<and> out_half s' = out_half s"

text \<open>
  Two peers and the wire between them. A receive on an empty wire does nothing. The outputs are the
  packets each peer got, with the status. \<open>plain_wire\<close> is the same without any protection.
\<close>

datatype wire_act = A_sends bytes | B_sends bytes | A_gets | B_gets

datatype wire_out = To_A u32 bytes | To_B u32 bytes

fun run_wire :: "('s \<Rightarrow> bytes \<Rightarrow> (u32 \<times> bytes \<times> 's) res) \<Rightarrow> ('s \<Rightarrow> bytes \<Rightarrow> (u32 \<times> bytes \<times> 's) res) \<Rightarrow>
    wire_act list \<Rightarrow> 's \<Rightarrow> 's \<Rightarrow> bytes list \<Rightarrow> bytes list \<Rightarrow> wire_out list res" where
  "run_wire wrap unwrap [] a b ab ba = Inr []"
| "run_wire wrap unwrap (A_sends x # acts) a b ab ba =
     chk (wrap a x) (\<lambda>r. run_wire wrap unwrap acts (snd (snd r)) b (ab @ [fst (snd r)]) ba)"
| "run_wire wrap unwrap (B_sends x # acts) a b ab ba =
     chk (wrap b x) (\<lambda>r. run_wire wrap unwrap acts a (snd (snd r)) ab (ba @ [fst (snd r)]))"
| "run_wire wrap unwrap (B_gets # acts) a b ab ba =
     (case ab of
        [] \<Rightarrow> run_wire wrap unwrap acts a b ab ba
      | w # ws \<Rightarrow> chk (unwrap b w) (\<lambda>r.
          chk (run_wire wrap unwrap acts a (snd (snd r)) ws ba) (\<lambda>os. Inr (To_B (fst r) (fst (snd r)) # os))))"
| "run_wire wrap unwrap (A_gets # acts) a b ab ba =
     (case ba of
        [] \<Rightarrow> run_wire wrap unwrap acts a b ab ba
      | w # ws \<Rightarrow> chk (unwrap a w) (\<lambda>r.
          chk (run_wire wrap unwrap acts (snd (snd r)) b ab ws) (\<lambda>os. Inr (To_A (fst r) (fst (snd r)) # os))))"

fun plain_wire :: "wire_act list \<Rightarrow> bytes list \<Rightarrow> bytes list \<Rightarrow> wire_out list" where
  "plain_wire [] ab ba = []"
| "plain_wire (A_sends x # acts) ab ba = plain_wire acts (ab @ [x]) ba"
| "plain_wire (B_sends x # acts) ab ba = plain_wire acts ab (ba @ [x])"
| "plain_wire (B_gets # acts) ab ba =
     (case ab of [] \<Rightarrow> plain_wire acts ab ba | x # xs \<Rightarrow> To_B NT_STATUS_OK x # plain_wire acts xs ba)"
| "plain_wire (A_gets # acts) ab ba =
     (case ba of [] \<Rightarrow> plain_wire acts ab ba | x # xs \<Rightarrow> To_A NT_STATUS_OK x # plain_wire acts ab xs)"

fun wrap_list :: "('c \<Rightarrow> bytes \<Rightarrow> bytes \<times> 'c) \<Rightarrow> 'c \<Rightarrow> bytes list \<Rightarrow> bytes list \<times> 'c" where
  "wrap_list cwrap c [] = ([], c)"
| "wrap_list cwrap c (x # xs) = (fst (cwrap c x) # fst (wrap_list cwrap (snd (cwrap c x)) xs), snd (wrap_list cwrap (snd (cwrap c x)) xs))"

lemma wrap_list_snoc:
  "wrap_list cwrap c (xs @ [x]) =
     (fst (wrap_list cwrap c xs) @ [fst (cwrap (snd (wrap_list cwrap c xs)) x)], snd (cwrap (snd (wrap_list cwrap c xs)) x))"
  by (induction xs arbitrary: c) simp_all

context duplex_peer
begin

text \<open>The packets under way are what the receiver's half would have produced, and lead to the sender's half.\<close>

lemma wire_refines_plain:
  "ok a \<Longrightarrow> ok b \<Longrightarrow> wrap_list cwrap (in_half b) pab = (ab, out_half a) \<Longrightarrow> wrap_list cwrap (in_half a) pba = (ba, out_half b) \<Longrightarrow>
   run_wire wrap unwrap acts a b ab ba = Inr (plain_wire acts pab pba)"
proof (induction acts arbitrary: a b ab ba pab pba)
  case (Cons act acts)
  note sync = Cons.prems(3,4)
  show ?case
  proof (cases act)
    case (A_sends x)
    obtain a' where a': "wrap a x = Inr (NT_STATUS_OK, fst (cwrap (out_half a) x), a')" "ok a'"
        "out_half a' = snd (cwrap (out_half a) x)" "in_half a' = in_half a"
      using wrap_law [OF Cons.prems(1), of x] by blast
    show ?thesis using Cons.IH [OF a'(2) Cons.prems(2), of "pab @ [x]" _ pba ba] a' sync A_sends by (simp add: wrap_list_snoc)
  next
    case (B_sends x)
    obtain b' where b': "wrap b x = Inr (NT_STATUS_OK, fst (cwrap (out_half b) x), b')" "ok b'"
        "out_half b' = snd (cwrap (out_half b) x)" "in_half b' = in_half b"
      using wrap_law [OF Cons.prems(2), of x] by blast
    show ?thesis using Cons.IH [OF Cons.prems(1) b'(2), of pab ab "pba @ [x]"] b' sync B_sends by (simp add: wrap_list_snoc)
  next
    case B_gets
    show ?thesis
    proof (cases pab)
      case Nil
      then show ?thesis using Cons.IH [OF Cons.prems] sync B_gets by simp
    next
      case (Cons x xs)
      let ?c = "in_half b"
      have w: "ab = fst (cwrap ?c x) # fst (wrap_list cwrap (snd (cwrap ?c x)) xs)" "snd (wrap_list cwrap (snd (cwrap ?c x)) xs) = out_half a"
        using sync(1) Cons by auto
      obtain b' where b': "unwrap b (fst (cwrap ?c x)) = Inr (NT_STATUS_OK, x, b')" "ok b'" "in_half b' = snd (cwrap ?c x)" "out_half b' = out_half b"
        using unwrap_law [OF Cons.prems(2) channel_law] by blast
      show ?thesis using Cons.IH [OF Cons.prems(1) b'(2), of xs _ pba ba] b' w sync(2) B_gets Cons by (simp add: prod_eq_iff)
    qed
  next
    case A_gets
    show ?thesis
    proof (cases pba)
      case Nil
      then show ?thesis using Cons.IH [OF Cons.prems] sync A_gets by simp
    next
      case (Cons x xs)
      let ?c = "in_half a"
      have w: "ba = fst (cwrap ?c x) # fst (wrap_list cwrap (snd (cwrap ?c x)) xs)" "snd (wrap_list cwrap (snd (cwrap ?c x)) xs) = out_half b"
        using sync(2) Cons by auto
      obtain a' where a': "unwrap a (fst (cwrap ?c x)) = Inr (NT_STATUS_OK, x, a')" "ok a'" "in_half a' = snd (cwrap ?c x)" "out_half a' = out_half a"
        using unwrap_law [OF Cons.prems(1) channel_law] by blast
      show ?thesis using Cons.IH [OF a'(2) Cons.prems(2), of pab ab xs] a' w sync(1) A_gets Cons by (simp add: prod_eq_iff)
    qed
  qed
qed simp

end

section \<open>The channel of one direction\<close>

record channel =
  ch_flags :: u32
  ch_seq :: u32
  ch_key :: bytes
  ch_seal :: arcfour_state

definition mac8 :: "bytes \<Rightarrow> u32 \<Rightarrow> bytes \<Rightarrow> bytes" where
  "mac8 key seq pdu = take 8 (hmac_md5_final (hmac_md5_update pdu (hmac_md5_update (le32 seq) (hmac_md5_init_limK_to_64 key))))"

definition seal_mac :: "u32 \<Rightarrow> arcfour_state \<Rightarrow> bytes \<Rightarrow> bytes \<times> arcfour_state" where
  "seal_mac flags a m = (if flags AND NTLMSSP_NEGOTIATE_KEY_EXCH \<noteq> 0 then arcfour_crypt_sbox a m else (m, a))"

definition full_sig :: "u32 \<Rightarrow> bytes \<Rightarrow> bytes" where
  "full_sig seq m = le32 NTLMSSP_SIGN_VERSION @ m @ le32 seq"

definition channel_wrap :: "channel \<Rightarrow> bytes \<Rightarrow> bytes \<times> channel" where
  "channel_wrap c x =
     (let (e, a) = (if ch_flags c AND NTLMSSP_NEGOTIATE_SEAL \<noteq> 0 then arcfour_crypt_sbox (ch_seal c) x else (x, ch_seal c));
          (m, a) = seal_mac (ch_flags c) a (mac8 (ch_key c) (ch_seq c) x)
      in if ch_flags c AND NTLMSSP_NEGOTIATE_SEAL = 0 \<and> ch_flags c AND NTLMSSP_NEGOTIATE_SIGN = 0 then (x, c)
         else (full_sig (ch_seq c) m @ e, c\<lparr>ch_seq := ch_seq c + 1, ch_seal := a\<rparr>))"

definition channel_unwrap :: "channel \<Rightarrow> bytes \<Rightarrow> bytes option \<times> channel" where
  "channel_unwrap c w =
     (if ch_flags c AND NTLMSSP_NEGOTIATE_SEAL = 0 \<and> ch_flags c AND NTLMSSP_NEGOTIATE_SIGN = 0 then (Some w, c)
      else if length w < 16 then (None, c)
      else let (x, a) = (if ch_flags c AND NTLMSSP_NEGOTIATE_SEAL \<noteq> 0 then arcfour_crypt_sbox (ch_seal c) (drop 16 w)
                         else (drop 16 w, ch_seal c));
               (m, a) = seal_mac (ch_flags c) a (mac8 (ch_key c) (ch_seq c) x)
           in (if take 16 w = full_sig (ch_seq c) m then Some x else None, c\<lparr>ch_seq := ch_seq c + 1, ch_seal := a\<rparr>))"

lemma length_mac8 [simp]: "length (mac8 key seq pdu) = 8"
  by (simp add: mac8_def hmac_md5_final_def Let_def length_MD5Final)

lemma length_seal_mac [simp]: "length (fst (seal_mac fl a m)) = length m"
  by (simp add: seal_mac_def)

lemma length_full_sig [simp]: "length (full_sig seq m) = 8 + length m"
  by (simp add: full_sig_def)

lemma ntlm2_channel: "channel_unwrap c (fst (channel_wrap c x)) = (Some x, snd (channel_wrap c x))"
proof -
  obtain e a where e: "arcfour_crypt_sbox (ch_seal c) x = (e, a)" by force
  have dec: "arcfour_crypt_sbox (ch_seal c) e = (x, a)" using arcfour_crypt_sbox_invol [of "ch_seal c" x] e by simp
  have len: "length e = length x" using length_arcfour_crypt_sbox [of "ch_seal c" x] e by simp
  obtain m b where m: "seal_mac (ch_flags c) a (mac8 (ch_key c) (ch_seq c) x) = (m, b)" by force
  obtain m' b' where m': "seal_mac (ch_flags c) (ch_seal c) (mac8 (ch_key c) (ch_seq c) x) = (m', b')" by force
  have l: "length (full_sig (ch_seq c) m) = 16" "length (full_sig (ch_seq c) m') = 16"
    using length_seal_mac [of "ch_flags c" a "mac8 (ch_key c) (ch_seq c) x"] length_seal_mac [of "ch_flags c" "ch_seal c" "mac8 (ch_key c) (ch_seq c) x"] m m'
    by simp_all
  show ?thesis unfolding channel_wrap_def channel_unwrap_def Let_def using e dec m m' l by (simp split: if_split)
qed

definition out_half :: "gensec_ntlmssp_state \<Rightarrow> channel" where
  "out_half st = (case crypt st of Ntlm2 c \<Rightarrow>
     \<lparr>ch_flags = neg_flags st, ch_seq = send_seq_num c, ch_key = send_sign_key c, ch_seal = send_seal c\<rparr>)"

definition in_half :: "gensec_ntlmssp_state \<Rightarrow> channel" where
  "in_half st = (case crypt st of Ntlm2 c \<Rightarrow>
     \<lparr>ch_flags = neg_flags st, ch_seq = recv_seq_num c, ch_key = recv_sign_key c, ch_seal = recv_seal c\<rparr>)"

definition ntlm2_ok :: "gensec_ntlmssp_state \<Rightarrow> bool" where
  "ntlm2_ok st \<longleftrightarrow> session_key st \<noteq> [] \<and> flag_set st NTLMSSP_NEGOTIATE_NTLM2 \<and> (\<exists>c. crypt st = Ntlm2 c)"

lemma whole_bytes [simp]: "get_bytes xs 0 (length xs) = Inr xs" "length ys = length xs \<Longrightarrow> put_bytes xs 0 ys = Inr ys"
  by (auto simp: get_bytes_def put_bytes_def)

lemma flag_set_upd [simp]: "flag_set (st\<lparr>crypt := c\<rparr>) f = flag_set st f"
  by (simp add: flag_set_def)

lemma make_signature_ntlm2:
  assumes "flag_set st NTLMSSP_NEGOTIATE_NTLM2" and "crypt st = Ntlm2 c"
  shows "ntlmssp_make_packet_signature alloc conv st data pdu NTLMSSP_SEND True =
      (let (m, a) = seal_mac (neg_flags st) (send_seal c) (mac8 (send_sign_key c) (send_seq_num c) pdu)
       in Inr (NT_STATUS_OK, full_sig (send_seq_num c) m, st\<lparr>crypt := Ntlm2 (c\<lparr>send_seq_num := send_seq_num c + 1, send_seal := a\<rparr>)\<rparr>))"
    "ntlmssp_make_packet_signature alloc conv st data pdu NTLMSSP_SEND False =
      Inr (NT_STATUS_OK, full_sig (send_seq_num c) (mac8 (send_sign_key c) (send_seq_num c) pdu),
        st\<lparr>crypt := Ntlm2 (c\<lparr>send_seq_num := send_seq_num c + 1\<rparr>)\<rparr>)"
    "ntlmssp_make_packet_signature alloc conv st data pdu NTLMSSP_RECEIVE True =
      (let (m, a) = seal_mac (neg_flags st) (recv_seal c) (mac8 (recv_sign_key c) (recv_seq_num c) pdu)
       in Inr (NT_STATUS_OK, full_sig (recv_seq_num c) m, st\<lparr>crypt := Ntlm2 (c\<lparr>recv_seq_num := recv_seq_num c + 1, recv_seal := a\<rparr>)\<rparr>))"
  using assms by (cases c; auto simp: ntlmssp_make_packet_signature_def take_seq_num_def crypt_seal_def mac8_def
    full_sig_def seal_mac_def flag_set_def Let_def split: prod.split)+

lemma wrap_ntlm2:
  assumes ok: "ntlm2_ok st"
  shows "\<exists>st'. gensec_ntlmssp_wrap alloc conv st x = Inr (NT_STATUS_OK, fst (channel_wrap (out_half st) x), st') \<and> ntlm2_ok st' \<and>
    out_half st' = snd (channel_wrap (out_half st) x) \<and> in_half st' = in_half st"
proof -
  obtain c where c: "session_key st \<noteq> []" "flag_set st NTLMSSP_NEGOTIATE_NTLM2" "crypt st = Ntlm2 c" using ok by (auto simp: ntlm2_ok_def)
  obtain e a where e: "arcfour_crypt_sbox (send_seal c) x = (e, a)" by force
  have len: "length e = length x" using length_arcfour_crypt_sbox [of "send_seal c" x] e by simp
  let ?m = "mac8 (send_sign_key c) (send_seq_num c) x"
  obtain m b where m: "seal_mac (neg_flags st) a ?m = (m, b)" by force
  obtain m' b' where m': "seal_mac (neg_flags st) (send_seal c) ?m = (m', b')" by force
  have l: "length m = 8" "length m' = 8"
    using length_seal_mac [of "neg_flags st" a ?m] length_seal_mac [of "neg_flags st" "send_seal c" ?m] m m' by simp_all
  consider "flag_set st NTLMSSP_NEGOTIATE_SEAL" | "\<not> flag_set st NTLMSSP_NEGOTIATE_SEAL" "flag_set st NTLMSSP_NEGOTIATE_SIGN"
    | "\<not> flag_set st NTLMSSP_NEGOTIATE_SEAL" "\<not> flag_set st NTLMSSP_NEGOTIATE_SIGN" by blast
  then show ?thesis
  proof cases
    case 1
    then show ?thesis using c e len m l
      by (auto simp: gensec_ntlmssp_wrap_def gensec_ntlmssp_seal_packet_def have_seal_def make_signature_ntlm2 [OF c(2,3)] full_sig_def
        crypt_seal_def seal_mac_def channel_wrap_def out_half_def in_half_def ntlm2_ok_def flag_set_def NTLMSSP_SIG_SIZE_def get_bytes_def Let_def
        split: if_splits prod.splits)
  next
    case 2
    then show ?thesis using c m' l
      by (auto simp: gensec_ntlmssp_wrap_def gensec_ntlmssp_sign_packet_def have_seal_def have_sign_def make_signature_ntlm2 [OF c(2,3)]
        full_sig_def channel_wrap_def out_half_def in_half_def ntlm2_ok_def flag_set_def NTLMSSP_SIG_SIZE_def get_bytes_def Let_def)
  next
    case 3
    then show ?thesis using ok c by (auto simp: gensec_ntlmssp_wrap_def have_seal_def have_sign_def channel_wrap_def out_half_def flag_set_def Let_def split: prod.split)
  qed
qed

lemma check_ntlm2:
  assumes "session_key st \<noteq> []" "flag_set st NTLMSSP_NEGOTIATE_NTLM2" "crypt st = Ntlm2 c" "ofs + len \<le> length pdu"
  shows "gensec_ntlmssp_check_packet alloc conv st ofs len pdu sig =
    (let (m, a) = seal_mac (neg_flags st) (recv_seal c) (mac8 (recv_sign_key c) (recv_seq_num c) pdu)
     in Inr (if sig = full_sig (recv_seq_num c) m then NT_STATUS_OK else NT_STATUS_ACCESS_DENIED,
          st\<lparr>crypt := Ntlm2 (c\<lparr>recv_seq_num := recv_seq_num c + 1, recv_seal := a\<rparr>)\<rparr>))"
  using assms by (auto simp: gensec_ntlmssp_check_packet_def get_bytes_def make_signature_ntlm2 Let_def split: prod.split)

lemma unwrap_ntlm2:
  assumes ok: "ntlm2_ok st" and w: "channel_unwrap (in_half st) w = (Some x, c')"
  shows "\<exists>st'. gensec_ntlmssp_unwrap alloc conv st w = Inr (NT_STATUS_OK, x, st') \<and> ntlm2_ok st' \<and>
    in_half st' = c' \<and> out_half st' = out_half st"
proof -
  obtain c where c: "session_key st \<noteq> []" "flag_set st NTLMSSP_NEGOTIATE_NTLM2" "crypt st = Ntlm2 c" using ok by (auto simp: ntlm2_ok_def)
  let ?out = "drop 16 w"
  obtain d a where d: "arcfour_crypt_sbox (recv_seal c) ?out = (d, a)" by force
  have len: "length d = length ?out" using length_arcfour_crypt_sbox [of "recv_seal c" ?out] d by simp
  consider "flag_set st NTLMSSP_NEGOTIATE_SEAL" | "\<not> flag_set st NTLMSSP_NEGOTIATE_SEAL" "flag_set st NTLMSSP_NEGOTIATE_SIGN"
    | "\<not> flag_set st NTLMSSP_NEGOTIATE_SEAL" "\<not> flag_set st NTLMSSP_NEGOTIATE_SIGN" by blast
  then show ?thesis
  proof cases
    case 1
    let ?st = "st\<lparr>crypt := Ntlm2 (c\<lparr>recv_seal := a\<rparr>)\<rparr>"
    obtain m b where m: "seal_mac (neg_flags st) a (mac8 (recv_sign_key c) (recv_seq_num c) d) = (m, b)" by force
    have "\<not> length w < 16" "x = d" "take 16 w = full_sig (recv_seq_num c) m"
      "c' = (in_half st)\<lparr>ch_seq := recv_seq_num c + 1, ch_seal := b\<rparr>"
      using w 1 c(3) d m by (auto simp: channel_unwrap_def in_half_def flag_set_def Let_def split: if_splits)
    moreover have "gensec_ntlmssp_check_packet alloc conv ?st 0 (length w - 16) d sig =
        Inr (if sig = full_sig (recv_seq_num c) m then NT_STATUS_OK else NT_STATUS_ACCESS_DENIED,
          st\<lparr>crypt := Ntlm2 (c\<lparr>recv_seq_num := recv_seq_num c + 1, recv_seal := b\<rparr>)\<rparr>)" for sig
      using check_ntlm2 [of ?st "c\<lparr>recv_seal := a\<rparr>" 0 "length w - 16" d alloc conv sig] c m len by simp
    ultimately show ?thesis using 1 c d len whole_bytes [of ?out]
      by (simp add: gensec_ntlmssp_unwrap_def gensec_ntlmssp_unseal_packet_def have_seal_def crypt_seal_def NTLMSSP_SIG_SIZE_def
        in_half_def out_half_def ntlm2_ok_def Let_def)
  next
    case 2
    obtain m b where m: "seal_mac (neg_flags st) (recv_seal c) (mac8 (recv_sign_key c) (recv_seq_num c) ?out) = (m, b)" by force
    have "\<not> length w < 16" "x = ?out" "take 16 w = full_sig (recv_seq_num c) m"
      "c' = (in_half st)\<lparr>ch_seq := recv_seq_num c + 1, ch_seal := b\<rparr>"
      using w 2 c(3) m by (auto simp: channel_unwrap_def in_half_def flag_set_def Let_def split: if_splits)
    then show ?thesis using 2 c m check_ntlm2 [OF c, of 0 "length w - 16" ?out alloc conv "take 16 w"]
      by (simp add: gensec_ntlmssp_unwrap_def have_seal_def have_sign_def NTLMSSP_SIG_SIZE_def in_half_def out_half_def ntlm2_ok_def Let_def)
  next
    case 3
    then have "x = w" "c' = in_half st" using w c by (auto simp: channel_unwrap_def in_half_def flag_set_def)
    then show ?thesis using 3 ok c by (simp add: gensec_ntlmssp_unwrap_def have_seal_def have_sign_def Let_def)
  qed
qed

interpretation ntlm2: duplex_peer channel_wrap channel_unwrap ntlm2_ok out_half in_half
  "gensec_ntlmssp_wrap alloc conv" "gensec_ntlmssp_unwrap alloc conv" for alloc conv
  by unfold_locales (rule ntlm2_channel, rule wrap_ntlm2, assumption, rule unwrap_ntlm2)

section \<open>Both peers after the authentication\<close>

definition peer :: "ntlmssp_role \<Rightarrow> u32 \<Rightarrow> bytes \<Rightarrow> gensec_ntlmssp_state" where
  "peer r flags key = \<lparr>role = r, neg_flags = flags, session_key = key, crypt = No_crypt\<rparr>"

lemma calc_key_not_Nil: "calc_ntlmv2_key k c \<noteq> []"
proof -
  have "length (calc_ntlmv2_key k c) = 16" by (simp add: calc_ntlmv2_key_def length_MD5Final)
  then show ?thesis by auto
qed

lemma sign_init_ntlm2:
  assumes "8 \<le> length key" and "flags AND NTLMSSP_NEGOTIATE_NTLM2 \<noteq> 0"
  shows "\<exists>c s. ntlmssp_sign_init (peer NTLMSSP_CLIENT flags key) = Inr (NT_STATUS_OK, c) \<and>
    ntlmssp_sign_init (peer NTLMSSP_SERVER flags key) = Inr (NT_STATUS_OK, s) \<and>
    ntlm2_ok c \<and> ntlm2_ok s \<and> in_half s = out_half c \<and> in_half c = out_half s"
proof -
  define w where "w = (if flags AND NTLMSSP_NEGOTIATE_128 \<noteq> 0 then key else if flags AND NTLMSSP_NEGOTIATE_56 \<noteq> 0 then take 7 key else take 5 key)"
  obtain a where a: "arcfour_init (calc_ntlmv2_key w CLI_SEAL) = Inr a" using arcfour_init_ok [OF calc_key_not_Nil] by blast
  obtain b where b: "arcfour_init (calc_ntlmv2_key w SRV_SEAL) = Inr b" using arcfour_init_ok [OF calc_key_not_Nil] by blast
  have k: "\<not> length key < 8" "key \<noteq> []" using assms(1) by auto
  have init: "ntlmssp_sign_init (peer r flags key) =
      (let (ss, se, rs, re) = (case r of NTLMSSP_CLIENT \<Rightarrow> (CLI_SIGN, CLI_SEAL, SRV_SIGN, SRV_SEAL) | NTLMSSP_SERVER \<Rightarrow> (SRV_SIGN, SRV_SEAL, CLI_SIGN, CLI_SEAL))
       in chk (arcfour_init (calc_ntlmv2_key w se)) (\<lambda>send. chk (arcfour_init (calc_ntlmv2_key w re)) (\<lambda>recv.
          Inr (NT_STATUS_OK, (peer r flags key)\<lparr>crypt := Ntlm2 \<lparr>send_seq_num = 0, recv_seq_num = 0, send_sign_key = calc_ntlmv2_key key ss,
            recv_sign_key = calc_ntlmv2_key key rs, send_seal = send, recv_seal = recv\<rparr>\<rparr>))))" for r
    unfolding ntlmssp_sign_init_def Let_def w_def using k(1) assms(2) by (simp only: peer_def flag_set_def gensec_ntlmssp_state.simps if_False if_True simp_thms)
  show ?thesis unfolding init using a b k(2) assms(2)
    by (simp add: peer_def flag_set_def ntlm2_ok_def in_half_def out_half_def)
qed



section \<open>What the check accepts\<close>

lemma mac8_spec:
  assumes "length key \<le> 64" and "length pdu < 2 ^ 59"
  shows "mac8 key seq pdu = take 8 (hmac_spec key (le32 seq @ pdu))"
proof -
  have i: "hmac_md5_init_limK_to_64 key = hmac_md5_init_rfc2104 key" using assms(1) by (simp add: hmac_md5_init_limK_to_64_def)
  have "hmac_absorbed key (hmac_md5_init_rfc2104 key) []" using assms(1) by (intro hmac_init_absorbed) simp
  from hmac.chunks_digest [OF this, of "[le32 seq, pdu]"] assms(2) show ?thesis by (simp add: mac8_def i)
qed

text \<open>
  C23: with NTLM2 the check accepts a packet exactly when its signature is the version, the first
  eight bytes of the HMAC-MD5 of RFC 2104 over the expected number and the whole PDU, encrypted with
  the receiving cipher when keys were exchanged, and the number. Every check, also one that fails,
  advances the number, leaves the sending side alone, and a signature that was accepted is refused
  when it comes again with any PDU.
\<close>

theorem ntlm2_check_exact:
  assumes "session_key st \<noteq> []" "flag_set st NTLMSSP_NEGOTIATE_NTLM2" "crypt st = Ntlm2 c" "length (recv_sign_key c) = 16"
    and pdu: "ofs + len \<le> length pdu" "length pdu < 2 ^ 59" and pdu': "ofs' + len' \<le> length pdu'"
  defines "good \<equiv> le32 1 @ fst (seal_mac (neg_flags st) (recv_seal c)
      (take 8 (hmac_spec (recv_sign_key c) (le32 (recv_seq_num c) @ pdu)))) @ le32 (recv_seq_num c)"
  shows "\<exists>st' c'. gensec_ntlmssp_check_packet alloc conv st ofs len pdu sig =
      Inr (if sig = good then NT_STATUS_OK else NT_STATUS_ACCESS_DENIED, st') \<and>
    crypt st' = Ntlm2 c' \<and> recv_seq_num c' = recv_seq_num c + 1 \<and> out_half st' = out_half st \<and>
    (\<exists>st''. gensec_ntlmssp_check_packet alloc conv st' ofs' len' pdu' good = Inr (NT_STATUS_ACCESS_DENIED, st''))"
proof -
  let ?m = "mac8 (recv_sign_key c) (recv_seq_num c) pdu"
  have m: "?m = take 8 (hmac_spec (recv_sign_key c) (le32 (recv_seq_num c) @ pdu))" using assms(4) pdu(2) by (intro mac8_spec) simp_all
  obtain e a where e: "seal_mac (neg_flags st) (recv_seal c) ?m = (e, a)" by force
  let ?c = "c\<lparr>recv_seq_num := recv_seq_num c + 1, recv_seal := a\<rparr>"
  let ?st = "st\<lparr>crypt := Ntlm2 ?c\<rparr>"
  note first = check_ntlm2 [OF assms(1-3) pdu(1), of alloc conv sig, unfolded e Let_def prod.case]
  obtain e' a' where e': "seal_mac (neg_flags st) a (mac8 (recv_sign_key c) (recv_seq_num c + 1) pdu') = (e', a')" by force
  have len: "length e = 8" "length e' = 8"
    using length_seal_mac [of "neg_flags st" "recv_seal c" ?m] e
      length_seal_mac [of "neg_flags st" a "mac8 (recv_sign_key c) (recv_seq_num c + 1) pdu'"] e' by simp_all
  have second: "gensec_ntlmssp_check_packet alloc conv ?st ofs' len' pdu' good =
      Inr (if good = full_sig (recv_seq_num c + 1) e' then NT_STATUS_OK else NT_STATUS_ACCESS_DENIED,
        ?st\<lparr>crypt := Ntlm2 (?c\<lparr>recv_seq_num := recv_seq_num c + 1 + 1, recv_seal := a'\<rparr>)\<rparr>)"
    using check_ntlm2 [of ?st ?c ofs' len' pdu' alloc conv good] assms(1-3) pdu' e' by simp
  have "full_sig (recv_seq_num c) e \<noteq> full_sig (recv_seq_num c + 1) e'"
  proof
    assume "full_sig (recv_seq_num c) e = full_sig (recv_seq_num c + 1) e'"
    then have "le32 (recv_seq_num c) = le32 (recv_seq_num c + 1)" using len by (simp add: full_sig_def)
    then have "recv_seq_num c = recv_seq_num c + 1" by (simp only: le32_inj)
    then show False by simp
  qed
  moreover have g: "good = full_sig (recv_seq_num c) e" unfolding good_def m [symmetric] e by (simp add: full_sig_def NTLMSSP_SIGN_VERSION_def)
  moreover have "out_half ?st = out_half st" using assms(3) by (simp add: out_half_def)
  ultimately show ?thesis using first second by (intro exI [where x = ?st] exI [where x = ?c]) simp
qed

definition sample_crypt :: ntlm2_crypt where
  "sample_crypt =
     (let a = \<lparr>sbox = map word_of_nat [0..<256], index_i = 0, index_j = 0\<rparr>
      in \<lparr>send_seq_num = 0, recv_seq_num = 7, send_sign_key = replicate 16 1, recv_sign_key = replicate 16 2, send_seal = a, recv_seal = a\<rparr>)"

theorem ntlm2_check_exact_witness:
  "\<exists>st'. gensec_ntlmssp_check_packet (\<lambda>n. replicate n 0) (\<lambda>_ _. None)
      ((peer NTLMSSP_CLIENT 0x00080010 [1, 2, 3, 4, 5, 6, 7, 8])\<lparr>crypt := Ntlm2 sample_crypt\<rparr>) 0 2 [65, 66]
      (le32 1 @ take 8 (hmac_spec (replicate 16 2) (le32 7 @ [65, 66])) @ le32 7) = Inr (NT_STATUS_OK, st')"
  using ntlm2_check_exact [of "(peer NTLMSSP_CLIENT 0x00080010 [1, 2, 3, 4, 5, 6, 7, 8])\<lparr>crypt := Ntlm2 sample_crypt\<rparr>" sample_crypt
      0 2 "[65, 66]" 0 0 "[]" "\<lambda>n. replicate n 0" "\<lambda>_ _. None" "le32 1 @ take 8 (hmac_spec (replicate 16 2) (le32 7 @ [65, 66])) @ le32 7"]
  by (auto simp: peer_def flag_set_def sample_crypt_def seal_mac_def Let_def NTLMSSP_NEGOTIATE_NTLM2_def NTLMSSP_NEGOTIATE_KEY_EXCH_def)

section \<open>NTLM1\<close>

text \<open>
  Without NTLM2 both directions share one cipher state and one counter, so the peers stay in step only
  when every packet is received before the next one is sent. Then a packet that one side wraps is
  unwrapped by the other, and both are in the same state again.
\<close>

lemma plain_sig:
  assumes "length (alloc 16) = 16"
  shows "ntlm1_plain_sig alloc conv d q = Inr (Some (le32 1 @ le32 0 @ le32 (crc32_calc_buffer d) @ le32 q))"
  using assms
  by (simp add: ntlm1_plain_sig_def msrpc_gen_def MAX_TALLOC_SIZE_def SIVAL_def put_bytes_def NTLMSSP_SIGN_VERSION_def Let_def)

lemma ntlm1_lockstep:
  assumes st: "session_key st \<noteq> []" "\<not> flag_set st NTLMSSP_NEGOTIATE_NTLM2" "crypt st = Ntlm c"
    and st2: "session_key st2 \<noteq> []" "neg_flags st2 = neg_flags st" "crypt st2 = Ntlm c" and alloc: "length (alloc 16) = 16"
  shows "\<exists>w st' st2'. gensec_ntlmssp_wrap alloc conv st x = Inr (NT_STATUS_OK, w, st') \<and>
    gensec_ntlmssp_unwrap alloc conv st2 w = Inr (NT_STATUS_OK, x, st2') \<and> crypt st2' = crypt st'"
proof -
  have fl: "flag_set st2 f = flag_set st f" for f using st2(2) by (simp add: flag_set_def)
  let ?s = "le32 0 @ le32 (crc32_calc_buffer x) @ le32 (ntlm_seq_num c)"
  obtain e a where e: "arcfour_crypt_sbox (ntlm_arcfour c) x = (e, a)" by force
  have dec: "arcfour_crypt_sbox (ntlm_arcfour c) e = (x, a)" using arcfour_crypt_sbox_invol [of "ntlm_arcfour c" x] e by simp
  have len: "length e = length x" using length_arcfour_crypt_sbox [of "ntlm_arcfour c" x] e by simp
  obtain m b where m: "arcfour_crypt_sbox a ?s = (m, b)" by force
  obtain m' b' where m': "arcfour_crypt_sbox (ntlm_arcfour c) ?s = (m', b')" by force
  have l: "length m = 12" "length m' = 12"
    using length_arcfour_crypt_sbox [of a ?s] length_arcfour_crypt_sbox [of "ntlm_arcfour c" ?s] m m' by simp_all
  consider "flag_set st NTLMSSP_NEGOTIATE_SEAL" | "\<not> flag_set st NTLMSSP_NEGOTIATE_SEAL" "flag_set st NTLMSSP_NEGOTIATE_SIGN"
    | "\<not> flag_set st NTLMSSP_NEGOTIATE_SEAL" "\<not> flag_set st NTLMSSP_NEGOTIATE_SIGN" by blast
  then show ?thesis
  proof cases
    case 1
    then show ?thesis using st st2 fl e dec len m l
      by (auto simp: gensec_ntlmssp_wrap_def gensec_ntlmssp_seal_packet_def gensec_ntlmssp_unwrap_def gensec_ntlmssp_unseal_packet_def
        gensec_ntlmssp_check_packet_def ntlmssp_make_packet_signature_def have_seal_def plain_sig [of alloc, OF alloc] NTLMSSP_SIG_SIZE_def get_bytes_def put_bytes_def Let_def)
  next
    case 2
    then show ?thesis using st st2 fl m' l
      by (simp add: gensec_ntlmssp_wrap_def gensec_ntlmssp_sign_packet_def gensec_ntlmssp_unwrap_def
        gensec_ntlmssp_check_packet_def ntlmssp_make_packet_signature_def have_seal_def have_sign_def plain_sig [of alloc, OF alloc] NTLMSSP_SIG_SIZE_def get_bytes_def Let_def)
  next
    case 3
    then show ?thesis using st st2 fl by (simp add: gensec_ntlmssp_wrap_def gensec_ntlmssp_unwrap_def have_seal_def have_sign_def Let_def)
  qed
qed

end
