(* ===== verification/Smb_Signing.thy ===== *)
theory Smb_Signing
  imports Crypto
begin

text \<open>
  \<open>libcli/raw/smb_signing.c\<close>: the message signatures of an SMB connection. A request buffer is its
  \<open>size\<close> bytes with the four bytes of the NetBIOS header in front; \<open>hdr\<close> is the place behind them.
  The record \<open>smbcli_negotiate\<close> has the fields of the structure that signing uses. Where a function
  changes the transport it returns it; \<open>Inl Fault\<close> is an access outside the buffer.
\<close>

section \<open>Data\<close>

datatype smb_signing_engine_state = SMB_SIGNING_ENGINE_OFF | SMB_SIGNING_ENGINE_BSRSPYL | SMB_SIGNING_ENGINE_ON

datatype smb_signing_state = SMB_SIGNING_OFF | SMB_SIGNING_SUPPORTED | SMB_SIGNING_REQUIRED | SMB_SIGNING_AUTO

record smb_signing_context =
  signing_state :: smb_signing_engine_state
  mac_key :: bytes
  next_seq_num :: u32
  allow_smb_signing :: bool
  doing_signing :: bool
  mandatory_signing :: bool
  seen_valid :: bool

record smbcli_negotiate =
  sec_mode :: u8
  sign_info :: smb_signing_context
  readbraw_supported :: bool
  writebraw_supported :: bool

record smbcli_request =
  seq_num :: u32
  sign_single_increment :: bool
  in_buffer :: bytes
  out_buffer :: bytes

definition NBT_HDR_SIZE :: nat where "NBT_HDR_SIZE = 4"
definition HDR_FLG2 :: nat where "HDR_FLG2 = 10"
definition HDR_SS_FIELD :: nat where "HDR_SS_FIELD = 14"
definition NEGOTIATE_SECURITY_SIGNATURES_ENABLED :: u8 where "NEGOTIATE_SECURITY_SIGNATURES_ENABLED = 0x04"
definition NEGOTIATE_SECURITY_SIGNATURES_REQUIRED :: u8 where "NEGOTIATE_SECURITY_SIGNATURES_REQUIRED = 0x08"
definition FLAGS2_SMB_SECURITY_SIGNATURES :: u32 where "FLAGS2_SMB_SECURITY_SIGNATURES = 0x0004"

section \<open>Turning signing on and off\<close>

definition smbcli_set_signing_off :: "smb_signing_context \<Rightarrow> smb_signing_context" where
  "smbcli_set_signing_off si =
     si\<lparr>doing_signing := False, next_seq_num := 0, mac_key := [], signing_state := SMB_SIGNING_ENGINE_OFF\<rparr>"

definition set_smb_signing_common :: "smb_signing_context \<Rightarrow> bool" where
  "set_smb_signing_common si = (if doing_signing si then False else if \<not> allow_smb_signing si then False else True)"

definition smbcli_set_smb_signing_common :: "smbcli_negotiate \<Rightarrow> bool \<times> smbcli_negotiate" where
  "smbcli_set_smb_signing_common neg =
     (if \<not> set_smb_signing_common (sign_info neg) then (False, neg)
      else if sec_mode neg AND (NEGOTIATE_SECURITY_SIGNATURES_REQUIRED OR NEGOTIATE_SECURITY_SIGNATURES_ENABLED) = 0 then (False, neg)
      else (True, neg\<lparr>readbraw_supported := False, writebraw_supported := False\<rparr>))"

definition smbcli_temp_set_signing :: "smbcli_negotiate \<Rightarrow> bool \<times> smbcli_negotiate" where
  "smbcli_temp_set_signing neg =
     (case smbcli_set_smb_signing_common neg of
        (False, neg) \<Rightarrow> (False, neg)
      | (True, neg) \<Rightarrow>
          (True, neg\<lparr>sign_info := (smbcli_set_signing_off (sign_info neg))\<lparr>mac_key := [], signing_state := SMB_SIGNING_ENGINE_BSRSPYL\<rparr>\<rparr>))"

text \<open>A response of length zero, or none, leaves the session key alone as the key.\<close>

definition smbcli_simple_set_signing :: "smb_signing_context \<Rightarrow> bytes \<Rightarrow> bytes \<Rightarrow> smb_signing_context" where
  "smbcli_simple_set_signing si user_session_key response =
     si\<lparr>mac_key := (if response \<noteq> [] then user_session_key @ response else user_session_key),
        next_seq_num := 0, signing_state := SMB_SIGNING_ENGINE_ON\<rparr>"

definition smbcli_transport_simple_set_signing :: "smbcli_negotiate \<Rightarrow> bytes \<Rightarrow> bytes \<Rightarrow> bool \<times> smbcli_negotiate" where
  "smbcli_transport_simple_set_signing neg user_session_key response =
     (case smbcli_set_smb_signing_common neg of
        (False, neg) \<Rightarrow> (False, neg)
      | (True, neg) \<Rightarrow> (True, neg\<lparr>sign_info := smbcli_simple_set_signing (sign_info neg) user_session_key response\<rparr>))"

text \<open>\<open>lp\<close> is the value of \<open>lp_client_signing()\<close>.\<close>

definition smbcli_init_signing :: "smb_signing_state \<Rightarrow> smbcli_negotiate \<Rightarrow> smbcli_negotiate" where
  "smbcli_init_signing lp neg =
     (let si = smbcli_set_signing_off ((sign_info neg)\<lparr>mac_key := []\<rparr>)
      in neg\<lparr>sign_info :=
           (case lp of
              SMB_SIGNING_OFF \<Rightarrow> si\<lparr>allow_smb_signing := False\<rparr>
            | SMB_SIGNING_SUPPORTED \<Rightarrow> si\<lparr>allow_smb_signing := True\<rparr>
            | SMB_SIGNING_AUTO \<Rightarrow> si\<lparr>allow_smb_signing := True\<rparr>
            | SMB_SIGNING_REQUIRED \<Rightarrow> si\<lparr>allow_smb_signing := True, mandatory_signing := True\<rparr>)\<rparr>)"

section \<open>Sending\<close>

definition mark_packet_signed :: "bytes \<Rightarrow> bytes res" where
  "mark_packet_signed out =
     chk (SVAL out (NBT_HDR_SIZE + HDR_FLG2)) (\<lambda>flags2.
     SSVAL out (NBT_HDR_SIZE + HDR_FLG2) (flags2 OR FLAGS2_SMB_SECURITY_SIGNATURES))"

definition sign_outgoing_message :: "bytes \<Rightarrow> bytes \<Rightarrow> u32 \<Rightarrow> bytes res" where
  "sign_outgoing_message out key seq =
     chk (SIVAL out (NBT_HDR_SIZE + HDR_SS_FIELD) seq) (\<lambda>out.
     chk (SIVAL out (NBT_HDR_SIZE + HDR_SS_FIELD + 4) 0) (\<lambda>out.
     chk (mark_packet_signed out) (\<lambda>out.
     let calc_md5_mac = MD5Final (MD5Update (MD5Update (MD5Init md5_fresh) key) (drop NBT_HDR_SIZE out))
     in put_bytes out (NBT_HDR_SIZE + HDR_SS_FIELD) (take 8 calc_md5_mac))))"

definition smbcli_req_allocate_seq_num :: "smb_signing_context \<Rightarrow> smbcli_request \<Rightarrow> smb_signing_context \<times> smbcli_request" where
  "smbcli_req_allocate_seq_num si req =
     (si\<lparr>next_seq_num := next_seq_num si + (if sign_single_increment req then 1 else 2)\<rparr>, req\<lparr>seq_num := next_seq_num si\<rparr>)"

definition BSRSPYL :: bytes where
  "BSRSPYL = map (\<lambda>c. word_of_nat (of_char c)) ''BSRSPYL ''"

definition smbcli_request_calculate_sign_mac :: "smbcli_negotiate \<Rightarrow> smbcli_request \<Rightarrow> (smbcli_negotiate \<times> smbcli_request) res" where
  "smbcli_request_calculate_sign_mac neg req =
     (case signing_state (sign_info neg) of
        SMB_SIGNING_ENGINE_OFF \<Rightarrow> Inr (neg, req)
      | SMB_SIGNING_ENGINE_BSRSPYL \<Rightarrow>
          chk (mark_packet_signed (out_buffer req)) (\<lambda>out.
          chk (put_bytes out (NBT_HDR_SIZE + HDR_SS_FIELD) BSRSPYL) (\<lambda>out. Inr (neg, req\<lparr>out_buffer := out\<rparr>)))
      | SMB_SIGNING_ENGINE_ON \<Rightarrow>
          let (si, req) = smbcli_req_allocate_seq_num (sign_info neg) req
          in chk (sign_outgoing_message (out_buffer req) (mac_key si) (seq_num req)) (\<lambda>out.
             Inr (neg\<lparr>sign_info := si\<rparr>, req\<lparr>out_buffer := out\<rparr>)))"

section \<open>Receiving\<close>

text \<open>\<open>sign_range\<close> is 0: the loop over guessed numbers runs once, for the expected one.\<close>

definition check_signed_incoming_message :: "bytes \<Rightarrow> bytes \<Rightarrow> u32 \<Rightarrow> bool res" where
  "check_signed_incoming_message inp key seq =
     (if length inp < NBT_HDR_SIZE + HDR_SS_FIELD + 8 then Inr False
      else if key = [] then Inr False
      else chk (get_bytes inp (NBT_HDR_SIZE + HDR_SS_FIELD) 8) (\<lambda>server_sent_mac.
           chk (get_bytes inp NBT_HDR_SIZE HDR_SS_FIELD) (\<lambda>before.
           chk (get_bytes inp (NBT_HDR_SIZE + (HDR_SS_FIELD + 8)) (length inp - NBT_HDR_SIZE - (HDR_SS_FIELD + 8))) (\<lambda>after.
           let calc_md5_mac = MD5Final (MD5Update (MD5Update (MD5Update (MD5Update (MD5Init md5_fresh) key) before)
                 (le32 seq @ le32 0)) after)
           in Inr (server_sent_mac = take 8 calc_md5_mac)))))"

definition signing_good :: "smb_signing_context \<Rightarrow> bool \<Rightarrow> bool \<times> smb_signing_context" where
  "signing_good si good =
     (if good then (True, si\<lparr>doing_signing := True, seen_valid := True\<rparr>)
      else if \<not> seen_valid si then (True, smbcli_set_signing_off si)
      else (False, si))"

definition smbcli_request_check_sign_mac :: "smbcli_negotiate \<Rightarrow> smbcli_request \<Rightarrow> (bool \<times> smbcli_negotiate) res" where
  "smbcli_request_check_sign_mac neg req =
     (if signing_state (sign_info neg) = SMB_SIGNING_ENGINE_OFF then Inr (True, neg)
      else if length (in_buffer req) < HDR_SS_FIELD + 8 then Inr (False, neg)
      else chk (check_signed_incoming_message (in_buffer req) (mac_key (sign_info neg)) (seq_num req + 1)) (\<lambda>good.
           let (ok, si) = signing_good (sign_info neg) good in Inr (ok, neg\<lparr>sign_info := si\<rparr>)))"

end
