(* ===== verification/Smb_Signing_Props.thy ===== *)
theory Smb_Signing_Props
  imports Smb_Signing Crypto_Hash
begin

text \<open>
  Signed messages are accepted by the peer that holds the key, and only messages with the digest of
  the key, the expected number and the message are. Over the life of a connection signing cannot be
  turned off again once a valid reply was seen; before that it can, also when it is mandatory.
\<close>

section \<open>Signatures\<close>

text \<open>The digest of a message with the signature field replaced by the number.\<close>

definition smb_mac :: "bytes \<Rightarrow> u32 \<Rightarrow> bytes \<Rightarrow> bytes" where
  "smb_mac key seq msg = take 8 (md_digest MD5Transform (key @ take 14 (drop 4 msg) @ le32 seq @ le32 0 @ drop 26 msg))"

definition sig_field :: "bytes \<Rightarrow> bytes" where
  "sig_field msg = take 8 (drop 18 msg)"

lemmas smb_hdr_defs = NBT_HDR_SIZE_def HDR_FLG2_def HDR_SS_FIELD_def

lemma length_smb_mac [simp]: "length (smb_mac key seq msg) = 8"
  by (simp add: smb_mac_def)

lemma check_incoming:
  assumes "key \<noteq> []" and "length key < 2 ^ 59" and "length msg < 2 ^ 59"
  shows "check_signed_incoming_message msg key seq = Inr (26 \<le> length msg \<and> sig_field msg = smb_mac key seq msg)"
proof (cases "26 \<le> length msg")
  case True
  have "MD5Final (foldl MD5Update (MD5Init md5_fresh) [key, take 14 (drop 4 msg), le32 seq @ le32 0, drop 26 msg]) =
      md_digest MD5Transform ([] @ concat [key, take 14 (drop 4 msg), le32 seq @ le32 0, drop 26 msg])"
    using True assms(2,3) by (intro md5.chunks_digest [OF md5_fresh_absorbed]) simp
  then show ?thesis using True assms(1)
    by (simp add: check_signed_incoming_message_def smb_hdr_defs get_bytes_def sig_field_def smb_mac_def Let_def)
qed (simp add: check_signed_incoming_message_def smb_hdr_defs)

text \<open>A buffer with room for a signature, cut at the fields that signing writes.\<close>

lemma cut_message:
  assumes "26 \<le> length buf"
  obtains n f h s t r where "buf = n @ f @ h @ s @ t @ r" "length n = 14" "length f = 2" "length h = 2" "length s = 4" "length t = 4"
proof
  show "buf = take 14 buf @ take 2 (drop 14 buf) @ take 2 (drop 16 buf) @ take 4 (drop 18 buf) @ take 4 (drop 22 buf) @ drop 26 buf"
    using append_take_drop_id [of 14 buf] append_take_drop_id [of 2 "drop 14 buf"] append_take_drop_id [of 2 "drop 16 buf"]
      append_take_drop_id [of 4 "drop 18 buf"] append_take_drop_id [of 4 "drop 22 buf"] by simp
qed (use assms in simp_all)

lemma put_field: "length a = p \<Longrightarrow> length c = length b \<Longrightarrow> put_bytes (a @ b @ r) p c = Inr (a @ c @ r)"
  by (auto simp: put_bytes_def)

lemma mark_field:
  assumes "length n = 14" and "length f = 2"
  shows "\<exists>g. length g = 2 \<and> mark_packet_signed (n @ f @ r) = Inr (n @ g @ r)"
proof -
  obtain v where "SVAL (n @ f @ r) 14 = Inr v" using SVAL_in_bounds [of 14 "n @ f @ r"] assms by auto
  then show ?thesis using put_field [of n 14 "le16 (ucast (v OR FLAGS2_SMB_SECURITY_SIGNATURES))" f r] assms
    by (simp add: mark_packet_signed_def smb_hdr_defs SSVAL_def)
qed

lemma sign_outgoing:
  assumes "26 \<le> length buf" and "length key < 2 ^ 59" and "length buf < 2 ^ 59"
  shows "\<exists>out. sign_outgoing_message buf key seq = Inr out \<and> length out = length buf \<and> drop 26 out = drop 26 buf \<and>
    sig_field out = smb_mac key seq out"
proof -
  obtain n f h s t r where buf: "buf = n @ f @ h @ s @ t @ r"
    and l: "length n = 14" "length f = 2" "length h = 2" "length s = 4" "length t = 4"
    using cut_message [OF assms(1)] .
  obtain g where g: "length g = 2" "mark_packet_signed (n @ f @ h @ le32 seq @ le32 0 @ r) = Inr (n @ g @ h @ le32 seq @ le32 0 @ r)"
    using mark_field [OF l(1,2)] by blast
  let ?msg = "n @ g @ h @ le32 seq @ le32 0 @ r"
  let ?mac = "take 8 (MD5Final (foldl MD5Update (MD5Init md5_fresh) [key, drop 4 ?msg]))"
  have "MD5Final (foldl MD5Update (MD5Init md5_fresh) [key, drop 4 ?msg]) = md_digest MD5Transform ([] @ concat [key, drop 4 ?msg])"
    using assms(2,3) l g(1) unfolding buf by (intro md5.chunks_digest [OF md5_fresh_absorbed]) simp
  then have mac: "?mac = smb_mac key seq (n @ g @ h @ m @ r)" if "length m = 8" for m using l g(1) that by (simp add: smb_mac_def)
  have lm: "length ?mac = 8" using mac [of "replicate 8 0"] by simp
  have "SIVAL buf 18 seq = Inr (n @ f @ h @ le32 seq @ t @ r)"
    using put_field [of "n @ f @ h" 18 "le32 seq" s "t @ r"] l unfolding buf by (simp add: SIVAL_def)
  moreover have "SIVAL (n @ f @ h @ le32 seq @ t @ r) 22 0 = Inr (n @ f @ h @ le32 seq @ le32 0 @ r)"
    using put_field [of "n @ f @ h @ le32 seq" 22 "le32 0" t r] l by (simp add: SIVAL_def)
  moreover have "put_bytes ?msg 18 ?mac = Inr (n @ g @ h @ ?mac @ r)"
    using put_field [of "n @ g @ h" 18 ?mac "le32 seq @ le32 0" r] l g(1) lm by simp
  ultimately have "sign_outgoing_message buf key seq = Inr (n @ g @ h @ ?mac @ r)"
    using g(2) by (simp add: sign_outgoing_message_def smb_hdr_defs Let_def)
  then show ?thesis using mac [OF lm] lm l g(1) buf by (simp add: sig_field_def)
qed

text \<open>
  C24: a message with room for the header is signed, keeps its length and the bytes behind the
  signature, and the peer with the same key and number accepts it; and of all messages a peer accepts
  exactly those that hold the signature field and have the first eight bytes of the MD5 digest of the
  key, the header, the number and the rest in it.
\<close>

theorem smb_signature_exact:
  assumes "26 \<le> length buf" "length buf < 2 ^ 59" "key \<noteq> []" "length key < 2 ^ 59" "length msg < 2 ^ 59"
  shows "\<exists>out. sign_outgoing_message buf key seq = Inr out \<and> length out = length buf \<and> drop 26 out = drop 26 buf \<and>
    check_signed_incoming_message out key seq = Inr True \<and>
    check_signed_incoming_message msg key seq = Inr (26 \<le> length msg \<and> sig_field msg = smb_mac key seq msg)"
  using sign_outgoing [OF assms(1,4,2), of seq] check_incoming [OF assms(3,4)] assms(1,2,5) by auto

theorem smb_signature_exact_witness:
  "\<exists>out. sign_outgoing_message (replicate 40 1) [7, 8] 5 = Inr out \<and> check_signed_incoming_message out [7, 8] 5 = Inr True"
  using smb_signature_exact [of "replicate 40 1" "[7, 8]" "[]" 5] by auto

section \<open>The life of a connection\<close>

text \<open>
  The operations on the transport: the temporary and the final key are set, requests are signed and
  replies are checked, in any order. A connection starts with \<open>smbcli_init_signing\<close> on a zeroed
  structure.
\<close>

inductive sign_step :: "smbcli_negotiate \<Rightarrow> smbcli_negotiate \<Rightarrow> bool" where
  temp: "sign_step neg (snd (smbcli_temp_set_signing neg))"
| simple: "sign_step neg (snd (smbcli_transport_simple_set_signing neg key response))"
| send: "smbcli_request_calculate_sign_mac neg req = Inr (neg', req') \<Longrightarrow> sign_step neg neg'"
| check: "smbcli_request_check_sign_mac neg req = Inr (ok, neg') \<Longrightarrow> sign_step neg neg'"

inductive connection :: "smbcli_negotiate \<Rightarrow> bool" where
  start: "\<not> seen_valid (sign_info neg) \<Longrightarrow> connection (smbcli_init_signing lp neg)"
| step: "connection neg \<Longrightarrow> sign_step neg neg' \<Longrightarrow> connection neg'"

definition signing_inv :: "smbcli_negotiate \<Rightarrow> bool" where
  "signing_inv neg \<longleftrightarrow> (let si = sign_info neg in
     seen_valid si = doing_signing si \<and>
     (doing_signing si \<longrightarrow> signing_state si = SMB_SIGNING_ENGINE_ON \<and> mac_key si \<noteq> []) \<and>
     (signing_state si = SMB_SIGNING_ENGINE_BSRSPYL \<longrightarrow> mac_key si = []) \<and>
     (signing_state si \<noteq> SMB_SIGNING_ENGINE_OFF \<longrightarrow> allow_smb_signing si \<and> \<not> readbraw_supported neg \<and> \<not> writebraw_supported neg))"

lemma check_needs_key: "check_signed_incoming_message msg key seq = Inr True \<Longrightarrow> key \<noteq> []"
  by (auto simp: check_signed_incoming_message_def split: if_splits)

lemma calculate_frame:
  "smbcli_request_calculate_sign_mac neg req = Inr (neg', req') \<Longrightarrow> \<exists>n. neg' = neg\<lparr>sign_info := (sign_info neg)\<lparr>next_seq_num := n\<rparr>\<rparr>"
proof -
  assume "smbcli_request_calculate_sign_mac neg req = Inr (neg', req')"
  then have "neg' = neg \<or> neg' = neg\<lparr>sign_info := fst (smbcli_req_allocate_seq_num (sign_info neg) req)\<rparr>"
    by (auto simp: smbcli_request_calculate_sign_mac_def chk_eq_Inr Let_def split: smb_signing_engine_state.splits prod.splits)
  then show ?thesis
  proof
    assume "neg' = neg"
    then show ?thesis by (intro exI [where x = "next_seq_num (sign_info neg)"]) simp
  qed (auto simp: smbcli_req_allocate_seq_num_def)
qed

lemma check_frame:
  assumes "smbcli_request_check_sign_mac neg req = Inr (ok, neg')"
  shows "neg' = neg \<or> (\<exists>good. neg' = neg\<lparr>sign_info := snd (signing_good (sign_info neg) good)\<rparr> \<and>
    signing_state (sign_info neg) \<noteq> SMB_SIGNING_ENGINE_OFF \<and> (good \<longrightarrow> mac_key (sign_info neg) \<noteq> []))"
proof (cases "signing_state (sign_info neg) = SMB_SIGNING_ENGINE_OFF \<or> length (in_buffer req) < HDR_SS_FIELD + 8")
  case True
  then show ?thesis using assms by (auto simp: smbcli_request_check_sign_mac_def split: if_splits)
next
  case False
  then obtain good where good: "check_signed_incoming_message (in_buffer req) (mac_key (sign_info neg)) (seq_num req + 1) = Inr good"
      "neg' = neg\<lparr>sign_info := snd (signing_good (sign_info neg) good)\<rparr>"
    using assms by (auto simp: smbcli_request_check_sign_mac_def chk_eq_Inr case_prod_unfold Let_def)
  moreover have "good \<longrightarrow> mac_key (sign_info neg) \<noteq> []" using good(1) by (auto dest: check_needs_key)
  ultimately show ?thesis using False by blast
qed

lemma signing_good_inv:
  assumes "signing_inv neg" "signing_state (sign_info neg) \<noteq> SMB_SIGNING_ENGINE_OFF" "good \<Longrightarrow> mac_key (sign_info neg) \<noteq> []"
  shows "signing_inv (neg\<lparr>sign_info := snd (signing_good (sign_info neg) good)\<rparr>)"
proof (cases good)
  case True
  then have "signing_state (sign_info neg) = SMB_SIGNING_ENGINE_ON"
    using assms by (cases "signing_state (sign_info neg)") (auto simp: signing_inv_def Let_def)
  then show ?thesis using assms True by (auto simp: signing_good_def signing_inv_def Let_def)
next
  case False
  then show ?thesis using assms(1) by (auto simp: signing_good_def smbcli_set_signing_off_def signing_inv_def Let_def)
qed

lemma step_inv:
  assumes "sign_step neg neg'" and "signing_inv neg"
  shows "signing_inv neg'"
  using assms(1)
proof cases
  case temp
  then show ?thesis using assms(2)
    by (auto simp: smbcli_temp_set_signing_def smbcli_set_smb_signing_common_def set_smb_signing_common_def smbcli_set_signing_off_def
      signing_inv_def Let_def split: if_splits)
next
  case simple
  then show ?thesis using assms(2)
    by (auto simp: smbcli_transport_simple_set_signing_def smbcli_set_smb_signing_common_def set_smb_signing_common_def
      smbcli_simple_set_signing_def signing_inv_def Let_def split: if_splits)
next
  case send
  then show ?thesis using calculate_frame assms(2) by (fastforce simp: signing_inv_def Let_def)
next
  case (check req ok)
  then show ?thesis using check_frame [OF check] signing_good_inv [OF assms(2)] assms(2) by auto
qed

lemma connection_inv: "connection neg \<Longrightarrow> signing_inv neg"
proof (induction rule: connection.induct)
  case (start neg lp)
  then show ?case by (cases lp) (auto simp: smbcli_init_signing_def smbcli_set_signing_off_def signing_inv_def Let_def)
next
  case (step neg neg')
  show ?case by (rule step_inv [OF step(2) step.IH])
qed

lemma step_keeps_signing:
  assumes "sign_step neg neg'" and "signing_inv neg" and doing: "doing_signing (sign_info neg)"
  shows "doing_signing (sign_info neg') \<and> mac_key (sign_info neg') = mac_key (sign_info neg)"
  using assms(1)
proof cases
  case temp
  then show ?thesis using doing by (simp add: smbcli_temp_set_signing_def smbcli_set_smb_signing_common_def set_smb_signing_common_def)
next
  case simple
  then show ?thesis using doing by (simp add: smbcli_transport_simple_set_signing_def smbcli_set_smb_signing_common_def set_smb_signing_common_def)
next
  case send
  then show ?thesis using calculate_frame doing by fastforce
next
  case (check req ok)
  have "seen_valid (sign_info neg)" using assms(2) doing by (simp add: signing_inv_def Let_def)
  then show ?thesis using check_frame [OF check] doing by (auto simp: signing_good_def)
qed

lemma run_keeps_signing:
  "sign_step\<^sup>*\<^sup>* neg neg' \<Longrightarrow> signing_inv neg \<Longrightarrow> doing_signing (sign_info neg) \<Longrightarrow>
   signing_inv neg' \<and> doing_signing (sign_info neg') \<and> mac_key (sign_info neg') = mac_key (sign_info neg)"
proof (induction rule: rtranclp_induct)
  case (step y z)
  then show ?case using step_inv [of y z] step_keeps_signing [of y z] by auto
qed simp

text \<open>
  C25: in every connection, once a reply with a valid signature was seen signing stays on for good:
  after any further operations, attempts to set another key included, the engine is on with the same
  key, raw reads and writes are off, and a reply passes exactly when its signature is the one for the
  number behind that of its request.
\<close>

theorem smb_signing_stays_on:
  assumes "connection neg" and "doing_signing (sign_info neg)" and "sign_step\<^sup>*\<^sup>* neg neg'"
    and "length (mac_key (sign_info neg)) < 2 ^ 59" and "length (in_buffer req) < 2 ^ 59"
  shows "signing_state (sign_info neg') = SMB_SIGNING_ENGINE_ON \<and> mac_key (sign_info neg') = mac_key (sign_info neg) \<and>
    \<not> readbraw_supported neg' \<and> \<not> writebraw_supported neg' \<and>
    (\<exists>neg''. smbcli_request_check_sign_mac neg' req =
       Inr (26 \<le> length (in_buffer req) \<and> sig_field (in_buffer req) = smb_mac (mac_key (sign_info neg)) (seq_num req + 1) (in_buffer req), neg''))"
proof -
  have r: "signing_inv neg'" "doing_signing (sign_info neg')" "mac_key (sign_info neg') = mac_key (sign_info neg)"
    using run_keeps_signing [OF assms(3) connection_inv [OF assms(1)] assms(2)] by auto
  then have on: "signing_state (sign_info neg') = SMB_SIGNING_ENGINE_ON" "mac_key (sign_info neg) \<noteq> []" "seen_valid (sign_info neg')"
    "\<not> readbraw_supported neg'" "\<not> writebraw_supported neg'"
    by (auto simp: signing_inv_def Let_def)
  have "\<exists>neg''. smbcli_request_check_sign_mac neg' req =
       Inr (26 \<le> length (in_buffer req) \<and> sig_field (in_buffer req) = smb_mac (mac_key (sign_info neg)) (seq_num req + 1) (in_buffer req), neg'')"
    using on check_incoming [OF on(2) assms(4,5), of "seq_num req + 1"]
    by (auto simp: smbcli_request_check_sign_mac_def signing_good_def HDR_SS_FIELD_def r(3))
  then show ?thesis using on r(3) by blast
qed

definition sample_neg :: "bool \<Rightarrow> smbcli_negotiate" where
  "sample_neg seen = \<lparr>sec_mode = 0x04,
     sign_info = \<lparr>signing_state = SMB_SIGNING_ENGINE_ON, mac_key = [1, 2], next_seq_num = 0, allow_smb_signing = True,
       doing_signing = seen, mandatory_signing = False, seen_valid = seen\<rparr>,
     readbraw_supported = False, writebraw_supported = False\<rparr>"

lemma sample_connection: "connection (sample_neg True)"
proof -
  let ?zero = "\<lparr>sec_mode = 0x04,
     sign_info = \<lparr>signing_state = SMB_SIGNING_ENGINE_OFF, mac_key = [], next_seq_num = 0, allow_smb_signing = False,
       doing_signing = False, mandatory_signing = False, seen_valid = False\<rparr>,
     readbraw_supported = False, writebraw_supported = False\<rparr>"
  have c: "connection (smbcli_init_signing SMB_SIGNING_SUPPORTED ?zero)" by (rule connection.start) simp
  have "snd (smbcli_transport_simple_set_signing (smbcli_init_signing SMB_SIGNING_SUPPORTED ?zero) [1, 2] []) = sample_neg False"
    by (simp add: sample_neg_def smbcli_transport_simple_set_signing_def smbcli_set_smb_signing_common_def set_smb_signing_common_def
      smbcli_init_signing_def smbcli_set_signing_off_def smbcli_simple_set_signing_def NEGOTIATE_SECURITY_SIGNATURES_ENABLED_def
      NEGOTIATE_SECURITY_SIGNATURES_REQUIRED_def)
  then have c': "connection (sample_neg False)" using connection.step [OF c sign_step.simple] by metis
  obtain out where out: "length out = 40" "check_signed_incoming_message out [1, 2] 1 = Inr True"
    using sign_outgoing [of "replicate 40 0" "[1, 2]" 1] check_incoming [of "[1, 2]" _ 1] by auto
  let ?req = "\<lparr>seq_num = 0, sign_single_increment = False, in_buffer = out, out_buffer = []\<rparr>"
  have "smbcli_request_check_sign_mac (sample_neg False) ?req = Inr (True, sample_neg True)"
    using out by (simp add: smbcli_request_check_sign_mac_def sample_neg_def HDR_SS_FIELD_def signing_good_def)
  then show ?thesis by (rule connection.step [OF c' sign_step.check])
qed

theorem smb_signing_stays_on_witness:
  "\<exists>neg''. smbcli_request_check_sign_mac (sample_neg True)
     \<lparr>seq_num = 0, sign_single_increment = False, in_buffer = [], out_buffer = []\<rparr> = Inr (False, neg'')"
  using smb_signing_stays_on [OF sample_connection, of "sample_neg True"
      "\<lparr>seq_num = 0, sign_single_increment = False, in_buffer = [], out_buffer = []\<rparr>"]
  by (auto simp: sample_neg_def)

text \<open>
  Before the first valid reply a reply with a wrong signature turns signing off and is accepted.
  \<open>mandatory_signing\<close> has no part in it.
\<close>

lemma mandatory_signing_dropped:
  assumes "mandatory_signing (sign_info neg)" and "\<not> seen_valid (sign_info neg)"
    and "signing_state (sign_info neg) = SMB_SIGNING_ENGINE_ON" and "22 \<le> length (in_buffer req)"
    and "check_signed_incoming_message (in_buffer req) (mac_key (sign_info neg)) (seq_num req + 1) = Inr False"
  shows "smbcli_request_check_sign_mac neg req = Inr (True, neg\<lparr>sign_info := smbcli_set_signing_off (sign_info neg)\<rparr>)"
  using assms by (simp add: smbcli_request_check_sign_mac_def HDR_SS_FIELD_def signing_good_def)

end
