(* ===== verification/Errormap.thy ===== *)
theory Errormap
  imports Smb_Prelude "HOL-Library.Multiset"
begin

text \<open>
  \<open>libcli/util/errormap.c\<close>: the tables between NTSTATUS, DOS error codes, Win32 error codes and Unix
  error numbers, and the functions that search them. A status and a Win32 code are 32-bit words. A
  search that runs over the end of its table is \<open>Fault\<close>. The tables are the source's, with the
  names of the codes replaced by their values from \<open>nterr.h\<close> and \<open>doserr.h\<close>; the Unix error numbers
  are those of Linux.
\<close>

definition ERRDOS :: u8 where "ERRDOS = 1"
definition ERRSRV :: u8 where "ERRSRV = 2"
definition ERRHRD :: u8 where "ERRHRD = 3"
definition ERRgeneral :: u32 where "ERRgeneral = 31"

definition NT_STATUS_IS_DOS :: "u32 \<Rightarrow> bool" where
  "NT_STATUS_IS_DOS status = (status AND 0xFF000000 = 0xF1000000)"

definition NT_STATUS_DOS_CLASS :: "u32 \<Rightarrow> u8" where
  "NT_STATUS_DOS_CLASS status = ucast (drop_bit 16 status AND 0xFF)"

definition NT_STATUS_DOS_CODE :: "u32 \<Rightarrow> u32" where
  "NT_STATUS_DOS_CODE status = status AND 0xFFFF"

definition NT_STATUS_DOS :: "u8 \<Rightarrow> u32 \<Rightarrow> u32" where
  "NT_STATUS_DOS dclass code = 0xF1000000 OR push_bit 16 (ucast dclass) OR code"

section \<open>The tables\<close>

type_synonym dos_entry = "u8 \<times> u32 \<times> u32"

definition ntstatus_to_dos_map_1 :: "dos_entry list" where
  "ntstatus_to_dos_map_1 =
    [(ERRDOS, 18, 0x80000006), (ERRDOS, 18, 0x8000001A), (ERRDOS, 31, 0xC0000001), (ERRDOS, 1, 0xC0000002),
     (ERRDOS, 87, 0xC0000003), (ERRDOS, 24, 0xC0000004), (ERRHRD, 31, 0xC0000005), (ERRHRD, 31, 0xC0000006),
     (ERRHRD, 31, 0xC0000007), (ERRDOS, 6, 0xC0000008), (ERRHRD, 31, 0xC0000009), (ERRDOS, 193, 0xC000000A),
     (ERRDOS, 87, 0xC000000B), (ERRHRD, 31, 0xC000000C), (ERRDOS, 87, 0xC000000D), (ERRDOS, 2, 0xC000000E),
     (ERRDOS, 2, 0xC000000F), (ERRDOS, 1, 0xC0000010), (ERRDOS, 38, 0xC0000011), (ERRDOS, 34, 0xC0000012),
     (ERRDOS, 21, 0xC0000013), (ERRHRD, 31, 0xC0000014), (ERRDOS, 27, 0xC0000015), (ERRDOS, 8, 0xC0000017),
     (ERRDOS, 487, 0xC0000018), (ERRDOS, 487, 0xC0000019), (ERRDOS, 87, 0xC000001A), (ERRDOS, 87, 0xC000001B),
     (ERRDOS, 2142, 0xC000001C), (ERRHRD, 31, 0xC000001D), (ERRDOS, 5, 0xC000001E), (ERRDOS, 5, 0xC000001F),
     (ERRDOS, 193, 0xC0000020), (ERRDOS, 5, 0xC0000021), (ERRDOS, 5, 0xC0000022), (ERRDOS, 111, 0xC0000023),
     (ERRDOS, 6, 0xC0000024), (ERRHRD, 31, 0xC0000025), (ERRHRD, 31, 0xC0000026), (ERRHRD, 31, 0xC0000027),
     (ERRHRD, 31, 0xC0000028), (ERRHRD, 31, 0xC0000029), (ERRDOS, 158, 0xC000002A), (ERRHRD, 31, 0xC000002B),
     (ERRDOS, 487, 0xC000002C), (ERRDOS, 487, 0xC000002D), (ERRHRD, 31, 0xC000002E), (ERRHRD, 31, 0xC000002F),
     (ERRDOS, 87, 0xC0000030), (ERRHRD, 31, 0xC0000031), (ERRHRD, 31, 0xC0000032), (ERRDOS, 123, 0xC0000033),
     (ERRDOS, 2, 0xC0000034), (ERRDOS, 80, 0xC0000035), (ERRHRD, 31, 0xC0000036), (ERRDOS, 6, 0xC0000037),
     (ERRHRD, 31, 0xC0000038), (ERRDOS, 161, 0xC0000039), (ERRDOS, 3, 0xC000003A), (ERRDOS, 161, 0xC000003B),
     (ERRHRD, 31, 0xC000003C), (ERRHRD, 31, 0xC000003D), (ERRDOS, 23, 0xC000003E), (ERRDOS, 23, 0xC000003F),
     (ERRDOS, 8, 0xC0000040), (ERRDOS, 5, 0xC0000041), (ERRDOS, 6, 0xC0000042), (ERRDOS, 32, 0xC0000043),
     (ERRHRD, 31, 0xC0000044), (ERRDOS, 87, 0xC0000045), (ERRDOS, 288, 0xC0000046), (ERRDOS, 298, 0xC0000047),
     (ERRDOS, 87, 0xC0000048), (ERRDOS, 87, 0xC0000049), (ERRDOS, 156, 0xC000004A), (ERRDOS, 5, 0xC000004B),
     (ERRDOS, 87, 0xC000004C), (ERRDOS, 87, 0xC000004D), (ERRDOS, 87, 0xC000004E), (ERRDOS, 282, 0xC000004F),
     (ERRDOS, 255, 0xC0000050), (ERRHRD, 31, 0xC0000051), (ERRHRD, 31, 0xC0000052), (ERRHRD, 31, 0xC0000053),
     (ERRDOS, 33, 0xC0000054), (ERRDOS, 33, 0xC0000055), (ERRDOS, 5, 0xC0000056), (ERRDOS, 50, 0xC0000057),
     (ERRHRD, 31, 0xC0000058), (ERRHRD, 31, 0xC0000059), (ERRHRD, 31, 0xC000005A), (ERRHRD, 31, 0xC000005B),
     (ERRHRD, 31, 0xC000005C), (ERRHRD, 31, 0xC000005D), (ERRDOS, 2215, 0xC000005E), (ERRHRD, 31, 0xC000005F),
     (ERRHRD, 31, 0xC0000060), (ERRDOS, 5, 0xC0000061), (ERRHRD, 31, 0xC0000062), (ERRHRD, 31, 0xC0000063),
     (ERRDOS, 5, 0xC0000064), (ERRHRD, 31, 0xC0000065), (ERRHRD, 31, 0xC0000066), (ERRHRD, 31, 0xC0000067),
     (ERRHRD, 31, 0xC0000068), (ERRHRD, 31, 0xC0000069), (ERRSRV, 2, 0xC000006A), (ERRHRD, 31, 0xC000006B),
     (ERRHRD, 31, 0xC000006C), (ERRDOS, 5, 0xC000006D), (ERRHRD, 31, 0xC000006E), (ERRSRV, 2241, 0xC000006F),
     (ERRSRV, 2240, 0xC0000070), (ERRSRV, 2242, 0xC0000071), (ERRSRV, 2239, 0xC0000072), (ERRHRD, 31, 0xC0000073),
     (ERRHRD, 31, 0xC0000074), (ERRHRD, 31, 0xC0000075), (ERRHRD, 31, 0xC0000076), (ERRHRD, 31, 0xC0000077),
     (ERRHRD, 31, 0xC0000078), (ERRHRD, 31, 0xC0000079), (ERRDOS, 127, 0xC000007A), (ERRDOS, 193, 0xC000007B),
     (ERRHRD, 31, 0xC000007C), (ERRHRD, 31, 0xC000007D), (ERRDOS, 158, 0xC000007E), (ERRDOS, 112, 0xC000007F)]"

definition ntstatus_to_dos_map_2 :: "dos_entry list" where
  "ntstatus_to_dos_map_2 =
    [(ERRHRD, 31, 0xC0000080), (ERRHRD, 31, 0xC0000081), (ERRDOS, 68, 0xC0000082), (ERRDOS, 259, 0xC0000083),
     (ERRHRD, 31, 0xC0000084), (ERRDOS, 259, 0xC0000085), (ERRDOS, 154, 0xC0000086), (ERRDOS, 14, 0xC0000087),
     (ERRDOS, 487, 0xC0000088), (ERRHRD, 31, 0xC0000089), (ERRHRD, 31, 0xC000008A), (ERRHRD, 31, 0xC000008B),
     (ERRHRD, 31, 0xC000008C), (ERRHRD, 31, 0xC000008D), (ERRHRD, 31, 0xC000008E), (ERRHRD, 31, 0xC000008F),
     (ERRHRD, 31, 0xC0000090), (ERRHRD, 31, 0xC0000091), (ERRHRD, 31, 0xC0000092), (ERRHRD, 31, 0xC0000093),
     (ERRHRD, 31, 0xC0000094), (ERRDOS, 534, 0xC0000095), (ERRHRD, 31, 0xC0000096), (ERRDOS, 8, 0xC0000097),
     (ERRHRD, 31, 0xC0000098), (ERRHRD, 31, 0xC0000099), (ERRDOS, 8, 0xC000009A), (ERRDOS, 3, 0xC000009B),
     (ERRDOS, 23, 0xC000009C), (ERRHRD, 31, 0xC000009D), (ERRDOS, 21, 0xC000009E), (ERRDOS, 487, 0xC000009F),
     (ERRDOS, 487, 0xC00000A0), (ERRHRD, 31, 0xC00000A1), (ERRDOS, 19, 0xC00000A2), (ERRDOS, 21, 0xC00000A3),
     (ERRHRD, 31, 0xC00000A4), (ERRHRD, 31, 0xC00000A5), (ERRHRD, 31, 0xC00000A6), (ERRHRD, 31, 0xC00000A7),
     (ERRHRD, 31, 0xC00000A8), (ERRDOS, 87, 0xC00000A9), (ERRHRD, 31, 0xC00000AA), (ERRDOS, 231, 0xC00000AB),
     (ERRDOS, 231, 0xC00000AC), (ERRDOS, 230, 0xC00000AD), (ERRDOS, 231, 0xC00000AE), (ERRDOS, 1, 0xC00000AF),
     (ERRDOS, 233, 0xC00000B0), (ERRDOS, 232, 0xC00000B1), (ERRHRD, 31, 0xC00000B2), (ERRHRD, 31, 0xC00000B3),
     (ERRDOS, 230, 0xC00000B4), (ERRDOS, 121, 0xC00000B5), (ERRDOS, 38, 0xC00000B6), (ERRHRD, 31, 0xC00000B7),
     (ERRHRD, 31, 0xC00000B8), (ERRHRD, 31, 0xC00000B9), (ERRDOS, 5, 0xC00000BA), (ERRDOS, 50, 0xC00000BB),
     (ERRDOS, 51, 0xC00000BC), (ERRDOS, 52, 0xC00000BD), (ERRDOS, 53, 0xC00000BE), (ERRDOS, 54, 0xC00000BF),
     (ERRDOS, 55, 0xC00000C0), (ERRDOS, 56, 0xC00000C1), (ERRDOS, 57, 0xC00000C2), (ERRDOS, 58, 0xC00000C3),
     (ERRDOS, 59, 0xC00000C4), (ERRDOS, 60, 0xC00000C5), (ERRDOS, 61, 0xC00000C6), (ERRDOS, 62, 0xC00000C7),
     (ERRDOS, 63, 0xC00000C8), (ERRDOS, 64, 0xC00000C9), (ERRDOS, 65, 0xC00000CA), (ERRDOS, 66, 0xC00000CB),
     (ERRDOS, 67, 0xC00000CC), (ERRDOS, 68, 0xC00000CD), (ERRDOS, 69, 0xC00000CE), (ERRDOS, 70, 0xC00000CF),
     (ERRDOS, 71, 0xC00000D0), (ERRDOS, 72, 0xC00000D1), (ERRDOS, 88, 0xC00000D2), (ERRHRD, 31, 0xC00000D3),
     (ERRDOS, 17, 0xC00000D4), (ERRDOS, 5, 0xC00000D5), (ERRDOS, 240, 0xC00000D6), (ERRHRD, 31, 0xC00000D7),
     (ERRHRD, 31, 0xC00000D8), (ERRDOS, 232, 0xC00000D9), (ERRHRD, 31, 0xC00000DA), (ERRHRD, 31, 0xC00000DB),
     (ERRHRD, 31, 0xC00000DC), (ERRHRD, 31, 0xC00000DD), (ERRHRD, 31, 0xC00000DE), (ERRHRD, 31, 0xC00000DF),
     (ERRHRD, 31, 0xC00000E0), (ERRHRD, 31, 0xC00000E1), (ERRDOS, 300, 0xC00000E2), (ERRDOS, 301, 0xC00000E3),
     (ERRHRD, 31, 0xC00000E4), (ERRHRD, 31, 0xC00000E5), (ERRHRD, 31, 0xC00000E6), (ERRHRD, 31, 0xC00000E7),
     (ERRHRD, 31, 0xC00000E8), (ERRHRD, 31, 0xC00000E9), (ERRHRD, 31, 0xC00000EA), (ERRHRD, 31, 0xC00000EB),
     (ERRHRD, 31, 0xC00000EC), (ERRHRD, 31, 0xC00000ED), (ERRHRD, 31, 0xC00000EE), (ERRDOS, 87, 0xC00000EF),
     (ERRDOS, 87, 0xC00000F0), (ERRDOS, 87, 0xC00000F1), (ERRDOS, 87, 0xC00000F2), (ERRDOS, 87, 0xC00000F3),
     (ERRDOS, 87, 0xC00000F4), (ERRDOS, 87, 0xC00000F5), (ERRDOS, 87, 0xC00000F6), (ERRDOS, 87, 0xC00000F7),
     (ERRDOS, 87, 0xC00000F8), (ERRDOS, 87, 0xC00000F9), (ERRDOS, 87, 0xC00000FA), (ERRDOS, 3, 0xC00000FB),
     (ERRHRD, 31, 0xC00000FC), (ERRHRD, 31, 0xC00000FD), (ERRHRD, 31, 0xC00000FE), (ERRHRD, 31, 0xC00000FF),
     (ERRDOS, 203, 0xC0000100), (ERRDOS, 145, 0xC0000101), (ERRHRD, 31, 0xC0000102), (ERRDOS, 267, 0xC0000103),
     (ERRHRD, 31, 0xC0000104), (ERRHRD, 31, 0xC0000105), (ERRDOS, 206, 0xC0000106), (ERRDOS, 2401, 0xC0000107),
     (ERRDOS, 2404, 0xC0000108), (ERRHRD, 31, 0xC0000109), (ERRDOS, 5, 0xC000010A), (ERRHRD, 31, 0xC000010B),
     (ERRHRD, 31, 0xC000010C), (ERRHRD, 31, 0xC000010D), (ERRHRD, 31, 0xC000010E), (ERRHRD, 31, 0xC000010F),
     (ERRHRD, 31, 0xC0000110), (ERRHRD, 31, 0xC0000111)]"

definition ntstatus_to_dos_map_3 :: "dos_entry list" where
  "ntstatus_to_dos_map_3 =
    [(ERRHRD, 31, 0xC0000112), (ERRHRD, 31, 0xC0000113), (ERRHRD, 31, 0xC0000114), (ERRHRD, 31, 0xC0000115),
     (ERRHRD, 31, 0xC0000116), (ERRHRD, 31, 0xC0000117), (ERRHRD, 31, 0xC0000118), (ERRHRD, 31, 0xC0000119),
     (ERRHRD, 31, 0xC000011A), (ERRDOS, 193, 0xC000011B), (ERRHRD, 31, 0xC000011C), (ERRHRD, 31, 0xC000011D),
     (ERRHRD, 31, 0xC000011E), (ERRDOS, 4, 0xC000011F), (ERRHRD, 31, 0xC0000120), (ERRDOS, 5, 0xC0000121),
     (ERRHRD, 31, 0xC0000122), (ERRDOS, 5, 0xC0000123), (ERRHRD, 31, 0xC0000124), (ERRHRD, 31, 0xC0000125),
     (ERRHRD, 31, 0xC0000126), (ERRHRD, 31, 0xC0000127), (ERRDOS, 6, 0xC0000128), (ERRHRD, 31, 0xC0000129),
     (ERRHRD, 31, 0xC000012A), (ERRHRD, 31, 0xC000012B), (ERRHRD, 31, 0xC000012C), (ERRHRD, 31, 0xC000012D),
     (ERRDOS, 193, 0xC000012E), (ERRDOS, 193, 0xC000012F), (ERRDOS, 193, 0xC0000130), (ERRDOS, 193, 0xC0000131),
     (ERRHRD, 31, 0xC0000132), (ERRHRD, 31, 0xC0000133), (ERRHRD, 31, 0xC0000134), (ERRDOS, 126, 0xC0000135),
     (ERRHRD, 31, 0xC0000136), (ERRHRD, 31, 0xC0000137), (ERRDOS, 182, 0xC0000138), (ERRDOS, 127, 0xC0000139),
     (ERRHRD, 31, 0xC000013A), (ERRDOS, 64, 0xC000013B), (ERRDOS, 64, 0xC000013C), (ERRDOS, 51, 0xC000013D),
     (ERRDOS, 59, 0xC000013E), (ERRDOS, 59, 0xC000013F), (ERRDOS, 59, 0xC0000140), (ERRDOS, 59, 0xC0000141),
     (ERRHRD, 31, 0xC0000142), (ERRHRD, 31, 0xC0000143), (ERRHRD, 31, 0xC0000144), (ERRHRD, 31, 0xC0000145),
     (ERRHRD, 31, 0xC0000146), (ERRHRD, 31, 0xC0000147), (ERRDOS, 124, 0xC0000148), (ERRDOS, 86, 0xC0000149),
     (ERRHRD, 31, 0xC000014A), (ERRDOS, 109, 0xC000014B), (ERRHRD, 31, 0xC000014C), (ERRHRD, 31, 0xC000014D),
     (ERRHRD, 31, 0xC000014E), (ERRHRD, 31, 0xC000014F), (ERRHRD, 31, 0xC0000150), (ERRHRD, 31, 0xC0000151),
     (ERRHRD, 31, 0xC0000152), (ERRHRD, 31, 0xC0000153), (ERRHRD, 31, 0xC0000154), (ERRHRD, 31, 0xC0000155),
     (ERRHRD, 31, 0xC0000156), (ERRHRD, 31, 0xC0000157), (ERRHRD, 31, 0xC0000158), (ERRHRD, 31, 0xC0000159),
     (ERRHRD, 31, 0xC000015A), (ERRDOS, 5, 0xC000015B), (ERRHRD, 31, 0xC000015C), (ERRHRD, 31, 0xC000015D),
     (ERRHRD, 31, 0xC000015E), (ERRHRD, 31, 0xC000015F), (ERRHRD, 31, 0xC0000160), (ERRHRD, 31, 0xC0000161),
     (ERRHRD, 31, 0xC0000162), (ERRHRD, 31, 0xC0000163), (ERRHRD, 31, 0xC0000164), (ERRHRD, 31, 0xC0000165),
     (ERRHRD, 31, 0xC0000166), (ERRHRD, 31, 0xC0000167), (ERRHRD, 31, 0xC0000168), (ERRHRD, 31, 0xC0000169),
     (ERRHRD, 31, 0xC000016A), (ERRHRD, 31, 0xC000016B), (ERRHRD, 31, 0xC000016C), (ERRHRD, 31, 0xC000016D),
     (ERRHRD, 31, 0xC000016E), (ERRHRD, 31, 0xC000016F), (ERRHRD, 31, 0xC0000170), (ERRHRD, 31, 0xC0000171),
     (ERRHRD, 31, 0xC0000172), (ERRHRD, 31, 0xC0000173), (ERRHRD, 31, 0xC0000174), (ERRHRD, 31, 0xC0000175),
     (ERRHRD, 31, 0xC0000176), (ERRHRD, 31, 0xC0000177), (ERRHRD, 31, 0xC0000178), (ERRHRD, 31, 0xC0000179),
     (ERRHRD, 31, 0xC000017A), (ERRHRD, 31, 0xC000017B), (ERRHRD, 31, 0xC000017C), (ERRHRD, 31, 0xC000017D),
     (ERRHRD, 31, 0xC000017E), (ERRHRD, 31, 0xC000017F), (ERRHRD, 31, 0xC0000180), (ERRHRD, 31, 0xC0000181),
     (ERRDOS, 87, 0xC0000182), (ERRHRD, 31, 0xC0000183), (ERRDOS, 22, 0xC0000184), (ERRHRD, 31, 0xC0000185),
     (ERRHRD, 31, 0xC0000186), (ERRHRD, 31, 0xC0000187), (ERRHRD, 31, 0xC0000188), (ERRDOS, 19, 0xC0000189),
     (ERRDOS, 5, 0xC000018A), (ERRDOS, 5, 0xC000018B), (ERRDOS, 5, 0xC000018C), (ERRDOS, 5, 0xC000018D),
     (ERRHRD, 31, 0xC000018E), (ERRHRD, 31, 0xC000018F), (ERRDOS, 5, 0xC0000190), (ERRHRD, 31, 0xC0000191),
     (ERRDOS, 2455, 0xC0000192), (ERRSRV, 2239, 0xC0000193), (ERRHRD, 31, 0xC0000194), (ERRHRD, 31, 0xC0000195),
     (ERRHRD, 31, 0xC0000196), (ERRHRD, 31, 0xC0000197), (ERRDOS, 5, 0xC0000198), (ERRDOS, 5, 0xC0000199),
     (ERRDOS, 5, 0xC000019A), (ERRDOS, 5, 0xC000019B), (ERRHRD, 31, 0xC000019C), (ERRHRD, 31, 0xC0000202),
     (ERRDOS, 59, 0xC0000203), (ERRHRD, 31, 0xC0000204)]"

definition ntstatus_to_dos_map_4 :: "dos_entry list" where
  "ntstatus_to_dos_map_4 =
    [(ERRDOS, 8, 0xC0000205), (ERRHRD, 31, 0xC0000206), (ERRHRD, 31, 0xC0000207), (ERRHRD, 31, 0xC0000208),
     (ERRDOS, 68, 0xC0000209), (ERRDOS, 52, 0xC000020A), (ERRDOS, 64, 0xC000020B), (ERRDOS, 64, 0xC000020C),
     (ERRDOS, 64, 0xC000020D), (ERRDOS, 68, 0xC000020E), (ERRDOS, 59, 0xC000020F), (ERRDOS, 59, 0xC0000210),
     (ERRDOS, 59, 0xC0000211), (ERRDOS, 59, 0xC0000212), (ERRDOS, 59, 0xC0000213), (ERRDOS, 59, 0xC0000214),
     (ERRDOS, 59, 0xC0000215), (ERRDOS, 50, 0xC0000216), (ERRDOS, 50, 0xC0000217), (ERRHRD, 31, 0xC0000218),
     (ERRHRD, 31, 0xC0000219), (ERRHRD, 31, 0xC000021A), (ERRHRD, 31, 0xC000021B), (ERRHRD, 31, 0xC000021C),
     (ERRHRD, 31, 0xC000021D), (ERRHRD, 31, 0xC000021E), (ERRHRD, 31, 0xC000021F), (ERRHRD, 31, 0xC0000220),
     (ERRDOS, 193, 0xC0000221), (ERRHRD, 31, 0xC0000222), (ERRHRD, 31, 0xC0000223), (ERRSRV, 2242, 0xC0000224),
     (ERRHRD, 31, 0xC0000225), (ERRHRD, 31, 0xC0000226), (ERRHRD, 31, 0xC0000227), (ERRHRD, 31, 0xC0000228),
     (ERRHRD, 31, 0xC0000229), (ERRHRD, 31, 0xC000022A), (ERRHRD, 31, 0xC000022B), (ERRHRD, 31, 0xC000022C),
     (ERRHRD, 31, 0xC000022D), (ERRHRD, 31, 0xC000022E), (ERRHRD, 31, 0xC000022F), (ERRHRD, 31, 0xC0000230),
     (ERRHRD, 31, 0xC0000231), (ERRHRD, 31, 0xC0000232), (ERRHRD, 31, 0xC0000233), (ERRDOS, 5, 0xC0000234),
     (ERRDOS, 6, 0xC0000235), (ERRHRD, 31, 0xC0000236), (ERRHRD, 31, 0xC0000237), (ERRHRD, 31, 0xC0000238),
     (ERRHRD, 31, 0xC0000239), (ERRHRD, 31, 0xC000023A), (ERRHRD, 31, 0xC000023B), (ERRHRD, 31, 0xC000023C),
     (ERRHRD, 31, 0xC000023D), (ERRHRD, 31, 0xC000023E), (ERRHRD, 31, 0xC000023F), (ERRHRD, 31, 0xC0000240),
     (ERRHRD, 31, 0xC0000241), (ERRHRD, 31, 0xC0000242), (ERRHRD, 31, 0xC0000243), (ERRHRD, 31, 0xC0000244),
     (ERRHRD, 31, 0xC0000245), (ERRHRD, 31, 0xC0000246), (ERRHRD, 31, 0xC0000247), (ERRHRD, 31, 0xC0000248),
     (ERRDOS, 193, 0xC0000249), (ERRHRD, 31, 0xC000024A), (ERRHRD, 31, 0xC000024B), (ERRHRD, 31, 0xC000024C),
     (ERRHRD, 31, 0xC000024D), (ERRHRD, 31, 0xC000024E), (ERRHRD, 31, 0xC000024F), (ERRHRD, 31, 0xC0000250),
     (ERRHRD, 31, 0xC0000251), (ERRHRD, 31, 0xC0000252), (ERRHRD, 31, 0xC0000253), (ERRHRD, 31, 0xC0000254),
     (ERRHRD, 31, 0xC0000255), (ERRHRD, 31, 0xC0000256), (ERRSRV, 3, 0xC0000257), (ERRHRD, 31, 0xC0000258),
     (ERRHRD, 31, 0xC0000259), (ERRHRD, 31, 0xC000025A), (ERRHRD, 31, 0xC000025B), (ERRHRD, 31, 0xC000025C),
     (ERRHRD, 31, 0xC000025D), (ERRHRD, 31, 0xC000025E), (ERRHRD, 31, 0xC000025F), (ERRHRD, 31, 0xC0000260),
     (ERRHRD, 31, 0xC0000261), (ERRDOS, 182, 0xC0000262), (ERRDOS, 127, 0xC0000263), (ERRDOS, 288, 0xC0000264),
     (ERRHRD, 31, 0xC0000265), (ERRHRD, 31, 0xC0000266), (ERRHRD, 31, 0xC0000267), (ERRDOS, 21, 0xC000026E),
     (ERRDOS, 161, 0xC0000281), (ERRDOS, 5, 0xC000028A), (ERRDOS, 5, 0xC000028B), (ERRHRD, 31, 0xC000028C),
     (ERRDOS, 5, 0xC000028D), (ERRDOS, 5, 0xC000028E), (ERRDOS, 5, 0xC000028F), (ERRDOS, 5, 0xC0000290),
     (ERRDOS, 1, 0xC000029C)]"

definition ntstatus_to_dos_map :: "dos_entry list" where
  "ntstatus_to_dos_map = ntstatus_to_dos_map_1 @ ntstatus_to_dos_map_2 @ ntstatus_to_dos_map_3 @ ntstatus_to_dos_map_4"

definition ntstatus_to_werror_map_0 :: "(u32 \<times> u32) list" where
  "ntstatus_to_werror_map_0 =
    [(0xC0000022, 5), (0x103, 0x3E5), (0x105, 0xEA), (0x106, 0x514), (0x107, 0x515), (0x10C, 0x3FE),
     (0x10D, 0x516), (0x121, 0x2009)]"

definition ntstatus_to_werror_map_1 :: "(u32 \<times> u32) list" where
  "ntstatus_to_werror_map_1 =
    [(0xC0000001, 0x1F), (0xC0000002, 1), (0xC0000003, 0x57), (0xC0000004, 0x18), (0xC0000005, 0x3E6),
     (0xC0000006, 0x3E7), (0xC0000007, 0x5AE), (0xC0000008, 6), (0xC0000009, 0x3E9), (0xC000000A, 0xC1),
     (0xC000000B, 0x57), (0xC000000D, 0x57), (0xC000000E, 2), (0xC000000F, 2), (0xC0000010, 1), (0xC0000011, 0x26),
     (0xC0000012, 0x22), (0xC0000013, 0x15), (0xC0000014, 0x6F9), (0xC0000015, 0x1B), (0xC0000016, 0xEA),
     (0xC0000017, 8), (0xC0000018, 0x1E7), (0xC0000019, 0x1E7), (0xC000001A, 0x57), (0xC000001B, 0x57),
     (0xC000001C, 1), (0xC000001D, 0xC000001D), (0xC000001E, 5), (0xC000001F, 5), (0xC0000020, 0xC1),
     (0xC0000021, 5), (0xC0000022, 5), (0xC0000023, 0x7A), (0xC0000024, 6), (0xC0000025, 0xC0000025),
     (0xC0000026, 0xC0000026), (0xC000002A, 0x9E), (0xC000002B, 0xC000002B), (0xC000002C, 0x1E7),
     (0xC000002D, 0x1E7), (0xC0000030, 0x57), (0xC0000032, 0x571), (0xC0000033, 0x7B), (0xC0000034, 2),
     (0xC0000035, 0xB7), (0xC0000037, 6), (0xC0000039, 0xA1), (0xC000003A, 3), (0xC000003B, 0xA1),
     (0xC000003C, 0x45D), (0xC000003D, 0x45D), (0xC000003E, 0x17), (0xC000003F, 0x17), (0xC0000040, 8),
     (0xC0000041, 5), (0xC0000042, 6), (0xC0000043, 0x20), (0xC0000044, 0x718), (0xC0000045, 0x57),
     (0xC0000046, 0x120), (0xC0000047, 0x12A), (0xC0000048, 0x57), (0xC0000049, 0x57), (0xC000004A, 0x9C),
     (0xC000004B, 5), (0xC000004C, 0x57), (0xC000004D, 0x57), (0xC000004E, 0x57), (0xC000004F, 0x11A),
     (0xC0000050, 0xFF), (0xC0000051, 0x570), (0xC0000052, 0x570), (0xC0000053, 0x570), (0xC0000054, 0x21),
     (0xC0000055, 0x21), (0xC0000056, 5), (0xC0000057, 0x32), (0xC0000058, 0x519), (0xC0000059, 0x51A),
     (0xC000005A, 0x51B), (0xC000005B, 0x51C), (0xC000005C, 0x51D), (0xC000005D, 0x51E), (0xC000005E, 0x51F),
     (0xC000005F, 0x520), (0xC0000060, 0x521), (0xC0000061, 0x522), (0xC0000062, 0x523), (0xC0000063, 0x524),
     (0xC0000064, 0x525), (0xC0000065, 0x526), (0xC0000066, 0x527), (0xC0000067, 0x528), (0xC0000068, 0x529),
     (0xC0000069, 0x52A), (0xC000006A, 0x56), (0xC000006B, 0x52C), (0xC000006C, 0x52D), (0xC000006D, 0x52E),
     (0xC000006E, 0x52F), (0xC000006F, 0x530), (0xC0000070, 0x531), (0xC0000071, 0x532), (0xC0000072, 0x533),
     (0xC0000073, 0x534), (0xC0000074, 0x535), (0xC0000075, 0x536), (0xC0000076, 0x537), (0xC0000077, 0x538),
     (0xC0000078, 0x539), (0xC0000079, 0x53A), (0xC000007A, 0x7F), (0xC000007B, 0xC1), (0xC000007C, 0x3F0),
     (0xC000007D, 0x53C), (0xC000007E, 0x9E), (0xC000007F, 0x70), (0xC0000080, 0x53D), (0xC0000081, 0x53E),
     (0xC0000082, 0x44), (0xC0000083, 0x103), (0xC0000084, 0x53F), (0xC0000085, 0x103), (0xC0000086, 0x9A)]"

definition ntstatus_to_werror_map_2 :: "(u32 \<times> u32) list" where
  "ntstatus_to_werror_map_2 =
    [(0xC0000087, 0xE), (0xC0000088, 0x1E7), (0xC0000089, 0x714), (0xC000008A, 0x715), (0xC000008B, 0x716),
     (0xC000008C, 0xC000008C), (0xC000008D, 0xC000008D), (0xC000008E, 0xC000008E), (0xC000008F, 0xC000008F),
     (0xC0000090, 0xC0000090), (0xC0000091, 0xC0000091), (0xC0000092, 0xC0000092), (0xC0000093, 0xC0000093),
     (0xC0000094, 0xC0000094), (0xC0000095, 0x216), (0xC0000096, 0xC0000096), (0xC0000097, 8), (0xC0000098, 0x3EE),
     (0xC0000099, 0x540), (0xC000009A, 0x5AA), (0xC000009B, 3), (0xC000009C, 0x17), (0xC000009D, 0x48F),
     (0xC000009E, 0x15), (0xC000009F, 0x1E7), (0xC00000A0, 0x1E7), (0xC00000A1, 0x5AD), (0xC00000A2, 0x13),
     (0xC00000A3, 0x15), (0xC00000A4, 0x541), (0xC00000A5, 0x542), (0xC00000A6, 0x543), (0xC00000A7, 0x544),
     (0xC00000A8, 0x545), (0xC00000A9, 0x57), (0xC00000AB, 0xE7), (0xC00000AC, 0xE7), (0xC00000AD, 0xE6),
     (0xC00000AE, 0xE7), (0xC00000AF, 1), (0xC00000B0, 0xE9), (0xC00000B1, 0xE8), (0xC00000B2, 0x217),
     (0xC00000B3, 0x218), (0xC00000B4, 0xE6), (0xC00000B5, 0x79), (0xC00000B6, 0x26), (0xC00000BA, 5),
     (0xC00000BB, 0x32), (0xC00000BC, 0x33), (0xC00000BD, 0x34), (0xC00000BE, 0x35), (0xC00000BF, 0x36),
     (0xC00000C0, 0x37), (0xC00000C1, 0x38), (0xC00000C2, 0x39), (0xC00000C3, 0x3A), (0xC00000C4, 0x3B),
     (0xC00000C5, 0x3C), (0xC00000C6, 0x3D), (0xC00000C7, 0x3E), (0xC00000C8, 0x3F), (0xC00000C9, 0x40),
     (0xC00000CA, 0x41), (0xC00000CB, 0x42), (0xC00000CC, 0x43), (0xC00000CD, 0x44), (0xC00000CE, 0x45),
     (0xC00000CF, 0x46), (0xC00000D0, 0x47), (0xC00000D1, 0x48), (0xC00000D2, 0x58), (0xC00000D4, 0x11),
     (0xC00000D5, 5), (0xC00000D6, 0xF0), (0xC00000D7, 0x546), (0xC00000D9, 0xE8), (0xC00000DA, 0x547),
     (0xC00000DC, 0x548), (0xC00000DD, 0x549), (0xC00000DE, 0x54A), (0xC00000DF, 0x54B), (0xC00000E0, 0x54C),
     (0xC00000E1, 0x54D), (0xC00000E2, 0x12C), (0xC00000E3, 0x12D), (0xC00000E4, 0x54E), (0xC00000E5, 0x54F),
     (0xC00000E6, 0x550), (0xC00000E7, 0x551), (0xC00000E8, 0x6F8), (0xC00000ED, 0x552), (0xC00000EE, 0x553),
     (0xC00000EF, 0x57), (0xC00000F0, 0x57), (0xC00000F1, 0x57), (0xC00000F2, 0x57), (0xC00000F3, 0x57),
     (0xC00000F4, 0x57), (0xC00000F5, 0x57), (0xC00000F6, 0x57), (0xC00000F7, 0x57), (0xC00000F8, 0x57),
     (0xC00000F9, 0x57), (0xC00000FA, 0x57), (0xC00000FB, 3), (0xC00000FD, 0x3E9), (0xC00000FE, 0x554),
     (0xC0000100, 0xCB), (0xC0000101, 0x91), (0xC0000102, 0x570), (0xC0000103, 0x10B), (0xC0000104, 0x555),
     (0xC0000105, 0x556), (0xC0000106, 0xCE), (0xC0000107, 0x961), (0xC0000108, 0x964), (0xC000010A, 5),
     (0xC000010B, 0x557), (0xC000010D, 0x558), (0xC000010E, 0x420), (0xC0000117, 0x5A4), (0xC000011B, 0xC1),
     (0xC000011C, 0x559), (0xC000011D, 0x55A)]"

definition ntstatus_to_werror_map_3 :: "(u32 \<times> u32) list" where
  "ntstatus_to_werror_map_3 =
    [(0xC000011E, 0x3EE), (0xC000011F, 4), (0xC0000120, 0x3E3), (0xC0000121, 5), (0xC0000122, 0x4BA),
     (0xC0000123, 5), (0xC0000124, 0x55B), (0xC0000125, 0x55C), (0xC0000126, 0x55D), (0xC0000127, 0x55E),
     (0xC0000128, 6), (0xC000012B, 0x55F), (0xC000012D, 0x5AF), (0xC000012E, 0xC1), (0xC000012F, 0xC1),
     (0xC0000130, 0xC1), (0xC0000131, 0xC1), (0xC0000133, 0x576), (0xC0000135, 0x7E), (0xC0000138, 0xB6),
     (0xC0000139, 0x7F), (0xC000013B, 0x40), (0xC000013C, 0x40), (0xC000013D, 0x33), (0xC000013E, 0x3B),
     (0xC000013F, 0x3B), (0xC0000140, 0x3B), (0xC0000141, 0x3B), (0xC0000142, 0x45A), (0xC0000148, 0x7C),
     (0xC0000149, 0x56), (0xC000014B, 0x6D), (0xC000014C, 0x3F1), (0xC000014D, 0x3F8), (0xC000014F, 0x3ED),
     (0xC0000150, 0x45E), (0xC0000151, 0x560), (0xC0000152, 0x561), (0xC0000153, 0x562), (0xC0000154, 0x563),
     (0xC0000155, 0x564), (0xC0000156, 0x565), (0xC0000157, 0x566), (0xC0000158, 0x567), (0xC0000159, 0x3EF),
     (0xC000015A, 0x568), (0xC000015B, 0x569), (0xC000015C, 0x3F9), (0xC000015D, 0x56A), (0xC000015F, 0x45D),
     (0xC0000162, 0x459), (0xC0000165, 0x462), (0xC0000166, 0x463), (0xC0000167, 0x464), (0xC0000168, 0x465),
     (0xC0000169, 0x466), (0xC000016A, 0x467), (0xC000016B, 0x468), (0xC000016C, 0x45F), (0xC000016D, 0x45D),
     (0xC0000172, 0x451), (0xC0000173, 0x452), (0xC0000174, 0x453), (0xC0000175, 0x454), (0xC0000176, 0x455),
     (0xC0000177, 0x469), (0xC0000178, 0x458), (0xC000017A, 0x56B), (0xC000017B, 0x56C), (0xC000017C, 0x3FA),
     (0xC000017D, 0x3FB), (0xC000017E, 0x56D), (0xC000017F, 0x56E), (0xC0000180, 0x3FC), (0xC0000181, 0x3FD),
     (0xC0000182, 0x57), (0xC0000183, 0x45D), (0xC0000184, 0x16), (0xC0000185, 0x45D), (0xC0000186, 0x45D),
     (0xC0000188, 0x5DE), (0xC0000189, 0x13), (0xC000018A, 0x6FA), (0xC000018B, 0x6FB), (0xC000018C, 0x6FC),
     (0xC000018D, 0x6FD), (0xC000018E, 0x5DC), (0xC000018F, 0x5DD), (0xC0000190, 0x6FE), (0xC0000192, 0x700),
     (0xC0000193, 0x701), (0xC0000194, 0x46B), (0xC0000195, 0x4C3), (0xC0000196, 0x4C4), (0xC0000197, 0x5DF),
     (0xC0000198, 0x70F), (0xC0000199, 0x710), (0xC000019A, 0x711), (0xC000019B, 0x712), (0xC0000202, 0x572),
     (0xC0000203, 0x3B), (0xC0000204, 0x717), (0xC0000205, 0x46A), (0xC0000206, 0x6F8), (0xC0000207, 0x4BE),
     (0xC0000208, 0x4BE), (0xC0000209, 0x44), (0xC000020A, 0x34), (0xC000020B, 0x40), (0xC000020C, 0x40),
     (0xC000020D, 0x40), (0xC000020E, 0x44), (0xC000020F, 0x3B), (0xC0000210, 0x3B), (0xC0000211, 0x3B),
     (0xC0000212, 0x3B), (0xC0000213, 0x3B), (0xC0000214, 0x3B), (0xC0000215, 0x3B), (0xC0000216, 0x32),
     (0xC0000217, 0x32), (0xC000021C, 0x17E6), (0xC0000220, 0x46C), (0xC0000221, 0xC1), (0xC0000224, 0x773)]"

definition ntstatus_to_werror_map_4 :: "(u32 \<times> u32) list" where
  "ntstatus_to_werror_map_4 =
    [(0xC0000225, 0x490), (0xC000022A, 0xC000022A), (0xC000022B, 0xC000022B), (0xC000022D, 0x4D5),
     (0xC0000230, 0x492), (0xC0000233, 0x774), (0xC0000234, 0x775), (0xC0000235, 6), (0xC0000236, 0x4C9),
     (0xC0000237, 0x4CA), (0xC0000238, 0x4CB), (0xC0000239, 0x4CC), (0xC000023A, 0x4CD), (0xC000023B, 0x4CE),
     (0xC000023C, 0x4CF), (0xC000023D, 0x4D0), (0xC000023E, 0x4D1), (0xC000023F, 0x4D2), (0xC0000240, 0x4D3),
     (0xC0000241, 0x4D4), (0xC0000243, 0x4C8), (0xC0000246, 0x4D6), (0xC0000247, 0x4D7), (0xC0000248, 0x4D8),
     (0xC0000249, 0xC1), (0xC0000253, 0x54F), (0xC0000257, 0x4D0), (0xC0000259, 0x573), (0xC000025E, 0x422),
     (0xC0000262, 0xB6), (0xC0000263, 0x7F), (0xC0000264, 0x120), (0xC0000265, 0x476), (0xC0000267, 0x10FE),
     (0xC000026C, 0x7D1), (0xC000026D, 0x4B1), (0xC000026E, 0x15), (0xC0000272, 0x491), (0xC0000275, 0x1126),
     (0xC0000276, 0x1129), (0xC0000277, 0x112A), (0xC0000278, 0x1128), (0xC0000279, 0x780), (0xC0000280, 0x781),
     (0xC0000281, 0xA1), (0xC0000283, 0x488), (0xC0000284, 0x489), (0xC0000285, 0x48A), (0xC0000286, 0x48B),
     (0xC0000287, 0x48C), (0xC000028A, 5), (0xC000028B, 5), (0xC000028D, 5), (0xC000028E, 5), (0xC000028F, 5),
     (0xC0000290, 5), (0xC0000291, 0x1777), (0xC0000292, 0x1778), (0xC0000293, 0x1772), (0xC0000295, 0x1068),
     (0xC0000296, 0x1069), (0xC0000297, 0x106A), (0xC0000298, 0x106B), (0xC0000299, 0x201A), (0xC000029A, 0x201B),
     (0xC000029B, 0x201C), (0xC000029C, 1), (0xC000029D, 0x10FF), (0xC000029E, 0x1100), (0xC000029F, 0x494),
     (0xC00002A1, 0x200A), (0xC00002A2, 0x200B), (0xC00002A3, 0x200C), (0xC00002A4, 0x200D), (0xC00002A5, 0x200E),
     (0xC00002A6, 0x200F), (0xC00002A7, 0x2010), (0xC00002A8, 0x2011), (0xC00002A9, 0x2012), (0xC00002AA, 0x2013),
     (0xC00002AB, 0x2014), (0xC00002AC, 0x2015), (0xC00002AD, 0x2016), (0xC00002AE, 0x2017), (0xC00002AF, 0x2018),
     (0xC00002B0, 0x2019), (0xC00002B1, 0x211E), (0xC00002B2, 0x1127), (0xC00002B6, 0x651), (0xC00002B7, 0x49A),
     (0xC00002B8, 0x49B), (0xC00002C1, 0x2024), (0xC00002C3, 0x575), (0xC00002C5, 0x3E6), (0xC00002C6, 0x1075),
     (0xC00002C7, 0x1076), (0xC00002CA, 0x10E8), (0xC00002CB, 0x2138), (0xC00002CC, 0x4E3), (0xC00002CD, 0x2139),
     (0xC00002CF, 0x49D), (0xC00002D0, 0x213A), (0xC00002D4, 0x2141), (0xC00002D5, 0x2142), (0xC00002D6, 0x2143),
     (0xC00002D7, 0x2144), (0xC00002D8, 0x2145), (0xC00002D9, 0x2146), (0xC00002DA, 0x2147), (0xC00002DB, 0x2148),
     (0xC00002DC, 0x2149), (0xC00002DD, 0x32), (0xC00002DF, 0x2151), (0xC00002E0, 0x2152), (0xC00002E1, 0x2153),
     (0xC00002E2, 0x2154), (0xC00002E3, 0x215D), (0xC00002E4, 0x2163), (0xC00002E5, 0x2164), (0xC00002E6, 0x2165),
     (0xC00002E7, 0x216D), (0xC00002FE, 0x45B), (0xC00002FF, 0x4E7), (0xC0000300, 0x4E6)]"

definition ntstatus_to_werror_map_5 :: "(u32 \<times> u32) list" where
  "ntstatus_to_werror_map_5 =
    [(0x80000001, 0x80000001), (0x80000002, 0x3E6), (0x80000003, 0x80000003), (0x80000004, 0x80000004),
     (0x80000005, 0xEA), (0x80000006, 0x12), (0x8000000B, 0x56F), (0x8000000D, 0x12B), (0x8000000E, 0x1C),
     (0x8000000F, 0x15), (0x80000010, 0x15), (0x80000011, 0xAA), (0x80000012, 0x103), (0x80000013, 0xFE),
     (0x80000014, 0xFF), (0x80000015, 0xFF), (0x80000016, 0x456), (0x8000001A, 0x103), (0x8000001B, 0x44D),
     (0x8000001C, 0x456), (0x8000001D, 0x457), (0x8000001E, 0x44C), (0x8000001F, 0x44E), (0x80000021, 0x44F),
     (0x80000022, 0x450), (0x80000025, 0x962), (0x80000288, 0x48D), (0x80000289, 0x48E), (0xC002001B, 0x6BE),
     (0, 0)]"

definition ntstatus_to_werror_map :: "(u32 \<times> u32) list" where
  "ntstatus_to_werror_map =
     ntstatus_to_werror_map_0 @ ntstatus_to_werror_map_1 @ ntstatus_to_werror_map_2 @ ntstatus_to_werror_map_3 @
     ntstatus_to_werror_map_4 @ ntstatus_to_werror_map_5"

definition unix_nt_errmap :: "(int \<times> u32) list" where
  "unix_nt_errmap =
    [(11, 0x105), (4, 0x105), (105, 0x105), (11, 0x105), (115, 0xC0000016), (1, 0xC0000022), (13, 0xC0000022),
     (2, 0xC0000034), (20, 0xC0000103), (5, 0xC0000185), (9, 0xC0000008), (22, 0xC000000D), (17, 0xC0000035),
     (23, 0xC000011F), (24, 0xC000011F), (28, 0xC000007F), (21, 0xC00000BA), (88, 0xC0000008), (14, 0xC000000D),
     (90, 0xC0000206), (12, 0xC0000017), (32, 0xC000020C), (111, 0xC0000236), (104, 0xC000020D), (16, 0xC0000043),
     (95, 0xC00000BB), (95, 0xC00000BB), (113, 0xC000023D), (101, 0xC000023C), (110, 0xC00000B5), (98, 0xC0000238),
     (61, 0xC0000225), (122, 0xC0000044), (39, 0xC0000101), (18, 0xC00000D4), (30, 0xC00000A2), (36, 0xC0000106),
     (27, 0xC000007F), (99, 0xC0000239), (94, 0xC0000030), (97, 0xC0000030), (92, 0xC0000030), (19, 0xC000000E),
     (38, 0xC000001C), (0, 0xC0000001)]"

section \<open>The functions\<close>

fun find_dos :: "u32 \<Rightarrow> dos_entry list \<Rightarrow> (u8 \<times> u32) res" where
  "find_dos s [] = Inl Fault"
| "find_dos s ((dclass, code, n) # es) =
     (if n = 0 then Inr (ERRHRD, ERRgeneral) else if s = n then Inr (dclass, code) else find_dos s es)"

definition ntstatus_to_dos :: "u32 \<Rightarrow> (u8 \<times> u32) res" where
  "ntstatus_to_dos ntstatus =
     (if NT_STATUS_IS_OK ntstatus then Inr (0, 0)
      else if NT_STATUS_IS_DOS ntstatus then Inr (NT_STATUS_DOS_CLASS ntstatus, NT_STATUS_DOS_CODE ntstatus)
      else find_dos ntstatus ntstatus_to_dos_map)"

definition ntstatus_dos_equal :: "bool \<Rightarrow> u32 \<Rightarrow> u32 \<Rightarrow> bool res" where
  "ntstatus_dos_equal lp_nt_status_support status1 status2 =
     (if lp_nt_status_support then Inr (status1 = status2)
      else if \<not> NT_STATUS_IS_DOS status1 \<and> NT_STATUS_IS_DOS status2
      then chk (ntstatus_to_dos status1) (\<lambda>(eclass, ecode).
             Inr (eclass = NT_STATUS_DOS_CLASS status2 \<and> ecode = NT_STATUS_DOS_CODE status2))
      else if NT_STATUS_IS_DOS status1 \<and> \<not> NT_STATUS_IS_DOS status2
      then chk (ntstatus_to_dos status2) (\<lambda>(eclass, ecode).
             Inr (eclass = NT_STATUS_DOS_CLASS status1 \<and> ecode = NT_STATUS_DOS_CODE status1))
      else Inr (status1 = status2))"

fun find_ntstatus :: "u32 \<Rightarrow> (u32 \<times> u32) list \<Rightarrow> u32 res" where
  "find_ntstatus w [] = Inl Fault"
| "find_ntstatus w ((n, v) # es) = (if n = 0 then Inr w else if w = v then Inr n else find_ntstatus w es)"

definition werror_to_ntstatus :: "u32 \<Rightarrow> u32 res" where
  "werror_to_ntstatus error = (if error = 0 then Inr NT_STATUS_OK else find_ntstatus error ntstatus_to_werror_map)"

fun find_werror :: "u32 \<Rightarrow> (u32 \<times> u32) list \<Rightarrow> u32 res" where
  "find_werror s [] = Inl Fault"
| "find_werror s ((n, v) # es) = (if n = 0 then Inr s else if s = n then Inr v else find_werror s es)"

definition ntstatus_to_werror :: "u32 \<Rightarrow> u32 res" where
  "ntstatus_to_werror error = (if NT_STATUS_IS_OK error then Inr 0 else find_werror error ntstatus_to_werror_map)"

fun find_unix :: "int \<Rightarrow> (int \<times> u32) list \<Rightarrow> u32" where
  "find_unix e [] = NT_STATUS_UNSUCCESSFUL"
| "find_unix e ((n, v) # es) = (if n = e then v else find_unix e es)"

definition map_nt_error_from_unix :: "int \<Rightarrow> u32" where
  "map_nt_error_from_unix unix_error = find_unix unix_error unix_nt_errmap"

section \<open>Searching a table with an end mark\<close>

lemma find_ntstatus_marked:
  "0 \<notin> fst ` set es \<Longrightarrow>
   find_ntstatus w (es @ (0, v) # fs) = Inr (case map_of (map prod.swap es) w of None \<Rightarrow> w | Some n \<Rightarrow> n)"
  by (induction es) auto

lemma find_werror_marked:
  "0 \<notin> fst ` set es \<Longrightarrow>
   find_werror s (es @ (0, v) # fs) = Inr (case map_of es s of None \<Rightarrow> s | Some w \<Rightarrow> w)"
  by (induction es) auto

lemma find_dos_unmarked:
  "0 \<notin> (snd \<circ> snd) ` set es \<Longrightarrow>
   find_dos s es = (case map_of (map (\<lambda>(c, e, n). (n, c, e)) es) s of None \<Rightarrow> Inl Fault | Some r \<Rightarrow> Inr r)"
  by (induction es) auto

section \<open>The tables have one entry for a status\<close>

text \<open>
  The entries of \<open>ntstatus_to_werror_map\<close> rise within its blocks. Only the first entry, which was put in
  front by hand, comes again.
\<close>

definition rising :: "(u32 \<times> 'a) list \<Rightarrow> bool" where
  "rising es = successively (\<lambda>a b. fst a < fst b) es"

lemma rising_append:
  "rising (es @ fs) \<longleftrightarrow> rising es \<and> rising fs \<and> (es = [] \<or> fs = [] \<or> fst (last es) < fst (hd fs))"
  by (simp add: rising_def successively_append_iff)

lemma rising_distinct: "rising es \<Longrightarrow> distinct (map fst es)"
proof -
  assume "rising es"
  then have "sorted_wrt (\<lambda>a b. fst a < fst b) es"
    unfolding rising_def by (subst (asm) successively_conv_sorted_wrt) (auto simp: transp_def)
  then show ?thesis
    by (induction es) force+
qed

lemma werror_blocks_rise:
  "rising (tl ntstatus_to_werror_map_0)" "rising ntstatus_to_werror_map_1" "rising ntstatus_to_werror_map_2"
  "rising ntstatus_to_werror_map_3" "rising ntstatus_to_werror_map_4" "rising (butlast (butlast ntstatus_to_werror_map_5))"
  by code_simp+

lemma werror_blocks_ends:
  "hd ntstatus_to_werror_map_0 = (0xC0000022, 5)" "fst (last (tl ntstatus_to_werror_map_0)) = 0x121"
  "fst (hd ntstatus_to_werror_map_1) = 0xC0000001" "fst (last ntstatus_to_werror_map_1) < fst (hd ntstatus_to_werror_map_2)"
  "fst (last ntstatus_to_werror_map_2) < fst (hd ntstatus_to_werror_map_3)"
  "fst (last ntstatus_to_werror_map_3) < fst (hd ntstatus_to_werror_map_4)" "fst (last ntstatus_to_werror_map_4) = 0xC0000300"
  "fst (hd (butlast (butlast ntstatus_to_werror_map_5))) = 0x80000001"
  "fst (last (butlast (butlast ntstatus_to_werror_map_5))) = 0x80000289"
  "last (butlast ntstatus_to_werror_map_5) = (0xC002001B, 0x6BE)" "last ntstatus_to_werror_map_5 = (0, 0)"
  by code_simp+

lemma werror_no_zero:
  "list_all (\<lambda>e. fst e \<noteq> 0 \<and> snd e \<noteq> 0) ntstatus_to_werror_map_0" "list_all (\<lambda>e. fst e \<noteq> 0 \<and> snd e \<noteq> 0) ntstatus_to_werror_map_1"
  "list_all (\<lambda>e. fst e \<noteq> 0 \<and> snd e \<noteq> 0) ntstatus_to_werror_map_2" "list_all (\<lambda>e. fst e \<noteq> 0 \<and> snd e \<noteq> 0) ntstatus_to_werror_map_3"
  "list_all (\<lambda>e. fst e \<noteq> 0 \<and> snd e \<noteq> 0) ntstatus_to_werror_map_4"
  "list_all (\<lambda>e. fst e \<noteq> 0 \<and> snd e \<noteq> 0) (butlast ntstatus_to_werror_map_5)"
  by code_simp+

lemma werror_hd_again: "list_ex (\<lambda>e. e = (0xC0000022, 5)) ntstatus_to_werror_map_1"
  by code_simp

lemma dos_map_rises: "rising (map (\<lambda>(c, e, n). (n, c, e)) ntstatus_to_dos_map)"
  by code_simp

lemma dos_no_mark: "list_all (\<lambda>(c, e, n). n \<noteq> 0) ntstatus_to_dos_map"
  by code_simp

definition werror_entries :: "(u32 \<times> u32) list" where
  "werror_entries = butlast ntstatus_to_werror_map"

text \<open>The blocks in the order of their keys.\<close>

definition werror_sorted :: "(u32 \<times> u32) list" where
  "werror_sorted = tl ntstatus_to_werror_map_0 @ butlast (butlast ntstatus_to_werror_map_5) @
     ntstatus_to_werror_map_1 @ ntstatus_to_werror_map_2 @ ntstatus_to_werror_map_3 @ ntstatus_to_werror_map_4 @
     [last (butlast ntstatus_to_werror_map_5)]"

lemma werror_blocks_full:
  "tl ntstatus_to_werror_map_0 \<noteq> []" "ntstatus_to_werror_map_1 \<noteq> []" "ntstatus_to_werror_map_2 \<noteq> []"
  "ntstatus_to_werror_map_3 \<noteq> []" "ntstatus_to_werror_map_4 \<noteq> []" "butlast (butlast ntstatus_to_werror_map_5) \<noteq> []"
  by code_simp+

lemma werror_sorted_distinct: "distinct (map fst werror_sorted)"
proof -
  have "rising [last (butlast ntstatus_to_werror_map_5)]" by (simp add: rising_def)
  then have "rising werror_sorted"
    using werror_blocks_rise werror_blocks_ends werror_blocks_full
    by (simp add: werror_sorted_def rising_append)
  then show ?thesis by (rule rising_distinct)
qed

lemma werror_map_shape:
  "ntstatus_to_werror_map = werror_entries @ [(0, 0)]"
  "mset werror_entries = mset ((0xC0000022, 5) # werror_sorted)"
  "(0xC0000022, 5) \<in> set werror_sorted"
proof -
  let ?m = ntstatus_to_werror_map
  have m0: "ntstatus_to_werror_map_0 = (0xC0000022, 5) # tl ntstatus_to_werror_map_0"
    using werror_blocks_ends(1) werror_blocks_full(1) list.collapse [of ntstatus_to_werror_map_0] by fastforce
  have ne: "ntstatus_to_werror_map_5 \<noteq> []" "butlast ntstatus_to_werror_map_5 \<noteq> []"
    using werror_blocks_full(6) by auto
  have m5: "ntstatus_to_werror_map_5 = butlast ntstatus_to_werror_map_5 @ [(0, 0)]"
    using append_butlast_last_id [OF ne(1)] werror_blocks_ends(11) by simp
  have m5': "butlast ntstatus_to_werror_map_5 = butlast (butlast ntstatus_to_werror_map_5) @ [last (butlast ntstatus_to_werror_map_5)]"
    using append_butlast_last_id [OF ne(2)] by simp
  have e: "werror_entries = ntstatus_to_werror_map_0 @ ntstatus_to_werror_map_1 @ ntstatus_to_werror_map_2 @
      ntstatus_to_werror_map_3 @ ntstatus_to_werror_map_4 @ butlast ntstatus_to_werror_map_5"
    using ne by (simp add: werror_entries_def ntstatus_to_werror_map_def butlast_append)
  show "?m = werror_entries @ [(0, 0)]"
    unfolding e ntstatus_to_werror_map_def using m5 by simp
  show "mset werror_entries = mset ((0xC0000022, 5) # werror_sorted)"
    unfolding e by (subst m0, subst m5') (simp add: werror_sorted_def)
  have "(0xC0000022, 5) \<in> set ntstatus_to_werror_map_1" using werror_hd_again by (auto simp: list_ex_iff)
  then show "(0xC0000022, 5) \<in> set werror_sorted" by (simp add: werror_sorted_def)
qed

lemma werror_entries_set: "set werror_entries = set werror_sorted"
  using mset_eq_setD [OF werror_map_shape(2)] werror_map_shape(3) by auto

lemma werror_entries_unique: "(n, w) \<in> set werror_entries \<Longrightarrow> map_of werror_entries n = Some w"
proof -
  assume a: "(n, w) \<in> set werror_entries"
  have one: "w = w'" if "(n, w') \<in> set werror_entries" for w'
    using a that werror_sorted_distinct by (simp add: werror_entries_set eq_key_imp_eq_value)
  from a obtain w' where w': "map_of werror_entries n = Some w'"
    by (metis map_of_eq_None_iff not_Some_eq fst_conv image_eqI)
  then show ?thesis using one map_of_SomeD by fastforce
qed

lemma werror_entries_nonzero: "(n, w) \<in> set werror_entries \<Longrightarrow> n \<noteq> 0 \<and> w \<noteq> 0"
proof -
  have "\<forall>e \<in> set werror_sorted. fst e \<noteq> 0 \<and> snd e \<noteq> 0"
  proof -
    have "set (tl ntstatus_to_werror_map_0) \<subseteq> set ntstatus_to_werror_map_0" by (metis empty_set list.set_sel(2) subsetI tl_Nil)
    moreover have "set (butlast (butlast ntstatus_to_werror_map_5)) \<subseteq> set (butlast ntstatus_to_werror_map_5)"
      by (auto dest: in_set_butlastD)
    ultimately show ?thesis
      using werror_no_zero werror_blocks_ends(10) by (auto simp: werror_sorted_def list_all_iff)
  qed
  then show "(n, w) \<in> set werror_entries \<Longrightarrow> n \<noteq> 0 \<and> w \<noteq> 0"
    by (auto simp: werror_entries_set)
qed

lemma werror_to_ntstatus_eq:
  "w \<noteq> 0 \<Longrightarrow> werror_to_ntstatus w = Inr (case map_of (map prod.swap werror_entries) w of None \<Rightarrow> w | Some n \<Rightarrow> n)"
  unfolding werror_to_ntstatus_def werror_map_shape(1)
  using find_ntstatus_marked [of werror_entries w 0 "[]"] werror_entries_nonzero by fastforce

lemma ntstatus_to_werror_eq:
  "s \<noteq> 0 \<Longrightarrow> ntstatus_to_werror s = Inr (case map_of werror_entries s of None \<Rightarrow> s | Some w \<Rightarrow> w)"
  unfolding ntstatus_to_werror_def werror_map_shape(1)
  using find_werror_marked [of werror_entries s 0 "[]"] werror_entries_nonzero by (fastforce simp: NT_STATUS_IS_OK_def)

text \<open>
  C26. A Win32 error code survives the way through an NTSTATUS: \<open>ntstatus_to_werror\<close> gives back what
  \<open>werror_to_ntstatus\<close> was given, if the code is in the table or is not the number of an NTSTATUS of the
  table. So the codes of WBEM, with which the WMI client reports its errors, arrive unchanged. Neither search
  leaves the table, and only success is converted to success.
\<close>

theorem werror_roundtrip:
  assumes "w \<in> snd ` set ntstatus_to_werror_map \<or> w \<notin> fst ` set ntstatus_to_werror_map"
  shows "(\<exists>s. werror_to_ntstatus w = Inr s \<and> ntstatus_to_werror s = Inr w \<and> (s = NT_STATUS_OK \<longleftrightarrow> w = 0))"
proof (cases "w = 0")
  case True
  then show ?thesis by (simp add: werror_to_ntstatus_def ntstatus_to_werror_def NT_STATUS_OK_def NT_STATUS_IS_OK_def)
next
  case False
  let ?r = "map_of (map prod.swap werror_entries) w"
  show ?thesis
  proof (cases ?r)
    case None
    then have "w \<notin> snd ` set werror_entries" by (auto simp: map_of_eq_None_iff image_image)
    then have "map_of werror_entries w = None"
      using assms False by (auto simp: werror_map_shape(1) map_of_eq_None_iff)
    then show ?thesis
      using None False werror_to_ntstatus_eq [OF False] ntstatus_to_werror_eq [OF False] by (simp add: NT_STATUS_OK_def)
  next
    case (Some n)
    then have n: "(n, w) \<in> set werror_entries" using map_of_SomeD by fastforce
    then have "n \<noteq> 0" using werror_entries_nonzero by blast
    then show ?thesis
      using Some False werror_to_ntstatus_eq [OF False] ntstatus_to_werror_eq [of n] werror_entries_unique [OF n]
      by (simp add: NT_STATUS_OK_def)
  qed
qed

lemma not_a_listed_status: "list_all (\<lambda>e. fst e \<noteq> 0x80041010) ntstatus_to_werror_map"
  by code_simp

theorem werror_roundtrip_witness:
  "\<exists>s. werror_to_ntstatus 0x80041010 = Inr s \<and> ntstatus_to_werror s = Inr 0x80041010 \<and> (s = NT_STATUS_OK \<longleftrightarrow> (0x80041010 :: u32) = 0)"
proof -
  have "0x80041010 \<notin> fst ` set ntstatus_to_werror_map" using not_a_listed_status by (auto simp: list_all_iff)
  then show ?thesis by (rule werror_roundtrip [OF disjI2])
qed

text \<open>
  C27. What \<open>ntstatus_to_dos\<close> returns: the entry of the table if there is one. The table has no entry
  with status 0, which the loop takes for its end, so for every other status the search reads
  behind the table instead of falling back to \<open>ERRHRD\<close>, \<open>ERRgeneral\<close>.
\<close>

theorem ntstatus_to_dos_overread:
  assumes "\<not> NT_STATUS_IS_OK s" and "\<not> NT_STATUS_IS_DOS s"
  shows "((dclass, code, s) \<in> set ntstatus_to_dos_map \<longleftrightarrow> ntstatus_to_dos s = Inr (dclass, code)) \<and>
    (s \<notin> (snd \<circ> snd) ` set ntstatus_to_dos_map \<longleftrightarrow> ntstatus_to_dos s = Inl Fault)"
proof (rule conjI)
  let ?m = "map (\<lambda>(c, e, n). (n, c, e)) ntstatus_to_dos_map"
  have "0 \<notin> (snd \<circ> snd) ` set ntstatus_to_dos_map" using dos_no_mark by (force simp: list_all_iff)
  then have f: "ntstatus_to_dos s = (case map_of ?m s of None \<Rightarrow> Inl Fault | Some r \<Rightarrow> Inr r)"
    using assms by (simp add: ntstatus_to_dos_def find_dos_unmarked)
  have d: "distinct (map fst ?m)" using rising_distinct [OF dos_map_rises] .
  have "(dclass, code, s) \<in> set ntstatus_to_dos_map \<longleftrightarrow> (s, dclass, code) \<in> set ?m" by force
  also have "\<dots> \<longleftrightarrow> map_of ?m s = Some (dclass, code)" using map_of_eq_Some_iff [OF d] by simp
  finally show "(dclass, code, s) \<in> set ntstatus_to_dos_map \<longleftrightarrow> ntstatus_to_dos s = Inr (dclass, code)"
    unfolding f by (auto split: option.splits)
  have "s \<notin> (snd \<circ> snd) ` set ntstatus_to_dos_map \<longleftrightarrow> map_of ?m s = None"
    by (force simp: map_of_eq_None_iff image_image)
  then show "s \<notin> (snd \<circ> snd) ` set ntstatus_to_dos_map \<longleftrightarrow> ntstatus_to_dos s = Inl Fault"
    unfolding f by (auto split: option.splits)
qed

lemma not_a_dos_status: "list_all (\<lambda>(c, e, n). n \<noteq> 0xC0000300) ntstatus_to_dos_map"
  by code_simp

theorem ntstatus_to_dos_overread_witness: "ntstatus_to_dos 0xC0000300 = Inl Fault"
  using ntstatus_to_dos_overread [of "0xC0000300"] not_a_dos_status
  by (force simp: list_all_iff NT_STATUS_IS_OK_def NT_STATUS_IS_DOS_def)

end
