(* ===== verification/Wbem.thy ===== *)
theory Wbem
  imports Uuid
begin

text \<open>
  The objects of WMI and what \<open>src/wmi/wbemdata.c\<close> does with them in memory: the structures of
  \<open>librpc/idl/dcom_wmi.inc\<close>, copying them, reading and writing the properties of an instance, methods
  and new instances.

  A pointer that may be NULL is an option, an array with its count a list. The union \<open>CIMVAR\<close> is what
  was stored last: an integer of 64 bits, an integer stored through \<open>v_uint32\<close> into memory of unknown
  content, a pointer, or nothing yet. The host is little endian, so a smaller integer is the low
  part of a larger one, and a NULL pointer reads as 0. Reading a pointer where none was stored is
  \<open>Fault\<close>, and so are following NULL and leaving an array. The size of a pointer on the host is a
  parameter, \<open>psz\<close>. Memory does not run out.
\<close>

section \<open>The objects\<close>

datatype 'v WbemQualifier =
  WbemQualifier (q_name: "bytes option") (q_flavors: u8) (q_cimtype: u32) (q_value: 'v)

type_synonym 'v WbemQualifiers = "'v WbemQualifier option list"

datatype 'v WbemPropertyDesc =
  WbemPropertyDesc (pd_cimtype: u32) (pd_nr: u16) (pd_offset: u32) (pd_depth: u32) (pd_qualifiers: "'v WbemQualifiers")

datatype 'v WbemProperty =
  WbemProperty (p_name: "bytes option") (p_desc: "'v WbemPropertyDesc option")

datatype 'v WbemClass =
  WbemClass (u_0: u8) (c_CLASS: "bytes option") (c_data_size: u32) (c_DERIVATION: "bytes option list")
    (c_qualifiers: "'v WbemQualifiers") (c_properties: "'v WbemProperty list") (c_default_flags: "u8 list")
    (c_default_values: "'v list")

datatype ('v, 'o) WbemMethod =
  WbemMethod (m_name: "bytes option") (m_u0: u32) (m_u1: u32) (m_qualifiers: "'v WbemQualifiers option")
    (m_in: "'o option") (m_out: "'o option")

datatype ('v, 'o) WbemMethods =
  WbemMethods (ms_u0: u16) (ms_method: "('v, 'o) WbemMethod list")

datatype 'v WbemInstance =
  WbemInstance (u1_0: u8) (i_CLASS: "bytes option") (i_default_flags: "u8 list") (i_data: "'v list") (u2_4: u32) (u3_1: u8)

datatype CIMVAR =
    CV_undef
  | CV_bits u64
  | CV_half u32
  | CV_string bytes
  | CV_arr8 "u8 list"
  | CV_arr16 "u16 list"
  | CV_arr32 "u32 list"
  | CV_arr64 "u64 list"
  | CV_arr_string "bytes option list"
  | CV_object WbemClassObject
  | CV_arr_object "WbemClassObject option list"
and WbemClassObject =
  WbemClassObject (wco_flags: u8) (wco_SERVER: "bytes option") (wco_NAMESPACE: "bytes option")
    (sup_class: "CIMVAR WbemClass option") (sup_methods: "(CIMVAR, WbemClassObject) WbemMethods option")
    (obj_class: "CIMVAR WbemClass option") (obj_methods: "(CIMVAR, WbemClassObject) WbemMethods option")
    (inst: "CIMVAR WbemInstance option")

type_synonym wbem_class = "CIMVAR WbemClass"
type_synonym wbem_methods = "(CIMVAR, WbemClassObject) WbemMethods"

definition WCF_DECORATIONS :: u8 where "WCF_DECORATIONS = 1"
definition WCF_INSTANCE :: u8 where "WCF_INSTANCE = 2"
definition WCF_CLASS :: u8 where "WCF_CLASS = 4"

definition CIM_SINT8 :: u32 where "CIM_SINT8 = 16"
definition CIM_UINT8 :: u32 where "CIM_UINT8 = 17"
definition CIM_SINT16 :: u32 where "CIM_SINT16 = 2"
definition CIM_UINT16 :: u32 where "CIM_UINT16 = 18"
definition CIM_SINT32 :: u32 where "CIM_SINT32 = 3"
definition CIM_UINT32 :: u32 where "CIM_UINT32 = 19"
definition CIM_SINT64 :: u32 where "CIM_SINT64 = 20"
definition CIM_UINT64 :: u32 where "CIM_UINT64 = 21"
definition CIM_REAL32 :: u32 where "CIM_REAL32 = 4"
definition CIM_REAL64 :: u32 where "CIM_REAL64 = 5"
definition CIM_BOOLEAN :: u32 where "CIM_BOOLEAN = 11"
definition CIM_STRING :: u32 where "CIM_STRING = 8"
definition CIM_DATETIME :: u32 where "CIM_DATETIME = 101"
definition CIM_REFERENCE :: u32 where "CIM_REFERENCE = 102"
definition CIM_CHAR16 :: u32 where "CIM_CHAR16 = 103"
definition CIM_OBJECT :: u32 where "CIM_OBJECT = 13"
definition CIM_FLAG_ARRAY :: u32 where "CIM_FLAG_ARRAY = 0x2000"
definition CIM_TYPEMASK :: u32 where "CIM_TYPEMASK = 0x2FFF"

lemmas cim_defs = CIM_SINT8_def CIM_UINT8_def CIM_SINT16_def CIM_UINT16_def CIM_SINT32_def CIM_UINT32_def
  CIM_SINT64_def CIM_UINT64_def CIM_REAL32_def CIM_REAL64_def CIM_BOOLEAN_def CIM_STRING_def CIM_DATETIME_def
  CIM_REFERENCE_def CIM_CHAR16_def CIM_OBJECT_def CIM_FLAG_ARRAY_def CIM_TYPEMASK_def

definition WERR_OK :: u32 where "WERR_OK = 0"
definition WERR_BADFUNC :: u32 where "WERR_BADFUNC = 1"
definition WERR_NOT_SUPPORTED :: u32 where "WERR_NOT_SUPPORTED = 50"
definition WERR_INVALID_PARAM :: u32 where "WERR_INVALID_PARAM = 87"
definition WERR_NOT_FOUND :: u32 where "WERR_NOT_FOUND = 1168"

section \<open>The members of the union\<close>

fun v_uint64 :: "CIMVAR \<Rightarrow> u64 res" where
  "v_uint64 (CV_bits b) = Inr b"
| "v_uint64 _ = Inl Fault"

fun v_uint32 :: "CIMVAR \<Rightarrow> u32 res" where
  "v_uint32 (CV_bits b) = Inr (ucast b)"
| "v_uint32 (CV_half b) = Inr b"
| "v_uint32 _ = Inl Fault"

fun set_v_uint32 :: "CIMVAR \<Rightarrow> u32 \<Rightarrow> CIMVAR" where
  "set_v_uint32 (CV_bits b) x = CV_bits (b AND NOT 0xFFFFFFFF OR ucast x)"
| "set_v_uint32 _ x = CV_half x"

fun v_string :: "CIMVAR \<Rightarrow> bytes option res" where
  "v_string (CV_string s) = Inr (Some s)"
| "v_string (CV_bits b) = (if b = 0 then Inr None else Inl Fault)"
| "v_string _ = Inl Fault"

fun v_object :: "CIMVAR \<Rightarrow> WbemClassObject option res" where
  "v_object (CV_object ob) = Inr (Some ob)"
| "v_object (CV_bits b) = (if b = 0 then Inr None else Inl Fault)"
| "v_object _ = Inl Fault"

fun a_uint8 :: "CIMVAR \<Rightarrow> u8 list option res" where
  "a_uint8 (CV_arr8 xs) = Inr (Some xs)"
| "a_uint8 (CV_bits b) = (if b = 0 then Inr None else Inl Fault)"
| "a_uint8 _ = Inl Fault"

fun a_uint16 :: "CIMVAR \<Rightarrow> u16 list option res" where
  "a_uint16 (CV_arr16 xs) = Inr (Some xs)"
| "a_uint16 (CV_bits b) = (if b = 0 then Inr None else Inl Fault)"
| "a_uint16 _ = Inl Fault"

fun a_uint32 :: "CIMVAR \<Rightarrow> u32 list option res" where
  "a_uint32 (CV_arr32 xs) = Inr (Some xs)"
| "a_uint32 (CV_bits b) = (if b = 0 then Inr None else Inl Fault)"
| "a_uint32 _ = Inl Fault"

fun a_uint64 :: "CIMVAR \<Rightarrow> u64 list option res" where
  "a_uint64 (CV_arr64 xs) = Inr (Some xs)"
| "a_uint64 (CV_bits b) = (if b = 0 then Inr None else Inl Fault)"
| "a_uint64 _ = Inl Fault"

fun a_string :: "CIMVAR \<Rightarrow> bytes option list option res" where
  "a_string (CV_arr_string xs) = Inr (Some xs)"
| "a_string (CV_bits b) = (if b = 0 then Inr None else Inl Fault)"
| "a_string _ = Inl Fault"

definition deref :: "'a option \<Rightarrow> 'a res" where
  "deref p = (case p of None \<Rightarrow> Inl Fault | Some a \<Rightarrow> Inr a)"

definition string_var :: "bytes option \<Rightarrow> CIMVAR" where
  "string_var s = (case s of None \<Rightarrow> CV_bits 0 | Some s \<Rightarrow> CV_string s)"

section \<open>Copying\<close>

text \<open>The groups of types that the switch of \<open>duplicate_CIMVAR\<close> treats alike.\<close>

datatype cim_kind = K_scalar | K_text | K_object | K_arr8 | K_arr16 | K_arr32 | K_arr64 | K_arr_text | K_other

definition cim_kind_of :: "u32 \<Rightarrow> cim_kind" where
  "cim_kind_of t =
     (if t \<in> {CIM_SINT8, CIM_UINT8, CIM_SINT16, CIM_UINT16, CIM_SINT32, CIM_UINT32, CIM_SINT64, CIM_UINT64,
          CIM_REAL32, CIM_REAL64, CIM_BOOLEAN} then K_scalar
      else if t \<in> {CIM_STRING, CIM_DATETIME, CIM_REFERENCE} then K_text
      else if t = CIM_OBJECT then K_object
      else if t \<in> {CIM_FLAG_ARRAY OR CIM_SINT8, CIM_FLAG_ARRAY OR CIM_UINT8} then K_arr8
      else if t \<in> {CIM_FLAG_ARRAY OR CIM_SINT16, CIM_FLAG_ARRAY OR CIM_UINT16, CIM_FLAG_ARRAY OR CIM_BOOLEAN} then K_arr16
      else if t \<in> {CIM_FLAG_ARRAY OR CIM_SINT32, CIM_FLAG_ARRAY OR CIM_UINT32, CIM_FLAG_ARRAY OR CIM_REAL32} then K_arr32
      else if t \<in> {CIM_FLAG_ARRAY OR CIM_SINT64, CIM_FLAG_ARRAY OR CIM_UINT64, CIM_FLAG_ARRAY OR CIM_REAL64} then K_arr64
      else if t \<in> {CIM_FLAG_ARRAY OR CIM_STRING, CIM_FLAG_ARRAY OR CIM_DATETIME, CIM_FLAG_ARRAY OR CIM_REFERENCE} then K_arr_text
      else K_other)"

text \<open>
  The copies of arrays. Only those of bytes and of strings are tested for NULL. The array of the
  strings is copied with four bytes for a pointer and then filled by pointers.
\<close>

definition dup_array :: "('a list \<Rightarrow> CIMVAR) \<Rightarrow> 'a list option res \<Rightarrow> CIMVAR res" where
  "dup_array mk arr = chk arr (\<lambda>a. chk (deref a) (\<lambda>xs. Inr (mk xs)))"

definition dup_arr8 :: "CIMVAR \<Rightarrow> CIMVAR \<Rightarrow> CIMVAR res" where
  "dup_arr8 src dst = chk (a_uint8 src) (\<lambda>a. case a of None \<Rightarrow> Inr dst | Some xs \<Rightarrow> Inr (CV_arr8 xs))"

definition dup_arr_string :: "nat \<Rightarrow> CIMVAR \<Rightarrow> CIMVAR \<Rightarrow> CIMVAR res" where
  "dup_arr_string psz src dst =
     chk (a_string src) (\<lambda>a. case a of
         None \<Rightarrow> Inr dst
       | Some xs \<Rightarrow> if psz * length xs \<le> 4 * length xs then Inr (CV_arr_string xs) else Inl Fault)"

text \<open>
  The two functions that copy lists of pointers make an array of one element anew for every element,
  so the second one is written behind it. A copied qualifier is stored in a local variable only:
  the element stays NULL.
\<close>

definition duplicate_CIMSTRINGS :: "bytes option list \<Rightarrow> bytes option list res" where
  "duplicate_CIMSTRINGS src = (case src of [] \<Rightarrow> Inr [] | [x] \<Rightarrow> Inr [x] | _ \<Rightarrow> Inl Fault)"

text \<open>A copied list of methods has no array, so the first method is written through NULL.\<close>

definition duplicate_WbemMethods :: "wbem_methods \<Rightarrow> wbem_methods res" where
  "duplicate_WbemMethods src = (case ms_method src of [] \<Rightarrow> Inr (WbemMethods (ms_u0 src) []) | _ \<Rightarrow> Inl Fault)"

lemma deref_Inr [simp]: "deref p = Inr a \<longleftrightarrow> p = Some a"
  by (simp add: deref_def split: option.splits)

lemma v_object_Some: "v_object v = Inr (Some ob) \<Longrightarrow> size ob < size v"
  by (cases v) (auto split: if_split_asm)

lemma size_desc:
  "p_desc p = Some d \<Longrightarrow> size_list (size_option (size_WbemQualifier f)) (pd_qualifiers d) < size_WbemProperty f p"
  by (cases p; cases d) simp

lemma size_value: "size_WbemQualifier f q = f (q_value q) + Suc 0"
  by (cases q) simp

function (sequential) duplicate_CIMVAR :: "nat \<Rightarrow> CIMVAR \<Rightarrow> CIMVAR \<Rightarrow> u32 \<Rightarrow> CIMVAR res"
  and duplicate_WbemClassObject :: "nat \<Rightarrow> WbemClassObject \<Rightarrow> WbemClassObject res"
  and duplicate_WbemClass :: "nat \<Rightarrow> wbem_class \<Rightarrow> wbem_class res"
  and duplicate_WbemInstance :: "nat \<Rightarrow> CIMVAR WbemInstance \<Rightarrow> wbem_class \<Rightarrow> CIMVAR WbemInstance res"
  and duplicate_WbemQualifier :: "nat \<Rightarrow> CIMVAR WbemQualifier \<Rightarrow> unit res"
  and duplicate_WbemQualifiers :: "nat \<Rightarrow> CIMVAR WbemQualifiers \<Rightarrow> CIMVAR WbemQualifiers res"
  and duplicate_properties :: "nat \<Rightarrow> CIMVAR WbemProperty list \<Rightarrow> CIMVAR WbemProperty list res"
  and duplicate_values :: "nat \<Rightarrow> CIMVAR WbemProperty list \<Rightarrow> u8 list \<Rightarrow> CIMVAR list \<Rightarrow> (u8 list \<times> CIMVAR list) res"
where
  "duplicate_CIMVAR psz src dst cimtype =
     (case cim_kind_of (cimtype AND CIM_TYPEMASK) of
        K_scalar \<Rightarrow> Inr src
      | K_text \<Rightarrow> chk (v_string src) (\<lambda>s. Inr (string_var s))
      | K_object \<Rightarrow>
          chk (v_object src) (\<lambda>p. case p of
             None \<Rightarrow> Inr dst
           | Some ob \<Rightarrow> chk (duplicate_WbemClassObject psz ob) (\<lambda>ob. Inr (CV_object ob)))
      | K_arr8 \<Rightarrow> dup_arr8 src dst
      | K_arr16 \<Rightarrow> dup_array CV_arr16 (a_uint16 src)
      | K_arr32 \<Rightarrow> dup_array CV_arr32 (a_uint32 src)
      | K_arr64 \<Rightarrow> dup_array CV_arr64 (a_uint64 src)
      | K_arr_text \<Rightarrow> dup_arr_string psz src dst
      | K_other \<Rightarrow> Inr dst)"
| "duplicate_WbemClassObject psz (WbemClassObject flags server ns supc supm objc objm ins) =
     (let str = (\<lambda>p. if flags AND WCF_CLASS \<noteq> 0 then p else None);
          methods = (\<lambda>p. if flags AND WCF_DECORATIONS \<noteq> 0
             then chk (deref p) (\<lambda>m. chk (duplicate_WbemMethods m) (\<lambda>m. Inr (Some m))) else Inr None)
      in chk (if flags AND WCF_DECORATIONS \<noteq> 0
              then chk (deref supc) (\<lambda>c. chk (duplicate_WbemClass psz c) (\<lambda>c. Inr (Some c))) else Inr None) (\<lambda>supc'.
         chk (methods supm) (\<lambda>supm'.
         chk (methods objm) (\<lambda>objm'.
         chk (if flags AND (WCF_CLASS OR WCF_INSTANCE) \<noteq> 0
              then chk (deref objc) (\<lambda>c. chk (duplicate_WbemClass psz c) (\<lambda>c. Inr (Some c))) else Inr None) (\<lambda>objc'.
         chk (if flags AND WCF_INSTANCE \<noteq> 0
              then chk (deref ins) (\<lambda>i. chk (deref objc) (\<lambda>c.
                     chk (duplicate_WbemInstance psz i c) (\<lambda>i. Inr (Some i)))) else Inr None) (\<lambda>ins'.
         Inr (WbemClassObject flags (str server) (str ns) supc' supm' objc' objm' ins')))))))"
| "duplicate_WbemClass psz (WbemClass u cls sz der quals props flags vals) =
     chk (duplicate_CIMSTRINGS der) (\<lambda>der'.
     chk (duplicate_WbemQualifiers psz quals) (\<lambda>quals'.
     chk (duplicate_properties psz props) (\<lambda>props'.
     chk (duplicate_values psz props flags vals) (\<lambda>(flags', vals').
     Inr (WbemClass u cls 0 der' quals' props' flags' vals')))))"
| "duplicate_WbemInstance psz (WbemInstance u1 cls flags dat u2 u3) c =
     chk (duplicate_values psz (c_properties c) flags dat) (\<lambda>(flags', dat').
     Inr (WbemInstance u1 cls flags' dat' u2 u3))"
| "duplicate_WbemQualifier psz q =
     chk (duplicate_CIMVAR psz (q_value q) (CV_bits 0) (q_cimtype q)) (\<lambda>_. Inr ())"
| "duplicate_WbemQualifiers psz [] = Inr []"
| "duplicate_WbemQualifiers psz [q] =
     chk (deref q) (\<lambda>q. chk (duplicate_WbemQualifier psz q) (\<lambda>_. Inr [None]))"
| "duplicate_WbemQualifiers psz (_ # _ # _) = Inl Fault"
| "duplicate_properties psz [] = Inr []"
| "duplicate_properties psz (p # ps) =
     chk (deref (p_desc p)) (\<lambda>d.
     chk (duplicate_WbemQualifiers psz (pd_qualifiers d)) (\<lambda>quals.
     chk (duplicate_properties psz ps) (\<lambda>ps'.
     Inr (WbemProperty (p_name p) (Some (WbemPropertyDesc (pd_cimtype d) (pd_nr d) (pd_offset d) (pd_depth d) quals)) # ps'))))"
| "duplicate_values psz [] flags vals = Inr ([], [])"
| "duplicate_values psz (p # ps) (f # flags) (v # vals) =
     chk (deref (p_desc p)) (\<lambda>d.
     chk (duplicate_CIMVAR psz v CV_undef (pd_cimtype d)) (\<lambda>v'.
     chk (duplicate_values psz ps flags vals) (\<lambda>(flags', vals').
     Inr (f # flags', v' # vals'))))"
| "duplicate_values psz (p # ps) flags vals = Inl Fault"
  by pat_completeness auto
termination
proof (relation "measure (\<lambda>x. case x of
      Inl (Inl (Inl (_, v, _, _))) \<Rightarrow> size v
    | Inl (Inl (Inr (_, ob))) \<Rightarrow> size ob
    | Inl (Inr (Inl (_, c))) \<Rightarrow> size_WbemClass size c
    | Inl (Inr (Inr (_, i, _))) \<Rightarrow> size_WbemInstance size i
    | Inr (Inl (Inl (_, q))) \<Rightarrow> size_WbemQualifier size q
    | Inr (Inl (Inr (_, qs))) \<Rightarrow> size_list (size_option (size_WbemQualifier size)) qs
    | Inr (Inr (Inl (_, ps))) \<Rightarrow> size_list (size_WbemProperty size) ps
    | Inr (Inr (Inr (_, _, _, vs))) \<Rightarrow> size_list size vs)", goal_cases)
qed (auto simp: v_object_Some size_value intro: less_SucI trans_less_add1 size_desc)

declare duplicate_CIMVAR.simps [simp del]

section \<open>Properties of an instance\<close>

text \<open>The index of the first property with the name; every name up to it is compared.\<close>

fun find_property :: "bytes \<Rightarrow> 'v WbemProperty list \<Rightarrow> nat option res" where
  "find_property name [] = Inr None"
| "find_property name (p # ps) =
     chk (deref (p_name p)) (\<lambda>n.
       if n = name then Inr (Some 0) else chk (find_property name ps) (\<lambda>i. Inr (map_option Suc i)))"

definition nth_res :: "'a list \<Rightarrow> nat \<Rightarrow> 'a res" where
  "nth_res xs i = (if i < length xs then Inr (xs ! i) else Inl Fault)"

definition WbemClassObject_Get :: "nat \<Rightarrow> WbemClassObject \<Rightarrow> bytes \<Rightarrow> CIMVAR \<Rightarrow> (u32 \<times> CIMVAR \<times> u32 option) res" where
  "WbemClassObject_Get psz d name val =
     chk (deref (obj_class d)) (\<lambda>c.
     chk (find_property name (c_properties c)) (\<lambda>r. case r of
         None \<Rightarrow> Inr (WERR_NOT_FOUND, val, None)
       | Some i \<Rightarrow>
           chk (deref (inst d)) (\<lambda>ins.
           chk (nth_res (i_data ins) i) (\<lambda>v.
           chk (deref (p_desc (c_properties c ! i))) (\<lambda>desc.
           chk (duplicate_CIMVAR psz v val (pd_cimtype desc)) (\<lambda>val.
           Inr (WERR_OK, val, Some (pd_cimtype desc))))))))"

section \<open>Interface objects\<close>

text \<open>What is used of \<open>struct IWbemClassObject\<close>: its object reference and the data of the object.\<close>

record IWbemClassObject =
  obj_signature :: u32
  obj_flags :: u32
  obj_iid :: GUID
  custom_clsid :: GUID
  object_data :: "WbemClassObject option"

definition OBJREF_CUSTOM :: u32 where "OBJREF_CUSTOM = 4"

definition dcom_IWbemClassObject_from_WbemClassObject :: "WbemClassObject option \<Rightarrow> IWbemClassObject res" where
  "dcom_IWbemClassObject_from_WbemClassObject wco =
     chk (GUID_from_string (Some (ascii_str ''dc12a681-737f-11cf-884d-00aa004b2e24''))) (\<lambda>iid.
     chk (GUID_from_string (Some (ascii_str ''4590f812-1d3a-11d0-891f-00aa004b2e24''))) (\<lambda>clsid.
     Inr \<lparr>obj_signature = 0x574f454d, obj_flags = OBJREF_CUSTOM, obj_iid = iid, custom_clsid = clsid, object_data = wco\<rparr>))"

text \<open>A change of a property sets its flag to 0. The type is only compared if one is given.\<close>

definition IWbemClassObject_Put ::
  "nat \<Rightarrow> IWbemClassObject \<Rightarrow> bytes \<Rightarrow> CIMVAR \<Rightarrow> u32 \<Rightarrow> (u32 \<times> IWbemClassObject) res" where
  "IWbemClassObject_Put psz d name val cimtype =
     chk (deref (object_data d)) (\<lambda>wco.
     chk (deref (obj_class wco)) (\<lambda>c.
     chk (find_property name (c_properties c)) (\<lambda>r. case r of
         None \<Rightarrow> Inr (WERR_NOT_FOUND, d)
       | Some i \<Rightarrow>
           chk (deref (p_desc (c_properties c ! i))) (\<lambda>desc.
           if cimtype \<noteq> 0 \<and> cimtype \<noteq> pd_cimtype desc then Inr (WERR_INVALID_PARAM, d)
           else
             chk (deref (inst wco)) (\<lambda>ins.
             chk (nth_res (i_default_flags ins) i) (\<lambda>_.
             chk (nth_res (i_data ins) i) (\<lambda>old.
             chk (duplicate_CIMVAR psz val old (pd_cimtype desc)) (\<lambda>new.
             let ins' = WbemInstance (u1_0 ins) (i_CLASS ins) ((i_default_flags ins)[i := 0]) ((i_data ins)[i := new])
                   (u2_4 ins) (u3_1 ins);
                 wco' = WbemClassObject (wco_flags wco) (wco_SERVER wco) (wco_NAMESPACE wco) (sup_class wco) (sup_methods wco)
                   (obj_class wco) (obj_methods wco) (Some ins')
             in Inr (WERR_OK, d\<lparr>object_data := Some wco'\<rparr>)))))))))"

fun find_method :: "bytes \<Rightarrow> ('v, 'o) WbemMethod list \<Rightarrow> ('v, 'o) WbemMethod option res" where
  "find_method name [] = Inr None"
| "find_method name (m # ms) = chk (deref (m_name m)) (\<lambda>n. if n = name then Inr (Some m) else find_method name ms)"

definition IWbemClassObject_GetMethod ::
  "IWbemClassObject \<Rightarrow> bytes \<Rightarrow> (u32 \<times> (IWbemClassObject \<times> IWbemClassObject) option) res" where
  "IWbemClassObject_GetMethod d name =
     chk (deref (object_data d)) (\<lambda>wco.
     chk (deref (obj_methods wco)) (\<lambda>ms.
     chk (find_method name (ms_method ms)) (\<lambda>r. case r of
         None \<Rightarrow> Inr (WERR_NOT_FOUND, None)
       | Some m \<Rightarrow>
           chk (dcom_IWbemClassObject_from_WbemClassObject (m_in m)) (\<lambda>inp.
           chk (dcom_IWbemClassObject_from_WbemClassObject (m_out m)) (\<lambda>out.
           Inr (WERR_OK, Some (inp, out)))))))"

definition WbemClassObject_CreateInstance :: "WbemClassObject \<Rightarrow> WbemClassObject res" where
  "WbemClassObject_CreateInstance wco =
     chk (deref (obj_class wco)) (\<lambda>c.
     let n = length (c_properties c);
         ins = WbemInstance 0 (c_CLASS c) (replicate n 1) (replicate n (CV_bits 0)) 4 1
     in Inr (WbemClassObject (wco_flags wco) (wco_SERVER wco) (wco_NAMESPACE wco) (sup_class wco) (sup_methods wco)
               (obj_class wco) (obj_methods wco) (Some ins)))"

definition IWbemClassObject_SpawnInstance :: "IWbemClassObject \<Rightarrow> (u32 \<times> IWbemClassObject) res" where
  "IWbemClassObject_SpawnInstance d =
     chk (deref (object_data d)) (\<lambda>wco.
     chk (WbemClassObject_CreateInstance
            (WbemClassObject WCF_INSTANCE None None None None (obj_class wco) None None)) (\<lambda>nwco.
     chk (dcom_IWbemClassObject_from_WbemClassObject (Some nwco)) (\<lambda>ins.
     Inr (WERR_OK, ins))))"

definition IWbemClassObject_Clone :: "IWbemClassObject \<Rightarrow> u32" where
  "IWbemClassObject_Clone d = WERR_NOT_SUPPORTED"

end
