(* ===== verification/Wbem_Props.thy ===== *)
theory Wbem_Props
  imports Wbem
begin

text \<open>
  Values of WMI objects keep the types their classes declare. An instance is seen as a map from names
  of properties to types and values; \<open>WbemClassObject_Get\<close> looks a name up in it and
  \<open>IWbemClassObject_Put\<close> updates it. The copy functions for whole objects go wrong as soon as a
  class has two qualifiers or a method.
\<close>

section \<open>Typed values\<close>

definition cim_short :: "u32 \<Rightarrow> bool" where
  "cim_short t = (t \<in> {CIM_SINT8, CIM_UINT8, CIM_SINT16, CIM_UINT16, CIM_SINT32, CIM_UINT32, CIM_REAL32, CIM_BOOLEAN})"

fun var_ok :: "u32 \<Rightarrow> CIMVAR \<Rightarrow> bool" where
  "var_ok t CV_undef = False"
| "var_ok t (CV_bits b) = (cim_kind_of t = K_scalar \<or> b = 0)"
| "var_ok t (CV_half b) = cim_short t"
| "var_ok t (CV_string s) = (cim_kind_of t = K_text)"
| "var_ok t (CV_arr8 xs) = (cim_kind_of t = K_arr8)"
| "var_ok t (CV_arr16 xs) = (cim_kind_of t = K_arr16)"
| "var_ok t (CV_arr32 xs) = (cim_kind_of t = K_arr32)"
| "var_ok t (CV_arr64 xs) = (cim_kind_of t = K_arr64)"
| "var_ok t (CV_arr_string xs) = (cim_kind_of t = K_arr_text)"
| "var_ok t (CV_object ob) = (cim_kind_of t = K_object)"
| "var_ok t (CV_arr_object xs) = (t = CIM_FLAG_ARRAY OR CIM_OBJECT)"

text \<open>
  The values the code copies as they are: not objects, not the NULL pointer of an array, and with
  pointers of more than four bytes no strings in an array.
\<close>

fun copyable :: "nat \<Rightarrow> u32 \<Rightarrow> CIMVAR \<Rightarrow> bool" where
  "copyable psz t (CV_bits b) = (cim_kind_of t = K_scalar \<or> cim_kind_of t = K_text \<and> b = 0)"
| "copyable psz t (CV_arr_string xs) = (cim_kind_of t = K_arr_text \<and> psz * length xs \<le> 4 * length xs)"
| "copyable psz t (CV_object ob) = False"
| "copyable psz t (CV_arr_object xs) = False"
| "copyable psz t v = var_ok t v"

lemma copyable_ok: "copyable psz t v \<Longrightarrow> var_ok t v"
  by (cases v) auto

lemma short_scalar: "cim_short t \<Longrightarrow> cim_kind_of t = K_scalar"
  unfolding cim_short_def cim_kind_of_def by (rule if_P) blast

lemmas dup_defs = duplicate_CIMVAR.simps(1) dup_arr8_def dup_array_def dup_arr_string_def deref_def string_var_def

lemma duplicate_copyable:
  assumes "copyable psz (t AND CIM_TYPEMASK) v"
  shows "duplicate_CIMVAR psz v dst t = Inr v"
  using assms by (cases v) (auto simp: dup_defs short_scalar)

section \<open>Instances as maps\<close>

definition class_ok :: "'v WbemClass \<Rightarrow> bool" where
  "class_ok c = list_all (\<lambda>p. p_name p \<noteq> None \<and> p_desc p \<noteq> None) (c_properties c)"

definition prop_names :: "'v WbemClass \<Rightarrow> bytes list" where
  "prop_names c = map (the \<circ> p_name) (c_properties c)"

definition prop_types :: "'v WbemClass \<Rightarrow> u32 list" where
  "prop_types c = map (pd_cimtype \<circ> the \<circ> p_desc) (c_properties c)"

definition instance_ok :: "wbem_class \<Rightarrow> CIMVAR WbemInstance \<Rightarrow> bool" where
  "instance_ok c i =
     (class_ok c \<and> length (i_default_flags i) = length (c_properties c) \<and>
      list_all2 (\<lambda>t v. var_ok (t AND CIM_TYPEMASK) v) (prop_types c) (i_data i))"

definition object_ok :: "WbemClassObject \<Rightarrow> bool" where
  "object_ok wco = (case (obj_class wco, inst wco) of (Some c, Some i) \<Rightarrow> instance_ok c i | _ \<Rightarrow> False)"

definition prop_view :: "WbemClassObject \<Rightarrow> bytes \<rightharpoonup> u32 \<times> CIMVAR" where
  "prop_view wco = map_of (zip (prop_names (the (obj_class wco))) (zip (prop_types (the (obj_class wco))) (i_data (the (inst wco)))))"

lemma length_prop [simp]: "length (prop_names c) = length (c_properties c)" "length (prop_types c) = length (c_properties c)"
  by (simp_all add: prop_names_def prop_types_def)

text \<open>The search for a name against the lookup in the list of names.\<close>

lemma find_property_zip:
  assumes "list_all (\<lambda>p. p_name p \<noteq> None) ps" "length xs = length ps"
  shows "\<exists>r. find_property name ps = Inr r \<and>
    (case r of None \<Rightarrow> map_of (zip (map (the \<circ> p_name) ps) xs) name = None
     | Some i \<Rightarrow> i < length ps \<and> map_of (zip (map (the \<circ> p_name) ps) xs) name = Some (xs ! i) \<and>
         (\<forall>y. map_of (zip (map (the \<circ> p_name) ps) (xs[i := y])) = (map_of (zip (map (the \<circ> p_name) ps) xs))(name \<mapsto> y)))"
  using assms
proof (induction ps arbitrary: xs)
  case Nil
  then show ?case by simp
next
  case (Cons p ps)
  then obtain x xs' where xs: "xs = x # xs'" "length xs' = length ps" by (cases xs) auto
  obtain n where n: "p_name p = Some n" using Cons.prems(1) by auto
  from Cons.IH [OF _ xs(2)] Cons.prems(1) obtain r where r: "find_property name ps = Inr r" and
    v: "case r of None \<Rightarrow> map_of (zip (map (the \<circ> p_name) ps) xs') name = None
     | Some i \<Rightarrow> i < length ps \<and> map_of (zip (map (the \<circ> p_name) ps) xs') name = Some (xs' ! i) \<and>
         (\<forall>y. map_of (zip (map (the \<circ> p_name) ps) (xs'[i := y])) = (map_of (zip (map (the \<circ> p_name) ps) xs'))(name \<mapsto> y))"
    by auto
  show ?case
  proof (cases "n = name")
    case True
    then show ?thesis using xs n by (auto simp: deref_def)
  next
    case False
    then show ?thesis using xs n r v by (auto simp: deref_def fun_upd_twist split: option.splits)
  qed
qed

lemma object_okE:
  assumes "object_ok wco"
  obtains c i where "obj_class wco = Some c" "inst wco = Some i" "class_ok c"
    "length (i_default_flags i) = length (c_properties c)" "length (i_data i) = length (c_properties c)"
    "list_all2 (\<lambda>t v. var_ok (t AND CIM_TYPEMASK) v) (prop_types c) (i_data i)"
proof -
  from assms obtain c i where ci: "obj_class wco = Some c" "inst wco = Some i" "instance_ok c i"
    by (auto simp: object_ok_def split: option.splits)
  then have "length (i_data i) = length (c_properties c)"
    by (auto simp: instance_ok_def dest: list_all2_lengthD)
  then show ?thesis using that ci by (simp add: instance_ok_def)
qed

text \<open>What the two functions do after the search, on an instance that fits its class.\<close>

lemma find_in_object:
  assumes "object_ok wco" "obj_class wco = Some c" "inst wco = Some i"
  obtains "find_property name (c_properties c) = Inr None" "prop_view wco name = None"
  | k t v d where "find_property name (c_properties c) = Inr (Some k)" "k < length (c_properties c)"
    "prop_view wco name = Some (t, v)" "p_desc (c_properties c ! k) = Some d" "pd_cimtype d = t" "i_data i ! k = v"
    "var_ok (t AND CIM_TYPEMASK) v" "prop_types c ! k = t"
    "\<And>w. map_of (zip (prop_names c) (zip (prop_types c) ((i_data i)[k := w]))) = (prop_view wco)(name \<mapsto> (t, w))"
proof -
  from assms have ok: "class_ok c" "length (i_data i) = length (c_properties c)"
    "list_all2 (\<lambda>t v. var_ok (t AND CIM_TYPEMASK) v) (prop_types c) (i_data i)"
    by (auto elim!: object_okE)
  let ?xs = "zip (prop_types c) (i_data i)"
  have view: "prop_view wco = map_of (zip (prop_names c) ?xs)" using assms by (simp add: prop_view_def)
  have names: "list_all (\<lambda>p. p_name p \<noteq> None) (c_properties c)" "length ?xs = length (c_properties c)"
    using ok by (auto simp: class_ok_def list_all_iff)
  from find_property_zip [OF names] obtain r where r: "find_property name (c_properties c) = Inr r" and
    v: "case r of None \<Rightarrow> map_of (zip (prop_names c) ?xs) name = None
     | Some k \<Rightarrow> k < length (c_properties c) \<and> map_of (zip (prop_names c) ?xs) name = Some (?xs ! k) \<and>
         (\<forall>y. map_of (zip (prop_names c) (?xs[k := y])) = (map_of (zip (prop_names c) ?xs))(name \<mapsto> y))"
    unfolding prop_names_def by blast
  show ?thesis
  proof (cases r)
    case None
    then show ?thesis using that(1) r v view by simp
  next
    case (Some k)
    then have k: "k < length (c_properties c)" using v by simp
    then obtain d where d: "p_desc (c_properties c ! k) = Some d"
      using ok(1) by (auto simp: class_ok_def list_all_length)
    have t: "prop_types c ! k = pd_cimtype d" using k d by (simp add: prop_types_def)
    have upd: "zip (prop_types c) ((i_data i)[k := w]) = ?xs[k := (pd_cimtype d, w)]" for w
      using k t ok(2) by (simp add: list_eq_iff_nth_eq nth_list_update)
    have "var_ok (pd_cimtype d AND CIM_TYPEMASK) (i_data i ! k)"
      using ok(3) k t by (metis length_prop(2) list_all2_nthD)
    then show ?thesis
      using that(2) [of k "pd_cimtype d" "i_data i ! k" d] Some r v view k d t ok(2) upd by simp
  qed
qed

lemma Get_view:
  assumes "object_ok wco"
  shows "WbemClassObject_Get psz wco name w =
    (case prop_view wco name of
       None \<Rightarrow> Inr (WERR_NOT_FOUND, w, None)
     | Some (t, v) \<Rightarrow> chk (duplicate_CIMVAR psz v w t) (\<lambda>w'. Inr (WERR_OK, w', Some t)))"
proof -
  obtain c i where ci: "obj_class wco = Some c" "inst wco = Some i" "length (i_data i) = length (c_properties c)"
    using assms by (rule object_okE)
  show ?thesis
    by (rule find_in_object [OF assms ci(1,2), of name])
      (simp_all add: WbemClassObject_Get_def ci deref_def nth_res_def)
qed


lemma Put_missing:
  assumes "object_ok wco" "object_data d = Some wco"
  shows "prop_view wco name = None \<Longrightarrow> IWbemClassObject_Put psz d name v cimtype = Inr (WERR_NOT_FOUND, d)"
    and "prop_view wco name = Some (t, old) \<Longrightarrow> cimtype \<noteq> 0 \<Longrightarrow> cimtype \<noteq> t \<Longrightarrow>
      IWbemClassObject_Put psz d name v cimtype = Inr (WERR_INVALID_PARAM, d)"
proof -
  obtain c i where ci: "obj_class wco = Some c" "inst wco = Some i" using assms(1) by (rule object_okE)
  show "prop_view wco name = None \<Longrightarrow> IWbemClassObject_Put psz d name v cimtype = Inr (WERR_NOT_FOUND, d)"
    by (rule find_in_object [OF assms(1) ci, of name])
      (simp_all add: IWbemClassObject_Put_def ci assms(2) deref_def)
  show "prop_view wco name = Some (t, old) \<Longrightarrow> cimtype \<noteq> 0 \<Longrightarrow> cimtype \<noteq> t \<Longrightarrow>
      IWbemClassObject_Put psz d name v cimtype = Inr (WERR_INVALID_PARAM, d)"
    by (rule find_in_object [OF assms(1) ci, of name])
      (simp_all add: IWbemClassObject_Put_def ci assms(2) deref_def)
qed

lemma Put_found:
  assumes "object_ok wco" "object_data d = Some wco" "prop_view wco name = Some (t, old)"
    and "cimtype = 0 \<or> cimtype = t" "duplicate_CIMVAR psz v old t = Inr new"
  obtains wco' where "IWbemClassObject_Put psz d name v cimtype = Inr (WERR_OK, d\<lparr>object_data := Some wco'\<rparr>)"
    "obj_class wco' = obj_class wco" "prop_view wco' = (prop_view wco)(name \<mapsto> (t, new))"
    "var_ok (t AND CIM_TYPEMASK) new \<Longrightarrow> object_ok wco'" "wco_flags wco' = wco_flags wco"
proof -
  obtain c i where ci: "obj_class wco = Some c" "inst wco = Some i" "class_ok c"
    "length (i_default_flags i) = length (c_properties c)" "length (i_data i) = length (c_properties c)"
    "list_all2 (\<lambda>t v. var_ok (t AND CIM_TYPEMASK) v) (prop_types c) (i_data i)"
    using assms(1) by (rule object_okE)
  show ?thesis
  proof (rule find_in_object [OF assms(1) ci(1,2), of name])
    fix k t' v' d'
    assume f: "find_property name (c_properties c) = Inr (Some k)" "k < length (c_properties c)"
      "prop_view wco name = Some (t', v')" "p_desc (c_properties c ! k) = Some d'" "pd_cimtype d' = t'" "i_data i ! k = v'"
      "prop_types c ! k = t'"
      and upd: "\<And>w. map_of (zip (prop_names c) (zip (prop_types c) ((i_data i)[k := w]))) = (prop_view wco)(name \<mapsto> (t', w))"
    have [simp]: "t' = t" "v' = old" using f(3) assms(3) by auto
    let ?i = "WbemInstance (u1_0 i) (i_CLASS i) ((i_default_flags i)[k := 0]) ((i_data i)[k := new]) (u2_4 i) (u3_1 i)"
    let ?w = "WbemClassObject (wco_flags wco) (wco_SERVER wco) (wco_NAMESPACE wco) (sup_class wco) (sup_methods wco)
      (obj_class wco) (obj_methods wco) (Some ?i)"
    have "object_ok ?w" if "var_ok (t AND CIM_TYPEMASK) new"
      using ci f(2,7) that
      by (auto simp: object_ok_def instance_ok_def list_all2_conv_all_nth nth_list_update)
    moreover have "IWbemClassObject_Put psz d name v cimtype = Inr (WERR_OK, d\<lparr>object_data := Some ?w\<rparr>)"
      using ci f assms(2,4,5) by (auto simp: IWbemClassObject_Put_def deref_def nth_res_def Let_def)
    ultimately show ?thesis
      using that [of ?w] upd by (simp add: prop_view_def ci)
  qed (use assms(3) in simp)
qed

section \<open>New instances\<close>

definition iid_IWbemClassObject :: GUID where
  "iid_IWbemClassObject = \<lparr>time_low = 0xdc12a681, time_mid = 0x737f, time_hi_and_version = 0x11cf, clock_seq0 = 0x88, clock_seq1 = 0x4d,
     node = [0, 0xaa, 0, 0x4b, 0x2e, 0x24]\<rparr>"

definition clsid_WbemClassObject :: GUID where
  "clsid_WbemClassObject = \<lparr>time_low = 0x4590f812, time_mid = 0x1d3a, time_hi_and_version = 0x11d0, clock_seq0 = 0x89, clock_seq1 = 0x1f,
     node = [0, 0xaa, 0, 0x4b, 0x2e, 0x24]\<rparr>"

lemma print_hex_numeral: "print_hex (numeral n) v = print_hex (pred_numeral n) (v div 16) @ [hex_char (v mod 16)]"
  by (subst numeral_eq_Suc) (rule print_hex.simps(2))

lemma class_object_guids:
  "GUID_from_string (Some (ascii_str ''dc12a681-737f-11cf-884d-00aa004b2e24'')) = Inr iid_IWbemClassObject"
  "GUID_from_string (Some (ascii_str ''4590f812-1d3a-11d0-891f-00aa004b2e24'')) = Inr clsid_WbemClassObject"
proof -
  have "ascii_str ''dc12a681-737f-11cf-884d-00aa004b2e24'' = GUID_string iid_IWbemClassObject"
    and "ascii_str ''4590f812-1d3a-11d0-891f-00aa004b2e24'' = GUID_string clsid_WbemClassObject"
    by (simp_all add: ascii_str_def GUID_string_def iid_IWbemClassObject_def clsid_WbemClassObject_def print_hex_numeral hex_char.simps)
  then show "GUID_from_string (Some (ascii_str ''dc12a681-737f-11cf-884d-00aa004b2e24'')) = Inr iid_IWbemClassObject"
    and "GUID_from_string (Some (ascii_str ''4590f812-1d3a-11d0-891f-00aa004b2e24'')) = Inr clsid_WbemClassObject"
    by (simp_all add: GUID_from_GUID_string guid_ok_def iid_IWbemClassObject_def clsid_WbemClassObject_def)
qed

lemma from_WbemClassObject [simp]:
  "dcom_IWbemClassObject_from_WbemClassObject wco =
     Inr \<lparr>obj_signature = 0x574f454d, obj_flags = OBJREF_CUSTOM, obj_iid = iid_IWbemClassObject,
          custom_clsid = clsid_WbemClassObject, object_data = wco\<rparr>"
  by (simp add: dcom_IWbemClassObject_from_WbemClassObject_def class_object_guids)

lemma map_of_zip_zip: "length xs = length ys \<Longrightarrow> length ys = length zs \<Longrightarrow>
  map_option fst (map_of (zip xs (zip ys zs)) k) = map_of (zip xs ys) k"
  by (induction xs ys zs rule: list_induct3) auto

lemma view_type:
  assumes "object_ok wco" "obj_class wco = Some c"
  shows "map_option fst (prop_view wco name) = map_of (zip (prop_names c) (prop_types c)) name"
  using assms by (auto elim!: object_okE simp: prop_view_def intro!: map_of_zip_zip)

lemma spawn_ok:
  assumes "object_data d = Some wco" "obj_class wco = Some c" "class_ok c"
  obtains d0 nwco where "IWbemClassObject_SpawnInstance d = Inr (WERR_OK, d0)" "object_data d0 = Some nwco"
    "object_ok nwco" "obj_class nwco = Some c" "wco_flags nwco = WCF_INSTANCE"
proof -
  let ?n = "length (c_properties c)"
  let ?w = "WbemClassObject WCF_INSTANCE None None None None (Some c) None
    (Some (WbemInstance 0 (c_CLASS c) (replicate ?n 1) (replicate ?n (CV_bits 0)) 4 1))"
  have "object_ok ?w" using assms(3) by (simp add: object_ok_def instance_ok_def list_all2_conv_all_nth)
  then show ?thesis
    using that [of "\<lparr>obj_signature = 0x574f454d, obj_flags = OBJREF_CUSTOM, obj_iid = iid_IWbemClassObject,
          custom_clsid = clsid_WbemClassObject, object_data = Some ?w\<rparr>" ?w] assms
    by (simp add: IWbemClassObject_SpawnInstance_def WbemClassObject_CreateInstance_def deref_def Let_def)
qed

text \<open>A sequence of calls of \<open>IWbemClassObject_Put\<close> with their results.\<close>

fun put_all :: "nat \<Rightarrow> IWbemClassObject \<Rightarrow> (bytes \<times> CIMVAR \<times> u32) list \<Rightarrow> (u32 list \<times> IWbemClassObject) res" where
  "put_all psz d [] = Inr ([], d)"
| "put_all psz d ((name, v, cimtype) # puts) =
     chk (IWbemClassObject_Put psz d name v cimtype) (\<lambda>(r, d).
     chk (put_all psz d puts) (\<lambda>(rs, d). Inr (r # rs, d)))"

definition fits_class :: "nat \<Rightarrow> wbem_class \<Rightarrow> bytes \<times> CIMVAR \<times> u32 \<Rightarrow> bool" where
  "fits_class psz c = (\<lambda>(name, v, _).
     case map_of (zip (prop_names c) (prop_types c)) name of None \<Rightarrow> True | Some t \<Rightarrow> copyable psz (t AND CIM_TYPEMASK) v)"

lemma put_typed:
  assumes "object_ok wco" "object_data d = Some wco" "obj_class wco = Some c" "fits_class psz c (name, v, cimtype)"
  obtains r d' wco' where "IWbemClassObject_Put psz d name v cimtype = Inr (r, d')" "object_data d' = Some wco'"
    "object_ok wco'" "obj_class wco' = Some c"
proof (cases "prop_view wco name")
  case None
  then show ?thesis using that Put_missing(1) [OF assms(1,2)] assms(1-3) by blast
next
  case (Some tv)
  then obtain t old where tv: "prop_view wco name = Some (t, old)" by (cases tv) simp
  have "map_of (zip (prop_names c) (prop_types c)) name = Some t"
    using view_type [OF assms(1,3), of name] tv by simp
  then have copy: "copyable psz (t AND CIM_TYPEMASK) v" using assms(4) by (simp add: fits_class_def)
  show ?thesis
  proof (cases "cimtype = 0 \<or> cimtype = t")
    case True
    show ?thesis
      by (rule Put_found [OF assms(1,2) tv True duplicate_copyable [OF copy]])
        (use that copyable_ok [OF copy] assms(3) in auto)
  next
    case False
    then show ?thesis using that Put_missing(2) [OF assms(1,2) tv] assms(1-3) by blast
  qed
qed

lemma put_all_typed:
  assumes "object_ok wco" "object_data d = Some wco" "obj_class wco = Some c" "list_all (fits_class psz c) puts"
  shows "\<exists>rs d' wco'. put_all psz d puts = Inr (rs, d') \<and> object_data d' = Some wco' \<and> object_ok wco' \<and> obj_class wco' = Some c"
  using assms
proof (induction puts arbitrary: d wco)
  case Nil
  then show ?case by simp
next
  case (Cons p puts)
  obtain name v ct where p: "p = (name, v, ct)" by (cases p)
  from Cons.prems p have f: "fits_class psz c (name, v, ct)" and l: "list_all (fits_class psz c) puts" by simp_all
  show ?case
    by (rule put_typed [OF Cons.prems(1-3) f]) (use Cons.IH [OF _ _ _ l] p in fastforce)
qed

definition sample_class :: wbem_class where
  "sample_class = WbemClass 0 (Some (ascii_str ''__PARAMETERS'')) 0 [] []
     [WbemProperty (Some (ascii_str ''hDefKey'')) (Some (WbemPropertyDesc CIM_UINT32 0 0 0 [])),
      WbemProperty (Some (ascii_str ''sSubKeyName'')) (Some (WbemPropertyDesc CIM_STRING 1 4 0 []))] [] []"

definition sample_object :: WbemClassObject where
  "sample_object = WbemClassObject WCF_INSTANCE None None None None (Some sample_class) None
     (Some (WbemInstance 0 (c_CLASS sample_class) [1, 1] [CV_bits 0, CV_bits 0] 4 1))"

definition sample_interface :: IWbemClassObject where
  "sample_interface = \<lparr>obj_signature = 0x574f454d, obj_flags = OBJREF_CUSTOM, obj_iid = GUID_zero, custom_clsid = GUID_zero,
     object_data = Some sample_object\<rparr>"





section \<open>Where copying goes wrong\<close>

text \<open>A class that has two qualifiers or two superclasses is not copied: the second element leaves the array of one.\<close>

lemma duplicate_class_faults:
  "2 \<le> length (c_qualifiers c) \<or> 2 \<le> length (c_DERIVATION c) \<Longrightarrow> duplicate_WbemClass psz c = Inl Fault"
proof -
  assume a: "2 \<le> length (c_qualifiers c) \<or> 2 \<le> length (c_DERIVATION c)"
  obtain u cls sz der quals props flags vals where c: "c = WbemClass u cls sz der quals props flags vals" by (cases c)
  have der: "duplicate_CIMSTRINGS der = (if 2 \<le> length der then Inl Fault else Inr der)"
    by (cases der; cases "tl der") (auto simp: duplicate_CIMSTRINGS_def)
  have "duplicate_WbemQualifiers psz quals = Inl Fault" if "2 \<le> length quals"
    using that by (cases quals; cases "tl quals") auto
  then show ?thesis using a c by (auto simp: der)
qed

text \<open>A class that is copied loses the size of its instances and its qualifier.\<close>

lemma duplicate_class_loses:
  "duplicate_WbemClass psz c = Inr c' \<Longrightarrow> c_data_size c' = 0 \<and> list_all (\<lambda>q. q = None) (c_qualifiers c')"
proof -
  assume a: "duplicate_WbemClass psz c = Inr c'"
  obtain u cls sz der quals props flags vals where c: "c = WbemClass u cls sz der quals props flags vals" by (cases c)
  have "duplicate_WbemQualifiers psz qs = Inr qs' \<Longrightarrow> list_all (\<lambda>q. q = None) qs'" for qs qs'
    by (cases qs; cases "tl qs") (auto simp: chk_eq_Inr)
  then show ?thesis using a c by (auto simp: chk_eq_Inr)
qed

text \<open>With pointers of eight bytes an array of strings is written behind its copy.\<close>

lemma string_array_faults:
  assumes "object_ok wco" "prop_view wco name = Some (t, CV_arr_string xs)" "xs \<noteq> []"
  shows "WbemClassObject_Get 8 wco name w = Inl Fault"
proof -
  obtain c i where ci: "obj_class wco = Some c" "inst wco = Some i" using assms(1) by (rule object_okE)
  have "var_ok (t AND CIM_TYPEMASK) (CV_arr_string xs)"
    by (rule find_in_object [OF assms(1) ci, of name]) (use assms(2) in auto)
  then show ?thesis using assms by (simp add: Get_view dup_defs)
qed

end
