(* ===== verification/Wmi_Reg.thy ===== *)
theory Wmi_Reg
  imports Wbem
begin

text \<open>
  \<open>src/wmi/wmireg.c\<close>: reading and writing the registry of a Windows host through the WMI class
  \<open>StdRegProv\<close>. The server is a parameter: two functions on its state for the calls
  \<open>IWbemServices_GetObject\<close> and \<open>IWbemServices_ExecMethod\<close>, whose proxies are generated. A handle is given by
  whether its context is open. A function returns its result, what it leaves in \<open>*res\<close> and the state of the server.
  The calls that every function begins with are in \<open>reg_call\<close>.
\<close>

section \<open>Text\<close>

text \<open>\<open>%s\<close> of the C library for a pointer that may be NULL.\<close>

definition percent_s :: "bytes option \<Rightarrow> bytes" where
  "percent_s s = (case s of None \<Rightarrow> ascii_str ''(null)'' | Some s \<Rightarrow> s)"

text \<open>\<open>talloc_asprintf_append\<close>, which takes NULL for the empty string.\<close>

definition append_text :: "bytes option \<Rightarrow> bytes \<Rightarrow> bytes option" where
  "append_text res t = Some ((case res of None \<Rightarrow> [] | Some s \<Rightarrow> s) @ t)"

text \<open>\<open>%x\<close> and \<open>%X\<close> without a width.\<close>

fun print_x :: "nat \<Rightarrow> bytes" where
  "print_x n = (if n < 16 then [hex_char n] else print_x (n div 16) @ [hex_char (n mod 16)])"

declare print_x.simps [simp del]

definition toupper :: "u8 \<Rightarrow> u8" where
  "toupper c = (if 0x61 \<le> c \<and> c \<le> 0x7A then c - 0x20 else c)"

definition print_X :: "nat \<Rightarrow> bytes" where
  "print_X n = map toupper (print_x n)"

text \<open>The loop over the strings of an array.\<close>

fun append_items :: "bytes option \<Rightarrow> bool \<Rightarrow> bytes option list \<Rightarrow> bytes option" where
  "append_items res first [] = res"
| "append_items res first (x # xs) = append_items (append_text res ((if first then [] else [0x7C]) @ percent_s x)) False xs"

fun append_hex :: "bytes option \<Rightarrow> u8 list \<Rightarrow> bytes option" where
  "append_hex res [] = res"
| "append_hex res (x # xs) = append_hex (append_text res (print_X (unat x))) xs"

section \<open>Calls\<close>

record 's wmi_services =
  srv_GetObject :: "'s \<Rightarrow> bytes \<Rightarrow> (u32 \<times> IWbemClassObject option) \<times> 's"
  srv_ExecMethod :: "'s \<Rightarrow> bytes \<Rightarrow> bytes \<Rightarrow> IWbemClassObject \<Rightarrow> (u32 \<times> IWbemClassObject option) \<times> 's"

text \<open>Parameters are put one after the other from the same variable \<open>v\<close>; a failed call ends the function.\<close>

type_synonym reg_param = "bytes \<times> (CIMVAR \<Rightarrow> CIMVAR)"

fun reg_puts :: "nat \<Rightarrow> IWbemClassObject \<Rightarrow> CIMVAR \<Rightarrow> reg_param list \<Rightarrow> (IWbemClassObject \<times> CIMVAR) option res" where
  "reg_puts psz inp v [] = Inr (Some (inp, v))"
| "reg_puts psz inp v ((name, assign) # ps) =
     chk (IWbemClassObject_Put psz inp name (assign v) 0) (\<lambda>(result, inp).
       if result \<noteq> WERR_OK then Inr None else reg_puts psz inp (assign v) ps)"

definition call_method ::
  "nat \<Rightarrow> 's wmi_services \<Rightarrow> 's \<Rightarrow> bytes \<Rightarrow> bytes \<Rightarrow> reg_param list \<Rightarrow> ((CIMVAR \<times> IWbemClassObject option) option \<times> 's) res" where
  "call_method psz srv st cls method ps =
     (case srv_GetObject srv st cls of ((result, wco), st) \<Rightarrow>
        if result \<noteq> WERR_OK then Inr (None, st)
        else
          chk (deref wco) (\<lambda>wco.
          chk (IWbemClassObject_GetMethod wco method) (\<lambda>(result, m).
            if result \<noteq> WERR_OK then Inr (None, st)
            else
              chk (deref m) (\<lambda>(inc, outc).
              chk (IWbemClassObject_SpawnInstance inc) (\<lambda>(result, inp).
                if result \<noteq> WERR_OK then Inr (None, st)
                else
                  chk (reg_puts psz inp CV_undef ps) (\<lambda>r. case r of
                      None \<Rightarrow> Inr (None, st)
                    | Some (inp, v) \<Rightarrow>
                        (case srv_ExecMethod srv st cls method inp of ((result, out), st) \<Rightarrow>
                           if result \<noteq> WERR_OK then Inr (None, st) else Inr (Some (v, out), st))))))))"

definition reg_call where
  "reg_call psz srv st method ps = call_method psz srv st (ascii_str ''StdRegProv'') (ascii_str method) ps"

text \<open>The property of the answer; whether it was found is not looked at.\<close>

definition out_value :: "nat \<Rightarrow> IWbemClassObject option \<Rightarrow> string \<Rightarrow> CIMVAR \<Rightarrow> CIMVAR res" where
  "out_value psz out name v =
     chk (deref out) (\<lambda>out.
     chk (deref (object_data out)) (\<lambda>ob.
     chk (WbemClassObject_Get psz ob (ascii_str name) v) (\<lambda>(_, v, _). Inr v)))"

definition HKEY_LOCAL_MACHINE :: u32 where "HKEY_LOCAL_MACHINE = 0x80000002"

definition put_hive :: "u32 \<Rightarrow> reg_param" where
  "put_hive hive = (ascii_str ''hDefKey'', \<lambda>v. set_v_uint32 v (if hive \<noteq> 0 then hive else HKEY_LOCAL_MACHINE))"

definition put_string :: "string \<Rightarrow> bytes option \<Rightarrow> reg_param" where
  "put_string name s = (ascii_str name, \<lambda>_. string_var s)"

section \<open>Reading\<close>

type_synonym 's reg_out = "((int \<times> bytes option) \<times> 's) res"

definition wmi_reg_get_sz ::
  "nat \<Rightarrow> bool \<Rightarrow> 's wmi_services \<Rightarrow> 's \<Rightarrow> u32 \<Rightarrow> bytes option \<Rightarrow> bytes option \<Rightarrow> bytes option \<Rightarrow> 's reg_out" where
  "wmi_reg_get_sz psz opened srv st hive key key_name res =
     (if \<not> opened then Inr ((-1, res), st)
      else
        chk (reg_call psz srv st ''GetStringValue''
               [put_hive hive, put_string ''sSubKeyName'' key, put_string ''sValueName'' key_name]) (\<lambda>(r, st). case r of
            None \<Rightarrow> Inr ((-1, res), st)
          | Some (v, out) \<Rightarrow>
              chk (out_value psz out ''sValue'' v) (\<lambda>v.
              chk (v_string v) (\<lambda>s. Inr ((0, case s of None \<Rightarrow> res | Some s \<Rightarrow> Some s), st)))))"

definition wmi_reg_enum_key ::
  "nat \<Rightarrow> bool \<Rightarrow> 's wmi_services \<Rightarrow> 's \<Rightarrow> u32 \<Rightarrow> bytes option \<Rightarrow> bytes option \<Rightarrow> 's reg_out" where
  "wmi_reg_enum_key psz opened srv st hive key res =
     (if \<not> opened then Inr ((-1, res), st)
      else
        chk (reg_call psz srv st ''EnumKey'' [put_hive hive, put_string ''sSubKeyName'' key]) (\<lambda>(r, st). case r of
            None \<Rightarrow> Inr ((-1, res), st)
          | Some (_, out) \<Rightarrow>
              chk (out_value psz out ''sNames'' (CV_bits 0)) (\<lambda>v.
              chk (a_string v) (\<lambda>a. Inr ((0, case a of None \<Rightarrow> res | Some xs \<Rightarrow> append_items res True xs), st)))))"

definition wmi_reg_enum_value ::
  "nat \<Rightarrow> bool \<Rightarrow> 's wmi_services \<Rightarrow> 's \<Rightarrow> u32 \<Rightarrow> bytes option \<Rightarrow> bytes option \<Rightarrow> 's reg_out" where
  "wmi_reg_enum_value psz opened srv st hive key res =
     (if \<not> opened then Inr ((-1, res), st)
      else
        chk (reg_call psz srv st ''EnumValues'' [put_hive hive, put_string ''sSubKeyName'' key]) (\<lambda>(r, st). case r of
            None \<Rightarrow> Inr ((-1, res), st)
          | Some (_, out) \<Rightarrow>
              chk (out_value psz out ''sNames'' (CV_bits 0)) (\<lambda>v.
              chk (a_string v) (\<lambda>a. Inr ((0, case a of None \<Rightarrow> res | Some xs \<Rightarrow> append_items res True xs), st)))))"

text \<open>This one returns 1 when a call fails.\<close>

definition wmi_reg_get_bin_val ::
  "nat \<Rightarrow> bool \<Rightarrow> 's wmi_services \<Rightarrow> 's \<Rightarrow> u32 \<Rightarrow> bytes option \<Rightarrow> bytes option \<Rightarrow> bytes option \<Rightarrow> 's reg_out" where
  "wmi_reg_get_bin_val psz opened srv st hive key val_name res =
     (if \<not> opened then Inr ((-1, res), st)
      else
        chk (reg_call psz srv st ''GetBinaryValue''
               [put_hive hive, put_string ''sSubKeyName'' key, put_string ''sValueName'' val_name]) (\<lambda>(r, st). case r of
            None \<Rightarrow> Inr ((1, res), st)
          | Some (_, out) \<Rightarrow>
              chk (out_value psz out ''uValue'' (CV_bits 0)) (\<lambda>v.
              chk (a_uint8 v) (\<lambda>a. Inr ((0, case a of None \<Rightarrow> res | Some xs \<Rightarrow> append_hex res xs), st)))))"

definition wmi_reg_get_dword_val ::
  "nat \<Rightarrow> bool \<Rightarrow> 's wmi_services \<Rightarrow> 's \<Rightarrow> u32 \<Rightarrow> bytes option \<Rightarrow> bytes option \<Rightarrow> bytes option \<Rightarrow> 's reg_out" where
  "wmi_reg_get_dword_val psz opened srv st hive key val_name res =
     (if \<not> opened then Inr ((-1, res), st)
      else
        chk (reg_call psz srv st ''GetDWORDValue''
               [put_hive hive, put_string ''sSubKeyName'' key, put_string ''sValueName'' val_name]) (\<lambda>(r, st). case r of
            None \<Rightarrow> Inr ((-1, res), st)
          | Some (_, out) \<Rightarrow>
              chk (out_value psz out ''uValue'' (CV_bits 0)) (\<lambda>v.
              chk (v_uint32 v) (\<lambda>x. Inr ((0, if x \<noteq> 0 then Some (print_X (unat x)) else res), st)))))"

definition wmi_reg_get_ex_string_val ::
  "nat \<Rightarrow> bool \<Rightarrow> 's wmi_services \<Rightarrow> 's \<Rightarrow> u32 \<Rightarrow> bytes option \<Rightarrow> bytes option \<Rightarrow> bytes option \<Rightarrow> 's reg_out" where
  "wmi_reg_get_ex_string_val psz opened srv st hive key val_name res =
     (if \<not> opened then Inr ((-1, res), st)
      else
        chk (reg_call psz srv st ''GetExpandedStringValue''
               [put_hive hive, put_string ''sSubKeyName'' key, put_string ''sValueName'' val_name]) (\<lambda>(r, st). case r of
            None \<Rightarrow> Inr ((-1, res), st)
          | Some (_, out) \<Rightarrow>
              chk (out_value psz out ''sValue'' (CV_bits 0)) (\<lambda>v.
              chk (v_string v) (\<lambda>s. Inr ((0, case s of None \<Rightarrow> res | Some s \<Rightarrow> Some s), st)))))"

definition wmi_reg_get_mul_string_val ::
  "nat \<Rightarrow> bool \<Rightarrow> 's wmi_services \<Rightarrow> 's \<Rightarrow> u32 \<Rightarrow> bytes option \<Rightarrow> bytes option \<Rightarrow> bytes option \<Rightarrow> 's reg_out" where
  "wmi_reg_get_mul_string_val psz opened srv st hive key val_name res =
     (if \<not> opened then Inr ((-1, res), st)
      else
        chk (reg_call psz srv st ''GetMultiStringValue''
               [put_hive hive, put_string ''sSubKeyName'' key, put_string ''sValueName'' val_name]) (\<lambda>(r, st). case r of
            None \<Rightarrow> Inr ((-1, res), st)
          | Some (_, out) \<Rightarrow>
              chk (out_value psz out ''sValue'' (CV_bits 0)) (\<lambda>v.
              chk (a_string v) (\<lambda>a. Inr ((0, case a of None \<Rightarrow> res | Some xs \<Rightarrow> append_items res True xs), st)))))"

definition wmi_reg_get_qword_val ::
  "nat \<Rightarrow> bool \<Rightarrow> 's wmi_services \<Rightarrow> 's \<Rightarrow> u32 \<Rightarrow> bytes option \<Rightarrow> bytes option \<Rightarrow> bytes option \<Rightarrow> 's reg_out" where
  "wmi_reg_get_qword_val psz opened srv st hive key val_name res =
     (if \<not> opened then Inr ((-1, res), st)
      else
        chk (reg_call psz srv st ''GetQWORDValue''
               [put_hive hive, put_string ''sSubKeyName'' key, put_string ''sValueName'' val_name]) (\<lambda>(r, st). case r of
            None \<Rightarrow> Inr ((-1, res), st)
          | Some (_, out) \<Rightarrow>
              chk (out_value psz out ''uValue'' (CV_bits 0)) (\<lambda>v.
              chk (v_uint64 v) (\<lambda>x. Inr ((0, if x \<noteq> 0 then Some (print_x (unat x)) else res), st)))))"

section \<open>Writing\<close>

text \<open>The answer of the server is not looked at. The hive is always the local machine's.\<close>

definition reg_set :: "nat \<Rightarrow> bool \<Rightarrow> 's wmi_services \<Rightarrow> 's \<Rightarrow> string \<Rightarrow> reg_param list \<Rightarrow> (int \<times> 's) res" where
  "reg_set psz opened srv st method ps =
     (if \<not> opened then Inr (-1, st)
      else chk (reg_call psz srv st method (put_hive HKEY_LOCAL_MACHINE # ps)) (\<lambda>(r, st). Inr (if r = None then -1 else 0, st)))"

definition wmi_reg_set_dword_val ::
  "nat \<Rightarrow> bool \<Rightarrow> 's wmi_services \<Rightarrow> 's \<Rightarrow> bytes option \<Rightarrow> bytes option \<Rightarrow> u32 \<Rightarrow> (int \<times> 's) res" where
  "wmi_reg_set_dword_val psz opened srv st key val_name val =
     reg_set psz opened srv st ''SetDWORDValue''
       [put_string ''sSubKeyName'' key, put_string ''sValueName'' val_name, (ascii_str ''uValue'', \<lambda>_. set_v_uint32 (CV_bits 0) val)]"

definition wmi_reg_set_qword_val ::
  "nat \<Rightarrow> bool \<Rightarrow> 's wmi_services \<Rightarrow> 's \<Rightarrow> bytes option \<Rightarrow> bytes option \<Rightarrow> u64 \<Rightarrow> (int \<times> 's) res" where
  "wmi_reg_set_qword_val psz opened srv st key val_name val =
     reg_set psz opened srv st ''SetQWORDValue''
       [put_string ''sSubKeyName'' key, put_string ''sValueName'' val_name, (ascii_str ''uValue'', \<lambda>_. CV_bits val)]"

definition wmi_reg_set_ex_string_val ::
  "nat \<Rightarrow> bool \<Rightarrow> 's wmi_services \<Rightarrow> 's \<Rightarrow> bytes option \<Rightarrow> bytes option \<Rightarrow> bytes option \<Rightarrow> (int \<times> 's) res" where
  "wmi_reg_set_ex_string_val psz opened srv st key val_name val =
     reg_set psz opened srv st ''SetExpandedStringValue''
       [put_string ''sSubKeyName'' key, put_string ''sValueName'' val_name, put_string ''sValue'' val]"

definition wmi_reg_set_string_val ::
  "nat \<Rightarrow> bool \<Rightarrow> 's wmi_services \<Rightarrow> 's \<Rightarrow> bytes option \<Rightarrow> bytes option \<Rightarrow> bytes option \<Rightarrow> (int \<times> 's) res" where
  "wmi_reg_set_string_val psz opened srv st key val_name val =
     reg_set psz opened srv st ''SetStringValue''
       [put_string ''sSubKeyName'' key, put_string ''sValueName'' val_name, put_string ''sValue'' val]"

definition wmi_reg_create_key :: "nat \<Rightarrow> bool \<Rightarrow> 's wmi_services \<Rightarrow> 's \<Rightarrow> bytes option \<Rightarrow> (int \<times> 's) res" where
  "wmi_reg_create_key psz opened srv st key = reg_set psz opened srv st ''CreateKey'' [put_string ''sSubKeyName'' key]"

definition wmi_reg_delete_key :: "nat \<Rightarrow> bool \<Rightarrow> 's wmi_services \<Rightarrow> 's \<Rightarrow> bytes option \<Rightarrow> (int \<times> 's) res" where
  "wmi_reg_delete_key psz opened srv st key = reg_set psz opened srv st ''DeleteKey'' [put_string ''sSubKeyName'' key]"

end
