(* ===== verification/Wmi_Reg_Props.thy ===== *)
theory Wmi_Reg_Props
  imports Wmi_Reg Wbem_Props
begin

text \<open>
  The registry functions against a server that keeps a registry: what was set is what is read. The
  behaviour of the server is the documented one of \<open>StdRegProv\<close>, as the predicate \<open>std_reg_prov\<close> over an abstract
  registry. The functions ignore part of the answer, and the lemmas at the end show with which effect.
\<close>

section \<open>Calls with parameters\<close>

definition prop_type :: "wbem_class \<Rightarrow> bytes \<rightharpoonup> u32" where
  "prop_type c = map_of (zip (prop_names c) (prop_types c))"

fun puts_fit :: "nat \<Rightarrow> wbem_class \<Rightarrow> CIMVAR \<Rightarrow> reg_param list \<Rightarrow> bool" where
  "puts_fit psz c v [] = True"
| "puts_fit psz c v ((name, assign) # ps) =
     ((case prop_type c name of None \<Rightarrow> False | Some t \<Rightarrow> copyable psz (t AND CIM_TYPEMASK) (assign v)) \<and> puts_fit psz c (assign v) ps)"

fun put_view :: "wbem_class \<Rightarrow> CIMVAR \<Rightarrow> reg_param list \<Rightarrow> (bytes \<rightharpoonup> u32 \<times> CIMVAR) \<Rightarrow> (bytes \<rightharpoonup> u32 \<times> CIMVAR)" where
  "put_view c v [] m = m"
| "put_view c v ((name, assign) # ps) m = put_view c (assign v) ps (m(name \<mapsto> (the (prop_type c name), assign v)))"

fun last_v :: "CIMVAR \<Rightarrow> reg_param list \<Rightarrow> CIMVAR" where
  "last_v v [] = v"
| "last_v v ((name, assign) # ps) = last_v (assign v) ps"

lemma reg_puts_view:
  assumes "object_ok wco" "object_data inp = Some wco" "obj_class wco = Some c" "puts_fit psz c v ps"
  shows "\<exists>inp' wco'. reg_puts psz inp v ps = Inr (Some (inp', last_v v ps)) \<and> object_data inp' = Some wco' \<and>
    object_ok wco' \<and> prop_view wco' = put_view c v ps (prop_view wco)"
  using assms
proof (induction ps arbitrary: inp wco v)
  case Nil
  then show ?case by simp
next
  case (Cons p ps)
  obtain name assign where p: "p = (name, assign)" by (cases p)
  from Cons.prems(4) p obtain t where t: "prop_type c name = Some t" and
    copy: "copyable psz (t AND CIM_TYPEMASK) (assign v)" and fit: "puts_fit psz c (assign v) ps"
    by (auto split: option.splits)
  from t view_type [OF Cons.prems(1,3), of name] obtain old where old: "prop_view wco name = Some (t, old)"
    by (auto simp: prop_type_def)
  show ?case
  proof (rule Put_found [OF Cons.prems(1,2) old, of 0, OF _ duplicate_copyable [OF copy]])
    fix wco'
    assume w: "IWbemClassObject_Put psz inp name (assign v) 0 = Inr (WERR_OK, inp\<lparr>object_data := Some wco'\<rparr>)"
      "obj_class wco' = obj_class wco" "prop_view wco' = (prop_view wco)(name \<mapsto> (t, assign v))"
      "var_ok (t AND CIM_TYPEMASK) (assign v) \<Longrightarrow> object_ok wco'"
    have "\<exists>inp' w'. reg_puts psz (inp\<lparr>object_data := Some wco'\<rparr>) (assign v) ps = Inr (Some (inp', last_v (assign v) ps)) \<and>
        object_data inp' = Some w' \<and> object_ok w' \<and> prop_view w' = put_view c (assign v) ps (prop_view wco')"
      by (rule Cons.IH) (use w fit Cons.prems(3) copyable_ok [OF copy] in simp_all)
    then show ?thesis using p t by (simp add: w(1) w(3) [symmetric])
  qed simp
qed

text \<open>A class of the server with a method that takes the parameters.\<close>

definition has_method :: "WbemClassObject \<Rightarrow> bytes \<Rightarrow> (bytes \<rightharpoonup> u32) \<Rightarrow> bool" where
  "has_method wco method params =
     (\<exists>ms m wi c. obj_methods wco = Some ms \<and> find_method method (ms_method ms) = Inr (Some m) \<and>
        m_in m = Some wi \<and> obj_class wi = Some c \<and> class_ok c \<and> prop_type c = params)"

lemma call_method_runs:
  assumes get: "srv_GetObject srv st cls = ((WERR_OK, Some w), st)" "object_data w = Some wco"
    and meth: "has_method wco method params"
    and fit: "\<And>c. prop_type c = params \<Longrightarrow> puts_fit psz c CV_undef ps"
  obtains inp wi where "object_data inp = Some wi" "object_ok wi"
    "\<And>c. prop_type c = params \<Longrightarrow> \<exists>m. prop_view wi = put_view c CV_undef ps m"
    "call_method psz srv st cls method ps =
       (case srv_ExecMethod srv st cls method inp of ((result, out), st) \<Rightarrow>
          if result \<noteq> WERR_OK then Inr (None, st) else Inr (Some (last_v CV_undef ps, out), st))"
proof -
  from meth obtain ms m wi c where m: "obj_methods wco = Some ms" "find_method method (ms_method ms) = Inr (Some m)"
    "m_in m = Some wi" "obj_class wi = Some c" "class_ok c" "prop_type c = params"
    by (auto simp: has_method_def)
  let ?inc = "\<lparr>obj_signature = 0x574f454d, obj_flags = OBJREF_CUSTOM, obj_iid = iid_IWbemClassObject,
          custom_clsid = clsid_WbemClassObject, object_data = Some wi\<rparr>"
  have gm: "IWbemClassObject_GetMethod w method =
      Inr (WERR_OK, Some (?inc, \<lparr>obj_signature = 0x574f454d, obj_flags = OBJREF_CUSTOM, obj_iid = iid_IWbemClassObject,
          custom_clsid = clsid_WbemClassObject, object_data = m_out m\<rparr>))"
    using get(2) m by (simp add: IWbemClassObject_GetMethod_def deref_def)
  obtain d0 n where d0: "IWbemClassObject_SpawnInstance ?inc = Inr (WERR_OK, d0)" "object_data d0 = Some n"
    "object_ok n" "obj_class n = Some c"
    by (rule spawn_ok [of ?inc wi c]) (use m in auto)
  from reg_puts_view [OF d0(3,2,4) fit [OF m(6)]] obtain inp' n' where
    r: "reg_puts psz d0 CV_undef ps = Inr (Some (inp', last_v CV_undef ps))" "object_data inp' = Some n'" "object_ok n'"
      "prop_view n' = put_view c CV_undef ps (prop_view n)" by blast
  have same: "put_view c' v ps m = put_view c v ps m" if "prop_type c' = params" for c' v m
    using that m(6) by (induction ps arbitrary: v m) auto
  show ?thesis
  proof (rule that [OF r(2,3)])
    show "\<exists>m. prop_view n' = put_view c' CV_undef ps m" if "prop_type c' = params" for c'
      using r(4) same [OF that] by metis
    show "call_method psz srv st cls method ps =
       (case srv_ExecMethod srv st cls method inp' of ((result, out), st) \<Rightarrow>
          if result \<noteq> WERR_OK then Inr (None, st) else Inr (Some (last_v CV_undef ps, out), st))"
      by (simp add: call_method_def get gm d0(1) r(1) deref_def WERR_OK_def split: prod.splits)
  qed
qed

section \<open>A server with a registry\<close>

datatype reg_value = Reg_sz bytes | Reg_dword u32 | Reg_qword u64

type_synonym registry = "u32 \<times> bytes \<times> bytes \<rightharpoonup> reg_value"

fun set_method :: "reg_value \<Rightarrow> string" where
  "set_method (Reg_sz s) = ''SetStringValue''"
| "set_method (Reg_dword x) = ''SetDWORDValue''"
| "set_method (Reg_qword x) = ''SetQWORDValue''"

fun get_method :: "reg_value \<Rightarrow> string" where
  "get_method (Reg_sz s) = ''GetStringValue''"
| "get_method (Reg_dword x) = ''GetDWORDValue''"
| "get_method (Reg_qword x) = ''GetQWORDValue''"

fun value_name :: "reg_value \<Rightarrow> string" where
  "value_name (Reg_sz s) = ''sValue''"
| "value_name _ = ''uValue''"

fun value_type :: "reg_value \<Rightarrow> u32" where
  "value_type (Reg_sz s) = CIM_STRING"
| "value_type (Reg_dword x) = CIM_UINT32"
| "value_type (Reg_qword x) = CIM_UINT64"

fun value_is :: "reg_value \<Rightarrow> CIMVAR \<Rightarrow> bool" where
  "value_is (Reg_sz s) v = (v_string v = Inr (Some s))"
| "value_is (Reg_dword x) v = (v_uint32 v = Inr x)"
| "value_is (Reg_qword x) v = (v_uint64 v = Inr x)"

definition key_params :: "bytes \<rightharpoonup> u32" where
  "key_params = [ascii_str ''hDefKey'' \<mapsto> CIM_UINT32, ascii_str ''sSubKeyName'' \<mapsto> CIM_STRING, ascii_str ''sValueName'' \<mapsto> CIM_STRING]"

text \<open>The value of a parameter the server gets.\<close>

definition arg :: "WbemClassObject \<Rightarrow> string \<Rightarrow> CIMVAR" where
  "arg wi name = (case prop_view wi (ascii_str name) of None \<Rightarrow> CV_undef | Some (t, v) \<Rightarrow> v)"

definition names_value :: "WbemClassObject \<Rightarrow> u32 \<times> bytes \<times> bytes \<Rightarrow> bool" where
  "names_value wi = (\<lambda>(h, k, n). v_uint32 (arg wi ''hDefKey'') = Inr h \<and> v_string (arg wi ''sSubKeyName'') = Inr (Some k) \<and>
     v_string (arg wi ''sValueName'') = Inr (Some n))"

text \<open>
  The documented behaviour of \<open>StdRegProv\<close>: the class has the methods with their parameters, the methods
  that set store the value under hive, key and name, and those that get return a stored value of their kind.
\<close>

definition std_reg_prov :: "'s wmi_services \<Rightarrow> ('s \<Rightarrow> registry) \<Rightarrow> bool" where
  "std_reg_prov srv regs \<longleftrightarrow>
     (\<forall>st. \<exists>w wco. srv_GetObject srv st (ascii_str ''StdRegProv'') = ((WERR_OK, Some w), st) \<and> object_data w = Some wco \<and>
        (\<forall>x. has_method wco (ascii_str (set_method x)) (key_params(ascii_str (value_name x) \<mapsto> value_type x)) \<and>
             has_method wco (ascii_str (get_method x)) key_params)) \<and>
     (\<forall>st inp wi key x. object_data inp = Some wi \<longrightarrow> names_value wi key \<longrightarrow> value_is x (arg wi (value_name x)) \<longrightarrow>
        (\<exists>out st'. srv_ExecMethod srv st (ascii_str ''StdRegProv'') (ascii_str (set_method x)) inp = ((WERR_OK, out), st') \<and>
           regs st' = (regs st)(key \<mapsto> x))) \<and>
     (\<forall>st inp wi key x. object_data inp = Some wi \<longrightarrow> names_value wi key \<longrightarrow> regs st key = Some x \<longrightarrow>
        (\<exists>out wo v st'. srv_ExecMethod srv st (ascii_str ''StdRegProv'') (ascii_str (get_method x)) inp = ((WERR_OK, Some out), st') \<and>
           object_data out = Some wo \<and> object_ok wo \<and> prop_view wo (ascii_str (value_name x)) = Some (value_type x, v) \<and>
           value_is x v \<and> regs st' = regs st))"

section \<open>Setting and getting\<close>

fun wmi_reg_set :: "nat \<Rightarrow> 's wmi_services \<Rightarrow> 's \<Rightarrow> bytes \<Rightarrow> bytes \<Rightarrow> reg_value \<Rightarrow> (int \<times> 's) res" where
  "wmi_reg_set psz srv st key name (Reg_sz s) = wmi_reg_set_string_val psz True srv st (Some key) (Some name) (Some s)"
| "wmi_reg_set psz srv st key name (Reg_dword x) = wmi_reg_set_dword_val psz True srv st (Some key) (Some name) x"
| "wmi_reg_set psz srv st key name (Reg_qword x) = wmi_reg_set_qword_val psz True srv st (Some key) (Some name) x"

fun wmi_reg_get :: "nat \<Rightarrow> 's wmi_services \<Rightarrow> 's \<Rightarrow> u32 \<Rightarrow> bytes \<Rightarrow> bytes \<Rightarrow> bytes option \<Rightarrow> reg_value \<Rightarrow> 's reg_out" where
  "wmi_reg_get psz srv st hive key name res (Reg_sz _) = wmi_reg_get_sz psz True srv st hive (Some key) (Some name) res"
| "wmi_reg_get psz srv st hive key name res (Reg_dword _) = wmi_reg_get_dword_val psz True srv st hive (Some key) (Some name) res"
| "wmi_reg_get psz srv st hive key name res (Reg_qword _) = wmi_reg_get_qword_val psz True srv st hive (Some key) (Some name) res"

fun reg_text :: "reg_value \<Rightarrow> bytes option \<Rightarrow> bytes option" where
  "reg_text (Reg_sz s) res = Some s"
| "reg_text (Reg_dword x) res = (if x = 0 then res else Some (print_X (unat x)))"
| "reg_text (Reg_qword x) res = (if x = 0 then res else Some (print_x (unat x)))"

lemma ascii_char_inj: "inj (\<lambda>c. word_of_nat (of_char c) :: u8)"
proof (rule injI)
  fix a b :: char
  have unat_char: "unat (word_of_nat (of_char c) :: u8) = of_char c" for c :: char
    using nat_of_char_less_256 [of c] by (simp add: unsigned_of_nat take_bit_nat_eq_self)
  assume "(word_of_nat (of_char a) :: u8) = word_of_nat (of_char b)"
  then have "(of_char a :: nat) = of_char b" using unat_char by metis
  then show "a = b" by simp
qed

lemma ascii_str_eq [simp]: "ascii_str a = ascii_str b \<longleftrightarrow> a = b"
  unfolding ascii_str_def using ascii_char_inj by (simp add: inj_map_eq_map)

lemma type_kinds:
  "cim_short (CIM_UINT32 AND CIM_TYPEMASK)" "cim_kind_of (CIM_STRING AND CIM_TYPEMASK) = K_text"
  "cim_kind_of (CIM_UINT32 AND CIM_TYPEMASK) = K_scalar" "cim_kind_of (CIM_UINT64 AND CIM_TYPEMASK) = K_scalar"
  by code_simp+

lemmas hive_defs = put_hive_def put_string_def string_var_def key_params_def

lemma puts_fit_get: "prop_type c = key_params \<Longrightarrow>
  puts_fit psz c CV_undef [put_hive hive, put_string ''sSubKeyName'' (Some k), put_string ''sValueName'' (Some n)]"
  by (simp add: hive_defs type_kinds)

lemma puts_fit_set:
  assumes "prop_type c = key_params(ascii_str (value_name x) \<mapsto> value_type x)" "copyable psz (value_type x AND CIM_TYPEMASK) v"
  shows "puts_fit psz c CV_undef [put_hive hive, put_string ''sSubKeyName'' (Some k), put_string ''sValueName'' (Some n),
    (ascii_str (value_name x), \<lambda>_. v)]"
  using assms by (cases x) (simp_all add: hive_defs type_kinds)

lemma value_copyable: "value_is x v \<Longrightarrow> copyable psz (value_type x AND CIM_TYPEMASK) v"
  by (cases x; cases v) (auto simp: type_kinds split: if_split_asm)

lemma hive_choice: "hive \<in> {0, HKEY_LOCAL_MACHINE} \<Longrightarrow> (if hive \<noteq> 0 then hive else HKEY_LOCAL_MACHINE) = HKEY_LOCAL_MACHINE"
  by auto

lemma reg_set_stores:
  assumes srv: "std_reg_prov srv regs" and v: "value_is x v"
  shows "\<exists>st'. reg_set psz True srv st (set_method x)
      [put_string ''sSubKeyName'' (Some k), put_string ''sValueName'' (Some n), (ascii_str (value_name x), \<lambda>_. v)] = Inr (0, st') \<and>
    regs st' = (regs st)((HKEY_LOCAL_MACHINE, k, n) \<mapsto> x)"
proof -
  let ?ps = "[put_hive HKEY_LOCAL_MACHINE, put_string ''sSubKeyName'' (Some k), put_string ''sValueName'' (Some n), (ascii_str (value_name x), \<lambda>_. v)]"
  let ?params = "key_params(ascii_str (value_name x) \<mapsto> value_type x)"
  obtain w wco where w: "srv_GetObject srv st (ascii_str ''StdRegProv'') = ((WERR_OK, Some w), st)" "object_data w = Some wco"
    "has_method wco (ascii_str (set_method x)) ?params"
    using srv unfolding std_reg_prov_def by metis
  show ?thesis
  proof (rule call_method_runs [OF w, of psz ?ps])
    show "puts_fit psz c CV_undef ?ps" if "prop_type c = ?params" for c
      using puts_fit_set [OF that value_copyable [OF v]] .
    fix inp wi
    assume i: "object_data inp = Some wi" "object_ok wi"
      and view: "\<And>c. prop_type c = ?params \<Longrightarrow> \<exists>m. prop_view wi = put_view c CV_undef ?ps m"
      and call: "call_method psz srv st (ascii_str ''StdRegProv'') (ascii_str (set_method x)) ?ps =
        (case srv_ExecMethod srv st (ascii_str ''StdRegProv'') (ascii_str (set_method x)) inp of ((result, out), st) \<Rightarrow>
          if result \<noteq> WERR_OK then Inr (None, st) else Inr (Some (last_v CV_undef ?ps, out), st))"
    obtain c where c: "prop_type c = ?params" using w(3) by (auto simp: has_method_def)
    then obtain m where m: "prop_view wi = put_view c CV_undef ?ps m" using view by blast
    have args: "names_value wi (HKEY_LOCAL_MACHINE, k, n)" "value_is x (arg wi (value_name x))"
      using m v by (cases x; simp add: names_value_def arg_def hive_defs HKEY_LOCAL_MACHINE_def)+
    then obtain out st' where e: "srv_ExecMethod srv st (ascii_str ''StdRegProv'') (ascii_str (set_method x)) inp = ((WERR_OK, out), st')"
      "regs st' = (regs st)((HKEY_LOCAL_MACHINE, k, n) \<mapsto> x)"
      using srv i(1) unfolding std_reg_prov_def by blast
    then show ?thesis by (simp add: reg_set_def reg_call_def call)
  qed
qed

lemma reg_get_finds:
  assumes srv: "std_reg_prov srv regs" and x: "regs st (HKEY_LOCAL_MACHINE, k, n) = Some x" and hive: "hive \<in> {0, HKEY_LOCAL_MACHINE}"
  obtains v out st' where "reg_call psz srv st (get_method x)
      [put_hive hive, put_string ''sSubKeyName'' (Some k), put_string ''sValueName'' (Some n)] = Inr (Some (CV_string n, out), st')"
    "value_is x v" "regs st' = regs st" "\<And>w. out_value psz out (value_name x) w = Inr v"
proof -
  let ?ps = "[put_hive hive, put_string ''sSubKeyName'' (Some k), put_string ''sValueName'' (Some n)]"
  obtain w wco where w: "srv_GetObject srv st (ascii_str ''StdRegProv'') = ((WERR_OK, Some w), st)" "object_data w = Some wco"
    "has_method wco (ascii_str (get_method x)) key_params"
    using srv unfolding std_reg_prov_def by metis
  show ?thesis
  proof (rule call_method_runs [OF w, of psz ?ps])
    show "puts_fit psz c CV_undef ?ps" if "prop_type c = key_params" for c
      using puts_fit_get [OF that] .
    fix inp wi
    assume i: "object_data inp = Some wi" "object_ok wi"
      and view: "\<And>c. prop_type c = key_params \<Longrightarrow> \<exists>m. prop_view wi = put_view c CV_undef ?ps m"
      and call: "call_method psz srv st (ascii_str ''StdRegProv'') (ascii_str (get_method x)) ?ps =
        (case srv_ExecMethod srv st (ascii_str ''StdRegProv'') (ascii_str (get_method x)) inp of ((result, out), st) \<Rightarrow>
          if result \<noteq> WERR_OK then Inr (None, st) else Inr (Some (last_v CV_undef ?ps, out), st))"
    obtain c where c: "prop_type c = key_params" using w(3) by (auto simp: has_method_def)
    then obtain m where m: "prop_view wi = put_view c CV_undef ?ps m" using view by blast
    have "names_value wi (HKEY_LOCAL_MACHINE, k, n)"
      using m hive_choice [OF hive] by (simp add: names_value_def arg_def hive_defs)
    then obtain out wo v st' where e: "srv_ExecMethod srv st (ascii_str ''StdRegProv'') (ascii_str (get_method x)) inp = ((WERR_OK, Some out), st')"
      "object_data out = Some wo" "object_ok wo" "prop_view wo (ascii_str (value_name x)) = Some (value_type x, v)" "value_is x v"
      "regs st' = regs st"
      using srv i(1) x unfolding std_reg_prov_def by blast
    have "out_value psz (Some out) (value_name x) w' = Inr v" for w'
      using e(2-5) duplicate_copyable [OF value_copyable [OF e(5)]] by (simp add: out_value_def deref_def Get_view)
    moreover have "last_v CV_undef ?ps = CV_string n" by (simp add: hive_defs)
    ultimately show ?thesis
      using that [of "Some out" st' v] e(1,5,6) by (simp add: reg_call_def call)
  qed
qed

lemma ucast_up_down [simp]: "ucast (ucast (x :: u32) :: u64) = x"
  by (rule bit_word_eqI) (simp add: bit_simps)


text \<open>A server that has the behaviour: its state is the registry.\<close>

definition demo_class :: "(string \<times> u32) list \<Rightarrow> wbem_class" where
  "demo_class ps = WbemClass 0 None 0 [] []
     (map (\<lambda>(n, t). WbemProperty (Some (ascii_str n)) (Some (WbemPropertyDesc t 0 0 0 []))) ps) [] []"

definition demo_params :: "(string \<times> u32) list" where
  "demo_params = [(''hDefKey'', CIM_UINT32), (''sSubKeyName'', CIM_STRING), (''sValueName'', CIM_STRING)]"

definition demo_method :: "string \<Rightarrow> (string \<times> u32) list \<Rightarrow> (CIMVAR, WbemClassObject) WbemMethod" where
  "demo_method name ps = WbemMethod (Some (ascii_str name)) 0 0 None
     (Some (WbemClassObject 0 None None None None (Some (demo_class ps)) None None)) None"

definition demo_interface :: "WbemClassObject \<Rightarrow> IWbemClassObject" where
  "demo_interface wco = \<lparr>obj_signature = 0x574f454d, obj_flags = OBJREF_CUSTOM, obj_iid = GUID_zero, custom_clsid = GUID_zero, object_data = Some wco\<rparr>"

definition demo_StdRegProv :: WbemClassObject where
  "demo_StdRegProv = WbemClassObject 0 None None None None None (Some (WbemMethods 0
     [demo_method ''SetStringValue'' (demo_params @ [(''sValue'', CIM_STRING)]),
      demo_method ''SetDWORDValue'' (demo_params @ [(''uValue'', CIM_UINT32)]),
      demo_method ''SetQWORDValue'' (demo_params @ [(''uValue'', CIM_UINT64)]),
      demo_method ''GetStringValue'' demo_params, demo_method ''GetDWORDValue'' demo_params, demo_method ''GetQWORDValue'' demo_params])) None"

fun demo_var :: "reg_value \<Rightarrow> CIMVAR" where
  "demo_var (Reg_sz s) = CV_string s"
| "demo_var (Reg_dword x) = CV_bits (ucast x)"
| "demo_var (Reg_qword x) = CV_bits x"

definition demo_answer :: "reg_value \<Rightarrow> WbemClassObject" where
  "demo_answer x = WbemClassObject WCF_INSTANCE None None None None (Some (demo_class [(value_name x, value_type x)])) None
     (Some (WbemInstance 0 None [0] [demo_var x] 4 1))"

definition demo_exec :: "registry \<Rightarrow> bytes \<Rightarrow> bytes \<Rightarrow> IWbemClassObject \<Rightarrow> (u32 \<times> IWbemClassObject option) \<times> registry" where
  "demo_exec regs cls method inp =
     (let wi = the (object_data inp); h = v_uint32 (arg wi ''hDefKey''); k = v_string (arg wi ''sSubKeyName'');
          n = v_string (arg wi ''sValueName'');
          key = (projr h, the (projr k), the (projr n));
          s = v_string (arg wi ''sValue''); u = v_uint32 (arg wi ''uValue''); q = v_uint64 (arg wi ''uValue'')
      in if method = ascii_str ''SetStringValue'' then ((WERR_OK, None), regs(key \<mapsto> Reg_sz (the (projr s))))
         else if method = ascii_str ''SetDWORDValue'' then ((WERR_OK, None), regs(key \<mapsto> Reg_dword (projr u)))
         else if method = ascii_str ''SetQWORDValue'' then ((WERR_OK, None), regs(key \<mapsto> Reg_qword (projr q)))
         else case regs key of
           None \<Rightarrow> ((WERR_NOT_FOUND, None), regs)
         | Some x \<Rightarrow> ((WERR_OK, Some (demo_interface (demo_answer x))), regs))"

definition demo_server :: "registry wmi_services" where
  "demo_server = \<lparr>srv_GetObject = (\<lambda>st cls. ((WERR_OK, Some (demo_interface demo_StdRegProv)), st)), srv_ExecMethod = demo_exec\<rparr>"

lemma demo_prop_type: "prop_type (demo_class ps) = map_of (map (\<lambda>(n, t). (ascii_str n, t)) ps)"
  unfolding prop_type_def by (induction ps) (auto simp: prop_names_def prop_types_def demo_class_def)

lemma demo_class_ok: "class_ok (demo_class ps)"
  by (auto simp: class_ok_def demo_class_def list_all_iff)

lemma demo_std: "std_reg_prov demo_server id"
  unfolding std_reg_prov_def
proof (intro conjI allI impI)
  fix st :: registry
  have "has_method demo_StdRegProv (ascii_str (set_method x)) (key_params(ascii_str (value_name x) \<mapsto> value_type x)) \<and>
        has_method demo_StdRegProv (ascii_str (get_method x)) key_params" for x
    by (cases x) (auto simp: has_method_def demo_StdRegProv_def demo_method_def deref_def demo_prop_type demo_class_ok
        demo_params_def key_params_def intro!: ext)
  then show "\<exists>w wco. srv_GetObject demo_server st (ascii_str ''StdRegProv'') = ((WERR_OK, Some w), st) \<and> object_data w = Some wco \<and>
        (\<forall>x. has_method wco (ascii_str (set_method x)) (key_params(ascii_str (value_name x) \<mapsto> value_type x)) \<and>
             has_method wco (ascii_str (get_method x)) key_params)"
    by (simp add: demo_server_def demo_interface_def)
next
  fix st :: registry and inp :: IWbemClassObject and wi key x
  assume "object_data inp = Some wi" "names_value wi key" "value_is x (arg wi (value_name x))"
  then show "\<exists>out st'. srv_ExecMethod demo_server st (ascii_str ''StdRegProv'') (ascii_str (set_method x)) inp = ((WERR_OK, out), st') \<and>
           id st' = (id st)(key \<mapsto> x)"
    by (cases key; cases x) (simp_all add: demo_server_def demo_exec_def Let_def names_value_def)
next
  fix st :: registry and inp :: IWbemClassObject and wi key x
  assume a: "object_data inp = Some wi" "names_value wi key" "id st key = Some x"
  have "object_ok (demo_answer x)"
    by (cases x) (simp_all add: demo_answer_def object_ok_def instance_ok_def demo_class_ok,
      simp_all add: demo_class_def prop_types_def type_kinds)
  moreover have "prop_view (demo_answer x) (ascii_str (value_name x)) = Some (value_type x, demo_var x)"
    by (simp add: prop_view_def demo_answer_def demo_class_def prop_names_def prop_types_def)
  moreover have "value_is x (demo_var x)" by (cases x) simp_all
  ultimately show "\<exists>out wo v st'. srv_ExecMethod demo_server st (ascii_str ''StdRegProv'') (ascii_str (get_method x)) inp = ((WERR_OK, Some out), st') \<and>
           object_data out = Some wo \<and> object_ok wo \<and> prop_view wo (ascii_str (value_name x)) = Some (value_type x, v) \<and>
           value_is x v \<and> id st' = id st"
    using a by (cases key; cases x) (simp_all add: demo_server_def demo_exec_def Let_def names_value_def demo_interface_def)
qed


section \<open>What the functions do not look at\<close>

text \<open>Where the answer has no value, \<open>wmi_reg_get_sz\<close> returns the name of the value it was asked for.\<close>

lemma get_sz_returns_name:
  assumes "reg_call psz srv st ''GetStringValue'' [put_hive hive, put_string ''sSubKeyName'' key, put_string ''sValueName'' (Some n)] =
      Inr (Some (CV_string n, Some out), st')"
    and "object_data out = Some wo" "object_ok wo" "prop_view wo (ascii_str ''sValue'') = None"
  shows "wmi_reg_get_sz psz True srv st hive key (Some n) res = Inr ((0, Some n), st')"
  using assms by (simp add: wmi_reg_get_sz_def out_value_def deref_def Get_view)

text \<open>Bytes are printed without leading zeros, so different binary values have the same text.\<close>

lemma binary_text_ambiguous: "append_hex None [0x01, 0x23] = append_hex None [0x12, 0x03]"
  by (simp add: append_text_def print_X_def print_x.simps)

end
