(* ===== verification/Wbem_Enum.thy ===== *)
theory Wbem_Enum
  imports Wbem Ndr_Safe Errormap
begin

text \<open>
  The enumeration of the results of a query, the second half of \<open>src/wmi/wbemdata.c\<close>: the parser of the
  data a server sends for a batch of objects, the cache of classes, and the call
  \<open>IEnumWbemClassObject_SmartNext\<close> with its continuations.

  Parameters are the reader of a GUID, which \<open>pidl\<close> generates, and the readers of class objects, which
  rest on generated functions; further the server, as functions on its state. The host is little endian.
  The asynchronous calls are modelled as they are used, waiting for the answer; that the event loop
  itself fails is left out.
\<close>

section \<open>The data of a batch\<close>

definition DATATYPE_CLASSOBJECT :: u8 where "DATATYPE_CLASSOBJECT = 2"
definition DATATYPE_OBJECT :: u8 where "DATATYPE_OBJECT = 3"

definition NT_STATUS_NOT_SUPPORTED :: u32 where "NT_STATUS_NOT_SUPPORTED = 0xC00000BB"

record wbem_pullers =
  pull_GUID :: "ndr_pull \<Rightarrow> u32 \<Rightarrow> (GUID \<times> ndr_pull) res"
  pull_WbemClassObject :: "ndr_pull \<Rightarrow> u32 \<Rightarrow> (WbemClassObject \<times> ndr_pull) res"
  pull_WbemClassObject_Object :: "wbem_class option \<Rightarrow> ndr_pull \<Rightarrow> u32 \<Rightarrow> (WbemClassObject \<times> ndr_pull) res"

type_synonym class_cache = "(GUID \<times> wbem_class option) list"

fun get_ptr_by_guid :: "class_cache \<Rightarrow> GUID \<Rightarrow> wbem_class option" where
  "get_ptr_by_guid [] g = None"
| "get_ptr_by_guid ((guid, p) # list) g = (if GUID_equal guid g then p else get_ptr_by_guid list g)"

definition add_pair_guid_ptr :: "class_cache \<Rightarrow> GUID \<Rightarrow> wbem_class option \<Rightarrow> class_cache" where
  "add_pair_guid_ptr list g p = (g, p) # list"

text \<open>A constant of 32 bits, a length that must fit into the data with some more bytes.\<close>

definition NDR_CHECK_CONST :: "ndr_pull \<Rightarrow> u32 \<Rightarrow> (u32 \<times> ndr_pull) res" where
  "NDR_CHECK_CONST ndr c =
     chk (ndr_pull_uint32 ndr NDR_SCALARS) (\<lambda>(u, ndr). if u = c then Inr (u, ndr) else Inl (Status NT_STATUS_UNSUCCESSFUL))"

definition check_length :: "ndr_pull \<Rightarrow> u32 \<Rightarrow> (u32 \<times> ndr_pull) res" where
  "check_length ndr extra =
     chk (ndr_pull_uint32 ndr NDR_SCALARS) (\<lambda>(u, ndr).
     chk (NDR_PULL_NEED_BYTES ndr (u + extra)) (\<lambda>_. Inr (u, ndr)))"

definition check_uint8 :: "ndr_pull \<Rightarrow> (u8 \<Rightarrow> bool) \<Rightarrow> (u8 \<times> ndr_pull) res" where
  "check_uint8 ndr ok =
     chk (ndr_pull_uint8 ndr NDR_SCALARS) (\<lambda>(u, ndr). if ok u then Inr (u, ndr) else Inl (Status NT_STATUS_UNSUCCESSFUL))"

definition wbemdata_header :: "ndr_pull \<Rightarrow> u32 \<Rightarrow> (u32 \<times> ndr_pull) res" where
  "wbemdata_header ndr uCount =
     chk (NDR_CHECK_CONST ndr 0) (\<lambda>(_, ndr).
     chk (NDR_CHECK_CONST ndr 0x4D454257) (\<lambda>(_, ndr).
     chk (NDR_CHECK_CONST ndr 0x41544144) (\<lambda>(_, ndr).
     chk (NDR_CHECK_CONST ndr 0x1A) (\<lambda>(_, ndr).
     chk (check_length ndr 6) (\<lambda>(_, ndr).
     chk (NDR_CHECK_CONST ndr 0) (\<lambda>(_, ndr).
     chk (check_uint8 ndr (\<lambda>u. u = 1)) (\<lambda>(_, ndr).
     chk (check_uint8 ndr (\<lambda>u. u \<le> 1)) (\<lambda>(_, ndr).
     chk (NDR_CHECK_CONST ndr 8) (\<lambda>(_, ndr).
     chk (check_length ndr 0) (\<lambda>(_, ndr).
     chk (NDR_CHECK_CONST ndr 0xC) (\<lambda>(_, ndr).
     chk (check_length ndr 4) (\<lambda>(_, ndr).
     NDR_CHECK_CONST ndr uCount))))))))))))"

definition item_header :: "wbem_pullers \<Rightarrow> ndr_pull \<Rightarrow> ((u8 \<times> u32 \<times> GUID) \<times> ndr_pull) res" where
  "item_header pl ndr =
     chk (NDR_CHECK_CONST ndr 9) (\<lambda>(_, ndr).
     chk (check_length ndr 1) (\<lambda>(u, ndr).
     chk (ndr_pull_uint8 ndr NDR_SCALARS) (\<lambda>(datatype, ndr).
     let ofs_next = pull_offset ndr + u in
     chk (NDR_CHECK_CONST ndr 0x18) (\<lambda>(_, ndr).
     chk (check_length ndr 16) (\<lambda>(_, ndr).
     chk (pull_GUID pl ndr NDR_SCALARS) (\<lambda>(guid, ndr). Inr ((datatype, ofs_next, guid), ndr)))))))"

text \<open>
  A status ends the parser, and what it stored before stays: \<open>on_status\<close>. The result has the status, None for
  \<open>NT_STATUS_OK\<close>, the objects and the cache. The objects are those of the
  finished iterations; the array of the caller has \<open>cap\<close> elements.
\<close>

definition on_status :: "'a res \<Rightarrow> (u32 \<Rightarrow> 'b) \<Rightarrow> ('a \<Rightarrow> 'b res) \<Rightarrow> 'b res" where
  "on_status m h f = (case m of Inl Fault \<Rightarrow> Inl Fault | Inl (Status s) \<Rightarrow> Inr (h s) | Inr a \<Rightarrow> f a)"

fun wbemdata_items ::
  "wbem_pullers \<Rightarrow> nat \<Rightarrow> nat \<Rightarrow> ndr_pull \<Rightarrow> WbemClassObject list \<Rightarrow> class_cache \<Rightarrow> (u32 option \<times> WbemClassObject list \<times> class_cache) res" where
  "wbemdata_items pl cap 0 ndr apObjects cache = Inr (None, apObjects, cache)"
| "wbemdata_items pl cap (Suc n) ndr apObjects cache =
     on_status (item_header pl ndr) (\<lambda>s. (Some s, apObjects, cache)) (\<lambda>((datatype, ofs_next, guid), ndr).
       if datatype = DATATYPE_CLASSOBJECT then
         if cap \<le> length apObjects then Inl Fault
         else on_status (pull_WbemClassObject pl ndr (NDR_SCALARS OR NDR_BUFFERS)) (\<lambda>s. (Some s, apObjects, cache)) (\<lambda>(wco, ndr).
           wbemdata_items pl cap n (ndr\<lparr>pull_offset := ofs_next\<rparr>) (apObjects @ [wco])
             (add_pair_guid_ptr cache guid (obj_class wco)))
       else if datatype = DATATYPE_OBJECT then
         if cap \<le> length apObjects then Inl Fault
         else on_status (pull_WbemClassObject_Object pl (get_ptr_by_guid cache guid) ndr (NDR_SCALARS OR NDR_BUFFERS))
                (\<lambda>s. (Some s, apObjects, cache)) (\<lambda>(wco, ndr).
           wbemdata_items pl cap n (ndr\<lparr>pull_offset := ofs_next\<rparr>) (apObjects @ [wco]) cache)
       else Inr (Some NT_STATUS_NOT_SUPPORTED, apObjects, cache))"

definition wbemdata_init :: "bytes \<Rightarrow> u32 \<Rightarrow> ndr_pull" where
  "wbemdata_init dat sz =
     (ndr_pull_init_blob [])\<lparr>pull_data := dat, pull_data_size := sz, pull_flags := ndr_set_flags 0 LIBNDR_FLAG_NOALIGN\<rparr>"

definition WBEMDATA_Parse ::
  "wbem_pullers \<Rightarrow> nat \<Rightarrow> bytes \<Rightarrow> u32 \<Rightarrow> class_cache \<Rightarrow> u32 \<Rightarrow> (u32 option \<times> WbemClassObject list \<times> class_cache) res" where
  "WBEMDATA_Parse pl cap dat sz cache uCount =
     (if uCount = 0 then Inr (Some NT_STATUS_NOT_IMPLEMENTED, [], cache)
      else on_status (wbemdata_header (wbemdata_init dat sz) uCount) (\<lambda>s. (Some s, [], cache)) (\<lambda>(_, ndr).
        wbemdata_items pl cap (unat uCount) ndr [] cache))"

section \<open>The next batch\<close>

definition WBEM_NO_ERROR :: u32 where "WBEM_NO_ERROR = 0"
definition WBEM_S_FALSE :: u32 where "WBEM_S_FALSE = 1"
definition WBEM_S_TIMEDOUT :: u32 where "WBEM_S_TIMEDOUT = 0x40004"

text \<open>The state of an enumeration: of the two interfaces only whether the second one was received.\<close>

record IEnumWbemClassObject_data =
  ecod_guid :: GUID
  has_pSE :: bool
  ecod_cache :: class_cache
  lTimeout :: u32
  uCount :: u32
  uReturned :: u32
  ecod_size :: u32
  pData :: "bytes option"

record 's enum_server =
  srv_ExecQuery :: "'s \<Rightarrow> bytes \<Rightarrow> u32 \<times> 's"
  srv_Reset :: "'s \<Rightarrow> 's"
  srv_QueryInterface :: "'s \<Rightarrow> u32 \<times> 's"
  srv_Fetch :: "'s \<Rightarrow> u32 \<times> 's"
  srv_Next :: "'s \<Rightarrow> GUID \<Rightarrow> u32 \<Rightarrow> u32 \<Rightarrow> (u32 \<times> u32 \<times> u32 \<times> bytes option) \<times> 's"

definition smart_next_enum_continue ::
  "IEnumWbemClassObject_data \<Rightarrow> u32 \<times> u32 \<times> u32 \<times> bytes option \<Rightarrow> (u32 \<times> IEnumWbemClassObject_data) res" where
  "smart_next_enum_continue s answer =
     (case answer of (result, returned, sz, dat) \<Rightarrow>
      if result = WBEM_NO_ERROR \<or> result = WBEM_S_FALSE \<or> result = WBEM_S_TIMEDOUT
      then Inr (NT_STATUS_OK, s\<lparr>uReturned := returned, ecod_size := sz, pData := dat\<rparr>)
      else chk (werror_to_ntstatus result) (\<lambda>status. Inr (status, s)))"

definition smart_next_request ::
  "'s enum_server \<Rightarrow> 's \<Rightarrow> IEnumWbemClassObject_data \<Rightarrow> ((u32 \<times> IEnumWbemClassObject_data) \<times> 's) res" where
  "smart_next_request srv st s =
     (if \<not> has_pSE s then Inl Fault
      else case srv_Next srv st (ecod_guid s) (lTimeout s) (uCount s) of (answer, st) \<Rightarrow>
        chk (smart_next_enum_continue s answer) (\<lambda>r. Inr (r, st)))"

definition smart_next_fetch_enum_continue ::
  "'s enum_server \<Rightarrow> GUID \<Rightarrow> 's \<Rightarrow> IEnumWbemClassObject_data \<Rightarrow> ((u32 \<times> IEnumWbemClassObject_data) \<times> 's) res" where
  "smart_next_fetch_enum_continue srv rnd st s =
     (case srv_Fetch srv st of (result, st) \<Rightarrow>
        if result \<noteq> WERR_OK then chk (werror_to_ntstatus result) (\<lambda>status. Inr ((status, s), st))
        else smart_next_request srv st (s\<lparr>has_pSE := True, ecod_guid := rnd\<rparr>))"

definition smart_next_query_interface_continue ::
  "'s enum_server \<Rightarrow> GUID \<Rightarrow> 's \<Rightarrow> IEnumWbemClassObject_data \<Rightarrow> ((u32 \<times> IEnumWbemClassObject_data) \<times> 's) res" where
  "smart_next_query_interface_continue srv rnd st s =
     (case srv_QueryInterface srv st of (status, st) \<Rightarrow>
        if \<not> NT_STATUS_IS_OK status then Inr ((status, s), st) else smart_next_fetch_enum_continue srv rnd st s)"

definition zero_guid :: GUID where
  "zero_guid = \<lparr>time_low = 0, time_mid = 0, time_hi_and_version = 0, clock_seq0 = 0, clock_seq1 = 0, node = replicate 6 0\<rparr>"

text \<open>The first call makes the state; the arguments of later calls are not looked at.\<close>

definition IEnumWbemClassObject_SmartNext_send ::
  "'s enum_server \<Rightarrow> GUID \<Rightarrow> 's \<Rightarrow> IEnumWbemClassObject_data option \<Rightarrow> u32 \<Rightarrow> u32 \<Rightarrow>
   ((u32 \<times> IEnumWbemClassObject_data) \<times> 's) res" where
  "IEnumWbemClassObject_SmartNext_send srv rnd st d timeout cnt =
     (case d of
        None \<Rightarrow> smart_next_query_interface_continue srv rnd st
          \<lparr>ecod_guid = zero_guid, has_pSE = False, ecod_cache = [], lTimeout = timeout, uCount = cnt, uReturned = 0, ecod_size = 0, pData = None\<rparr>
      | Some s \<Rightarrow> smart_next_request srv st s)"

text \<open>The objects that the caller may look at are the first \<open>puReturned\<close>.\<close>

definition IEnumWbemClassObject_SmartNext_recv ::
  "wbem_pullers \<Rightarrow> nat \<Rightarrow> u32 \<Rightarrow> IEnumWbemClassObject_data \<Rightarrow> (u32 \<times> WbemClassObject list \<times> u32 \<times> IEnumWbemClassObject_data) res" where
  "IEnumWbemClassObject_SmartNext_recv pl cap status s =
     (if \<not> NT_STATUS_IS_OK status then chk (ntstatus_to_werror status) (\<lambda>result. Inr (result, [], 0, s))
      else case pData s of
          None \<Rightarrow> Inr (WERR_OK, [], 0, s)
        | Some dat \<Rightarrow>
            chk (WBEMDATA_Parse pl cap dat (ecod_size s) (ecod_cache s) (uReturned s)) (\<lambda>(status, objs, cache).
            let s = s\<lparr>ecod_cache := cache\<rparr> in
            case status of
              None \<Rightarrow> chk (ntstatus_to_werror NT_STATUS_OK) (\<lambda>result. Inr (result, objs, uReturned s, s))
            | Some status \<Rightarrow> chk (ntstatus_to_werror status) (\<lambda>result. Inr (result, [], 0, s))))"

definition IEnumWbemClassObject_SmartNext ::
  "wbem_pullers \<Rightarrow> 's enum_server \<Rightarrow> GUID \<Rightarrow> nat \<Rightarrow> 's \<Rightarrow> IEnumWbemClassObject_data option \<Rightarrow> u32 \<Rightarrow> u32 \<Rightarrow>
   ((u32 \<times> WbemClassObject list \<times> u32 \<times> IEnumWbemClassObject_data) \<times> 's) res" where
  "IEnumWbemClassObject_SmartNext pl srv rnd cap st d timeout cnt =
     chk (IEnumWbemClassObject_SmartNext_send srv rnd st d timeout cnt) (\<lambda>((status, s), st).
     chk (IEnumWbemClassObject_SmartNext_recv pl cap status s) (\<lambda>r. Inr (r, st)))"

end
