(* ===== verification/Wbem_Enum_Props.thy ===== *)
theory Wbem_Enum_Props
  imports Wbem_Enum Ndr_Codec
begin

text \<open>
  The parser of a batch of objects. On any data it stays in the buffer, if the readers of the objects do,
  and the array of the caller is not smaller than the count of the server. A well-formed batch gives its
  objects, with the classes of earlier objects where only the instance was sent.
\<close>

section \<open>Hostile data\<close>

definition readers_within :: "wbem_pullers \<Rightarrow> bool" where
  "readers_within pl \<longleftrightarrow> (\<forall>q fl. wf_pull q \<longrightarrow> reads_within q (pull_GUID pl q fl) \<and>
     reads_within q (pull_WbemClassObject pl q fl) \<and> (\<forall>c. reads_within q (pull_WbemClassObject_Object pl c q fl)))"

lemma reads_within_if_status: "reads_within q (if b then Inr (v, q) else Inl (Status s)) \<longleftrightarrow> (b \<longrightarrow> wf_pull q)"
  by (simp add: pull_step_def)

lemma check_const_within: "wf_pull q \<Longrightarrow> reads_within q (NDR_CHECK_CONST q c)"
  unfolding NDR_CHECK_CONST_def
  by (rule reads_within_bind [OF rd_uint32.reader_safe]) (auto simp: reads_within_if_status pull_step_def)

lemma check_uint8_within: "wf_pull q \<Longrightarrow> reads_within q (check_uint8 q ok)"
  unfolding check_uint8_def
  by (rule reads_within_bind [OF rd_uint8.reader_safe]) (auto simp: reads_within_if_status pull_step_def)

lemma check_length_within: "wf_pull q \<Longrightarrow> reads_within q (check_length q n)"
  unfolding check_length_def
  by (rule reads_within_bind [OF rd_uint32.reader_safe])
    (auto intro!: reads_within_need simp: pull_step_refl pull_step_wf)

lemmas checks_within = check_const_within check_uint8_within check_length_within

lemma within_bind_snd:
  assumes "reads_within q m" and "\<And>v q'. wf_pull q' \<Longrightarrow> reads_within q' (f v q')"
  shows "reads_within q (chk m (\<lambda>(v, q). f v q))"
  using assms by (auto intro!: reads_within_bind simp: pull_step_wf)

lemma header_within: "wf_pull q \<Longrightarrow> reads_within q (wbemdata_header q n)"
  unfolding wbemdata_header_def by (intro within_bind_snd checks_within; assumption)

text \<open>The length of an item keeps the start of the next one in the buffer, even if the sum wraps.\<close>

lemma check_length_bound:
  assumes "wf_pull q" and "check_length q 1 = Inr (u, q1)" and "ndr_pull_uint8 q1 fl = Inr (dt, q2)"
  shows "pull_offset q2 + u \<le> pull_data_size q2"
proof -
  have q1: "wf_pull q1" using check_length_within [OF assms(1), of 1] assms(2) by (simp add: pull_step_def)
  have need: "NDR_PULL_NEED_BYTES q1 (u + 1) = Inr ()"
    using assms(2) by (auto simp: check_length_def chk_eq_Inr)
  then have le: "unat (pull_offset q1) + unat (u + 1) \<le> unat (pull_data_size q1)"
    using q1 by (auto simp: need_bytes_iff ndr_pull_error_def split: if_splits)
  have q2: "q2 = pull_skip q1 1" using assms(3) by (auto simp: ndr_pull_uint8_def chk_eq_Inr)
  have sum: "pull_offset q2 + u = pull_offset q1 + (u + 1)" by (simp add: q2 pull_skip_def algebra_simps)
  have "unat (pull_offset q1 + (u + 1)) = unat (pull_offset q1) + unat (u + 1)"
    using le unat_u32 [of "pull_data_size q1"] by (simp add: unat_add_small)
  then show ?thesis unfolding sum using le by (simp add: q2 pull_skip_def word_le_nat_alt)
qed

lemma item_header_within:
  assumes "readers_within pl" "wf_pull q"
  shows "reads_within q (item_header pl q)"
  using assms unfolding item_header_def Let_def readers_within_def
  by (intro within_bind_snd checks_within rd_uint8.reader_safe) (auto simp: pull_step_refl)

lemma item_header_next:
  assumes "readers_within pl" "wf_pull q" "item_header pl q = Inr ((dt, ofs, g), q')"
  shows "ofs \<le> pull_data_size q"
proof -
  from assms(3) obtain q1 u q2 q3 where s: "NDR_CHECK_CONST q 9 = Inr (9, q1)" "check_length q1 1 = Inr (u, q2)"
    "ndr_pull_uint8 q2 NDR_SCALARS = Inr (dt, q3)" "ofs = pull_offset q3 + u"
    unfolding item_header_def by (auto simp: chk_eq_Inr Let_def NDR_CHECK_CONST_def split: if_splits)
  have 1: "pull_step q q1" using check_const_within [OF assms(2), of 9] s(1) by simp
  have 2: "pull_step q1 q2" using check_length_within [OF pull_step_wf [OF 1], of 1] s(2) by simp
  have 3: "pull_step q2 q3" using rd_uint8.pull_forward [OF pull_step_wf [OF 2] s(3)] .
  have "pull_data_size q3 = pull_data_size q" using 1 2 3 by (simp add: pull_step_def)
  then show ?thesis using check_length_bound [OF pull_step_wf [OF 1] s(2,3)] s(4) by simp
qed

lemma wf_pull_move: "wf_pull q \<Longrightarrow> ofs \<le> pull_data_size q \<Longrightarrow> wf_pull (q\<lparr>pull_offset := ofs\<rparr>)"
  by (simp add: wf_pull_def)

lemma on_status_cases:
  assumes "m \<noteq> Inl Fault" and "\<And>s. m = Inl (Status s) \<Longrightarrow> P (Inr (h s))" and "\<And>a. m = Inr a \<Longrightarrow> P (f a)"
  shows "P (on_status m h f)"
  using assms by (auto simp: on_status_def split: sum.splits c_error.splits)

definition parsed :: "nat \<Rightarrow> (u32 option \<times> WbemClassObject list \<times> class_cache) res \<Rightarrow> bool" where
  "parsed n r \<longleftrightarrow> (\<exists>status objs cache. r = Inr (status, objs, cache) \<and>
     (status = None \<longrightarrow> length objs = n) \<and> length objs \<le> n)"

lemma items_parsed:
  assumes "readers_within pl" and "wf_pull q" and "length objs + n \<le> cap"
  shows "parsed (length objs + n) (wbemdata_items pl cap n q objs cache)"
  using assms(2,3)
proof (induction n arbitrary: q objs cache)
  case 0
  then show ?case by (simp add: parsed_def)
next
  case (Suc n)
  note safe = assms(1) [unfolded readers_within_def, rule_format]
  let ?P = "parsed (Suc (length objs + n))"
  have next_item: "?P (wbemdata_items pl cap n (q2\<lparr>pull_offset := ofs\<rparr>) (objs @ [wco]) cache')"
    if h: "item_header pl q = Inr ((dt, ofs, g), q1)" and s2: "pull_step q1 q2" for dt ofs g q1 q2 wco cache'
  proof -
    have s1: "pull_step q q1" using item_header_within [OF assms(1) Suc.prems(1)] h by simp
    have "ofs \<le> pull_data_size q2" using item_header_next [OF assms(1) Suc.prems(1) h] s1 s2 by (simp add: pull_step_def)
    then have "wf_pull (q2\<lparr>pull_offset := ofs\<rparr>)" using s2 by (intro wf_pull_move) (simp_all add: pull_step_def)
    from Suc.IH [OF this, of "objs @ [wco]"] show ?thesis using Suc.prems(2) by simp
  qed
  have status: "?P (Inr (Some s, objs, cache))" for s by (simp add: parsed_def)
  show ?case
    unfolding wbemdata_items.simps add_Suc_right
  proof (rule on_status_cases [where P = ?P], goal_cases)
    case 1
    show ?case using reads_within_not_Fault [OF item_header_within [OF assms(1) Suc.prems(1)]] .
  next
    case (3 a)
    obtain dt ofs g q1 where a: "a = ((dt, ofs, g), q1)" by (cases a) auto
    note h = 3 [unfolded a]
    have wf: "wf_pull q1" using item_header_within [OF assms(1) Suc.prems(1)] h by (simp add: pull_step_def)
    have room: "\<not> cap \<le> length objs" using Suc.prems(2) by simp
    have step: "?P (on_status m (\<lambda>s. (Some s, objs, cache)) (\<lambda>(wco, q2).
        wbemdata_items pl cap n (q2\<lparr>pull_offset := ofs\<rparr>) (objs @ [wco]) (k wco)))"
      if "reads_within q1 m" for m k
      using that reads_within_not_Fault [OF that]
      by (intro on_status_cases [where P = ?P]) (auto intro: status next_item [OF h])
    show ?case
      unfolding a prod.case using room safe [OF wf] by (auto intro!: step status)
  qed (rule status)
qed

lemma wbemdata_flags: "ndr_set_flags 0 LIBNDR_FLAG_NOALIGN = LIBNDR_FLAG_NOALIGN"
  by (simp add: ndr_set_flags_def has_flag_def LIBNDR_FLAG_NOALIGN_def LIBNDR_FLAG_LITTLE_ENDIAN_def
      LIBNDR_FLAG_BIGENDIAN_def LIBNDR_FLAG_REMAINING_def LIBNDR_ALIGN_FLAGS_def LIBNDR_FLAG_ALIGN2_def
      LIBNDR_FLAG_ALIGN4_def LIBNDR_FLAG_ALIGN8_def)

lemma wbemdata_init_wf: "unat sz \<le> length dat \<Longrightarrow> unat sz < 2 ^ 31 \<Longrightarrow> wf_pull (wbemdata_init dat sz)"
  unfolding wbemdata_init_def wbemdata_flags
  by (simp add: wf_pull_def has_flag_def LIBNDR_FLAG_NOALIGN_def LIBNDR_FLAG_PAD_CHECK_def)

lemma Parse_parsed:
  assumes "readers_within pl" "unat sz \<le> length dat" "unat sz < 2 ^ 31" "unat n \<le> cap"
  shows "parsed (unat n) (WBEMDATA_Parse pl cap dat sz cache n)"
proof (cases "n = 0")
  case True
  then show ?thesis by (simp add: WBEMDATA_Parse_def parsed_def)
next
  case False
  have wf: "wf_pull (wbemdata_init dat sz)" using assms(2,3) by (rule wbemdata_init_wf)
  have "parsed (unat n) (on_status (wbemdata_header (wbemdata_init dat sz) n) (\<lambda>s. (Some s, [], cache))
      (\<lambda>(_, ndr). wbemdata_items pl cap (unat n) ndr [] cache))"
  proof (rule on_status_cases, goal_cases)
    case (3 a)
    obtain u q where a: "a = (u, q)" by (cases a)
    then have "wf_pull q" using header_within [OF wf, of n] 3 by (simp add: pull_step_def)
    from items_parsed [OF assms(1) this, of "[]" "unat n" cap] show ?case using a assms(4) by simp
  qed (use reads_within_not_Fault [OF header_within [OF wf]] in \<open>auto simp: parsed_def\<close>)
  then show ?thesis using False by (simp add: WBEMDATA_Parse_def)
qed

section \<open>Well-formed batches\<close>

text \<open>The place in the data: a context without alignment and the bytes in front of it.\<close>

definition at :: "ndr_pull \<Rightarrow> bytes \<Rightarrow> bool" where
  "at q bs \<longleftrightarrow> wf_pull q \<and> pull_flags q = LIBNDR_FLAG_NOALIGN \<and> pull_rest q = bs"

definition same_data :: "ndr_pull \<Rightarrow> ndr_pull \<Rightarrow> bool" where
  "same_data q q' \<longleftrightarrow> pull_data q' = pull_data q \<and> pull_data_size q' = pull_data_size q \<and> pull_flags q' = pull_flags q"

definition reads_to :: "('a \<times> ndr_pull) res \<Rightarrow> ndr_pull \<Rightarrow> 'a \<Rightarrow> bytes \<Rightarrow> bool" where
  "reads_to r q v rest \<longleftrightarrow> (\<exists>q'. r = Inr (v, q') \<and> at q' rest \<and> same_data q q')"

lemma plain_flags [simp]: "\<not> NDR_BE LIBNDR_FLAG_NOALIGN" "has_flag LIBNDR_FLAG_NOALIGN LIBNDR_FLAG_NOALIGN"
  by (simp_all add: NDR_BE_def has_flag_def LIBNDR_FLAG_NOALIGN_def LIBNDR_FLAG_BIGENDIAN_def LIBNDR_FLAG_LITTLE_ENDIAN_def)

lemma consumes_reads_to:
  assumes "at q bs" "r = Inr (v, q')" "pull_consumes q cs q'" "pull_rest q' = rest"
  shows "reads_to r q v rest"
  using assms by (auto simp: reads_to_def at_def same_data_def pull_consumes_def pull_step_def)

lemma uint32_reads_to: "at q (le32 v @ rest) \<Longrightarrow> reads_to (ndr_pull_uint32 q fl) q v rest"
  using cd_uint32.pull_enc [of q v rest fl]
  by (auto simp: at_def enc_u32_def enc32_def pad_len_def intro!: consumes_reads_to)

lemma uint8_reads_to: "at q (v # rest) \<Longrightarrow> reads_to (ndr_pull_uint8 q fl) q v rest"
  using cd_uint8.pull_enc [of q v rest fl] by (auto simp: at_def enc_u8_def intro!: consumes_reads_to)

lemma reads_to_bind:
  assumes "reads_to m q v bs" and "\<And>q'. at q' bs \<Longrightarrow> same_data q q' \<Longrightarrow> reads_to (f v q') q' w cs"
  shows "reads_to (chk m (\<lambda>(v, q). f v q)) q w cs"
  using assms by (fastforce simp: reads_to_def same_data_def)

lemma need_at: "at q bs \<Longrightarrow> unat n \<le> length bs \<Longrightarrow> NDR_PULL_NEED_BYTES q n = Inr ()"
  using length_pull_rest [of q] by (auto simp: at_def need_bytes_iff wf_pull_def word_le_nat_alt)

lemma const_reads_to: "at q (le32 v @ rest) \<Longrightarrow> reads_to (NDR_CHECK_CONST q v) q v rest"
  unfolding NDR_CHECK_CONST_def by (rule reads_to_bind [OF uint32_reads_to]) (auto simp: reads_to_def same_data_def)

lemma byte_reads_to: "at q (v # rest) \<Longrightarrow> ok v \<Longrightarrow> reads_to (check_uint8 q ok) q v rest"
  unfolding check_uint8_def by (rule reads_to_bind [OF uint8_reads_to]) (auto simp: reads_to_def same_data_def)

lemma length_reads_to:
  "at q (le32 v @ rest) \<Longrightarrow> unat (v + n) \<le> length rest \<Longrightarrow> reads_to (check_length q n) q v rest"
  unfolding check_length_def
  by (rule reads_to_bind [OF uint32_reads_to]) (auto simp: reads_to_def same_data_def need_at)

definition header_bytes :: "u8 \<Rightarrow> nat \<Rightarrow> nat \<Rightarrow> bytes" where
  "header_bytes minor cnt len =
     le32 0 @ le32 0x4D454257 @ le32 0x41544144 @ le32 0x1A @ le32 (word_of_nat (len + 20)) @ le32 0 @ [1, minor] @
     le32 8 @ le32 (word_of_nat (len + 12)) @ le32 0xC @ le32 (word_of_nat len) @ le32 (word_of_nat cnt)"

lemma unat_len: "n < 2 ^ 32 \<Longrightarrow> unat (word_of_nat n :: u32) = n"
  by (simp add: unat_of_nat)

lemma unat_len_add: "n + unat k < 2 ^ 32 \<Longrightarrow> unat (word_of_nat n + k :: u32) = n + unat k"
  by (subst unat_add_small) (simp_all add: unat_of_nat)

lemma const_then:
  "at q (le32 v @ bs) \<Longrightarrow> (\<And>q'. at q' bs \<Longrightarrow> same_data q q' \<Longrightarrow> reads_to (f v q') q' w cs) \<Longrightarrow>
   reads_to (chk (NDR_CHECK_CONST q v) (\<lambda>(v, q). f v q)) q w cs"
  by (rule reads_to_bind [OF const_reads_to])

lemma byte_then:
  "at q (v # bs) \<Longrightarrow> ok v \<Longrightarrow> (\<And>q'. at q' bs \<Longrightarrow> same_data q q' \<Longrightarrow> reads_to (f v q') q' w cs) \<Longrightarrow>
   reads_to (chk (check_uint8 q ok) (\<lambda>(v, q). f v q)) q w cs"
  by (rule reads_to_bind [OF byte_reads_to])

lemma length_then:
  "at q (le32 v @ bs) \<Longrightarrow> unat (v + n) \<le> length bs \<Longrightarrow>
   (\<And>q'. at q' bs \<Longrightarrow> same_data q q' \<Longrightarrow> reads_to (f v q') q' w cs) \<Longrightarrow>
   reads_to (chk (check_length q n) (\<lambda>(v, q). f v q)) q w cs"
  by (rule reads_to_bind [OF length_reads_to])

lemma header_reads_to:
  assumes "at q (header_bytes minor cnt (length rest) @ rest)" and "minor \<le> 1" and "length rest < 2 ^ 31"
  shows "reads_to (wbemdata_header q (word_of_nat cnt)) q (word_of_nat cnt) rest"
proof -
  have l: "unat (word_of_nat (length rest + 20) + 6 :: u32) = length rest + 26"
    "unat (word_of_nat (length rest + 12) + 0 :: u32) = length rest + 12"
    "unat (word_of_nat (length rest) + 4 :: u32) = length rest + 4"
    using assms(3) by (subst unat_len_add; simp)+
  show ?thesis
    using assms(1) unfolding wbemdata_header_def header_bytes_def append_assoc append_Cons append_Nil
    apply (elim const_then length_then byte_then const_reads_to)
    using assms(2) l by simp_all
qed

text \<open>
  An item is a whole object with its class, or an instance only; then the object depends on the class
  that is found for its GUID.
\<close>

datatype wbem_item =
    Class_item (item_guid: GUID) (payload: bytes) WbemClassObject
  | Object_item (item_guid: GUID) (payload: bytes) "wbem_class option \<Rightarrow> WbemClassObject"

fun item_type :: "wbem_item \<Rightarrow> u8" where
  "item_type (Class_item g p wco) = DATATYPE_CLASSOBJECT"
| "item_type (Object_item g p wco) = DATATYPE_OBJECT"

definition guid_bytes :: "GUID \<Rightarrow> bytes" where
  "guid_bytes g = le32 (time_low g) @ le16 (time_mid g) @ le16 (time_hi_and_version g) @ [clock_seq0 g, clock_seq1 g] @ node g"

definition item_bytes :: "wbem_item \<Rightarrow> bytes" where
  "item_bytes it =
     le32 9 @ le32 (word_of_nat (24 + length (payload it))) @ item_type it # le32 0x18 @
     le32 (word_of_nat (length (payload it))) @ guid_bytes (item_guid it) @ payload it"

fun resolve :: "class_cache \<Rightarrow> wbem_item list \<Rightarrow> WbemClassObject list \<times> class_cache" where
  "resolve cache [] = ([], cache)"
| "resolve cache (Class_item g p wco # its) = (case resolve ((g, obj_class wco) # cache) its of (objs, c) \<Rightarrow> (wco # objs, c))"
| "resolve cache (Object_item g p mk # its) =
     (case resolve cache its of (objs, c) \<Rightarrow> (mk (get_ptr_by_guid cache g) # objs, c))"

definition reads_value :: "(ndr_pull \<Rightarrow> u32 \<Rightarrow> (WbemClassObject \<times> ndr_pull) res) \<Rightarrow> bytes \<Rightarrow> WbemClassObject \<Rightarrow> bool" where
  "reads_value rd bs v \<longleftrightarrow> (\<forall>q rest. at q (bs @ rest) \<longrightarrow> (\<exists>q'. rd q (NDR_SCALARS OR NDR_BUFFERS) = Inr (v, q') \<and> same_data q q'))"

definition guid_reader :: "(ndr_pull \<Rightarrow> u32 \<Rightarrow> (GUID \<times> ndr_pull) res) \<Rightarrow> bool" where
  "guid_reader rd \<longleftrightarrow> (\<forall>q g rest. length (node g) = 6 \<longrightarrow> at q (guid_bytes g @ rest) \<longrightarrow> reads_to (rd q NDR_SCALARS) q g rest)"

fun readable :: "wbem_pullers \<Rightarrow> wbem_item \<Rightarrow> bool" where
  "readable pl (Class_item g p wco) = (length (node g) = 6 \<and> reads_value (pull_WbemClassObject pl) p wco)"
| "readable pl (Object_item g p mk) = (length (node g) = 6 \<and> (\<forall>c. reads_value (pull_WbemClassObject_Object pl c) p (mk c)))"

lemma readable_node: "readable pl it \<Longrightarrow> length (node (item_guid it)) = 6"
  by (cases it) simp_all

lemma length_guid_bytes: "length (node g) = 6 \<Longrightarrow> length (guid_bytes g) = 16"
  by (simp add: guid_bytes_def)

lemma at_length: "at q bs \<Longrightarrow> length bs < 2 ^ 31"
  using length_pull_rest [of q] by (auto simp: at_def wf_pull_def)

lemma same_data_trans: "same_data q q' \<Longrightarrow> same_data q' q'' \<Longrightarrow> same_data q q''"
  by (simp add: same_data_def)

text \<open>Going on behind an item, whatever its reader did to the context.\<close>

lemma jump:
  assumes "at q (body @ rest)" "same_data q q'" "unat u = length body"
  shows "at (q'\<lparr>pull_offset := pull_offset q + u\<rparr>) rest"
proof -
  have q: "wf_pull q" "pull_rest q = body @ rest" using assms(1) by (simp_all add: at_def)
  have sum: "unat (pull_offset q + u) = unat (pull_offset q) + length body"
    using pull_rest_fits [OF q] assms(3) unat_u32 [of "pull_data_size q"] by (simp add: unat_add_small)
  from move_consumes [OF q sum] have m: "wf_pull (q\<lparr>pull_offset := pull_offset q + u\<rparr>)" "pull_rest (q\<lparr>pull_offset := pull_offset q + u\<rparr>) = rest"
    by (simp_all add: pull_consumes_def pull_step_def)
  then show ?thesis using assms(1,2) by (simp add: at_def same_data_def wf_pull_def pull_rest_def)
qed

lemma item_header_reads:
  assumes g: "guid_reader (pull_GUID pl)" and it: "readable pl it" and q: "at q (item_bytes it @ rest)"
  shows "\<exists>ofs q1. item_header pl q = Inr ((item_type it, ofs, item_guid it), q1) \<and> at q1 (payload it @ rest) \<and>
    (\<forall>q'. same_data q1 q' \<longrightarrow> at (q'\<lparr>pull_offset := ofs\<rparr>) rest)"
proof -
  let ?p = "payload it" and ?g = "item_guid it"
  let ?u = "word_of_nat (24 + length ?p) :: u32"
  let ?b3 = "le32 (word_of_nat (length ?p)) @ guid_bytes ?g @ ?p @ rest"
  let ?b2 = "le32 0x18 @ ?b3"
  note len = length_guid_bytes [OF readable_node [OF it]]
  have small: "length ?p + length rest + 24 < 2 ^ 31" using at_length [OF q] len by (simp add: item_bytes_def)
  have u: "unat ?u = 24 + length ?p" "unat (?u + 1) = 25 + length ?p" "unat (word_of_nat (length ?p) + 16 :: u32) = length ?p + 16"
    using small by (simp_all add: unat_of_nat unat_len_add del: of_nat_add)
  have q: "at q (le32 9 @ le32 ?u @ item_type it # ?b2)" using q by (simp add: item_bytes_def)
  obtain q1 where q1: "NDR_CHECK_CONST q 9 = Inr (9, q1)" "at q1 (le32 ?u @ item_type it # ?b2)" "same_data q q1"
    using const_reads_to [OF q] by (auto simp: reads_to_def)
  obtain q2 where q2: "check_length q1 1 = Inr (?u, q2)" "at q2 (item_type it # ?b2)" "same_data q1 q2"
    using length_reads_to [OF q1(2), of 1] u len by (auto simp: reads_to_def)
  obtain q3 where q3: "ndr_pull_uint8 q2 NDR_SCALARS = Inr (item_type it, q3)" "at q3 ?b2" "same_data q2 q3"
    using uint8_reads_to [OF q2(2), of NDR_SCALARS] by (auto simp: reads_to_def)
  let ?v = "(item_type it, pull_offset q3 + ?u, ?g)"
  have "reads_to (chk (NDR_CHECK_CONST q3 0x18) (\<lambda>(_, ndr). chk (check_length ndr 16) (\<lambda>(_, ndr).
      chk (pull_GUID pl ndr NDR_SCALARS) (\<lambda>(guid, ndr). Inr ((item_type it, pull_offset q3 + ?u, guid), ndr))))) q3 ?v (?p @ rest)"
    using q3(2)
  proof (elim const_then length_then, goal_cases)
    case (2 q4 q5)
    from g readable_node [OF it] 2 have "reads_to (pull_GUID pl q5 NDR_SCALARS) q5 ?g (?p @ rest)"
      by (auto simp: guid_reader_def)
    then show ?case by (rule reads_to_bind) (auto simp: reads_to_def same_data_def)
  qed (use u len in simp)
  then obtain q4 where q4: "item_header pl q = Inr (?v, q4)" "at q4 (?p @ rest)" "same_data q3 q4"
    using q1(1) q2(1) q3(1) by (auto simp: reads_to_def item_header_def Let_def)
  have b: "at q3 ((le32 0x18 @ le32 (word_of_nat (length ?p)) @ guid_bytes ?g @ ?p) @ rest)" using q3(2) by simp
  have "at (q'\<lparr>pull_offset := pull_offset q3 + ?u\<rparr>) rest" if "same_data q4 q'" for q'
    by (rule jump [OF b same_data_trans [OF q4(3) that]]) (use u(1) len in simp)
  then show ?thesis using q4 by blast
qed

lemma items_resolve:
  assumes "guid_reader (pull_GUID pl)"
  shows "list_all (readable pl) its \<Longrightarrow> at q (concat (map item_bytes its) @ rest) \<Longrightarrow> length objs \<le> cap \<Longrightarrow>
    wbemdata_items pl cap (length its) q objs cache =
      (if length objs + length its \<le> cap then Inr (None, objs @ fst (resolve cache its), snd (resolve cache its)) else Inl Fault)"
proof (induction its arbitrary: q objs cache)
  case Nil
  then show ?case by simp
next
  case (Cons it its)
  let ?rest = "concat (map item_bytes its) @ rest"
  have it: "readable pl it" "list_all (readable pl) its" using Cons.prems(1) by simp_all
  have "at q (item_bytes it @ ?rest)" using Cons.prems(2) by simp
  from item_header_reads [OF assms it(1) this] obtain ofs q1 where
    h: "item_header pl q = Inr ((item_type it, ofs, item_guid it), q1)" "at q1 (payload it @ ?rest)" and
    go: "same_data q1 q' \<Longrightarrow> at (q'\<lparr>pull_offset := ofs\<rparr>) ?rest" for q' by blast
  have ih: "wbemdata_items pl cap (length its) (q2\<lparr>pull_offset := ofs\<rparr>) (objs @ [wco]) c =
      (if length objs + length (it # its) \<le> cap then Inr (None, (objs @ [wco]) @ fst (resolve c its), snd (resolve c its)) else Inl Fault)"
    if "same_data q1 q2" "\<not> cap \<le> length objs" for q2 wco c
    using Cons.IH [OF it(2) go [OF that(1)], of "objs @ [wco]" c] that(2) by simp
  show ?case
  proof (cases it)
    case (Class_item g p wco)
    then obtain q2 where "pull_WbemClassObject pl q1 (NDR_SCALARS OR NDR_BUFFERS) = Inr (wco, q2)" "same_data q1 q2"
      using it(1) h(2) by (auto simp: reads_value_def)
    then show ?thesis
      using h(1) Class_item ih by (auto simp: on_status_def add_pair_guid_ptr_def split: prod.splits)
  next
    case (Object_item g p mk)
    let ?c = "get_ptr_by_guid cache g"
    obtain q2 where "pull_WbemClassObject_Object pl ?c q1 (NDR_SCALARS OR NDR_BUFFERS) = Inr (mk ?c, q2)" "same_data q1 q2"
      using it(1) h(2) Object_item by (auto simp: reads_value_def)
    then show ?thesis
      using h(1) Object_item ih
      by (auto simp: on_status_def DATATYPE_CLASSOBJECT_def DATATYPE_OBJECT_def split: prod.splits)
  qed
qed

definition batch :: "u8 \<Rightarrow> wbem_item list \<Rightarrow> bytes" where
  "batch minor its = (let body = concat (map item_bytes its) in header_bytes minor (length its) (length body) @ body)"

lemma length_items: "length its \<le> length (concat (map item_bytes its))"
  by (induction its) (simp_all add: item_bytes_def)

lemma Parse_batch:
  assumes "guid_reader (pull_GUID pl)" "list_all (readable pl) its" "its \<noteq> []" "minor \<le> 1" "length (batch minor its) < 2 ^ 31"
  shows "WBEMDATA_Parse pl cap (batch minor its) (word_of_nat (length (batch minor its))) cache (word_of_nat (length its)) =
    (if length its \<le> cap then Inr (None, resolve cache its) else Inl Fault)"
proof -
  let ?body = "concat (map item_bytes its)" and ?m = "batch minor its"
  let ?q = "wbemdata_init ?m (word_of_nat (length ?m))"
  have m: "?m = header_bytes minor (length its) (length ?body) @ ?body" by (simp add: batch_def Let_def)
  have len: "length ?body < 2 ^ 31" using assms(5) unfolding m by simp
  have n: "unat (word_of_nat (length its) :: u32) = length its" "length its < 2 ^ 32"
    using length_items [of its] len by (simp_all add: unat_of_nat)
  then have nz: "(word_of_nat (length its) :: u32) \<noteq> 0" using assms(3) by (metis length_0_conv unat_0)
  have sz: "unat (word_of_nat (length ?m) :: u32) = length ?m" using assms(5) by (simp add: unat_of_nat)
  then have "at ?q ?m" using wbemdata_init_wf [of "word_of_nat (length ?m)" ?m] assms(5)
    by (simp add: at_def) (simp add: wbemdata_init_def wbemdata_flags pull_rest_def)
  then have "at ?q (header_bytes minor (length its) (length ?body) @ ?body)" by (simp only: m [symmetric])
  from header_reads_to [OF this assms(4) len] obtain q' where
    q': "wbemdata_header ?q (word_of_nat (length its)) = Inr (word_of_nat (length its), q')" "at q' (?body @ [])"
    by (auto simp: reads_to_def)
  have "wbemdata_items pl cap (length its) q' [] cache = (if length its \<le> cap then Inr (None, resolve cache its) else Inl Fault)"
    using items_resolve [OF assms(1,2) q'(2), of "[]" cap cache] by simp
  then show ?thesis using q'(1) n nz by (simp add: WBEMDATA_Parse_def on_status_def)
qed

text \<open>A reader of GUIDs as the IDL file describes them, and readers of very small objects.\<close>

definition tiny_pull_GUID :: "ndr_pull \<Rightarrow> u32 \<Rightarrow> (GUID \<times> ndr_pull) res" where
  "tiny_pull_GUID q fl =
     chk (ndr_pull_uint32 q fl) (\<lambda>(a, q). chk (ndr_pull_uint16 q fl) (\<lambda>(b, q). chk (ndr_pull_uint16 q fl) (\<lambda>(c, q).
     chk (ndr_pull_uint8 q fl) (\<lambda>(d, q). chk (ndr_pull_uint8 q fl) (\<lambda>(e, q). chk (pull_list ndr_pull_uint8 6 q fl) (\<lambda>(ns, q).
     Inr (\<lparr>time_low = a, time_mid = b, time_hi_and_version = c, clock_seq0 = d, clock_seq1 = e, node = ns\<rparr>, q)))))))"

definition tiny_class :: "wbem_class" where
  "tiny_class = WbemClass 0 (Some (ascii_str ''Class'')) 1 [] []
     [WbemProperty (Some (ascii_str ''Name'')) (Some (WbemPropertyDesc CIM_UINT8 0 0 0 []))] [0] [CV_bits 0]"

definition tiny_object :: "wbem_class option \<Rightarrow> u8 \<Rightarrow> WbemClassObject" where
  "tiny_object c u =
     WbemClassObject WCF_INSTANCE None None None None c None (Some (WbemInstance 0 None [0] [CV_bits (ucast u)] 4 1))"

definition tiny_pull :: "wbem_class option \<Rightarrow> ndr_pull \<Rightarrow> u32 \<Rightarrow> (WbemClassObject \<times> ndr_pull) res" where
  "tiny_pull c q fl = chk (ndr_pull_uint8 q fl) (\<lambda>(u, q). Inr (tiny_object c u, q))"

definition tiny_pullers :: wbem_pullers where
  "tiny_pullers = \<lparr>pull_GUID = tiny_pull_GUID, pull_WbemClassObject = tiny_pull (Some tiny_class), pull_WbemClassObject_Object = tiny_pull\<rparr>"

lemma tiny_within: "readers_within tiny_pullers"
proof -
  have "reads_within q (tiny_pull_GUID q fl)" if "wf_pull q" for q fl
    using that unfolding tiny_pull_GUID_def
    by (intro within_bind_snd rd_uint32.reader_safe rd_uint16.reader_safe rd_uint8.reader_safe rd_uint8.pull_list_safe)
      (simp_all add: pull_step_refl)
  moreover have "reads_within q (tiny_pull c q fl)" if "wf_pull q" for q fl c
    using that unfolding tiny_pull_def
    by (intro within_bind_snd rd_uint8.reader_safe) (simp_all add: pull_step_refl)
  ultimately show ?thesis by (simp add: readers_within_def tiny_pullers_def)
qed

lemma uint16_reads_to: "at q (le16 v @ rest) \<Longrightarrow> reads_to (ndr_pull_uint16 q fl) q v rest"
  using cd_uint16.pull_enc [of q v rest fl]
  by (auto simp: at_def enc_u16_def enc16_def pad_len_def intro!: consumes_reads_to)

lemma bytes_reads_to: "at q (bs @ rest) \<Longrightarrow> reads_to (pull_list ndr_pull_uint8 (length bs) q fl) q bs rest"
proof (induction bs arbitrary: q)
  case Nil
  then show ?case by (simp add: reads_to_def same_data_def)
next
  case (Cons b bs)
  have "at q (b # (bs @ rest))" using Cons.prems by simp
  then show ?case
    unfolding length_Cons pull_list.simps
    by (elim reads_to_bind [OF uint8_reads_to] reads_to_bind [OF Cons.IH]) (auto simp: reads_to_def same_data_def)
qed

lemma tiny_guid_reader: "guid_reader tiny_pull_GUID"
proof -
  have "reads_to (tiny_pull_GUID q fl) q g rest" if "length (node g) = 6" "at q (guid_bytes g @ rest)" for q fl g rest
  proof -
    have n: "pull_list ndr_pull_uint8 6 = pull_list ndr_pull_uint8 (length (node g))" by (simp add: that(1))
    show ?thesis
      using that(2) unfolding tiny_pull_GUID_def guid_bytes_def append_assoc append_Cons append_Nil n
      by (elim reads_to_bind [OF uint32_reads_to] reads_to_bind [OF uint16_reads_to] reads_to_bind [OF uint8_reads_to]
          reads_to_bind [OF bytes_reads_to]) (simp add: reads_to_def same_data_def)
  qed
  then show ?thesis by (auto simp: guid_reader_def)
qed

lemma tiny_reads_value: "reads_value (tiny_pull c) [u] (tiny_object c u)"
  unfolding reads_value_def tiny_pull_def
proof (intro allI impI)
  fix q rest assume "at q ([u] @ rest)"
  then have "at q (u # rest)" by simp
  from uint8_reads_to [OF this, of "NDR_SCALARS OR NDR_BUFFERS"]
  show "\<exists>q'. chk (ndr_pull_uint8 q (NDR_SCALARS OR NDR_BUFFERS)) (\<lambda>(u, q). Inr (tiny_object c u, q)) =
      Inr (tiny_object c u, q') \<and> same_data q q'"
    by (auto simp: reads_to_def)
qed




definition tiny_items :: "wbem_item list" where
  "tiny_items = [Class_item zero_guid [4] (tiny_object (Some tiny_class) 4), Object_item zero_guid [2] (\<lambda>c. tiny_object c 2)]"

lemma tiny_items_ok: "list_all (readable tiny_pullers) tiny_items" "tiny_items \<noteq> []" "length (batch 0 tiny_items) = 114"
  by (simp_all add: tiny_items_def tiny_pullers_def tiny_reads_value zero_guid_def batch_def header_bytes_def item_bytes_def
      guid_bytes_def Let_def)


end
