(* ===== verification/Nterr.thy ===== *)
theory Nterr
  imports C_Strings Errormap
begin

text \<open>
  \<open>libcli/util/nterr.c\<close>: the names of the NTSTATUS codes and the functions between codes and names. The
  tables are the source's, with the codes replaced by their values from \<open>nterr.h\<close>, \<open>doserr.h\<close> and \<open>ldap.h\<close>. The
  end mark of a table is None.
\<close>

section \<open>The tables\<close>

type_synonym nt_err_code_struct = "string \<times> u32"

definition nt_errs_1 :: "nt_err_code_struct list" where
  "nt_errs_1 =
     [(''NT_STATUS_OK'', 0), (''STATUS_NO_MORE_FILES'', 0x80000006), (''STATUS_NO_MORE_EAS'', 0x80000012),
      (''STATUS_INVALID_EA_NAME'', 0x80000013), (''STATUS_EA_LIST_INCONSISTENT'', 0x80000014),
      (''STATUS_INVALID_EA_FLAG'', 0x80000015), (''NT_STATUS_UNSUCCESSFUL'', 0xC0000001),
      (''NT_STATUS_NOT_IMPLEMENTED'', 0xC0000002), (''NT_STATUS_INVALID_INFO_CLASS'', 0xC0000003),
      (''NT_STATUS_INFO_LENGTH_MISMATCH'', 0xC0000004), (''NT_STATUS_ACCESS_VIOLATION'', 0xC0000005),
      (''STATUS_BUFFER_OVERFLOW'', 0x80000005), (''NT_STATUS_IN_PAGE_ERROR'', 0xC0000006),
      (''NT_STATUS_PAGEFILE_QUOTA'', 0xC0000007), (''NT_STATUS_INVALID_HANDLE'', 0xC0000008),
      (''NT_STATUS_BAD_INITIAL_STACK'', 0xC0000009), (''NT_STATUS_BAD_INITIAL_PC'', 0xC000000A),
      (''NT_STATUS_INVALID_CID'', 0xC000000B), (''NT_STATUS_TIMER_NOT_CANCELED'', 0xC000000C),
      (''NT_STATUS_INVALID_PARAMETER'', 0xC000000D), (''NT_STATUS_NO_SUCH_DEVICE'', 0xC000000E),
      (''NT_STATUS_NO_SUCH_FILE'', 0xC000000F), (''NT_STATUS_INVALID_DEVICE_REQUEST'', 0xC0000010),
      (''NT_STATUS_END_OF_FILE'', 0xC0000011), (''NT_STATUS_WRONG_VOLUME'', 0xC0000012),
      (''NT_STATUS_NO_MEDIA_IN_DEVICE'', 0xC0000013), (''NT_STATUS_UNRECOGNIZED_MEDIA'', 0xC0000014),
      (''NT_STATUS_NONEXISTENT_SECTOR'', 0xC0000015), (''NT_STATUS_MORE_PROCESSING_REQUIRED'', 0xC0000016),
      (''NT_STATUS_NO_MEMORY'', 0xC0000017), (''NT_STATUS_CONFLICTING_ADDRESSES'', 0xC0000018),
      (''NT_STATUS_NOT_MAPPED_VIEW'', 0xC0000019), (''NT_STATUS_UNABLE_TO_FREE_VM'', 0xC000001A),
      (''NT_STATUS_UNABLE_TO_DELETE_SECTION'', 0xC000001B), (''NT_STATUS_INVALID_SYSTEM_SERVICE'', 0xC000001C),
      (''NT_STATUS_ILLEGAL_INSTRUCTION'', 0xC000001D), (''NT_STATUS_INVALID_LOCK_SEQUENCE'', 0xC000001E),
      (''NT_STATUS_INVALID_VIEW_SIZE'', 0xC000001F), (''NT_STATUS_INVALID_FILE_FOR_SECTION'', 0xC0000020),
      (''NT_STATUS_ALREADY_COMMITTED'', 0xC0000021), (''NT_STATUS_ACCESS_DENIED'', 0xC0000022),
      (''NT_STATUS_BUFFER_TOO_SMALL'', 0xC0000023), (''NT_STATUS_OBJECT_TYPE_MISMATCH'', 0xC0000024),
      (''NT_STATUS_NONCONTINUABLE_EXCEPTION'', 0xC0000025), (''NT_STATUS_INVALID_DISPOSITION'', 0xC0000026),
      (''NT_STATUS_UNWIND'', 0xC0000027), (''NT_STATUS_BAD_STACK'', 0xC0000028),
      (''NT_STATUS_INVALID_UNWIND_TARGET'', 0xC0000029), (''NT_STATUS_NOT_LOCKED'', 0xC000002A),
      (''NT_STATUS_PARITY_ERROR'', 0xC000002B), (''NT_STATUS_UNABLE_TO_DECOMMIT_VM'', 0xC000002C),
      (''NT_STATUS_NOT_COMMITTED'', 0xC000002D), (''NT_STATUS_INVALID_PORT_ATTRIBUTES'', 0xC000002E),
      (''NT_STATUS_PORT_MESSAGE_TOO_LONG'', 0xC000002F), (''NT_STATUS_INVALID_PARAMETER_MIX'', 0xC0000030),
      (''NT_STATUS_INVALID_QUOTA_LOWER'', 0xC0000031), (''NT_STATUS_DISK_CORRUPT_ERROR'', 0xC0000032),
      (''NT_STATUS_OBJECT_NAME_INVALID'', 0xC0000033), (''NT_STATUS_OBJECT_NAME_NOT_FOUND'', 0xC0000034),
      (''NT_STATUS_OBJECT_NAME_COLLISION'', 0xC0000035), (''NT_STATUS_HANDLE_NOT_WAITABLE'', 0xC0000036),
      (''NT_STATUS_PORT_DISCONNECTED'', 0xC0000037), (''NT_STATUS_DEVICE_ALREADY_ATTACHED'', 0xC0000038),
      (''NT_STATUS_OBJECT_PATH_INVALID'', 0xC0000039), (''NT_STATUS_OBJECT_PATH_NOT_FOUND'', 0xC000003A),
      (''NT_STATUS_OBJECT_PATH_SYNTAX_BAD'', 0xC000003B), (''NT_STATUS_DATA_OVERRUN'', 0xC000003C),
      (''NT_STATUS_DATA_LATE_ERROR'', 0xC000003D), (''NT_STATUS_DATA_ERROR'', 0xC000003E),
      (''NT_STATUS_CRC_ERROR'', 0xC000003F), (''NT_STATUS_SECTION_TOO_BIG'', 0xC0000040),
      (''NT_STATUS_PORT_CONNECTION_REFUSED'', 0xC0000041), (''NT_STATUS_INVALID_PORT_HANDLE'', 0xC0000042),
      (''NT_STATUS_SHARING_VIOLATION'', 0xC0000043), (''NT_STATUS_QUOTA_EXCEEDED'', 0xC0000044),
      (''NT_STATUS_INVALID_PAGE_PROTECTION'', 0xC0000045), (''NT_STATUS_MUTANT_NOT_OWNED'', 0xC0000046),
      (''NT_STATUS_SEMAPHORE_LIMIT_EXCEEDED'', 0xC0000047), (''NT_STATUS_PORT_ALREADY_SET'', 0xC0000048),
      (''NT_STATUS_SECTION_NOT_IMAGE'', 0xC0000049), (''NT_STATUS_SUSPEND_COUNT_EXCEEDED'', 0xC000004A),
      (''NT_STATUS_THREAD_IS_TERMINATING'', 0xC000004B), (''NT_STATUS_BAD_WORKING_SET_LIMIT'', 0xC000004C),
      (''NT_STATUS_INCOMPATIBLE_FILE_MAP'', 0xC000004D), (''NT_STATUS_SECTION_PROTECTION'', 0xC000004E),
      (''NT_STATUS_EAS_NOT_SUPPORTED'', 0xC000004F), (''NT_STATUS_EA_TOO_LARGE'', 0xC0000050),
      (''NT_STATUS_NONEXISTENT_EA_ENTRY'', 0xC0000051), (''NT_STATUS_NO_EAS_ON_FILE'', 0xC0000052),
      (''NT_STATUS_EA_CORRUPT_ERROR'', 0xC0000053), (''NT_STATUS_FILE_LOCK_CONFLICT'', 0xC0000054),
      (''NT_STATUS_LOCK_NOT_GRANTED'', 0xC0000055), (''NT_STATUS_DELETE_PENDING'', 0xC0000056),
      (''NT_STATUS_CTL_FILE_NOT_SUPPORTED'', 0xC0000057), (''NT_STATUS_UNKNOWN_REVISION'', 0xC0000058),
      (''NT_STATUS_REVISION_MISMATCH'', 0xC0000059), (''NT_STATUS_INVALID_OWNER'', 0xC000005A),
      (''NT_STATUS_INVALID_PRIMARY_GROUP'', 0xC000005B), (''NT_STATUS_NO_IMPERSONATION_TOKEN'', 0xC000005C),
      (''NT_STATUS_CANT_DISABLE_MANDATORY'', 0xC000005D), (''NT_STATUS_NO_LOGON_SERVERS'', 0xC000005E),
      (''NT_STATUS_NO_SUCH_LOGON_SESSION'', 0xC000005F), (''NT_STATUS_NO_SUCH_PRIVILEGE'', 0xC0000060),
      (''NT_STATUS_PRIVILEGE_NOT_HELD'', 0xC0000061), (''NT_STATUS_INVALID_ACCOUNT_NAME'', 0xC0000062),
      (''NT_STATUS_USER_EXISTS'', 0xC0000063), (''NT_STATUS_NO_SUCH_USER'', 0xC0000064),
      (''NT_STATUS_GROUP_EXISTS'', 0xC0000065), (''NT_STATUS_NO_SUCH_GROUP'', 0xC0000066),
      (''NT_STATUS_MEMBER_IN_GROUP'', 0xC0000067), (''NT_STATUS_MEMBER_NOT_IN_GROUP'', 0xC0000068),
      (''NT_STATUS_LAST_ADMIN'', 0xC0000069), (''NT_STATUS_WRONG_PASSWORD'', 0xC000006A),
      (''NT_STATUS_ILL_FORMED_PASSWORD'', 0xC000006B), (''NT_STATUS_PASSWORD_RESTRICTION'', 0xC000006C),
      (''NT_STATUS_LOGON_FAILURE'', 0xC000006D), (''NT_STATUS_ACCOUNT_RESTRICTION'', 0xC000006E),
      (''NT_STATUS_INVALID_LOGON_HOURS'', 0xC000006F), (''NT_STATUS_INVALID_WORKSTATION'', 0xC0000070),
      (''NT_STATUS_PASSWORD_EXPIRED'', 0xC0000071), (''NT_STATUS_ACCOUNT_DISABLED'', 0xC0000072),
      (''NT_STATUS_NONE_MAPPED'', 0xC0000073), (''NT_STATUS_TOO_MANY_LUIDS_REQUESTED'', 0xC0000074),
      (''NT_STATUS_LUIDS_EXHAUSTED'', 0xC0000075), (''NT_STATUS_INVALID_SUB_AUTHORITY'', 0xC0000076),
      (''NT_STATUS_INVALID_ACL'', 0xC0000077), (''NT_STATUS_INVALID_SID'', 0xC0000078),
      (''NT_STATUS_INVALID_SECURITY_DESCR'', 0xC0000079), (''NT_STATUS_PROCEDURE_NOT_FOUND'', 0xC000007A),
      (''NT_STATUS_INVALID_IMAGE_FORMAT'', 0xC000007B), (''NT_STATUS_NO_TOKEN'', 0xC000007C),
      (''NT_STATUS_BAD_INHERITANCE_ACL'', 0xC000007D), (''NT_STATUS_RANGE_NOT_LOCKED'', 0xC000007E),
      (''NT_STATUS_DISK_FULL'', 0xC000007F), (''NT_STATUS_SERVER_DISABLED'', 0xC0000080),
      (''NT_STATUS_SERVER_NOT_DISABLED'', 0xC0000081), (''NT_STATUS_TOO_MANY_GUIDS_REQUESTED'', 0xC0000082),
      (''NT_STATUS_GUIDS_EXHAUSTED'', 0xC0000083), (''NT_STATUS_INVALID_ID_AUTHORITY'', 0xC0000084),
      (''NT_STATUS_AGENTS_EXHAUSTED'', 0xC0000085), (''NT_STATUS_INVALID_VOLUME_LABEL'', 0xC0000086),
      (''NT_STATUS_SECTION_NOT_EXTENDED'', 0xC0000087), (''NT_STATUS_NOT_MAPPED_DATA'', 0xC0000088),
      (''NT_STATUS_RESOURCE_DATA_NOT_FOUND'', 0xC0000089), (''NT_STATUS_RESOURCE_TYPE_NOT_FOUND'', 0xC000008A),
      (''NT_STATUS_RESOURCE_NAME_NOT_FOUND'', 0xC000008B), (''NT_STATUS_ARRAY_BOUNDS_EXCEEDED'', 0xC000008C),
      (''NT_STATUS_FLOAT_DENORMAL_OPERAND'', 0xC000008D)]"

definition nt_errs_2 :: "nt_err_code_struct list" where
  "nt_errs_2 =
     [(''NT_STATUS_FLOAT_DIVIDE_BY_ZERO'', 0xC000008E), (''NT_STATUS_FLOAT_INEXACT_RESULT'', 0xC000008F),
      (''NT_STATUS_FLOAT_INVALID_OPERATION'', 0xC0000090), (''NT_STATUS_FLOAT_OVERFLOW'', 0xC0000091),
      (''NT_STATUS_FLOAT_STACK_CHECK'', 0xC0000092), (''NT_STATUS_FLOAT_UNDERFLOW'', 0xC0000093),
      (''NT_STATUS_INTEGER_DIVIDE_BY_ZERO'', 0xC0000094), (''NT_STATUS_INTEGER_OVERFLOW'', 0xC0000095),
      (''NT_STATUS_PRIVILEGED_INSTRUCTION'', 0xC0000096), (''NT_STATUS_TOO_MANY_PAGING_FILES'', 0xC0000097),
      (''NT_STATUS_FILE_INVALID'', 0xC0000098), (''NT_STATUS_ALLOTTED_SPACE_EXCEEDED'', 0xC0000099),
      (''NT_STATUS_INSUFFICIENT_RESOURCES'', 0xC000009A), (''NT_STATUS_DFS_EXIT_PATH_FOUND'', 0xC000009B),
      (''NT_STATUS_DEVICE_DATA_ERROR'', 0xC000009C), (''NT_STATUS_DEVICE_NOT_CONNECTED'', 0xC000009D),
      (''NT_STATUS_DEVICE_POWER_FAILURE'', 0xC000009E), (''NT_STATUS_FREE_VM_NOT_AT_BASE'', 0xC000009F),
      (''NT_STATUS_MEMORY_NOT_ALLOCATED'', 0xC00000A0), (''NT_STATUS_WORKING_SET_QUOTA'', 0xC00000A1),
      (''NT_STATUS_MEDIA_WRITE_PROTECTED'', 0xC00000A2), (''NT_STATUS_DEVICE_NOT_READY'', 0xC00000A3),
      (''NT_STATUS_INVALID_GROUP_ATTRIBUTES'', 0xC00000A4), (''NT_STATUS_BAD_IMPERSONATION_LEVEL'', 0xC00000A5),
      (''NT_STATUS_CANT_OPEN_ANONYMOUS'', 0xC00000A6), (''NT_STATUS_BAD_VALIDATION_CLASS'', 0xC00000A7),
      (''NT_STATUS_BAD_TOKEN_TYPE'', 0xC00000A8), (''NT_STATUS_BAD_MASTER_BOOT_RECORD'', 0xC00000A9),
      (''NT_STATUS_INSTRUCTION_MISALIGNMENT'', 0xC00000AA), (''NT_STATUS_INSTANCE_NOT_AVAILABLE'', 0xC00000AB),
      (''NT_STATUS_PIPE_NOT_AVAILABLE'', 0xC00000AC), (''NT_STATUS_INVALID_PIPE_STATE'', 0xC00000AD),
      (''NT_STATUS_PIPE_BUSY'', 0xC00000AE), (''NT_STATUS_ILLEGAL_FUNCTION'', 0xC00000AF),
      (''NT_STATUS_PIPE_DISCONNECTED'', 0xC00000B0), (''NT_STATUS_PIPE_CLOSING'', 0xC00000B1),
      (''NT_STATUS_PIPE_CONNECTED'', 0xC00000B2), (''NT_STATUS_PIPE_LISTENING'', 0xC00000B3),
      (''NT_STATUS_INVALID_READ_MODE'', 0xC00000B4), (''NT_STATUS_IO_TIMEOUT'', 0xC00000B5),
      (''NT_STATUS_FILE_FORCED_CLOSED'', 0xC00000B6), (''NT_STATUS_PROFILING_NOT_STARTED'', 0xC00000B7),
      (''NT_STATUS_PROFILING_NOT_STOPPED'', 0xC00000B8), (''NT_STATUS_COULD_NOT_INTERPRET'', 0xC00000B9),
      (''NT_STATUS_FILE_IS_A_DIRECTORY'', 0xC00000BA), (''NT_STATUS_NOT_SUPPORTED'', 0xC00000BB),
      (''NT_STATUS_REMOTE_NOT_LISTENING'', 0xC00000BC), (''NT_STATUS_DUPLICATE_NAME'', 0xC00000BD),
      (''NT_STATUS_BAD_NETWORK_PATH'', 0xC00000BE), (''NT_STATUS_NETWORK_BUSY'', 0xC00000BF),
      (''NT_STATUS_DEVICE_DOES_NOT_EXIST'', 0xC00000C0), (''NT_STATUS_TOO_MANY_COMMANDS'', 0xC00000C1),
      (''NT_STATUS_ADAPTER_HARDWARE_ERROR'', 0xC00000C2), (''NT_STATUS_INVALID_NETWORK_RESPONSE'', 0xC00000C3),
      (''NT_STATUS_UNEXPECTED_NETWORK_ERROR'', 0xC00000C4), (''NT_STATUS_BAD_REMOTE_ADAPTER'', 0xC00000C5),
      (''NT_STATUS_PRINT_QUEUE_FULL'', 0xC00000C6), (''NT_STATUS_NO_SPOOL_SPACE'', 0xC00000C7),
      (''NT_STATUS_PRINT_CANCELLED'', 0xC00000C8), (''NT_STATUS_NETWORK_NAME_DELETED'', 0xC00000C9),
      (''NT_STATUS_NETWORK_ACCESS_DENIED'', 0xC00000CA), (''NT_STATUS_BAD_DEVICE_TYPE'', 0xC00000CB),
      (''NT_STATUS_BAD_NETWORK_NAME'', 0xC00000CC), (''NT_STATUS_TOO_MANY_NAMES'', 0xC00000CD),
      (''NT_STATUS_TOO_MANY_SESSIONS'', 0xC00000CE), (''NT_STATUS_SHARING_PAUSED'', 0xC00000CF),
      (''NT_STATUS_REQUEST_NOT_ACCEPTED'', 0xC00000D0), (''NT_STATUS_REDIRECTOR_PAUSED'', 0xC00000D1),
      (''NT_STATUS_NET_WRITE_FAULT'', 0xC00000D2), (''NT_STATUS_PROFILING_AT_LIMIT'', 0xC00000D3),
      (''NT_STATUS_NOT_SAME_DEVICE'', 0xC00000D4), (''NT_STATUS_FILE_RENAMED'', 0xC00000D5),
      (''NT_STATUS_VIRTUAL_CIRCUIT_CLOSED'', 0xC00000D6), (''NT_STATUS_NO_SECURITY_ON_OBJECT'', 0xC00000D7),
      (''NT_STATUS_CANT_WAIT'', 0xC00000D8), (''NT_STATUS_PIPE_EMPTY'', 0xC00000D9),
      (''NT_STATUS_CANT_ACCESS_DOMAIN_INFO'', 0xC00000DA), (''NT_STATUS_CANT_TERMINATE_SELF'', 0xC00000DB),
      (''NT_STATUS_INVALID_SERVER_STATE'', 0xC00000DC), (''NT_STATUS_INVALID_DOMAIN_STATE'', 0xC00000DD),
      (''NT_STATUS_INVALID_DOMAIN_ROLE'', 0xC00000DE), (''NT_STATUS_NO_SUCH_DOMAIN'', 0xC00000DF),
      (''NT_STATUS_DOMAIN_EXISTS'', 0xC00000E0), (''NT_STATUS_DOMAIN_LIMIT_EXCEEDED'', 0xC00000E1),
      (''NT_STATUS_OPLOCK_NOT_GRANTED'', 0xC00000E2), (''NT_STATUS_INVALID_OPLOCK_PROTOCOL'', 0xC00000E3),
      (''NT_STATUS_INTERNAL_DB_CORRUPTION'', 0xC00000E4), (''NT_STATUS_INTERNAL_ERROR'', 0xC00000E5),
      (''NT_STATUS_GENERIC_NOT_MAPPED'', 0xC00000E6), (''NT_STATUS_BAD_DESCRIPTOR_FORMAT'', 0xC00000E7),
      (''NT_STATUS_INVALID_USER_BUFFER'', 0xC00000E8), (''NT_STATUS_UNEXPECTED_IO_ERROR'', 0xC00000E9),
      (''NT_STATUS_UNEXPECTED_MM_CREATE_ERR'', 0xC00000EA), (''NT_STATUS_UNEXPECTED_MM_MAP_ERROR'', 0xC00000EB),
      (''NT_STATUS_UNEXPECTED_MM_EXTEND_ERR'', 0xC00000EC), (''NT_STATUS_NOT_LOGON_PROCESS'', 0xC00000ED),
      (''NT_STATUS_LOGON_SESSION_EXISTS'', 0xC00000EE), (''NT_STATUS_INVALID_PARAMETER_1'', 0xC00000EF),
      (''NT_STATUS_INVALID_PARAMETER_2'', 0xC00000F0), (''NT_STATUS_INVALID_PARAMETER_3'', 0xC00000F1),
      (''NT_STATUS_INVALID_PARAMETER_4'', 0xC00000F2), (''NT_STATUS_INVALID_PARAMETER_5'', 0xC00000F3),
      (''NT_STATUS_INVALID_PARAMETER_6'', 0xC00000F4), (''NT_STATUS_INVALID_PARAMETER_7'', 0xC00000F5),
      (''NT_STATUS_INVALID_PARAMETER_8'', 0xC00000F6), (''NT_STATUS_INVALID_PARAMETER_9'', 0xC00000F7),
      (''NT_STATUS_INVALID_PARAMETER_10'', 0xC00000F8), (''NT_STATUS_INVALID_PARAMETER_11'', 0xC00000F9),
      (''NT_STATUS_INVALID_PARAMETER_12'', 0xC00000FA), (''NT_STATUS_REDIRECTOR_NOT_STARTED'', 0xC00000FB),
      (''NT_STATUS_REDIRECTOR_STARTED'', 0xC00000FC), (''NT_STATUS_STACK_OVERFLOW'', 0xC00000FD),
      (''NT_STATUS_NO_SUCH_PACKAGE'', 0xC00000FE), (''NT_STATUS_BAD_FUNCTION_TABLE'', 0xC00000FF),
      (''NT_STATUS_DIRECTORY_NOT_EMPTY'', 0xC0000101), (''NT_STATUS_FILE_CORRUPT_ERROR'', 0xC0000102),
      (''NT_STATUS_NOT_A_DIRECTORY'', 0xC0000103), (''NT_STATUS_BAD_LOGON_SESSION_STATE'', 0xC0000104),
      (''NT_STATUS_LOGON_SESSION_COLLISION'', 0xC0000105), (''NT_STATUS_NAME_TOO_LONG'', 0xC0000106),
      (''NT_STATUS_FILES_OPEN'', 0xC0000107), (''NT_STATUS_CONNECTION_IN_USE'', 0xC0000108),
      (''NT_STATUS_MESSAGE_NOT_FOUND'', 0xC0000109), (''NT_STATUS_PROCESS_IS_TERMINATING'', 0xC000010A),
      (''NT_STATUS_INVALID_LOGON_TYPE'', 0xC000010B), (''NT_STATUS_NO_GUID_TRANSLATION'', 0xC000010C),
      (''NT_STATUS_CANNOT_IMPERSONATE'', 0xC000010D), (''NT_STATUS_IMAGE_ALREADY_LOADED'', 0xC000010E),
      (''NT_STATUS_ABIOS_NOT_PRESENT'', 0xC000010F), (''NT_STATUS_ABIOS_LID_NOT_EXIST'', 0xC0000110),
      (''NT_STATUS_ABIOS_LID_ALREADY_OWNED'', 0xC0000111), (''NT_STATUS_ABIOS_NOT_LID_OWNER'', 0xC0000112),
      (''NT_STATUS_ABIOS_INVALID_COMMAND'', 0xC0000113), (''NT_STATUS_ABIOS_INVALID_LID'', 0xC0000114),
      (''NT_STATUS_ABIOS_SELECTOR_NOT_AVAILABLE'', 0xC0000115), (''NT_STATUS_ABIOS_INVALID_SELECTOR'', 0xC0000116),
      (''NT_STATUS_NO_LDT'', 0xC0000117), (''NT_STATUS_INVALID_LDT_SIZE'', 0xC0000118),
      (''NT_STATUS_INVALID_LDT_OFFSET'', 0xC0000119), (''NT_STATUS_INVALID_LDT_DESCRIPTOR'', 0xC000011A),
      (''NT_STATUS_INVALID_IMAGE_NE_FORMAT'', 0xC000011B), (''NT_STATUS_RXACT_INVALID_STATE'', 0xC000011C),
      (''NT_STATUS_RXACT_COMMIT_FAILURE'', 0xC000011D), (''NT_STATUS_MAPPED_FILE_SIZE_ZERO'', 0xC000011E),
      (''NT_STATUS_TOO_MANY_OPENED_FILES'', 0xC000011F), (''NT_STATUS_CANCELLED'', 0xC0000120),
      (''NT_STATUS_CANNOT_DELETE'', 0xC0000121), (''NT_STATUS_INVALID_COMPUTER_NAME'', 0xC0000122),
      (''NT_STATUS_FILE_DELETED'', 0xC0000123), (''NT_STATUS_SPECIAL_ACCOUNT'', 0xC0000124)]"

definition nt_errs_3 :: "nt_err_code_struct list" where
  "nt_errs_3 =
     [(''NT_STATUS_SPECIAL_GROUP'', 0xC0000125), (''NT_STATUS_SPECIAL_USER'', 0xC0000126),
      (''NT_STATUS_MEMBERS_PRIMARY_GROUP'', 0xC0000127), (''NT_STATUS_FILE_CLOSED'', 0xC0000128),
      (''NT_STATUS_TOO_MANY_THREADS'', 0xC0000129), (''NT_STATUS_THREAD_NOT_IN_PROCESS'', 0xC000012A),
      (''NT_STATUS_TOKEN_ALREADY_IN_USE'', 0xC000012B), (''NT_STATUS_PAGEFILE_QUOTA_EXCEEDED'', 0xC000012C),
      (''NT_STATUS_COMMITMENT_LIMIT'', 0xC000012D), (''NT_STATUS_INVALID_IMAGE_LE_FORMAT'', 0xC000012E),
      (''NT_STATUS_INVALID_IMAGE_NOT_MZ'', 0xC000012F), (''NT_STATUS_INVALID_IMAGE_PROTECT'', 0xC0000130),
      (''NT_STATUS_INVALID_IMAGE_WIN_16'', 0xC0000131), (''NT_STATUS_LOGON_SERVER_CONFLICT'', 0xC0000132),
      (''NT_STATUS_TIME_DIFFERENCE_AT_DC'', 0xC0000133), (''NT_STATUS_SYNCHRONIZATION_REQUIRED'', 0xC0000134),
      (''NT_STATUS_DLL_NOT_FOUND'', 0xC0000135), (''NT_STATUS_OPEN_FAILED'', 0xC0000136),
      (''NT_STATUS_IO_PRIVILEGE_FAILED'', 0xC0000137), (''NT_STATUS_ORDINAL_NOT_FOUND'', 0xC0000138),
      (''NT_STATUS_ENTRYPOINT_NOT_FOUND'', 0xC0000139), (''NT_STATUS_CONTROL_C_EXIT'', 0xC000013A),
      (''NT_STATUS_LOCAL_DISCONNECT'', 0xC000013B), (''NT_STATUS_REMOTE_DISCONNECT'', 0xC000013C),
      (''NT_STATUS_REMOTE_RESOURCES'', 0xC000013D), (''NT_STATUS_LINK_FAILED'', 0xC000013E),
      (''NT_STATUS_LINK_TIMEOUT'', 0xC000013F), (''NT_STATUS_INVALID_CONNECTION'', 0xC0000140),
      (''NT_STATUS_INVALID_ADDRESS'', 0xC0000141), (''NT_STATUS_DLL_INIT_FAILED'', 0xC0000142),
      (''NT_STATUS_MISSING_SYSTEMFILE'', 0xC0000143), (''NT_STATUS_UNHANDLED_EXCEPTION'', 0xC0000144),
      (''NT_STATUS_APP_INIT_FAILURE'', 0xC0000145), (''NT_STATUS_PAGEFILE_CREATE_FAILED'', 0xC0000146),
      (''NT_STATUS_NO_PAGEFILE'', 0xC0000147), (''NT_STATUS_INVALID_LEVEL'', 0xC0000148),
      (''NT_STATUS_WRONG_PASSWORD_CORE'', 0xC0000149), (''NT_STATUS_ILLEGAL_FLOAT_CONTEXT'', 0xC000014A),
      (''NT_STATUS_PIPE_BROKEN'', 0xC000014B), (''NT_STATUS_REGISTRY_CORRUPT'', 0xC000014C),
      (''NT_STATUS_REGISTRY_IO_FAILED'', 0xC000014D), (''NT_STATUS_NO_EVENT_PAIR'', 0xC000014E),
      (''NT_STATUS_UNRECOGNIZED_VOLUME'', 0xC000014F), (''NT_STATUS_SERIAL_NO_DEVICE_INITED'', 0xC0000150),
      (''NT_STATUS_NO_SUCH_ALIAS'', 0xC0000151), (''NT_STATUS_MEMBER_NOT_IN_ALIAS'', 0xC0000152),
      (''NT_STATUS_MEMBER_IN_ALIAS'', 0xC0000153), (''NT_STATUS_ALIAS_EXISTS'', 0xC0000154),
      (''NT_STATUS_LOGON_NOT_GRANTED'', 0xC0000155), (''NT_STATUS_TOO_MANY_SECRETS'', 0xC0000156),
      (''NT_STATUS_SECRET_TOO_LONG'', 0xC0000157), (''NT_STATUS_INTERNAL_DB_ERROR'', 0xC0000158),
      (''NT_STATUS_FULLSCREEN_MODE'', 0xC0000159), (''NT_STATUS_TOO_MANY_CONTEXT_IDS'', 0xC000015A),
      (''NT_STATUS_LOGON_TYPE_NOT_GRANTED'', 0xC000015B), (''NT_STATUS_NOT_REGISTRY_FILE'', 0xC000015C),
      (''NT_STATUS_NT_CROSS_ENCRYPTION_REQUIRED'', 0xC000015D),
      (''NT_STATUS_DOMAIN_CTRLR_CONFIG_ERROR'', 0xC000015E), (''NT_STATUS_FT_MISSING_MEMBER'', 0xC000015F),
      (''NT_STATUS_ILL_FORMED_SERVICE_ENTRY'', 0xC0000160), (''NT_STATUS_ILLEGAL_CHARACTER'', 0xC0000161),
      (''NT_STATUS_UNMAPPABLE_CHARACTER'', 0xC0000162), (''NT_STATUS_UNDEFINED_CHARACTER'', 0xC0000163),
      (''NT_STATUS_FLOPPY_VOLUME'', 0xC0000164), (''NT_STATUS_FLOPPY_ID_MARK_NOT_FOUND'', 0xC0000165),
      (''NT_STATUS_FLOPPY_WRONG_CYLINDER'', 0xC0000166), (''NT_STATUS_FLOPPY_UNKNOWN_ERROR'', 0xC0000167),
      (''NT_STATUS_FLOPPY_BAD_REGISTERS'', 0xC0000168), (''NT_STATUS_DISK_RECALIBRATE_FAILED'', 0xC0000169),
      (''NT_STATUS_DISK_OPERATION_FAILED'', 0xC000016A), (''NT_STATUS_DISK_RESET_FAILED'', 0xC000016B),
      (''NT_STATUS_SHARED_IRQ_BUSY'', 0xC000016C), (''NT_STATUS_FT_ORPHANING'', 0xC000016D),
      (''NT_STATUS_PARTITION_FAILURE'', 0xC0000172), (''NT_STATUS_INVALID_BLOCK_LENGTH'', 0xC0000173),
      (''NT_STATUS_DEVICE_NOT_PARTITIONED'', 0xC0000174), (''NT_STATUS_UNABLE_TO_LOCK_MEDIA'', 0xC0000175),
      (''NT_STATUS_UNABLE_TO_UNLOAD_MEDIA'', 0xC0000176), (''NT_STATUS_EOM_OVERFLOW'', 0xC0000177),
      (''NT_STATUS_NO_MEDIA'', 0xC0000178), (''NT_STATUS_NO_SUCH_MEMBER'', 0xC000017A),
      (''NT_STATUS_INVALID_MEMBER'', 0xC000017B), (''NT_STATUS_KEY_DELETED'', 0xC000017C),
      (''NT_STATUS_NO_LOG_SPACE'', 0xC000017D), (''NT_STATUS_TOO_MANY_SIDS'', 0xC000017E),
      (''NT_STATUS_LM_CROSS_ENCRYPTION_REQUIRED'', 0xC000017F), (''NT_STATUS_KEY_HAS_CHILDREN'', 0xC0000180),
      (''NT_STATUS_CHILD_MUST_BE_VOLATILE'', 0xC0000181), (''NT_STATUS_DEVICE_CONFIGURATION_ERROR'', 0xC0000182),
      (''NT_STATUS_DRIVER_INTERNAL_ERROR'', 0xC0000183), (''NT_STATUS_INVALID_DEVICE_STATE'', 0xC0000184),
      (''NT_STATUS_IO_DEVICE_ERROR'', 0xC0000185), (''NT_STATUS_DEVICE_PROTOCOL_ERROR'', 0xC0000186),
      (''NT_STATUS_BACKUP_CONTROLLER'', 0xC0000187), (''NT_STATUS_LOG_FILE_FULL'', 0xC0000188),
      (''NT_STATUS_TOO_LATE'', 0xC0000189), (''NT_STATUS_NO_TRUST_LSA_SECRET'', 0xC000018A),
      (''NT_STATUS_NO_TRUST_SAM_ACCOUNT'', 0xC000018B), (''NT_STATUS_TRUSTED_DOMAIN_FAILURE'', 0xC000018C),
      (''NT_STATUS_TRUSTED_RELATIONSHIP_FAILURE'', 0xC000018D), (''NT_STATUS_EVENTLOG_FILE_CORRUPT'', 0xC000018E),
      (''NT_STATUS_EVENTLOG_CANT_START'', 0xC000018F), (''NT_STATUS_TRUST_FAILURE'', 0xC0000190),
      (''NT_STATUS_MUTANT_LIMIT_EXCEEDED'', 0xC0000191), (''NT_STATUS_NETLOGON_NOT_STARTED'', 0xC0000192),
      (''NT_STATUS_ACCOUNT_EXPIRED'', 0xC0000193), (''NT_STATUS_POSSIBLE_DEADLOCK'', 0xC0000194),
      (''NT_STATUS_NETWORK_CREDENTIAL_CONFLICT'', 0xC0000195), (''NT_STATUS_REMOTE_SESSION_LIMIT'', 0xC0000196),
      (''NT_STATUS_EVENTLOG_FILE_CHANGED'', 0xC0000197),
      (''NT_STATUS_NOLOGON_INTERDOMAIN_TRUST_ACCOUNT'', 0xC0000198),
      (''NT_STATUS_NOLOGON_WORKSTATION_TRUST_ACCOUNT'', 0xC0000199),
      (''NT_STATUS_NOLOGON_SERVER_TRUST_ACCOUNT'', 0xC000019A),
      (''NT_STATUS_DOMAIN_TRUST_INCONSISTENT'', 0xC000019B), (''NT_STATUS_FS_DRIVER_REQUIRED'', 0xC000019C),
      (''NT_STATUS_NO_USER_SESSION_KEY'', 0xC0000202), (''NT_STATUS_USER_SESSION_DELETED'', 0xC0000203),
      (''NT_STATUS_RESOURCE_LANG_NOT_FOUND'', 0xC0000204), (''NT_STATUS_INSUFF_SERVER_RESOURCES'', 0xC0000205),
      (''NT_STATUS_INVALID_BUFFER_SIZE'', 0xC0000206), (''NT_STATUS_INVALID_ADDRESS_COMPONENT'', 0xC0000207),
      (''NT_STATUS_INVALID_ADDRESS_WILDCARD'', 0xC0000208), (''NT_STATUS_TOO_MANY_ADDRESSES'', 0xC0000209),
      (''NT_STATUS_ADDRESS_ALREADY_EXISTS'', 0xC000020A), (''NT_STATUS_ADDRESS_CLOSED'', 0xC000020B),
      (''NT_STATUS_CONNECTION_DISCONNECTED'', 0xC000020C), (''NT_STATUS_CONNECTION_RESET'', 0xC000020D),
      (''NT_STATUS_TOO_MANY_NODES'', 0xC000020E), (''NT_STATUS_TRANSACTION_ABORTED'', 0xC000020F),
      (''NT_STATUS_TRANSACTION_TIMED_OUT'', 0xC0000210), (''NT_STATUS_TRANSACTION_NO_RELEASE'', 0xC0000211),
      (''NT_STATUS_TRANSACTION_NO_MATCH'', 0xC0000212), (''NT_STATUS_TRANSACTION_RESPONDED'', 0xC0000213),
      (''NT_STATUS_TRANSACTION_INVALID_ID'', 0xC0000214), (''NT_STATUS_TRANSACTION_INVALID_TYPE'', 0xC0000215),
      (''NT_STATUS_NOT_SERVER_SESSION'', 0xC0000216), (''NT_STATUS_NOT_CLIENT_SESSION'', 0xC0000217),
      (''NT_STATUS_CANNOT_LOAD_REGISTRY_FILE'', 0xC0000218), (''NT_STATUS_DEBUG_ATTACH_FAILED'', 0xC0000219),
      (''NT_STATUS_SYSTEM_PROCESS_TERMINATED'', 0xC000021A), (''NT_STATUS_DATA_NOT_ACCEPTED'', 0xC000021B),
      (''NT_STATUS_NO_BROWSER_SERVERS_FOUND'', 0xC000021C), (''NT_STATUS_VDM_HARD_ERROR'', 0xC000021D),
      (''NT_STATUS_DRIVER_CANCEL_TIMEOUT'', 0xC000021E), (''NT_STATUS_REPLY_MESSAGE_MISMATCH'', 0xC000021F),
      (''NT_STATUS_MAPPED_ALIGNMENT'', 0xC0000220), (''NT_STATUS_IMAGE_CHECKSUM_MISMATCH'', 0xC0000221),
      (''NT_STATUS_LOST_WRITEBEHIND_DATA'', 0xC0000222),
      (''NT_STATUS_CLIENT_SERVER_PARAMETERS_INVALID'', 0xC0000223),
      (''NT_STATUS_PASSWORD_MUST_CHANGE'', 0xC0000224)]"

definition nt_errs_4 :: "nt_err_code_struct list" where
  "nt_errs_4 =
     [(''NT_STATUS_NOT_FOUND'', 0xC0000225), (''NT_STATUS_NOT_TINY_STREAM'', 0xC0000226),
      (''NT_STATUS_RECOVERY_FAILURE'', 0xC0000227), (''NT_STATUS_STACK_OVERFLOW_READ'', 0xC0000228),
      (''NT_STATUS_FAIL_CHECK'', 0xC0000229), (''NT_STATUS_DUPLICATE_OBJECTID'', 0xC000022A),
      (''NT_STATUS_OBJECTID_EXISTS'', 0xC000022B), (''NT_STATUS_CONVERT_TO_LARGE'', 0xC000022C),
      (''NT_STATUS_RETRY'', 0xC000022D), (''NT_STATUS_FOUND_OUT_OF_SCOPE'', 0xC000022E),
      (''NT_STATUS_ALLOCATE_BUCKET'', 0xC000022F), (''NT_STATUS_PROPSET_NOT_FOUND'', 0xC0000230),
      (''NT_STATUS_MARSHALL_OVERFLOW'', 0xC0000231), (''NT_STATUS_INVALID_VARIANT'', 0xC0000232),
      (''NT_STATUS_DOMAIN_CONTROLLER_NOT_FOUND'', 0xC0000233), (''NT_STATUS_ACCOUNT_LOCKED_OUT'', 0xC0000234),
      (''NT_STATUS_HANDLE_NOT_CLOSABLE'', 0xC0000235), (''NT_STATUS_CONNECTION_REFUSED'', 0xC0000236),
      (''NT_STATUS_GRACEFUL_DISCONNECT'', 0xC0000237), (''NT_STATUS_ADDRESS_ALREADY_ASSOCIATED'', 0xC0000238),
      (''NT_STATUS_ADDRESS_NOT_ASSOCIATED'', 0xC0000239), (''NT_STATUS_CONNECTION_INVALID'', 0xC000023A),
      (''NT_STATUS_CONNECTION_ACTIVE'', 0xC000023B), (''NT_STATUS_NETWORK_UNREACHABLE'', 0xC000023C),
      (''NT_STATUS_HOST_UNREACHABLE'', 0xC000023D), (''NT_STATUS_PROTOCOL_UNREACHABLE'', 0xC000023E),
      (''NT_STATUS_PORT_UNREACHABLE'', 0xC000023F), (''NT_STATUS_REQUEST_ABORTED'', 0xC0000240),
      (''NT_STATUS_CONNECTION_ABORTED'', 0xC0000241), (''NT_STATUS_BAD_COMPRESSION_BUFFER'', 0xC0000242),
      (''NT_STATUS_USER_MAPPED_FILE'', 0xC0000243), (''NT_STATUS_AUDIT_FAILED'', 0xC0000244),
      (''NT_STATUS_TIMER_RESOLUTION_NOT_SET'', 0xC0000245), (''NT_STATUS_CONNECTION_COUNT_LIMIT'', 0xC0000246),
      (''NT_STATUS_LOGIN_TIME_RESTRICTION'', 0xC0000247), (''NT_STATUS_LOGIN_WKSTA_RESTRICTION'', 0xC0000248),
      (''NT_STATUS_IMAGE_MP_UP_MISMATCH'', 0xC0000249), (''NT_STATUS_INSUFFICIENT_LOGON_INFO'', 0xC0000250),
      (''NT_STATUS_BAD_DLL_ENTRYPOINT'', 0xC0000251), (''NT_STATUS_BAD_SERVICE_ENTRYPOINT'', 0xC0000252),
      (''NT_STATUS_LPC_REPLY_LOST'', 0xC0000253), (''NT_STATUS_IP_ADDRESS_CONFLICT1'', 0xC0000254),
      (''NT_STATUS_IP_ADDRESS_CONFLICT2'', 0xC0000255), (''NT_STATUS_REGISTRY_QUOTA_LIMIT'', 0xC0000256),
      (''NT_STATUS_PATH_NOT_COVERED'', 0xC0000257), (''NT_STATUS_NO_CALLBACK_ACTIVE'', 0xC0000258),
      (''NT_STATUS_LICENSE_QUOTA_EXCEEDED'', 0xC0000259), (''NT_STATUS_PWD_TOO_SHORT'', 0xC000025A),
      (''NT_STATUS_PWD_TOO_RECENT'', 0xC000025B), (''NT_STATUS_PWD_HISTORY_CONFLICT'', 0xC000025C),
      (''NT_STATUS_PLUGPLAY_NO_DEVICE'', 0xC000025E), (''NT_STATUS_UNSUPPORTED_COMPRESSION'', 0xC000025F),
      (''NT_STATUS_INVALID_HW_PROFILE'', 0xC0000260), (''NT_STATUS_INVALID_PLUGPLAY_DEVICE_PATH'', 0xC0000261),
      (''NT_STATUS_DRIVER_ORDINAL_NOT_FOUND'', 0xC0000262), (''NT_STATUS_DRIVER_ENTRYPOINT_NOT_FOUND'', 0xC0000263),
      (''NT_STATUS_RESOURCE_NOT_OWNED'', 0xC0000264), (''NT_STATUS_TOO_MANY_LINKS'', 0xC0000265),
      (''NT_STATUS_QUOTA_LIST_INCONSISTENT'', 0xC0000266), (''NT_STATUS_FILE_IS_OFFLINE'', 0xC0000267),
      (''NT_STATUS_NO_MORE_ENTRIES'', 0x8000001A), (''NT_STATUS_RPC_PROTSEQ_NOT_SUPPORTED'', 0xC0020004),
      (''NT_STATUS_RPC_UNSUPPORTED_NAME_SYNTAX'', 0xC0020026), (''NT_STATUS_OBJECTID_NOT_FOUND'', 0xC00002F0),
      (''STATUS_MORE_ENTRIES'', 0x105), (''STATUS_SOME_UNMAPPED'', 0x107), (''STATUS_NOTIFY_CLEANUP'', 0x10B),
      (''STATUS_NOTIFY_ENUM_DIR'', 0x10C), (''ERRDOS:ERRsuccess'', 0xF1010000), (''ERRDOS:ERRbadfunc'', 0xF1010001),
      (''ERRDOS:ERRbadfile'', 0xF1010002), (''ERRDOS:ERRbadpath'', 0xF1010003), (''ERRDOS:ERRnofids'', 0xF1010004),
      (''ERRDOS:ERRnoaccess'', 0xF1010005), (''ERRDOS:ERRbadfid'', 0xF1010006), (''ERRDOS:ERRbadmcb'', 0xF1010007),
      (''ERRDOS:ERRnomem'', 0xF1010008), (''ERRDOS:ERRbadmem'', 0xF1010009), (''ERRDOS:ERRbadenv'', 0xF101000A),
      (''ERRDOS:ERRbadaccess'', 0xF101000C), (''ERRDOS:ERRbaddata'', 0xF101000D), (''ERRDOS:ERRres'', 0xF101000E),
      (''ERRDOS:ERRbaddrive'', 0xF101000F), (''ERRDOS:ERRremcd'', 0xF1010010),
      (''ERRDOS:ERRdiffdevice'', 0xF1010011), (''ERRDOS:ERRnofiles'', 0xF1010012),
      (''ERRDOS:ERRgeneral'', 0xF101001F), (''ERRDOS:ERRbadshare'', 0xF1010020), (''ERRDOS:ERRlock'', 0xF1010021),
      (''ERRDOS:ERRunsup'', 0xF1010032), (''ERRDOS:ERRnetnamedel'', 0xF1010040),
      (''ERRDOS:ERRnosuchshare'', 0xF1010043), (''ERRDOS:ERRfilexists'', 0xF1010050),
      (''ERRDOS:ERRinvalidparam'', 0xF1010057), (''ERRDOS:ERRcannotopen'', 0xF101006E),
      (''ERRDOS:ERRinsufficientbuffer'', 0xF101007A), (''ERRDOS:ERRinvalidname'', 0xF101007B),
      (''ERRDOS:ERRunknownlevel'', 0xF101007C), (''ERRDOS:ERRnotlocked'', 0xF101009E),
      (''ERRDOS:ERRinvalidpath'', 0xF10100A1), (''ERRDOS:ERRcancelviolation'', 0xF10100AD),
      (''ERRDOS:ERRnoatomiclocks'', 0xF10100AE), (''ERRDOS:ERRrename'', 0xF10100B7),
      (''ERRDOS:ERRbadpipe'', 0xF10100E6), (''ERRDOS:ERRpipebusy'', 0xF10100E7),
      (''ERRDOS:ERRpipeclosing'', 0xF10100E8), (''ERRDOS:ERRnotconnected'', 0xF10100E9),
      (''ERRDOS:ERRmoredata'', 0xF10100EA), (''ERRDOS:ERRnomoreitems'', 0xF1010103),
      (''ERRDOS:ERRbaddirectory'', 0xF101010B), (''ERRDOS:ERReasnotsupported'', 0xF101011A),
      (''ERRDOS:ERRlogonfailure'', 0xF101052E), (''ERRDOS:ERRbuftoosmall'', 0xF101084B),
      (''ERRDOS:ERRunknownipc'', 0xF101085E), (''ERRDOS:ERRnosuchprintjob'', 0xF1010867),
      (''ERRDOS:ERRinvgroup'', 0xF1010997), (''ERRDOS:ERRnoipc'', 0xF1010042),
      (''ERRDOS:ERRdriveralreadyinstalled'', 0xF1010703), (''ERRDOS:ERRunknownprinterport'', 0xF1010704),
      (''ERRDOS:ERRunknownprinterdriver'', 0xF1010705), (''ERRDOS:ERRunknownprintprocessor'', 0xF1010706),
      (''ERRDOS:ERRinvalidseparatorfile'', 0xF1010707), (''ERRDOS:ERRinvalidjobpriority'', 0xF1010708),
      (''ERRDOS:ERRinvalidprintername'', 0xF1010709), (''ERRDOS:ERRprinteralreadyexists'', 0xF101070A),
      (''ERRDOS:ERRinvalidprintercommand'', 0xF101070B), (''ERRDOS:ERRinvaliddatatype'', 0xF101070C),
      (''ERRDOS:ERRinvalidenvironment'', 0xF101070D), (''ERRDOS:ERRunknownprintmonitor'', 0xF1010BB8),
      (''ERRDOS:ERRprinterdriverinuse'', 0xF1010BB9), (''ERRDOS:ERRspoolfilenotfound'', 0xF1010BBA),
      (''ERRDOS:ERRnostartdoc'', 0xF1010BBB), (''ERRDOS:ERRnoaddjob'', 0xF1010BBC),
      (''ERRDOS:ERRprintprocessoralreadyinstalled'', 0xF1010BBD),
      (''ERRDOS:ERRprintmonitoralreadyinstalled'', 0xF1010BBE), (''ERRDOS:ERRinvalidprintmonitor'', 0xF1010BBF),
      (''ERRDOS:ERRprintmonitorinuse'', 0xF1010BC0), (''ERRDOS:ERRprinterhasjobsqueued'', 0xF1010BC1),
      (''ERRDOS:ERReainconsistent'', 0xF10100FF), (''ERRSRV:ERRerror'', 0xF1020001),
      (''ERRSRV:ERRbadpw'', 0xF1020002), (''ERRSRV:ERRbadtype'', 0xF1020003), (''ERRSRV:ERRaccess'', 0xF1020004),
      (''ERRSRV:ERRinvnid'', 0xF1020005), (''ERRSRV:ERRinvnetname'', 0xF1020006),
      (''ERRSRV:ERRinvdevice'', 0xF1020007), (''ERRSRV:ERRqfull'', 0xF1020031),
      (''ERRSRV:ERRqtoobig'', 0xF1020032)]"

definition nt_errs_5 :: "nt_err_code_struct list" where
  "nt_errs_5 =
     [(''ERRSRV:ERRinvpfid'', 0xF1020034), (''ERRSRV:ERRsmbcmd'', 0xF1020040), (''ERRSRV:ERRsrverror'', 0xF1020041),
      (''ERRSRV:ERRfilespecs'', 0xF1020043), (''ERRSRV:ERRbadlink'', 0xF1020044),
      (''ERRSRV:ERRbadpermits'', 0xF1020045), (''ERRSRV:ERRbadpid'', 0xF1020046),
      (''ERRSRV:ERRsetattrmode'', 0xF1020047), (''ERRSRV:ERRpaused'', 0xF1020051),
      (''ERRSRV:ERRmsgoff'', 0xF1020052), (''ERRSRV:ERRnoroom'', 0xF1020053), (''ERRSRV:ERRrmuns'', 0xF1020057),
      (''ERRSRV:ERRtimeout'', 0xF1020058), (''ERRSRV:ERRnoresource'', 0xF1020059),
      (''ERRSRV:ERRtoomanyuids'', 0xF102005A), (''ERRSRV:ERRbaduid'', 0xF102005B),
      (''ERRSRV:ERRuseMPX'', 0xF10200FA), (''ERRSRV:ERRuseSTD'', 0xF10200FB), (''ERRSRV:ERRcontMPX'', 0xF10200FC),
      (''ERRSRV:ERRnosupport'', 0xF102FFFF), (''ERRSRV:ERRunknownsmb'', 0xF1020016),
      (''ERRHRD:ERRnowrite'', 0xF1030013), (''ERRHRD:ERRbadunit'', 0xF1030014),
      (''ERRHRD:ERRnotready'', 0xF1030015), (''ERRHRD:ERRbadcmd'', 0xF1030016), (''ERRHRD:ERRdata'', 0xF1030017),
      (''ERRHRD:ERRbadreq'', 0xF1030018), (''ERRHRD:ERRseek'', 0xF1030019), (''ERRHRD:ERRbadmedia'', 0xF103001A),
      (''ERRHRD:ERRbadsector'', 0xF103001B), (''ERRHRD:ERRnopaper'', 0xF103001C), (''ERRHRD:ERRwrite'', 0xF103001D),
      (''ERRHRD:ERRread'', 0xF103001E), (''ERRHRD:ERRgeneral'', 0xF103001F), (''ERRHRD:ERRwrongdisk'', 0xF1030022),
      (''ERRHRD:ERRFCBunavail'', 0xF1030023), (''ERRHRD:ERRsharebufexc'', 0xF1030024),
      (''ERRHRD:ERRdiskfull'', 0xF1030027), (''LDAP_SUCCESS'', 0xF2000000), (''LDAP_OPERATIONS_ERROR'', 0xF2000001),
      (''LDAP_PROTOCOL_ERROR'', 0xF2000002), (''LDAP_TIME_LIMIT_EXCEEDED'', 0xF2000003),
      (''LDAP_SIZE_LIMIT_EXCEEDED'', 0xF2000004), (''LDAP_COMPARE_FALSE'', 0xF2000005),
      (''LDAP_COMPARE_TRUE'', 0xF2000006), (''LDAP_AUTH_METHOD_NOT_SUPPORTED'', 0xF2000007),
      (''LDAP_STRONG_AUTH_REQUIRED'', 0xF2000008), (''LDAP_REFERRAL'', 0xF200000A),
      (''LDAP_ADMIN_LIMIT_EXCEEDED'', 0xF200000B), (''LDAP_UNAVAILABLE_CRITICAL_EXTENSION'', 0xF200000C),
      (''LDAP_CONFIDENTIALITY_REQUIRED'', 0xF200000D), (''LDAP_SASL_BIND_IN_PROGRESS'', 0xF200000E),
      (''LDAP_NO_SUCH_ATTRIBUTE'', 0xF2000010), (''LDAP_UNDEFINED_ATTRIBUTE_TYPE'', 0xF2000011),
      (''LDAP_INAPPROPRIATE_MATCHING'', 0xF2000012), (''LDAP_CONSTRAINT_VIOLATION'', 0xF2000013),
      (''LDAP_ATTRIBUTE_OR_VALUE_EXISTS'', 0xF2000014), (''LDAP_INVALID_ATTRIBUTE_SYNTAX'', 0xF2000015),
      (''LDAP_NO_SUCH_OBJECT'', 0xF2000020), (''LDAP_ALIAS_PROBLEM'', 0xF2000021),
      (''LDAP_INVALID_DN_SYNTAX'', 0xF2000022), (''LDAP_ALIAS_DEREFERENCING_PROBLEM'', 0xF2000024),
      (''LDAP_INAPPROPRIATE_AUTHENTICATION'', 0xF2000030), (''LDAP_INVALID_CREDENTIALS'', 0xF2000031),
      (''LDAP_INSUFFICIENT_ACCESS_RIGHTs'', 0xF2000032), (''LDAP_BUSY'', 0xF2000033),
      (''LDAP_UNAVAILABLE'', 0xF2000034), (''LDAP_UNWILLING_TO_PERFORM'', 0xF2000035),
      (''LDAP_LOOP_DETECT'', 0xF2000036), (''LDAP_NAMING_VIOLATION'', 0xF2000040),
      (''LDAP_OBJECT_CLASS_VIOLATION'', 0xF2000041), (''LDAP_NOT_ALLOWED_ON_NON_LEAF'', 0xF2000042),
      (''LDAP_NOT_ALLOWED_ON_RDN'', 0xF2000043), (''LDAP_ENTRY_ALREADY_EXISTS'', 0xF2000044),
      (''LDAP_OBJECT_CLASS_MODS_PROHIBITED'', 0xF2000045), (''LDAP_AFFECTS_MULTIPLE_DSAS'', 0xF2000047),
      (''LDAP_OTHER'', 0xF2000050)]"

definition nt_errs :: "nt_err_code_struct list" where
  "nt_errs = nt_errs_1 @ nt_errs_2 @ nt_errs_3 @ nt_errs_4 @ nt_errs_5"

definition nt_err_desc :: "nt_err_code_struct list" where
  "nt_err_desc =
     [(''Success'', 0), (''Undetermined error'', 0xC0000001), (''Access denied'', 0xC0000022),
      (''Account locked out'', 0xC0000234), (''Must change password'', 0xC0000224),
      (''Password is too short'', 0xC000025A), (''Password is too recent'', 0xC000025B),
      (''Password history conflict'', 0xC000025C), (''No logon servers'', 0xC000005E),
      (''Improperly formed account name'', 0xC0000062), (''User exists'', 0xC0000063),
      (''No such user'', 0xC0000064), (''Group exists'', 0xC0000065), (''No such group'', 0xC0000066),
      (''Member not in group'', 0xC0000068), (''Wrong Password'', 0xC000006A),
      (''Ill formed password'', 0xC000006B), (''Password restriction'', 0xC000006C),
      (''Logon failure'', 0xC000006D), (''Account restriction'', 0xC000006E), (''Invalid logon hours'', 0xC000006F),
      (''Invalid workstation'', 0xC0000070), (''Password expired'', 0xC0000071), (''Account disabled'', 0xC0000072),
      (''Unexpected information received'', 0xC000000D), (''Memory allocation error'', 0xC0000017),
      (''No domain controllers located'', 0xC0000233), (''Account locked out'', 0xC0000234),
      (''Named pipe not available'', 0xC00000AC), (''Not implemented'', 0xC0000002),
      (''Invalid information class'', 0xC0000003), (''Information length mismatch'', 0xC0000004),
      (''Access violation'', 0xC0000005), (''Invalid handle'', 0xC0000008), (''Invalid parameter'', 0xC000000D),
      (''No memory'', 0xC0000017), (''Buffer too small'', 0xC0000023), (''Revision mismatch'', 0xC0000059),
      (''No logon servers'', 0xC000005E), (''No such logon session'', 0xC000005F),
      (''No such privilege'', 0xC0000060), (''Procedure not found'', 0xC000007A), (''Server disabled'', 0xC0000080),
      (''Invalid pipe state'', 0xC00000AD), (''Named pipe busy'', 0xC00000AE), (''Illegal function'', 0xC00000AF),
      (''Named pipe dicconnected'', 0xC00000B0), (''Named pipe closing'', 0xC00000B1),
      (''Remote host not listening'', 0xC00000BC), (''Duplicate name on network'', 0xC00000BD),
      (''Print queue is full'', 0xC00000C6), (''No print spool space available'', 0xC00000C7),
      (''Too many names'', 0xC00000CD), (''Too many sessions'', 0xC00000CE), (''Invalid server state'', 0xC00000DC),
      (''Invalid domain state'', 0xC00000DD), (''Invalid domain role'', 0xC00000DE),
      (''No such domain'', 0xC00000DF), (''Domain exists'', 0xC00000E0), (''Domain limit exceeded'', 0xC00000E1),
      (''Bad logon session state'', 0xC0000104), (''Logon session collision'', 0xC0000105),
      (''Invalid logon type'', 0xC000010B), (''Cancelled'', 0xC0000120), (''Invalid computer name'', 0xC0000122),
      (''Logon server conflict'', 0xC0000132), (''Time difference at domain controller'', 0xC0000133),
      (''Pipe broken'', 0xC000014B), (''Registry corrupt'', 0xC000014C), (''Too many secrets'', 0xC0000156),
      (''Too many SIDs'', 0xC000017E), (''Lanmanager cross encryption required'', 0xC000017F),
      (''Log file full'', 0xC0000188), (''No trusted LSA secret'', 0xC000018A),
      (''No trusted SAM account'', 0xC000018B), (''Trusted domain failure'', 0xC000018C),
      (''Trust relationship failure'', 0xC000018D), (''Trust failure'', 0xC0000190),
      (''Netlogon service not started'', 0xC0000192), (''Account expired'', 0xC0000193),
      (''Network credential conflict'', 0xC0000195), (''Remote session limit'', 0xC0000196),
      (''No logon interdomain trust account'', 0xC0000198), (''No logon workstation trust account'', 0xC0000199),
      (''No logon server trust account'', 0xC000019A), (''Domain trust inconsistent'', 0xC000019B),
      (''No user session key available'', 0xC0000202), (''User session deleted'', 0xC0000203),
      (''Insufficient server resources'', 0xC0000205), (''Insufficient logon information'', 0xC0000250),
      (''License quota exceeded'', 0xC0000259)]"

section \<open>The functions\<close>

definition NT_STATUS_IS_LDAP :: "u32 \<Rightarrow> bool" where
  "NT_STATUS_IS_LDAP status = (status AND 0xFF000000 = 0xF2000000)"

definition NT_STATUS_LDAP_CODE :: "u32 \<Rightarrow> u32" where
  "NT_STATUS_LDAP_CODE status = status AND NOT 0xFF000000"

fun find_code :: "u32 \<Rightarrow> nt_err_code_struct list \<Rightarrow> bytes option" where
  "find_code nt_code [] = None"
| "find_code nt_code ((s, c) # es) = (if c = nt_code then Some (ascii_str s) else find_code nt_code es)"

definition nt_errstr :: "u32 \<Rightarrow> bytes" where
  "nt_errstr nt_code =
     (case find_code nt_code nt_errs of
        Some s \<Rightarrow> s
      | None \<Rightarrow>
          if NT_STATUS_IS_LDAP nt_code then ascii_str ''LDAP code '' @ print_u (unat (NT_STATUS_LDAP_CODE nt_code))
          else ascii_str ''NT code 0x'' @ print_hex 8 (unat nt_code))"

text \<open>A message that is formatted fits into its buffer of 40 bytes.\<close>

lemma nt_errstr_fits:
  assumes "find_code s nt_errs = None"
  shows "length (nt_errstr s) < 40"
proof -
  have "unat (NT_STATUS_LDAP_CODE s) < 10 ^ 10" using unat_u32 [of "NT_STATUS_LDAP_CODE s"] by simp
  from length_print_u [OF this] show ?thesis
    using assms by (simp add: nt_errstr_def ascii_str_def)
qed

definition get_friendly_nt_error_msg :: "u32 \<Rightarrow> bytes" where
  "get_friendly_nt_error_msg nt_code =
     (case find_code nt_code nt_err_desc of Some s \<Rightarrow> s | None \<Rightarrow> nt_errstr nt_code)"

definition get_nt_error_c_code :: "u32 \<Rightarrow> bytes" where
  "get_nt_error_c_code nt_code =
     (case find_code nt_code nt_errs of
        Some s \<Rightarrow> s
      | None \<Rightarrow> ascii_str ''NT_STATUS(0x'' @ print_hex 8 (unat nt_code) @ ascii_str '')'')"

fun find_name :: "bytes \<Rightarrow> nt_err_code_struct list \<Rightarrow> u32" where
  "find_name str [] = NT_STATUS_UNSUCCESSFUL"
| "find_name str ((s, c) # es) = (if strcaseeq (ascii_str s) str then c else find_name str es)"

definition nt_status_string_to_code :: "bytes \<Rightarrow> u32" where
  "nt_status_string_to_code nt_status_str = find_name nt_status_str nt_errs"

end
