(* ===== verification/Wmi_Client.thy ===== *)
theory Wmi_Client
  imports Wbem_Enum Wmi_Reg Nterr
begin

text \<open>
  Queries and their text: \<open>src/wmi/wmicso.c\<close>, \<open>src/wmi/wmirsop.c\<close>, \<open>src/wmi/wmic.c\<close> and the command line of
  these programs. The server and the functions that \<open>pidl\<close> generates are parameters as in
  \<open>Wbem_Enum\<close>. A loop over batches that never ends is None. The options that the library popt has
  taken from the command line are gone: \<open>argv_new\<close> are the strings it left.
\<close>

section \<open>Values as text\<close>

definition print_d :: "int \<Rightarrow> bytes" where
  "print_d i = (if i < 0 then 0x2D # print_u (nat (- i)) else print_u (nat i))"

definition v_uint16 :: "CIMVAR \<Rightarrow> u16 res" where
  "v_uint16 v = chk (v_uint32 v) (\<lambda>x. Inr (ucast x))"

definition v_uint8 :: "CIMVAR \<Rightarrow> u8 res" where
  "v_uint8 v = chk (v_uint32 v) (\<lambda>x. Inr (ucast x))"

definition CIM_ARR_STRING :: u32 where "CIM_ARR_STRING = CIM_FLAG_ARRAY OR CIM_STRING"

text \<open>Of \<open>wmicso.c\<close>. An array without elements gives NULL, like the array NULL.\<close>

definition string_CIMVAR :: "CIMVAR \<Rightarrow> u32 \<Rightarrow> bytes option res" where
  "string_CIMVAR v cimtype =
     (if cimtype = CIM_SINT8 then chk (v_uint8 v) (\<lambda>x. Inr (Some (print_d (sint x))))
      else if cimtype = CIM_UINT8 then chk (v_uint8 v) (\<lambda>x. Inr (Some (print_u (unat x))))
      else if cimtype = CIM_SINT16 then chk (v_uint16 v) (\<lambda>x. Inr (Some (print_d (sint x))))
      else if cimtype = CIM_UINT16 then chk (v_uint16 v) (\<lambda>x. Inr (Some (print_u (unat x))))
      else if cimtype = CIM_SINT32 then chk (v_uint32 v) (\<lambda>x. Inr (Some (print_d (sint x))))
      else if cimtype = CIM_UINT32 then chk (v_uint32 v) (\<lambda>x. Inr (Some (print_u (unat x))))
      else if cimtype = CIM_SINT64 then chk (v_uint64 v) (\<lambda>x. Inr (Some (print_d (sint x))))
      else if cimtype = CIM_UINT64 then chk (v_uint64 v) (\<lambda>x. Inr (Some (print_u (unat x))))
      else if cimtype = CIM_BOOLEAN then
        chk (v_uint16 v) (\<lambda>x. Inr (Some (ascii_str (if x \<noteq> 0 then ''True'' else ''False''))))
      else if cimtype = CIM_STRING \<or> cimtype = CIM_DATETIME \<or> cimtype = CIM_REFERENCE then
        chk (v_string v) (\<lambda>s. Inr (Some (percent_s s)))
      else if cimtype = CIM_ARR_STRING then
        chk (a_string v) (\<lambda>a. case a of None \<Rightarrow> Inr None | Some xs \<Rightarrow> Inr (append_items None True xs))
      else Inr (Some (ascii_str ''Unsupported'')))"

section \<open>Queries of the library\<close>

definition WBEM_E_INVALID_CLASS :: u32 where "WBEM_E_INVALID_CLASS = 0x80041010"

definition newline :: bytes where "newline = [0x0A]"

text \<open>The values of a row, each behind a separator but the first.\<close>

fun append_values :: "(CIMVAR \<Rightarrow> u32 \<Rightarrow> bytes option res) \<Rightarrow> bytes \<Rightarrow> bytes option \<Rightarrow> bool \<Rightarrow> CIMVAR WbemProperty list \<Rightarrow> CIMVAR list \<Rightarrow> bytes option res" where
  "append_values str sep res first [] vs = Inr res"
| "append_values str sep res first (p # ps) [] = Inl Fault"
| "append_values str sep res first (p # ps) (v # vs) =
     chk (deref (p_desc p)) (\<lambda>d.
     chk (str v (pd_cimtype d AND CIM_TYPEMASK)) (\<lambda>s.
     append_values str sep (append_text res ((if first then [] else sep) @ percent_s s)) False ps vs))"

text \<open>A change of the name of the class; NULL compares as nothing while there is no name yet.\<close>

definition new_class :: "bytes option \<Rightarrow> wbem_class \<Rightarrow> bool res" where
  "new_class class_name c =
     (case class_name of None \<Rightarrow> Inr True | Some n \<Rightarrow> chk (deref (c_CLASS c)) (\<lambda>m. Inr (m \<noteq> n)))"

definition query_object :: "bytes option \<Rightarrow> bytes option \<Rightarrow> WbemClassObject \<Rightarrow> (bytes option \<times> bytes option) res" where
  "query_object class_name res co =
     chk (deref (obj_class co)) (\<lambda>c.
     chk (new_class class_name c) (\<lambda>new.
     let class_name = (if new then c_CLASS c else class_name);
         res = (if new then append_text (append_items (Some []) True (map p_name (c_properties c))) newline else res) in
     chk (if c_properties c = [] then Inr res
          else chk (deref (inst co)) (\<lambda>i. append_values string_CIMVAR [0x7C] res True (c_properties c) (i_data i))) (\<lambda>res.
     Inr (class_name, append_text res newline))))"

fun query_objects :: "bytes option \<Rightarrow> bytes option \<Rightarrow> WbemClassObject list \<Rightarrow> (bytes option \<times> bytes option) res" where
  "query_objects class_name res [] = Inr (class_name, res)"
| "query_objects class_name res (co # cos) =
     chk (query_object class_name res co) (\<lambda>(class_name, res). query_objects class_name res cos)"

text \<open>
  The message of an error is the name of the status alone: the text before it in the source is the
  left operand of a comma.
\<close>

definition query_error :: "u32 \<Rightarrow> 's \<Rightarrow> ((int \<times> bytes option) \<times> 's) res" where
  "query_error result st = chk (werror_to_ntstatus result) (\<lambda>status. Inr ((-1, Some (nt_errstr status)), st))"

partial_function (option) query_loop ::
  "wbem_pullers \<Rightarrow> 's enum_server \<Rightarrow> GUID \<Rightarrow> 's \<Rightarrow> IEnumWbemClassObject_data option \<Rightarrow> bytes option \<Rightarrow> bytes option \<Rightarrow>
   ((int \<times> bytes option) \<times> 's) res option" where
  "query_loop pl srv rnd st d class_name res =
     (case IEnumWbemClassObject_SmartNext pl srv rnd 5 st d 0xFFFFFFFF 5 of
        Inl e \<Rightarrow> Some (Inl e)
      | Inr ((result, co, ret, s), st) \<Rightarrow>
          if result \<noteq> WERR_BADFUNC \<and> result \<noteq> WBEM_E_INVALID_CLASS \<and> result \<noteq> WERR_OK then Some (query_error result st)
          else if ret = 0 then Some (Inr ((0, res), st))
          else if length co < unat ret then Some (Inl Fault)
          else case query_objects class_name res (take (unat ret) co) of
              Inl e \<Rightarrow> Some (Inl e)
            | Inr (class_name, res) \<Rightarrow>
                if ret = 5 then query_loop pl srv rnd st (Some s) class_name res else Some (Inr ((0, res), st)))"

definition wmi_query ::
  "wbem_pullers \<Rightarrow> 's enum_server \<Rightarrow> GUID \<Rightarrow> bool \<Rightarrow> 's \<Rightarrow> bytes \<Rightarrow> bytes option \<Rightarrow> ((int \<times> bytes option) \<times> 's) res option" where
  "wmi_query pl srv rnd opened st query res =
     (if \<not> opened then Some (Inr ((-1, res), st))
      else case srv_ExecQuery srv st query of (result, st) \<Rightarrow>
        if result \<noteq> WERR_OK then Some (query_error result st)
        else query_loop pl srv rnd (srv_Reset srv st) None None res)"

text \<open>The function of \<open>wmirsop.c\<close> has the same text.\<close>

definition wmi_query_rsop ::
  "wbem_pullers \<Rightarrow> 's enum_server \<Rightarrow> GUID \<Rightarrow> bool \<Rightarrow> 's \<Rightarrow> bytes \<Rightarrow> bytes option \<Rightarrow> ((int \<times> bytes option) \<times> 's) res option" where
  "wmi_query_rsop pl srv rnd opened st query res =
     (if \<not> opened then Some (Inr ((-1, res), st))
      else case srv_ExecQuery srv st query of (result, st) \<Rightarrow>
        if result \<noteq> WERR_OK then Some (query_error result st)
        else query_loop pl srv rnd (srv_Reset srv st) None None res)"

text \<open>A handle is NULL or has a context or not.\<close>

definition wmi_close :: "bool option \<Rightarrow> int \<times> bool option" where
  "wmi_close handle = (0, case handle of None \<Rightarrow> None | Some _ \<Rightarrow> Some False)"

definition wmi_versioninfo :: bytes where
  "wmi_versioninfo = ascii_str ''0.0.1''"

section \<open>The program wmic\<close>

text \<open>
  The program prints more types. \<open>print_f\<close> is \<open>%f\<close> of the C library for a number converted to double. An
  element of an array of 32 or 64 bits given to \<open>%f\<close> as it is has no defined meaning.
\<close>

definition array_text :: "('a \<Rightarrow> bytes res) \<Rightarrow> 'a list option res \<Rightarrow> bytes option res" where
  "array_text fmt arr = chk arr (\<lambda>a. case a of
       None \<Rightarrow> Inr (Some (ascii_str ''NULL''))
     | Some xs \<Rightarrow>
         chk (foldr (\<lambda>x r. chk (fmt x) (\<lambda>t. chk r (\<lambda>ts. Inr (t # ts)))) xs (Inr [])) (\<lambda>ts.
         Inr (Some ([0x28] @ concat (map (\<lambda>(i, t). t @ (if i + 1 = length ts then [] else [0x2C])) (enumerate 0 ts)) @ [0x29]))))"

definition wmic_string_CIMVAR :: "(nat \<Rightarrow> bytes) \<Rightarrow> CIMVAR \<Rightarrow> u32 \<Rightarrow> bytes option res" where
  "wmic_string_CIMVAR print_f v cimtype =
     (if cimtype = CIM_REAL32 then chk (v_uint32 v) (\<lambda>x. Inr (Some (print_f (unat x))))
      else if cimtype = CIM_REAL64 then chk (v_uint64 v) (\<lambda>x. Inr (Some (print_f (unat x))))
      else if cimtype = CIM_FLAG_ARRAY OR CIM_SINT8 then array_text (\<lambda>x. Inr (print_d (sint x))) (a_uint8 v)
      else if cimtype = CIM_FLAG_ARRAY OR CIM_UINT8 then array_text (\<lambda>x. Inr (print_u (unat x))) (a_uint8 v)
      else if cimtype = CIM_FLAG_ARRAY OR CIM_SINT16 then array_text (\<lambda>x. Inr (print_d (sint x))) (a_uint16 v)
      else if cimtype = CIM_FLAG_ARRAY OR CIM_UINT16 then array_text (\<lambda>x. Inr (print_u (unat x))) (a_uint16 v)
      else if cimtype = CIM_FLAG_ARRAY OR CIM_SINT32 then array_text (\<lambda>x. Inr (print_d (sint x))) (a_uint32 v)
      else if cimtype = CIM_FLAG_ARRAY OR CIM_UINT32 then array_text (\<lambda>x. Inr (print_u (unat x))) (a_uint32 v)
      else if cimtype = CIM_FLAG_ARRAY OR CIM_SINT64 then array_text (\<lambda>x. Inr (print_d (sint x))) (a_uint64 v)
      else if cimtype = CIM_FLAG_ARRAY OR CIM_UINT64 then array_text (\<lambda>x. Inr (print_u (unat x))) (a_uint64 v)
      else if cimtype = CIM_FLAG_ARRAY OR CIM_REAL32 then array_text (\<lambda>_. Inl Fault) (a_uint32 v)
      else if cimtype = CIM_FLAG_ARRAY OR CIM_REAL64 then array_text (\<lambda>_. Inl Fault) (a_uint64 v)
      else if cimtype = CIM_FLAG_ARRAY OR CIM_BOOLEAN then array_text (\<lambda>x. Inr (print_u (unat x))) (a_uint16 v)
      else if cimtype = CIM_ARR_STRING \<or> cimtype = CIM_FLAG_ARRAY OR CIM_DATETIME \<or> cimtype = CIM_FLAG_ARRAY OR CIM_REFERENCE
        then array_text (\<lambda>x. Inr (percent_s x)) (a_string v)
      else string_CIMVAR v cimtype)"

fun join_names :: "bytes \<Rightarrow> bool \<Rightarrow> bytes option list \<Rightarrow> bytes" where
  "join_names delim first [] = []"
| "join_names delim first (x # xs) = (if first then [] else delim) @ percent_s x @ join_names delim False xs"

text \<open>The output of \<open>main\<close> is collected; the name of a new class is printed before its properties.\<close>

definition wmic_object :: "(nat \<Rightarrow> bytes) \<Rightarrow> bytes \<Rightarrow> bytes option \<Rightarrow> bytes \<Rightarrow> WbemClassObject \<Rightarrow> (bytes option \<times> bytes) res" where
  "wmic_object print_f delim class_name out co =
     chk (deref (obj_class co)) (\<lambda>c.
     chk (new_class class_name c) (\<lambda>new.
     let class_name = (if new then c_CLASS c else class_name);
         out = (if new then out @ ascii_str ''CLASS: '' @ percent_s class_name @ newline @
                   join_names delim True (map p_name (c_properties c)) @ newline else out) in
     chk (if c_properties c = [] then Inr (Some out)
          else chk (deref (inst co)) (\<lambda>i. append_values (wmic_string_CIMVAR print_f) delim (Some out) True (c_properties c) (i_data i))) (\<lambda>res.
     Inr (class_name, the res @ newline))))"

fun wmic_objects :: "(nat \<Rightarrow> bytes) \<Rightarrow> bytes \<Rightarrow> bytes option \<Rightarrow> bytes \<Rightarrow> WbemClassObject list \<Rightarrow> (bytes option \<times> bytes) res" where
  "wmic_objects print_f delim class_name out [] = Inr (class_name, out)"
| "wmic_objects print_f delim class_name out (co # cos) =
     chk (wmic_object print_f delim class_name out co) (\<lambda>(class_name, out). wmic_objects print_f delim class_name out cos)"

partial_function (option) wmic_loop ::
  "wbem_pullers \<Rightarrow> 's enum_server \<Rightarrow> GUID \<Rightarrow> (nat \<Rightarrow> bytes) \<Rightarrow> bytes \<Rightarrow> 's \<Rightarrow> IEnumWbemClassObject_data option \<Rightarrow> bytes option \<Rightarrow> bytes \<Rightarrow>
   ((int \<times> bytes) \<times> 's) res option" where
  "wmic_loop pl srv rnd print_f delim st d class_name out =
     (case IEnumWbemClassObject_SmartNext pl srv rnd 5 st d 0xFFFFFFFF 5 of
        Inl e \<Rightarrow> Some (Inl e)
      | Inr ((result, co, ret, s), st) \<Rightarrow>
          if result \<noteq> WERR_BADFUNC \<and> result \<noteq> WERR_OK then Some (Inr ((1, out), st))
          else if ret = 0 then Some (Inr ((0, out), st))
          else if length co < unat ret then Some (Inl Fault)
          else case wmic_objects print_f delim class_name out (take (unat ret) co) of
              Inl e \<Rightarrow> Some (Inl e)
            | Inr (class_name, out) \<Rightarrow>
                if ret = 5 then wmic_loop pl srv rnd print_f delim st (Some s) class_name out else Some (Inr ((0, out), st)))"

text \<open>\<open>main\<close> from the connection on, for the delimiter of the command line.\<close>

definition wmic_main ::
  "wbem_pullers \<Rightarrow> 's enum_server \<Rightarrow> GUID \<Rightarrow> (nat \<Rightarrow> bytes) \<Rightarrow> bytes option \<Rightarrow> 's \<Rightarrow> bytes \<Rightarrow> ((int \<times> bytes) \<times> 's) res option" where
  "wmic_main pl srv rnd print_f delim st query =
     (case srv_ExecQuery srv st query of (result, st) \<Rightarrow>
        if result \<noteq> WERR_OK then Some (Inr ((1, []), st))
        else wmic_loop pl srv rnd print_f (case delim of None \<Rightarrow> [0x7C] | Some s \<Rightarrow> s) (srv_Reset srv st) None None [])"

section \<open>The command line\<close>

text \<open>Heap blocks of \<open>progr_args_t\<close>, with all their bytes; \<open>c_str\<close> reads one as a string.\<close>

record progr_args_t =
  hostname :: "bytes option"
  arg_query :: "bytes option"
  arg_delim :: "bytes option"
  arg_ns :: "bytes option"

definition init_program_args :: progr_args_t where
  "init_program_args = \<lparr>hostname = None, arg_query = None, arg_delim = None, arg_ns = None\<rparr>"

definition c_str :: "bytes \<Rightarrow> bytes res" where
  "c_str blk = (if 0 \<in> set blk then Inr (takeWhile (\<lambda>b. b \<noteq> 0) blk) else Inl Fault)"

definition host_ok :: "bytes \<Rightarrow> bool" where
  "host_ok arg = (take 2 arg = [0x2F, 0x2F])"

text \<open>Of \<open>wmicso.c\<close>; None stands for the return of 1. The blocks have no room for the terminating zero.\<close>

definition parse_args :: "bytes list \<Rightarrow> progr_args_t \<Rightarrow> progr_args_t option" where
  "parse_args argv_new myargs =
     (if length argv_new \<noteq> 3 \<or> \<not> host_ok (argv_new ! 1) then None
      else Some (myargs\<lparr>hostname := Some (drop 2 (argv_new ! 1)), arg_ns := Some (argv_new ! 2)\<rparr>))"

text \<open>Of \<open>wmirsop.c\<close>.\<close>

definition rsop_parse_args :: "bytes list \<Rightarrow> progr_args_t \<Rightarrow> progr_args_t option" where
  "rsop_parse_args argv_new myargs =
     (if length argv_new \<noteq> 2 \<or> \<not> host_ok (argv_new ! 1) then None
      else Some (myargs\<lparr>hostname := Some (drop 2 (argv_new ! 1))\<rparr>))"

text \<open>Of \<open>wmic.c\<close>, with the options namespace and delimiter. The options are copied with their zero.\<close>

definition wmic_parse_args :: "bytes option \<Rightarrow> bytes option \<Rightarrow> bytes list \<Rightarrow> progr_args_t \<Rightarrow> progr_args_t option" where
  "wmic_parse_args ns delim argv_new myargs =
     (if length argv_new \<noteq> 3 \<or> \<not> host_ok (argv_new ! 1) then None
      else Some (myargs\<lparr>hostname := Some (drop 2 (argv_new ! 1)), arg_query := Some (argv_new ! 2),
        arg_ns := (case ns of None \<Rightarrow> arg_ns myargs | Some s \<Rightarrow> Some (s @ [0])),
        arg_delim := (case delim of None \<Rightarrow> arg_delim myargs | Some s \<Rightarrow> Some (s @ [0]))\<rparr>))"

text \<open>
  \<open>wmi_connect\<close> and \<open>wmi_connect_rsop\<close>. \<open>connect\<close> is \<open>WBEM_ConnectServer\<close> with the name of the host and of the
  namespace; the result is the handle. The second one makes a session and connects again.
\<close>

definition wmi_connect :: "(bytes \<Rightarrow> bytes \<Rightarrow> u32 \<times> 'h option) \<Rightarrow> bytes list \<Rightarrow> 'h option res" where
  "wmi_connect connect argv_new =
     (case parse_args argv_new init_program_args of
        None \<Rightarrow> Inr None
      | Some args \<Rightarrow>
          chk (deref (hostname args)) (\<lambda>h. chk (c_str h) (\<lambda>h.
          chk (deref (arg_ns args)) (\<lambda>n. chk (c_str n) (\<lambda>n.
          case connect h n of (result, pWS) \<Rightarrow> Inr (if result = WERR_OK then pWS else None))))))"

text \<open>\<open>wmi_connect_rsop\<close> after the first connection: the name of the namespace is taken from the variable \<open>v\<close>.\<close>

definition rsop_namespace :: "nat \<Rightarrow> 's wmi_services \<Rightarrow> 's \<Rightarrow> (bytes option \<times> 's) res" where
  "rsop_namespace psz srv st =
     chk (call_method psz srv st (ascii_str ''RsopLoggingModeProvider'') (ascii_str ''RsopCreateSession'')
            [(ascii_str ''flags'', \<lambda>v. set_v_uint32 v 4)]) (\<lambda>(r, st). case r of
         None \<Rightarrow> Inr (None, st)
       | Some (v, out) \<Rightarrow> chk (v_string v) (\<lambda>s. Inr (append_text s (0x5C # ascii_str ''computer''), st)))"

end
