(* ===== verification/Wmi_Client_Props.thy ===== *)
theory Wmi_Client_Props
  imports Wmi_Client Wbem_Enum_Props Wbem_Props
begin

text \<open>
  The text of a query. What the caller gets depends only on the sequence of the objects and not on how the
  server cuts it into batches: the names of the properties of the last class and one row for every
  object behind the last change of class. Typed objects are printed without a fault.
\<close>

section \<open>Texts of typed objects\<close>

definition is_ok :: "'a res \<Rightarrow> bool" where "is_ok r \<longleftrightarrow> (\<exists>a. r = Inr a)"

lemma is_ok_if: "(b \<Longrightarrow> is_ok x) \<Longrightarrow> (\<not> b \<Longrightarrow> is_ok y) \<Longrightarrow> is_ok (if b then x else y)"
  by simp

lemma is_ok_chk: "is_ok m \<Longrightarrow> (\<And>a. is_ok (f a)) \<Longrightarrow> is_ok (chk m f)"
  by (auto simp: is_ok_def)

lemma is_ok_Inr [simp]: "is_ok (Inr a)"
  by (simp add: is_ok_def)

lemma scalar_ok:
  assumes "var_ok t v" "cim_kind_of t = K_scalar"
  shows "is_ok (v_uint32 v)" "\<not> cim_short t \<Longrightarrow> is_ok (v_uint64 v)"
  using assms by (cases v; simp add: is_ok_def cim_defs; auto simp: cim_kind_of_def cim_defs)+

lemma arr_object_kind: "cim_kind_of (CIM_FLAG_ARRAY OR CIM_OBJECT) = K_other"
  by (simp add: cim_kind_of_def cim_defs)

lemma text_ok: "var_ok t v \<Longrightarrow> cim_kind_of t = K_text \<Longrightarrow> is_ok (v_string v)"
  by (cases v) (auto simp: is_ok_def short_scalar arr_object_kind)

lemma arr_text_ok: "var_ok t v \<Longrightarrow> cim_kind_of t = K_arr_text \<Longrightarrow> is_ok (a_string v)"
  by (cases v) (auto simp: is_ok_def short_scalar arr_object_kind)

lemma string_CIMVAR_ok:
  assumes "var_ok t v"
  shows "is_ok (string_CIMVAR v t)"
proof -
  have k: "t \<in> {CIM_SINT8, CIM_UINT8, CIM_SINT16, CIM_UINT16, CIM_SINT32, CIM_UINT32, CIM_BOOLEAN} \<Longrightarrow> is_ok (v_uint32 v)"
    "t \<in> {CIM_SINT64, CIM_UINT64} \<Longrightarrow> is_ok (v_uint64 v)"
    "t \<in> {CIM_STRING, CIM_DATETIME, CIM_REFERENCE} \<Longrightarrow> is_ok (v_string v)"
    "t = CIM_ARR_STRING \<Longrightarrow> is_ok (a_string v)"
    by (auto intro!: scalar_ok [OF assms] text_ok [OF assms] arr_text_ok [OF assms] simp: cim_kind_of_def cim_short_def CIM_ARR_STRING_def cim_defs)
  show ?thesis
    unfolding string_CIMVAR_def v_uint8_def v_uint16_def
    by (intro is_ok_if is_ok_chk) (auto intro!: k split: option.split)
qed

definition value_text :: "u32 \<Rightarrow> CIMVAR \<Rightarrow> bytes" where
  "value_text t v = (case string_CIMVAR v t of Inr s \<Rightarrow> percent_s s | Inl e \<Rightarrow> [])"

fun joined :: "bytes \<Rightarrow> bool \<Rightarrow> bytes list \<Rightarrow> bytes" where
  "joined sep first [] = []"
| "joined sep first (t # ts) = (if first then [] else sep) @ t @ joined sep False ts"

definition printable :: "WbemClassObject \<Rightarrow> bool" where
  "printable co \<longleftrightarrow> object_ok co \<and> c_CLASS (the (obj_class co)) \<noteq> None"

definition class_of :: "WbemClassObject \<Rightarrow> bytes" where
  "class_of co = the (c_CLASS (the (obj_class co)))"

definition head_line :: "WbemClassObject \<Rightarrow> bytes" where
  "head_line co = joined [0x7C] True (map percent_s (map p_name (c_properties (the (obj_class co))))) @ newline"

definition row_line :: "WbemClassObject \<Rightarrow> bytes" where
  "row_line co = joined [0x7C] True
     (map2 (\<lambda>t v. value_text (t AND CIM_TYPEMASK) v) (prop_types (the (obj_class co))) (i_data (the (inst co)))) @ newline"

lemma append_items_joined: "append_items (Some r) first xs = Some (r @ joined [0x7C] first (map percent_s xs))"
  by (induction xs arbitrary: r first) (simp_all add: append_text_def)

lemma append_values_joined:
  assumes "list_all (\<lambda>p. p_name p \<noteq> None \<and> p_desc p \<noteq> None) ps"
    and "list_all2 (\<lambda>t v. var_ok (t AND CIM_TYPEMASK) v) (map (pd_cimtype \<circ> the \<circ> p_desc) ps) vs"
  shows "append_values string_CIMVAR sep (Some r) first ps vs =
    Inr (Some (r @ joined sep first (map2 (\<lambda>t v. value_text (t AND CIM_TYPEMASK) v) (map (pd_cimtype \<circ> the \<circ> p_desc) ps) vs)))"
  using assms
proof (induction ps arbitrary: r first vs)
  case Nil
  then show ?case by simp
next
  case (Cons p ps)
  then obtain v vs' d where v: "vs = v # vs'" "p_desc p = Some d" "var_ok (pd_cimtype d AND CIM_TYPEMASK) v"
    by (auto simp: list_all2_Cons1)
  then obtain s where s: "string_CIMVAR v (pd_cimtype d AND CIM_TYPEMASK) = Inr s"
    using string_CIMVAR_ok by (auto simp: is_ok_def)
  show ?case
    using Cons v s by (simp add: deref_def append_text_def value_text_def)
qed

lemma query_object_text:
  assumes "printable co" and "cn = None \<or> (\<exists>n r. cn = Some n \<and> res = Some r)"
  shows "query_object cn res co = Inr (Some (class_of co),
    Some ((if cn = Some (class_of co) then the res else head_line co) @ row_line co))"
proof -
  from assms(1) obtain c i n where o: "obj_class co = Some c" "inst co = Some i" "c_CLASS c = Some n" "instance_ok c i"
    by (auto simp: printable_def object_ok_def split: option.splits)
  have v: "append_values string_CIMVAR sep (Some r) first (c_properties c) (i_data i) =
      Inr (Some (r @ joined sep first (map2 (\<lambda>t v. value_text (t AND CIM_TYPEMASK) v) (prop_types c) (i_data i))))" for sep r first
    using o(4) append_values_joined [of "c_properties c" "i_data i"] by (simp add: instance_ok_def class_ok_def prop_types_def)
  have e: "c_properties c = [] \<Longrightarrow> prop_types c = []" by (simp add: prop_types_def)
  show ?thesis
    using o assms(2) e
    by (auto simp: query_object_def new_class_def Let_def append_items_joined append_text_def v class_of_def head_line_def
        row_line_def deref_def split: option.splits)
qed

section \<open>The text of a sequence of objects\<close>

definition last_run :: "WbemClassObject list \<Rightarrow> WbemClassObject list" where
  "last_run cos = rev (takeWhile (\<lambda>co. class_of co = class_of (last cos)) (rev cos))"

definition query_text :: "WbemClassObject list \<Rightarrow> bytes" where
  "query_text cos = head_line (hd (last_run cos)) @ concat (map row_line (last_run cos))"

lemma last_run_snoc:
  "cos \<noteq> [] \<Longrightarrow> last_run (cos @ [co]) = (if class_of (last cos) = class_of co then last_run cos @ [co] else [co])"
  by (cases cos rule: rev_cases) (auto simp: last_run_def)

lemma last_run_not_Nil: "cos \<noteq> [] \<Longrightarrow> last_run cos \<noteq> []"
  by (cases cos rule: rev_cases) (auto simp: last_run_def)

lemma query_text_one: "query_text [co] = head_line co @ row_line co"
  by (simp add: query_text_def last_run_def)

lemma query_text_snoc:
  "cos \<noteq> [] \<Longrightarrow> query_text (cos @ [co]) =
     (if class_of (last cos) = class_of co then query_text cos else head_line co) @ row_line co"
  using last_run_not_Nil [of cos] by (simp add: query_text_def last_run_snoc)

lemma query_objects_append:
  "query_objects cn res (xs @ ys) = chk (query_objects cn res xs) (\<lambda>(cn, res). query_objects cn res ys)"
  by (induction xs arbitrary: cn res) (simp_all add: chk_assoc case_prod_unfold)

lemma query_objects_text:
  "cos \<noteq> [] \<Longrightarrow> list_all printable cos \<Longrightarrow>
   query_objects None res cos = Inr (Some (class_of (last cos)), Some (query_text cos))"
proof (induction cos rule: rev_induct)
  case Nil
  then show ?case by simp
next
  case (snoc co cos)
  show ?case
  proof (cases "cos = []")
    case True
    then show ?thesis using snoc.prems by (simp add: query_object_text query_text_one)
  next
    case False
    then show ?thesis
      using snoc by (simp add: query_objects_append query_object_text query_text_snoc)
  qed
qed

section \<open>Queries\<close>

text \<open>
  An enumeration against a server: the objects of its batches, the error that ended it, if any, and the
  last state of the server.
\<close>

inductive enum_run ::
  "wbem_pullers \<Rightarrow> 's enum_server \<Rightarrow> GUID \<Rightarrow> 's \<Rightarrow> IEnumWbemClassObject_data option \<Rightarrow> WbemClassObject list \<Rightarrow> u32 option \<Rightarrow> 's \<Rightarrow> bool"
  for pl srv rnd where
  run_last: "IEnumWbemClassObject_SmartNext pl srv rnd 5 st d 0xFFFFFFFF 5 = Inr ((result, cos, ret, s), st') \<Longrightarrow>
     result \<in> {WERR_OK, WERR_BADFUNC, WBEM_E_INVALID_CLASS} \<Longrightarrow> ret \<noteq> 5 \<Longrightarrow>
     enum_run pl srv rnd st d cos None st'"
| run_more: "IEnumWbemClassObject_SmartNext pl srv rnd 5 st d 0xFFFFFFFF 5 = Inr ((result, cos, 5, s), st') \<Longrightarrow>
     result \<in> {WERR_OK, WERR_BADFUNC, WBEM_E_INVALID_CLASS} \<Longrightarrow>
     enum_run pl srv rnd st' (Some s) rest err st'' \<Longrightarrow>
     enum_run pl srv rnd st d (cos @ rest) err st''"
| run_error: "IEnumWbemClassObject_SmartNext pl srv rnd 5 st d 0xFFFFFFFF 5 = Inr ((result, cos, ret, s), st') \<Longrightarrow>
     result \<notin> {WERR_OK, WERR_BADFUNC, WBEM_E_INVALID_CLASS} \<Longrightarrow>
     enum_run pl srv rnd st d [] (Some result) st'"

lemma on_status_Inr:
  "on_status m h f = Inr r \<longleftrightarrow> (\<exists>s. m = Inl (Status s) \<and> r = h s) \<or> (\<exists>a. m = Inr a \<and> f a = Inr r)"
  by (auto simp: on_status_def split: sum.splits c_error.splits)

lemma items_length:
  "wbemdata_items pl cap n q objs cache = Inr (None, objs', cache') \<Longrightarrow> length objs' = length objs + n"
  by (induction n arbitrary: q objs cache) (auto simp: on_status_Inr split: if_splits)

lemma SmartNext_length:
  assumes "IEnumWbemClassObject_SmartNext pl srv rnd cap st d t n = Inr ((result, cos, ret, s), st')"
  shows "length cos = unat ret"
proof -
  from assms obtain status s0 where
    "IEnumWbemClassObject_SmartNext_recv pl cap status s0 = Inr (result, cos, ret, s)"
    by (auto simp: IEnumWbemClassObject_SmartNext_def chk_eq_Inr)
  then show ?thesis
    by (auto simp: IEnumWbemClassObject_SmartNext_recv_def WBEMDATA_Parse_def chk_eq_Inr on_status_Inr Let_def
        dest!: items_length split: if_splits option.splits)
qed

lemma query_loop_run:
  "enum_run pl srv rnd st d cos err st' \<Longrightarrow>
   query_loop pl srv rnd st d cn res = Some (chk (query_objects cn res cos) (\<lambda>(cn, res).
     case err of None \<Rightarrow> Inr ((0, res), st') | Some r \<Rightarrow> query_error r st'))"
proof (induction arbitrary: cn res rule: enum_run.induct)
  case (run_last st d result cos ret s st')
  then show ?case
    using SmartNext_length [OF run_last(1)] by (subst query_loop.simps) (auto simp: unat_eq_zero split: sum.splits)
next
  case (run_more st d result cos s st' rest err st'')
  then show ?case
    using SmartNext_length [OF run_more(1)] by (subst query_loop.simps) (auto simp: query_objects_append split: sum.splits)
next
  case (run_error st d result cos ret s st')
  then show ?case
    by (subst query_loop.simps) auto
qed

lemma query_error_text:
  assumes "r \<noteq> WERR_OK"
  shows "\<exists>status. werror_to_ntstatus r = Inr status \<and> query_error r st = Inr ((-1, Some (nt_errstr status)), st)"
  using assms werror_to_ntstatus_eq [of r] by (simp add: query_error_def WERR_OK_def)

lemma SmartNext_first:
  assumes "srv_QueryInterface srv st = (0, st1)" "srv_Fetch srv st1 = (0, st2)"
    and "srv_Next srv st2 rnd t n = ((result, word_of_nat (length its), word_of_nat (length (batch minor its)), Some (batch minor its)), st3)"
    and "result \<in> {0, 1, 0x40004}" "guid_reader (pull_GUID pl)" "list_all (readable pl) its" "its \<noteq> []" "minor \<le> 1"
    and "length (batch minor its) < 2 ^ 31" "length its \<le> cap"
  shows "\<exists>s. IEnumWbemClassObject_SmartNext pl srv rnd cap st None t n =
    Inr ((WERR_OK, fst (resolve [] its), word_of_nat (length its), s), st3)"
  using assms Parse_batch [OF assms(5-9), of cap "[]"]
  by (auto simp: IEnumWbemClassObject_SmartNext_def IEnumWbemClassObject_SmartNext_send_def smart_next_query_interface_continue_def
      smart_next_fetch_enum_continue_def smart_next_request_def smart_next_enum_continue_def NT_STATUS_IS_OK_def NT_STATUS_OK_def
      WERR_OK_def WBEM_NO_ERROR_def WBEM_S_FALSE_def WBEM_S_TIMEDOUT_def IEnumWbemClassObject_SmartNext_recv_def ntstatus_to_werror_def
      Let_def split: prod.splits)


text \<open>A server that answers from a list.\<close>

type_synonym answers = "(u32 \<times> u32 \<times> u32 \<times> bytes option) list"

definition list_server :: "answers enum_server" where
  "list_server = \<lparr>srv_ExecQuery = \<lambda>st q. (0, st), srv_Reset = \<lambda>st. st, srv_QueryInterface = \<lambda>st. (0, st),
     srv_Fetch = \<lambda>st. (0, st), srv_Next = \<lambda>st g t n. (hd st, tl st)\<rparr>"

lemma tiny_printable: "printable (tiny_object (Some tiny_class) u)"
  by (simp add: printable_def object_ok_def tiny_object_def tiny_class_def instance_ok_def class_ok_def prop_types_def
      cim_kind_of_def cim_defs)


section \<open>What goes wrong\<close>

text \<open>The rows of earlier classes are lost, and the text of an error replaces all rows.\<close>

lemma earlier_class_lost:
  assumes "list_all printable (cos @ [co])" and "cos \<noteq> []" and "class_of (last cos) \<noteq> class_of co"
  shows "query_objects None res (cos @ [co]) = Inr (Some (class_of co), Some (head_line co @ row_line co))"
  using query_objects_text [of "cos @ [co]" res] assms by (simp add: query_text_snoc)

text \<open>
  An object without its class, which the parser makes of an instance with an unknown GUID, and an object
  without an instance are followed through NULL.
\<close>

lemma missing_class_faults: "obj_class co = None \<Longrightarrow> query_object cn res co = Inl Fault"
  by (simp add: query_object_def deref_def)

lemma missing_instance_faults:
  "obj_class co = Some c \<Longrightarrow> inst co = None \<Longrightarrow> c_properties c \<noteq> [] \<Longrightarrow> query_object None res co = Inl Fault"
  by (simp add: query_object_def deref_def new_class_def Let_def)

text \<open>The strings of the command line are stored without their zero, so every connection reads behind the block.\<close>

lemma connect_reads_behind:
  assumes "0 \<notin> set host" and "take 2 host = [0x2F, 0x2F]"
  shows "wmi_connect connect [prog, host, ns] = Inl Fault"
  using assms by (auto simp: wmi_connect_def parse_args_def host_ok_def c_str_def deref_def init_program_args_def dest: in_set_dropD)

text \<open>The session of \<open>wmi_connect_rsop\<close> uses the number 4 it sent as the address of a string.\<close>

lemma call_method_var:
  "call_method psz srv st cls method [(name, assign)] = Inr (Some (v, out), st') \<Longrightarrow> v = assign CV_undef"
  by (auto simp: call_method_def chk_eq_Inr case_prod_unfold split: if_splits option.splits)

lemma rsop_namespace_fails: "rsop_namespace psz srv st \<noteq> Inr (Some ns, st')"
  by (auto simp: rsop_namespace_def chk_eq_Inr split: option.splits dest!: call_method_var)

end
