(* ===== verification/Spnego.thy ===== *)
theory Spnego
  imports Asn1_Values
begin

text \<open>
  The tokens of SPNEGO, \<open>auth/gensec/spnego_parse.c\<close>, on top of the ASN.1 reader and writer. A blob is
  None for the NULL pointer. The results of the ASN.1 calls are ignored by this code; only the error flag
  of the context counts, so \<open>start_tag\<close>, \<open>end_tag\<close>, \<open>push_tag\<close> and \<open>pop_tag\<close> here are the calls with their result
  dropped. The token after a failed read is not modelled. \<open>junk\<close> is the content of an
  uninitialised byte in \<open>asn1_read_OID\<close>. The pointer of a mechanism is uninitialised memory until
  \<open>asn1_read_OID\<close> stores it, which it does only behind the right tag; following it earlier is \<open>Fault\<close>.
\<close>

section \<open>Tokens\<close>

definition ASN1_APPLICATION :: "u8 \<Rightarrow> u8" where "ASN1_APPLICATION x = x + 0x60"
definition ASN1_SEQUENCE :: "u8 \<Rightarrow> u8" where "ASN1_SEQUENCE x = x + 0x30"
definition ASN1_CONTEXT :: "u8 \<Rightarrow> u8" where "ASN1_CONTEXT x = x + 0xa0"

definition SPNEGO_REQ_FLAG :: u32 where "SPNEGO_REQ_FLAG = 0x80"
definition SPNEGO_ACCEPT_COMPLETED :: u8 where "SPNEGO_ACCEPT_COMPLETED = 0"
definition SPNEGO_NONE_RESULT :: u8 where "SPNEGO_NONE_RESULT = 3"
definition SPNEGO_NEG_TOKEN_INIT :: int where "SPNEGO_NEG_TOKEN_INIT = 0"
definition SPNEGO_NEG_TOKEN_TARG :: int where "SPNEGO_NEG_TOKEN_TARG = 1"

definition GENSEC_OID_SPNEGO :: bytes where "GENSEC_OID_SPNEGO = ascii_str ''1 3 6 1 5 5 2''"

record spnego_negTokenInit =
  mechTypes :: "bytes list option"
  reqFlags :: u32
  mechToken :: "bytes option"
  mechListMIC :: "bytes option"
  targetPrincipal :: "bytes option"

record spnego_negTokenTarg =
  negResult :: u8
  supportedMech :: "bytes option"
  responseToken :: "bytes option"
  targ_mechListMIC :: "bytes option"

record spnego_data =
  spnego_type :: int
  negTokenInit :: spnego_negTokenInit
  negTokenTarg :: spnego_negTokenTarg

definition zero_negTokenInit :: spnego_negTokenInit where
  "zero_negTokenInit = \<lparr>mechTypes = None, reqFlags = 0, mechToken = None, mechListMIC = None, targetPrincipal = None\<rparr>"

definition zero_negTokenTarg :: spnego_negTokenTarg where
  "zero_negTokenTarg = \<lparr>negResult = 0, supportedMech = None, responseToken = None, targ_mechListMIC = None\<rparr>"

section \<open>Calls whose result is ignored\<close>

definition start_tag :: "u8 \<Rightarrow> asn1_data \<Rightarrow> asn1_data res" where
  "start_tag tag d = chk (asn1_start_tag d tag) (\<lambda>(_, d). Inr d)"

definition end_tag :: "asn1_data \<Rightarrow> asn1_data" where
  "end_tag d = snd (asn1_end_tag d)"

definition push_tag :: "u8 \<Rightarrow> asn1_data \<Rightarrow> asn1_data res" where
  "push_tag tag d = chk (asn1_push_tag d tag) (\<lambda>(_, d). Inr d)"

definition pop_tag :: "asn1_data \<Rightarrow> asn1_data res" where
  "pop_tag d = chk (asn1_pop_tag d) (\<lambda>(_, d). Inr d)"

text \<open>A body between \<open>push_tag\<close> and \<open>pop_tag\<close>, a body between \<open>start_tag\<close> and \<open>end_tag\<close>.\<close>

definition put_tag :: "u8 \<Rightarrow> (asn1_data \<Rightarrow> asn1_data res) \<Rightarrow> asn1_data \<Rightarrow> asn1_data res" where
  "put_tag tag body d = chk (push_tag tag d) (\<lambda>d. chk (body d) pop_tag)"

definition take_tag :: "u8 \<Rightarrow> (asn1_data \<Rightarrow> 'a asn1_res) \<Rightarrow> asn1_data \<Rightarrow> 'a asn1_res" where
  "take_tag tag body d = chk (start_tag tag d) (\<lambda>d. chk (body d) (\<lambda>(a, d). Inr (a, end_tag d)))"

definition read_blob :: "asn1_data \<Rightarrow> bytes option asn1_res" where
  "read_blob d = chk (asn1_read_OctetString d) (\<lambda>((p, ok), d). Inr (if ok then Some p else None, d))"

text \<open>None: the pointer of the caller was not changed.\<close>

definition read_OID :: "u8 \<Rightarrow> asn1_data \<Rightarrow> bytes option asn1_res" where
  "read_OID junk d =
     chk (asn1_start_tag d ASN1_OID) (\<lambda>(started, _).
     chk (asn1_read_OID junk d) (\<lambda>((oid, _), d). Inr (if started then Some oid else None, d)))"

section \<open>Reading\<close>

text \<open>The loops end when the error flag is set or the tag is used up; a loop that does not end is None.\<close>

partial_function (option) read_mechTypes :: "u8 \<Rightarrow> asn1_data \<Rightarrow> bytes list \<Rightarrow> bytes list asn1_res option" where
  "read_mechTypes junk d ms =
     (if asn1_has_error d then Some (Inr (ms, d))
      else case asn1_tag_remaining d of (r, d) \<Rightarrow>
        if r \<le> 0 then Some (Inr (ms, d))
        else case read_OID junk d of
            Inl e \<Rightarrow> Some (Inl e)
          | Inr (None, d) \<Rightarrow> Some (Inl Fault)
          | Inr (Some m, d) \<Rightarrow> read_mechTypes junk d (ms @ [m]))"

definition then_opt :: "'a res option \<Rightarrow> ('a \<Rightarrow> 'b res) \<Rightarrow> 'b res option" where
  "then_opt m f = map_option (\<lambda>r. chk r f) m"

text \<open>
  One element of the token. Behind \<open>ASN1_CONTEXT(3)\<close> the reader handles the form of Windows 2000 with the calls
  for writing: they store the tags into the copy of the input.
\<close>

definition read_principal :: "asn1_data \<Rightarrow> bytes asn1_res" where
  "read_principal d =
     chk (push_tag (ASN1_SEQUENCE 0) d) (\<lambda>d.
     chk (push_tag (ASN1_CONTEXT 0) d) (\<lambda>d.
     chk (asn1_read_GeneralString d) (\<lambda>((s, _), d).
     chk (pop_tag d) (\<lambda>d.
     chk (pop_tag d) (\<lambda>d. Inr (s, d))))))"

definition read_init_field :: "u8 \<Rightarrow> u8 \<Rightarrow> spnego_negTokenInit \<Rightarrow> asn1_data \<Rightarrow> spnego_negTokenInit asn1_res option" where
  "read_init_field junk context token d =
     (if context = ASN1_CONTEXT 0 then
        (case chk (start_tag (ASN1_CONTEXT 0) d) (start_tag (ASN1_SEQUENCE 0)) of
           Inl e \<Rightarrow> Some (Inl e)
         | Inr d \<Rightarrow>
             then_opt (read_mechTypes junk d []) (\<lambda>(ms, d). Inr (token\<lparr>mechTypes := Some ms\<rparr>, end_tag (end_tag d))))
      else if context = ASN1_CONTEXT 1 then
        Some (take_tag (ASN1_CONTEXT 1) (\<lambda>d.
          chk (asn1_read_Integer d) (\<lambda>((i, _), d). Inr (token\<lparr>reqFlags := i OR SPNEGO_REQ_FLAG\<rparr>, d))) d)
      else if context = ASN1_CONTEXT 2 then
        Some (take_tag (ASN1_CONTEXT 2) (\<lambda>d. chk (read_blob d) (\<lambda>(b, d). Inr (token\<lparr>mechToken := b\<rparr>, d))) d)
      else if context = ASN1_CONTEXT 3 then
        Some (chk (start_tag (ASN1_CONTEXT 3) d) (\<lambda>d.
          chk (asn1_peek_uint8 d) (\<lambda>(peek, d). case peek of
              None \<Rightarrow> Inr (token, set_error d)
            | Some type_peek \<Rightarrow>
                if type_peek = ASN1_OCTET_STRING
                then chk (read_blob d) (\<lambda>(b, d). Inr (token\<lparr>mechListMIC := b\<rparr>, end_tag d))
                else chk (read_principal d) (\<lambda>(s, d). Inr (token\<lparr>targetPrincipal := Some s\<rparr>, end_tag d)))))
      else Some (Inr (token, set_error d)))"

partial_function (option) read_init_loop ::
  "u8 \<Rightarrow> spnego_negTokenInit \<Rightarrow> asn1_data \<Rightarrow> spnego_negTokenInit asn1_res option" where
  "read_init_loop junk token d =
     (if asn1_has_error d then Some (Inr (token, d))
      else case asn1_tag_remaining d of (r, d) \<Rightarrow>
        if r \<le> 0 then Some (Inr (token, d))
        else case asn1_peek_uint8 d of
            Inl e \<Rightarrow> Some (Inl e)
          | Inr (None, d) \<Rightarrow> Some (Inr (token, set_error d))
          | Inr (Some context, d) \<Rightarrow>
              (case read_init_field junk context token d of
                 None \<Rightarrow> None
               | Some (Inl e) \<Rightarrow> Some (Inl e)
               | Some (Inr (token, d)) \<Rightarrow> read_init_loop junk token d))"

definition read_negTokenInit :: "u8 \<Rightarrow> asn1_data \<Rightarrow> (spnego_negTokenInit \<times> bool) asn1_res option" where
  "read_negTokenInit junk d =
     (case chk (start_tag (ASN1_CONTEXT 0) d) (start_tag (ASN1_SEQUENCE 0)) of
        Inl e \<Rightarrow> Some (Inl e)
      | Inr d \<Rightarrow> then_opt (read_init_loop junk zero_negTokenInit d) (\<lambda>(token, d).
          let d = end_tag (end_tag d) in Inr ((token, \<not> asn1_has_error d), d)))"

definition read_targ_field :: "u8 \<Rightarrow> u8 \<Rightarrow> spnego_negTokenTarg \<Rightarrow> asn1_data \<Rightarrow> spnego_negTokenTarg asn1_res" where
  "read_targ_field junk context token d =
     (if context = ASN1_CONTEXT 0 then
        take_tag (ASN1_CONTEXT 0) (take_tag ASN1_ENUMERATED (\<lambda>d.
          chk (asn1_read_uint8 d) (\<lambda>(b, d). Inr (case b of None \<Rightarrow> token | Some b \<Rightarrow> token\<lparr>negResult := b\<rparr>, d)))) d
      else if context = ASN1_CONTEXT 1 then
        take_tag (ASN1_CONTEXT 1) (\<lambda>d.
          chk (read_OID junk d) (\<lambda>(m, d). Inr (case m of None \<Rightarrow> token | Some m \<Rightarrow> token\<lparr>supportedMech := Some m\<rparr>, d))) d
      else if context = ASN1_CONTEXT 2 then
        take_tag (ASN1_CONTEXT 2) (\<lambda>d. chk (read_blob d) (\<lambda>(b, d). Inr (token\<lparr>responseToken := b\<rparr>, d))) d
      else if context = ASN1_CONTEXT 3 then
        take_tag (ASN1_CONTEXT 3) (\<lambda>d. chk (read_blob d) (\<lambda>(b, d). Inr (token\<lparr>targ_mechListMIC := b\<rparr>, d))) d
      else Inr (token, set_error d))"

partial_function (option) read_targ_loop ::
  "u8 \<Rightarrow> spnego_negTokenTarg \<Rightarrow> asn1_data \<Rightarrow> spnego_negTokenTarg asn1_res option" where
  "read_targ_loop junk token d =
     (if asn1_has_error d then Some (Inr (token, d))
      else case asn1_tag_remaining d of (r, d) \<Rightarrow>
        if r \<le> 0 then Some (Inr (token, d))
        else case asn1_peek_uint8 d of
            Inl e \<Rightarrow> Some (Inl e)
          | Inr (None, d) \<Rightarrow> Some (Inr (token, set_error d))
          | Inr (Some context, d) \<Rightarrow>
              (case read_targ_field junk context token d of
                 Inl e \<Rightarrow> Some (Inl e)
               | Inr (token, d) \<Rightarrow> read_targ_loop junk token d))"

definition read_negTokenTarg :: "u8 \<Rightarrow> asn1_data \<Rightarrow> (spnego_negTokenTarg \<times> bool) asn1_res option" where
  "read_negTokenTarg junk d =
     (case chk (start_tag (ASN1_CONTEXT 1) d) (start_tag (ASN1_SEQUENCE 0)) of
        Inl e \<Rightarrow> Some (Inl e)
      | Inr d \<Rightarrow> then_opt (read_targ_loop junk zero_negTokenTarg d) (\<lambda>(token, d).
          let d = end_tag (end_tag d) in Inr ((token, \<not> asn1_has_error d), d)))"

text \<open>The number of bytes read and the token, or None for the return of -1.\<close>

definition read_result :: "spnego_data \<Rightarrow> asn1_data \<Rightarrow> (nat \<times> spnego_data) option" where
  "read_result token d = (if asn1_has_error d then None else Some (asn1_ofs d, token))"

definition zero_spnego_data :: spnego_data where
  "zero_spnego_data = \<lparr>spnego_type = 0, negTokenInit = zero_negTokenInit, negTokenTarg = zero_negTokenTarg\<rparr>"

definition spnego_read_data :: "u8 \<Rightarrow> bytes \<Rightarrow> (nat \<times> spnego_data) option res option" where
  "spnego_read_data junk dat =
     (if dat = [] then Some (Inr None)
      else case asn1_peek_uint8 (snd (asn1_load dat)) of
          Inl e \<Rightarrow> Some (Inl e)
        | Inr (None, d) \<Rightarrow> Some (Inr None)
        | Inr (Some context, d) \<Rightarrow>
            if context = ASN1_APPLICATION 0 then
              (case chk (start_tag (ASN1_APPLICATION 0) d) (\<lambda>d. asn1_check_OID junk d GENSEC_OID_SPNEGO) of
                 Inl e \<Rightarrow> Some (Inl e)
               | Inr (_, d) \<Rightarrow> then_opt (read_negTokenInit junk d) (\<lambda>((token, ok), d).
                   Inr (read_result (zero_spnego_data\<lparr>negTokenInit := token,
                     spnego_type := if ok then SPNEGO_NEG_TOKEN_INIT else 0\<rparr>) (end_tag d))))
            else if context = ASN1_CONTEXT 1 then
              then_opt (read_negTokenTarg junk d) (\<lambda>((token, ok), d).
                Inr (read_result (zero_spnego_data\<lparr>negTokenTarg := token,
                  spnego_type := if ok then SPNEGO_NEG_TOKEN_TARG else 0\<rparr>) d))
            else Some (Inr None))"

section \<open>Writing\<close>

definition write_OIDs :: "bytes list \<Rightarrow> asn1_data \<Rightarrow> asn1_data res" where
  "write_OIDs ms d = foldl (\<lambda>r m. chk r (\<lambda>d. chk (asn1_write_OID d m) (\<lambda>(_, d). Inr d))) (Inr d) ms"

definition write_blob :: "bytes \<Rightarrow> asn1_data \<Rightarrow> asn1_data res" where
  "write_blob p d = chk (asn1_write_OctetString d p) (\<lambda>(_, d). Inr d)"

definition when_some :: "'a option \<Rightarrow> ('a \<Rightarrow> asn1_data \<Rightarrow> asn1_data res) \<Rightarrow> asn1_data \<Rightarrow> asn1_data res" where
  "when_some p f d = (case p of None \<Rightarrow> Inr d | Some a \<Rightarrow> f a d)"

definition write_negTokenInit :: "spnego_negTokenInit \<Rightarrow> asn1_data \<Rightarrow> asn1_data res" where
  "write_negTokenInit token =
     put_tag (ASN1_CONTEXT 0) (put_tag (ASN1_SEQUENCE 0) (\<lambda>d.
       chk (case mechTypes token of
              Some (m # ms) \<Rightarrow> put_tag (ASN1_CONTEXT 0) (put_tag (ASN1_SEQUENCE 0) (write_OIDs (m # ms))) d
            | _ \<Rightarrow> Inr d) (\<lambda>d.
       chk (if reqFlags token AND SPNEGO_REQ_FLAG \<noteq> 0
            then put_tag (ASN1_CONTEXT 1) (\<lambda>d.
              chk (asn1_write_Integer d (reqFlags token AND NOT SPNEGO_REQ_FLAG)) (\<lambda>(_, d). Inr d)) d
            else Inr d) (\<lambda>d.
       chk (when_some (mechToken token) (\<lambda>p. put_tag (ASN1_CONTEXT 2) (write_blob p)) d) (\<lambda>d.
       when_some (mechListMIC token) (\<lambda>p. put_tag (ASN1_CONTEXT 3) (put_tag (ASN1_SEQUENCE 0)
         (put_tag (ASN1_CONTEXT 0) (put_tag ASN1_GENERAL_STRING (\<lambda>d. chk (asn1_write d p) (\<lambda>(_, d). Inr d)))))) d)))))"

definition write_negTokenTarg :: "spnego_negTokenTarg \<Rightarrow> asn1_data \<Rightarrow> asn1_data res" where
  "write_negTokenTarg token =
     put_tag (ASN1_CONTEXT 1) (put_tag (ASN1_SEQUENCE 0) (\<lambda>d.
       chk (if negResult token \<noteq> SPNEGO_NONE_RESULT
            then put_tag (ASN1_CONTEXT 0) (\<lambda>d. chk (asn1_write_enumerated d (negResult token)) (\<lambda>(_, d). Inr d)) d
            else Inr d) (\<lambda>d.
       chk (when_some (supportedMech token) (\<lambda>m. put_tag (ASN1_CONTEXT 1) (\<lambda>d. chk (asn1_write_OID d m) (\<lambda>(_, d). Inr d))) d) (\<lambda>d.
       chk (when_some (responseToken token) (\<lambda>p. put_tag (ASN1_CONTEXT 2) (write_blob p)) d) (\<lambda>d.
       when_some (targ_mechListMIC token) (\<lambda>p. put_tag (ASN1_CONTEXT 3) (write_blob p)) d)))))"

text \<open>The blob and the number of bytes, or None for the return of -1.\<close>

definition spnego_write_data :: "spnego_data \<Rightarrow> (nat \<times> bytes) option res" where
  "spnego_write_data spnego =
     (let result = (\<lambda>d. Inr (if asn1_has_error d then None else Some (asn1_ofs d, take (asn1_length d) (asn1_buf d)))) in
      if spnego_type spnego = SPNEGO_NEG_TOKEN_INIT then
        chk (put_tag (ASN1_APPLICATION 0) (\<lambda>d.
          chk (asn1_write_OID d GENSEC_OID_SPNEGO) (\<lambda>(_, d). write_negTokenInit (negTokenInit spnego) d)) asn1_empty) result
      else if spnego_type spnego = SPNEGO_NEG_TOKEN_TARG then chk (write_negTokenTarg (negTokenTarg spnego) asn1_empty) result
      else Inr None)"

section \<open>Freeing\<close>

text \<open>None is the NULL pointer. A token of an unknown type is cleared too; the memory is not part of the model.\<close>

definition spnego_free_data :: "spnego_data option \<Rightarrow> bool \<times> spnego_data option" where
  "spnego_free_data spnego =
     (case spnego of
        None \<Rightarrow> (True, None)
      | Some s \<Rightarrow> (spnego_type s = SPNEGO_NEG_TOKEN_INIT \<or> spnego_type s = SPNEGO_NEG_TOKEN_TARG, Some zero_spnego_data))"

end
