(* ===== verification/Spnego_Props.thy ===== *)
theory Spnego_Props
  imports Spnego
begin

text \<open>
  The SPNEGO tokens: what \<open>spnego_write_data\<close> writes, \<open>spnego_read_data\<close> reads back, and reading a
  \<open>negTokenTarg\<close> is safe on every input. The loop over the fields of a token is the same in
  \<open>read_negTokenInit\<close> and \<open>read_negTokenTarg\<close>; what both need is proved once, in the locale \<open>field_loop\<close>.
\<close>

section \<open>Writers\<close>

definition writes_bytes :: "(asn1_data \<Rightarrow> asn1_data res) \<Rightarrow> bytes \<Rightarrow> bool" where
  "writes_bytes w p \<longleftrightarrow> (\<forall>d. wr_asn1 d \<longrightarrow> asn1_fits d (length p) \<longrightarrow> w d = Inr (asn1_out d p))"

lemma writes_bytesD: "writes_bytes w p \<Longrightarrow> wr_asn1 d \<Longrightarrow> asn1_fits d (length p) \<Longrightarrow> w d = Inr (asn1_out d p)"
  by (simp add: writes_bytes_def)

lemma writes_nothing: "writes_bytes Inr []"
  by (simp add: writes_bytes_def asn1_out_Nil)

lemma writes_seq:
  assumes "writes_bytes v p" and "writes_bytes w q"
  shows "writes_bytes (\<lambda>d. chk (v d) w) (p @ q)"
  unfolding writes_bytes_def
proof (intro allI impI)
  fix d
  assume d: "wr_asn1 d" "asn1_fits d (length (p @ q))"
  then have "v d = Inr (asn1_out d p)" by (intro writes_bytesD [OF assms(1)]) (auto simp: asn1_fits_def)
  moreover have "w (asn1_out d p) = Inr (asn1_out (asn1_out d p) q)"
    using d by (intro writes_bytesD [OF assms(2)]) (auto simp: asn1_fits_def)
  ultimately show "chk (v d) w = Inr (asn1_out d (p @ q))" by (simp add: asn1_out_out)
qed

lemma writes_tag:
  assumes "writes_bytes w p"
  shows "writes_bytes (put_tag tag w) (tlv tag p)"
  unfolding writes_bytes_def
proof (intro allI impI)
  fix d
  assume d: "wr_asn1 d" and f: "asn1_fits d (length (tlv tag p))"
  from d f have "w (asn1_opened d tag) = Inr (asn1_out (asn1_opened d tag) p)"
    by (intro writes_bytesD [OF assms]) (auto simp: asn1_fits_def dest: le_less_trans [OF add_left_mono [OF length_tlv]])
  with asn1_tag_around(1,3) [OF d f] show "put_tag tag w d = Inr (asn1_out d (tlv tag p))"
    by (simp add: put_tag_def push_tag_def pop_tag_def)
qed

lemma writes_value:
  assumes "\<And>d. wr_asn1 d \<Longrightarrow> asn1_fits d (length p) \<Longrightarrow> wrt d = Inr (True, asn1_out d p)"
  shows "writes_bytes (\<lambda>d. chk (wrt d) (\<lambda>(_, d). Inr d)) p"
  using assms by (simp add: writes_bytes_def)

lemma writes_blob: "short_value p \<Longrightarrow> writes_bytes (write_blob p) (tlv ASN1_OCTET_STRING p)"
  unfolding write_blob_def by (intro writes_value cd_OctetString.writes)

lemma write_OIDs_Cons:
  "write_OIDs (m # ms) = (\<lambda>d. chk (chk (asn1_write_OID d m) (\<lambda>(_, d). Inr d)) (write_OIDs ms))"
proof -
  let ?g = "\<lambda>r m. chk r (\<lambda>d. chk (asn1_write_OID d m) (\<lambda>(_, d). Inr d))"
  have "foldl ?g (Inl e) ms = Inl e" for e by (induction ms) simp_all
  then have "foldl ?g r ms = chk r (write_OIDs ms)" for r by (cases r) (simp_all add: write_OIDs_def)
  then show ?thesis by (intro ext) (simp add: write_OIDs_def)
qed

lemma writes_OIDs:
  assumes "list_all2 (\<lambda>m p. writes_bytes (\<lambda>d. chk (asn1_write_OID d m) (\<lambda>(_, d). Inr d)) p) ms ps"
  shows "writes_bytes (write_OIDs ms) (concat ps)"
  using assms
proof (induction ms ps rule: list_all2_induct)
  case Nil
  then show ?case using writes_nothing by (simp add: write_OIDs_def writes_bytes_def)
next
  case (Cons m ms p ps)
  show ?case
    unfolding write_OIDs_Cons concat.simps using Cons(1) Cons.IH by (rule writes_seq)
qed

section \<open>Readers\<close>

definition gives :: "(asn1_data \<Rightarrow> 'a asn1_res) \<Rightarrow> bytes \<Rightarrow> 'a \<Rightarrow> bool" where
  "gives rd p v \<longleftrightarrow> (\<forall>d. rd_at d p \<longrightarrow> rd d = Inr (v, asn1_adv d (length p)))"

lemma givesD: "gives rd p v \<Longrightarrow> rd_at d p \<Longrightarrow> rd d = Inr (v, asn1_adv d (length p))"
  by (simp add: gives_def)

lemma rd_at_inside: "rd_at d (tlv tag p) \<Longrightarrow> rd_at (asn1_entered d (length p)) p"
  using rd_at_entered [of d tag p "[]"] by simp

lemma start_tag_at:
  "rd_at d (tlv tag p) \<Longrightarrow> length p < 2 ^ 24 \<Longrightarrow> start_tag tag d = Inr (asn1_entered d (length p))"
  by (simp add: start_tag_def asn1_start_tag_at)

lemma end_tag_at:
  "rd_at d (tlv tag p) \<Longrightarrow> end_tag (asn1_adv (asn1_entered d (length p)) (length p)) = asn1_adv d (length (tlv tag p))"
  by (simp add: end_tag_def asn1_end_tag_at)

lemma gives_tag:
  assumes "gives rd p v" and "length p < 2 ^ 24"
  shows "gives (take_tag tag rd) (tlv tag p) v"
  unfolding gives_def
proof (intro allI impI)
  fix d
  assume d: "rd_at d (tlv tag p)"
  from givesD [OF assms(1) rd_at_inside [OF d]] start_tag_at [OF d assms(2)] end_tag_at [OF d]
  show "take_tag tag rd d = Inr (v, asn1_adv d (length (tlv tag p)))" by (simp add: take_tag_def)
qed

lemma gives_then: "gives rd p v \<Longrightarrow> gives (\<lambda>d. chk (rd d) (\<lambda>(v, d). Inr (f v, d))) p (f v)"
  by (simp add: gives_def)

lemma gives_blob: "short_value p \<Longrightarrow> gives read_blob (tlv ASN1_OCTET_STRING p) (Some p)"
  by (simp add: gives_def read_blob_def cd_OctetString.reads)

section \<open>The loop over the fields\<close>

text \<open>The innermost tag has \<open>r\<close> bytes left.\<close>

definition in_tag :: "asn1_data \<Rightarrow> nat \<Rightarrow> bool" where
  "in_tag d r \<longleftrightarrow> (\<exists>s k ns. asn1_nesting d = \<lparr>nest_start = s, nest_taglen = word_of_nat (k + r)\<rparr> # ns \<and> asn1_ofs d = s + k)"

lemma in_tag_adv: "in_tag d (m + r) \<Longrightarrow> in_tag (asn1_adv d m) r"
  unfolding in_tag_def
proof (elim exE conjE)
  fix s k ns
  assume "asn1_nesting d = \<lparr>nest_start = s, nest_taglen = word_of_nat (k + (m + r))\<rparr> # ns" "asn1_ofs d = s + k"
  then show "\<exists>s k ns. asn1_nesting (asn1_adv d m) = \<lparr>nest_start = s, nest_taglen = word_of_nat (k + r)\<rparr> # ns \<and>
      asn1_ofs (asn1_adv d m) = s + k"
    by (intro exI [of _ s] exI [of _ "k + m"] exI [of _ ns]) (simp add: add.assoc)
qed

lemma in_tag_entered: "in_tag (asn1_entered d n) n"
  by (auto simp: in_tag_def asn1_entered_def Let_def intro!: exI [of _ 0])

lemma in_tag_remaining: "in_tag d (length p) \<Longrightarrow> rd_at d p \<Longrightarrow> asn1_tag_remaining d = (int (length p), d)"
  unfolding in_tag_def using rd_at_wf [of d p] rd_at_bound [of d p] by (auto intro!: tag_remaining_at)

lemma peek_uint8_at: "rd_at d (b # p) \<Longrightarrow> asn1_peek_uint8 d = Inr (Some b, d)"
  using asn1_read_uint8_at [of d b p] rd_at_bound [of d "b # p"] rd_at_wf [of d "b # p"]
  by (auto simp: asn1_read_uint8_def asn1_read_def asn1_peek_uint8_def asn1_peek_def wf_asn1_def MAX_TALLOC_SIZE_def
      chk_eq_Inr rd_at_def split: if_splits option.splits)

locale field_loop =
  fixes field :: "u8 \<Rightarrow> 't \<Rightarrow> asn1_data \<Rightarrow> 't asn1_res option"
    and loop :: "'t \<Rightarrow> asn1_data \<Rightarrow> 't asn1_res option"
  assumes loop_eq: "loop token d =
     (if asn1_has_error d then Some (Inr (token, d))
      else case asn1_tag_remaining d of (r, d) \<Rightarrow>
        if r \<le> 0 then Some (Inr (token, d))
        else case asn1_peek_uint8 d of
            Inl e \<Rightarrow> Some (Inl e)
          | Inr (None, d) \<Rightarrow> Some (Inr (token, set_error d))
          | Inr (Some context, d) \<Rightarrow>
              (case field context token d of
                 None \<Rightarrow> None
               | Some (Inl e) \<Rightarrow> Some (Inl e)
               | Some (Inr (token, d)) \<Rightarrow> loop token d))"
begin

text \<open>The loop passes over the bytes \<open>p\<close> and changes the token by \<open>f\<close>.\<close>

definition passes :: "bytes \<Rightarrow> ('t \<Rightarrow> 't) \<Rightarrow> bool" where
  "passes p f \<longleftrightarrow> (\<forall>d q token. rd_at d (p @ q) \<longrightarrow> in_tag d (length (p @ q)) \<longrightarrow> loop token d = loop (f token) (asn1_adv d (length p)))"

lemma passes_nothing: "passes [] (\<lambda>t. t)"
  by (simp add: passes_def asn1_adv_def)

lemma passes_append:
  assumes "passes p f" and "passes q g"
  shows "passes (p @ q) (\<lambda>t. g (f t))"
  unfolding passes_def
proof (intro allI impI)
  fix d r token
  assume d: "rd_at d ((p @ q) @ r)" "in_tag d (length ((p @ q) @ r))"
  then have "loop token d = loop (f token) (asn1_adv d (length p))"
    using assms(1) unfolding passes_def by (metis append.assoc)
  moreover from d have "rd_at (asn1_adv d (length p)) (q @ r)" "in_tag (asn1_adv d (length p)) (length (q @ r))"
    using rd_at_adv [of d p "q @ r"] in_tag_adv [of d "length p" "length (q @ r)"] by simp_all
  ultimately show "loop token d = loop (g (f token)) (asn1_adv d (length (p @ q)))"
    using assms(2) unfolding passes_def by (simp add: asn1_adv_adv)
qed

lemma passes_field:
  assumes "\<And>token d. rd_at d (c # p) \<Longrightarrow> field c token d = Some (Inr (f token, asn1_adv d (length (c # p))))"
  shows "passes (c # p) f"
  unfolding passes_def
proof (intro allI impI)
  fix d q token
  assume d: "rd_at d ((c # p) @ q)" "in_tag d (length ((c # p) @ q))"
  have "field c token d = Some (Inr (f token, asn1_adv d (length (c # p))))"
    using rd_at_append [OF d(1)] by (rule assms)
  moreover have "asn1_tag_remaining d = (int (length ((c # p) @ q)), d)"
    using d(2,1) by (rule in_tag_remaining)
  ultimately show "loop token d = loop (f token) (asn1_adv d (length (c # p)))"
    using rd_at_wf(2) [OF d(1)] peek_uint8_at [of d c "p @ q"] d(1) by (simp add: loop_eq [of token])
qed

lemma loop_end:
  assumes "passes p f" and d: "rd_at d (tlv tag p)"
  shows "loop token (asn1_entered d (length p)) = Some (Inr (f token, asn1_adv (asn1_entered d (length p)) (length p)))"
proof -
  let ?e = "asn1_entered d (length p)"
  have "loop token ?e = loop (f token) (asn1_adv ?e (length p))"
    using assms(1) rd_at_inside [OF d] in_tag_entered [of d "length p"] unfolding passes_def
    by (metis append_Nil2)
  moreover have e: "rd_at (asn1_adv ?e (length p)) []" "in_tag (asn1_adv ?e (length p)) (length [])"
    using rd_at_adv [of ?e p "[]"] rd_at_inside [OF d] in_tag_adv [of ?e "length p" 0] in_tag_entered [of d "length p"] by simp_all
  from in_tag_remaining [OF e(2,1)] have "loop (f token) (asn1_adv ?e (length p)) = Some (Inr (f token, asn1_adv ?e (length p)))"
    by (simp add: loop_eq)
  ultimately show ?thesis by simp
qed

text \<open>Every field moves on, so the loop ends, on any input.\<close>

lemma loop_returns:
  assumes field: "\<And>c token d. wf_asn1 d \<Longrightarrow> \<exists>token' d'. field c token d = Some (Inr (token', d')) \<and> asn1_step d d' \<and>
      (asn1_has_error d' \<or> asn1_ofs d < asn1_ofs d')"
    and "wf_asn1 d"
  shows "\<exists>token' d'. loop token d = Some (Inr (token', d')) \<and> asn1_step d d'"
  using assms(2)
proof (induction "length (asn1_buf d) - asn1_ofs d" arbitrary: d token rule: less_induct)
  case less
  obtain r d1 where r: "asn1_tag_remaining d = (r, d1)" by force
  with less.prems asn1_tag_remaining_moves [of True] have d1: "asn1_step d d1" by (auto simp: asn1_moves_def)
  then have "wf_asn1 d1" by (simp add: asn1_step_def)
  with asn1_peek_uint8_moves [of True] obtain b d2 where b: "asn1_peek_uint8 d1 = Inr (b, d2)" and d2: "asn1_step d1 d2"
    unfolding asn1_moves_def by blast
  from asn1_step_trans [OF d1 d2] have s2: "asn1_step d d2" .
  show ?case
  proof (cases b)
    case None
    with r b d1 s2 less.prems show ?thesis
      by (auto simp: loop_eq [of token] asn1_step_def set_error_def wf_asn1_def)
  next
    case (Some c)
    from s2 have "wf_asn1 d2" by (simp add: asn1_step_def)
    from field [OF this] obtain token' d3 where f: "field c token d2 = Some (Inr (token', d3))" "asn1_step d2 d3"
        "asn1_has_error d3 \<or> asn1_ofs d2 < asn1_ofs d3"
      by blast
    from asn1_step_trans [OF s2 f(2)] have s3: "asn1_step d d3" .
    have "\<exists>t' d'. loop token' d3 = Some (Inr (t', d')) \<and> asn1_step d3 d'"
    proof (cases "asn1_has_error d3")
      case True
      with s3 show ?thesis by (auto simp: loop_eq asn1_step_def)
    next
      case False
      with f(3) s2 s3 less.prems show ?thesis by (intro less.hyps) (auto simp: asn1_step_def wf_asn1_def)
    qed
    with r b d1 f(1) s3 Some less.prems asn1_step_trans show ?thesis
      by (subst loop_eq) (auto simp: asn1_step_refl intro: asn1_step_trans)
  qed
qed

text \<open>A writer whose bytes make the loop change the token by \<open>f\<close>.\<close>

definition carries :: "(asn1_data \<Rightarrow> asn1_data res) \<Rightarrow> ('t \<Rightarrow> 't) \<Rightarrow> nat \<Rightarrow> bool" where
  "carries w f n \<longleftrightarrow> (\<exists>p. length p \<le> n \<and> writes_bytes w p \<and> passes p f)"

lemma carries_nothing: "carries Inr (\<lambda>t. t) 0"
  unfolding carries_def using writes_nothing passes_nothing by auto

lemma carries_seq: "carries v f m \<Longrightarrow> carries w g n \<Longrightarrow> carries (\<lambda>d. chk (v d) w) (\<lambda>t. g (f t)) (m + n)"
  unfolding carries_def
  by (elim exE conjE) (intro exI conjI, rule order.trans [OF eq_refl [OF length_append] add_mono],
      assumption, assumption, erule (1) writes_seq, erule (1) passes_append)

lemma carries_if:
  "(b \<Longrightarrow> carries w f n) \<Longrightarrow> carries (\<lambda>d. if b then w d else Inr d) (\<lambda>t. if b then f t else t) n"
  using carries_nothing by (cases b) (auto simp: carries_def intro: exI [of _ "[]"])

lemma carries_some:
  "(\<And>a. v = Some a \<Longrightarrow> carries (w a) (f a) (n a)) \<Longrightarrow>
   carries (when_some v w) (\<lambda>t. case v of None \<Rightarrow> t | Some a \<Rightarrow> f a t) (case v of None \<Rightarrow> 0 | Some a \<Rightarrow> n a)"
  using carries_nothing by (cases v) (simp_all add: when_some_def [abs_def])

lemma carries_field:
  assumes w: "writes_bytes w p" and n: "length p + 5 \<le> n"
    and rd: "\<And>token d. rd_at d (tlv c p) \<Longrightarrow> field c token d = Some (Inr (f token, asn1_adv d (length (tlv c p))))"
  shows "carries (put_tag c w) f n"
  unfolding carries_def
proof (intro exI conjI)
  show "length (tlv c p) \<le> n" using length_tlv_le [of c p] n by simp
  show "writes_bytes (put_tag c w) (tlv c p)" using w by (rule writes_tag)
  show "passes (tlv c p) f" unfolding tlv_def by (rule passes_field) (use rd in \<open>simp add: tlv_def\<close>)
qed

lemma carries_token:
  assumes "carries w f n" and "n < 2 ^ 23" and "f zero = token"
  shows "\<exists>p. length p < 2 ^ 23 \<and> writes_bytes (put_tag a (put_tag b w)) (tlv a (tlv b p)) \<and>
    (\<exists>f. passes p f \<and> f zero = token)"
proof -
  from assms(1) obtain p where p: "length p \<le> n" "writes_bytes w p" "passes p f" by (auto simp: carries_def)
  with assms writes_tag [OF writes_tag [OF p(2)]] show ?thesis
    by (intro exI [of _ p] conjI exI [of _ f]) simp_all
qed

lemma token_read:
  assumes p: "passes p f" "length p < 2 ^ 23" and d: "rd_at d (tlv a (tlv b p))"
  shows "\<exists>e. chk (start_tag a d) (start_tag b) = Inr e \<and>
    (\<exists>e'. loop token e = Some (Inr (f token, e')) \<and> end_tag (end_tag e') = asn1_adv d (length (tlv a (tlv b p))))"
proof -
  have l: "length (tlv b p) < 2 ^ 24" using length_tlv_le [of b p] p(2) by simp
  note i = rd_at_inside [OF d]
  from start_tag_at [OF d l] start_tag_at [OF i] p(2) loop_end [OF p(1) i, of token] end_tag_at [OF i] end_tag_at [OF d]
  show ?thesis by auto
qed

end

interpretation init_fields: field_loop "read_init_field junk" "read_init_loop junk" for junk
  by unfold_locales (rule read_init_loop.simps)

interpretation targ_fields: field_loop "\<lambda>c token d. Some (read_targ_field junk c token d)" "read_targ_loop junk" for junk
  by unfold_locales (subst read_targ_loop.simps, simp split: sum.split prod.split option.split)

section \<open>Object identifiers\<close>

definition is_oid :: "bytes \<Rightarrow> bool" where
  "is_oid m \<longleftrightarrow> (\<exists>a b cs. m = oid_string a b cs \<and> valid_oid a b cs)"

definition oid_coded :: "bytes \<Rightarrow> bytes \<Rightarrow> bool" where
  "oid_coded m p \<longleftrightarrow> (\<forall>junk. writes_bytes (\<lambda>d. chk (asn1_write_OID d m) (\<lambda>(_, d). Inr d)) p \<and>
     gives (read_OID junk) p (Some m) \<and> gives (asn1_read_OID junk) p (m, True))"

lemma length_oid_content: "length (oid_content a b cs) + 2 \<le> 3 * length (oid_string a b cs)" "3 \<le> length (oid_string a b cs)"
proof -
  have pos: "0 < length (print_u n)" for n using print_u_props [of n] by simp
  have "length (concat (map (\<lambda>c. arc_bytes (word_of_nat c)) cs)) \<le> 3 * length (arcs_string cs)"
  proof (induction cs)
    case (Cons c cs)
    have "length (arc_bytes (word_of_nat c)) \<le> 5" by (simp add: arc_bytes_def)
    with Cons pos [of c] show ?case by (simp add: arcs_string_def del: length_greater_0_conv)
  qed simp
  with pos [of a] pos [of b] show "length (oid_content a b cs) + 2 \<le> 3 * length (oid_string a b cs)" "3 \<le> length (oid_string a b cs)"
    by (simp_all add: oid_content_def oid_string_def del: length_greater_0_conv)
qed

lemma is_oid_coded:
  assumes "is_oid m" and "length m < 2 ^ 20"
  shows "\<exists>p. oid_coded m p \<and> length p \<le> 5 * length m"
proof -
  from assms(1) obtain a b cs where m: "m = oid_string a b cs" and v: "valid_oid a b cs" by (auto simp: is_oid_def)
  let ?c = "oid_content a b cs"
  have l: "length ?c < 2 ^ 24" using length_oid_content(1) [of a b cs] assms(2) m by simp
  have "writes_bytes (\<lambda>d. chk (asn1_write_OID d m) (\<lambda>(_, d). Inr d)) (tlv ASN1_OID ?c)"
    unfolding m by (intro writes_value asn1_write_OID_out v)
  moreover have "gives (asn1_read_OID junk) (tlv ASN1_OID ?c) (m, True)" for junk
    unfolding m gives_def by (simp add: asn1_read_OID_at [OF v _ l])
  moreover from this have "gives (read_OID junk) (tlv ASN1_OID ?c) (Some m)" for junk
    by (simp add: gives_def read_OID_def asn1_start_tag_at [OF _ l])
  moreover have "length (tlv ASN1_OID ?c) \<le> 5 * length m"
    using length_tlv_le [of ASN1_OID ?c] length_oid_content [of a b cs] m by simp
  ultimately show ?thesis unfolding oid_coded_def by blast
qed

lemma read_mechTypes_at:
  assumes "list_all2 oid_coded ms ps" and "rd_at d (concat ps)" and "in_tag d (length (concat ps))"
    and "[] \<notin> set ps"
  shows "read_mechTypes junk d acc = Some (Inr (acc @ ms, asn1_adv d (length (concat ps))))"
  using assms
proof (induction ms ps arbitrary: d acc rule: list_all2_induct)
  case Nil
  then show ?case
    using rd_at_wf(2) [OF Nil(1)] in_tag_remaining [of d "[]"] by (subst read_mechTypes.simps) (simp add: asn1_adv_def)
next
  case (Cons m ms p ps)
  have r: "rd_at d (p @ concat ps)" using Cons.prems(1) by simp
  have "asn1_tag_remaining d = (int (length (p @ concat ps)), d)"
    using Cons.prems(2) r by (intro in_tag_remaining) simp_all
  moreover have "read_OID junk d = Inr (Some m, asn1_adv d (length p))"
    using Cons(1) rd_at_append [OF r] by (auto simp: oid_coded_def gives_def)
  moreover have "read_mechTypes junk (asn1_adv d (length p)) (acc @ [m]) =
      Some (Inr ((acc @ [m]) @ ms, asn1_adv (asn1_adv d (length p)) (length (concat ps))))"
    using Cons.prems rd_at_adv [OF r] in_tag_adv [of d "length p"] by (intro Cons.IH) simp_all
  ultimately show ?case
    using rd_at_wf(2) [OF r] Cons.prems(3) by (cases p) (simp_all add: read_mechTypes.simps [of junk d] asn1_adv_adv)
qed

section \<open>The reply token\<close>

lemma ASN1_CONTEXT_inj [simp]: "ASN1_CONTEXT x = ASN1_CONTEXT y \<longleftrightarrow> x = y"
  by (simp add: ASN1_CONTEXT_def)

definition opt_size :: "bytes option \<Rightarrow> nat" where
  "opt_size b = (case b of None \<Rightarrow> 0 | Some p \<Rightarrow> length p)"

definition targ_size :: "spnego_negTokenTarg \<Rightarrow> nat" where
  "targ_size t = opt_size (supportedMech t) + opt_size (responseToken t) + opt_size (targ_mechListMIC t)"

definition wf_targ :: "spnego_negTokenTarg \<Rightarrow> bool" where
  "wf_targ t \<longleftrightarrow> pred_option is_oid (supportedMech t) \<and> targ_size t < 2 ^ 20"

lemma gives_enumerated: "gives asn1_read_uint8 [v] (Some v)"
  by (simp add: gives_def asn1_read_uint8_at)

lemma targ_negResult:
  "targ_fields.carries junk (put_tag (ASN1_CONTEXT 0) (\<lambda>d. chk (asn1_write_enumerated d v) (\<lambda>(_, d). Inr d)))
     (\<lambda>t. t\<lparr>negResult := v\<rparr>) 15"
proof (rule targ_fields.carries_field [where p = "tlv ASN1_ENUMERATED [v]"])
  show "writes_bytes (\<lambda>d. chk (asn1_write_enumerated d v) (\<lambda>(_, d). Inr d)) (tlv ASN1_ENUMERATED [v])"
    by (intro writes_value asn1_write_enumerated_out)
  show "length (tlv ASN1_ENUMERATED [v]) + 5 \<le> 15" using length_tlv_le [of ASN1_ENUMERATED "[v]"] by simp
next
  fix token :: spnego_negTokenTarg and d
  have "gives (take_tag (ASN1_CONTEXT 0) (take_tag ASN1_ENUMERATED (\<lambda>d. chk (asn1_read_uint8 d)
      (\<lambda>(b, d). Inr (case b of None \<Rightarrow> token | Some b \<Rightarrow> token\<lparr>negResult := b\<rparr>, d)))))
      (tlv (ASN1_CONTEXT 0) (tlv ASN1_ENUMERATED [v])) (case Some v of None \<Rightarrow> token | Some b \<Rightarrow> token\<lparr>negResult := b\<rparr>)"
    by (intro gives_tag gives_then gives_enumerated) (simp_all add: tlv_def der_len_def)
  then show "rd_at d (tlv (ASN1_CONTEXT 0) (tlv ASN1_ENUMERATED [v])) \<Longrightarrow> Some (read_targ_field junk (ASN1_CONTEXT 0) token d) =
      Some (Inr (token\<lparr>negResult := v\<rparr>, asn1_adv d (length (tlv (ASN1_CONTEXT 0) (tlv ASN1_ENUMERATED [v])))))"
    by (simp add: gives_def read_targ_field_def)
qed

lemma targ_supportedMech:
  assumes "is_oid m" and "length m < 2 ^ 20"
  shows "targ_fields.carries junk (put_tag (ASN1_CONTEXT 1) (\<lambda>d. chk (asn1_write_OID d m) (\<lambda>(_, d). Inr d)))
     (\<lambda>t. t\<lparr>supportedMech := Some m\<rparr>) (5 * length m + 5)"
proof -
  from is_oid_coded [OF assms] obtain p where p: "oid_coded m p" "length p \<le> 5 * length m" by blast
  show ?thesis
  proof (rule targ_fields.carries_field [where p = p])
    fix token :: spnego_negTokenTarg and d
    have "gives (take_tag (ASN1_CONTEXT 1) (\<lambda>d. chk (read_OID junk d)
        (\<lambda>(m, d). Inr (case m of None \<Rightarrow> token | Some m \<Rightarrow> token\<lparr>supportedMech := Some m\<rparr>, d))))
        (tlv (ASN1_CONTEXT 1) p) (case Some m of None \<Rightarrow> token | Some m \<Rightarrow> token\<lparr>supportedMech := Some m\<rparr>)"
      using p assms by (intro gives_tag gives_then) (auto simp: oid_coded_def)
    then show "rd_at d (tlv (ASN1_CONTEXT 1) p) \<Longrightarrow> Some (read_targ_field junk (ASN1_CONTEXT 1) token d) =
        Some (Inr (token\<lparr>supportedMech := Some m\<rparr>, asn1_adv d (length (tlv (ASN1_CONTEXT 1) p))))"
      by (simp add: gives_def read_targ_field_def)
  qed (use p in \<open>auto simp: oid_coded_def\<close>)
qed

text \<open>A field that is an octet string.\<close>

lemma gives_blob_field:
  assumes "length p < 2 ^ 20"
  shows "gives (take_tag c (\<lambda>d. chk (read_blob d) (\<lambda>(b, d). Inr (f b, d)))) (tlv c (tlv ASN1_OCTET_STRING p)) (f (Some p))"
    and "writes_bytes (write_blob p) (tlv ASN1_OCTET_STRING p)" and "length (tlv ASN1_OCTET_STRING p) + 5 \<le> length p + 10"
proof -
  have l: "length (tlv ASN1_OCTET_STRING p) \<le> length p + 5" by (rule length_tlv_le)
  with assms show "length (tlv ASN1_OCTET_STRING p) + 5 \<le> length p + 10" by simp
  show "writes_bytes (write_blob p) (tlv ASN1_OCTET_STRING p)" using assms by (intro writes_blob) (simp add: short_value_def)
  show "gives (take_tag c (\<lambda>d. chk (read_blob d) (\<lambda>(b, d). Inr (f b, d)))) (tlv c (tlv ASN1_OCTET_STRING p)) (f (Some p))"
    using assms l by (intro gives_tag gives_then gives_blob) (auto simp: short_value_def)
qed

lemma targ_responseToken:
  assumes "length p < 2 ^ 20"
  shows "targ_fields.carries junk (put_tag (ASN1_CONTEXT 2) (write_blob p)) (\<lambda>t. t\<lparr>responseToken := Some p\<rparr>) (length p + 10)"
  using gives_blob_field(2,3) [OF assms]
  by (rule targ_fields.carries_field) (simp add: givesD [OF gives_blob_field(1) [OF assms]] read_targ_field_def)

lemma targ_mechListMIC:
  assumes "length p < 2 ^ 20"
  shows "targ_fields.carries junk (put_tag (ASN1_CONTEXT 3) (write_blob p)) (\<lambda>t. t\<lparr>targ_mechListMIC := Some p\<rparr>) (length p + 10)"
  using gives_blob_field(2,3) [OF assms]
  by (rule targ_fields.carries_field) (simp add: givesD [OF gives_blob_field(1) [OF assms]] read_targ_field_def)

lemma zero_spnego_fields [simp]:
  "negResult zero_negTokenTarg = 0" "supportedMech zero_negTokenTarg = None" "responseToken zero_negTokenTarg = None"
  "targ_mechListMIC zero_negTokenTarg = None"
  "mechTypes zero_negTokenInit = None" "reqFlags zero_negTokenInit = 0" "mechToken zero_negTokenInit = None"
  "mechListMIC zero_negTokenInit = None" "targetPrincipal zero_negTokenInit = None"
  by (simp_all add: zero_negTokenTarg_def zero_negTokenInit_def)

text \<open>What comes back: the reply, whose missing result becomes zero.\<close>

definition targ_back :: "spnego_negTokenTarg \<Rightarrow> spnego_negTokenTarg" where
  "targ_back t = (if negResult t = SPNEGO_NONE_RESULT then t\<lparr>negResult := SPNEGO_ACCEPT_COMPLETED\<rparr> else t)"

lemma targ_written:
  assumes wf: "wf_targ t"
  shows "\<exists>p. length p < 2 ^ 23 \<and> writes_bytes (write_negTokenTarg t) (tlv (ASN1_CONTEXT 1) (tlv (ASN1_SEQUENCE 0) p)) \<and>
    (\<exists>f. targ_fields.passes junk p f \<and> f zero_negTokenTarg = targ_back t)"
proof -
  from wf have s: "\<And>m. supportedMech t = Some m \<Longrightarrow> is_oid m \<and> length m < 2 ^ 20"
    "\<And>p. responseToken t = Some p \<Longrightarrow> length p < 2 ^ 20" "\<And>p. targ_mechListMIC t = Some p \<Longrightarrow> length p < 2 ^ 20"
    by (auto simp: wf_targ_def targ_size_def opt_size_def)
  have 1: "targ_fields.carries junk (\<lambda>d. if negResult t \<noteq> SPNEGO_NONE_RESULT
      then put_tag (ASN1_CONTEXT 0) (\<lambda>d. chk (asn1_write_enumerated d (negResult t)) (\<lambda>(_, d). Inr d)) d else Inr d)
      (\<lambda>u. if negResult t \<noteq> SPNEGO_NONE_RESULT then u\<lparr>negResult := negResult t\<rparr> else u) 15"
    by (intro targ_fields.carries_if targ_negResult)
  have 2: "targ_fields.carries junk (when_some (supportedMech t) (\<lambda>m. put_tag (ASN1_CONTEXT 1) (\<lambda>d. chk (asn1_write_OID d m) (\<lambda>(_, d). Inr d))))
      (\<lambda>u. case supportedMech t of None \<Rightarrow> u | Some m \<Rightarrow> u\<lparr>supportedMech := Some m\<rparr>)
      (case supportedMech t of None \<Rightarrow> 0 | Some m \<Rightarrow> 5 * length m + 5)"
    using s(1) by (intro targ_fields.carries_some targ_supportedMech) auto
  have 3: "targ_fields.carries junk (when_some (responseToken t) (\<lambda>p. put_tag (ASN1_CONTEXT 2) (write_blob p)))
      (\<lambda>u. case responseToken t of None \<Rightarrow> u | Some p \<Rightarrow> u\<lparr>responseToken := Some p\<rparr>)
      (case responseToken t of None \<Rightarrow> 0 | Some p \<Rightarrow> length p + 10)"
    using s(2) by (intro targ_fields.carries_some targ_responseToken) auto
  have 4: "targ_fields.carries junk (when_some (targ_mechListMIC t) (\<lambda>p. put_tag (ASN1_CONTEXT 3) (write_blob p)))
      (\<lambda>u. case targ_mechListMIC t of None \<Rightarrow> u | Some p \<Rightarrow> u\<lparr>targ_mechListMIC := Some p\<rparr>)
      (case targ_mechListMIC t of None \<Rightarrow> 0 | Some p \<Rightarrow> length p + 10)"
    using s(3) by (intro targ_fields.carries_some targ_mechListMIC) auto
  note all = targ_fields.carries_seq [OF 1 targ_fields.carries_seq [OF 2 targ_fields.carries_seq [OF 3 4]]]
  show ?thesis
    unfolding write_negTokenTarg_def
  proof (rule targ_fields.carries_token [OF all])
    show "15 + ((case supportedMech t of None \<Rightarrow> 0 | Some m \<Rightarrow> 5 * length m + 5) + ((case responseToken t of None \<Rightarrow> 0 | Some p \<Rightarrow> length p + 10) +
        (case targ_mechListMIC t of None \<Rightarrow> 0 | Some p \<Rightarrow> length p + 10))) < 2 ^ 23"
      using wf by (auto simp: wf_targ_def targ_size_def opt_size_def split: option.splits)
  qed (use wf in \<open>cases t, auto simp: targ_back_def SPNEGO_ACCEPT_COMPLETED_def zero_negTokenTarg_def split: option.splits\<close>)
qed

section \<open>The initial token\<close>

definition mechs_size :: "bytes list option \<Rightarrow> nat" where
  "mechs_size ms = (case ms of None \<Rightarrow> 0 | Some ms \<Rightarrow> sum_list (map length ms))"

definition init_size :: "spnego_negTokenInit \<Rightarrow> nat" where
  "init_size t = mechs_size (mechTypes t) + opt_size (mechToken t)"

definition wf_init :: "spnego_negTokenInit \<Rightarrow> bool" where
  "wf_init t \<longleftrightarrow> pred_option (\<lambda>ms. ms \<noteq> [] \<and> list_all is_oid ms) (mechTypes t) \<and>
     (reqFlags t = 0 \<or> reqFlags t AND SPNEGO_REQ_FLAG \<noteq> 0) \<and> 0 \<le> sint (reqFlags t) \<and>
     mechListMIC t = None \<and> targetPrincipal t = None \<and> init_size t < 2 ^ 20"

lemma bit_flag: "bit SPNEGO_REQ_FLAG n \<longleftrightarrow> n = 7"
  unfolding SPNEGO_REQ_FLAG_def using bit_80(1) [of n] by simp

lemma flag_set: "w AND SPNEGO_REQ_FLAG \<noteq> 0 \<longleftrightarrow> bit w 7"
proof -
  have "w AND SPNEGO_REQ_FLAG = (if bit w 7 then SPNEGO_REQ_FLAG else 0)"
    by (rule bit_word_eqI) (auto simp: bit_simps bit_flag)
  then show ?thesis by (simp add: SPNEGO_REQ_FLAG_def)
qed

lemma flag_back: "w AND SPNEGO_REQ_FLAG \<noteq> 0 \<Longrightarrow> (w AND NOT SPNEGO_REQ_FLAG) OR SPNEGO_REQ_FLAG = w"
  unfolding flag_set by (rule bit_word_eqI) (auto simp: bit_simps bit_flag)

lemma flag_nonneg: "0 \<le> sint (w :: u32) \<Longrightarrow> 0 \<le> sint (w AND v)"
  by (simp add: sint_uint signed_take_bit_nonnegative_iff bit_simps)

lemma init_reqFlags:
  assumes f: "reqFlags t AND SPNEGO_REQ_FLAG \<noteq> 0" "0 \<le> sint (reqFlags t)"
  shows "init_fields.carries junk (put_tag (ASN1_CONTEXT 1) (\<lambda>d.
      chk (asn1_write_Integer d (reqFlags t AND NOT SPNEGO_REQ_FLAG)) (\<lambda>(_, d). Inr d)))
    (\<lambda>u. u\<lparr>reqFlags := reqFlags t\<rparr>) 15"
proof -
  let ?v = "reqFlags t AND NOT SPNEGO_REQ_FLAG" and ?p = "tlv ASN1_INTEGER (int_content (reqFlags t AND NOT SPNEGO_REQ_FLAG))"
  have v: "0 \<le> sint ?v" using f(2) by (rule flag_nonneg)
  have l: "length ?p + 5 \<le> 15" using length_tlv_le [of ASN1_INTEGER "int_content ?v"] length_int_content [of ?v] by simp
  show ?thesis
  proof (rule init_fields.carries_field [where p = ?p, OF _ l])
    show "writes_bytes (\<lambda>d. chk (asn1_write_Integer d ?v) (\<lambda>(_, d). Inr d)) ?p"
      using v by (intro writes_value cd_Integer.writes)
  next
    fix u :: spnego_negTokenInit and d
    have i: "gives asn1_read_Integer ?p (?v, True)" using v by (simp add: gives_def cd_Integer.reads)
    have "gives (take_tag (ASN1_CONTEXT 1) (\<lambda>d. chk (asn1_read_Integer d) (\<lambda>((i, _), d). Inr (u\<lparr>reqFlags := i OR SPNEGO_REQ_FLAG\<rparr>, d))))
        (tlv (ASN1_CONTEXT 1) ?p) (u\<lparr>reqFlags := reqFlags t\<rparr>)"
      using gives_then [OF i, of "\<lambda>(i, _). u\<lparr>reqFlags := i OR SPNEGO_REQ_FLAG\<rparr>"] l flag_back [OF f(1)]
      by (intro gives_tag) (simp_all add: case_prod_unfold)
    then show "rd_at d (tlv (ASN1_CONTEXT 1) ?p) \<Longrightarrow> read_init_field junk (ASN1_CONTEXT 1) u d =
        Some (Inr (u\<lparr>reqFlags := reqFlags t\<rparr>, asn1_adv d (length (tlv (ASN1_CONTEXT 1) ?p))))"
      by (simp add: gives_def read_init_field_def)
  qed
qed

lemma init_mechToken:
  assumes "length p < 2 ^ 20"
  shows "init_fields.carries junk (put_tag (ASN1_CONTEXT 2) (write_blob p)) (\<lambda>t. t\<lparr>mechToken := Some p\<rparr>) (length p + 10)"
  using gives_blob_field(2,3) [OF assms]
  by (rule init_fields.carries_field) (simp add: givesD [OF gives_blob_field(1) [OF assms]] read_init_field_def)

lemma oids_coded:
  assumes "list_all is_oid ms" and "sum_list (map length ms) < 2 ^ 20"
  shows "\<exists>ps. list_all2 oid_coded ms ps \<and> length (concat ps) \<le> 5 * sum_list (map length ms) \<and> [] \<notin> set ps"
  using assms
proof (induction ms)
  case (Cons m ms)
  then obtain ps where ps: "list_all2 oid_coded ms ps" "length (concat ps) \<le> 5 * sum_list (map length ms)" "[] \<notin> set ps" by auto
  from Cons.prems obtain p where p: "oid_coded m p" "length p \<le> 5 * length m" using is_oid_coded [of m] by auto
  have "p \<noteq> []"
  proof
    assume "p = []"
    from p(1) \<open>p = []\<close> have "gives (read_OID 0) [] (Some m)" by (simp add: oid_coded_def)
    moreover have "rd_at asn1_empty []" by (simp add: rd_at_def asn1_empty_def wf_asn1_def MAX_TALLOC_SIZE_def)
    ultimately have "read_OID 0 asn1_empty = Inr (Some m, asn1_adv asn1_empty 0)" using givesD by fastforce
    moreover have "read_OID 0 asn1_empty = Inr (None, set_error asn1_empty)" by code_simp
    ultimately show False by simp
  qed
  with ps p show ?case by (intro exI [of _ "p # ps"]) simp
qed (intro exI [of _ "[]"], simp)

lemma init_mechTypes:
  assumes ms: "list_all is_oid ms" "sum_list (map length ms) < 2 ^ 20"
  shows "init_fields.carries junk (put_tag (ASN1_CONTEXT 0) (put_tag (ASN1_SEQUENCE 0) (write_OIDs ms)))
    (\<lambda>t. t\<lparr>mechTypes := Some ms\<rparr>) (5 * sum_list (map length ms) + 10)"
proof -
  from oids_coded [OF ms] obtain ps where ps: "list_all2 oid_coded ms ps" "length (concat ps) \<le> 5 * sum_list (map length ms)" "[] \<notin> set ps" by blast
  let ?q = "concat ps" and ?p = "tlv (ASN1_SEQUENCE 0) (concat ps)"
  have l: "length ?p \<le> length ?q + 5" by (rule length_tlv_le)
  with ps(2) ms(2) have q: "length ?q < 2 ^ 24" "length ?p < 2 ^ 24" by simp_all
  show ?thesis
  proof (rule init_fields.carries_field [where p = ?p])
    have "list_all2 (\<lambda>m p. writes_bytes (\<lambda>d. chk (asn1_write_OID d m) (\<lambda>(_, d). Inr d)) p) ms ps"
      using ps(1) by (rule list_all2_mono) (simp add: oid_coded_def)
    then show "writes_bytes (put_tag (ASN1_SEQUENCE 0) (write_OIDs ms)) ?p" by (intro writes_tag writes_OIDs)
    show "length ?p + 5 \<le> 5 * sum_list (map length ms) + 10" using l ps(2) by simp
  next
    fix u :: spnego_negTokenInit and d
    assume d: "rd_at d (tlv (ASN1_CONTEXT 0) ?p)"
    note i = rd_at_inside [OF d]
    from start_tag_at [OF d q(2)] start_tag_at [OF i q(1)] end_tag_at [OF i] end_tag_at [OF d]
      read_mechTypes_at [OF ps(1) rd_at_inside [OF i] in_tag_entered ps(3), of junk "[]"]
    show "read_init_field junk (ASN1_CONTEXT 0) u d =
        Some (Inr (u\<lparr>mechTypes := Some ms\<rparr>, asn1_adv d (length (tlv (ASN1_CONTEXT 0) ?p))))"
      by (simp add: read_init_field_def then_opt_def)
  qed
qed

lemma when_some_None: "when_some None f = Inr"
  by (simp add: fun_eq_iff when_some_def)

lemma write_mechTypes_eq:
  "(\<lambda>d. case ms of Some (m # ms) \<Rightarrow> put_tag c (put_tag s (write_OIDs (m # ms))) d | _ \<Rightarrow> Inr d) =
   when_some (if ms = Some [] then None else ms) (\<lambda>ms. put_tag c (put_tag s (write_OIDs ms)))"
  by (intro ext) (simp add: when_some_def split: option.split list.split)

lemma init_written:
  assumes wf: "wf_init t"
  shows "\<exists>p. length p < 2 ^ 23 \<and> writes_bytes (write_negTokenInit t) (tlv (ASN1_CONTEXT 0) (tlv (ASN1_SEQUENCE 0) p)) \<and>
    (\<exists>f. init_fields.passes junk p f \<and> f zero_negTokenInit = t)"
proof -
  from wf have s: "\<And>ms. mechTypes t = Some ms \<Longrightarrow> list_all is_oid ms \<and> sum_list (map length ms) < 2 ^ 20" "mechTypes t \<noteq> Some []"
    "\<And>p. mechToken t = Some p \<Longrightarrow> length p < 2 ^ 20" "mechListMIC t = None" "0 \<le> sint (reqFlags t)"
    by (auto simp: wf_init_def init_size_def opt_size_def mechs_size_def)
  have 1: "init_fields.carries junk (when_some (mechTypes t) (\<lambda>ms. put_tag (ASN1_CONTEXT 0) (put_tag (ASN1_SEQUENCE 0) (write_OIDs ms))))
      (\<lambda>u. case mechTypes t of None \<Rightarrow> u | Some ms \<Rightarrow> u\<lparr>mechTypes := Some ms\<rparr>)
      (case mechTypes t of None \<Rightarrow> 0 | Some ms \<Rightarrow> 5 * sum_list (map length ms) + 10)"
    using s(1) by (intro init_fields.carries_some init_mechTypes) auto
  have 2: "init_fields.carries junk (\<lambda>d. if reqFlags t AND SPNEGO_REQ_FLAG \<noteq> 0
      then put_tag (ASN1_CONTEXT 1) (\<lambda>d. chk (asn1_write_Integer d (reqFlags t AND NOT SPNEGO_REQ_FLAG)) (\<lambda>(_, d). Inr d)) d else Inr d)
      (\<lambda>u. if reqFlags t AND SPNEGO_REQ_FLAG \<noteq> 0 then u\<lparr>reqFlags := reqFlags t\<rparr> else u) 15"
    using s(5) by (intro init_fields.carries_if init_reqFlags)
  have 3: "init_fields.carries junk (when_some (mechToken t) (\<lambda>p. put_tag (ASN1_CONTEXT 2) (write_blob p)))
      (\<lambda>u. case mechToken t of None \<Rightarrow> u | Some p \<Rightarrow> u\<lparr>mechToken := Some p\<rparr>)
      (case mechToken t of None \<Rightarrow> 0 | Some p \<Rightarrow> length p + 10)"
    using s(3) by (intro init_fields.carries_some init_mechToken) auto
  note all = init_fields.carries_seq [OF 1 init_fields.carries_seq [OF 2 init_fields.carries_seq [OF 3 init_fields.carries_nothing]]]
  have w: "write_negTokenInit t = put_tag (ASN1_CONTEXT 0) (put_tag (ASN1_SEQUENCE 0) (\<lambda>d.
      chk (when_some (mechTypes t) (\<lambda>ms. put_tag (ASN1_CONTEXT 0) (put_tag (ASN1_SEQUENCE 0) (write_OIDs ms))) d) (\<lambda>d.
      chk (if reqFlags t AND SPNEGO_REQ_FLAG \<noteq> 0
           then put_tag (ASN1_CONTEXT 1) (\<lambda>d. chk (asn1_write_Integer d (reqFlags t AND NOT SPNEGO_REQ_FLAG)) (\<lambda>(_, d). Inr d)) d else Inr d) (\<lambda>d.
      chk (when_some (mechToken t) (\<lambda>p. put_tag (ASN1_CONTEXT 2) (write_blob p)) d) Inr))))"
    unfolding write_negTokenInit_def using s(2,4) fun_cong [OF write_mechTypes_eq [where ms = "mechTypes t"]]
    by (simp add: when_some_None)
  show ?thesis
    unfolding w
  proof (rule init_fields.carries_token [OF all])
    show "(case mechTypes t of None \<Rightarrow> 0 | Some ms \<Rightarrow> 5 * sum_list (map length ms) + 10) + (15 + ((case mechToken t of None \<Rightarrow> 0 | Some p \<Rightarrow> length p + 10) + 0)) < 2 ^ 23"
      using wf by (auto simp: wf_init_def init_size_def mechs_size_def opt_size_def split: option.splits)
  qed (use wf in \<open>cases t, auto simp: wf_init_def zero_negTokenInit_def split: option.splits\<close>)
qed

section \<open>Whole tokens\<close>

lemma GENSEC_OID_SPNEGO_string: "GENSEC_OID_SPNEGO = oid_string 1 3 [6, 1, 5, 5, 2]"
  by (simp add: GENSEC_OID_SPNEGO_def oid_string_def arcs_string_def print_u.simps ascii_str_def)

lemma GENSEC_OID_SPNEGO_oid: "is_oid GENSEC_OID_SPNEGO"
  unfolding is_oid_def GENSEC_OID_SPNEGO_string by (intro exI conjI, rule refl) (simp add: valid_oid_def)

lemma loaded_at: "length p < MAX_TALLOC_SIZE \<Longrightarrow> rd_at (snd (asn1_load p)) p"
  using wf_asn1_load [of p] by (auto simp: rd_at_def)

lemma written: "writes_bytes w p \<Longrightarrow> length p < MAX_TALLOC_SIZE \<Longrightarrow> w asn1_empty = Inr (asn1_out asn1_empty p)"
  by (rule writes_bytesD) (simp_all add: asn1_fits_def asn1_empty_def wr_asn1_def)

definition wf_spnego :: "spnego_data \<Rightarrow> bool" where
  "wf_spnego s \<longleftrightarrow>
     spnego_type s = SPNEGO_NEG_TOKEN_INIT \<and> wf_init (negTokenInit s) \<and> negTokenTarg s = zero_negTokenTarg \<or>
     spnego_type s = SPNEGO_NEG_TOKEN_TARG \<and> wf_targ (negTokenTarg s) \<and> negResult (negTokenTarg s) \<noteq> SPNEGO_NONE_RESULT \<and> negTokenInit s = zero_negTokenInit"

lemma targ_roundtrip:
  assumes "spnego_type s = SPNEGO_NEG_TOKEN_TARG" and "wf_targ (negTokenTarg s)" and "negTokenInit s = zero_negTokenInit"
  shows "\<exists>n blob. spnego_write_data s = Inr (Some (n, blob)) \<and> spnego_read_data junk blob = Some (Inr (Some (n, s\<lparr>negTokenTarg := targ_back (negTokenTarg s)\<rparr>)))"
proof -
  let ?a = "ASN1_CONTEXT 1" and ?b = "ASN1_SEQUENCE 0"
  from targ_written [OF assms(2), of junk] obtain p f where p: "length p < 2 ^ 23" "targ_fields.passes junk p f" "f zero_negTokenTarg = targ_back (negTokenTarg s)"
    and w: "writes_bytes (write_negTokenTarg (negTokenTarg s)) (tlv ?a (tlv ?b p))" by blast
  let ?p = "tlv ?a (tlv ?b p)"
  have l: "length ?p < MAX_TALLOC_SIZE" using length_tlv_le [of ?a "tlv ?b p"] length_tlv_le [of ?b p] p(1) by (simp add: MAX_TALLOC_SIZE_def)
  have w': "spnego_write_data s = Inr (Some (length ?p, ?p))"
    using written [OF w l] assms(1) by (simp add: spnego_write_data_def SPNEGO_NEG_TOKEN_INIT_def SPNEGO_NEG_TOKEN_TARG_def asn1_empty_def)
  note d = loaded_at [OF l]
  from targ_fields.token_read [OF p(2,1) d, of zero_negTokenTarg] p(3)
  have r: "read_negTokenTarg junk (snd (asn1_load ?p)) = Some (Inr ((targ_back (negTokenTarg s), True), asn1_adv (snd (asn1_load ?p)) (length ?p)))"
    using rd_at_wf(2) [OF d] by (auto simp: read_negTokenTarg_def then_opt_def Let_def)
  have "asn1_peek_uint8 (snd (asn1_load ?p)) = Inr (Some ?a, snd (asn1_load ?p))" using d by (intro peek_uint8_at) (simp add: tlv_def)
  with r l have "spnego_read_data junk ?p = Some (Inr (Some (length ?p, s\<lparr>negTokenTarg := targ_back (negTokenTarg s)\<rparr>)))"
    using rd_at_wf(2) [OF d] assms wf_asn1_load [OF l]
    by (cases s) (auto simp: spnego_read_data_def then_opt_def read_result_def zero_spnego_data_def ASN1_CONTEXT_def ASN1_APPLICATION_def tlv_def)
  with w' show ?thesis by blast
qed

lemma init_roundtrip:
  assumes "spnego_type s = SPNEGO_NEG_TOKEN_INIT" and "wf_init (negTokenInit s)" and "negTokenTarg s = zero_negTokenTarg"
  shows "\<exists>n blob. spnego_write_data s = Inr (Some (n, blob)) \<and> spnego_read_data junk blob = Some (Inr (Some (n, s)))"
proof -
  let ?a = "ASN1_CONTEXT 0" and ?b = "ASN1_SEQUENCE 0" and ?c = "ASN1_APPLICATION 0"
  from init_written [OF assms(2), of junk] obtain p f where p: "length p < 2 ^ 23" "init_fields.passes junk p f" "f zero_negTokenInit = negTokenInit s"
    and w: "writes_bytes (write_negTokenInit (negTokenInit s)) (tlv ?a (tlv ?b p))" by blast
  have "length GENSEC_OID_SPNEGO = 13" by (simp add: GENSEC_OID_SPNEGO_def ascii_str_def)
  with is_oid_coded [OF GENSEC_OID_SPNEGO_oid] obtain g where g: "oid_coded GENSEC_OID_SPNEGO g" "length g \<le> 65" by auto
  let ?q = "tlv ?a (tlv ?b p)" and ?p = "tlv ?c (g @ tlv ?a (tlv ?b p))"
  have lq: "length (g @ ?q) < 2 ^ 24" using length_tlv_le [of ?a "tlv ?b p"] length_tlv_le [of ?b p] p(1) g(2) by simp
  then have l: "length ?p < MAX_TALLOC_SIZE" using length_tlv_le [of ?c "g @ ?q"] by (simp add: MAX_TALLOC_SIZE_def)
  have "writes_bytes (put_tag ?c (\<lambda>d. chk (chk (asn1_write_OID d GENSEC_OID_SPNEGO) (\<lambda>(_, d). Inr d)) (write_negTokenInit (negTokenInit s)))) ?p"
    using g(1) w by (intro writes_tag writes_seq) (simp_all add: oid_coded_def)
  from written [OF this l] have w': "spnego_write_data s = Inr (Some (length ?p, ?p))"
    using assms(1) by (simp add: spnego_write_data_def asn1_empty_def chk_assoc case_prod_unfold)
  note d = loaded_at [OF l]
  let ?d = "snd (asn1_load ?p)" and ?e = "asn1_entered (snd (asn1_load ?p)) (length (g @ ?q))"
  note i = rd_at_inside [OF d]
  have c: "asn1_check_OID junk ?e GENSEC_OID_SPNEGO = Inr (True, asn1_adv ?e (length g))"
    using g(1) rd_at_append [OF i] by (simp add: oid_coded_def gives_def asn1_check_OID_def)
  from init_fields.token_read [OF p(2,1) rd_at_adv [OF i], of zero_negTokenInit] p(3)
  have r: "read_negTokenInit junk (asn1_adv ?e (length g)) = Some (Inr ((negTokenInit s, True), asn1_adv ?e (length (g @ ?q))))"
    using rd_at_wf(2) [OF i] by (auto simp: read_negTokenInit_def then_opt_def Let_def asn1_adv_adv)
  have "asn1_peek_uint8 ?d = Inr (Some ?c, ?d)" using d by (intro peek_uint8_at) (simp add: tlv_def)
  with r c start_tag_at [OF d lq] end_tag_at [OF d] have "spnego_read_data junk ?p = Some (Inr (Some (length ?p, s)))"
    using rd_at_wf(2) [OF d] assms wf_asn1_load [OF l]
    by (cases s) (auto simp: spnego_read_data_def then_opt_def read_result_def zero_spnego_data_def tlv_def)
  with w' show ?thesis by blast
qed



section \<open>Reading a reply on any input\<close>

text \<open>A reader that, on any context, raises the error flag or uses up at least a byte.\<close>

definition asn1_eats :: "(asn1_data \<Rightarrow> 'a asn1_res) \<Rightarrow> bool" where
  "asn1_eats rd \<longleftrightarrow> (\<forall>d. wf_asn1 d \<longrightarrow> (\<exists>r d'. rd d = Inr (r, d') \<and> asn1_step d d' \<and> (asn1_has_error d' \<or> asn1_ofs d < asn1_ofs d')))"

lemma asn1_eats_bind:
  assumes "asn1_eats m" and k: "\<And>r. asn1_moves True (k r)"
  shows "asn1_eats (\<lambda>d. chk (m d) (\<lambda>(r, d). k r d))"
  unfolding asn1_eats_def
proof (intro allI impI)
  fix d
  assume "wf_asn1 d"
  with assms(1) obtain r d1 where m: "m d = Inr (r, d1)" "asn1_step d d1" "asn1_has_error d1 \<or> asn1_ofs d < asn1_ofs d1"
    unfolding asn1_eats_def by blast
  then have "wf_asn1 d1" by (simp add: asn1_step_def)
  with k [of r] obtain r2 d2 where k2: "k r d1 = Inr (r2, d2)" "asn1_step d1 d2" "asn1_has_error d1 \<longrightarrow> asn1_has_error d2"
    unfolding asn1_moves_def by blast
  with m asn1_step_trans [OF m(2) k2(2)]
  show "\<exists>r d'. chk (m d) (\<lambda>(r, d). k r d) = Inr (r, d') \<and> asn1_step d d' \<and> (asn1_has_error d' \<or> asn1_ofs d < asn1_ofs d')"
    by (auto simp: asn1_step_def)
qed

lemma asn1_eats_error: "asn1_eats (\<lambda>d. Inr (r, set_error d))"
  by (simp add: asn1_eats_def asn1_step_def set_error_def wf_asn1_def)

lemma asn1_eats_read_uint8: "asn1_eats asn1_read_uint8"
  unfolding asn1_eats_def
proof (intro allI impI)
  fix d
  assume wf: "wf_asn1 d"
  with asn1_read_uint8_moves [of True] obtain r d' where r: "asn1_read_uint8 d = Inr (r, d')" "asn1_step d d'"
    unfolding asn1_moves_def by blast
  moreover have "asn1_has_error d'" if "r = None"
    using r(1) that by (auto simp: asn1_read_uint8_def asn1_read_def chk_eq_Inr set_error_def split: option.splits)
  ultimately show "\<exists>r d'. asn1_read_uint8 d = Inr (r, d') \<and> asn1_step d d' \<and> (asn1_has_error d' \<or> asn1_ofs d < asn1_ofs d')"
    using read_uint8_advances [of d _ d'] by (cases r) auto
qed

lemma asn1_eats_start_tag: "asn1_eats (\<lambda>d. asn1_start_tag d tag)"
  unfolding asn1_start_tag_def
  by (rule asn1_eats_bind asn1_eats_read_uint8 asn1_open_tag_moves asn1_moves_intros asn1_read_uint8_moves asn1_taglen_loop_moves)+

lemma end_tag_moves: "asn1_moves s (\<lambda>d. Inr (a, end_tag d))"
  using asn1_moves_let [OF asn1_end_tag_moves, of s "\<lambda>_ d. Inr (a, d)"] asn1_moves_return [of s "\<lambda>_. a"]
  by (simp add: end_tag_def case_prod_unfold)

lemma start_tag_moves: "asn1_moves s k \<Longrightarrow> asn1_moves s (\<lambda>d. chk (start_tag tag d) k)"
  using asn1_moves_bind [OF asn1_start_tag_moves, of s "\<lambda>_. k"] by (simp add: start_tag_def chk_assoc case_prod_unfold)

lemma take_tag_moves: "asn1_moves s rd \<Longrightarrow> asn1_moves s (take_tag tag rd)"
  unfolding take_tag_def [abs_def] by (intro start_tag_moves asn1_moves_bind end_tag_moves)

lemma asn1_eats_take_tag:
  assumes "asn1_moves True rd"
  shows "asn1_eats (take_tag tag rd)"
proof -
  have "asn1_moves True (\<lambda>d. chk (rd d) (\<lambda>(a, d). Inr (a, end_tag d)))"
    using assms by (intro asn1_moves_bind end_tag_moves)
  from asn1_eats_bind [OF asn1_eats_start_tag this] show ?thesis
    by (simp add: take_tag_def [abs_def] start_tag_def chk_assoc case_prod_unfold)
qed

lemma asn1_eats_if: "(b \<Longrightarrow> asn1_eats m) \<Longrightarrow> (\<not> b \<Longrightarrow> asn1_eats n) \<Longrightarrow> asn1_eats (\<lambda>d. if b then m d else n d)"
  by (cases b) simp_all

lemma read_blob_moves: "asn1_moves s read_blob"
  unfolding read_blob_def by (rule asn1_moves_rules asn1_moves_pair asn1_read_OctetString_moves)+

lemma read_OID_moves: "asn1_moves s (read_OID junk)"
  unfolding asn1_moves_def
proof (intro allI impI)
  fix d
  assume wf: "wf_asn1 d"
  obtain st e where "asn1_start_tag d ASN1_OID = Inr (st, e)" using wf asn1_start_tag_moves [of s] unfolding asn1_moves_def by blast
  moreover obtain oid ok e where "asn1_read_OID junk d = Inr ((oid, ok), e)" "asn1_step d e" "s \<longrightarrow> asn1_has_error d \<longrightarrow> asn1_has_error e"
    using wf asn1_read_OID_moves [of s junk] unfolding asn1_moves_def by (metis surj_pair)
  ultimately show "\<exists>r d'. read_OID junk d = Inr (r, d') \<and> asn1_step d d' \<and> (s \<longrightarrow> asn1_has_error d \<longrightarrow> asn1_has_error d')"
    by (simp add: read_OID_def)
qed

lemma read_targ_field_eats: "asn1_eats (read_targ_field junk c token)"
  unfolding read_targ_field_def [abs_def]
  by (intro asn1_eats_if asn1_eats_take_tag asn1_eats_error take_tag_moves asn1_moves_bind asn1_read_uint8_moves
      read_OID_moves read_blob_moves asn1_moves_return)

lemma read_negTokenTarg_returns:
  assumes "wf_asn1 d"
  shows "\<exists>token ok d'. read_negTokenTarg junk d = Some (Inr ((token, ok), d')) \<and> asn1_step d d' \<and> (ok \<longleftrightarrow> \<not> asn1_has_error d')"
proof -
  have "asn1_moves True (\<lambda>d. chk (start_tag (ASN1_CONTEXT 1) d) (\<lambda>d. chk (start_tag (ASN1_SEQUENCE 0) d) (\<lambda>d. Inr ((), d))))"
    by (intro start_tag_moves asn1_moves_return)
  with assms obtain d1 where d1: "chk (start_tag (ASN1_CONTEXT 1) d) (start_tag (ASN1_SEQUENCE 0)) = Inr d1" "asn1_step d d1"
    unfolding asn1_moves_def by (fastforce simp: chk_eq_Inr)
  have "wf_asn1 d1" using d1(2) by (simp add: asn1_step_def)
  have "\<exists>token' d'. read_targ_loop junk zero_negTokenTarg d1 = Some (Inr (token', d')) \<and> asn1_step d1 d'"
    using read_targ_field_eats [of junk] \<open>wf_asn1 d1\<close> unfolding asn1_eats_def by (intro targ_fields.loop_returns) auto
  then obtain token d2 where d2: "read_targ_loop junk zero_negTokenTarg d1 = Some (Inr (token, d2))" "asn1_step d1 d2" by blast
  have e: "asn1_step d (end_tag d)" if "wf_asn1 d" for d
    using end_tag_moves [of True "()"] that by (auto simp: asn1_moves_def)
  have "asn1_step d2 (end_tag (end_tag d2))"
    using d2(2) e [of d2] e [of "end_tag d2"] by (metis asn1_step_def asn1_step_trans)
  with d1 d2 show ?thesis
    by (auto simp: read_negTokenTarg_def then_opt_def Let_def intro: asn1_step_trans)
qed

text \<open>
  C35. Reading a reply is safe: on every input that starts as a \<open>negTokenTarg\<close>, \<open>spnego_read_data\<close> returns without
  leaving the buffer; the result is the error value or a reply token and a number of bytes within the input.
\<close>

theorem spnego_read_targ_safe:
  assumes "length dat < MAX_TALLOC_SIZE" and "dat = 0xa1 # rest"
  shows "\<exists>r. spnego_read_data junk dat = Some (Inr r) \<and>
    (case r of None \<Rightarrow> True | Some (n, s) \<Rightarrow> n \<le> length dat \<and> spnego_type s = SPNEGO_NEG_TOKEN_TARG \<and> negTokenInit s = zero_negTokenInit)"
proof -
  let ?d = "snd (asn1_load dat)"
  have d: "rd_at ?d (0xa1 # rest)" using loaded_at [OF assms(1)] assms(2) by simp
  from read_negTokenTarg_returns [OF rd_at_wf(1) [OF d], of junk] obtain token ok d'
    where r: "read_negTokenTarg junk ?d = Some (Inr ((token, ok), d'))" "asn1_step ?d d'" "ok \<longleftrightarrow> \<not> asn1_has_error d'" by blast
  have "asn1_ofs d' \<le> length dat" using r(2) wf_asn1_load [OF assms(1)] by (auto simp: asn1_step_def wf_asn1_def)
  with r peek_uint8_at [OF d] assms(2) show ?thesis
    by (simp add: spnego_read_data_def then_opt_def read_result_def ASN1_CONTEXT_def ASN1_APPLICATION_def zero_spnego_data_def)
qed

theorem spnego_read_targ_safe_witness:
  "\<exists>r. spnego_read_data 0 [0xa1, 3, 0x30, 1] = Some (Inr r)"
proof -
  have "length [0xa1, 3, 0x30, 1 :: u8] < MAX_TALLOC_SIZE" by (simp add: MAX_TALLOC_SIZE_def)
  from spnego_read_targ_safe [OF this refl, of 0] show ?thesis by blast
qed

section \<open>What does not come back\<close>

text \<open>
  The list of mechanisms: an element that is not an object identifier leaves its slot uninitialised, and the
  reader follows it. A reply without a result (\<open>SPNEGO_NONE_RESULT\<close>) is read as the result
  \<open>SPNEGO_ACCEPT_COMPLETED\<close>.
\<close>

lemma read_mechTypes_uninitialised:
  assumes d: "rd_at d (c # p)" "in_tag d (Suc (length p))" and c: "c \<noteq> ASN1_OID"
  shows "read_mechTypes junk d ms = Some (Inl Fault)"
proof -
  have "asn1_start_tag d ASN1_OID = Inr (False, set_error (asn1_adv d (Suc 0)))"
    using asn1_read_uint8_at [OF d(1)] c by (simp add: asn1_start_tag_def)
  then have "read_OID junk d = Inr (None, set_error (asn1_adv d (Suc 0)))" by (simp add: read_OID_def asn1_read_OID_def)
  with in_tag_remaining [of d "c # p"] d rd_at_wf(2) [OF d(1)] show ?thesis
    by (subst read_mechTypes.simps) simp
qed

lemma spnego_no_result_read_as_accept:
  assumes "spnego_type s = SPNEGO_NEG_TOKEN_TARG" and "wf_targ (negTokenTarg s)" and "negTokenInit s = zero_negTokenInit"
    and "negResult (negTokenTarg s) = SPNEGO_NONE_RESULT"
  shows "\<exists>n blob. spnego_write_data s = Inr (Some (n, blob)) \<and> spnego_read_data junk blob =
    Some (Inr (Some (n, s\<lparr>negTokenTarg := (negTokenTarg s)\<lparr>negResult := SPNEGO_ACCEPT_COMPLETED\<rparr>\<rparr>)))"
  using targ_roundtrip [OF assms(1-3), of junk] assms(4) by (simp add: targ_back_def)

end
