(* ===== verification/Des.thy ===== *)
theory Des
  imports Smb_Prelude
begin

text \<open>
  The DES of \<open>libcli/auth/smbdes.c\<close>. As in the source a bit is a byte that is 0 or 1, and the bits of a block are
  an array of 64 of them. The functions on bytes take pointers: a list is what the pointer points at,
  \<open>drop n p\<close> is \<open>p + n\<close>, and an array that is too short is \<open>Fault\<close>. The arrays of the inner functions have the
  lengths the source declares; the theory \<open>Des_Props\<close> shows that all their indices are in range.
\<close>

type_synonym bits = "u8 list"

definition perm1 :: "nat list" where
  "perm1 = [57, 49, 41, 33, 25, 17, 9, 1, 58, 50, 42, 34, 26, 18, 10, 2,
     59, 51, 43, 35, 27, 19, 11, 3, 60, 52, 44, 36, 63, 55, 47, 39,
     31, 23, 15, 7, 62, 54, 46, 38, 30, 22, 14, 6, 61, 53, 45, 37,
     29, 21, 13, 5, 28, 20, 12, 4]"

definition perm2 :: "nat list" where
  "perm2 = [14, 17, 11, 24, 1, 5, 3, 28, 15, 6, 21, 10, 23, 19, 12, 4,
     26, 8, 16, 7, 27, 20, 13, 2, 41, 52, 31, 37, 47, 55, 30, 40,
     51, 45, 33, 48, 44, 49, 39, 56, 34, 53, 46, 42, 50, 36, 29, 32]"

definition perm3 :: "nat list" where
  "perm3 = [58, 50, 42, 34, 26, 18, 10, 2, 60, 52, 44, 36, 28, 20, 12, 4,
     62, 54, 46, 38, 30, 22, 14, 6, 64, 56, 48, 40, 32, 24, 16, 8,
     57, 49, 41, 33, 25, 17, 9, 1, 59, 51, 43, 35, 27, 19, 11, 3,
     61, 53, 45, 37, 29, 21, 13, 5, 63, 55, 47, 39, 31, 23, 15, 7]"

definition perm4 :: "nat list" where
  "perm4 = [32, 1, 2, 3, 4, 5, 4, 5, 6, 7, 8, 9, 8, 9, 10, 11,
     12, 13, 12, 13, 14, 15, 16, 17, 16, 17, 18, 19, 20, 21, 20, 21,
     22, 23, 24, 25, 24, 25, 26, 27, 28, 29, 28, 29, 30, 31, 32, 1]"

definition perm5 :: "nat list" where
  "perm5 = [16, 7, 20, 21, 29, 12, 28, 17, 1, 15, 23, 26, 5, 18, 31, 10,
     2, 8, 24, 14, 32, 27, 3, 9, 19, 13, 30, 6, 22, 11, 4, 25]"

definition perm6 :: "nat list" where
  "perm6 = [40, 8, 48, 16, 56, 24, 64, 32, 39, 7, 47, 15, 55, 23, 63, 31,
     38, 6, 46, 14, 54, 22, 62, 30, 37, 5, 45, 13, 53, 21, 61, 29,
     36, 4, 44, 12, 52, 20, 60, 28, 35, 3, 43, 11, 51, 19, 59, 27,
     34, 2, 42, 10, 50, 18, 58, 26, 33, 1, 41, 9, 49, 17, 57, 25]"

definition sc :: "nat list" where
  "sc = [1, 1, 2, 2, 2, 2, 2, 2, 1, 2, 2, 2, 2, 2, 2, 1]"

definition des_sbox :: "nat list list list" where
  "des_sbox =
    [[[14, 4, 13, 1, 2, 15, 11, 8, 3, 10, 6, 12, 5, 9, 0, 7],
      [0, 15, 7, 4, 14, 2, 13, 1, 10, 6, 12, 11, 9, 5, 3, 8],
      [4, 1, 14, 8, 13, 6, 2, 11, 15, 12, 9, 7, 3, 10, 5, 0],
      [15, 12, 8, 2, 4, 9, 1, 7, 5, 11, 3, 14, 10, 0, 6, 13]],
     [[15, 1, 8, 14, 6, 11, 3, 4, 9, 7, 2, 13, 12, 0, 5, 10],
      [3, 13, 4, 7, 15, 2, 8, 14, 12, 0, 1, 10, 6, 9, 11, 5],
      [0, 14, 7, 11, 10, 4, 13, 1, 5, 8, 12, 6, 9, 3, 2, 15],
      [13, 8, 10, 1, 3, 15, 4, 2, 11, 6, 7, 12, 0, 5, 14, 9]],
     [[10, 0, 9, 14, 6, 3, 15, 5, 1, 13, 12, 7, 11, 4, 2, 8],
      [13, 7, 0, 9, 3, 4, 6, 10, 2, 8, 5, 14, 12, 11, 15, 1],
      [13, 6, 4, 9, 8, 15, 3, 0, 11, 1, 2, 12, 5, 10, 14, 7],
      [1, 10, 13, 0, 6, 9, 8, 7, 4, 15, 14, 3, 11, 5, 2, 12]],
     [[7, 13, 14, 3, 0, 6, 9, 10, 1, 2, 8, 5, 11, 12, 4, 15],
      [13, 8, 11, 5, 6, 15, 0, 3, 4, 7, 2, 12, 1, 10, 14, 9],
      [10, 6, 9, 0, 12, 11, 7, 13, 15, 1, 3, 14, 5, 2, 8, 4],
      [3, 15, 0, 6, 10, 1, 13, 8, 9, 4, 5, 11, 12, 7, 2, 14]],
     [[2, 12, 4, 1, 7, 10, 11, 6, 8, 5, 3, 15, 13, 0, 14, 9],
      [14, 11, 2, 12, 4, 7, 13, 1, 5, 0, 15, 10, 3, 9, 8, 6],
      [4, 2, 1, 11, 10, 13, 7, 8, 15, 9, 12, 5, 6, 3, 0, 14],
      [11, 8, 12, 7, 1, 14, 2, 13, 6, 15, 0, 9, 10, 4, 5, 3]],
     [[12, 1, 10, 15, 9, 2, 6, 8, 0, 13, 3, 4, 14, 7, 5, 11],
      [10, 15, 4, 2, 7, 12, 9, 5, 6, 1, 13, 14, 0, 11, 3, 8],
      [9, 14, 15, 5, 2, 8, 12, 3, 7, 0, 4, 10, 1, 13, 11, 6],
      [4, 3, 2, 12, 9, 5, 15, 10, 11, 14, 1, 7, 6, 0, 8, 13]],
     [[4, 11, 2, 14, 15, 0, 8, 13, 3, 12, 9, 7, 5, 10, 6, 1],
      [13, 0, 11, 7, 4, 9, 1, 10, 14, 3, 5, 12, 2, 15, 8, 6],
      [1, 4, 11, 13, 12, 3, 7, 14, 10, 15, 6, 8, 0, 5, 9, 2],
      [6, 11, 13, 8, 1, 4, 10, 7, 9, 5, 0, 15, 14, 2, 3, 12]],
     [[13, 2, 8, 4, 6, 15, 11, 1, 10, 9, 3, 14, 5, 0, 12, 7],
      [1, 15, 13, 8, 10, 3, 7, 4, 12, 5, 6, 11, 0, 14, 9, 2],
      [7, 11, 4, 1, 9, 12, 14, 2, 0, 6, 10, 13, 15, 3, 5, 8],
      [2, 1, 14, 7, 4, 10, 8, 13, 15, 12, 9, 0, 3, 5, 6, 11]]]"

definition permute :: "bits \<Rightarrow> nat list \<Rightarrow> bits" where
  "permute inp p = map (\<lambda>i. inp ! (i - 1)) p"

definition des_lshift :: "bits \<Rightarrow> nat \<Rightarrow> nat \<Rightarrow> bits" where
  "des_lshift d cnt n = map (\<lambda>i. d ! ((i + cnt) mod n)) [0..<n]"

definition des_concat :: "bits \<Rightarrow> bits \<Rightarrow> bits" where
  "des_concat in1 in2 = in1 @ in2"

definition des_xor :: "bits \<Rightarrow> bits \<Rightarrow> bits" where
  "des_xor in1 in2 = map2 (XOR) in1 in2"

section \<open>The block function\<close>

text \<open>The keys \<open>ki\<close> of the rounds.\<close>

fun round_keys :: "bits \<Rightarrow> bits \<Rightarrow> nat list \<Rightarrow> bits list" where
  "round_keys c d [] = []"
| "round_keys c d (s # ss) =
     (let c = des_lshift c s 28; d = des_lshift d s 28
      in permute (des_concat c d) perm2 # round_keys c d ss)"

text \<open>The row \<open>m\<close>, the column \<open>n\<close> and the four bits from box \<open>j\<close> for the six bits \<open>b\<close>.\<close>

definition sbox_row :: "bits \<Rightarrow> nat" where
  "sbox_row b = unat (push_bit 1 (b ! 0) OR b ! 5)"

definition sbox_column :: "bits \<Rightarrow> nat" where
  "sbox_column b = unat (push_bit 3 (b ! 1) OR push_bit 2 (b ! 2) OR push_bit 1 (b ! 3) OR b ! 4)"

definition sbox_out :: "nat \<Rightarrow> bits \<Rightarrow> bits" where
  "sbox_out j b = map (\<lambda>k. if bit (des_sbox ! j ! sbox_row b ! sbox_column b) (3 - k) then 1 else 0) [0..<4]"

definition des_boxes :: "bits \<Rightarrow> bits" where
  "des_boxes erk = concat (map (\<lambda>j. sbox_out j (take 6 (drop (j * 6) erk))) [0..<8])"

definition des_round :: "bits \<times> bits \<Rightarrow> bits \<Rightarrow> bits \<times> bits" where
  "des_round lr k =
     (case lr of (l, r) \<Rightarrow>
        let erk = des_xor (permute r perm4) k;
            pcb = permute (des_boxes erk) perm5
        in (r, des_xor l pcb))"

definition dohash :: "bits \<Rightarrow> bits \<Rightarrow> bool \<Rightarrow> bits" where
  "dohash inp key forw =
     (let pk1 = permute key perm1;
          ki = round_keys (take 28 pk1) (drop 28 pk1) sc;
          pd1 = permute inp perm3;
          (l, r) = foldl des_round (take 32 pd1, drop 32 pd1) (map (\<lambda>i. ki ! (if forw then i else 15 - i)) [0..<16])
      in permute (des_concat r l) perm6)"

section \<open>Blocks of bytes\<close>

definition str_to_key :: "bytes \<Rightarrow> bytes" where
  "str_to_key str =
     map (push_bit 1)
       [drop_bit 1 (str ! 0),
        push_bit 6 (str ! 0 AND 0x01) OR drop_bit 2 (str ! 1),
        push_bit 5 (str ! 1 AND 0x03) OR drop_bit 3 (str ! 2),
        push_bit 4 (str ! 2 AND 0x07) OR drop_bit 4 (str ! 3),
        push_bit 3 (str ! 3 AND 0x0F) OR drop_bit 5 (str ! 4),
        push_bit 2 (str ! 4 AND 0x1F) OR drop_bit 6 (str ! 5),
        push_bit 1 (str ! 5 AND 0x3F) OR drop_bit 7 (str ! 6),
        str ! 6 AND 0x7F]"

definition to_bits :: "bytes \<Rightarrow> bits" where
  "to_bits p = map (\<lambda>i. if p ! (i div 8) AND push_bit (7 - i mod 8) 1 \<noteq> 0 then 1 else 0) [0..<64]"

definition set_bits :: "bits \<Rightarrow> bytes \<Rightarrow> nat \<Rightarrow> bytes" where
  "set_bits outb out i = (if outb ! i \<noteq> 0 then out[i div 8 := out ! (i div 8) OR push_bit (7 - i mod 8) 1] else out)"

definition of_bits :: "bits \<Rightarrow> bytes" where
  "of_bits outb = foldl (set_bits outb) (replicate 8 0) [0..<64]"

definition des_crypt56 :: "bytes \<Rightarrow> bytes \<Rightarrow> bool \<Rightarrow> bytes res" where
  "des_crypt56 inp key forw =
     chk (get_bytes inp 0 8) (\<lambda>inp. chk (get_bytes key 0 7) (\<lambda>key.
       Inr (of_bits (dohash (to_bits inp) (to_bits (str_to_key key)) forw))))"

text \<open>Two blocks, the second at the offset 8 of the output.\<close>

definition two_blocks :: "bytes res \<Rightarrow> bytes res \<Rightarrow> bytes res" where
  "two_blocks a b = chk a (\<lambda>a. chk b (\<lambda>b. Inr (a @ b)))"

definition E_P16 :: "bytes \<Rightarrow> bytes res" where
  "E_P16 p14 =
     (let sp8 = [0x4b, 0x47, 0x53, 0x21, 0x40, 0x23, 0x24, 0x25]
      in two_blocks (des_crypt56 sp8 p14 True) (des_crypt56 sp8 (drop 7 p14) True))"

definition E_P24 :: "bytes \<Rightarrow> bytes \<Rightarrow> bytes res" where
  "E_P24 p21 c8 =
     two_blocks (two_blocks (des_crypt56 c8 p21 True) (des_crypt56 c8 (drop 7 p21) True)) (des_crypt56 c8 (drop 14 p21) True)"

definition D_P16 :: "bytes \<Rightarrow> bytes \<Rightarrow> bytes res" where
  "D_P16 p14 inp = two_blocks (des_crypt56 inp p14 False) (des_crypt56 (drop 8 inp) (drop 7 p14) False)"

definition E_old_pw_hash :: "bytes \<Rightarrow> bytes \<Rightarrow> bytes res" where
  "E_old_pw_hash p14 inp = two_blocks (des_crypt56 inp p14 True) (des_crypt56 (drop 8 inp) (drop 7 p14) True)"

definition des_crypt128 :: "bytes \<Rightarrow> bytes \<Rightarrow> bytes res" where
  "des_crypt128 inp key = chk (des_crypt56 inp key True) (\<lambda>buf. des_crypt56 buf (drop 9 key) True)"

definition des_crypt64 :: "bytes \<Rightarrow> bytes \<Rightarrow> bool \<Rightarrow> bytes res" where
  "des_crypt64 inp key forw =
     chk (des_crypt56 inp key forw) (\<lambda>buf. chk (get_byte key 7) (\<lambda>k7. des_crypt56 buf (k7 # replicate 7 0) forw))"

definition des_crypt112 :: "bytes \<Rightarrow> bytes \<Rightarrow> bool \<Rightarrow> bytes res" where
  "des_crypt112 inp key forw = chk (des_crypt56 inp key forw) (\<lambda>buf. des_crypt56 buf (drop 7 key) forw)"

definition des_crypt112_16 :: "bytes \<Rightarrow> bytes \<Rightarrow> bool \<Rightarrow> bytes res" where
  "des_crypt112_16 inp key forw = two_blocks (des_crypt56 inp key forw) (des_crypt56 (drop 8 inp) (drop 7 key) forw)"

definition sam_rid_crypt :: "u32 \<Rightarrow> bytes \<Rightarrow> bool \<Rightarrow> bytes res" where
  "sam_rid_crypt rid inp forw =
     (let b0 = ucast (rid AND 0xFF); b1 = ucast (drop_bit 8 rid AND 0xFF);
          b2 = ucast (drop_bit 16 rid AND 0xFF); b3 = ucast (drop_bit 24 rid AND 0xFF);
          s = [b0, b1, b2, b3, b0, b1, b2, b3, b0, b1, b2, b3, b0, b1]
      in two_blocks (des_crypt56 inp s forw) (des_crypt56 (drop 8 inp) (drop 7 s) forw))"

end
