(* ===== verification/Netlogon.thy ===== *)
theory Netlogon
  imports Des Crypto
begin

text \<open>
  The chain of netlogon credentials, \<open>libcli/auth/credentials.c\<close>: both sides derive a session key from two challenges
  and the machine password and prove to each other with every call that they know it. A credential is an array of 8
  bytes, the session key and the password hash are arrays of 16. A NULL pointer is None. The fields of the state
  that this code does not use are left out. \<open>now\<close> is the result of \<open>time(NULL)\<close>; \<open>time_t\<close> has 64 bits.
\<close>

definition NETLOGON_NEG_ARCFOUR :: u32 where "NETLOGON_NEG_ARCFOUR = 0x00000004"
definition NETLOGON_NEG_128BIT :: u32 where "NETLOGON_NEG_128BIT = 0x00004000"

record creds_CredentialState =
  creds_negotiate_flags :: u32
  creds_session_key :: bytes
  creds_sequence :: u32
  creds_seed :: bytes
  creds_client :: bytes
  creds_server :: bytes

record netr_Authenticator =
  auth_cred :: bytes
  auth_timestamp :: u64

text \<open>\<open>SIVAL(p, 0, a); SIVAL(p, 4, b)\<close> into an array of 8 bytes.\<close>

definition cred_words :: "u32 \<Rightarrow> u32 \<Rightarrow> bytes res" where
  "cred_words a b = chk (SIVAL (replicate 8 0) 0 a) (\<lambda>p. SIVAL p 4 b)"

text \<open>The end of both initialisations: the two credentials and the seed.\<close>

definition init_creds :: "creds_CredentialState \<Rightarrow> bytes \<Rightarrow> bytes \<Rightarrow> creds_CredentialState res" where
  "init_creds creds client_challenge server_challenge =
     chk (des_crypt112 client_challenge (creds_session_key creds) True) (\<lambda>c.
     chk (des_crypt112 server_challenge (creds_session_key creds) True) (\<lambda>s.
       Inr (creds\<lparr>creds_client := c, creds_server := s, creds_seed := c\<rparr>)))"

definition creds_init_64bit :: "creds_CredentialState \<Rightarrow> bytes \<Rightarrow> bytes \<Rightarrow> bytes \<Rightarrow> creds_CredentialState res" where
  "creds_init_64bit creds client_challenge server_challenge machine_password =
     chk (IVAL client_challenge 0) (\<lambda>c0. chk (IVAL server_challenge 0) (\<lambda>s0.
     chk (IVAL client_challenge 4) (\<lambda>c4. chk (IVAL server_challenge 4) (\<lambda>s4.
     chk (cred_words (c0 + s0) (c4 + s4)) (\<lambda>sum2.
     chk (des_crypt128 sum2 machine_password) (\<lambda>k.
       init_creds (creds\<lparr>creds_session_key := k @ replicate 8 0\<rparr>) client_challenge server_challenge))))))"

definition creds_init_128bit :: "creds_CredentialState \<Rightarrow> bytes \<Rightarrow> bytes \<Rightarrow> bytes \<Rightarrow> creds_CredentialState res" where
  "creds_init_128bit creds client_challenge server_challenge machine_password =
     chk (get_bytes machine_password 0 16) (\<lambda>password.
     chk (get_bytes client_challenge 0 8) (\<lambda>cc. chk (get_bytes server_challenge 0 8) (\<lambda>s.
       let ctx = hmac_md5_init_rfc2104 password;
           tmp = MD5Final (MD5Update (MD5Update (MD5Update (MD5Init md5_fresh) [0, 0, 0, 0]) cc) s);
           key = hmac_md5_final (hmac_md5_update tmp ctx)
       in init_creds (creds\<lparr>creds_session_key := key\<rparr>) client_challenge server_challenge)))"

definition creds_step :: "creds_CredentialState \<Rightarrow> creds_CredentialState res" where
  "creds_step creds =
     chk (IVAL (creds_seed creds) 0) (\<lambda>s0. chk (IVAL (creds_seed creds) 4) (\<lambda>s4.
     chk (cred_words (s0 + creds_sequence creds) s4) (\<lambda>time_cred.
     chk (des_crypt112 time_cred (creds_session_key creds) True) (\<lambda>c.
     chk (cred_words (s0 + creds_sequence creds + 1) s4) (\<lambda>time_cred.
     chk (des_crypt112 time_cred (creds_session_key creds) True) (\<lambda>s.
       Inr (creds\<lparr>creds_client := c, creds_server := s, creds_seed := time_cred\<rparr>)))))))"

section \<open>Encrypting keys and passwords\<close>

definition creds_des_encrypt_LMKey :: "creds_CredentialState \<Rightarrow> bytes \<Rightarrow> bytes res" where
  "creds_des_encrypt_LMKey creds key = des_crypt56 key (creds_session_key creds) True"

definition creds_des_decrypt_LMKey :: "creds_CredentialState \<Rightarrow> bytes \<Rightarrow> bytes res" where
  "creds_des_decrypt_LMKey creds key = des_crypt56 key (creds_session_key creds) False"

definition creds_des_encrypt :: "creds_CredentialState \<Rightarrow> bytes \<Rightarrow> bytes res" where
  "creds_des_encrypt creds pass = des_crypt112_16 pass (creds_session_key creds) True"

definition creds_des_decrypt :: "creds_CredentialState \<Rightarrow> bytes \<Rightarrow> bytes res" where
  "creds_des_decrypt creds pass = des_crypt112_16 pass (creds_session_key creds) False"

definition creds_arcfour_crypt :: "creds_CredentialState \<Rightarrow> bytes \<Rightarrow> bytes res" where
  "creds_arcfour_crypt creds dat = chk (get_bytes (creds_session_key creds) 0 16) (\<lambda>key. arcfour_crypt_blob dat key)"

section \<open>The client\<close>

definition creds_init :: "creds_CredentialState \<Rightarrow> bytes \<Rightarrow> bytes \<Rightarrow> bytes \<Rightarrow> u32 \<Rightarrow> creds_CredentialState res" where
  "creds_init creds client_challenge server_challenge machine_password flags =
     (if flags AND NETLOGON_NEG_128BIT \<noteq> 0
      then creds_init_128bit creds client_challenge server_challenge machine_password
      else creds_init_64bit creds client_challenge server_challenge machine_password)"

definition creds_client_init ::
  "u64 \<Rightarrow> creds_CredentialState \<Rightarrow> bytes \<Rightarrow> bytes \<Rightarrow> bytes \<Rightarrow> u32 \<Rightarrow> (bytes \<times> creds_CredentialState) res" where
  "creds_client_init now creds client_challenge server_challenge machine_password flags =
     chk (creds_init (creds\<lparr>creds_sequence := ucast now, creds_negotiate_flags := flags\<rparr>)
       client_challenge server_challenge machine_password flags) (\<lambda>creds. Inr (creds_client creds, creds))"

definition creds_client_authenticator :: "creds_CredentialState \<Rightarrow> (netr_Authenticator \<times> creds_CredentialState) res" where
  "creds_client_authenticator creds =
     chk (creds_step (creds\<lparr>creds_sequence := creds_sequence creds + 2\<rparr>)) (\<lambda>creds.
       Inr (\<lparr>auth_cred = creds_client creds, auth_timestamp = ucast (creds_sequence creds)\<rparr>, creds))"

definition creds_client_check :: "creds_CredentialState \<Rightarrow> bytes option \<Rightarrow> bool res" where
  "creds_client_check creds received =
     (case received of
        None \<Rightarrow> Inr False
      | Some p \<Rightarrow> chk (get_bytes p 0 8) (\<lambda>p. chk (get_bytes (creds_server creds) 0 8) (\<lambda>s. Inr (p = s))))"

section \<open>The server\<close>

definition creds_server_init ::
  "creds_CredentialState \<Rightarrow> bytes \<Rightarrow> bytes \<Rightarrow> bytes \<Rightarrow> u32 \<Rightarrow> (bytes \<times> creds_CredentialState) res" where
  "creds_server_init creds client_challenge server_challenge machine_password flags =
     chk (creds_init creds client_challenge server_challenge machine_password flags) (\<lambda>creds.
       Inr (creds_server creds, creds\<lparr>creds_negotiate_flags := flags\<rparr>))"

definition creds_server_check :: "creds_CredentialState \<Rightarrow> bytes \<Rightarrow> bool res" where
  "creds_server_check creds received =
     chk (get_bytes received 0 8) (\<lambda>p. chk (get_bytes (creds_client creds) 0 8) (\<lambda>c. Inr (p = c)))"

text \<open>The status, the state and the authenticator for the reply. Both are changed on failure too.\<close>

definition creds_server_step_check ::
  "creds_CredentialState option \<Rightarrow> netr_Authenticator option \<Rightarrow> netr_Authenticator option \<Rightarrow>
   (u32 \<times> creds_CredentialState option \<times> netr_Authenticator option) res" where
  "creds_server_step_check creds received ret =
     (case (received, ret) of
        (Some received, Some r) \<Rightarrow>
          (case creds of
             None \<Rightarrow> Inr (NT_STATUS_ACCESS_DENIED, None, ret)
           | Some creds \<Rightarrow>
               chk (creds_step (creds\<lparr>creds_sequence := ucast (auth_timestamp received)\<rparr>)) (\<lambda>creds.
               chk (creds_server_check creds (auth_cred received)) (\<lambda>ok.
                 if ok then Inr (NT_STATUS_OK, Some creds,
                   Some \<lparr>auth_cred = creds_server creds, auth_timestamp = ucast (creds_sequence creds)\<rparr>)
                 else Inr (NT_STATUS_ACCESS_DENIED, Some creds, Some \<lparr>auth_cred = replicate 8 0, auth_timestamp = 0\<rparr>))))
      | _ \<Rightarrow> Inr (NT_STATUS_INVALID_PARAMETER, creds, ret))"

section \<open>The keys of a logon\<close>

record netr_SamBaseInfo =
  user_session_key :: bytes
  LMSessKey :: bytes

text \<open>\<open>base\<close> is the structure the pointer of the union for this level points at.\<close>

definition creds_decrypt_samlogon ::
  "creds_CredentialState \<Rightarrow> u16 \<Rightarrow> netr_SamBaseInfo option \<Rightarrow> netr_SamBaseInfo option res" where
  "creds_decrypt_samlogon creds validation_level base =
     (if validation_level = 2 \<or> validation_level = 3 \<or> validation_level = 6 then
        (case base of
           None \<Rightarrow> Inr None
         | Some b \<Rightarrow>
             if validation_level = 6 then Inr base
             else if creds_negotiate_flags creds AND NETLOGON_NEG_ARCFOUR \<noteq> 0 then
               chk (if user_session_key b \<noteq> replicate 16 0 then creds_arcfour_crypt creds (user_session_key b) else Inr (user_session_key b)) (\<lambda>k.
               chk (if LMSessKey b \<noteq> replicate 8 0 then creds_arcfour_crypt creds (LMSessKey b) else Inr (LMSessKey b)) (\<lambda>lm.
                 Inr (Some (b\<lparr>user_session_key := k, LMSessKey := lm\<rparr>))))
             else
               chk (if LMSessKey b \<noteq> replicate 8 0 then creds_des_decrypt_LMKey creds (LMSessKey b) else Inr (LMSessKey b)) (\<lambda>lm.
                 Inr (Some (b\<lparr>LMSessKey := lm\<rparr>))))
      else Inr base)"

end
