(* ===== verification/Des_Props.thy ===== *)
theory Des_Props
  imports Des
begin

text \<open>
  DES decrypts what it encrypts. The rounds are a Feistel network, whose inversion is proved once in the locale
  \<open>feistel\<close>; around it are two permutations that undo each other and the packing of bits into bytes.
  The functions that use two keys in a row do not decrypt: they take the keys in the same order both ways.
\<close>

section \<open>Feistel networks\<close>

locale feistel =
  fixes mix :: "'a \<Rightarrow> 'a \<Rightarrow> 'a" and f :: "'a \<Rightarrow> 'k \<Rightarrow> 'a" and half :: "'a \<Rightarrow> bool"
  assumes cancel: "half l \<Longrightarrow> half m \<Longrightarrow> mix (mix l m) m = l"
    and half_mix: "half l \<Longrightarrow> half m \<Longrightarrow> half (mix l m)"
    and half_f: "half r \<Longrightarrow> half (f r k)"
begin

definition one_round :: "'a \<times> 'a \<Rightarrow> 'k \<Rightarrow> 'a \<times> 'a" where
  "one_round lr k = (snd lr, mix (fst lr) (f (snd lr) k))"

lemma one_round_pair: "one_round (l, r) k = (r, mix l (f r k))"
  by (simp add: one_round_def)

lemma halves: "half l \<Longrightarrow> half r \<Longrightarrow> foldl one_round (l, r) ks = (l', r') \<Longrightarrow> half l' \<and> half r'"
proof (induction ks arbitrary: l r)
  case (Cons k ks)
  then show ?case using Cons.IH [of r "mix l (f r k)"] by (simp add: one_round_pair half_mix half_f)
qed simp

lemma undo:
  assumes "half l" and "half r" and "foldl one_round (l, r) ks = (l', r')"
  shows "foldl one_round (r', l') (rev ks) = (r, l)"
  using assms
proof (induction ks arbitrary: l r)
  case (Cons k ks)
  then have "foldl one_round (r', l') (rev ks) = (mix l (f r k), r)"
    by (intro Cons.IH) (simp_all add: one_round_pair half_mix half_f)
  with Cons.prems show ?case by (simp add: one_round_pair cancel half_f)
qed simp

end

lemma length_permute [simp]: "length (permute inp p) = length p"
  by (simp add: permute_def)

lemma length_des_xor [simp]: "length (des_xor a b) = min (length a) (length b)"
  by (simp add: des_xor_def)

lemma des_xor_cancel: "length a = length b \<Longrightarrow> des_xor (des_xor a b) b = a"
  by (rule nth_equalityI) (simp_all add: des_xor_def xor.assoc)

lemma length_perms [simp]:
  "length perm1 = 56" "length perm2 = 48" "length perm3 = 64" "length perm4 = 48" "length perm5 = 32" "length perm6 = 64"
  by (simp_all add: perm1_def perm2_def perm3_def perm4_def perm5_def perm6_def)

interpretation des: feistel des_xor "\<lambda>r k. permute (des_boxes (des_xor (permute r perm4) k)) perm5" "\<lambda>x. length x = 32"
  by unfold_locales (simp_all add: des_xor_cancel)

lemma des_round_eq: "des_round = des.one_round"
  by (simp add: fun_eq_iff des_round_def des.one_round_def Let_def)

section \<open>Permutations\<close>

lemma permute_permute:
  assumes "list_all (\<lambda>i. 1 \<le> i \<and> i \<le> length p) q"
  shows "permute (permute inp p) q = permute inp (map (\<lambda>i. p ! (i - 1)) q)"
  using assms by (auto simp: permute_def list_all_iff)

lemma permute_id: "length inp = n \<Longrightarrow> permute inp [1..<n + 1] = inp"
  by (intro nth_equalityI) (simp_all add: permute_def del: upt_Suc)

lemma perm_inverse:
  "list_all (\<lambda>i. 1 \<le> i \<and> i \<le> length perm3) perm6" "list_all (\<lambda>i. 1 \<le> i \<and> i \<le> length perm6) perm3"
  "map (\<lambda>i. perm3 ! (i - 1)) perm6 = [1..<64 + 1]" "map (\<lambda>i. perm6 ! (i - 1)) perm3 = [1..<64 + 1]"
  by code_simp+

lemma perm_36: "length x = 64 \<Longrightarrow> permute (permute x perm3) perm6 = x"
  unfolding permute_permute [OF perm_inverse(1)] perm_inverse(3) by (rule permute_id)

lemma perm_63: "length x = 64 \<Longrightarrow> permute (permute x perm6) perm3 = x"
  unfolding permute_permute [OF perm_inverse(2)] perm_inverse(4) by (rule permute_id)

section \<open>The block function\<close>

definition keys_of :: "bits \<Rightarrow> bits list" where
  "keys_of key = round_keys (take 28 (permute key perm1)) (drop 28 (permute key perm1)) sc"

lemma length_round_keys [simp]: "length (round_keys c d ss) = length ss"
  by (induction c d ss rule: round_keys.induct) (simp_all add: Let_def)

lemma length_keys_of: "length (keys_of key) = 16"
  unfolding keys_of_def length_round_keys by (simp add: sc_def)

lemma key_order:
  assumes "length ks = n" and "m + 1 = n"
  shows "map (\<lambda>i. ks ! (if forw then i else m - i)) [0..<n] = (if forw then ks else rev ks)"
proof (cases forw)
  case True
  with assms(1) map_nth [of ks] show ?thesis by simp
next
  case False
  have "map (\<lambda>i. ks ! (m - i)) [0..<n] = rev ks"
    using assms by (intro nth_equalityI) (auto simp: rev_nth intro!: arg_cong [of _ _ "(!) ks"])
  with False show ?thesis by simp
qed

lemma dohash_rounds:
  "dohash inp key forw =
     (case foldl des.one_round (take 32 (permute inp perm3), drop 32 (permute inp perm3)) (if forw then keys_of key else rev (keys_of key)) of
        (l, r) \<Rightarrow> permute (r @ l) perm6)"
proof -
  have "map (\<lambda>i. keys_of key ! (if forw then i else 15 - i)) [0..<16] = (if forw then keys_of key else rev (keys_of key))"
    by (rule key_order [OF length_keys_of]) simp
  then show ?thesis unfolding dohash_def Let_def des_round_eq des_concat_def keys_of_def by (simp only:)
qed

lemma dohash_dohash:
  assumes "length x = 64"
  shows "dohash (dohash x key forw) key (\<not> forw) = x"
proof -
  let ?p = "permute x perm3" and ?ks = "if forw then keys_of key else rev (keys_of key)"
  obtain l r where lr: "foldl des.one_round (take 32 ?p, drop 32 ?p) ?ks = (l, r)" by force
  have h: "length (take 32 ?p) = 32" "length (drop 32 ?p) = 32" by simp_all
  from des.halves [OF h lr] have lens: "length l = 32" "length r = 32" by simp_all
  have u: "foldl des.one_round (r, l) (rev ?ks) = (drop 32 ?p, take 32 ?p)" using des.undo [OF h lr] .
  have "dohash x key forw = permute (r @ l) perm6" unfolding dohash_rounds lr by simp
  moreover have "permute (permute (r @ l) perm6) perm3 = r @ l" using lens by (intro perm_63) simp
  ultimately have "dohash (dohash x key forw) key (\<not> forw) = permute (take 32 ?p @ drop 32 ?p) perm6"
    using u lens by (cases forw) (simp_all add: dohash_rounds [of "permute (r @ l) perm6"])
  then show ?thesis using assms by (simp add: perm_36)
qed

section \<open>Bits and bytes\<close>

definition is_bits :: "nat \<Rightarrow> bits \<Rightarrow> bool" where
  "is_bits n b \<longleftrightarrow> length b = n \<and> set b \<subseteq> {0, 1}"

lemma is_bits_nth: "is_bits n b \<Longrightarrow> i < n \<Longrightarrow> b ! i = 0 \<or> b ! i = 1"
  using nth_mem [of i b] unfolding is_bits_def by (metis subsetD insertE singletonD)

lemma test_bit: "(w :: u8) AND push_bit n 1 \<noteq> 0 \<longleftrightarrow> bit w n"
proof -
  have "w AND push_bit n 1 = (if bit w n then push_bit n 1 else 0)"
    by (rule bit_word_eqI) (auto simp: bit_simps)
  then show ?thesis by (auto simp: bit_eq_iff [of "push_bit n 1"] bit_simps dest: bit_imp_le_length)
qed

lemma to_bits_nth: "i < 64 \<Longrightarrow> to_bits p ! i = (if bit (p ! (i div 8)) (7 - i mod 8) then 1 else 0)"
  by (simp add: to_bits_def test_bit del: push_bit_of_1)

lemma is_bits_to_bits: "is_bits 64 (to_bits p)"
  by (auto simp: is_bits_def to_bits_def)

lemma byte_index: "(c :: nat) < 8 \<Longrightarrow> (8 * j + c) div 8 = j \<and> (8 * j + c) mod 8 = c \<and> (j < 8 \<longrightarrow> 8 * j + c < 64)"
  by auto

lemma bit_index:
  assumes "(k :: nat) < 8"
  shows "(8 * j + (7 - k)) div 8 = j" "(8 * j + (7 - k)) mod 8 = 7 - k" "j < 8 \<Longrightarrow> 8 * j + (7 - k) < 64"
proof -
  have "7 - k < 8" by simp
  from byte_index [OF this, of j]
  show "(8 * j + (7 - k)) div 8 = j" "(8 * j + (7 - k)) mod 8 = 7 - k" "j < 8 \<Longrightarrow> 8 * j + (7 - k) < 64" by blast+
qed

lemma bit_index_eq: "k < 8 \<Longrightarrow> 8 * j + (7 - k) = n \<longleftrightarrow> j = n div 8 \<and> k = 7 - n mod 8" for n k j :: nat
proof -
  assume k: "k < 8"
  have "n mod 8 \<le> 7" using mod_less_divisor [of 8 n] by linarith
  then have "8 * (n div 8) + (7 - (7 - n mod 8)) = n" by simp
  moreover have "7 - (7 - k) = k" using k by simp
  ultimately show ?thesis using bit_index [OF k, of j] by metis
qed

lemma set_bits_bit:
  assumes "length out = 8" and "n < 64" and "j < 8"
  shows "bit (set_bits b out n ! j) k \<longleftrightarrow> bit (out ! j) k \<or> b ! n \<noteq> 0 \<and> j = n div 8 \<and> k = 7 - n mod 8"
proof (cases "j = n div 8")
  case True
  have "bit (push_bit (7 - n mod 8) (1 :: u8)) k \<longleftrightarrow> k = 7 - n mod 8"
    by (auto simp: bit_simps bit_push_bit_iff)
  with True assms show ?thesis by (auto simp: set_bits_def bit_or_iff simp del: push_bit_of_1)
next
  case False
  then show ?thesis by (auto simp: set_bits_def simp del: push_bit_of_1)
qed

lemma set_bits_upto:
  assumes "n \<le> 64"
  shows "length (foldl (set_bits b) (replicate 8 0) [0..<n]) = 8 \<and>
    (\<forall>j<8. \<forall>k<8. bit (foldl (set_bits b) (replicate 8 0) [0..<n] ! j) k \<longleftrightarrow> 8 * j + (7 - k) < n \<and> b ! (8 * j + (7 - k)) \<noteq> 0)"
  using assms
proof (induction n)
  case (Suc n)
  let ?o = "foldl (set_bits b) (replicate 8 0) [0..<n]"
  have IH: "length ?o = 8" "\<And>j k. j < 8 \<Longrightarrow> k < 8 \<Longrightarrow> bit (?o ! j) k \<longleftrightarrow> 8 * j + (7 - k) < n \<and> b ! (8 * j + (7 - k)) \<noteq> 0"
    using Suc by simp_all
  have "bit (set_bits b ?o n ! j) k \<longleftrightarrow> 8 * j + (7 - k) < Suc n \<and> b ! (8 * j + (7 - k)) \<noteq> 0" if "j < 8" "k < 8" for j k
  proof -
    let ?i = "8 * j + (7 - k)"
    have "bit (set_bits b ?o n ! j) k \<longleftrightarrow> bit (?o ! j) k \<or> b ! n \<noteq> 0 \<and> j = n div 8 \<and> k = 7 - n mod 8"
      using IH(1) that Suc.prems by (intro set_bits_bit) simp_all
    also have "\<dots> \<longleftrightarrow> ?i < n \<and> b ! ?i \<noteq> 0 \<or> b ! n \<noteq> 0 \<and> ?i = n"
      unfolding IH(2) [OF that] bit_index_eq [OF that(2)] ..
    also have "\<dots> \<longleftrightarrow> ?i < Suc n \<and> b ! ?i \<noteq> 0" unfolding less_Suc_eq by blast
    finally show ?thesis .
  qed
  moreover have "length (set_bits b ?o n) = 8" using IH(1) by (simp add: set_bits_def)
  ultimately show ?case by simp
qed simp

lemma of_bits_props: "length (of_bits b) = 8"
  "j < 8 \<Longrightarrow> k < 8 \<Longrightarrow> bit (of_bits b ! j) k \<longleftrightarrow> b ! (8 * j + (7 - k)) \<noteq> 0"
  using set_bits_upto [of 64 b] by (auto simp: of_bits_def)

lemma of_to_bits: "length p = 8 \<Longrightarrow> of_bits (to_bits p) = p"
proof (rule nth_equalityI)
  fix j
  assume "length p = 8" "j < length (of_bits (to_bits p))"
  then have j: "j < 8" by (simp add: of_bits_props)
  have e: "8 * j + (7 - k) < 64" "(8 * j + (7 - k)) div 8 = j" "7 - (8 * j + (7 - k)) mod 8 = k" if "k < 8" for k
    using bit_index [OF that, of j] j that by simp_all
  show "of_bits (to_bits p) ! j = p ! j"
  proof (rule bit_word_eqI)
    fix k
    assume "k < LENGTH(8)"
    then have k: "k < 8" by simp
    show "bit (of_bits (to_bits p) ! j) k \<longleftrightarrow> bit (p ! j) k"
      unfolding of_bits_props(2) [OF j k] to_bits_nth [OF e(1) [OF k]] e(2,3) [OF k] by simp
  qed
qed (simp add: of_bits_props)

lemma to_of_bits: "is_bits 64 b \<Longrightarrow> to_bits (of_bits b) = b"
proof (rule nth_equalityI)
  fix i
  assume b: "is_bits 64 b" and "i < length (to_bits (of_bits b))"
  then have i: "i < 64" by (simp add: to_bits_def)
  have "i mod 8 \<le> 7" using mod_less_divisor [of 8 i] by linarith
  with i have "i div 8 < 8" "7 - i mod 8 < 8" "8 * (i div 8) + (7 - (7 - i mod 8)) = i" by simp_all
  moreover have "b ! i \<in> {0, 1}" using b i nth_mem [of i b] unfolding is_bits_def by (metis subsetD)
  ultimately show "to_bits (of_bits b) ! i = b ! i"
    using of_bits_props(2) [of "i div 8" "7 - i mod 8" b] by (auto simp: to_bits_nth [OF i])
qed (simp add: is_bits_def to_bits_def)

section \<open>Everything stays in range\<close>

text \<open>The indices of the permutations, and the row and the column in the boxes.\<close>

lemma perm_ranges:
  "set perm1 \<subseteq> {1..64}" "set perm2 \<subseteq> {1..56}" "set perm3 \<subseteq> {1..64}" "set perm4 \<subseteq> {1..32}" "set perm5 \<subseteq> {1..32}" "set perm6 \<subseteq> {1..64}"
  by (simp_all add: perm1_def perm2_def perm3_def perm4_def perm5_def perm6_def)

lemma sbox_dims: "length des_sbox = 8" "list_all (\<lambda>s. length s = 4 \<and> list_all (\<lambda>r. length r = 16) s) des_sbox"
  by (simp_all add: des_sbox_def)

lemma sbox_index_range:
  assumes "is_bits 6 b"
  shows "sbox_row b < 4" "sbox_column b < 16"
proof -
  note b = is_bits_nth [OF assms]
  show "sbox_row b < 4" using b [of 0] b [of 5] by (auto simp: sbox_row_def)
  show "sbox_column b < 16" using b [of 1] b [of 2] b [of 3] b [of 4] by (auto simp: sbox_column_def)
qed

lemma is_bits_permute: "is_bits n x \<Longrightarrow> set p \<subseteq> {1..n} \<Longrightarrow> is_bits (length p) (permute x p)"
proof -
  assume x: "is_bits n x" and p: "set p \<subseteq> {1..n}"
  have "x ! (i - 1) \<in> {0, 1}" if "i \<in> set p" for i
  proof -
    from p that have "i - 1 < length x" using x by (force simp: is_bits_def)
    from nth_mem [OF this] x show ?thesis by (auto simp: is_bits_def)
  qed
  then show ?thesis by (auto simp: is_bits_def permute_def)
qed

lemma is_bits_xor: "is_bits n x \<Longrightarrow> is_bits n y \<Longrightarrow> is_bits n (des_xor x y)"
proof -
  assume xy: "is_bits n x" "is_bits n y"
  have "x ! i XOR y ! i \<in> {0, 1}" if "i < n" for i
    using is_bits_nth [OF xy(1) that] is_bits_nth [OF xy(2) that] by auto
  with xy show ?thesis by (auto simp: is_bits_def des_xor_def set_zip)
qed

lemma is_bits_boxes: "is_bits 32 (des_boxes erk)"
proof -
  have "length (sbox_out j b) = 4" "\<And>x. x \<in> set (sbox_out j b) \<Longrightarrow> x = 0 \<or> x = 1" for j b by (auto simp: sbox_out_def)
  then show ?thesis by (force simp: is_bits_def des_boxes_def length_concat comp_def sum_list_triv)
qed

lemma is_bits_parts: "is_bits (m + n) x \<Longrightarrow> is_bits m (take m x) \<and> is_bits n (drop m x)"
  by (auto simp: is_bits_def dest: in_set_takeD in_set_dropD)

text \<open>The six bits a box is given are bits, so its indices are in range.\<close>

lemma round_boxes_range:
  assumes "is_bits 32 r" and "is_bits 48 k" and "j < 8"
  shows "is_bits 6 (take 6 (drop (j * 6) (des_xor (permute r perm4) k)))"
proof -
  have e: "is_bits 48 (des_xor (permute r perm4) k)"
    using is_bits_permute [OF assms(1) perm_ranges(4)] assms(2) by (intro is_bits_xor) simp_all
  have "is_bits (6 + (42 - j * 6)) (drop (j * 6) (des_xor (permute r perm4) k))"
    using is_bits_parts [of "j * 6" "48 - j * 6"] e assms(3) by simp
  from is_bits_parts [OF this] show ?thesis by simp
qed

lemma is_bits_round: "is_bits 32 l \<and> is_bits 32 r \<Longrightarrow> des_round (l, r) k = (l', r') \<Longrightarrow> is_bits 32 l' \<and> is_bits 32 r'"
  using is_bits_permute [OF is_bits_boxes perm_ranges(5)] by (auto simp: des_round_def Let_def intro!: is_bits_xor)

lemma is_bits_rounds: "is_bits 32 l \<and> is_bits 32 r \<Longrightarrow> foldl des_round (l, r) ks = (l', r') \<Longrightarrow> is_bits 32 l' \<and> is_bits 32 r'"
proof (induction ks arbitrary: l r)
  case (Cons k ks)
  obtain l1 r1 where "des_round (l, r) k = (l1, r1)" by force
  with Cons is_bits_round [of l r k l1 r1] show ?case by simp
qed simp

lemma is_bits_lshift: "is_bits n d \<Longrightarrow> 0 < n \<Longrightarrow> is_bits n (des_lshift d c n)"
proof -
  assume d: "is_bits n d" "0 < n"
  have "d ! ((i + c) mod n) \<in> {0, 1}" for i
    using d nth_mem [of "(i + c) mod n" d] unfolding is_bits_def by (metis mod_less_divisor subsetD)
  then show ?thesis by (auto simp: is_bits_def des_lshift_def)
qed

lemma is_bits_keys: "is_bits 28 c \<Longrightarrow> is_bits 28 d \<Longrightarrow> k \<in> set (round_keys c d ss) \<Longrightarrow> is_bits 48 k"
proof (induction c d ss rule: round_keys.induct)
  case (2 c d s ss)
  have cd: "is_bits 28 (des_lshift c s 28)" "is_bits 28 (des_lshift d s 28)" using 2(2,3) by (simp_all add: is_bits_lshift)
  then have "is_bits 56 (des_concat (des_lshift c s 28) (des_lshift d s 28))" by (auto simp: is_bits_def des_concat_def)
  from is_bits_permute [OF this perm_ranges(2)] 2(1,4) cd show ?case by (auto simp: Let_def)
qed simp

lemma is_bits_dohash:
  assumes "is_bits 64 x"
  shows "is_bits 64 (dohash x key forw)"
proof -
  let ?p = "permute x perm3"
  have "is_bits (32 + 32) ?p" using is_bits_permute [OF assms perm_ranges(3)] by simp
  from is_bits_parts [OF this] have h: "is_bits 32 (take 32 ?p) \<and> is_bits 32 (drop 32 ?p)" .
  obtain l r where lr: "foldl des_round (take 32 ?p, drop 32 ?p) (if forw then keys_of key else rev (keys_of key)) = (l, r)" by force
  from is_bits_rounds [OF h lr] have "is_bits 64 (r @ l)" by (auto simp: is_bits_def)
  from is_bits_permute [OF this perm_ranges(6)] lr show ?thesis by (simp add: dohash_rounds des_round_eq)
qed

section \<open>One block\<close>

lemma des_crypt56_eq:
  "length inp = 8 \<Longrightarrow> 7 \<le> length key \<Longrightarrow>
   des_crypt56 inp key forw = Inr (of_bits (dohash (to_bits inp) (to_bits (str_to_key (take 7 key))) forw))"
  by (simp add: des_crypt56_def get_bytes_def)

lemma des_crypt56_back:
  assumes "length inp = 8" and "7 \<le> length key"
  shows "\<exists>out. des_crypt56 inp key forw = Inr out \<and> length out = 8 \<and> des_crypt56 out key (\<not> forw) = Inr inp"
proof -
  let ?k = "to_bits (str_to_key (take 7 key))"
  have "to_bits (of_bits (dohash (to_bits inp) ?k forw)) = dohash (to_bits inp) ?k forw"
    by (intro to_of_bits is_bits_dohash is_bits_to_bits)
  moreover have "dohash (dohash (to_bits inp) ?k forw) ?k (\<not> forw) = to_bits inp"
    by (rule dohash_dohash) (simp add: to_bits_def)
  ultimately show ?thesis using assms by (simp add: des_crypt56_eq of_bits_props of_to_bits)
qed

lemma des_crypt56_total: "length inp = 8 \<Longrightarrow> 7 \<le> length key \<Longrightarrow> \<exists>out. des_crypt56 inp key forw = Inr out \<and> length out = 8"
  using des_crypt56_back by blast

lemma des_crypt56_inj:
  assumes "length x = 8" "length y = 8" "7 \<le> length key" and "des_crypt56 x key forw = des_crypt56 y key forw"
  shows "x = y"
  using des_crypt56_back [OF assms(1,3), of forw] des_crypt56_back [OF assms(2,3), of forw] assms(4) by auto

text \<open>Pointers into longer arrays.\<close>

lemma des_crypt56_prefix: "8 \<le> length inp \<Longrightarrow> des_crypt56 inp key forw = des_crypt56 (take 8 inp) key forw"
  by (simp add: des_crypt56_def get_bytes_def)

section \<open>Two blocks\<close>

lemma two_blocks_back:
  assumes "length inp = 16" and "7 \<le> length k1" and "7 \<le> length k2"
  shows "\<exists>out. two_blocks (des_crypt56 inp k1 forw) (des_crypt56 (drop 8 inp) k2 forw) = Inr out \<and> length out = 16 \<and>
    two_blocks (des_crypt56 out k1 (\<not> forw)) (des_crypt56 (drop 8 out) k2 (\<not> forw)) = Inr inp"
proof -
  have "length (take 8 inp) = 8" "length (drop 8 inp) = 8" using assms(1) by simp_all
  with des_crypt56_back assms(2,3) obtain a b where
    a: "des_crypt56 (take 8 inp) k1 forw = Inr a" "length a = 8" "des_crypt56 a k1 (\<not> forw) = Inr (take 8 inp)" and
    b: "des_crypt56 (drop 8 inp) k2 forw = Inr b" "length b = 8" "des_crypt56 b k2 (\<not> forw) = Inr (drop 8 inp)"
    by meson
  with assms(1) des_crypt56_prefix [of inp k1 forw] des_crypt56_prefix [of "a @ b" k1 "\<not> forw"] show ?thesis
    by (intro exI [of _ "a @ b"]) (simp add: two_blocks_def)
qed

text \<open>
  C36. DES round trip: on a block of 8 bytes and a key of 7, \<open>des_crypt56\<close> returns a block that the other
  direction turns back; the same holds for the functions that treat two blocks with two keys,
  \<open>des_crypt112_16\<close>, \<open>E_old_pw_hash\<close> with \<open>D_P16\<close>, and \<open>sam_rid_crypt\<close>.
\<close>

theorem des_roundtrip:
  assumes "length block = 8" and "length inp = 16" and "14 \<le> length key"
  shows "(\<exists>c. des_crypt56 block key forw = Inr c \<and> length c = 8 \<and> des_crypt56 c key (\<not> forw) = Inr block) \<and>
    (\<exists>c. des_crypt112_16 inp key forw = Inr c \<and> length c = 16 \<and> des_crypt112_16 c key (\<not> forw) = Inr inp) \<and>
    (\<exists>c. E_old_pw_hash key inp = Inr c \<and> length c = 16 \<and> D_P16 key c = Inr inp) \<and>
    (\<exists>c. sam_rid_crypt rid inp forw = Inr c \<and> length c = 16 \<and> sam_rid_crypt rid c (\<not> forw) = Inr inp)"
proof (intro conjI)
  have k: "7 \<le> length key" "7 \<le> length (drop 7 key)" using assms(3) by simp_all
  show "\<exists>c. des_crypt56 block key forw = Inr c \<and> length c = 8 \<and> des_crypt56 c key (\<not> forw) = Inr block"
    using des_crypt56_back [OF assms(1) k(1)] .
  note two = two_blocks_back [OF assms(2) k]
  show "\<exists>c. des_crypt112_16 inp key forw = Inr c \<and> length c = 16 \<and> des_crypt112_16 c key (\<not> forw) = Inr inp"
    unfolding des_crypt112_16_def by (rule two)
  show "\<exists>c. E_old_pw_hash key inp = Inr c \<and> length c = 16 \<and> D_P16 key c = Inr inp"
    unfolding E_old_pw_hash_def D_P16_def using two [of True] by simp
  show "\<exists>c. sam_rid_crypt rid inp forw = Inr c \<and> length c = 16 \<and> sam_rid_crypt rid c (\<not> forw) = Inr inp"
    unfolding sam_rid_crypt_def Let_def by (rule two_blocks_back [OF assms(2)]) simp_all
qed

theorem des_roundtrip_witness:
  "\<exists>c. des_crypt56 [1, 2, 3, 4, 5, 6, 7, 8] [1, 2, 3, 4, 5, 6, 7, 8, 9, 10, 11, 12, 13, 14] True = Inr c \<and>
     des_crypt56 c [1, 2, 3, 4, 5, 6, 7, 8, 9, 10, 11, 12, 13, 14] False = Inr [1, 2, 3, 4, 5, 6, 7, 8]"
  using des_roundtrip [of "[1, 2, 3, 4, 5, 6, 7, 8]" "replicate 16 0" "[1, 2, 3, 4, 5, 6, 7, 8, 9, 10, 11, 12, 13, 14]" True 0] by auto

section \<open>One block with two keys\<close>

lemma des_crypt112_total:
  assumes "length x = 8" and "14 \<le> length key"
  shows "\<exists>c. des_crypt112 x key forw = Inr c \<and> length c = 8"
proof -
  have k: "7 \<le> length key" "7 \<le> length (drop 7 key)" using assms(2) by simp_all
  with des_crypt56_total [OF assms(1)] show ?thesis unfolding des_crypt112_def by (metis chk_Inr des_crypt56_total)
qed

lemma des_crypt112_inj:
  assumes "length x = 8" "length y = 8" "14 \<le> length key" and eq: "des_crypt112 x key forw = des_crypt112 y key forw"
  shows "x = y"
proof -
  have k: "7 \<le> length key" "7 \<le> length (drop 7 key)" using assms(3) by simp_all
  obtain a b where ab: "des_crypt56 x key forw = Inr a" "length a = 8" "des_crypt56 y key forw = Inr b" "length b = 8"
    using des_crypt56_total [OF assms(1) k(1)] des_crypt56_total [OF assms(2) k(1)] by meson
  with eq des_crypt56_inj [of a b "drop 7 key" forw] k(2) have "a = b" by (simp add: des_crypt112_def)
  with ab des_crypt56_inj [OF assms(1,2) k(1), of forw] show ?thesis by simp
qed

text \<open>
  \<open>des_crypt112\<close> applies the two keys in the same order in both directions, so its backward direction undoes the
  forward one only on blocks where the two encryptions commute.
\<close>

lemma des_crypt112_backward:
  assumes x: "length x = 8" and key: "14 \<le> length key"
  shows "chk (des_crypt112 x key True) (\<lambda>c. des_crypt112 c key False) = Inr x \<longleftrightarrow>
    des_crypt112 x key True = chk (des_crypt56 x (drop 7 key) True) (\<lambda>b. des_crypt56 b key True)"
proof -
  have k: "7 \<le> length key" "7 \<le> length (drop 7 key)" using key by simp_all
  obtain a where a: "des_crypt56 x key True = Inr a" "length a = 8" using des_crypt56_total [OF x k(1)] by blast
  obtain c where c: "des_crypt56 a (drop 7 key) True = Inr c" "length c = 8" using des_crypt56_total [OF a(2) k(2)] by blast
  obtain b where b: "des_crypt56 x (drop 7 key) True = Inr b" "length b = 8" "des_crypt56 b (drop 7 key) False = Inr x"
    using des_crypt56_back [OF x k(2), of True] by auto
  obtain d where d: "des_crypt56 c key False = Inr d" "length d = 8" "des_crypt56 d key True = Inr c"
    using des_crypt56_back [OF c(2) k(1), of False] by auto
  have "des_crypt56 d (drop 7 key) False = Inr x \<longleftrightarrow> d = b"
    using des_crypt56_inj [OF d(2) b(2) k(2), of False] b(3) by auto
  also have "\<dots> \<longleftrightarrow> Inr c = des_crypt56 b key True"
    using des_crypt56_inj [OF d(2) b(2) k(1), of True] d(3) by auto
  finally show ?thesis using a c b d by (simp add: des_crypt112_def)
qed

end
