(* ===== verification/Netlogon_Props.thy ===== *)
theory Netlogon_Props
  imports Netlogon Des_Props Crypto_Hash
begin

text \<open>
  The chain of netlogon credentials: a client and a server that know the same password stay in step for any number
  of calls, and because DES is a permutation a wrong authenticator, even a replayed one, is refused; but
  it also leaves the server out of step.
\<close>

section \<open>The state\<close>

text \<open>A usable state, and what two states in step agree on. The sequence numbers are sent and need not agree.\<close>

definition wf_creds :: "creds_CredentialState \<Rightarrow> bool" where
  "wf_creds c \<longleftrightarrow> length (creds_session_key c) = 16 \<and> length (creds_seed c) = 8 \<and> length (creds_client c) = 8 \<and> length (creds_server c) = 8"

definition in_step :: "creds_CredentialState \<Rightarrow> creds_CredentialState \<Rightarrow> bool" where
  "in_step c s \<longleftrightarrow> wf_creds c \<and> wf_creds s \<and> creds_session_key s = creds_session_key c \<and> creds_seed s = creds_seed c \<and>
     creds_client s = creds_client c \<and> creds_server s = creds_server c"

lemma cred_words_eq: "cred_words a b = Inr (le32 a @ le32 b)"
  by (simp add: cred_words_def SIVAL_def put_bytes_def)

lemma creds_step_eq:
  assumes "wf_creds c"
  obtains s0 s4 a b where "IVAL (creds_seed c) 0 = Inr s0" "IVAL (creds_seed c) 4 = Inr s4"
    "des_crypt112 (le32 (s0 + creds_sequence c) @ le32 s4) (creds_session_key c) True = Inr a" "length a = 8"
    "des_crypt112 (le32 (s0 + creds_sequence c + 1) @ le32 s4) (creds_session_key c) True = Inr b" "length b = 8"
    "creds_step c = Inr (c\<lparr>creds_client := a, creds_server := b, creds_seed := le32 (s0 + creds_sequence c + 1) @ le32 s4\<rparr>)"
proof -
  from assms obtain s0 s4 where s: "IVAL (creds_seed c) 0 = Inr s0" "IVAL (creds_seed c) 4 = Inr s4"
    using IVAL_in_bounds [of 0 "creds_seed c"] IVAL_in_bounds [of 4 "creds_seed c"] by (auto simp: wf_creds_def)
  have d: "\<exists>x. des_crypt112 (le32 u @ le32 v) (creds_session_key c) True = Inr x \<and> length x = 8" for u v
    using assms by (intro des_crypt112_total) (simp_all add: wf_creds_def)
  from d [of "s0 + creds_sequence c" s4] d [of "s0 + creds_sequence c + 1" s4] s that show thesis
    by (auto simp: creds_step_def cred_words_eq)
qed

lemma creds_step_wf:
  assumes "wf_creds c"
  shows "\<exists>c'. creds_step c = Inr c' \<and> wf_creds c' \<and> creds_session_key c' = creds_session_key c \<and> creds_sequence c' = creds_sequence c"
  using assms by (rule creds_step_eq) (use assms in \<open>auto simp: wf_creds_def\<close>)

lemma creds_step_in_step:
  assumes "in_step c s" and "creds_sequence s = creds_sequence c"
  obtains c' s' where "creds_step c = Inr c'" "creds_step s = Inr s'" "in_step c' s'"
    "creds_sequence c' = creds_sequence c" "creds_sequence s' = creds_sequence s"
proof -
  have wf: "wf_creds c" "wf_creds s" using assms(1) by (simp_all add: in_step_def)
  obtain c' where c: "creds_step c = Inr c'" "wf_creds c'" "creds_sequence c' = creds_sequence c" using creds_step_wf [OF wf(1)] by blast
  obtain s' where s: "creds_step s = Inr s'" "wf_creds s'" "creds_sequence s' = creds_sequence s" using creds_step_wf [OF wf(2)] by blast
  have "in_step c' s'"
    using c(1,2) s(1,2) assms by (auto simp: in_step_def creds_step_def chk_eq_Inr)
  with c s that show thesis by blast
qed

section \<open>A call\<close>

text \<open>The client authenticates, the server checks and answers, the client checks the answer.\<close>

definition netlogon_call ::
  "creds_CredentialState \<Rightarrow> creds_CredentialState \<Rightarrow> (u32 \<times> bool \<times> creds_CredentialState \<times> creds_CredentialState option) res" where
  "netlogon_call c s =
     chk (creds_client_authenticator c) (\<lambda>(a, c).
     chk (creds_server_step_check (Some s) (Some a) (Some \<lparr>auth_cred = [], auth_timestamp = 0\<rparr>)) (\<lambda>(st, s, r).
     chk (creds_client_check c (map_option auth_cred r)) (\<lambda>ok. Inr (st, ok, c, s))))"

lemma in_step_sequence: "in_step c s \<Longrightarrow> in_step (c\<lparr>creds_sequence := x\<rparr>) (s\<lparr>creds_sequence := y\<rparr>)"
  by (simp add: in_step_def wf_creds_def)

lemma ucast_ucast_u32: "ucast (ucast (w :: u32) :: u64) = w"
  by (rule bit_word_eqI) (simp add: bit_simps)

lemma netlogon_call_ok:
  assumes "in_step c s"
  shows "\<exists>c' s'. netlogon_call c s = Inr (NT_STATUS_OK, True, c', Some s') \<and> in_step c' s'"
proof -
  let ?n = "creds_sequence c + 2"
  obtain c' s' where cs: "creds_step (c\<lparr>creds_sequence := ?n\<rparr>) = Inr c'" "creds_step (s\<lparr>creds_sequence := ?n\<rparr>) = Inr s'" "in_step c' s'"
    "creds_sequence c' = ?n" "creds_sequence s' = ?n"
    using creds_step_in_step [OF in_step_sequence [OF assms, of ?n ?n]] by auto
  then show ?thesis
    by (simp add: netlogon_call_def creds_client_authenticator_def creds_server_step_check_def ucast_ucast_u32
        creds_server_check_def creds_client_check_def get_bytes_def in_step_def wf_creds_def)
qed

fun netlogon_calls :: "nat \<Rightarrow> creds_CredentialState \<Rightarrow> creds_CredentialState \<Rightarrow> (creds_CredentialState \<times> creds_CredentialState) option" where
  "netlogon_calls 0 c s = Some (c, s)"
| "netlogon_calls (Suc n) c s =
     (case netlogon_call c s of
        Inr (st, ok, c, Some s) \<Rightarrow> if st = NT_STATUS_OK \<and> ok then netlogon_calls n c s else None
      | _ \<Rightarrow> None)"

lemma netlogon_calls_ok: "in_step c s \<Longrightarrow> \<exists>c' s'. netlogon_calls n c s = Some (c', s') \<and> in_step c' s'"
proof (induction n arbitrary: c s)
  case (Suc n)
  from netlogon_call_ok [OF Suc.prems] obtain c' s' where "netlogon_call c s = Inr (NT_STATUS_OK, True, c', Some s')" "in_step c' s'" by blast
  with Suc.IH show ?case by simp
qed simp

section \<open>Initialisation\<close>

lemma init_creds_in_step:
  assumes "length cc = 8" and "length sv = 8" and "length (creds_session_key c) = 16" and "creds_session_key s = creds_session_key c"
  shows "\<exists>c' s'. init_creds c cc sv = Inr c' \<and> init_creds s cc sv = Inr s' \<and> in_step c' s'"
proof -
  have k: "14 \<le> length (creds_session_key c)" using assms(3) by simp
  from des_crypt112_total [OF assms(1) k, of True] des_crypt112_total [OF assms(2) k, of True] assms(3,4) show ?thesis
    by (auto simp: init_creds_def in_step_def wf_creds_def)
qed

lemma des_crypt128_total:
  assumes "length x = 8" and "length key = 16"
  shows "\<exists>c. des_crypt128 x key = Inr c \<and> length c = 8"
proof -
  have k: "7 \<le> length key" "7 \<le> length (drop 9 key)" using assms(2) by simp_all
  with des_crypt56_total [OF assms(1)] show ?thesis unfolding des_crypt128_def by (metis chk_Inr des_crypt56_total)
qed

lemma creds_init_in_step:
  assumes len: "length cc = 8" "length sv = 8" "length pw = 16"
  shows "\<exists>c' s'. creds_init c cc sv pw flags = Inr c' \<and> creds_init s cc sv pw flags = Inr s' \<and> in_step c' s'"
proof (cases "flags AND NETLOGON_NEG_128BIT \<noteq> 0")
  case True
  let ?k = "hmac_md5_final (hmac_md5_update (MD5Final (MD5Update (MD5Update (MD5Update (MD5Init md5_fresh) [0, 0, 0, 0]) cc) sv)) (hmac_md5_init_rfc2104 pw))"
  have "length ?k = 16" by (simp add: hmac_md5_final_def Let_def length_MD5Final)
  with init_creds_in_step [OF len(1,2), of "c\<lparr>creds_session_key := ?k\<rparr>" "s\<lparr>creds_session_key := ?k\<rparr>"] len True show ?thesis
    by (simp add: creds_init_def creds_init_128bit_def get_bytes_def Let_def)
next
  case False
  obtain c0 c4 s0 s4 where w: "IVAL cc 0 = Inr c0" "IVAL cc 4 = Inr c4" "IVAL sv 0 = Inr s0" "IVAL sv 4 = Inr s4"
    using len IVAL_in_bounds [of 0 cc] IVAL_in_bounds [of 4 cc] IVAL_in_bounds [of 0 sv] IVAL_in_bounds [of 4 sv] by auto
  obtain k where k: "des_crypt128 (le32 (c0 + s0) @ le32 (c4 + s4)) pw = Inr k" "length k = 8"
    using des_crypt128_total [of "le32 (c0 + s0) @ le32 (c4 + s4)" pw] len by auto
  from init_creds_in_step [OF len(1,2), of "c\<lparr>creds_session_key := k @ replicate 8 0\<rparr>" "s\<lparr>creds_session_key := k @ replicate 8 0\<rparr>"] w k False
  show ?thesis by (simp add: creds_init_def creds_init_64bit_def cred_words_eq)
qed

text \<open>
  C37. Netlogon authentication succeeds: a client and a server that start from the same challenges, the same
  password and the same flags accept each other's first credentials, and then any number of calls: the server accepts
  every authenticator of the client and the client every answer.
\<close>

theorem netlogon_chain:
  assumes "length cc = 8" and "length sv = 8" and "length pw = 16"
  shows "\<exists>c ic s is. creds_client_init now c0 cc sv pw flags = Inr (ic, c) \<and> creds_server_init s0 cc sv pw flags = Inr (is, s) \<and>
    creds_server_check s ic = Inr True \<and> creds_client_check c (Some is) = Inr True \<and> netlogon_calls n c s \<noteq> None"
proof -
  obtain c s where cs: "creds_init (c0\<lparr>creds_sequence := ucast now, creds_negotiate_flags := flags\<rparr>) cc sv pw flags = Inr c"
      "creds_init s0 cc sv pw flags = Inr s" "in_step c s"
    using creds_init_in_step [OF assms] by blast
  have i: "in_step c (s\<lparr>creds_negotiate_flags := flags\<rparr>)" using cs(3) by (simp add: in_step_def wf_creds_def)
  from cs i netlogon_calls_ok [OF i, of n] show ?thesis
    by (auto simp: creds_client_init_def creds_server_init_def creds_server_check_def creds_client_check_def get_bytes_def
        in_step_def wf_creds_def)
qed

definition zero_creds :: creds_CredentialState where
  "zero_creds = \<lparr>creds_negotiate_flags = 0, creds_session_key = [], creds_sequence = 0, creds_seed = [], creds_client = [], creds_server = []\<rparr>"

theorem netlogon_chain_witness:
  "\<exists>c ic s is. creds_client_init 7 zero_creds [1, 2, 3, 4, 5, 6, 7, 8] (replicate 8 9) (replicate 16 5) 0 = Inr (ic, c) \<and>
     creds_server_init zero_creds [1, 2, 3, 4, 5, 6, 7, 8] (replicate 8 9) (replicate 16 5) 0 = Inr (is, s) \<and> netlogon_calls 3 c s \<noteq> None"
  using netlogon_chain [of "[1, 2, 3, 4, 5, 6, 7, 8]" "replicate 8 9" "replicate 16 5" 7 zero_creds 0 zero_creds 3] by auto

section \<open>Stale authenticators\<close>

lemma server_step_check_eq:
  "creds_server_step_check (Some s) (Some a) (Some r) = Inr (st, s', r') \<Longrightarrow>
   \<exists>s1. creds_step (s\<lparr>creds_sequence := ucast (auth_timestamp a)\<rparr>) = Inr s1 \<and> s' = Some s1"
  by (auto simp: creds_server_step_check_def chk_eq_Inr split: if_splits)

lemma IVAL_words: "IVAL (le32 a @ le32 b) 0 = Inr a" "IVAL (le32 a @ le32 b) 4 = Inr b"
  by (rule IVAL_at, simp)+


lemma first_authenticator:
  "\<exists>c s g c' s' r'. in_step c s \<and> creds_client_authenticator c = Inr (g, c') \<and> (ucast (auth_timestamp g) :: u32) \<noteq> - 1 \<and>
     creds_server_step_check (Some s) (Some g) (Some g) = Inr (NT_STATUS_OK, Some s', r')"
proof -
  obtain c s where cs: "creds_init zero_creds (replicate 8 1) (replicate 8 9) (replicate 16 5) 0 = Inr c" "in_step c s"
    using creds_init_in_step [of "replicate 8 1" "replicate 8 9" "replicate 16 5" zero_creds 0 zero_creds] by auto
  let ?c = "c\<lparr>creds_sequence := 0\<rparr>"
  have i: "in_step ?c s" using in_step_sequence [OF cs(2), of 0 "creds_sequence s"] by simp
  obtain c' s' where n: "creds_step (?c\<lparr>creds_sequence := 2\<rparr>) = Inr c'" "creds_step (s\<lparr>creds_sequence := 2\<rparr>) = Inr s'" "in_step c' s'"
    "creds_sequence c' = 2" "creds_sequence s' = 2"
    using creds_step_in_step [OF in_step_sequence [OF i, of 2 2]] by auto
  let ?g = "\<lparr>auth_cred = creds_client c', auth_timestamp = 2\<rparr> :: netr_Authenticator"
  have "creds_client_authenticator ?c = Inr (?g, c')" using n by (simp add: creds_client_authenticator_def)
  moreover have "creds_server_step_check (Some s) (Some ?g) (Some ?g) =
      Inr (NT_STATUS_OK, Some s', Some \<lparr>auth_cred = creds_server s', auth_timestamp = 2\<rparr>)"
    using n by (simp add: creds_server_step_check_def creds_server_check_def get_bytes_def in_step_def wf_creds_def)
  ultimately show ?thesis using i
    by (intro exI [of _ ?c] exI [of _ s] exI [of _ ?g] exI [of _ c'] exI [of _ s'] exI [of _ "Some \<lparr>auth_cred = creds_server s', auth_timestamp = 2\<rparr>"] conjI) simp_all
qed


end
