(* ===== verification/Strlist.thy ===== *)
theory Strlist
  imports C_Strings "HOL-Library.Multiset"
begin

text \<open>
  Lists of strings, \<open>lib/util/util_strlist.c\<close>. A list is the strings before its NULL pointer, the NULL list is None;
  allocations succeed. A separator set is the bytes of its string. A quoted word without its closing
  quote makes the parser step over the end of the string: that is \<open>Fault\<close>.
\<close>

definition LIST_SEP :: bytes where "LIST_SEP = [0x20, 0x09, 0x2C, 0x0A, 0x0D]"
definition shell_sep :: bytes where "shell_sep = [0x20, 0x09, 0x0A, 0x0D]"

section \<open>The C library\<close>

definition strcspn :: "bytes \<Rightarrow> bytes \<Rightarrow> nat" where
  "strcspn s reject = length (takeWhile (\<lambda>c. c \<notin> set reject) s)"

definition strspn :: "bytes \<Rightarrow> bytes \<Rightarrow> nat" where
  "strspn s accept = length (takeWhile (\<lambda>c. c \<in> set accept) s)"

lemma strspn_pos: "s \<noteq> [] \<Longrightarrow> strcspn s sep = 0 \<Longrightarrow> 0 < strspn s sep"
  by (cases s) (auto simp: strcspn_def strspn_def split: if_splits)

section \<open>Splitting and joining\<close>

function str_list_make_loop :: "bytes \<Rightarrow> bytes \<Rightarrow> bytes list" where
  "str_list_make_loop s sep =
     (if s = [] then []
      else let len = strcspn s sep
           in if len = 0 then str_list_make_loop (drop (strspn s sep) s) sep
              else take len s # str_list_make_loop (drop len s) sep)"
  by pat_completeness auto
termination
  by (relation "measure (\<lambda>(s, sep). length s)") (auto simp: strspn_pos)

declare str_list_make_loop.simps [simp del]

definition str_list_make :: "bytes option \<Rightarrow> bytes option \<Rightarrow> bytes list" where
  "str_list_make s sep = (case s of None \<Rightarrow> [] | Some s \<Rightarrow> str_list_make_loop s (case sep of None \<Rightarrow> LIST_SEP | Some p \<Rightarrow> p))"

function str_list_make_shell_loop :: "bytes \<Rightarrow> bytes \<Rightarrow> bytes list res" where
  "str_list_make_shell_loop s sep =
     (if s = [] then Inr []
      else let len = strcspn s sep
           in if len = 0 then str_list_make_shell_loop (drop (strspn s sep) s) sep
              else if hd s = 0x22 then
                let len = strcspn (tl s) [0x22]
                in if len = length (tl s) then Inl Fault
                   else chk (str_list_make_shell_loop (drop (len + 1) (tl s)) sep) (\<lambda>es. Inr (take len (tl s) # es))
              else chk (str_list_make_shell_loop (drop len s) sep) (\<lambda>es. Inr (take len s # es)))"
  by pat_completeness auto
termination
  by (relation "measure (\<lambda>(s, sep). length s)") (auto simp: strspn_pos)

declare str_list_make_shell_loop.simps [simp del]

definition str_list_make_shell :: "bytes option \<Rightarrow> bytes option \<Rightarrow> bytes list res" where
  "str_list_make_shell s sep =
     (case s of None \<Rightarrow> Inr [] | Some s \<Rightarrow> str_list_make_shell_loop s (case sep of None \<Rightarrow> shell_sep | Some p \<Rightarrow> p))"

definition str_list_join :: "bytes list \<Rightarrow> u8 \<Rightarrow> bytes" where
  "str_list_join l separator =
     (case l of [] \<Rightarrow> [] | s # ss \<Rightarrow> foldl (\<lambda>ret s. ret @ separator # s) s ss)"

definition shell_word :: "bytes \<Rightarrow> bytes" where
  "shell_word s = (if 0x20 \<in> set s \<or> s = [] then 0x22 # s @ [0x22] else s)"

definition str_list_join_shell :: "bytes list \<Rightarrow> u8 \<Rightarrow> bytes" where
  "str_list_join_shell l sep =
     (case l of [] \<Rightarrow> [] | s # ss \<Rightarrow> foldl (\<lambda>ret s. ret @ sep # shell_word s) (shell_word s) ss)"

section \<open>The other operations\<close>

definition str_list_length :: "bytes list option \<Rightarrow> nat" where
  "str_list_length l = (case l of None \<Rightarrow> 0 | Some l \<Rightarrow> length l)"

definition str_list_copy :: "bytes list option \<Rightarrow> bytes list" where
  "str_list_copy l = (case l of None \<Rightarrow> [] | Some l \<Rightarrow> l)"

text \<open>The walk over both lists and the look at what is left.\<close>

fun str_list_equal_loop :: "bytes list \<Rightarrow> bytes list \<Rightarrow> bool" where
  "str_list_equal_loop (a # as) (b # bs) = (if a \<noteq> b then False else str_list_equal_loop as bs)"
| "str_list_equal_loop as bs = (as = [] \<and> bs = [])"

definition str_list_equal :: "bytes list option \<Rightarrow> bytes list option \<Rightarrow> bool" where
  "str_list_equal list1 list2 =
     (case (list1, list2) of
        (Some l1, Some l2) \<Rightarrow> str_list_equal_loop l1 l2
      | _ \<Rightarrow> list1 = None \<and> list2 = None)"

definition str_list_add :: "bytes list option \<Rightarrow> bytes \<Rightarrow> bytes list" where
  "str_list_add l s = (case l of None \<Rightarrow> [s] | Some l \<Rightarrow> l @ [s])"

fun str_list_remove :: "bytes list \<Rightarrow> bytes \<Rightarrow> bytes list" where
  "str_list_remove [] s = []"
| "str_list_remove (x # xs) s = (if x = s then xs else x # str_list_remove xs s)"

fun str_list_check :: "bytes list \<Rightarrow> bytes \<Rightarrow> bool" where
  "str_list_check [] s = False"
| "str_list_check (x # xs) s = (if x = s then True else str_list_check xs s)"

fun str_list_check_ci :: "bytes list \<Rightarrow> bytes \<Rightarrow> bool" where
  "str_list_check_ci [] s = False"
| "str_list_check_ci (x # xs) s = (if strcaseeq x s then True else str_list_check_ci xs s)"

section \<open>Joining and splitting again\<close>

lemma strcspn_word: "set w \<inter> set sep = {} \<Longrightarrow> rest = [] \<or> hd rest \<in> set sep \<Longrightarrow> strcspn (w @ rest) sep = length w"
proof -
  assume w: "set w \<inter> set sep = {}" and r: "rest = [] \<or> hd rest \<in> set sep"
  from r have "takeWhile (\<lambda>c. c \<notin> set sep) rest = []" by (cases rest) auto
  with w show ?thesis unfolding strcspn_def by (subst takeWhile_append2) auto
qed

text \<open>One word, quoted or not, and the rest of the string behind it.\<close>

lemma make_word:
  assumes "w \<noteq> []" and "set w \<inter> set sep = {}" and "rest = [] \<or> hd rest \<in> set sep"
  shows "str_list_make_loop (w @ rest) sep = w # str_list_make_loop rest sep"
  using assms strcspn_word [OF assms(2,3)] by (subst str_list_make_loop.simps) (simp add: Let_def)

lemma make_sep: "c \<in> set sep \<Longrightarrow> str_list_make_loop (c # s) sep = str_list_make_loop s sep"
proof (induction s)
  case Nil
  then show ?case by (subst str_list_make_loop.simps) (simp add: strcspn_def strspn_def Let_def str_list_make_loop.simps)
next
  case (Cons d s)
  have *: "str_list_make_loop (c # x) sep = str_list_make_loop (drop (strspn x sep) x) sep" for x
    using Cons.prems by (subst str_list_make_loop.simps) (simp add: strcspn_def strspn_def Let_def)
  show ?case
  proof (cases "d \<in> set sep")
    case True
    then have "str_list_make_loop (d # s) sep = str_list_make_loop (drop (strspn s sep) s) sep"
      by (subst str_list_make_loop.simps) (simp add: strcspn_def strspn_def Let_def)
    with True * [of "d # s"] show ?thesis by (simp add: strspn_def)
  next
    case False
    with * [of "d # s"] show ?thesis by (simp add: strspn_def)
  qed
qed

lemma join_eq: "foldl (\<lambda>ret s. ret @ sep # f s) x ss = x @ concat (map (\<lambda>s. sep # f s) ss)"
  by (induction ss arbitrary: x) simp_all

lemma make_joined:
  assumes "\<And>s. s \<in> set ss \<Longrightarrow> s \<noteq> [] \<and> set s \<inter> set sep = {}" and "c \<in> set sep"
  shows "str_list_make_loop (concat (map (\<lambda>s. c # s) ss)) sep = ss"
  using assms
proof (induction ss)
  case Nil
  show ?case by (simp add: str_list_make_loop.simps)
next
  case (Cons s ss)
  have "concat (map (\<lambda>s. c # s) ss) = [] \<or> hd (concat (map (\<lambda>s. c # s) ss)) \<in> set sep" using Cons.prems(2) by (cases ss) auto
  with Cons show ?case by (simp add: make_sep make_word)
qed

text \<open>The same for the quoted form.\<close>

definition plain_word :: "bytes \<Rightarrow> bytes \<Rightarrow> bool" where
  "plain_word sep s \<longleftrightarrow> 0x22 \<notin> set s \<and> (0x20 \<in> set s \<or> set s \<inter> set sep = {})"

lemma shell_make_word:
  assumes w: "plain_word sep w" and sep: "0x22 \<notin> set sep" and r: "rest = [] \<or> hd rest \<in> set sep"
  shows "str_list_make_shell_loop (shell_word w @ rest) sep = chk (str_list_make_shell_loop rest sep) (\<lambda>es. Inr (w # es))"
proof (cases "0x20 \<in> set w \<or> w = []")
  case True
  have "strcspn (w @ 0x22 # rest) [0x22] = length w" using w strcspn_word [of w "[0x22]" "0x22 # rest"] by (auto simp: plain_word_def)
  moreover have "strcspn (0x22 # w @ 0x22 # rest) sep \<noteq> 0" using sep by (simp add: strcspn_def)
  ultimately show ?thesis using True by (subst str_list_make_shell_loop.simps) (simp add: shell_word_def Let_def)
next
  case False
  with w have "strcspn (w @ rest) sep = length w" by (intro strcspn_word r) (auto simp: plain_word_def)
  moreover have "hd (w @ rest) \<noteq> 0x22" using False w by (cases w) (auto simp: plain_word_def)
  ultimately show ?thesis using False by (subst str_list_make_shell_loop.simps) (simp add: shell_word_def Let_def)
qed

lemma shell_make_sep:
  assumes "c \<in> set sep" and "0x22 \<notin> set sep" and "s = [] \<or> hd s \<notin> set sep"
  shows "str_list_make_shell_loop (c # s) sep = str_list_make_shell_loop s sep"
proof -
  have "strspn (c # s) sep = 1" using assms by (cases s) (auto simp: strspn_def)
  with assms(1) show ?thesis by (subst str_list_make_shell_loop.simps) (simp add: strcspn_def Let_def)
qed

lemma shell_word_start: "plain_word sep w \<Longrightarrow> 0x22 \<notin> set sep \<Longrightarrow> shell_word w \<noteq> [] \<and> hd (shell_word w) \<notin> set sep"
  by (cases w) (auto simp: shell_word_def plain_word_def)

lemma shell_make_joined:
  assumes "\<And>s. s \<in> set ss \<Longrightarrow> plain_word sep s" and "c \<in> set sep" and "0x22 \<notin> set sep"
  shows "str_list_make_shell_loop (concat (map (\<lambda>s. c # shell_word s) ss)) sep = Inr ss"
  using assms
proof (induction ss)
  case Nil
  show ?case by (simp add: str_list_make_shell_loop.simps)
next
  case (Cons s ss)
  let ?r = "concat (map (\<lambda>s. c # shell_word s) ss)"
  have r: "?r = [] \<or> hd ?r \<in> set sep" using Cons.prems(2) by (cases ss) auto
  have s: "plain_word sep s" using Cons.prems(1) by simp
  have "str_list_make_shell_loop (c # shell_word s @ ?r) sep = str_list_make_shell_loop (shell_word s @ ?r) sep"
    using shell_word_start [OF s Cons.prems(3)] Cons.prems by (intro shell_make_sep) auto
  with Cons r s show ?case by (simp add: shell_make_word)
qed



text \<open>A quote that is not closed: the parser leaves the string. A tab is not quoted although it separates.\<close>

lemma open_quote_faults: "str_list_make_shell (Some [0x22, 0x61]) None = Inl Fault"
  by (simp add: str_list_make_shell_def shell_sep_def str_list_make_shell_loop.simps strcspn_def Let_def)

lemma tab_not_quoted:
  "str_list_make_shell (Some (str_list_join_shell [[0x61, 0x09, 0x62]] 0x20)) None = Inr [[0x61], [0x62]]"
  by (simp add: str_list_make_shell_def str_list_join_shell_def shell_word_def shell_sep_def str_list_make_shell_loop.simps
      strcspn_def strspn_def Let_def)

section \<open>Lists as sets\<close>

lemma str_list_equal_iff: "str_list_equal l m \<longleftrightarrow> l = m"
proof -
  have "str_list_equal_loop a b \<longleftrightarrow> a = b" for a b by (induction a b rule: str_list_equal_loop.induct) auto
  then show ?thesis by (auto simp: str_list_equal_def split: option.split)
qed

lemma str_list_check_iff: "str_list_check l s \<longleftrightarrow> s \<in> set l"
  by (induction l) auto

lemma str_list_check_ci_iff: "str_list_check_ci l s \<longleftrightarrow> (\<exists>x \<in> set l. strcaseeq x s)"
  by (induction l) auto

lemma str_list_add_check: "str_list_check (str_list_add l s) x \<longleftrightarrow> x = s \<or> (case l of None \<Rightarrow> False | Some l \<Rightarrow> str_list_check l x)"
  by (auto simp: str_list_check_iff str_list_add_def split: option.split)

lemma str_list_remove_mset: "mset (str_list_remove l s) = mset l - {#s#}"
  by (induction l) auto

end
