(* ===== verification/Smb_Time.thy ===== *)
theory Smb_Time
  imports Smb_Prelude "HOL-Library.Signed_Division"
begin

text \<open>
  Times, \<open>lib/util/time.c\<close>: NT times (100 ns since 1601), \<open>struct timeval\<close>, packed DOS dates. A \<open>time_t\<close> is a signed
  number of 64 bits and stands as an integer; the NT time is the unsigned 64-bit word of the source. Of the C library
  \<open>gmtime_r\<close> and \<open>timegm\<close> are modelled, in the Gregorian calendar they use. The functions that ask the system for the time
  take it as an argument.
\<close>

section \<open>NT times\<close>

definition TIME_T_MAX :: int where "TIME_T_MAX = 0x7FFFFFFF"
definition TIME_T_MIN :: int where "TIME_T_MIN = 0"
definition TIME_FIXUP_CONSTANT :: u64 where "TIME_FIXUP_CONSTANT = 11644473600"

definition nt_time_to_unix :: "u64 \<Rightarrow> int" where
  "nt_time_to_unix nt =
     (if nt = 0 then 0 else if nt = - 1 then - 1
      else let nt = (nt + 5000000) div 10000000 - TIME_FIXUP_CONSTANT
           in if word_of_int TIME_T_MIN > nt \<or> nt > word_of_int TIME_T_MAX then 0 else uint nt)"

definition unix_to_nt_time :: "int \<Rightarrow> u64" where
  "unix_to_nt_time t =
     (if t = - 1 then - 1 else if t = 0 then 0 else (word_of_int t + TIME_FIXUP_CONSTANT) * 10000000)"

definition null_time :: "int \<Rightarrow> bool" where "null_time t = (t = 0 \<or> t = 0xFFFFFFFF \<or> t = - 1)"
definition null_nttime :: "u64 \<Rightarrow> bool" where "null_nttime t = (t = 0 \<or> t = - 1)"

definition push_nttime :: "bytes \<Rightarrow> nat \<Rightarrow> u64 \<Rightarrow> bytes res" where
  "push_nttime base offset t = chk (SIVAL base offset (ucast t)) (\<lambda>base. SIVAL base (offset + 4) (ucast (drop_bit 32 t)))"

definition pull_nttime :: "bytes \<Rightarrow> nat \<Rightarrow> u64 res" where
  "pull_nttime base offset =
     chk (IVAL base offset) (\<lambda>l. chk (IVAL base (offset + 4)) (\<lambda>h. Inr (ucast l OR push_bit 32 (ucast h))))"

section \<open>Seconds and microseconds\<close>

record timeval =
  tv_sec :: int
  tv_usec :: int

definition usec_time_diff :: "timeval \<Rightarrow> timeval \<Rightarrow> int" where
  "usec_time_diff tv1 tv2 = (tv_sec tv1 - tv_sec tv2) * 1000000 + (tv_usec tv1 - tv_usec tv2)"

definition timeval_zero :: timeval where "timeval_zero = \<lparr>tv_sec = 0, tv_usec = 0\<rparr>"
definition timeval_is_zero :: "timeval \<Rightarrow> bool" where "timeval_is_zero tv = (tv_sec tv = 0 \<and> tv_usec tv = 0)"
definition timeval_set :: "u32 \<Rightarrow> u32 \<Rightarrow> timeval" where "timeval_set secs usecs = \<lparr>tv_sec = uint secs, tv_usec = uint usecs\<rparr>"

definition timeval_add :: "timeval \<Rightarrow> u32 \<Rightarrow> u32 \<Rightarrow> timeval" where
  "timeval_add tv secs usecs =
     (let usec = tv_usec tv + uint usecs
      in \<lparr>tv_sec = tv_sec tv + uint secs + usec sdiv 1000000, tv_usec = usec smod 1000000\<rparr>)"

definition timeval_sum :: "timeval \<Rightarrow> timeval \<Rightarrow> timeval" where
  "timeval_sum tv1 tv2 = timeval_add tv1 (word_of_int (tv_sec tv2)) (word_of_int (tv_usec tv2))"

definition timeval_current_ofs :: "timeval \<Rightarrow> u32 \<Rightarrow> u32 \<Rightarrow> timeval" where
  "timeval_current_ofs now secs usecs = timeval_add now secs usecs"

definition timeval_compare :: "timeval \<Rightarrow> timeval \<Rightarrow> int" where
  "timeval_compare tv1 tv2 =
     (if tv_sec tv1 > tv_sec tv2 then 1 else if tv_sec tv1 < tv_sec tv2 then - 1
      else if tv_usec tv1 > tv_usec tv2 then 1 else if tv_usec tv1 < tv_usec tv2 then - 1 else 0)"

definition timeval_expired :: "timeval \<Rightarrow> timeval \<Rightarrow> bool" where
  "timeval_expired now tv =
     (if tv_sec now > tv_sec tv then True else if tv_sec now < tv_sec tv then False else tv_usec now \<ge> tv_usec tv)"

definition timeval_min :: "timeval \<Rightarrow> timeval \<Rightarrow> timeval" where
  "timeval_min tv1 tv2 =
     (if tv_sec tv1 < tv_sec tv2 then tv1 else if tv_sec tv1 > tv_sec tv2 then tv2
      else if tv_usec tv1 < tv_usec tv2 then tv1 else tv2)"

definition timeval_max :: "timeval \<Rightarrow> timeval \<Rightarrow> timeval" where
  "timeval_max tv1 tv2 =
     (if tv_sec tv1 > tv_sec tv2 then tv1 else if tv_sec tv1 < tv_sec tv2 then tv2
      else if tv_usec tv1 > tv_usec tv2 then tv1 else tv2)"

definition timeval_until :: "timeval \<Rightarrow> timeval \<Rightarrow> timeval" where
  "timeval_until tv1 tv2 =
     (if timeval_compare tv1 tv2 \<ge> 0 then timeval_zero
      else let sec = tv_sec tv2 - tv_sec tv1
           in if tv_usec tv1 > tv_usec tv2
              then \<lparr>tv_sec = sec - 1, tv_usec = 1000000 - (tv_usec tv1 - tv_usec tv2)\<rparr>
              else \<lparr>tv_sec = sec, tv_usec = tv_usec tv2 - tv_usec tv1\<rparr>)"

definition timeval_to_nttime :: "timeval \<Rightarrow> u64" where
  "timeval_to_nttime tv = 10 * (word_of_int (tv_usec tv) + (TIME_FIXUP_CONSTANT + word_of_int (tv_sec tv)) * 1000000)"

definition nttime_to_timeval :: "u64 \<Rightarrow> timeval" where
  "nttime_to_timeval t =
     (let t = (t + 5) div 10 - TIME_FIXUP_CONSTANT * 1000 * 1000;
          sec = uint (t div 1000000)
      in if TIME_T_MIN > sec \<or> sec > TIME_T_MAX then timeval_zero
         else \<lparr>tv_sec = sec, tv_usec = sint (t - word_of_int sec * 1000000)\<rparr>)"

section \<open>The calendar\<close>

text \<open>
  \<open>tm_year\<close> counts from 1900, \<open>tm_mon\<close> from 0. The days before a year are counted from the year 1 on.
\<close>

record tm =
  tm_year :: int
  tm_mon :: int
  tm_mday :: int
  tm_hour :: int
  tm_min :: int
  tm_sec :: int

definition year_start :: "int \<Rightarrow> int" where
  "year_start y = 365 * y + (y - 1) div 4 - (y - 1) div 100 + (y - 1) div 400"

definition is_leap :: "int \<Rightarrow> bool" where
  "is_leap y = (y mod 4 = 0 \<and> (y mod 100 \<noteq> 0 \<or> y mod 400 = 0))"

definition month_start :: "bool \<Rightarrow> int \<Rightarrow> int" where
  "month_start leap m =
     [0, 31, 59, 90, 120, 151, 181, 212, 243, 273, 304, 334, 365] ! nat m + (if leap \<and> m \<ge> 2 then 1 else 0)"

definition timegm :: "tm \<Rightarrow> int" where
  "timegm t =
     (let y = tm_year t + 1900 + tm_mon t div 12; m = tm_mon t mod 12;
          days = year_start y - year_start 1970 + month_start (is_leap y) m + tm_mday t - 1
      in days * 86400 + tm_hour t * 3600 + tm_min t * 60 + tm_sec t)"

text \<open>The largest \<open>y\<close> in reach whose start is not behind the day, and the same for months.\<close>

primrec find_year :: "nat \<Rightarrow> int \<Rightarrow> int \<Rightarrow> int" where
  "find_year 0 y d = y"
| "find_year (Suc k) y d = (if d < year_start (y + 1) then y else find_year k (y + 1) d)"

primrec find_month :: "nat \<Rightarrow> bool \<Rightarrow> int \<Rightarrow> int \<Rightarrow> int" where
  "find_month 0 leap m d = m"
| "find_month (Suc k) leap m d = (if d < month_start leap (m + 1) then m else find_month k leap (m + 1) d)"

definition gmtime_r :: "int \<Rightarrow> tm option" where
  "gmtime_r t =
     (let d = t div 86400 + year_start 1970; s = t mod 86400;
          y = find_year 399 (400 * ((d - year_start 0) div 146097)) d;
          m = find_month 11 (is_leap y) 0 (d - year_start y)
      in if y - 1900 < - (2 ^ 31) \<or> y - 1900 \<ge> 2 ^ 31 then None
         else Some \<lparr>tm_year = y - 1900, tm_mon = m, tm_mday = d - year_start y - month_start (is_leap y) m + 1,
                tm_hour = s div 3600, tm_min = s div 60 mod 60, tm_sec = s mod 60\<rparr>)"

section \<open>DOS dates\<close>

definition make_dos_date1 :: "tm \<Rightarrow> u16" where
  "make_dos_date1 t =
     (let mon = word_of_int (tm_mon t + 1) :: u32;
          ret = ucast (drop_bit 3 mon OR push_bit 1 (word_of_int (tm_year t - 80))) :: u16
      in ucast (push_bit 8 (ucast ret AND 0xFF) OR (word_of_int (tm_mday t) OR push_bit 5 (mon AND 0x7)) :: u32))"

definition make_dos_time1 :: "tm \<Rightarrow> u16" where
  "make_dos_time1 t =
     (let mi = word_of_int (tm_min t) :: u32;
          ret = ucast ((drop_bit 3 mi AND 0x7) OR push_bit 3 (word_of_int (tm_hour t))) :: u16
      in ucast (push_bit 8 (ucast ret AND 0xFF) OR (word_of_int (tm_sec t sdiv 2) OR push_bit 5 (mi AND 0x7)) :: u32))"

definition make_dos_date :: "int \<Rightarrow> int \<Rightarrow> u32" where
  "make_dos_date unixdate zone_offset =
     (if unixdate = 0 then 0
      else case gmtime_r (unixdate - zone_offset) of
             None \<Rightarrow> 0xFFFFFFFF
           | Some tm \<Rightarrow> push_bit 16 (ucast (make_dos_date1 tm) AND 0xFFFF) OR ucast (make_dos_time1 tm))"

definition swap_halves :: "u32 \<Rightarrow> u32" where
  "swap_halves x = push_bit 16 (x AND 0xFFFF) OR drop_bit 16 (x AND 0xFFFF0000)"

definition push_dos_date :: "bytes \<Rightarrow> nat \<Rightarrow> int \<Rightarrow> int \<Rightarrow> bytes res" where
  "push_dos_date buf offset unixdate zone_offset = SIVAL buf offset (make_dos_date unixdate zone_offset)"

definition push_dos_date2 :: "bytes \<Rightarrow> nat \<Rightarrow> int \<Rightarrow> int \<Rightarrow> bytes res" where
  "push_dos_date2 buf offset unixdate zone_offset = SIVAL buf offset (swap_halves (make_dos_date unixdate zone_offset))"

definition push_dos_date3 :: "bytes \<Rightarrow> nat \<Rightarrow> int \<Rightarrow> int \<Rightarrow> bytes res" where
  "push_dos_date3 buf offset unixdate zone_offset =
     SIVAL buf offset (word_of_int (if \<not> null_time unixdate then unixdate - zone_offset else unixdate))"

definition interpret_dos_date :: "u32 \<Rightarrow> tm" where
  "interpret_dos_date date =
     (let p0 = date AND 0xFF; p1 = drop_bit 8 (date AND 0xFF00) AND 0xFF;
          p2 = drop_bit 16 (date AND 0xFF0000) AND 0xFF; p3 = drop_bit 24 (date AND 0xFF000000) AND 0xFF
      in \<lparr>tm_year = sint ((drop_bit 1 p3 AND 0xFF) + 80),
          tm_mon = sint ((drop_bit 5 p2 AND 0xFF) + push_bit 3 (p3 AND 0x1) - 1),
          tm_mday = sint (p2 AND 0x1F),
          tm_hour = sint (drop_bit 3 p1 AND 0xFF),
          tm_min = sint ((drop_bit 5 p0 AND 0xFF) + push_bit 3 (p1 AND 0x7)),
          tm_sec = sint (2 * (p0 AND 0x1F))\<rparr>)"

definition unix_of_dos :: "u32 \<Rightarrow> int \<Rightarrow> int" where
  "unix_of_dos dos_date zone_offset =
     (if dos_date = 0 then 0 else timegm (interpret_dos_date dos_date) + zone_offset)"

definition pull_dos_date :: "bytes \<Rightarrow> int \<Rightarrow> int res" where
  "pull_dos_date date_ptr zone_offset = chk (IVAL date_ptr 0) (\<lambda>x. Inr (unix_of_dos x zone_offset))"

definition pull_dos_date2 :: "bytes \<Rightarrow> int \<Rightarrow> int res" where
  "pull_dos_date2 date_ptr zone_offset =
     chk (IVAL date_ptr 0) (\<lambda>x. pull_dos_date (le32 (swap_halves x)) zone_offset)"

definition pull_dos_date3 :: "bytes \<Rightarrow> int \<Rightarrow> int res" where
  "pull_dos_date3 date_ptr zone_offset =
     chk (IVAL date_ptr 0) (\<lambda>x. let t = uint x in Inr (if \<not> null_time t then t + zone_offset else t))"

section \<open>Time zones\<close>

text \<open>\<open>tm_diff\<close> takes the day of the year from the broken-down time.\<close>

definition tm_yday :: "tm \<Rightarrow> int" where
  "tm_yday t = month_start (is_leap (tm_year t + 1900)) (tm_mon t) + tm_mday t - 1"

definition tm_diff :: "tm \<Rightarrow> tm \<Rightarrow> int" where
  "tm_diff a b =
     (let ay = tm_year a + 1899; by = tm_year b + 1899;
          intervening_leap_days = (ay sdiv 4 - by sdiv 4) - (ay sdiv 100 - by sdiv 100) + (ay sdiv 400 - by sdiv 400);
          days = 365 * (ay - by) + intervening_leap_days + (tm_yday a - tm_yday b);
          hours = 24 * days + (tm_hour a - tm_hour b);
          minutes = 60 * hours + (tm_min a - tm_min b)
      in 60 * minutes + (tm_sec a - tm_sec b))"

text \<open>\<open>localtime_r\<close> is the time of the configured zone.\<close>

definition get_time_zone :: "(int \<Rightarrow> tm option) \<Rightarrow> int \<Rightarrow> int" where
  "get_time_zone localtime_r t =
     (case gmtime_r t of None \<Rightarrow> 0
      | Some tm_utc \<Rightarrow> (case localtime_r t of None \<Rightarrow> 0 | Some tm \<Rightarrow> tm_diff tm_utc tm))"

section \<open>NT times and back\<close>

lemma unat_u64: "n < 2 ^ 64 \<Longrightarrow> unat (word_of_nat n :: u64) = n"
  by (simp add: unsigned_of_nat take_bit_nat_eq_self)

lemma nt_unix_back:
  assumes "0 \<le> t" "t \<le> TIME_T_MAX"
  shows "nt_time_to_unix (unix_to_nt_time t) = t"
proof (cases "t = 0")
  case False
  define n where "n = nat t"
  have n: "t = int n" "0 < n" "n < 2 ^ 31" using assms False by (auto simp: n_def TIME_T_MAX_def)
  let ?w = "word_of_nat ((n + 11644473600) * 10000000) :: u64"
  have w: "unix_to_nt_time t = ?w" using n by (simp add: unix_to_nt_time_def TIME_FIXUP_CONSTANT_def)
  have u: "unat ?w = (n + 11644473600) * 10000000" using n by (intro unat_u64) simp
  have "unat (- 1 :: u64) = 2 ^ 64 - 1" by (simp add: unsigned_minus_1_eq_mask mask_eq_exp_minus_1)
  then have ne: "?w \<noteq> 0" "?w \<noteq> - 1" using u n(3) by (auto simp del: of_nat_mult of_nat_add dest!: arg_cong [where f = unat])
  have "?w + 5000000 = word_of_nat ((n + 11644473600) * 10000000 + 5000000)" by simp
  then have "unat (?w + 5000000) = (n + 11644473600) * 10000000 + 5000000" using n(3) by (simp only:) (intro unat_u64, simp)
  then have "unat ((?w + 5000000) div 10000000) = n + 11644473600" by (simp add: unat_div_distrib)
  then have "(?w + 5000000) div 10000000 = word_of_nat (n + 11644473600)"
    using n(3) by (intro word_unat_eq_iff [THEN iffD2]) (simp add: unat_u64 del: of_nat_add)
  then have e: "(?w + 5000000) div 10000000 - TIME_FIXUP_CONSTANT = word_of_nat n" by (simp add: TIME_FIXUP_CONSTANT_def)
  have "unat (word_of_nat n :: u64) = n" using n(3) by (simp add: unat_u64)
  then have "\<not> (word_of_nat n :: u64) > word_of_int TIME_T_MAX" "uint (word_of_nat n :: u64) = int n"
    using n(3) by (simp_all add: word_less_nat_alt TIME_T_MAX_def uint_nat)
  with e ne w n(1) show ?thesis unfolding nt_time_to_unix_def by (simp add: Let_def TIME_T_MIN_def)
qed (simp add: nt_time_to_unix_def unix_to_nt_time_def)

section \<open>The calendar\<close>

lemma div_pred: "0 < k \<Longrightarrow> (y :: int) div k = (y - 1) div k + (if k dvd y then 1 else 0)"
proof -
  assume k: "0 < k"
  have y: "y = k * (y div k) + y mod k" and r: "0 \<le> y mod k" "y mod k < k" using k by auto
  show ?thesis
  proof (cases "k dvd y")
    case True
    then have "y - 1 = k * (y div k - 1) + (k - 1)" by (auto simp: algebra_simps)
    then have "(y - 1) div k = y div k - 1" by (rule int_div_pos_eq) (use k in auto)
    with True show ?thesis by simp
  next
    case False
    with r have "0 \<le> y mod k - 1" "y mod k - 1 < k" by (auto simp: dvd_eq_mod_eq_0)
    moreover have "y - 1 = k * (y div k) + (y mod k - 1)" using y by simp
    ultimately have "(y - 1) div k = y div k" by (intro int_div_pos_eq)
    with False show ?thesis by simp
  qed
qed

lemma year_length: "year_start (y + 1) = year_start y + 365 + (if is_leap y then 1 else 0)"
proof -
  have d: "4 dvd y" if "100 dvd y" using that by (rule dvd_trans [rotated]) simp
  have d': "100 dvd y" if "400 dvd y" using that by (rule dvd_trans [rotated]) simp
  have l: "is_leap y \<longleftrightarrow> 4 dvd y \<and> (\<not> 100 dvd y \<or> 400 dvd y)"
    unfolding is_leap_def by (simp only: mod_eq_0_iff_dvd)
  have e: "year_start (y + 1) = 365 * y + 365 + y div 4 - y div 100 + y div 400" by (simp add: year_start_def)
  show ?thesis
    unfolding e l div_pred [of 4 y, simplified] div_pred [of 100 y, simplified] div_pred [of 400 y, simplified]
    using d d' by (cases "4 dvd y"; cases "100 dvd y"; cases "400 dvd y") (simp_all add: year_start_def)
qed

lemma find_year:
  "year_start y \<le> d \<Longrightarrow> d < year_start (y + int k + 1) \<Longrightarrow>
   year_start (find_year k y d) \<le> d \<and> d < year_start (find_year k y d + 1)"
  by (induction k arbitrary: y) (auto simp: algebra_simps)

lemma find_month:
  "month_start leap m \<le> d \<Longrightarrow> d < month_start leap (m + int k + 1) \<Longrightarrow>
   month_start leap (find_month k leap m d) \<le> d \<and> d < month_start leap (find_month k leap m d + 1) \<and>
   m \<le> find_month k leap m d \<and> find_month k leap m d \<le> m + int k"
proof (induction k arbitrary: m)
  case (Suc k)
  show ?case
  proof (cases "d < month_start leap (m + 1)")
    case False
    moreover have "m + 1 + int k + 1 = m + int (Suc k) + 1" by simp
    ultimately show ?thesis using Suc.IH [of "m + 1"] Suc.prems by auto
  qed (use Suc.prems in simp)
qed auto

lemma year_cycle: "year_start (400 * e + y) = year_start y + 146097 * e"
proof -
  have "(400 * e + y - 1) div k = j * e + (y - 1) div k" if "j * k = 400" "k \<noteq> 0" for j k
  proof -
    have "400 * e + y - 1 = (y - 1) + j * e * k" using that(1) by (simp add: mult.commute [of e] mult.assoc [symmetric])
    then show ?thesis using that(2) by (simp only: div_mult_self1 not_False_eq_True)
  qed
  from this [of 100 4] this [of 4 100] this [of 1 400]
  have "(400 * e + y - 1) div 4 = 100 * e + (y - 1) div 4" "(400 * e + y - 1) div 100 = 4 * e + (y - 1) div 100"
    "(400 * e + y - 1) div 400 = e + (y - 1) div 400" by simp_all
  then show ?thesis by (simp add: year_start_def)
qed

definition tm_ok :: "tm \<Rightarrow> bool" where
  "tm_ok t \<longleftrightarrow> 0 \<le> tm_mon t \<and> tm_mon t < 12 \<and> 1 \<le> tm_mday t \<and> tm_mday t \<le> 31 \<and> 0 \<le> tm_hour t \<and> tm_hour t < 24 \<and>
     0 \<le> tm_min t \<and> tm_min t < 60 \<and> 0 \<le> tm_sec t \<and> tm_sec t < 60"

lemma month_length: "0 \<le> m \<Longrightarrow> m < 12 \<Longrightarrow> month_start leap (m + 1) \<le> month_start leap m + 31"
proof -
  assume "0 \<le> m" "m < 12"
  then have "m = 0 \<or> m = 1 \<or> m = 2 \<or> m = 3 \<or> m = 4 \<or> m = 5 \<or> m = 6 \<or> m = 7 \<or> m = 8 \<or> m = 9 \<or> m = 10 \<or> m = 11" by presburger
  then show ?thesis by (auto simp: month_start_def)
qed

lemma year_of_day:
  fixes d :: int
  defines "y \<equiv> find_year 399 (400 * ((d - year_start 0) div 146097)) d"
  shows "year_start y \<le> d" "d < year_start (y + 1)"
proof -
  define e where "e = (d - year_start 0) div 146097"
  have e: "146097 * e \<le> d - year_start 0" "d - year_start 0 < 146097 * e + 146097"
    using div_mult_mod_eq [of "d - year_start 0" 146097] pos_mod_bound [of 146097 "d - year_start 0"]
      pos_mod_sign [of 146097 "d - year_start 0"] unfolding e_def [symmetric] by linarith+
  have "year_start (400 * e) \<le> d" "d < year_start (400 + 400 * e)"
    using year_cycle [of e 0] year_cycle [of e 400] e by (simp_all add: year_start_def add.commute)
  then show "year_start y \<le> d" "d < year_start (y + 1)" using find_year [of "400 * e" d 399] by (simp_all add: y_def e_def)
qed

lemma year_start_mono: "a \<le> b \<Longrightarrow> year_start a \<le> year_start b"
proof (induction b rule: int_ge_induct)
  case (step i)
  then show ?case using year_length [of i] by simp
qed simp

lemma year_between: "year_start y \<le> d \<Longrightarrow> d < year_start (y + 1) \<Longrightarrow> year_start a \<le> d \<Longrightarrow> d < year_start b \<Longrightarrow> a \<le> y \<and> y < b"
  using year_start_mono [of "y + 1" a] year_start_mono [of b y] by linarith

lemma gmtime_ok:
  assumes "gmtime_r t = Some tm"
  shows "tm_ok tm" and "timegm tm = t" and "year_start (tm_year tm + 1900) \<le> t div 86400 + year_start 1970"
    and "t div 86400 + year_start 1970 < year_start (tm_year tm + 1901)"
proof -
  define d where "d = t div 86400 + year_start 1970"
  define y where "y = find_year 399 (400 * ((d - year_start 0) div 146097)) d"
  define m where "m = find_month 11 (is_leap y) 0 (d - year_start y)"
  note eqs = d_def y_def m_def
  have y: "year_start y \<le> d" "d < year_start (y + 1)" using year_of_day [of d] by (simp_all add: y_def)
  have "month_start (is_leap y) 0 = 0" "month_start (is_leap y) 12 = 365 + (if is_leap y then 1 else 0)"
    by (simp_all add: month_start_def)
  with y year_length [of y] have m: "month_start (is_leap y) m \<le> d - year_start y" "d - year_start y < month_start (is_leap y) (m + 1)"
    "0 \<le> m" "m < 12"
    using find_month [of "is_leap y" 0 "d - year_start y" 11] by (simp_all add: m_def)
  from assms have tm: "tm = \<lparr>tm_year = y - 1900, tm_mon = m, tm_mday = d - year_start y - month_start (is_leap y) m + 1,
      tm_hour = t mod 86400 div 3600, tm_min = t mod 86400 div 60 mod 60, tm_sec = t mod 86400 mod 60\<rparr>"
    by (simp add: gmtime_r_def Let_def eqs split: if_splits)
  have s: "0 \<le> t mod 86400" "t mod 86400 < 86400" by simp_all
  have q: "t mod 86400 div 60 div 60 = t mod 86400 div 3600" by (simp add: zdiv_zmult2_eq [symmetric])
  show "tm_ok tm" using m month_length [OF m(3,4), of "is_leap y"] s by (auto simp: tm tm_ok_def div_less_iff_less_mult pos_imp_zdiv_nonneg_iff)
  have "tm_hour tm * 3600 + tm_min tm * 60 + tm_sec tm = t mod 86400"
    unfolding tm using q div_mult_mod_eq [of "t mod 86400 div 60" 60] div_mult_mod_eq [of "t mod 86400" 60] by (simp only: tm.simps)
  moreover have "year_start 1970 + (timegm tm - (tm_hour tm * 3600 + tm_min tm * 60 + tm_sec tm)) div 86400 = d"
    "timegm tm = (d - year_start 1970) * 86400 + (tm_hour tm * 3600 + tm_min tm * 60 + tm_sec tm)"
    using m by (simp_all add: tm timegm_def Let_def)
  ultimately show "timegm tm = t" using div_mult_mod_eq [of t 86400] by (simp add: d_def)
  show "year_start (tm_year tm + 1900) \<le> t div 86400 + year_start 1970" "t div 86400 + year_start 1970 < year_start (tm_year tm + 1901)"
    using y by (simp_all add: tm d_def add.commute)
qed

lemma gmtime_some:
  assumes "year_start 1 \<le> t div 86400 + year_start 1970" "t div 86400 + year_start 1970 < year_start 10000"
  shows "\<exists>tm. gmtime_r t = Some tm"
  using year_between [OF year_of_day assms] by (simp add: gmtime_r_def Let_def)

section \<open>Packing\<close>

lemma bit_above: "x < 2 ^ k \<Longrightarrow> k \<le> n \<Longrightarrow> \<not> bit x n" for x :: u32
proof
  assume x: "x < 2 ^ k" "k \<le> n" and b: "bit x n"
  have "(2 ^ k :: u32) = word_of_nat (2 ^ k)" by simp
  then have "unat (2 ^ k :: u32) = 2 ^ k mod 2 ^ 32" by (simp only: unsigned_of_nat take_bit_eq_mod) simp
  then have "unat (2 ^ k :: u32) \<le> 2 ^ k" by (simp only: mod_less_eq_dividend)
  with x have "unat x < 2 ^ k" by (simp add: word_less_nat_alt)
  then have "take_bit k (unat x) = unat x" by (rule take_bit_nat_eq_self)
  moreover from b have "bit (unat x) n" by (simp add: bit_unsigned_iff)
  ultimately show False using x(2) by (metis bit_take_bit_iff linorder_not_le)
qed

lemma u32_eqI:
  fixes a b :: u32
  assumes "list_all (\<lambda>n. bit a n = bit b n)
    [0, 1, 2, 3, 4, 5, 6, 7, 8, 9, 10, 11, 12, 13, 14, 15, 16, 17, 18, 19, 20, 21, 22, 23, 24, 25, 26, 27, 28, 29, 30, 31]"
  shows "a = b"
proof (rule bit_word_eqI)
  have "[0..<32] = [0, 1, 2, 3, 4, 5, 6, 7, 8, 9, 10, 11, 12, 13, 14, 15, 16, 17, 18, 19, 20, 21, 22, 23, 24, 25, 26, 27, 28, 29, 30, 31]"
    by code_simp
  with assms have "list_all (\<lambda>n. bit a n = bit b n) [0..<32]" by (simp only:)
  then show "bit a n = bit b n" if "n < LENGTH(32)" for n using that by (simp add: list_all_iff)
qed

text \<open>The fields in their places in the packed word.\<close>

definition pack :: "u32 \<Rightarrow> u32 \<Rightarrow> u32 \<Rightarrow> u32 \<Rightarrow> u32 \<Rightarrow> u32 \<Rightarrow> u32" where
  "pack y mo d h mi s = push_bit 25 y OR push_bit 21 mo OR push_bit 16 d OR push_bit 11 h OR push_bit 5 mi OR s"

lemma byte_masks:
  "(0xFF :: u32) = mask 8" "(0xFF00 :: u32) = push_bit 8 (mask 8)" "(0xFF0000 :: u32) = push_bit 16 (mask 8)"
  "(0xFF000000 :: u32) = push_bit 24 (mask 8)" "(0x1F :: u32) = mask 5" "(0x7 :: u32) = mask 3" "(0x1 :: u32) = mask 1"
  "(0xFFFF :: u32) = mask 16" "(0xFFFF0000 :: u32) = push_bit 16 (mask 16)"
  by (simp_all add: mask_numeral)

lemma unpack:
  fixes y mo d h mi s :: u32
  assumes "y < 2 ^ 7" "mo < 2 ^ 4" "d < 2 ^ 5" "h < 2 ^ 5" "mi < 2 ^ 6" "s < 2 ^ 5"
  defines "p0 \<equiv> pack y mo d h mi s AND mask 8" and "p1 \<equiv> drop_bit 8 (pack y mo d h mi s AND push_bit 8 (mask 8)) AND mask 8"
    and "p2 \<equiv> drop_bit 16 (pack y mo d h mi s AND push_bit 16 (mask 8)) AND mask 8"
    and "p3 \<equiv> drop_bit 24 (pack y mo d h mi s AND push_bit 24 (mask 8)) AND mask 8"
  shows "drop_bit 1 p3 AND mask 8 = y" "p2 AND mask 5 = d" "drop_bit 3 p1 AND mask 8 = h" "p0 AND mask 5 = s"
    "(drop_bit 5 p2 AND mask 8) + push_bit 3 (p3 AND mask 1) = mo" "(drop_bit 5 p0 AND mask 8) + push_bit 3 (p1 AND mask 3) = mi"
proof -
  note b = assms(1-6) [THEN bit_above] and p = p0_def p1_def p2_def p3_def pack_def
  show "drop_bit 1 p3 AND mask 8 = y" by (rule u32_eqI) (simp add: p bit_simps b)
  show "p2 AND mask 5 = d" by (rule u32_eqI) (simp add: p bit_simps b)
  show "drop_bit 3 p1 AND mask 8 = h" by (rule u32_eqI) (simp add: p bit_simps b)
  show "p0 AND mask 5 = s" by (rule u32_eqI) (simp add: p bit_simps b)
  have "(drop_bit 5 p2 AND mask 8) AND push_bit 3 (p3 AND mask 1) = 0" by (rule u32_eqI) (simp add: p bit_simps b)
  then have "(drop_bit 5 p2 AND mask 8) + push_bit 3 (p3 AND mask 1) = (drop_bit 5 p2 AND mask 8) OR push_bit 3 (p3 AND mask 1)"
    by (rule disjunctive_add_eq_or)
  also have "\<dots> = mo" by (rule u32_eqI) (simp add: p bit_simps b)
  finally show "(drop_bit 5 p2 AND mask 8) + push_bit 3 (p3 AND mask 1) = mo" .
  have "(drop_bit 5 p0 AND mask 8) AND push_bit 3 (p1 AND mask 3) = 0" by (rule u32_eqI) (simp add: p bit_simps b)
  then have "(drop_bit 5 p0 AND mask 8) + push_bit 3 (p1 AND mask 3) = (drop_bit 5 p0 AND mask 8) OR push_bit 3 (p1 AND mask 3)"
    by (rule disjunctive_add_eq_or)
  also have "\<dots> = mi" by (rule u32_eqI) (simp add: p bit_simps b)
  finally show "(drop_bit 5 p0 AND mask 8) + push_bit 3 (p1 AND mask 3) = mi" .
qed

lemma make_pack:
  fixes y mo d h mi s :: u32
  assumes "y < 2 ^ 7" "mo < 2 ^ 4" "d < 2 ^ 5" "h < 2 ^ 5" "mi < 2 ^ 6" "s < 2 ^ 5"
  shows "push_bit 16 (ucast (ucast (push_bit 8 (ucast (ucast (drop_bit 3 mo OR push_bit 1 y) :: u16) AND mask 8) OR (d OR push_bit 5 (mo AND mask 3)) :: u32) :: u16) AND mask 16) OR
    ucast (ucast (push_bit 8 (ucast (ucast ((drop_bit 3 mi AND mask 3) OR push_bit 3 h) :: u16) AND mask 8) OR (s OR push_bit 5 (mi AND mask 3)) :: u32) :: u16) = pack y mo d h mi s"
proof -
  note b = assms [THEN bit_above]
  show ?thesis by (rule u32_eqI) (simp add: pack_def bit_simps b mult.commute [of y 2] bit_double_iff)
qed

lemma sdiv_nonneg: "x sdiv k = x div k" "x smod k = x mod k" if "0 \<le> x" "0 < k" for x k :: int
  using that by (cases "x = 0"; simp add: signed_divide_int_def signed_modulo_int_def minus_div_mult_eq_mod)+

lemma small_u32:
  fixes x :: int
  assumes "0 \<le> x" "x < 2 ^ k" "k < 32"
  shows "word_of_int x < (2 ^ k :: u32)" "sint (word_of_int x :: u32) = x"
proof -
  have k: "(2 :: int) ^ k \<le> 2 ^ 31" using assms(3) by (intro power_increasing) simp_all
  then have "uint (word_of_int x :: u32) = x" using assms(1,2) by (simp add: unsigned_of_int take_bit_int_eq_self)
  moreover have "(2 ^ k :: u32) = word_of_int (2 ^ k)" by simp
  then have "uint (2 ^ k :: u32) = 2 ^ k" using k assms(3) by (simp only: unsigned_of_int) (simp add: take_bit_int_eq_self)
  ultimately show "word_of_int x < (2 ^ k :: u32)" using assms(2) by (simp add: word_less_def)
  show "sint (word_of_int x :: u32) = x" using assms(1,2) k by (simp add: signed_of_int signed_take_bit_int_eq_self)
qed

lemma dos_back:
  assumes tm: "tm_ok tm" and y: "80 \<le> tm_year tm" "tm_year tm < 208"
  defines "date \<equiv> push_bit 16 (ucast (make_dos_date1 tm) AND 0xFFFF) OR ucast (make_dos_time1 tm) :: u32"
  shows "interpret_dos_date date = tm\<lparr>tm_sec := 2 * (tm_sec tm div 2)\<rparr> \<and> date \<noteq> 0"
proof -
  let ?y = "word_of_int (tm_year tm - 80) :: u32" and ?mo = "word_of_int (tm_mon tm + 1) :: u32" and ?d = "word_of_int (tm_mday tm) :: u32"
    and ?h = "word_of_int (tm_hour tm) :: u32" and ?mi = "word_of_int (tm_min tm) :: u32" and ?s = "word_of_int (tm_sec tm div 2) :: u32"
  have s2: "tm_sec tm div 2 < 32" using tm by (auto simp: tm_ok_def)
  then have sm: "?y < 2 ^ 7" "?mo < 2 ^ 4" "?d < 2 ^ 5" "?h < 2 ^ 5" "?mi < 2 ^ 6" "?s < 2 ^ 5"
    using tm y by (intro small_u32; simp add: tm_ok_def)+
  have "tm_sec tm sdiv 2 = tm_sec tm div 2" using tm by (simp add: tm_ok_def sdiv_nonneg)
  then have date: "date = pack ?y ?mo ?d ?h ?mi ?s"
    unfolding date_def make_dos_date1_def make_dos_time1_def Let_def byte_masks by (simp only: make_pack [OF sm])
  note u = unpack [OF sm, folded date]
  have eqs: "?y + 80 = word_of_int (tm_year tm)" "?mo - 1 = word_of_int (tm_mon tm)" "2 * ?s = word_of_int (2 * (tm_sec tm div 2))" by simp_all
  have sint: "sint (word_of_int (tm_year tm) :: u32) = tm_year tm" "sint (word_of_int (tm_mon tm) :: u32) = tm_mon tm" "sint ?d = tm_mday tm" "sint ?h = tm_hour tm" "sint ?mi = tm_min tm"
    "sint (word_of_int (2 * (tm_sec tm div 2)) :: u32) = 2 * (tm_sec tm div 2)"
    using tm y s2 by (intro small_u32 [where k = 8]; simp add: tm_ok_def)+
  have "interpret_dos_date date = tm\<lparr>tm_sec := 2 * (tm_sec tm div 2)\<rparr>"
    unfolding interpret_dos_date_def Let_def byte_masks u eqs sint by (intro tm.equality) (simp_all add: sint)
  moreover have "date \<noteq> 0" using u(2) tm sint(3) by (auto simp: tm_ok_def)
  ultimately show ?thesis ..
qed

lemma swap_swap: "swap_halves (swap_halves x) = x"
  unfolding swap_halves_def byte_masks by (rule u32_eqI) (simp add: bit_simps)

lemma unix_dos_back:
  assumes "315532800 \<le> t - zone" "t - zone < 4354819200" "t \<noteq> 0"
  shows "unix_of_dos (make_dos_date t zone) zone = t - (t - zone) mod 2"
proof -
  have "3652 \<le> (t - zone) div 86400" "(t - zone) div 86400 < 50403" using assms(1,2) by linarith+
  moreover have "year_start 1980 = year_start 1970 + 3652" "year_start 2108 = year_start 1970 + 50403" by (simp_all add: year_start_def)
  ultimately have d: "year_start 1980 \<le> (t - zone) div 86400 + year_start 1970" "(t - zone) div 86400 + year_start 1970 < year_start 2108" by linarith+
  then obtain tm where tm: "gmtime_r (t - zone) = Some tm"
    using gmtime_some [of "t - zone"] year_start_mono [of 1 1980] year_start_mono [of 2108 10000] by fastforce
  note g = gmtime_ok [OF tm]
  have y: "80 \<le> tm_year tm" "tm_year tm < 208" using year_between [OF g(3) _ d] g(4) by (simp_all add: add.commute)
  have "timegm (tm\<lparr>tm_sec := 2 * (tm_sec tm div 2)\<rparr>) = timegm tm - tm_sec tm mod 2"
    by (simp add: timegm_def Let_def minus_mod_eq_mult_div [symmetric])
  moreover have "tm_sec tm mod 2 = timegm tm mod 2" by (simp add: timegm_def Let_def) presburger
  ultimately show ?thesis using dos_back [OF g(1) y] g(2) tm assms(3) by (simp add: unix_of_dos_def make_dos_date_def)
qed

text \<open>
  DOS dates: a time from 1980 to 2107 in the zone that \<open>push_dos_date\<close> or \<open>push_dos_date2\<close> puts into a buffer is what
  \<open>pull_dos_date\<close> or \<open>pull_dos_date2\<close> gets back, rounded down to two seconds; the calendar functions are those of the C library.
  NT times lose nothing: \<open>nt_time_to_unix\<close> gives back every time of 31 bits.
\<close>

theorem dos_date_roundtrip:
  assumes "315532800 \<le> t - zone" "t - zone < 4354819200" "t \<noteq> 0" and "length buf = 4" and "0 \<le> u" "u \<le> TIME_T_MAX"
  shows "chk (push_dos_date buf 0 t zone) (\<lambda>b. pull_dos_date b zone) = Inr (t - (t - zone) mod 2) \<and>
    chk (push_dos_date2 buf 0 t zone) (\<lambda>b. pull_dos_date2 b zone) = Inr (t - (t - zone) mod 2) \<and>
    nt_time_to_unix (unix_to_nt_time u) = u"
proof -
  have s: "SIVAL buf 0 x = Inr (le32 x)" for x using assms(4) by (simp add: SIVAL_def put_bytes_def)
  have i: "IVAL (le32 x) 0 = Inr x" for x by (simp add: IVAL_at)
  show ?thesis
    using unix_dos_back [OF assms(1-3)] nt_unix_back [OF assms(5,6)]
    by (simp add: push_dos_date_def pull_dos_date_def push_dos_date2_def pull_dos_date2_def s i swap_swap)
qed

theorem dos_date_roundtrip_witness:
  "chk (push_dos_date [0, 0, 0, 0] 0 1000000001 3600) (\<lambda>b. pull_dos_date b 3600) = Inr 1000000000 \<and>
   chk (push_dos_date2 [0, 0, 0, 0] 0 1000000001 3600) (\<lambda>b. pull_dos_date2 b 3600) = Inr 1000000000 \<and>
   nt_time_to_unix (unix_to_nt_time 1700000000) = 1700000000"
  using dos_date_roundtrip [of 1000000001 3600 "[0, 0, 0, 0]" 1700000000] by (simp add: TIME_T_MAX_def)

section \<open>Intervals\<close>

lemma timeval_compare_order:
  "timeval_compare a b = sgn (usec_time_diff a b)" if "0 \<le> tv_usec a" "tv_usec a < 1000000" "0 \<le> tv_usec b" "tv_usec b < 1000000"
proof -
  have "tv_sec a < tv_sec b \<Longrightarrow> usec_time_diff a b < 0" "tv_sec b < tv_sec a \<Longrightarrow> 0 < usec_time_diff a b"
    using that by (auto simp: usec_time_diff_def)
  then show ?thesis by (auto simp: timeval_compare_def usec_time_diff_def)
qed

lemma timeval_sum_nonneg:
  assumes "0 \<le> tv_usec a" "0 \<le> tv_usec t" "tv_usec t < 2 ^ 32" "0 \<le> tv_sec t" "tv_sec t < 2 ^ 32"
  shows "timeval_sum a t = \<lparr>tv_sec = tv_sec a + tv_sec t + (tv_usec a + tv_usec t) div 1000000, tv_usec = (tv_usec a + tv_usec t) mod 1000000\<rparr>"
proof -
  have "uint (word_of_int x :: u32) = x" if "0 \<le> x" "x < 2 ^ 32" for x using that by (simp add: unsigned_of_int take_bit_int_eq_self)
  with assms show ?thesis by (simp add: timeval_sum_def timeval_add_def sdiv_nonneg Let_def)
qed

lemma timeval_until_sum:
  assumes "0 \<le> tv_usec a" "tv_usec a < 1000000" "0 \<le> tv_usec b" "tv_usec b < 1000000"
    and "timeval_compare a b < 0" and "tv_sec b - tv_sec a < 2 ^ 32"
  shows "timeval_sum a (timeval_until a b) = b"
proof -
  have lt: "tv_sec a < tv_sec b \<or> tv_sec a = tv_sec b \<and> tv_usec a < tv_usec b" using assms(5) by (auto simp: timeval_compare_def split: if_splits)
  have e: "timeval_until a b = (if tv_usec a > tv_usec b then \<lparr>tv_sec = tv_sec b - tv_sec a - 1, tv_usec = 1000000 - (tv_usec a - tv_usec b)\<rparr>
      else \<lparr>tv_sec = tv_sec b - tv_sec a, tv_usec = tv_usec b - tv_usec a\<rparr>)"
    using assms(5) by (simp add: timeval_until_def Let_def)
  show ?thesis using lt assms unfolding e by (subst timeval_sum_nonneg) (auto simp: timeval.equality)
qed

text \<open>The difference of two broken-down times is the difference of the times, so the zone comes out right.\<close>

lemma tm_diff_timegm:
  assumes "tm_ok a" "tm_ok b" "- 1899 \<le> tm_year a" "- 1899 \<le> tm_year b"
  shows "tm_diff a b = timegm a - timegm b"
  using assms by (simp add: tm_diff_def timegm_def tm_yday_def year_start_def sdiv_nonneg tm_ok_def Let_def add.commute)

lemma time_zone_west:
  assumes "gmtime_r t = Some a" "gmtime_r (t - west) = Some b" "- 1899 \<le> tm_year a" "- 1899 \<le> tm_year b"
  shows "get_time_zone (\<lambda>t. gmtime_r (t - west)) t = west"
  using assms gmtime_ok [OF assms(1)] gmtime_ok [OF assms(2)] by (simp add: get_time_zone_def tm_diff_timegm)

end
