(* ===== verification/Unistr.thy ===== *)
theory Unistr
  imports Charcnv
begin

text \<open>
  \<open>lib/charset/util_unistr.c\<close>: strings of several bytes per character, read code point by code point. A string is its
  bytes before the NUL. The case tables are files of 128 KB; \<open>None\<close> is the case that they could not be loaded. A loop that
  would not advance, a step over the end of the string, a write behind the allocated block and a call of \<open>smb_panic\<close> are
  \<open>Fault\<close>. A \<open>char\<close> is signed. A result that points into the string is an index.
\<close>

section \<open>Code points\<close>

type_synonym case_table = "bytes option"

definition toupper :: "u8 \<Rightarrow> u8" where
  "toupper c = (if 0x61 \<le> c \<and> c \<le> 0x7A then c - 0x20 else c)"

definition table_case :: "(u8 \<Rightarrow> u8) \<Rightarrow> case_table \<Rightarrow> u32 \<Rightarrow> u32 res" where
  "table_case ascii tab val =
     (if val < 128 then Inr (ucast (ascii (ucast val)))
      else case tab of
             None \<Rightarrow> Inr val
           | Some t \<Rightarrow> if val AND 0xFFFF0000 \<noteq> 0 then Inr val else SVAL t (unat val * 2))"

definition toupper_w :: "case_table \<Rightarrow> u32 \<Rightarrow> u32 res" where
  "toupper_w upcase_table val = table_case toupper upcase_table val"

definition tolower_w :: "case_table \<Rightarrow> u32 \<Rightarrow> u32 res" where
  "tolower_w lowcase_table val = table_case tolower lowcase_table val"

definition codepoint_cmpi :: "case_table \<Rightarrow> u32 \<Rightarrow> u32 \<Rightarrow> int res" where
  "codepoint_cmpi up c1 c2 =
     (if c1 = c2 then Inr 0
      else chk (toupper_w up c1) (\<lambda>u1. chk (toupper_w up c2) (\<lambda>u2. Inr (if u1 = u2 then 0 else sint (c1 - c2)))))"

text \<open>The code point at the start of a string that is not empty, and the string behind it.\<close>

definition cp_step :: "conv_env \<Rightarrow> bytes \<Rightarrow> (u32 \<times> bytes) res" where
  "cp_step conv s =
     chk (next_codepoint conv s) (\<lambda>(c, n). if n = 0 \<or> n > length s then Inl Fault else Inr (c, drop n s))"

lemma cp_step_shorter: "cp_step conv s = Inr (c, r) \<Longrightarrow> length r < length s"
  by (auto simp: cp_step_def chk_eq_Inr split: if_splits)

section \<open>Comparing\<close>

definition schar :: "bytes \<Rightarrow> int" where
  "schar s = (case s of [] \<Rightarrow> 0 | c # _ \<Rightarrow> sint c)"

text \<open>\<open>strcasecmp\<close> of the C library.\<close>

fun strcasecmp :: "bytes \<Rightarrow> bytes \<Rightarrow> int" where
  "strcasecmp (a # as) (b # bs) = (if tolower a = tolower b then strcasecmp as bs else uint (tolower a) - uint (tolower b))"
| "strcasecmp (a # as) [] = uint (tolower a)"
| "strcasecmp [] (b # bs) = - uint (tolower b)"
| "strcasecmp [] [] = 0"

function casecmp_loop :: "case_table \<Rightarrow> conv_env \<Rightarrow> bytes \<Rightarrow> bytes \<Rightarrow> int res" where
  "casecmp_loop up conv s1 s2 =
     (if s1 = [] \<or> s2 = [] then Inr (schar s1 - schar s2)
      else chk (cp_step conv s1) (\<lambda>(c1, s1).
           chk (cp_step conv s2) (\<lambda>(c2, s2).
           if c1 = c2 then casecmp_loop up conv s1 s2
           else if c1 = INVALID_CODEPOINT \<or> c2 = INVALID_CODEPOINT then Inr (strcasecmp s1 s2)
           else chk (toupper_w up c1) (\<lambda>u1. chk (toupper_w up c2) (\<lambda>u2.
                if u1 \<noteq> u2 then Inr (sint (c1 - c2)) else casecmp_loop up conv s1 s2)))))"
  by pat_completeness auto
termination by (relation "measure (\<lambda>(up, conv, s1, s2). length s1)") (auto dest: cp_step_shorter)

declare casecmp_loop.simps [simp del]

text \<open>Two pointers that are equal are given as equal strings.\<close>

definition strcasecmp_m :: "case_table \<Rightarrow> conv_env \<Rightarrow> bytes option \<Rightarrow> bytes option \<Rightarrow> int res" where
  "strcasecmp_m up conv s1 s2 =
     (case (s1, s2) of
        (None, None) \<Rightarrow> Inr 0 | (None, _) \<Rightarrow> Inr (- 1) | (_, None) \<Rightarrow> Inr 1
      | (Some s1, Some s2) \<Rightarrow> casecmp_loop up conv s1 s2)"

function ncasecmp_loop :: "case_table \<Rightarrow> conv_env \<Rightarrow> bytes \<Rightarrow> bytes \<Rightarrow> nat \<Rightarrow> int res" where
  "ncasecmp_loop up conv s1 s2 n =
     (if s1 = [] \<or> s2 = [] \<or> n = 0 then Inr (if n = 0 then 0 else schar s1 - schar s2)
      else chk (cp_step conv s1) (\<lambda>(c1, s1).
           chk (cp_step conv s2) (\<lambda>(c2, s2).
           if c1 = c2 then ncasecmp_loop up conv s1 s2 (n - 1)
           else if c1 = INVALID_CODEPOINT \<or> c2 = INVALID_CODEPOINT then Inr (strcasecmp s1 s2)
           else chk (toupper_w up c1) (\<lambda>u1. chk (toupper_w up c2) (\<lambda>u2.
                if u1 \<noteq> u2 then Inr (sint (c1 - c2)) else ncasecmp_loop up conv s1 s2 (n - 1))))))"
  by pat_completeness auto
termination by (relation "measure (\<lambda>(up, conv, s1, s2, n). length s1)") (auto dest: cp_step_shorter)

declare ncasecmp_loop.simps [simp del]

definition strncasecmp_m :: "case_table \<Rightarrow> conv_env \<Rightarrow> bytes option \<Rightarrow> bytes option \<Rightarrow> nat \<Rightarrow> int res" where
  "strncasecmp_m up conv s1 s2 n =
     (case (s1, s2) of
        (None, None) \<Rightarrow> Inr 0 | (None, _) \<Rightarrow> Inr (- 1) | (_, None) \<Rightarrow> Inr 1
      | (Some s1, Some s2) \<Rightarrow> ncasecmp_loop up conv s1 s2 n)"

definition strequal_w :: "case_table \<Rightarrow> conv_env \<Rightarrow> bytes option \<Rightarrow> bytes option \<Rightarrow> bool res" where
  "strequal_w up conv s1 s2 =
     (case (s1, s2) of
        (Some a, Some b) \<Rightarrow> chk (strcasecmp_m up conv s1 s2) (\<lambda>r. Inr (r = 0))
      | _ \<Rightarrow> Inr (s1 = None \<and> s2 = None))"

definition strcsequal_w :: "bytes option \<Rightarrow> bytes option \<Rightarrow> bool" where
  "strcsequal_w s1 s2 = (case (s1, s2) of (Some a, Some b) \<Rightarrow> a = b | _ \<Rightarrow> s1 = None \<and> s2 = None)"

section \<open>Searching\<close>

text \<open>\<open>strchr\<close> and \<open>strrchr\<close> of the C library also find the NUL.\<close>

fun strchr :: "bytes \<Rightarrow> u8 \<Rightarrow> nat option" where
  "strchr [] c = (if c = 0 then Some 0 else None)"
| "strchr (x # xs) c = (if x = c then Some 0 else map_option Suc (strchr xs c))"

fun strrchr :: "bytes \<Rightarrow> u8 \<Rightarrow> nat option" where
  "strrchr [] c = (if c = 0 then Some 0 else None)"
| "strrchr (x # xs) c = (case strrchr xs c of Some i \<Rightarrow> Some (Suc i) | None \<Rightarrow> if x = c then Some 0 else None)"

function strchr_loop :: "conv_env \<Rightarrow> bytes \<Rightarrow> nat \<Rightarrow> u8 \<Rightarrow> nat option res" where
  "strchr_loop conv s pos c =
     (if s = [] then Inr None
      else chk (cp_step conv s) (\<lambda>(c2, r).
           if c2 = scast c then Inr (Some pos) else strchr_loop conv r (pos + (length s - length r)) c))"
  by pat_completeness auto
termination by (relation "measure (\<lambda>(conv, s, pos, c). length s)") (auto dest: cp_step_shorter)

declare strchr_loop.simps [simp del]

definition strchr_m :: "conv_env \<Rightarrow> bytes \<Rightarrow> u8 \<Rightarrow> nat option res" where
  "strchr_m conv s c = (if c AND 0xC0 = 0 then Inr (strchr s c) else strchr_loop conv s 0 c)"

function strrchr_loop :: "conv_env \<Rightarrow> bytes \<Rightarrow> nat \<Rightarrow> u8 \<Rightarrow> nat option \<Rightarrow> nat option res" where
  "strrchr_loop conv s pos c ret =
     (if s = [] then Inr ret
      else chk (cp_step conv s) (\<lambda>(c2, r).
           strrchr_loop conv r (pos + (length s - length r)) c (if c2 = scast c then Some pos else ret)))"
  by pat_completeness auto
termination by (relation "measure (\<lambda>(conv, s, pos, c, ret). length s)") (auto dest: cp_step_shorter)

declare strrchr_loop.simps [simp del]

definition strrchr_m :: "conv_env \<Rightarrow> bytes \<Rightarrow> u8 \<Rightarrow> nat option res" where
  "strrchr_m conv s c = (if c AND 0xC0 = 0 then Inr (strrchr s c) else strrchr_loop conv s 0 c None)"

function count_chars_w :: "conv_env \<Rightarrow> bytes \<Rightarrow> u8 \<Rightarrow> nat res" where
  "count_chars_w conv s c =
     (if s = [] then Inr 0
      else chk (cp_step conv s) (\<lambda>(c2, s). chk (count_chars_w conv s c) (\<lambda>n. Inr (if c2 = scast c then n + 1 else n))))"
  by pat_completeness auto
termination by (relation "measure (\<lambda>(conv, s, c). length s)") (auto dest: cp_step_shorter)

declare count_chars_w.simps [simp del]

function has_other :: "(u32 \<Rightarrow> u32 res) \<Rightarrow> conv_env \<Rightarrow> bytes \<Rightarrow> bool res" where
  "has_other f conv s =
     (if s = [] then Inr False
      else chk (cp_step conv s) (\<lambda>(c, s). chk (f c) (\<lambda>t. if c \<noteq> t then Inr True else has_other f conv s)))"
  by pat_completeness auto
termination by (relation "measure (\<lambda>(f, conv, s). length s)") (auto dest: cp_step_shorter)

declare has_other.simps [simp del]

definition strhaslower :: "case_table \<Rightarrow> conv_env \<Rightarrow> bytes \<Rightarrow> bool res" where
  "strhaslower up conv s = has_other (toupper_w up) conv s"

definition strhasupper :: "case_table \<Rightarrow> conv_env \<Rightarrow> bytes \<Rightarrow> bool res" where
  "strhasupper low conv s = has_other (tolower_w low) conv s"

section \<open>Lengths\<close>

definition is_ascii :: "u8 \<Rightarrow> bool" where "is_ascii c = (c AND 0x80 = 0)"

function strlen_m_loop :: "conv_env \<Rightarrow> bytes \<Rightarrow> nat res" where
  "strlen_m_loop conv s =
     (if s = [] then Inr 0
      else chk (cp_step conv s) (\<lambda>(c, s). chk (strlen_m_loop conv s) (\<lambda>n. Inr (if c < 0x10000 then n + 1 else n + 2))))"
  by pat_completeness auto
termination by (relation "measure (\<lambda>(conv, s). length s)") (auto dest: cp_step_shorter)

declare strlen_m_loop.simps [simp del]

definition strlen_m :: "conv_env \<Rightarrow> bytes option \<Rightarrow> nat res" where
  "strlen_m conv s =
     (case s of
        None \<Rightarrow> Inr 0
      | Some s \<Rightarrow> chk (strlen_m_loop conv (dropWhile is_ascii s)) (\<lambda>n. Inr (length (takeWhile is_ascii s) + n)))"

definition strlen_m_term :: "conv_env \<Rightarrow> bytes option \<Rightarrow> nat res" where
  "strlen_m_term conv s = (case s of None \<Rightarrow> Inr 0 | Some _ \<Rightarrow> chk (strlen_m conv s) (\<lambda>n. Inr (n + 1)))"

section \<open>Changing the case\<close>

text \<open>The loop that writes into a block of \<open>room\<close> bytes; \<open>dest\<close> is what was written.\<close>

function case_loop :: "(u32 \<Rightarrow> u32 res) \<Rightarrow> conv_env \<Rightarrow> nat \<Rightarrow> bytes \<Rightarrow> bytes \<Rightarrow> bytes option res" where
  "case_loop f conv room dest src =
     (if src = [] then if length dest < room then Inr (Some dest) else Inl Fault
      else chk (cp_step conv src) (\<lambda>(c, src).
           chk (f c) (\<lambda>c.
           chk (push_codepoint conv c) (\<lambda>(c_size, bs).
           if length dest + length bs > room then Inl Fault
           else if c_size = - 1 then Inr None
           else case_loop f conv room (dest @ bs) src))))"
  by pat_completeness auto
termination by (relation "measure (\<lambda>(f, conv, room, dest, src). length src)") (auto dest: cp_step_shorter)

declare case_loop.simps [simp del]

definition strlower_talloc :: "case_table \<Rightarrow> conv_env \<Rightarrow> bytes \<Rightarrow> bytes option res" where
  "strlower_talloc low conv src =
     (if 2 * length src + 1 \<ge> MAX_TALLOC_SIZE then Inr None
      else case_loop (tolower_w low) conv (2 * length src + 1) [] src)"

definition strupper_talloc :: "case_table \<Rightarrow> conv_env \<Rightarrow> bytes option \<Rightarrow> bytes option res" where
  "strupper_talloc up conv src =
     (case src of
        None \<Rightarrow> Inr None
      | Some src \<Rightarrow>
          if 2 * length src + 1 \<ge> MAX_TALLOC_SIZE then Inr None
          else case_loop (toupper_w up) conv (2 * length src + 1) [] src)"

text \<open>The loops in place: a code point must not grow.\<close>

function inplace_loop :: "(u32 \<Rightarrow> u32 res) \<Rightarrow> conv_env \<Rightarrow> bytes \<Rightarrow> bytes res" where
  "inplace_loop f conv s =
     (if s = [] then Inr []
      else chk (cp_step conv s) (\<lambda>(c, r).
           chk (f c) (\<lambda>c.
           chk (push_codepoint conv c) (\<lambda>(c_size2, bs).
           if c_size2 = - 1 \<or> nat c_size2 > length s - length r then Inl Fault
           else chk (inplace_loop f conv r) (\<lambda>d. Inr (bs @ d))))))"
  by pat_completeness auto
termination by (relation "measure (\<lambda>(f, conv, s). length s)") (auto dest: cp_step_shorter)

declare inplace_loop.simps [simp del]

definition strlower_m :: "case_table \<Rightarrow> conv_env \<Rightarrow> bytes \<Rightarrow> bytes res" where
  "strlower_m low conv s =
     chk (inplace_loop (tolower_w low) conv (dropWhile is_ascii s)) (\<lambda>d. Inr (map tolower (takeWhile is_ascii s) @ d))"

definition strupper_m :: "case_table \<Rightarrow> conv_env \<Rightarrow> bytes \<Rightarrow> bytes res" where
  "strupper_m up conv s =
     chk (inplace_loop (toupper_w up) conv (dropWhile is_ascii s)) (\<lambda>d. Inr (map toupper (takeWhile is_ascii s) @ d))"

section \<open>Tokens and replacing\<close>

definition next_token_sep :: bytes where "next_token_sep = [0x20, 0x09, 0x0A, 0x0D]"

fun skip_sep :: "conv_env \<Rightarrow> bytes \<Rightarrow> bytes \<Rightarrow> bytes res" where
  "skip_sep conv sep [] = Inr []"
| "skip_sep conv sep (c # s) = chk (strchr_m conv sep c) (\<lambda>p. if p \<noteq> None then skip_sep conv sep s else Inr (c # s))"

text \<open>The token and the string where the loop stopped.\<close>

fun token_loop :: "conv_env \<Rightarrow> bytes \<Rightarrow> nat \<Rightarrow> nat \<Rightarrow> bool \<Rightarrow> bytes \<Rightarrow> (bytes \<times> bytes) res" where
  "token_loop conv sep bufsize len quoted [] = Inr ([], [])"
| "token_loop conv sep bufsize len quoted (c # s) =
     (if len \<ge> bufsize then Inr ([], c # s)
      else chk (if quoted then Inr None else strchr_m conv sep c) (\<lambda>p.
           if p \<noteq> None then Inr ([], c # s)
           else if c = 0x22 then token_loop conv sep bufsize len (\<not> quoted) s
           else chk (token_loop conv sep bufsize (len + 1) quoted s) (\<lambda>(t, r). Inr (c # t, r))))"

definition next_token :: "conv_env \<Rightarrow> bytes \<Rightarrow> bytes option \<Rightarrow> nat \<Rightarrow> (bytes \<times> bytes) option res" where
  "next_token conv s sep bufsize =
     (let sep = (case sep of None \<Rightarrow> next_token_sep | Some p \<Rightarrow> p)
      in chk (skip_sep conv sep s) (\<lambda>s.
         if s = [] then Inr None
         else if bufsize = 0 then Inl Fault
         else chk (token_loop conv sep bufsize 1 False s) (\<lambda>(t, r). Inr (Some (t, if r \<noteq> [] then tl r else r)))))"

text \<open>After a character the loop advances by its size and once more.\<close>

function string_replace_w :: "conv_env \<Rightarrow> u8 \<Rightarrow> u8 \<Rightarrow> bytes \<Rightarrow> bytes res" where
  "string_replace_w conv oldc newc s =
     (if s = [] then Inr []
      else chk (cp_step conv s) (\<lambda>(c, r).
           let done_part = (if c = scast oldc then newc # tl (take (length s - length r) s) else take (length s - length r) s)
           in if r = [] then Inl Fault
              else chk (string_replace_w conv oldc newc (tl r)) (\<lambda>d. Inr (done_part @ hd r # d))))"
  by pat_completeness auto
termination by (relation "measure (\<lambda>(conv, a, b, s). length s)") (auto dest!: cp_step_shorter simp: less_imp_diff_less)

declare string_replace_w.simps [simp del]

definition alpha_safe :: "conv_env \<Rightarrow> bytes \<Rightarrow> u8 \<Rightarrow> u8 res" where
  "alpha_safe conv safe c =
     (if 0x41 \<le> c \<and> c \<le> 0x5A \<or> 0x61 \<le> c \<and> c \<le> 0x7A \<or> 0x30 \<le> c \<and> c \<le> 0x39 then Inr c
      else chk (strchr_m conv safe c) (\<lambda>p. Inr (if p \<noteq> None then c else 0x5F)))"

fun map_res :: "('a \<Rightarrow> 'b res) \<Rightarrow> 'a list \<Rightarrow> 'b list res" where
  "map_res f [] = Inr []"
| "map_res f (x # xs) = chk (f x) (\<lambda>y. chk (map_res f xs) (\<lambda>ys. Inr (y # ys)))"

definition alpha_strcpy :: "conv_env \<Rightarrow> bytes option \<Rightarrow> bytes option \<Rightarrow> nat \<Rightarrow> bytes option res" where
  "alpha_strcpy conv src other_safe_chars maxlength =
     (if maxlength = 0 then Inr None
      else case src of
             None \<Rightarrow> Inr (Some [])
           | Some src \<Rightarrow>
               let len = (if length src \<ge> maxlength then maxlength - 1 else length src);
                   safe = (case other_safe_chars of None \<Rightarrow> [] | Some p \<Rightarrow> p)
               in chk (map_res (alpha_safe conv safe) (take len src)) (\<lambda>d. Inr (Some d)))"

end
