(* ===== verification/Unistr_Props.thy ===== *)
theory Unistr_Props
  imports Unistr Charcnv_Props
begin

text \<open>
  What the functions on multibyte strings do on well-formed strings: the locale \<open>codepoint_codec\<close> is the contract of a
  charset, interpreted for UTF-8; a string is then a list of code points, and comparing, counting and changing the case
  work on that list. At the end, what they do on other strings.
\<close>

section \<open>Charsets\<close>

lemma sint_zero: "sint w = 0 \<longleftrightarrow> w = 0" for w :: "'a::len word"
  by (metis signed_0 signed_word_eqI)

locale codepoint_codec =
  fixes conv :: conv_env and enc :: "u32 \<Rightarrow> bytes" and scalar :: "u32 \<Rightarrow> bool"
  assumes enc_step: "scalar c \<Longrightarrow> cp_step conv (enc c @ rest) = Inr (c, rest)"
    and enc_push: "scalar c \<Longrightarrow> push_codepoint conv c = Inr (int (length (enc c)), enc c)"
    and enc_start: "scalar c \<Longrightarrow> enc c \<noteq> [] \<and> hd (enc c) \<noteq> 0"
    and enc_ascii: "scalar c \<Longrightarrow> is_ascii (hd (enc c)) \<Longrightarrow> enc c = [ucast c] \<and> c < 0x10000"
begin

definition chars :: "u32 list \<Rightarrow> bytes" where
  "chars cs = concat (map enc cs)"

lemma chars_simps [simp]: "chars [] = []" "chars (c # cs) = enc c @ chars cs" "chars (as @ bs) = chars as @ chars bs"
  by (simp_all add: chars_def)

lemma chars_Nil: "list_all scalar cs \<Longrightarrow> chars cs = [] \<longleftrightarrow> cs = []"
  using enc_start by (cases cs) auto

lemma chars_inj: "list_all scalar cs \<Longrightarrow> list_all scalar ds \<Longrightarrow> chars cs = chars ds \<Longrightarrow> cs = ds"
proof (induction cs arbitrary: ds)
  case Nil
  then show ?case using chars_Nil [of ds] by simp
next
  case (Cons c cs)
  then obtain d ds' where ds: "ds = d # ds'" using chars_Nil [of "c # cs"] by (cases ds) auto
  have e: "enc c @ chars cs = enc d @ chars ds'" and v: "scalar c" "scalar d" using Cons.prems ds by simp_all
  from arg_cong [OF e, of "cp_step conv"] have "c = d" "chars cs = chars ds'"
    unfolding enc_step [OF v(1)] enc_step [OF v(2)] by (simp_all only: sum.inject prod.inject)
  with Cons.IH [of ds'] Cons.prems ds show ?case by simp
qed

lemma schar_nonzero: "scalar c \<Longrightarrow> schar (enc c @ rest) \<noteq> 0"
  using enc_start [of c] by (cases "enc c") (auto simp: schar_def sint_zero)

text \<open>Comparing: equal in the sense of the case table, character by character.\<close>

lemma casecmp:
  assumes "list_all scalar cs" "list_all scalar ds" and U: "\<And>c. scalar c \<Longrightarrow> toupper_w up c = Inr (U c)" and inv: "\<not> scalar INVALID_CODEPOINT"
  shows "\<exists>r. casecmp_loop up conv (chars cs) (chars ds) = Inr r \<and> (r = 0 \<longleftrightarrow> map U cs = map U ds)"
  using assms(1,2)
proof (induction cs arbitrary: ds)
  case Nil
  then show ?case using schar_nonzero by (cases ds) (auto simp: casecmp_loop.simps schar_def)
next
  case (Cons c cs)
  show ?case
  proof (cases ds)
    case Nil
    with Cons.prems schar_nonzero [of c "chars cs"] show ?thesis by (subst casecmp_loop.simps) (simp add: schar_def)
  next
    case ds: (Cons d ds')
    with Cons.prems have v: "scalar c" "scalar d" "list_all scalar cs" "list_all scalar ds'" by simp_all
    from Cons.IH [OF v(3,4)] obtain r where r: "casecmp_loop up conv (chars cs) (chars ds') = Inr r" "r = 0 \<longleftrightarrow> map U cs = map U ds'" by blast
    have ne: "c \<noteq> INVALID_CODEPOINT" "d \<noteq> INVALID_CODEPOINT" using v inv by auto
    have "sint (c - d) \<noteq> 0" if "c \<noteq> d" using that by (simp add: sint_zero)
    with r v ne enc_start [OF v(1)] enc_start [OF v(2)] show ?thesis
      by (subst casecmp_loop.simps) (auto simp: ds enc_step U)
  qed
qed

lemma strlen_loop: "list_all scalar cs \<Longrightarrow> strlen_m_loop conv (chars cs) = Inr (sum_list (map (\<lambda>c. if c < 0x10000 then 1 else 2) cs))"
proof (induction cs)
  case (Cons c cs)
  then show ?case using enc_start [of c] by (subst strlen_m_loop.simps) (simp add: enc_step add.commute)
qed (simp add: strlen_m_loop.simps)

text \<open>The quick loop over ASCII characters at the start.\<close>

lemma ascii_prefix:
  assumes "list_all scalar cs"
  shows "\<exists>k \<le> length cs. takeWhile is_ascii (chars cs) = map ucast (take k cs) \<and> dropWhile is_ascii (chars cs) = chars (drop k cs) \<and>
    (\<forall>c \<in> set (take k cs). c < 0x10000)"
  using assms
proof (induction cs)
  case (Cons c cs)
  then obtain k where k: "k \<le> length cs" "takeWhile is_ascii (chars cs) = map ucast (take k cs)"
    "dropWhile is_ascii (chars cs) = chars (drop k cs)" "\<forall>c \<in> set (take k cs). c < 0x10000" by auto
  show ?case
  proof (cases "is_ascii (hd (enc c))")
    case True
    with enc_ascii [of c] Cons.prems have e: "enc c = [ucast c]" "c < 0x10000" "is_ascii (ucast c)" by auto
    with k show ?thesis by (intro exI [of _ "Suc k"]) auto
  next
    case False
    with enc_start [of c] Cons.prems show ?thesis by (intro exI [of _ 0]) (cases "enc c"; simp)
  qed
qed simp

lemma strlen:
  assumes "list_all scalar cs"
  shows "strlen_m conv (Some (chars cs)) = Inr (sum_list (map (\<lambda>c. if c < 0x10000 then 1 else 2) cs))"
proof -
  from ascii_prefix [OF assms] obtain k where k: "k \<le> length cs" "takeWhile is_ascii (chars cs) = map ucast (take k cs)"
    "dropWhile is_ascii (chars cs) = chars (drop k cs)" "\<forall>c \<in> set (take k cs). c < 0x10000" by blast
  have "sum_list (map (\<lambda>c. if c < 0x10000 then 1 else 2) (take k cs)) = length (take k cs)"
    using k(4) by (induction cs arbitrary: k) (auto simp: take_Cons split: nat.splits)
  moreover have "list_all scalar (drop k cs)" using assms by (auto simp: list_all_iff dest: in_set_dropD)
  moreover have "sum_list (map f cs) = sum_list (map f (take k cs)) + sum_list (map f (drop k cs))" for f :: "u32 \<Rightarrow> nat"
    by (metis append_take_drop_id map_append sum_list_append)
  ultimately show ?thesis using k by (simp add: strlen_m_def strlen_loop)
qed

text \<open>Changing the case.\<close>

lemma case_loop_chars:
  assumes "list_all scalar cs" and U: "\<And>c. scalar c \<Longrightarrow> f c = Inr (U c) \<and> scalar (U c)"
    and "length dest + length (chars (map U cs)) < room"
  shows "case_loop f conv room dest (chars cs) = Inr (Some (dest @ chars (map U cs)))"
  using assms(1,3)
proof (induction cs arbitrary: dest)
  case (Cons c cs)
  then show ?case using enc_start [of c] U [of c] by (subst case_loop.simps) (simp add: enc_step enc_push)
qed (simp add: case_loop.simps)

end

section \<open>UTF-8\<close>

definition utf8_env :: "conv_env \<Rightarrow> bool" where
  "utf8_env conv \<longleftrightarrow> conv CH_UNIX CH_UTF16 = Some (Direct utf8_pull) \<and> conv CH_UTF16 CH_UNIX = Some (Direct utf8_push)"

definition unicode :: "u32 \<Rightarrow> bool" where
  "unicode c \<longleftrightarrow> 0 < c \<and> c < 0x110000 \<and> \<not> (0xD800 \<le> c \<and> c < 0xE000)"

definition utf8_enc :: "u32 \<Rightarrow> bytes" where
  "utf8_enc c = (if c < 128 then [ucast c] else snd (snd (utf8_push (encode_units c) 5)))"

lemma utf8_enc:
  assumes env: "utf8_env conv" and c: "unicode c"
  shows "next_codepoint conv (utf8_enc c @ rest) = Inr (c, length (utf8_enc c))" (is ?next)
    and "push_codepoint conv c = Inr (int (length (utf8_enc c)), utf8_enc c)" (is ?push)
    and "utf8_enc c \<noteq> [] \<and> hd (utf8_enc c) \<noteq> 0 \<and> (is_ascii (hd (utf8_enc c)) \<longrightarrow> c < 128)" (is ?start)
proof -
  have "?next \<and> ?push \<and> ?start"
  proof (cases "c < 128")
    case True
    then have lt: "unat c < 128" by (simp add: word_less_nat_alt)
    have t: "c = take_bit 7 c" using lt by (simp add: word_unat_eq_iff unat_take_bit_mod)
    have "(ucast c :: u8) AND 0x80 = 0" unfolding u8_eq by (subst t) (simp add: bit_simps)
    moreover have u: "ucast (ucast c :: u8) = c" by (subst (2) t) (rule bit_word_eqI, subst t, auto simp: bit_simps)
    moreover have "(ucast c :: u8) \<noteq> 0"
    proof
      assume "(ucast c :: u8) = 0"
      with u have "c = 0" by (metis unsigned_0)
      with c show False by (simp add: unicode_def)
    qed
    ultimately show ?thesis using True by (simp add: utf8_enc_def next_codepoint_def push_codepoint_def)
  next
    case False
    then have "128 \<le> c" by simp
    with c env encode_reads_back [of conv c] obtain bs where bs: "utf8_push (encode_units c) 5 = (Inr 0, [], bs)" "bs \<noteq> []"
      "\<And>rest. next_codepoint conv (bs @ rest) = Inr (decode_units (encode_units c), length bs)"
      by (auto simp: reads_back_def utf8_env_def unicode_def)
    have d: "decode_units (encode_units c) = c" using c by (intro decode_encode) (simp add: unicode_def)
    have e: "utf8_enc c = bs" using False bs by (simp add: utf8_enc_def)
    have "\<not> is_ascii (hd bs)"
    proof
      assume a: "is_ascii (hd bs)"
      then have "next_codepoint conv bs = Inr (ucast (hd bs), 1)" using bs(2) by (cases bs) (simp_all add: next_codepoint_def is_ascii_def)
      with bs(3) [of "[]"] d have "c = ucast (hd bs)" by simp
      moreover have "take_bit 7 (hd bs) = hd bs" using a unfolding is_ascii_def u8_eq by (auto simp: bit_simps)
      then have "unat (hd bs) < 128" using unat_take_bit_mod [of 7 "hd bs"] by simp
      ultimately show False using False by (simp add: word_less_nat_alt unsigned_ucast_eq take_bit_nat_eq_self)
    qed
    moreover from this have "hd bs \<noteq> 0" by (auto simp: is_ascii_def)
    ultimately show ?thesis using bs d e False env by (simp add: push_codepoint_def utf8_env_def)
  qed
  then show ?next ?push ?start by simp_all
qed

lemma utf8_codec: "utf8_env conv \<Longrightarrow> codepoint_codec conv utf8_enc unicode"
proof
  fix c rest
  assume env: "utf8_env conv" and c: "unicode c"
  note u = utf8_enc [OF env c]
  show "cp_step conv (utf8_enc c @ rest) = Inr (c, rest)" using u(1,3) by (simp add: cp_step_def)
  show "push_codepoint conv c = Inr (int (length (utf8_enc c)), utf8_enc c)" by (rule u(2))
  show "utf8_enc c \<noteq> [] \<and> hd (utf8_enc c) \<noteq> 0" using u(3) by simp
  show "utf8_enc c = [ucast c] \<and> c < 0x10000" if "is_ascii (hd (utf8_enc c))"
    using u(3) that by (auto simp: utf8_enc_def word_less_nat_alt)
qed

text \<open>The program as it starts: \<open>unix charset\<close> is UTF-8.\<close>

definition utf8_state :: charcnv_state where
  "utf8_state = \<lparr>unix_charset = ascii_str ''UTF8'', dos_charset = ascii_str ''CP850'', display_charset = ascii_str ''ASCII'',
     conv_handles = (\<lambda>_. No_Handle)\<rparr>"

lemma utf8_state_env: "utf8_env (conv_of (smb_iconv_open sys native charsets) utf8_state)"
  by (simp add: utf8_env_def conv_utf8 fresh_utf8_def utf8_state_def)

interpretation unix: codepoint_codec "conv_of (smb_iconv_open sys native charsets) utf8_state" utf8_enc unicode for sys native charsets
  by (rule utf8_codec [OF utf8_state_env])

section \<open>Comparing, counting and changing the case\<close>

definition utf8 :: "u32 list \<Rightarrow> bytes" where
  "utf8 cs = concat (map utf8_enc cs)"

definition upper_of :: "case_table \<Rightarrow> u32 \<Rightarrow> u32" where
  "upper_of up c = (case toupper_w up c of Inl _ \<Rightarrow> c | Inr u \<Rightarrow> u)"

text \<open>
  What the code relies on of the table: it maps characters to characters, and, as a comment says, the length of a character
  grows by at most one byte.
\<close>

definition case_ok :: "case_table \<Rightarrow> bool" where
  "case_ok up \<longleftrightarrow> (\<forall>c. unicode c \<longrightarrow> toupper_w up c = Inr (upper_of up c) \<and> unicode (upper_of up c) \<and>
     length (utf8_enc (upper_of up c)) \<le> length (utf8_enc c) + 1)"

lemma upper_length:
  assumes "case_ok up" "list_all unicode cs" "utf8_env conv"
  shows "length (utf8 (map (upper_of up) cs)) \<le> 2 * length (utf8 cs)"
  using assms(2)
proof (induction cs)
  case (Cons c cs)
  with assms(1) have "length (utf8_enc (upper_of up c)) \<le> length (utf8_enc c) + 1" by (simp add: case_ok_def)
  moreover have "1 \<le> length (utf8_enc c)" using utf8_enc(3) [OF assms(3), of c] Cons.prems by (cases "utf8_enc c") auto
  ultimately show ?case using Cons by (simp add: utf8_def)
qed (simp add: utf8_def)

text \<open>
  C40. On well-formed UTF-8 the functions work on the list of code points: \<open>strupper_talloc\<close> gives the string of the mapped
  code points and stays in the block it allocated, \<open>strcasecmp_m\<close> gives 0 exactly when the mapped code points are the same,
  and \<open>strlen_m\<close> counts the units of UTF-16.
\<close>

theorem unistr_codepoints:
  assumes env: "utf8_env conv" and up: "case_ok up" and cs: "list_all unicode cs" and ds: "list_all unicode ds"
    and small: "2 * length (utf8 cs) + 1 < MAX_TALLOC_SIZE"
  shows "strupper_talloc up conv (Some (utf8 cs)) = Inr (Some (utf8 (map (upper_of up) cs))) \<and>
    (\<exists>r. strcasecmp_m up conv (Some (utf8 cs)) (Some (utf8 ds)) = Inr r \<and> (r = 0 \<longleftrightarrow> map (upper_of up) cs = map (upper_of up) ds)) \<and>
    strlen_m conv (Some (utf8 cs)) = Inr (sum_list (map (\<lambda>c. if c < 0x10000 then 1 else 2) cs))"
proof -
  note codec = utf8_codec [OF env]
  have u: "codepoint_codec.chars utf8_enc xs = utf8 xs" for xs by (simp add: codepoint_codec.chars_def [OF codec] utf8_def)
  have "case_loop (toupper_w up) conv (2 * length (utf8 cs) + 1) [] (utf8 cs) = Inr (Some (utf8 (map (upper_of up) cs)))"
    using codepoint_codec.case_loop_chars [OF codec cs, of "toupper_w up" "upper_of up" "[]" "2 * length (utf8 cs) + 1"]
      upper_length [OF up cs env] up by (simp add: u case_ok_def)
  then have "strupper_talloc up conv (Some (utf8 cs)) = Inr (Some (utf8 (map (upper_of up) cs)))"
    using small by (simp add: strupper_talloc_def)
  moreover have "\<not> unicode INVALID_CODEPOINT" by (simp add: unicode_def INVALID_CODEPOINT_def)
  then have "\<exists>r. strcasecmp_m up conv (Some (utf8 cs)) (Some (utf8 ds)) = Inr r \<and> (r = 0 \<longleftrightarrow> map (upper_of up) cs = map (upper_of up) ds)"
    using codepoint_codec.casecmp [OF codec cs ds, of up "upper_of up"] up by (simp add: strcasecmp_m_def u case_ok_def)
  moreover note codepoint_codec.strlen [OF codec cs, unfolded u]
  ultimately show ?thesis by blast
qed

lemma ascii_upper: "list_all (\<lambda>n. ucast (toupper (ucast (word_of_nat n :: u32))) \<noteq> (0 :: u32) \<and>
    ucast (toupper (ucast (word_of_nat n :: u32))) < (128 :: u32)) [1..<128]"
  by code_simp

lemma case_ok_no_table: "case_ok None"
  unfolding case_ok_def
proof (intro allI impI)
  fix c
  assume c: "unicode c"
  show "toupper_w None c = Inr (upper_of None c) \<and> unicode (upper_of None c) \<and> length (utf8_enc (upper_of None c)) \<le> length (utf8_enc c) + 1"
  proof (cases "c < 128")
    case True
    then have "unat c \<in> set [1..<128]" using c by (auto simp: unicode_def word_less_nat_alt)
    then have "ucast (toupper (ucast c)) \<noteq> (0 :: u32)" "ucast (toupper (ucast c)) < (128 :: u32)"
      using ascii_upper [unfolded list_all_iff, rule_format, of "unat c"] by simp_all
    with True show ?thesis
      by (auto simp: upper_of_def toupper_w_def table_case_def unicode_def utf8_enc_def word_less_nat_alt word_le_nat_alt unat_gt_0)
  next
    case False
    with c show ?thesis by (simp add: upper_of_def toupper_w_def table_case_def)
  qed
qed

theorem unistr_codepoints_witness:
  "\<exists>r. strcasecmp_m None (conv_of (smb_iconv_open (\<lambda>_ _. None) False []) utf8_state) (Some (utf8 [0x61, 0xE9])) (Some (utf8 [0x41, 0xE9])) = Inr r \<and> r = 0"
proof -
  have "2 * length (utf8 [0x61, 0xE9]) + 1 < MAX_TALLOC_SIZE"
    by (simp add: utf8_def utf8_enc_def encode_units_def utf8_push_def utf8_push_loop.simps MAX_TALLOC_SIZE_def)
  from unistr_codepoints [OF utf8_state_env case_ok_no_table _ _ this, of "[0x41, 0xE9]" "\<lambda>_ _. None" False "[]"] show ?thesis
    by (auto simp: unicode_def upper_of_def toupper_w_def table_case_def toupper_def)
qed

section \<open>Other strings\<close>

text \<open>
  \<open>string_replace_w\<close> advances twice: on a string of one character it steps over the end. A byte that is not part of
  a character is skipped by \<open>strcasecmp_m\<close>, so that different strings compare equal. \<open>next_token\<close> loses a character
  when the token does not fit into its buffer.
\<close>

lemma replace_faults: "string_replace_w conv a b [0x61] = Inl Fault"
  by (subst string_replace_w.simps) (simp add: cp_step_def next_codepoint_def)

lemma casecmp_ignores_invalid:
  assumes "utf8_env conv"
  shows "strcasecmp_m up conv (Some [0xFF, 0x61]) (Some [0x62, 0x61]) = Inr 0"
proof -
  have "iconv_run (Direct utf8_pull) [0xFF, 0x61] n = Inr (Inl EINVAL, [0xFF, 0x61], [])" if "2 \<le> n" for n
    using that
    by (simp add: iconv_run_def smb_iconv_def utf8_pull_def utf8_pull_loop.simps)
  with assms have "cp_step conv [0xFF, 0x61] = Inr (INVALID_CODEPOINT, [0x61])"
    by (simp add: cp_step_def next_codepoint_def utf8_env_def)
  moreover have "cp_step conv [0x62, 0x61] = Inr (0x62, [0x61])" by (simp add: cp_step_def next_codepoint_def)
  ultimately show ?thesis by (simp add: strcasecmp_m_def casecmp_loop.simps INVALID_CODEPOINT_def)
qed

lemma token_loses_character: "next_token conv [0x61, 0x62, 0x63, 0x64] (Some [0x2C]) 3 = Inr (Some ([0x61, 0x62], [0x64]))"
  by (simp add: next_token_def strchr_m_def strchr_loop.simps cp_step_def next_codepoint_def Let_def)

end
