(* ===== verification/Spec2Isabelle.thy ===== *)
theory Spec2Isabelle
  imports Ndr_Props Asn1_Props Crypto_Props Crc32 Charcnv_Props Uuid Dom_Sid
    Ntlmssp_Props Packet_Props Idtree_Props Ntlmssp_Sign_Props Smb_Signing_Props
    Errormap Wbem_Props Wmi_Reg_Props Wbem_Enum_Props Wmi_Client_Props Spnego_Props
    Netlogon_Props Strlist Smb_Time Unistr_Props
begin

text \<open>
  A verification of the core of openvas-smb, the client a vulnerability scanner uses to query
  Windows hosts through WMI. The program is a small WMI client (\<open>src/wmi\<close>) on top of a copy of an
  early Samba 4 (\<open>src/samba\<close>).

  \<^bold>\<open>The parts of the program and how they interact.\<close> A WMI query is a remote call: its
  arguments and results are put into bytes by the NDR engine (\<open>librpc/ndr\<close>) with GUIDs and security
  identifiers as building blocks; the call travels in DCE/RPC packets over a stream socket
  (\<open>lib/stream/packet.c\<close>), either directly over TCP or inside SMB, whose messages are signed
  (\<open>libcli/raw/smb_signing.c\<close>). Before that the client authenticates: SPNEGO tokens are ASN.1
  (\<open>libcli/util/asn1.c\<close>) and carry NTLMSSP messages (\<open>auth/ntlmssp\<close>), whose signatures and seals use the
  hash functions and the stream cipher of \<open>lib/crypto\<close>. Strings change their charset on the way
  (\<open>lib/charset\<close>), and pending operations are named by small integers (\<open>lib/util/idtree.c\<close>). Everything that
  arrives from the network is parsed by this code, so the properties are about hostile input as much
  as about the right one.

  \<^bold>\<open>How the code is modelled.\<close> A function of the source is a function of the same name. A
  C structure is a record, an enumeration a datatype, a machine integer a word of its width. A function
  that changes a structure returns the changed structure. \<open>Smb_Prelude\<close> has the result type:
  \<open>Inl (Status s)\<close> is a return with the NTSTATUS \<open>s\<close>, \<open>Inl Fault\<close> is behaviour that C leaves undefined (an
  access outside an object, a NULL pointer followed), \<open>Inr\<close> a normal return; \<open>chk\<close> is the macro
  \<open>NDR_CHECK\<close>. A theorem that a function returns \<open>Inr\<close> or \<open>Status\<close> is a theorem of memory safety.
  Code that is not part of the repository (the C library's iconv, callbacks of the user) is a
  parameter.

  \<^bold>\<open>The theories.\<close>

  \<^item> \<open>Smb_Prelude\<close>: results, byte buffers, the macros of \<open>lib/util/byteorder.h\<close>, status codes, lemmas on
  words and lists. \<open>C_Strings\<close>: \<open>strtol\<close>, \<open>strtoul\<close>, the hexadecimal conversions and comparison without
  case of the C library.

  \<^item> \<open>Ndr\<close> models \<open>ndr.c\<close> and \<open>ndr_basic.c\<close>: the push and pull contexts, alignment, scalars, byte arrays,
  subcontexts, relative pointers, tokens, referent ids. \<open>Ndr_Safe\<close> has the locale \<open>ndr_reader\<close>: what
  a reader promises on any buffer, inherited by sequences and arrays. \<open>Ndr_Codec\<close> has the contract of a writer
  and its reader, \<open>Ndr_Relative\<close> the locale \<open>token_stack\<close> with relative and full pointers. \<open>Ndr_Props\<close>: mixed
  sequences of values round-trip in every byte order and alignment mode, readers stay in the
  buffer, subcontexts and relative pointers are found again, and where 32-bit sums wrap.

  \<^item> \<open>Asn1\<close> models \<open>asn1.c\<close>; \<open>Asn1_Safe\<close> has the locales of its readers on hostile input, \<open>Asn1_Codec\<close> and
  \<open>Asn1_Values\<close> the tag-length-value form, integers and object identifiers, \<open>Asn1_Props\<close> the properties: the
  readers stay in the buffer and end, every value type round-trips, and where the code goes wrong.

  \<^item> \<open>Spnego\<close> models \<open>auth/gensec/spnego_parse.c\<close>, the tokens of the negotiation. \<open>Spnego_Props\<close> has the locale \<open>field_loop\<close> for the
  loop over the fields of a token, interpreted for both kinds: tokens round-trip, a reply is read safely on any input.

  \<^item> \<open>Crypto\<close> models CRC-32, RC4, MD4, MD5 and HMAC-MD5 of \<open>lib/crypto\<close>; \<open>Crc32\<close>, \<open>Crypto_Lemmas\<close>,
  \<open>Crypto_Hash\<close> and \<open>Crypto_Props\<close> show that they are the functions of the standards (the bit-serial
  CRC, RFC 1320, 1321 and 2104), independent of how the input is cut into pieces.

  \<^item> \<open>Des\<close> models \<open>libcli/auth/smbdes.c\<close>. \<open>Des_Props\<close>: the locale \<open>feistel\<close>, decryption undoes encryption, all indices are in
  range. \<open>Netlogon\<close> models \<open>libcli/auth/credentials.c\<close>; \<open>Netlogon_Props\<close>: the two ends of a chain of credentials stay in step,
  stale and forged authenticators are refused.

  \<^item> \<open>Charset\<close> models the conversions of \<open>iconv.c\<close>, \<open>Charcnv\<close> those of \<open>charcnv.c\<close> on top of them.
  \<open>Charset_Lemmas\<close> has the locale \<open>iconv_function\<close>. \<open>Charset_Props\<close> and \<open>Charcnv_Props\<close>: conversions end and
  respect the room of the output, UTF-8 and UCS2-HEX lose nothing, code points survive.

  \<^item> \<open>Unistr\<close> models \<open>lib/charset/util_unistr.c\<close>, the functions on strings with several bytes per character. \<open>Unistr_Props\<close> has the
  locale \<open>codepoint_codec\<close>, interpreted for UTF-8: comparing, counting and changing the case of well-formed strings.

  \<^item> \<open>Smb_Time\<close>: the time conversions of \<open>lib/util/time.c\<close> and the calendar behind them; DOS and NT times round-trip.

  \<^item> \<open>Strlist\<close>: the lists of strings of \<open>lib/util/util_strlist.c\<close>; joining and splitting again.

  \<^item> \<open>Uuid\<close> and \<open>Dom_Sid\<close>: \<open>uuid.c\<close> and \<open>dom_sid.c\<close> with their text forms and comparisons.

  \<^item> \<open>Ntlmssp_Parse\<close>, \<open>Ntlmssp_Props\<close>: the generator and the parser of NTLMSSP messages. \<open>Ntlmssp_Sign\<close>,
  \<open>Ntlmssp_Sign_Props\<close>: signing and sealing; the locale \<open>duplex_peer\<close> and every exchange of packets over it.

  \<^item> \<open>Packet\<close>, \<open>Packet_Props\<close>: the framing of packets over a stream and the send queue. \<open>Idtree\<close>,
  \<open>Idtree_Props\<close>: the id allocator against an array, with the locale \<open>id_table\<close>.
  \<open>Smb_Signing\<close>, \<open>Smb_Signing_Props\<close>: SMB signatures and the life of signing on a connection as a step
  relation.

  \<^item> \<open>Errormap\<close>: the tables of \<open>libcli/util/errormap.c\<close> between NTSTATUS, Win32, DOS and Unix error codes.

  \<^item> \<open>Wbem\<close> models the objects of WMI and \<open>wmi/wbemdata.c\<close>: classes, instances, methods, copying, reading and
  writing properties. \<open>Wbem_Props\<close>: instances stay typed, what is put is got. \<open>Wmi_Reg\<close> models \<open>wmi/wmireg.c\<close>, the
  registry through WMI, against any server; \<open>Wmi_Reg_Props\<close>: what is set is read, if the server keeps the contract
  of \<open>StdRegProv\<close>.

  \<^item> \<open>Wbem_Enum\<close> models the rest of \<open>wbemdata.c\<close>: the parser \<open>WBEMDATA_Parse\<close> of a batch of objects, on top of the NDR
  engine, and \<open>SmartNext\<close>. \<open>Wbem_Enum_Props\<close>: hostile data, and well-formed batches. \<open>Wmi_Client\<close> models the queries of
  \<open>wmi/wmicso.c\<close>, \<open>wmirsop.c\<close> and \<open>wmic.c\<close> with their text and command lines, \<open>Nterr\<close> the names of status codes they
  print (\<open>libcli/util/nterr.c\<close>). \<open>Wmi_Client_Props\<close>: what a query returns, from the bytes of the server to the text.

  \<^bold>\<open>Bounds and loops.\<close> Loops over buffers are structurally recursive or have a measure. There is no
  fuel: the loops that could run for ever in the source (\<open>smb_iconv_loop\<close>, \<open>next_partial\<close>, \<open>build_up\<close>, \<open>query_loop\<close>, \<open>wmic_loop\<close>,
  \<open>read_mechTypes\<close>, \<open>read_init_loop\<close>, \<open>read_targ_loop\<close>) are
  partial functions; the properties show that the first three and \<open>read_targ_loop\<close> return, and the query if the server's batches end. NDR buffers are
  below \<open>2^31\<close> bytes in the safety theorems, as \<open>data_size\<close> of a packet of DCE/RPC is. Blocks of talloc are below
  \<open>MAX_TALLOC_SIZE\<close>, which \<open>talloc.c\<close> enforces.

  \<^bold>\<open>Not modelled.\<close> Input and output, the event loop and sockets (the operating system); what
  \<open>pidl\<close> generates during the build; the copies of ldb and tdb and the directory service on top of them, and the
  Kerberos and GSSAPI glue, which the WMI client does not reach; the configuration file. The remaining parts of
  the remote call runtime are planned next.
\<close>

end
